(* ===== verification/Prelude.thy ===== *)
theory Prelude
  imports Main "HOL-Library.Word"
begin

text \<open>
  Shared vocabulary of the development: the machine integer types of the sources, the bytes of
  a C++ string, decimal printing and reading as \<^verbatim>\<open>std::to_string\<close> and the digit loops of the
  sources do it, and the interface of a component that folds observations into a state.

  Signed 64-bit quantities (times in milliseconds, byte counts, generations) are \<open>int\<close>: signed
  overflow is undefined in C++ and no value of the program comes near the bound. Unsigned
  counters that are incremented or accumulated are \<open>64 word\<close>, where \<open>+\<close> wraps as in the source.
\<close>

type_synonym i64 = int
type_synonym u64 = "64 word"
type_synonym u32 = "32 word"

named_theorems model_defs "definitions unfolded together by a component's case analyses"

subsection \<open>Observation machines\<close>

text \<open>
  Most stateful components of the program are a class with one or a few mutating methods, fed
  with a sequence of observations. The contract of such a component is an invariant that every
  method keeps; the interface below lifts it to every run.
\<close>

abbreviation run :: "('s \<Rightarrow> 'e \<Rightarrow> 's) \<Rightarrow> 's \<Rightarrow> 'e list \<Rightarrow> 's" where
  "run step s es \<equiv> foldl step s es"

locale observer =
  fixes step :: "'s \<Rightarrow> 'e \<Rightarrow> 's" and good :: "'s \<Rightarrow> bool" and admissible :: "'s \<Rightarrow> 'e \<Rightarrow> bool"
  assumes step_good: "good s \<Longrightarrow> admissible s e \<Longrightarrow> good (step s e)"
begin

fun admissible_run :: "'s \<Rightarrow> 'e list \<Rightarrow> bool" where
  "admissible_run s [] = True"
| "admissible_run s (e # es) = (admissible s e \<and> admissible_run (step s e) es)"

lemma run_good: "good s \<Longrightarrow> admissible_run s es \<Longrightarrow> good (run step s es)"
  by (induction es arbitrary: s) (auto intro: step_good)

lemma run_good_total: "good s \<Longrightarrow> (\<And>s e. admissible s e) \<Longrightarrow> good (run step s es)"
  by (induction es arbitrary: s) (auto intro: step_good)

end

subsection \<open>Characters and decimal numbers\<close>

abbreviation code_of :: "char \<Rightarrow> nat" where
  "code_of c \<equiv> of_char c"

definition IsDigit :: "char \<Rightarrow> bool" where
  "IsDigit c \<longleftrightarrow> 48 \<le> code_of c \<and> code_of c \<le> 57"

definition digit_value :: "char \<Rightarrow> nat" where
  "digit_value c = code_of c - 48"

definition digit_char :: "nat \<Rightarrow> char" where
  "digit_char d = char_of (48 + d)"

lemma code_of_digit_char [simp]: "d < 10 \<Longrightarrow> code_of (digit_char d) = 48 + d"
  by (simp add: digit_char_def)

lemma IsDigit_digit_char [simp]: "d < 10 \<Longrightarrow> IsDigit (digit_char d)"
  by (simp add: IsDigit_def)

lemma digit_value_digit_char [simp]: "d < 10 \<Longrightarrow> digit_value (digit_char d) = d"
  by (simp add: digit_value_def)

lemma digit_value_less: "IsDigit c \<Longrightarrow> digit_value c < 10"
  unfolding IsDigit_def digit_value_def by linarith

text \<open>The value a left-to-right digit loop accumulates.\<close>

definition dec_value :: "string \<Rightarrow> nat" where
  "dec_value s = foldl (\<lambda>v c. v * 10 + digit_value c) 0 s"

lemma dec_value_Nil [simp]: "dec_value [] = 0"
  by (simp add: dec_value_def)

lemma dec_value_snoc [simp]: "dec_value (s @ [c]) = dec_value s * 10 + digit_value c"
  by (simp add: dec_value_def)

lemma dec_value_less: "(\<forall>c\<in>set s. IsDigit c) \<Longrightarrow> dec_value s < 10 ^ length s"
proof (induction s rule: rev_induct)
  case Nil
  show ?case by simp
next
  case (snoc c s)
  then have "dec_value s < 10 ^ length s" and "digit_value c < 10"
    by (auto intro: digit_value_less)
  then show ?case by simp
qed

text \<open>\<^verbatim>\<open>std::to_string\<close> on a number that is not negative.\<close>

fun show_nat :: "nat \<Rightarrow> string" where
  "show_nat n = (if n < 10 then [digit_char n] else show_nat (n div 10) @ [digit_char (n mod 10)])"

declare show_nat.simps [simp del]

lemma show_nat_small: "n < 10 \<Longrightarrow> show_nat n = [digit_char n]"
  by (subst show_nat.simps) simp

lemma show_nat_step: "10 \<le> n \<Longrightarrow> show_nat n = show_nat (n div 10) @ [digit_char (n mod 10)]"
  by (subst show_nat.simps) simp

lemma show_nat_induct [case_names small step]:
  assumes "\<And>n. n < 10 \<Longrightarrow> P n" and "\<And>n. 10 \<le> n \<Longrightarrow> P (n div 10) \<Longrightarrow> P n"
  shows "P (n::nat)"
proof (induction n rule: less_induct)
  case (less n)
  show ?case
  proof (cases "n < 10")
    case False
    then have "P (n div 10)" by (intro less) simp
    with False show ?thesis by (auto intro: assms(2))
  qed (rule assms(1))
qed

lemma show_nat_not_Nil [simp]: "show_nat n \<noteq> []"
  by (subst show_nat.simps) simp

lemma show_nat_digits: "\<forall>c\<in>set (show_nat n). IsDigit c"
  by (induction n rule: show_nat_induct) (auto simp: show_nat_small show_nat_step)

lemma dec_value_show_nat [simp]: "dec_value (show_nat n) = n"
proof (induction n rule: show_nat_induct)
  case (small n)
  then show ?case by (simp add: show_nat_small dec_value_def)
next
  case (step n)
  then show ?case by (simp add: show_nat_step)
qed

lemma length_show_nat_le: "0 < d \<Longrightarrow> n < 10 ^ d \<Longrightarrow> length (show_nat n) \<le> d"
proof (induction n arbitrary: d rule: show_nat_induct)
  case (small n)
  then show ?case by (simp add: show_nat_small)
next
  case (step n)
  then obtain e where d: "d = Suc e" by (cases d) auto
  with step.prems step.hyps have "n div 10 < 10 ^ e" and "0 < e"
    by (auto simp: less_mult_imp_div_less mult.commute intro: gr0I)
  then have "length (show_nat (n div 10)) \<le> e" by (intro step.IH)
  then show ?case using step.hyps d by (simp add: show_nat_step)
qed

lemma length_show_nat_ge: "10 ^ d \<le> n \<Longrightarrow> d < length (show_nat n)"
proof -
  assume "10 ^ d \<le> n"
  also have "n < 10 ^ length (show_nat n)"
    using dec_value_less [OF show_nat_digits, of n] by simp
  finally show ?thesis by (simp add: power_strict_increasing_iff)
qed

subsection \<open>Digit runs\<close>

lemma takeWhile_digits_append:
  "\<forall>c\<in>set ds. IsDigit c \<Longrightarrow> rest = [] \<or> \<not> IsDigit (hd rest) \<Longrightarrow>
    takeWhile IsDigit (ds @ rest) = ds"
  by (induction ds) (cases rest; auto)+

subsection \<open>Signed division\<close>

text \<open>C++ division and remainder by a positive divisor: towards zero.\<close>

definition cdiv :: "int \<Rightarrow> int \<Rightarrow> int" where
  "cdiv a b = (if 0 \<le> a then a div b else - ((- a) div b))"

definition cmod :: "int \<Rightarrow> int \<Rightarrow> int" where
  "cmod a b = a - b * cdiv a b"

lemma cdiv_nonneg [simp]: "0 \<le> a \<Longrightarrow> cdiv a b = a div b"
  by (simp add: cdiv_def)

lemma cmod_nonneg [simp]: "0 \<le> a \<Longrightarrow> cmod a b = a mod b"
  by (simp add: cmod_def minus_mult_div_eq_mod)

text \<open>The idioms of the sources that round down.\<close>

lemma div_shift_neg: "0 < b \<Longrightarrow> a < 0 \<Longrightarrow> - ((b - 1 - a) div b) = a div (b::int)"
proof -
  assume b: "0 < b" and a: "a < 0"
  have "(b - 1 - a) div b = - (a div b)"
  proof (rule int_div_pos_eq)
    show "b - 1 - a = b * - (a div b) + (b - 1 - a mod b)"
      using mult_div_mod_eq [of b a] by (simp add: algebra_simps)
    show "0 \<le> b - 1 - a mod b" "b - 1 - a mod b < b"
      using pos_mod_bound [OF b, of a] pos_mod_sign [OF b, of a] by auto
  qed
  then show ?thesis by simp
qed

lemma cdiv_floor: "0 < b \<Longrightarrow> cdiv (if 0 \<le> a then a else a - (b - 1)) b = a div b"
  using div_shift_neg [of b a] by (auto simp: cdiv_def algebra_simps)

lemma cmod_floor: "0 < b \<Longrightarrow> (if cmod a b < 0 then cmod a b + b else cmod a b) = a mod b"
proof (cases "0 \<le> a")
  case True
  then show "0 < b \<Longrightarrow> ?thesis" using pos_mod_sign [of b a] by (auto simp: not_less)
next
  case False
  assume b: "0 < b"
  have m: "cmod a b = - ((- a) mod b)"
    using False by (simp add: cmod_def cdiv_def minus_mult_div_eq_mod [symmetric])
  show ?thesis
  proof (cases "(- a) mod b = 0")
    case True
    then have "b dvd a" by (simp add: mod_eq_0_iff_dvd)
    then show ?thesis using m True by simp
  next
    case nz: False
    then have "(- a) mod b > 0" using pos_mod_sign [OF b, of "- a"] by simp
    moreover have "a mod b = b - (- a) mod b" using nz by (metis zmod_zminus1_eq_if minus_minus)
    ultimately show ?thesis using m by simp
  qed
qed

lemma cmod_eq_0: "cmod a b = 0 \<longleftrightarrow> b dvd a"
proof (cases "0 \<le> a")
  case True
  then show ?thesis by (simp add: mod_eq_0_iff_dvd)
next
  case False
  then have "cmod a b = - ((- a) mod b)"
    by (simp add: cmod_def cdiv_def minus_mult_div_eq_mod [symmetric])
  then show ?thesis by (simp add: mod_eq_0_iff_dvd)
qed

text \<open>\<^verbatim>\<open>std::to_string\<close> on a signed number.\<close>

definition show_int :: "int \<Rightarrow> string" where
  "show_int n = (if n < 0 then CHR ''-'' # show_nat (nat (- n)) else show_nat (nat n))"

lemma show_int_nonneg [simp]: "0 \<le> n \<Longrightarrow> show_int n = show_nat (nat n)"
  by (simp add: show_int_def)

end
