(* ===== verification/NetPolicy.thy ===== *)
theory NetPolicy
  imports Prelude
begin

unbundle bit_operations_syntax

text \<open>
  The routing table decision of \<^verbatim>\<open>Service/NetPolicy.h\<close>: the prefixes that bypass the tunnel
  (\<open>kLocalBypassV4\<close>, \<open>kLocalBypassV6\<close>) and the capture routes computed from them
  (\<open>kTunCaptureV4\<close>, \<open>kTunCaptureV6\<close>) by prefix subtraction on an explicit stack. The locale
  \<open>prefix_complement\<close> proves the subtraction once over any address space that has bits; both
  families interpret it.
\<close>

section \<open>Prefixes over an address space with bits\<close>

text \<open>The measure of the subtraction's stack: splitting a node loses one unit.\<close>

definition node_weight :: "nat \<Rightarrow> nat \<Rightarrow> nat" where
  "node_weight w l = 2 * 2 ^ (w - l) - 1"

lemma node_weight_pos: "0 < node_weight w l"
proof -
  have "0 < (2::nat) ^ (w - l)" by simp
  then show ?thesis unfolding node_weight_def by linarith
qed

lemma node_weight_split: "l < w \<Longrightarrow> 2 * node_weight w (Suc l) < node_weight w l"
proof -
  assume "l < w"
  then have n: "w - l = Suc (w - Suc l)" by simp
  have "0 < (2::nat) ^ (w - Suc l)" by simp
  then show ?thesis unfolding node_weight_def n power_Suc by linarith
qed

text \<open>Counting the bits of a word from the top instead of from the bottom.\<close>

lemma reindex_from_top:
  fixes l w :: nat
  assumes "l \<le> w"
  shows "(\<forall>i. w - l \<le> i \<and> i < w \<longrightarrow> P i) \<longleftrightarrow> (\<forall>k<l. P (w - 1 - k))"
proof safe
  fix i
  assume *: "\<forall>k<l. P (w - 1 - k)" and i: "w - l \<le> i" "i < w"
  have "w - 1 - i < l" and "w - 1 - (w - 1 - i) = i" using i assms by linarith+
  with * show "P i" by metis
next
  fix k
  assume *: "\<forall>i. w - l \<le> i \<and> i < w \<longrightarrow> P i" and "k < l"
  then have "w - l \<le> w - 1 - k \<and> w - 1 - k < w" using assms by linarith
  with * show "P (w - 1 - k)" by blast
qed

text \<open>
  The interface: \<open>msb a k\<close> is the \<open>k\<close>-th bit of an address from the top, a prefix is a network
  and a length, and the operations of the code are characterised by those bits.
\<close>

locale prefix_space =
  fixes msb :: "'a \<Rightarrow> nat \<Rightarrow> bool" and net :: "'p \<Rightarrow> 'a" and len :: "'p \<Rightarrow> nat"
    and width :: nat and wf :: "'p \<Rightarrow> bool" and matches :: "'p \<Rightarrow> 'a \<Rightarrow> bool"
    and contains :: "'p \<Rightarrow> 'p \<Rightarrow> bool" and lower :: "'p \<Rightarrow> 'p" and upper :: "'p \<Rightarrow> 'p"
  assumes wf_len: "wf p \<Longrightarrow> len p \<le> width"
    and matches_iff: "wf p \<Longrightarrow> matches p a \<longleftrightarrow> (\<forall>k<len p. msb a k = msb (net p) k)"
    and contains_iff: "wf p \<Longrightarrow> wf q \<Longrightarrow> contains p q \<longleftrightarrow> len p \<le> len q \<and> matches p (net q)"
    and wf_lower: "wf p \<Longrightarrow> len p < width \<Longrightarrow> wf (lower p)"
    and wf_upper: "wf p \<Longrightarrow> len p < width \<Longrightarrow> wf (upper p)"
    and len_lower: "len (lower p) = Suc (len p)"
    and len_upper: "len (upper p) = Suc (len p)"
    and msb_lower: "wf p \<Longrightarrow> len p < width \<Longrightarrow> k \<le> len p \<Longrightarrow>
      msb (net (lower p)) k \<longleftrightarrow> k < len p \<and> msb (net p) k"
    and msb_upper: "wf p \<Longrightarrow> len p < width \<Longrightarrow> k \<le> len p \<Longrightarrow>
      msb (net (upper p)) k \<longleftrightarrow> k = len p \<or> msb (net p) k"
begin

lemma matches_net: "wf p \<Longrightarrow> matches p (net p)"
  by (simp add: matches_iff)

lemma containsD: "wf p \<Longrightarrow> wf q \<Longrightarrow> contains p q \<Longrightarrow> matches q a \<Longrightarrow> matches p a"
  by (simp add: contains_iff matches_iff)

lemma nested_or_disjoint:
  "wf p \<Longrightarrow> wf q \<Longrightarrow> matches p a \<Longrightarrow> matches q a \<Longrightarrow> contains p q \<or> contains q p"
  using nat_le_linear [of "len p" "len q"] by (auto simp: contains_iff matches_iff)

lemma contains_antisym_len:
  "wf p \<Longrightarrow> wf q \<Longrightarrow> contains p q \<Longrightarrow> \<not> contains q p \<Longrightarrow> len p < len q"
  by (rule ccontr) (auto simp: contains_iff matches_iff)

lemma matches_lower:
  "wf p \<Longrightarrow> len p < width \<Longrightarrow> matches (lower p) a \<longleftrightarrow> matches p a \<and> \<not> msb a (len p)"
  by (auto simp: matches_iff wf_lower len_lower msb_lower less_Suc_eq)

lemma matches_upper:
  "wf p \<Longrightarrow> len p < width \<Longrightarrow> matches (upper p) a \<longleftrightarrow> matches p a \<and> msb a (len p)"
  by (auto simp: matches_iff wf_upper len_upper msb_upper less_Suc_eq)

definition weight :: "'p list \<Rightarrow> nat" where
  "weight st = (\<Sum>p\<leftarrow>st. node_weight width (len p))"

lemma weight_Cons: "weight (p # st) = node_weight width (len p) + weight st"
  by (simp add: weight_def)

lemma weight_drop: "weight st < weight (p # st)"
  using node_weight_pos by (simp add: weight_Cons)

lemma weight_split: "len p < width \<Longrightarrow> weight (lower p # upper p # st) < weight (p # st)"
  using node_weight_split [of "len p" width] by (simp add: weight_Cons len_lower len_upper)

text \<open>Two prefixes of one list never match the same address.\<close>

abbreviation apart :: "'p \<Rightarrow> 'p \<Rightarrow> bool" where
  "apart p q \<equiv> (\<forall>a. \<not> (matches p a \<and> matches q a))"

end

lemma filter_apart_le:
  "sorted_wrt (\<lambda>p q. \<forall>a. \<not> (m p a \<and> m q a)) ps \<Longrightarrow> length (filter (\<lambda>p. m p a) ps) \<le> 1"
  by (induction ps) (auto simp: filter_empty_conv)

text \<open>
  The client: a loop over a stack of prefixes that drops what a bypass prefix covers, keeps what
  touches none, and splits the rest.
\<close>

locale prefix_complement = prefix_space msb net len width wf matches contains lower upper
  for msb :: "'a \<Rightarrow> nat \<Rightarrow> bool" and net :: "'p \<Rightarrow> 'a" and len :: "'p \<Rightarrow> nat"
    and width :: nat and wf :: "'p \<Rightarrow> bool" and matches :: "'p \<Rightarrow> 'a \<Rightarrow> bool"
    and contains :: "'p \<Rightarrow> 'p \<Rightarrow> bool" and lower :: "'p \<Rightarrow> 'p" and upper :: "'p \<Rightarrow> 'p" +
  fixes bypass :: "'p list" and loop :: "'p list \<Rightarrow> 'p list"
  assumes wf_bypass: "b \<in> set bypass \<Longrightarrow> wf b"
    and loop_Nil: "loop [] = []"
    and loop_Cons: "wf cur \<Longrightarrow> loop (cur # st) =
      (if \<exists>b\<in>set bypass. contains b cur then loop st
       else if \<exists>b\<in>set bypass. contains cur b then loop (lower cur # upper cur # st)
       else cur # loop st)"
begin

lemma straddle_len:
  assumes "wf cur" "\<not> (\<exists>b\<in>set bypass. contains b cur)" "b \<in> set bypass" "contains cur b"
  shows "len cur < width"
  using contains_antisym_len [of cur b] wf_len [of b] assms wf_bypass by fastforce

lemma loop_induct [consumes 1, case_names Nil covered straddles kept]:
  assumes "\<forall>p\<in>set st. wf p"
    and "P []"
    and "\<And>cur st. wf cur \<Longrightarrow> \<forall>p\<in>set st. wf p \<Longrightarrow> \<exists>b\<in>set bypass. contains b cur \<Longrightarrow>
      P st \<Longrightarrow> loop (cur # st) = loop st \<Longrightarrow> P (cur # st)"
    and "\<And>cur st. wf cur \<Longrightarrow> \<forall>p\<in>set st. wf p \<Longrightarrow> len cur < width \<Longrightarrow>
      P (lower cur # upper cur # st) \<Longrightarrow>
      loop (cur # st) = loop (lower cur # upper cur # st) \<Longrightarrow> P (cur # st)"
    and "\<And>cur st. wf cur \<Longrightarrow> \<forall>p\<in>set st. wf p \<Longrightarrow>
      \<forall>b\<in>set bypass. \<not> contains b cur \<and> \<not> contains cur b \<Longrightarrow>
      P st \<Longrightarrow> loop (cur # st) = cur # loop st \<Longrightarrow> P (cur # st)"
  shows "P st"
  using assms(1)
proof (induction "weight st" arbitrary: st rule: less_induct)
  case less
  show ?case
  proof (cases st)
    case Nil
    then show ?thesis by (simp add: assms(2))
  next
    case (Cons cur rest)
    with less.prems have wf: "wf cur" "\<forall>p\<in>set rest. wf p" by auto
    have IH: "P st'" if "weight st' < weight (cur # rest)" "\<forall>p\<in>set st'. wf p" for st'
      using less.hyps that Cons by blast
    have rest: "P rest" using IH weight_drop wf by blast
    consider "\<exists>b\<in>set bypass. contains b cur"
      | b where "\<not> (\<exists>b\<in>set bypass. contains b cur)" "b \<in> set bypass" "contains cur b"
      | "\<forall>b\<in>set bypass. \<not> contains b cur \<and> \<not> contains cur b" by blast
    then show ?thesis
    proof cases
      case 1
      have "loop (cur # rest) = loop rest"
        using loop_Cons [OF wf(1), of rest] 1 by auto
      with wf 1 rest show ?thesis unfolding Cons by (rule assms(3))
    next
      case 2
      then have len: "len cur < width" by (rule straddle_len [OF wf(1)])
      have split: "P (lower cur # upper cur # rest)"
        using IH weight_split [OF len] wf len by (auto simp: wf_lower wf_upper)
      have "loop (cur # rest) = loop (lower cur # upper cur # rest)"
        using loop_Cons [OF wf(1), of rest] 2 by auto
      with wf len split show ?thesis unfolding Cons by (rule assms(4))
    next
      case 3
      have "loop (cur # rest) = cur # loop rest"
        using loop_Cons [OF wf(1), of rest] 3 by auto
      with wf 3 rest show ?thesis unfolding Cons by (rule assms(5))
    qed
  qed
qed

theorem loop_exact:
  assumes "\<forall>p\<in>set st. wf p"
  shows "(\<exists>p\<in>set (loop st). matches p a) \<longleftrightarrow>
    (\<exists>p\<in>set st. matches p a) \<and> \<not> (\<exists>b\<in>set bypass. matches b a)"
  using assms
proof (induction rule: loop_induct)
  case Nil
  show ?case by (simp add: loop_Nil)
next
  case (covered cur st)
  then have "\<exists>b\<in>set bypass. matches b a" if "matches cur a"
    using that containsD wf_bypass by blast
  with covered show ?case by auto
next
  case (straddles cur st)
  then show ?case by (auto simp: matches_lower matches_upper)
next
  case (kept cur st)
  then show ?case by (auto dest: nested_or_disjoint wf_bypass)
qed

lemma loop_subset_matches:
  assumes "\<forall>p\<in>set st. wf p" "p \<in> set (loop st)" "matches p a"
  shows "\<exists>q\<in>set st. matches q a"
  using loop_exact [OF assms(1), of a] assms(2,3) by blast

theorem loop_apart:
  assumes "\<forall>p\<in>set st. wf p" and "sorted_wrt apart st"
  shows "sorted_wrt apart (loop st)"
  using assms
proof (induction rule: loop_induct)
  case Nil
  show ?case by (simp add: loop_Nil)
next
  case (covered cur st)
  then show ?case by simp
next
  case (straddles cur st)
  then show ?case by (auto simp: matches_lower matches_upper)
next
  case (kept cur st)
  then show ?case by (auto dest: loop_subset_matches)
qed

end

section \<open>IPv4\<close>

record V4Prefix =
  network :: u32
  prefix :: nat

definition kLocalBypassV4 :: "V4Prefix list" where
  "kLocalBypassV4 =
    [\<lparr>network = 0x0A000000, prefix = 8\<rparr>,
     \<lparr>network = 0xAC100000, prefix = 12\<rparr>,
     \<lparr>network = 0xC0A80000, prefix = 16\<rparr>]"

definition PrefixMask :: "nat \<Rightarrow> u32" where
  "PrefixMask p = (if p = 0 then 0 else push_bit (32 - p) 0xFFFFFFFF)"

definition ContainsV4 :: "V4Prefix \<Rightarrow> V4Prefix \<Rightarrow> bool" where
  "ContainsV4 outer inner =
    (if prefix outer > prefix inner then False
     else (network inner AND PrefixMask (prefix outer)) = network outer)"

text \<open>The inner loop: the first bypass prefix that covers the candidate ends it.\<close>

fun scan_bypass :: "('p \<Rightarrow> 'p \<Rightarrow> bool) \<Rightarrow> 'p list \<Rightarrow> 'p \<Rightarrow> bool \<Rightarrow> bool \<times> bool" where
  "scan_bypass contains [] cur straddles = (False, straddles)"
| "scan_bypass contains (b # bs) cur straddles =
    (if contains b cur then (True, straddles)
     else scan_bypass contains bs cur (straddles \<or> contains cur b))"

lemma scan_bypass_covered: "fst (scan_bypass c bs cur s) \<longleftrightarrow> (\<exists>b\<in>set bs. c b cur)"
  by (induction bs arbitrary: s) auto

lemma scan_bypass_straddles:
  "\<not> (\<exists>b\<in>set bs. c b cur) \<Longrightarrow> snd (scan_bypass c bs cur s) \<longleftrightarrow> s \<or> (\<exists>b\<in>set bs. c cur b)"
  by (induction bs arbitrary: s) auto

definition LowHalfV4 :: "V4Prefix \<Rightarrow> V4Prefix" where
  "LowHalfV4 cur = \<lparr>network = network cur, prefix = prefix cur + 1\<rparr>"

definition HighHalfV4 :: "V4Prefix \<Rightarrow> V4Prefix" where
  "HighHalfV4 cur =
    (let half = prefix cur + 1; step = push_bit (32 - half) 1
     in \<lparr>network = network cur + step, prefix = half\<rparr>)"

text \<open>The stack grows at the head of the list; the low half is pushed last and popped first.\<close>

function complement_v4_loop :: "V4Prefix list \<Rightarrow> V4Prefix list" where
  "complement_v4_loop [] = []"
| "complement_v4_loop (cur # stack) =
    (case scan_bypass ContainsV4 kLocalBypassV4 cur False of (covered, straddles) \<Rightarrow>
      if covered then complement_v4_loop stack
      else if \<not> straddles then cur # complement_v4_loop stack
      else complement_v4_loop (LowHalfV4 cur # HighHalfV4 cur # stack))"
  by pat_completeness auto

lemma bypass_v4_lengths: "b \<in> set kLocalBypassV4 \<Longrightarrow> prefix b \<le> 16"
  by (auto simp: kLocalBypassV4_def)

lemma scan_v4_short:
  assumes "scan_bypass ContainsV4 kLocalBypassV4 cur False = (False, True)"
  shows "prefix cur \<le> 16"
proof -
  have "\<exists>b\<in>set kLocalBypassV4. ContainsV4 cur b"
    using scan_bypass_covered [of ContainsV4 kLocalBypassV4 cur False]
      scan_bypass_straddles [of kLocalBypassV4 ContainsV4 cur False] assms by auto
  then show ?thesis
    by (auto simp: ContainsV4_def split: if_splits dest!: bypass_v4_lengths)
qed

termination complement_v4_loop
proof (relation "measure (\<lambda>st. \<Sum>p\<leftarrow>st. node_weight 32 (prefix p))", goal_cases)
  case (4 cur stack)
  then have "prefix cur \<le> 16" using scan_v4_short by simp
  then show ?case
    using node_weight_split [of "prefix cur" 32]
    by (simp add: LowHalfV4_def HighHalfV4_def Let_def)
qed (simp_all add: node_weight_pos)

declare complement_v4_loop.simps(2) [simp del]

definition ComplementV4 :: "V4Prefix list" where
  "ComplementV4 = complement_v4_loop [\<lparr>network = 0, prefix = 0\<rparr>]"

definition kTunCaptureV4 :: "V4Prefix list" where
  "kTunCaptureV4 = ComplementV4"

definition kTunCaptureV4Count :: nat where
  "kTunCaptureV4Count = length ComplementV4"

definition IsLocalBypassV4 :: "u32 \<Rightarrow> bool" where
  "IsLocalBypassV4 addr =
    list_ex (\<lambda>b. (addr AND PrefixMask (prefix b)) = network b) kLocalBypassV4"

text \<open>How the route table of the machine matches a destination against a prefix.\<close>

definition matches_v4 :: "V4Prefix \<Rightarrow> u32 \<Rightarrow> bool" where
  "matches_v4 p addr \<longleftrightarrow> (addr AND PrefixMask (prefix p)) = network p"

definition wf_v4 :: "V4Prefix \<Rightarrow> bool" where
  "wf_v4 p \<longleftrightarrow> prefix p \<le> 32 \<and> matches_v4 p (network p)"

definition msb_v4 :: "u32 \<Rightarrow> nat \<Rightarrow> bool" where
  "msb_v4 a k \<longleftrightarrow> k < 32 \<and> bit a (31 - k)"

lemma ones32: "(0xFFFFFFFF :: u32) = -1"
  by simp

lemma bit_PrefixMask: "p \<le> 32 \<Longrightarrow> i < 32 \<Longrightarrow> bit (PrefixMask p) i \<longleftrightarrow> 32 - p \<le> i"
  unfolding PrefixMask_def ones32 by (auto simp: bit_push_bit_iff bit_not_iff bit_mask_iff)

lemma matches_v4_bits:
  assumes "prefix p \<le> 32"
  shows "matches_v4 p a \<longleftrightarrow>
    (\<forall>i<32. bit (network p) i \<longleftrightarrow> 32 - prefix p \<le> i \<and> bit a i)"
proof -
  have "matches_v4 p a \<longleftrightarrow> (\<forall>i<32. bit (a AND PrefixMask (prefix p)) i = bit (network p) i)"
    unfolding matches_v4_def bit_eq_iff [of "a AND PrefixMask (prefix p)"]
    using bit_imp_le_length [where 'a = 32] by fastforce
  then show ?thesis using assms by (auto simp: bit_and_iff bit_PrefixMask)
qed

lemma wf_v4_bits:
  "wf_v4 p \<longleftrightarrow> prefix p \<le> 32 \<and> (\<forall>i<32 - prefix p. \<not> bit (network p) i)"
  unfolding wf_v4_def using matches_v4_bits [of p "network p"]
  by (meson diff_le_self leD leI less_le_trans)

lemma matches_v4_msb:
  assumes "wf_v4 p"
  shows "matches_v4 p a \<longleftrightarrow> (\<forall>k<prefix p. msb_v4 a k = msb_v4 (network p) k)"
proof -
  have le: "prefix p \<le> 32" and low: "\<forall>i<32 - prefix p. \<not> bit (network p) i"
    using assms by (auto simp: wf_v4_bits)
  have "matches_v4 p a \<longleftrightarrow> (\<forall>i. 32 - prefix p \<le> i \<and> i < 32 \<longrightarrow> bit a i = bit (network p) i)"
    using matches_v4_bits [OF le, of a] low by (meson leI)
  also have "\<dots> \<longleftrightarrow> (\<forall>k<prefix p. bit a (31 - k) = bit (network p) (31 - k))"
    using reindex_from_top [OF le, of "\<lambda>i. bit a i = bit (network p) i"] by simp
  finally show ?thesis using le by (auto simp: msb_v4_def)
qed

lemma network_HighHalfV4:
  assumes "wf_v4 p" "prefix p < 32" "i < 32"
  shows "bit (network (HighHalfV4 p)) i \<longleftrightarrow> i = 31 - prefix p \<or> bit (network p) i"
proof -
  have "\<not> bit (network p) (31 - prefix p)" using assms by (auto simp: wf_v4_bits)
  then have "network p + push_bit (31 - prefix p) 1 = network p OR push_bit (31 - prefix p) 1"
    by (intro disjunctive_add) (auto simp: bit_exp_iff)
  then show ?thesis using assms by (auto simp: HighHalfV4_def Let_def bit_or_iff bit_exp_iff)
qed

interpretation v4: prefix_space msb_v4 network prefix 32 wf_v4 matches_v4 ContainsV4 LowHalfV4 HighHalfV4
proof (unfold_locales, goal_cases)
  case (3 p q)
  then show ?case by (auto simp: ContainsV4_def matches_v4_def)
next
  case (4 p)
  then show ?case by (auto simp: wf_v4_bits LowHalfV4_def)
next
  case (5 p)
  then have "prefix (HighHalfV4 p) = Suc (prefix p)" by (simp add: HighHalfV4_def Let_def)
  with 5 show ?case by (auto simp: wf_v4_bits network_HighHalfV4)
next
  case (8 p k)
  then show ?case by (auto simp: wf_v4_bits msb_v4_def LowHalfV4_def order_le_less)
next
  case (9 p k)
  then show ?case by (auto simp: msb_v4_def network_HighHalfV4)
qed (auto simp: wf_v4_def matches_v4_msb LowHalfV4_def HighHalfV4_def Let_def)

lemma wf_bypass_v4: "b \<in> set kLocalBypassV4 \<Longrightarrow> wf_v4 b"
  by (auto simp: kLocalBypassV4_def wf_v4_def matches_v4_def PrefixMask_def)

interpretation v4_capture: prefix_complement msb_v4 network prefix 32 wf_v4 matches_v4 ContainsV4
  LowHalfV4 HighHalfV4 kLocalBypassV4 complement_v4_loop
proof unfold_locales
  show "complement_v4_loop (cur # st) =
    (if \<exists>b\<in>set kLocalBypassV4. ContainsV4 b cur then complement_v4_loop st
     else if \<exists>b\<in>set kLocalBypassV4. ContainsV4 cur b
       then complement_v4_loop (LowHalfV4 cur # HighHalfV4 cur # st)
     else cur # complement_v4_loop st)" for cur st
    using scan_bypass_covered [of ContainsV4 kLocalBypassV4 cur False]
      scan_bypass_straddles [of kLocalBypassV4 ContainsV4 cur False]
    by (subst complement_v4_loop.simps) (auto split: prod.splits)
qed (auto intro: wf_bypass_v4)

lemma IsLocalBypassV4_iff: "IsLocalBypassV4 a \<longleftrightarrow> (\<exists>b\<in>set kLocalBypassV4. matches_v4 b a)"
  by (simp add: IsLocalBypassV4_def matches_v4_def list_ex_iff)

lemma wf_root_v4: "wf_v4 \<lparr>network = 0, prefix = 0\<rparr>"
  by (simp add: wf_v4_def matches_v4_def)

lemma capture_v4_exact: "(\<exists>p\<in>set kTunCaptureV4. matches_v4 p a) \<longleftrightarrow> \<not> IsLocalBypassV4 a"
  using v4_capture.loop_exact [of "[\<lparr>network = 0, prefix = 0\<rparr>]" a] wf_root_v4
  by (simp add: kTunCaptureV4_def ComplementV4_def IsLocalBypassV4_iff matches_v4_def PrefixMask_def)

lemma capture_v4_apart: "sorted_wrt v4.apart kTunCaptureV4"
  using v4_capture.loop_apart [of "[\<lparr>network = 0, prefix = 0\<rparr>]"] wf_root_v4
  by (simp add: kTunCaptureV4_def ComplementV4_def)

lemmas v4_eval = kTunCaptureV4Count_def kTunCaptureV4_def ComplementV4_def complement_v4_loop.simps
  kLocalBypassV4_def ContainsV4_def PrefixMask_def LowHalfV4_def HighHalfV4_def Let_def

lemma capture_v4_count: "kTunCaptureV4Count = 31"
  by (simp add: v4_eval)

section \<open>IPv6\<close>

text \<open>The address is kept as its two halves, as the source keeps it.\<close>

record V6Prefix =
  hi :: u64
  lo :: u64
  prefix6 :: nat

definition kLocalBypassV6 :: "V6Prefix list" where
  "kLocalBypassV6 =
    [\<lparr>hi = 0xFC00000000000000, lo = 0, prefix6 = 7\<rparr>,
     \<lparr>hi = 0xFE80000000000000, lo = 0, prefix6 = 10\<rparr>,
     \<lparr>hi = 0xFF00000000000000, lo = 0, prefix6 = 8\<rparr>]"

definition MaskHi6 :: "nat \<Rightarrow> u64" where
  "MaskHi6 p = (if p = 0 then 0 else if p \<ge> 64 then NOT 0 else push_bit (64 - p) (NOT 0))"

definition MaskLo6 :: "nat \<Rightarrow> u64" where
  "MaskLo6 p = (if p \<le> 64 then 0 else if p \<ge> 128 then NOT 0 else push_bit (128 - p) (NOT 0))"

definition ContainsV6 :: "V6Prefix \<Rightarrow> V6Prefix \<Rightarrow> bool" where
  "ContainsV6 outer inner =
    (if prefix6 outer > prefix6 inner then False
     else (hi inner AND MaskHi6 (prefix6 outer)) = hi outer \<and>
          (lo inner AND MaskLo6 (prefix6 outer)) = lo outer)"

definition LowHalfV6 :: "V6Prefix \<Rightarrow> V6Prefix" where
  "LowHalfV6 cur = cur\<lparr>prefix6 := prefix6 cur + 1\<rparr>"

definition HighHalfV6 :: "V6Prefix \<Rightarrow> V6Prefix" where
  "HighHalfV6 cur =
    (let half = prefix6 cur + 1; high = cur\<lparr>prefix6 := half\<rparr>
     in if half \<le> 64 then high\<lparr>hi := hi cur + push_bit (64 - half) 1\<rparr>
        else high\<lparr>lo := lo cur + push_bit (128 - half) 1\<rparr>)"

function complement_v6_loop :: "V6Prefix list \<Rightarrow> V6Prefix list" where
  "complement_v6_loop [] = []"
| "complement_v6_loop (cur # stack) =
    (case scan_bypass ContainsV6 kLocalBypassV6 cur False of (covered, straddles) \<Rightarrow>
      if covered then complement_v6_loop stack
      else if \<not> straddles then cur # complement_v6_loop stack
      else complement_v6_loop (LowHalfV6 cur # HighHalfV6 cur # stack))"
  by pat_completeness auto

lemma scan_v6_short:
  assumes "scan_bypass ContainsV6 kLocalBypassV6 cur False = (False, True)"
  shows "prefix6 cur \<le> 10"
proof -
  have "\<exists>b\<in>set kLocalBypassV6. ContainsV6 cur b"
    using scan_bypass_covered [of ContainsV6 kLocalBypassV6 cur False]
      scan_bypass_straddles [of kLocalBypassV6 ContainsV6 cur False] assms by auto
  then show ?thesis by (auto simp: ContainsV6_def kLocalBypassV6_def split: if_splits)
qed

lemma prefix6_halves [simp]:
  "prefix6 (LowHalfV6 cur) = Suc (prefix6 cur)" "prefix6 (HighHalfV6 cur) = Suc (prefix6 cur)"
  by (simp_all add: LowHalfV6_def HighHalfV6_def Let_def)

termination complement_v6_loop
proof (relation "measure (\<lambda>st. \<Sum>p\<leftarrow>st. node_weight 128 (prefix6 p))", goal_cases)
  case (4 cur stack)
  then have "prefix6 cur \<le> 10" using scan_v6_short by simp
  then show ?case using node_weight_split [of "prefix6 cur" 128] by simp
qed (simp_all add: node_weight_pos)

declare complement_v6_loop.simps(2) [simp del]

definition ComplementV6 :: "V6Prefix list" where
  "ComplementV6 = complement_v6_loop [\<lparr>hi = 0, lo = 0, prefix6 = 0\<rparr>]"

definition kTunCaptureV6 :: "V6Prefix list" where
  "kTunCaptureV6 = ComplementV6"

definition kTunCaptureV6Count :: nat where
  "kTunCaptureV6Count = length ComplementV6"

definition IsLocalBypassV6 :: "u64 \<Rightarrow> u64 \<Rightarrow> bool" where
  "IsLocalBypassV6 h l =
    (if h = 0 \<and> l = 1 then True
     else list_ex (\<lambda>b. (h AND MaskHi6 (prefix6 b)) = hi b \<and> (l AND MaskLo6 (prefix6 b)) = lo b)
       kLocalBypassV6)"

definition matches_v6 :: "V6Prefix \<Rightarrow> u64 \<times> u64 \<Rightarrow> bool" where
  "matches_v6 p a \<longleftrightarrow>
    (fst a AND MaskHi6 (prefix6 p)) = hi p \<and> (snd a AND MaskLo6 (prefix6 p)) = lo p"

abbreviation net_v6 :: "V6Prefix \<Rightarrow> u64 \<times> u64" where
  "net_v6 p \<equiv> (hi p, lo p)"

definition wf_v6 :: "V6Prefix \<Rightarrow> bool" where
  "wf_v6 p \<longleftrightarrow> prefix6 p \<le> 128 \<and> matches_v6 p (net_v6 p)"

definition msb_v6 :: "u64 \<times> u64 \<Rightarrow> nat \<Rightarrow> bool" where
  "msb_v6 a k \<longleftrightarrow> (if k < 64 then bit (fst a) (63 - k) else k < 128 \<and> bit (snd a) (127 - k))"

text \<open>One 64-bit half masked to its first \<open>l\<close> bits, read from the top.\<close>

lemma and_high_mask:
  fixes a n m :: u64
  assumes "l \<le> 64" and "\<And>i. i < 64 \<Longrightarrow> bit m i \<longleftrightarrow> 64 - l \<le> i"
  shows "a AND m = n \<longleftrightarrow>
    (\<forall>k<64. bit n (63 - k) \<longleftrightarrow> k < l \<and> bit a (63 - k))"
proof -
  have "a AND m = n \<longleftrightarrow> (\<forall>i<64. bit n i \<longleftrightarrow> bit a i \<and> 64 - l \<le> i)"
    unfolding bit_eq_iff [of "a AND m"] using assms(2) bit_imp_le_length [where 'a = 64]
    by (fastforce simp: bit_and_iff)
  also have "\<dots> \<longleftrightarrow> (\<forall>k<64. bit n (63 - k) \<longleftrightarrow> bit a (63 - k) \<and> 64 - l \<le> 63 - k)"
    using reindex_from_top [of 64 64 "\<lambda>i. bit n i \<longleftrightarrow> bit a i \<and> 64 - l \<le> i"] by simp
  also have "\<dots> \<longleftrightarrow> (\<forall>k<64. bit n (63 - k) \<longleftrightarrow> k < l \<and> bit a (63 - k))"
  proof -
    have "64 - l \<le> 63 - k \<longleftrightarrow> k < l" if "k < 64" for k using that assms(1) by linarith
    then show ?thesis by blast
  qed
  finally show ?thesis .
qed

lemma bit_MaskHi6: "i < 64 \<Longrightarrow> bit (MaskHi6 p) i \<longleftrightarrow> 64 - min p 64 \<le> i"
  unfolding MaskHi6_def by (auto simp: bit_push_bit_iff bit_not_iff bit_mask_iff min_def)

lemma bit_MaskLo6: "i < 64 \<Longrightarrow> p \<le> 128 \<Longrightarrow> bit (MaskLo6 p) i \<longleftrightarrow> 64 - (p - 64) \<le> i"
  unfolding MaskLo6_def by (auto simp: bit_push_bit_iff bit_not_iff bit_mask_iff)

lemma all_less_128:
  "(\<forall>k<128::nat. P k) \<longleftrightarrow> (\<forall>k<64. P k) \<and> (\<forall>k<64. P (k + 64))"
proof safe
  fix k :: nat
  assume "\<forall>k<64. P k" "\<forall>k<64. P (k + 64)" "k < 128"
  then show "P k"
    by (cases "k < 64") (auto dest!: spec [of _ "k - 64"])
qed auto

lemma matches_v6_bits:
  assumes "prefix6 p \<le> 128"
  shows "matches_v6 p a \<longleftrightarrow> (\<forall>k<128. msb_v6 (net_v6 p) k \<longleftrightarrow> k < prefix6 p \<and> msb_v6 a k)"
proof -
  have "fst a AND MaskHi6 (prefix6 p) = hi p \<longleftrightarrow>
      (\<forall>k<64. bit (hi p) (63 - k) \<longleftrightarrow> k < min (prefix6 p) 64 \<and> bit (fst a) (63 - k))"
    by (intro and_high_mask bit_MaskHi6) auto
  also have "\<dots> \<longleftrightarrow> (\<forall>k<64. msb_v6 (net_v6 p) k \<longleftrightarrow> k < prefix6 p \<and> msb_v6 a k)"
    by (auto simp: msb_v6_def)
  finally have h: "fst a AND MaskHi6 (prefix6 p) = hi p \<longleftrightarrow> \<dots>" .
  have "snd a AND MaskLo6 (prefix6 p) = lo p \<longleftrightarrow>
      (\<forall>k<64. bit (lo p) (63 - k) \<longleftrightarrow> k < prefix6 p - 64 \<and> bit (snd a) (63 - k))"
    using assms by (intro and_high_mask bit_MaskLo6) auto
  also have "\<dots> \<longleftrightarrow> (\<forall>k<64. msb_v6 (net_v6 p) (k + 64) \<longleftrightarrow> k + 64 < prefix6 p \<and> msb_v6 a (k + 64))"
    by (auto simp: msb_v6_def less_diff_conv)
  finally have l: "snd a AND MaskLo6 (prefix6 p) = lo p \<longleftrightarrow> \<dots>" .
  show ?thesis unfolding matches_v6_def h l by (rule all_less_128 [symmetric])
qed

lemma wf_v6_bits:
  "wf_v6 p \<longleftrightarrow> prefix6 p \<le> 128 \<and> (\<forall>k. prefix6 p \<le> k \<and> k < 128 \<longrightarrow> \<not> msb_v6 (net_v6 p) k)"
  unfolding wf_v6_def using matches_v6_bits [of p "net_v6 p"] by (meson leD leI)

lemma matches_v6_msb:
  "wf_v6 p \<Longrightarrow> matches_v6 p a \<longleftrightarrow> (\<forall>k<prefix6 p. msb_v6 a k = msb_v6 (net_v6 p) k)"
  using matches_v6_bits [of p a] wf_v6_bits [of p] by (meson leI order_less_le_trans)

lemma add_power_bit:
  fixes n :: u64
  assumes "\<not> bit n j" and "i < 64"
  shows "bit (n + 2 ^ j) i \<longleftrightarrow> i = j \<or> bit n i"
proof -
  have "n + 2 ^ j = n OR 2 ^ j" using assms by (intro disjunctive_add) (auto simp: bit_exp_iff)
  then show ?thesis using assms by (auto simp: bit_or_iff bit_exp_iff)
qed

lemma msb_HighHalfV6:
  assumes "wf_v6 p" "prefix6 p < 128" "k < 128"
  shows "msb_v6 (net_v6 (HighHalfV6 p)) k \<longleftrightarrow> k = prefix6 p \<or> msb_v6 (net_v6 p) k"
proof -
  have n: "\<not> msb_v6 (net_v6 p) (prefix6 p)" using assms by (auto simp: wf_v6_bits)
  show ?thesis
  proof (cases "prefix6 p < 64")
    case True
    then have "\<not> bit (hi p) (63 - prefix6 p)" using n by (simp add: msb_v6_def)
    moreover have "63 - k = 63 - prefix6 p \<longleftrightarrow> k = prefix6 p" if "k < 64" using that True by linarith
    ultimately show ?thesis
      using True assms by (auto simp: msb_v6_def HighHalfV6_def Let_def add_power_bit)
  next
    case False
    then have "\<not> bit (lo p) (127 - prefix6 p)" using n assms by (simp add: msb_v6_def)
    moreover have "127 - k = 127 - prefix6 p \<longleftrightarrow> k = prefix6 p" using assms by linarith
    ultimately show ?thesis
      using False assms by (auto simp: msb_v6_def HighHalfV6_def Let_def add_power_bit)
  qed
qed

lemma net_LowHalfV6 [simp]: "net_v6 (LowHalfV6 p) = net_v6 p"
  by (simp add: LowHalfV6_def)

interpretation v6: prefix_space msb_v6 net_v6 prefix6 128 wf_v6 matches_v6 ContainsV6 LowHalfV6 HighHalfV6
proof (unfold_locales, goal_cases)
  case (1 p)
  then show ?case by (simp add: wf_v6_def)
next
  case (2 p a)
  then show ?case by (rule matches_v6_msb)
next
  case (3 p q)
  then show ?case by (auto simp: ContainsV6_def matches_v6_def)
next
  case (4 p)
  then show ?case unfolding wf_v6_bits net_LowHalfV6 by simp
next
  case (5 p)
  then show ?case using msb_HighHalfV6 [of p] wf_v6_bits [of p] wf_v6_bits [of "HighHalfV6 p"] by auto
next
  case (8 p k)
  then show ?case unfolding net_LowHalfV6 wf_v6_bits by (metis leI le_less_trans)
next
  case (9 p k)
  then show ?case using msb_HighHalfV6 [of p k] by simp
qed simp_all

lemma wf_bypass_v6: "b \<in> set kLocalBypassV6 \<Longrightarrow> wf_v6 b"
  by (auto simp: kLocalBypassV6_def wf_v6_def matches_v6_def MaskHi6_def MaskLo6_def
      mask_eq_exp_minus_1)

interpretation v6_capture: prefix_complement msb_v6 net_v6 prefix6 128 wf_v6 matches_v6 ContainsV6
  LowHalfV6 HighHalfV6 kLocalBypassV6 complement_v6_loop
proof unfold_locales
  show "complement_v6_loop (cur # st) =
    (if \<exists>b\<in>set kLocalBypassV6. ContainsV6 b cur then complement_v6_loop st
     else if \<exists>b\<in>set kLocalBypassV6. ContainsV6 cur b
       then complement_v6_loop (LowHalfV6 cur # HighHalfV6 cur # st)
     else cur # complement_v6_loop st)" for cur st
    using scan_bypass_covered [of ContainsV6 kLocalBypassV6 cur False]
      scan_bypass_straddles [of kLocalBypassV6 ContainsV6 cur False]
    by (subst complement_v6_loop.simps) (auto split: prod.splits)
qed (auto intro: wf_bypass_v6)

lemma IsLocalBypassV6_iff:
  "IsLocalBypassV6 h l \<longleftrightarrow> (h, l) = (0, 1) \<or> (\<exists>b\<in>set kLocalBypassV6. matches_v6 b (h, l))"
  by (auto simp: IsLocalBypassV6_def matches_v6_def list_ex_iff)

lemma wf_root_v6: "wf_v6 \<lparr>hi = 0, lo = 0, prefix6 = 0\<rparr>"
  by (simp add: wf_v6_def matches_v6_def)

lemma capture_v6_exact:
  "(\<exists>p\<in>set kTunCaptureV6. matches_v6 p a) \<longleftrightarrow> \<not> (\<exists>b\<in>set kLocalBypassV6. matches_v6 b a)"
  using v6_capture.loop_exact [of "[\<lparr>hi = 0, lo = 0, prefix6 = 0\<rparr>]" a] wf_root_v6
  by (simp add: kTunCaptureV6_def ComplementV6_def matches_v6_def MaskHi6_def MaskLo6_def)

lemma capture_v6_apart: "sorted_wrt v6.apart kTunCaptureV6"
  using v6_capture.loop_apart [of "[\<lparr>hi = 0, lo = 0, prefix6 = 0\<rparr>]"] wf_root_v6
  by (simp add: kTunCaptureV6_def ComplementV6_def)

lemmas v6_eval = kTunCaptureV6Count_def kTunCaptureV6_def ComplementV6_def complement_v6_loop.simps
  kLocalBypassV6_def ContainsV6_def MaskHi6_def MaskLo6_def LowHalfV6_def HighHalfV6_def Let_def
  mask_eq_exp_minus_1

lemma capture_v6_count: "kTunCaptureV6Count = 8"
  by (simp add: v6_eval)

text \<open>The network-order form the route, address and filter interfaces take.\<close>

definition Bytes :: "V6Prefix \<Rightarrow> 8 word list" where
  "Bytes p =
    map (\<lambda>i. ucast (drop_bit (56 - 8 * i) (hi p))) [0..<8] @
    map (\<lambda>i. ucast (drop_bit (56 - 8 * i) (lo p))) [0..<8]"

definition FromBytes :: "8 word list \<Rightarrow> nat \<Rightarrow> V6Prefix" where
  "FromBytes b p =
    (let accumulate = foldl (\<lambda>h x. push_bit 8 h OR ucast x) 0
     in \<lparr>hi = accumulate (map (\<lambda>i. b ! i) [0..<8]),
         lo = accumulate (map (\<lambda>i. b ! (8 + i)) [0..<8]), prefix6 = p\<rparr>)"

definition IsLocalBypassV6Bytes :: "8 word list \<Rightarrow> bool" where
  "IsLocalBypassV6Bytes addr = (let p = FromBytes addr 128 in IsLocalBypassV6 (hi p) (lo p))"

lemma byte_of_word:
  "push_bit 8 (drop_bit (n + 8) w) OR ucast (ucast (drop_bit n w) :: 8 word) = drop_bit n (w :: u64)"
  by (rule bit_word_eqI)
    (auto simp: bit_or_iff bit_push_bit_iff bit_unsigned_iff bit_drop_bit_eq add.commute)

lemma accumulate_bytes:
  "foldl (\<lambda>h x. push_bit 8 h OR ucast x) 0
    (map (\<lambda>i. ucast (drop_bit (56 - 8 * i) w) :: 8 word) [0..<8]) = (w :: u64)"
proof -
  have "drop_bit (56 + 8) w = 0"
    by (rule bit_word_eqI) (auto simp: bit_drop_bit_eq dest: bit_imp_le_length)
  then show ?thesis
    using byte_of_word [of 56 w] byte_of_word [of 48 w] byte_of_word [of 40 w]
      byte_of_word [of 32 w] byte_of_word [of 24 w] byte_of_word [of 16 w] byte_of_word [of 8 w]
      byte_of_word [of 0 w]
    by (simp add: upt_rec)
qed

lemma length_Bytes: "length (Bytes p) = 16"
  by (simp add: Bytes_def)

lemma bytes_back: "FromBytes (Bytes p) (prefix6 p) = p"
proof -
  have h: "map (\<lambda>i. Bytes p ! i) [0..<8] = map (\<lambda>i. ucast (drop_bit (56 - 8 * i) (hi p))) [0..<8]"
    by (simp add: Bytes_def nth_append)
  have l: "map (\<lambda>i. Bytes p ! (8 + i)) [0..<8] =
      map (\<lambda>i. ucast (drop_bit (56 - 8 * i) (lo p))) [0..<8]"
    by (simp add: Bytes_def nth_append)
  show ?thesis unfolding FromBytes_def Let_def h l accumulate_bytes by simp
qed

section \<open>Properties\<close>

text \<open>
  (C20) The capture routes and the bypass table are one decision seen from two sides: whatever the
  IPv4 destination, exactly one capture route of the tun matches it when it is not in the bypass
  table, and none does when it is. So nothing is missed, nothing local is captured, and no two
  routes compete.
\<close>

theorem capture_partition_v4:
  "length (filter (\<lambda>p. matches_v4 p a) kTunCaptureV4) = (if IsLocalBypassV4 a then 0 else 1)"
  using filter_apart_le [OF capture_v4_apart, of a] capture_v4_exact [of a]
  by (auto simp: filter_empty_conv le_Suc_eq)

text \<open>
  The same for IPv6. The one address the bypass test and the route set treat differently is
  the loopback \<open>::1\<close>: the test answers "bypass", while a capture prefix covers it and the
  loopback interface's own host route is left to win over it.
\<close>

theorem capture_partition_v6:
  "length (filter (\<lambda>p. matches_v6 p (h, l)) kTunCaptureV6) =
    (if IsLocalBypassV6 h l \<and> (h, l) \<noteq> (0, 1) then 0 else 1)"
proof -
  have "IsLocalBypassV6 h l \<and> (h, l) \<noteq> (0, 1) \<longleftrightarrow> (\<exists>b\<in>set kLocalBypassV6. matches_v6 b (h, l))"
    by (auto simp: IsLocalBypassV6_iff kLocalBypassV6_def matches_v6_def)
  then show ?thesis
    using filter_apart_le [OF capture_v6_apart, of "(h, l)"] capture_v6_exact [of "(h, l)"]
    by (auto simp: filter_empty_conv le_Suc_eq)
qed

text \<open>
  The sizes the build asserts for the two derived route sets.
\<close>

theorem capture_counts: "kTunCaptureV4Count = 31 \<and> kTunCaptureV6Count = 8"
  by (simp only: capture_v4_count capture_v6_count)

text \<open>
  An IPv6 prefix survives the trip through its sixteen network-order bytes.
\<close>

theorem v6_bytes_roundtrip: "FromBytes (Bytes p) (prefix6 p) = p \<and> length (Bytes p) = 16"
  by (simp only: bytes_back length_Bytes)

end
