(* ===== verification/DeadTunnel.thy ===== *)
theory DeadTunnel
  imports Prelude
begin

text \<open>
  The dead-tunnel failsafe of \<^verbatim>\<open>Service/DeadTunnelVerdict.h\<close> with the thresholds of
  \<^verbatim>\<open>Service/TunnelWatchdogSettings.h\<close>: the verdict (\<open>Evaluate\<close>), the balance hold that keeps an
  account out of balance from it (\<open>OutOfBalanceHold\<close>), the packet-counter tracker
  (\<open>TrafficTracker\<close>) and the destination-generation tracker (\<open>ConnectionEpochTracker\<close>).
\<close>

section \<open>Settings\<close>

record DeadTunnelSettings =
  deadFastMillis :: i64
  deadFastOutboundPackets :: u64
  deadSlowMillis :: i64
  sdkUnresponsiveMillis :: i64
  sdkUnresponsiveArmMillis :: i64
  failsafeNoticeMillis :: i64

definition DefaultDeadTunnelSettings :: DeadTunnelSettings where
  "DefaultDeadTunnelSettings = \<lparr>deadFastMillis = 20000, deadFastOutboundPackets = 8,
    deadSlowMillis = 90000, sdkUnresponsiveMillis = 30000, sdkUnresponsiveArmMillis = 10000,
    failsafeNoticeMillis = 30000\<rparr>"

definition StampInSession :: "i64 \<Rightarrow> i64 \<Rightarrow> i64" where
  "StampInSession stampMillis sessionStartMillis =
    (if stampMillis \<ge> sessionStartMillis then stampMillis else -1)"

section \<open>The balance hold\<close>

record BalanceReading =
  sampled :: bool
  insufficientBalance :: bool
  noPermission :: bool
  connectionGeneration :: i64
  providerAddedCount :: i64

datatype BalanceStep = Step_None | Entered | Released

record OutOfBalanceHold =
  held :: bool
  refusedGeneration :: i64

definition InitOutOfBalanceHold :: OutOfBalanceHold where
  "InitOutOfBalanceHold = \<lparr>held = False, refusedGeneration = 0\<rparr>"

definition HoldObserve :: "OutOfBalanceHold \<Rightarrow> BalanceReading \<Rightarrow> OutOfBalanceHold \<times> BalanceStep" where
  "HoldObserve h reading =
    (if \<not> sampled reading then (h, Step_None)
     else if insufficientBalance reading then
       (let h' = h\<lparr>refusedGeneration := connectionGeneration reading\<rparr>
        in if held h then (h', Step_None) else (h'\<lparr>held := True\<rparr>, Entered))
     else if \<not> held h \<or> noPermission reading then (h, Step_None)
     else let granted = (connectionGeneration reading \<le> refusedGeneration h \<or>
                         providerAddedCount reading > 0)
          in if \<not> granted then (h, Step_None) else (h\<lparr>held := False\<rparr>, Released))"

section \<open>The verdict\<close>

datatype DeadTunnelReason = Reason_None | NoExit | NoInbound | SdkUnresponsive

definition kStopReasonNone :: string where "kStopReasonNone = ''''"
definition kStopReasonUser :: string where "kStopReasonUser = ''user''"
definition kStopReasonNoExit :: string where "kStopReasonNoExit = ''failsafe_no_exit''"
definition kStopReasonNoInbound :: string where "kStopReasonNoInbound = ''failsafe_no_inbound''"
definition kStopReasonUnresponsive :: string where
  "kStopReasonUnresponsive = ''failsafe_sdk_unresponsive''"

fun StopReasonOf :: "DeadTunnelReason \<Rightarrow> string" where
  "StopReasonOf Reason_None = kStopReasonNone"
| "StopReasonOf NoExit = kStopReasonNoExit"
| "StopReasonOf NoInbound = kStopReasonNoInbound"
| "StopReasonOf SdkUnresponsive = kStopReasonUnresponsive"

definition FailsafeFinalDisarm :: "bool \<Rightarrow> bool" where
  "FailsafeFinalDisarm killSwitchOn = (\<not> killSwitchOn)"

record DeadTunnelSignals =
  tunnelUp :: bool
  routesInstalled :: bool
  upSinceMillis :: i64
  trafficStartMillis :: i64
  providerWindowReady :: bool
  provenCount :: i64
  lastProvenMillis :: i64
  lastSampleMillis :: i64
  lastInboundMillis :: i64
  outboundSinceInbound :: u64
  outOfBalance :: bool

record DeadTunnelVerdict =
  reason :: DeadTunnelReason
  armed :: bool
  millisToFailsafe :: i64

definition NoVerdict :: DeadTunnelVerdict where
  "NoVerdict = \<lparr>reason = Reason_None, armed = False, millisToFailsafe = 0\<rparr>"

definition AgeSince :: "i64 \<Rightarrow> i64 \<Rightarrow> i64 \<Rightarrow> i64" where
  "AgeSince stampMillis upSince nowMillis =
    nowMillis - (if stampMillis < 0 then upSince else stampMillis)"

text \<open>The closure \<^verbatim>\<open>consider\<close> of the countdown block, on the running minimum \<open>soonest\<close>.\<close>

definition consider_remaining :: "i64 \<Rightarrow> i64 \<Rightarrow> i64" where
  "consider_remaining remaining0 soonest =
    (let remaining = (if remaining0 < 0 then 0 else remaining0)
     in if soonest < 0 \<or> remaining < soonest then remaining else soonest)"

definition sampleAge :: "DeadTunnelSignals \<Rightarrow> i64 \<Rightarrow> i64" where
  "sampleAge s now = AgeSince (lastSampleMillis s) (upSinceMillis s) now"

definition provenAge :: "DeadTunnelSignals \<Rightarrow> i64 \<Rightarrow> i64" where
  "provenAge s now = AgeSince (lastProvenMillis s) (upSinceMillis s) now"

definition inboundAge :: "DeadTunnelSignals \<Rightarrow> i64 \<Rightarrow> i64" where
  "inboundAge s now =
    (let trafficStart = (if trafficStartMillis s > 0 then trafficStartMillis s else upSinceMillis s)
     in AgeSince (lastInboundMillis s) trafficStart now)"

definition fastApplies :: "DeadTunnelSignals \<Rightarrow> DeadTunnelSettings \<Rightarrow> bool" where
  "fastApplies s st \<longleftrightarrow>
    \<not> outOfBalance s \<and> providerWindowReady s \<and> provenCount s = 0 \<and>
    outboundSinceInbound s \<ge> deadFastOutboundPackets st"

definition slowApplies :: "DeadTunnelSignals \<Rightarrow> bool" where
  "slowApplies s \<longleftrightarrow> \<not> outOfBalance s \<and> provenCount s = 0 \<and> lastSampleMillis s \<ge> 0"

definition soonestDeadline :: "DeadTunnelSignals \<Rightarrow> i64 \<Rightarrow> DeadTunnelSettings \<Rightarrow> i64" where
  "soonestDeadline s now st =
    (let s0 = (-1 :: i64);
         s1 = (if sampleAge s now \<ge> sdkUnresponsiveArmMillis st
               then consider_remaining (sdkUnresponsiveMillis st - sampleAge s now) s0 else s0);
         s2 = (if fastApplies s st
               then (let elapsed = (if inboundAge s now < provenAge s now
                                    then inboundAge s now else provenAge s now)
                     in consider_remaining (deadFastMillis st - elapsed) s1) else s1)
     in if slowApplies s then consider_remaining (deadSlowMillis st - provenAge s now) s2 else s2)"

definition Evaluate :: "DeadTunnelSignals \<Rightarrow> i64 \<Rightarrow> DeadTunnelSettings \<Rightarrow> DeadTunnelVerdict" where
  "Evaluate s now st =
    (if \<not> tunnelUp s \<or> \<not> routesInstalled s \<or> upSinceMillis s \<le> 0 then NoVerdict
     else if lastInboundMillis s \<ge> 0 \<and> inboundAge s now < deadFastMillis st then NoVerdict
     else if sampleAge s now \<ge> sdkUnresponsiveMillis st then NoVerdict\<lparr>reason := SdkUnresponsive\<rparr>
     else if fastApplies s st \<and> inboundAge s now \<ge> deadFastMillis st \<and>
             provenAge s now \<ge> deadFastMillis st then NoVerdict\<lparr>reason := NoInbound\<rparr>
     else if slowApplies s \<and> provenAge s now \<ge> deadSlowMillis st then NoVerdict\<lparr>reason := NoExit\<rparr>
     else let soonest = soonestDeadline s now st
          in if soonest \<ge> 0 \<and> soonest \<le> failsafeNoticeMillis st
             then NoVerdict\<lparr>armed := True, millisToFailsafe := soonest\<rparr> else NoVerdict)"

section \<open>The packet-counter tracker\<close>

record TrafficTracker =
  lastOutbound :: u64
  lastInbound :: u64
  outboundAtLastInbound :: u64
  ttLastInboundMillis :: i64

definition TrafficReset :: "u64 \<Rightarrow> u64 \<Rightarrow> TrafficTracker" where
  "TrafficReset outbound inbound = \<lparr>lastOutbound = outbound, lastInbound = inbound,
    outboundAtLastInbound = outbound, ttLastInboundMillis = -1\<rparr>"

definition TrafficObserve :: "TrafficTracker \<Rightarrow> u64 \<times> u64 \<times> i64 \<Rightarrow> TrafficTracker" where
  "TrafficObserve t sample = (case sample of (outbound, inbound, now) \<Rightarrow>
    (let t1 = (if inbound > lastInbound t
               then t\<lparr>lastInbound := inbound, ttLastInboundMillis := now,
                      outboundAtLastInbound := outbound\<rparr>
               else t)
     in if outbound > lastOutbound t1 then t1\<lparr>lastOutbound := outbound\<rparr> else t1))"

definition TrafficOutboundSinceInbound :: "TrafficTracker \<Rightarrow> u64" where
  "TrafficOutboundSinceInbound t =
    (if lastOutbound t > outboundAtLastInbound t then lastOutbound t - outboundAtLastInbound t else 0)"

section \<open>The destination-generation tracker\<close>

record ConnectionEpochUpdate =
  verdictClockReset :: bool
  trafficClockReset :: bool

record ConnectionEpochTracker =
  initialized :: bool
  forming :: bool
  epochGeneration :: i64

definition InitConnectionEpochTracker :: ConnectionEpochTracker where
  "InitConnectionEpochTracker = \<lparr>initialized = False, forming = False, epochGeneration = 0\<rparr>"

definition NoEpochUpdate :: ConnectionEpochUpdate where
  "NoEpochUpdate = \<lparr>verdictClockReset = False, trafficClockReset = False\<rparr>"

definition EpochObserve ::
  "ConnectionEpochTracker \<Rightarrow> i64 \<times> bool \<Rightarrow> ConnectionEpochTracker \<times> ConnectionEpochUpdate" where
  "EpochObserve t obs = (case obs of (generation, minSatisfied) \<Rightarrow>
    (if \<not> initialized t then
       (\<lparr>initialized = True, forming = \<not> minSatisfied, epochGeneration = generation\<rparr>, NoEpochUpdate)
     else if generation < epochGeneration t then (t, NoEpochUpdate)
     else if generation > epochGeneration t then
       (t\<lparr>epochGeneration := generation, forming := \<not> minSatisfied\<rparr>,
        \<lparr>verdictClockReset = True, trafficClockReset = True\<rparr>)
     else if forming t \<and> minSatisfied then
       (t\<lparr>forming := False\<rparr>, NoEpochUpdate\<lparr>trafficClockReset := True\<rparr>)
     else (t, NoEpochUpdate)))"

definition FastVerdictEligible :: "ConnectionEpochTracker \<Rightarrow> bool" where
  "FastVerdictEligible t \<longleftrightarrow> initialized t \<and> \<not> forming t"

section \<open>The hold as a history\<close>

definition is_refusal :: "BalanceReading \<Rightarrow> bool" where
  "is_refusal r \<longleftrightarrow> sampled r \<and> insufficientBalance r"

text \<open>A reading that says contracts go through again, after a refusal on generation \<open>g\<close>.\<close>

definition grants :: "i64 \<Rightarrow> BalanceReading \<Rightarrow> bool" where
  "grants g r \<longleftrightarrow> sampled r \<and> \<not> insufficientBalance r \<and> \<not> noPermission r \<and>
    (connectionGeneration r \<le> g \<or> providerAddedCount r > 0)"

definition hold_step :: "OutOfBalanceHold \<Rightarrow> BalanceReading \<Rightarrow> OutOfBalanceHold" where
  "hold_step h r = fst (HoldObserve h r)"

lemma hold_step_cases:
  "hold_step h r =
    (if is_refusal r then h\<lparr>held := True, refusedGeneration := connectionGeneration r\<rparr>
     else if held h \<and> grants (refusedGeneration h) r then h\<lparr>held := False\<rparr> else h)"
  by (auto simp: hold_step_def HoldObserve_def is_refusal_def grants_def Let_def)

lemma hold_run_no_refusal:
  "list_all (\<lambda>x. \<not> is_refusal x) rs \<Longrightarrow>
    refusedGeneration (run hold_step h rs) = refusedGeneration h \<and>
    held (run hold_step h rs) = (held h \<and> list_all (\<lambda>x. \<not> grants (refusedGeneration h) x) rs)"
  by (induction rs arbitrary: h) (auto simp: hold_step_cases)

lemma last_refusal_split:
  assumes "list_ex is_refusal rs"
  obtains pre r post where "rs = pre @ r # post" "is_refusal r" "list_all (\<lambda>x. \<not> is_refusal x) post"
  using assms split_list_last_prop [of rs is_refusal] by (auto simp: list_ex_iff list_all_iff)

text \<open>The last refusal of the history, and what followed it.\<close>

fun after_last_refusal :: "BalanceReading list \<Rightarrow> (i64 \<times> BalanceReading list) option" where
  "after_last_refusal [] = None"
| "after_last_refusal (r # rs) =
    (case after_last_refusal rs of
       Some x \<Rightarrow> Some x
     | None \<Rightarrow> if is_refusal r then Some (connectionGeneration r, rs) else None)"

lemma after_last_refusal_None: "after_last_refusal rs = None \<longleftrightarrow> list_all (\<lambda>x. \<not> is_refusal x) rs"
  by (induction rs) (auto split: option.splits)

lemma after_last_refusal_split:
  "is_refusal r \<Longrightarrow> list_all (\<lambda>x. \<not> is_refusal x) post \<Longrightarrow>
    after_last_refusal (pre @ r # post) = Some (connectionGeneration r, post)"
  using after_last_refusal_None [of post] by (induction pre) auto

definition hold_spec :: "BalanceReading list \<Rightarrow> bool" where
  "hold_spec rs =
    (case after_last_refusal rs of
       None \<Rightarrow> False
     | Some (g, post) \<Rightarrow> list_all (\<lambda>x. \<not> grants g x) post)"

lemma hold_run_history: "held (run hold_step InitOutOfBalanceHold rs) = hold_spec rs"
proof (cases "list_ex is_refusal rs")
  case True
  then obtain pre r post where rs: "rs = pre @ r # post" "is_refusal r"
    "list_all (\<lambda>x. \<not> is_refusal x) post" by (rule last_refusal_split)
  then show ?thesis
    by (simp add: hold_spec_def after_last_refusal_split hold_step_cases hold_run_no_refusal)
next
  case False
  then have no: "list_all (\<lambda>x. \<not> is_refusal x) rs" by (simp add: list_all_iff list_ex_iff)
  then have "\<not> hold_spec rs" using after_last_refusal_None [of rs] by (simp add: hold_spec_def)
  with no show ?thesis by (simp add: hold_run_no_refusal InitOutOfBalanceHold_def)
qed

text \<open>
  (C26) The hold is exactly the history: a session is held out of balance if and only if some
  reading refused for balance and no reading since the last refusal says that contracts go
  through. A missing reading, a no-permission result or the status reset of a new destination
  releases nothing.
\<close>

theorem hold_refines_history: "held (run hold_step InitOutOfBalanceHold rs) = hold_spec rs"
  by (rule hold_run_history)

section \<open>The verdict's rules\<close>

text \<open>
  (C25) A tunnel that measurably carries is never torn down and never shown a countdown: a packet
  that came back within the fast window vetoes every rule, whatever the SDK claims or however
  long it has been silent.
\<close>

theorem carrying_veto:
  assumes "lastInboundMillis s \<ge> 0" and "now - lastInboundMillis s < deadFastMillis st"
  shows "Evaluate s now st = NoVerdict"
  using assms by (simp add: Evaluate_def inboundAge_def AgeSince_def)

theorem carrying_veto_witness:
  "Evaluate \<lparr>tunnelUp = True, routesInstalled = True, upSinceMillis = 1, trafficStartMillis = 0,
     providerWindowReady = True, provenCount = 0, lastProvenMillis = -1, lastSampleMillis = -1,
     lastInboundMillis = 200000, outboundSinceInbound = 50, outOfBalance = False\<rparr>
     219999 DefaultDeadTunnelSettings = NoVerdict"
  by (rule carrying_veto) (simp_all add: DefaultDeadTunnelSettings_def)

text \<open>
  An account out of balance is never stopped for its traffic: whatever the counters say, the
  verdict is either nothing or that the SDK itself stopped answering, and the only countdown
  shown is that one.
\<close>

theorem out_of_balance_not_stopped:
  assumes "outOfBalance s"
  shows "reason (Evaluate s now st) \<in>
      (if sampleAge s now \<ge> sdkUnresponsiveMillis st then {Reason_None, SdkUnresponsive} else {Reason_None})
    \<and> (armed (Evaluate s now st) \<longrightarrow> sampleAge s now \<ge> sdkUnresponsiveArmMillis st)"
  using assms
  by (auto simp: Evaluate_def fastApplies_def slowApplies_def soonestDeadline_def NoVerdict_def Let_def
      split: if_splits)

theorem out_of_balance_not_stopped_witness:
  "reason (Evaluate \<lparr>tunnelUp = True, routesInstalled = True, upSinceMillis = 1,
     trafficStartMillis = 0, providerWindowReady = True, provenCount = 0, lastProvenMillis = -1,
     lastSampleMillis = 499000, lastInboundMillis = -1, outboundSinceInbound = 5000,
     outOfBalance = True\<rparr> 500000 DefaultDeadTunnelSettings) = Reason_None"
  using out_of_balance_not_stopped [of "\<lparr>tunnelUp = True, routesInstalled = True, upSinceMillis = 1,
     trafficStartMillis = 0, providerWindowReady = True, provenCount = 0, lastProvenMillis = -1,
     lastSampleMillis = 499000, lastInboundMillis = -1, outboundSinceInbound = 5000,
     outOfBalance = True\<rparr>" 500000 DefaultDeadTunnelSettings]
  by (simp add: sampleAge_def AgeSince_def DefaultDeadTunnelSettings_def)

text \<open>The countdown block: what \<open>soonestDeadline\<close> is when nothing has fired.\<close>

definition nothing_fired :: "DeadTunnelSignals \<Rightarrow> i64 \<Rightarrow> DeadTunnelSettings \<Rightarrow> bool" where
  "nothing_fired s now st \<longleftrightarrow>
    sampleAge s now < sdkUnresponsiveMillis st \<and>
    \<not> (fastApplies s st \<and> inboundAge s now \<ge> deadFastMillis st \<and> provenAge s now \<ge> deadFastMillis st) \<and>
    \<not> (slowApplies s \<and> provenAge s now \<ge> deadSlowMillis st)"

definition judged :: "DeadTunnelSignals \<Rightarrow> i64 \<Rightarrow> DeadTunnelSettings \<Rightarrow> bool" where
  "judged s now st \<longleftrightarrow> tunnelUp s \<and> routesInstalled s \<and> upSinceMillis s > 0 \<and>
    \<not> (lastInboundMillis s \<ge> 0 \<and> inboundAge s now < deadFastMillis st)"

lemma reason_fired:
  "reason (Evaluate s now st) \<noteq> Reason_None \<longleftrightarrow> judged s now st \<and> \<not> nothing_fired s now st"
  by (auto simp: Evaluate_def NoVerdict_def judged_def nothing_fired_def Let_def)

lemma armed_iff:
  "armed (Evaluate s now st) \<longleftrightarrow> judged s now st \<and> nothing_fired s now st \<and>
    0 \<le> soonestDeadline s now st \<and> soonestDeadline s now st \<le> failsafeNoticeMillis st"
  by (auto simp: Evaluate_def NoVerdict_def judged_def nothing_fired_def Let_def)

lemma armed_millis:
  "armed (Evaluate s now st) \<Longrightarrow> millisToFailsafe (Evaluate s now st) = soonestDeadline s now st"
proof -
  assume "armed (Evaluate s now st)"
  then have j: "judged s now st" and n: "nothing_fired s now st"
    and b: "0 \<le> soonestDeadline s now st \<and> soonestDeadline s now st \<le> failsafeNoticeMillis st"
    by (simp_all add: armed_iff)
  from j have "\<not> (\<not> tunnelUp s \<or> \<not> routesInstalled s \<or> upSinceMillis s \<le> 0)"
    and "\<not> (lastInboundMillis s \<ge> 0 \<and> inboundAge s now < deadFastMillis st)"
    by (auto simp: judged_def)
  moreover from n have "\<not> sampleAge s now \<ge> sdkUnresponsiveMillis st" by (simp add: nothing_fired_def)
  moreover note n [unfolded nothing_fired_def, THEN conjunct2, THEN conjunct1]
    n [unfolded nothing_fired_def, THEN conjunct2, THEN conjunct2]
  ultimately show ?thesis using b by (simp only: Evaluate_def Let_def if_False if_True) simp
qed

lemma age_shift [simp]:
  "sampleAge s (now + d) = sampleAge s now + d" "provenAge s (now + d) = provenAge s now + d"
  "inboundAge s (now + d) = inboundAge s now + d"
  by (simp_all add: sampleAge_def provenAge_def inboundAge_def AgeSince_def Let_def)

lemma judged_later: "judged s now st \<Longrightarrow> 0 \<le> d \<Longrightarrow> judged s (now + d) st"
  by (auto simp: judged_def)

text \<open>The countdowns that are running, and their minimum.\<close>

definition deadlines :: "DeadTunnelSignals \<Rightarrow> i64 \<Rightarrow> DeadTunnelSettings \<Rightarrow> i64 list" where
  "deadlines s now st =
    (if sampleAge s now \<ge> sdkUnresponsiveArmMillis st then [sdkUnresponsiveMillis st - sampleAge s now] else []) @
    (if fastApplies s st then [deadFastMillis st - min (inboundAge s now) (provenAge s now)] else []) @
    (if slowApplies s then [deadSlowMillis st - provenAge s now] else [])"

lemma soonest_fold: "soonestDeadline s now st = fold consider_remaining (deadlines s now st) (-1)"
  by (simp add: soonestDeadline_def deadlines_def Let_def min_def)

lemma fold_consider_min:
  "\<forall>x\<in>set ds. 0 < x \<Longrightarrow> 0 < m \<Longrightarrow> fold consider_remaining ds m = Min (insert m (set ds))"
proof (induction ds arbitrary: m)
  case (Cons x ds)
  then have "consider_remaining x m = min x m" by (auto simp: consider_remaining_def)
  moreover have "fold consider_remaining ds (min x m) = Min (insert (min x m) (set ds))"
    using Cons by simp
  moreover have "Min (insert (min x m) (set ds)) = Min (insert m (set (x # ds)))"
    by (cases "ds = []") (auto simp: Min_insert ac_simps)
  ultimately show ?case by simp
qed simp

lemma fold_consider:
  "\<forall>x\<in>set ds. 0 < x \<Longrightarrow>
    fold consider_remaining ds (-1) = (if ds = [] then -1 else Min (set ds))"
  by (cases ds) (auto simp: fold_consider_min consider_remaining_def)

lemma deadlines_pos: "nothing_fired s now st \<Longrightarrow> \<forall>x\<in>set (deadlines s now st). 0 < x"
  by (auto simp: nothing_fired_def deadlines_def min_def split: if_splits)

lemma soonest_min:
  "nothing_fired s now st \<Longrightarrow> soonestDeadline s now st =
    (if deadlines s now st = [] then -1 else Min (set (deadlines s now st)))"
  using fold_consider [OF deadlines_pos] by (simp add: soonest_fold)

lemma deadline_fires: "x \<in> set (deadlines s now st) \<Longrightarrow> \<not> nothing_fired s (now + x) st"
  by (auto simp: nothing_fired_def deadlines_def split: if_splits)

lemma fires_deadline:
  assumes "nothing_fired s now st" "0 \<le> d" "\<not> nothing_fired s (now + d) st"
    and "sampleAge s now \<ge> sdkUnresponsiveArmMillis st \<or> sampleAge s now + d < sdkUnresponsiveMillis st"
  shows "\<exists>x\<in>set (deadlines s now st). x \<le> d"
  using assms by (auto simp: nothing_fired_def deadlines_def min_def)

lemma soonest_cases:
  assumes "nothing_fired s now st" and "0 \<le> soonestDeadline s now st"
  shows "0 < soonestDeadline s now st \<and> \<not> nothing_fired s (now + soonestDeadline s now st) st"
proof -
  have "deadlines s now st \<noteq> []" using assms soonest_min [OF assms(1)] by auto
  then have "soonestDeadline s now st \<in> set (deadlines s now st)"
    using soonest_min [OF assms(1)] by simp
  then show ?thesis using deadlines_pos [OF assms(1)] deadline_fires by blast
qed

lemma soonest_least:
  assumes "nothing_fired s now st" and "0 \<le> d" and "\<not> nothing_fired s (now + d) st"
    and "sampleAge s now \<ge> sdkUnresponsiveArmMillis st \<or> sampleAge s now + d < sdkUnresponsiveMillis st"
  shows "soonestDeadline s now st \<le> d"
proof -
  obtain x where "x \<in> set (deadlines s now st)" "x \<le> d" using fires_deadline [OF assms] by blast
  moreover have "Min (set (deadlines s now st)) \<le> x" using \<open>x \<in> _\<close> by simp
  moreover have "deadlines s now st \<noteq> []" using \<open>x \<in> _\<close> by auto
  ultimately show ?thesis using soonest_min [OF assms(1)] by (metis order_trans)
qed

text \<open>
  The countdown shown to the user is honest. While it is shown nothing has fired yet, the time
  given is positive and within the notice bound, and if no evidence arrives the failsafe fires
  exactly when that time has passed; it fires no earlier, unless the SDK's own silence, too short
  to be shown at this instant, runs out first.
\<close>

theorem countdown_exact:
  assumes "armed (Evaluate s now st)" and "m = millisToFailsafe (Evaluate s now st)"
  shows "0 < m \<and> m \<le> failsafeNoticeMillis st \<and> reason (Evaluate s now st) = Reason_None \<and>
    reason (Evaluate s (now + m) st) \<noteq> Reason_None \<and>
    (\<forall>d. 0 \<le> d \<longrightarrow> d < m \<longrightarrow> reason (Evaluate s (now + d) st) \<noteq> Reason_None \<longrightarrow>
      sampleAge s now < sdkUnresponsiveArmMillis st \<and> sampleAge s now + d \<ge> sdkUnresponsiveMillis st)"
proof -
  have m: "m = soonestDeadline s now st" using assms armed_millis by simp
  have j: "judged s now st" and n: "nothing_fired s now st" and "0 \<le> m" "m \<le> failsafeNoticeMillis st"
    using assms(1) m by (simp_all add: armed_iff)
  then have "0 < m" "\<not> nothing_fired s (now + m) st" using soonest_cases [OF n] m by simp_all
  moreover have "reason (Evaluate s (now + m) st) \<noteq> Reason_None"
    using calculation judged_later [OF j \<open>0 \<le> m\<close>] reason_fired by blast
  moreover have "reason (Evaluate s now st) = Reason_None" using n reason_fired by blast
  moreover have "sampleAge s now < sdkUnresponsiveArmMillis st \<and>
      sampleAge s now + d \<ge> sdkUnresponsiveMillis st"
    if "0 \<le> d" "d < m" "reason (Evaluate s (now + d) st) \<noteq> Reason_None" for d
    using soonest_least [OF n \<open>0 \<le> d\<close>] that m reason_fired by fastforce
  ultimately show ?thesis using \<open>m \<le> failsafeNoticeMillis st\<close> by blast
qed

theorem countdown_exact_witness:
  "let s = \<lparr>tunnelUp = True, routesInstalled = True, upSinceMillis = 1000,
        trafficStartMillis = 0, providerWindowReady = True, provenCount = 0, lastProvenMillis = -1,
        lastSampleMillis = 70000, lastInboundMillis = -1, outboundSinceInbound = 0,
        outOfBalance = False\<rparr>
   in millisToFailsafe (Evaluate s 71000 DefaultDeadTunnelSettings) = 20000 \<and>
      reason (Evaluate s 91000 DefaultDeadTunnelSettings) \<noteq> Reason_None"
proof -
  let ?s = "\<lparr>tunnelUp = True, routesInstalled = True, upSinceMillis = 1000,
        trafficStartMillis = 0, providerWindowReady = True, provenCount = 0, lastProvenMillis = -1,
        lastSampleMillis = 70000, lastInboundMillis = -1, outboundSinceInbound = 0,
        outOfBalance = False\<rparr>"
  have v: "Evaluate ?s 71000 DefaultDeadTunnelSettings =
      NoVerdict\<lparr>armed := True, millisToFailsafe := 20000\<rparr>"
    by (simp add: Evaluate_def soonestDeadline_def fastApplies_def slowApplies_def sampleAge_def
        provenAge_def inboundAge_def AgeSince_def consider_remaining_def DefaultDeadTunnelSettings_def Let_def)
  show ?thesis
    using countdown_exact [of ?s 71000 DefaultDeadTunnelSettings 20000] unfolding v Let_def
    by (simp add: NoVerdict_def)
qed

section \<open>The trackers over a run\<close>

text \<open>The pump's counters only grow; a sample is the two counters and the time they were read.\<close>

fun monotone_samples :: "u64 \<Rightarrow> u64 \<Rightarrow> (u64 \<times> u64 \<times> i64) list \<Rightarrow> bool" where
  "monotone_samples out0 in0 [] = True"
| "monotone_samples out0 in0 ((out1, in1, t) # xs) =
    (out0 \<le> out1 \<and> in0 \<le> in1 \<and> monotone_samples out1 in1 xs)"

fun outbound_at_last_move :: "u64 \<Rightarrow> u64 \<Rightarrow> (u64 \<times> u64 \<times> i64) list \<Rightarrow> u64" where
  "outbound_at_last_move at0 in0 [] = at0"
| "outbound_at_last_move at0 in0 ((out1, in1, t) # xs) =
    outbound_at_last_move (if in0 < in1 then out1 else at0) in1 xs"

fun final_outbound :: "u64 \<Rightarrow> (u64 \<times> u64 \<times> i64) list \<Rightarrow> u64" where
  "final_outbound out0 [] = out0"
| "final_outbound out0 ((out1, in1, t) # xs) = final_outbound out1 xs"

lemma traffic_run:
  assumes "monotone_samples (lastOutbound t) (lastInbound t) xs"
    and "outboundAtLastInbound t \<le> lastOutbound t"
  shows "let t' = run TrafficObserve t xs in
    lastOutbound t' = final_outbound (lastOutbound t) xs \<and>
    outboundAtLastInbound t' = outbound_at_last_move (outboundAtLastInbound t) (lastInbound t) xs \<and>
    outboundAtLastInbound t' \<le> lastOutbound t'"
  using assms
proof (induction xs arbitrary: t)
  case (Cons x xs)
  obtain out1 in1 now where x: "x = (out1, in1, now)" by (cases x)
  let ?t = "TrafficObserve t x"
  have f: "lastOutbound ?t = out1" "lastInbound ?t = in1"
    "outboundAtLastInbound ?t = (if lastInbound t < in1 then out1 else outboundAtLastInbound t)"
    using Cons.prems(1) unfolding x by (auto simp: TrafficObserve_def Let_def order_antisym)
  have "outboundAtLastInbound ?t \<le> lastOutbound ?t"
    using Cons.prems unfolding x f [unfolded x] by (auto intro: order_trans)
  moreover have "monotone_samples (lastOutbound ?t) (lastInbound ?t) xs"
    using Cons.prems(1) unfolding f by (simp add: x)
  ultimately show ?case using Cons.IH [of ?t] unfolding f by (simp add: x)
qed (simp add: Let_def)

text \<open>
  The commitment the fast rule reads is the outbound traffic since the last packet that came
  back: over any run of growing counters it is the exact difference, with no wrap-around, between
  the outbound counter now and the outbound counter when the inbound counter last moved.
\<close>

theorem traffic_since_inbound:
  assumes "monotone_samples out0 in0 xs"
  shows "unat (TrafficOutboundSinceInbound (run TrafficObserve (TrafficReset out0 in0) xs)) =
      unat (final_outbound out0 xs) - unat (outbound_at_last_move out0 in0 xs)
    \<and> outbound_at_last_move out0 in0 xs \<le> final_outbound out0 xs"
proof -
  let ?t = "run TrafficObserve (TrafficReset out0 in0) xs"
  have "lastOutbound ?t = final_outbound out0 xs"
    "outboundAtLastInbound ?t = outbound_at_last_move out0 in0 xs"
    "outboundAtLastInbound ?t \<le> lastOutbound ?t"
    using traffic_run [of "TrafficReset out0 in0" xs] assms
    by (auto simp: TrafficReset_def Let_def)
  then show ?thesis
    by (auto simp: TrafficOutboundSinceInbound_def unat_sub word_le_nat_alt not_less)
qed

theorem traffic_since_inbound_witness:
  "unat (TrafficOutboundSinceInbound
    (run TrafficObserve (TrafficReset 10 5) [(20, 5, 1), (25, 6, 2), (40, 6, 3)])) = 15"
  using traffic_since_inbound [of 10 5 "[(20, 5, 1), (25, 6, 2), (40, 6, 3)]"] by simp

fun epoch_updates :: "ConnectionEpochTracker \<Rightarrow> (i64 \<times> bool) list \<Rightarrow> ConnectionEpochUpdate list" where
  "epoch_updates t [] = []"
| "epoch_updates t (x # xs) = snd (EpochObserve t x) # epoch_updates (fst (EpochObserve t x)) xs"

definition epoch_step :: "ConnectionEpochTracker \<Rightarrow> i64 \<times> bool \<Rightarrow> ConnectionEpochTracker" where
  "epoch_step t x = fst (EpochObserve t x)"

text \<open>
  Window churn cannot keep resetting the failsafe: as long as no newer destination generation
  is observed, late callbacks from retired windows included, the verdict clocks are never reset,
  the traffic clock is reset at most once and only while the generation is still forming, and a
  tracker that lets the fast rule judge keeps letting it.
\<close>

theorem epoch_churn_bounded:
  assumes "initialized t" and "list_all (\<lambda>x. fst x \<le> epochGeneration t) xs"
  shows "length (filter verdictClockReset (epoch_updates t xs)) = 0 \<and>
    length (filter trafficClockReset (epoch_updates t xs)) \<le> (if forming t then 1 else 0) \<and>
    (FastVerdictEligible t \<longrightarrow> FastVerdictEligible (run epoch_step t xs))"
  using assms
proof (induction xs arbitrary: t)
  case (Cons x xs)
  let ?t = "fst (EpochObserve t x)"
  have "initialized ?t" "epochGeneration ?t = epochGeneration t"
    "\<not> verdictClockReset (snd (EpochObserve t x))"
    "trafficClockReset (snd (EpochObserve t x)) \<longleftrightarrow> forming t \<and> \<not> forming ?t"
    "\<not> forming t \<Longrightarrow> \<not> forming ?t"
    using Cons.prems by (auto simp: EpochObserve_def NoEpochUpdate_def split: prod.splits if_splits)
  moreover from this Cons have "length (filter verdictClockReset (epoch_updates ?t xs)) = 0 \<and>
    length (filter trafficClockReset (epoch_updates ?t xs)) \<le> (if forming ?t then 1 else 0) \<and>
    (FastVerdictEligible ?t \<longrightarrow> FastVerdictEligible (run epoch_step ?t xs))" by simp
  ultimately show ?case
    by (auto simp: FastVerdictEligible_def epoch_step_def [of t x] split: if_splits)
qed simp

theorem epoch_churn_bounded_witness:
  "length (filter trafficClockReset (epoch_updates \<lparr>initialized = True, forming = True, epochGeneration = 7\<rparr>
     [(7, False), (7, True), (6, False), (7, False), (7, True)])) \<le> 1"
  using epoch_churn_bounded [of "\<lparr>initialized = True, forming = True, epochGeneration = 7\<rparr>"
      "[(7, False), (7, True), (6, False), (7, False), (7, True)]"] by simp

end
