(* ===== verification/Capture.thy ===== *)
theory Capture
  imports Prelude
begin

text \<open>
  The capture transaction of \<^verbatim>\<open>Service/CaptureReadiness.h\<close>: the session's evidence
  (\<open>CaptureReadiness\<close>), its tickets, and \<open>ApplyCapture\<close>, which takes over the machine's network in
  four stages and rolls back when the evidence goes stale. Every method of the class runs under
  its mutex, so a concurrent history is a sequence of the operations \<open>CaptureOp\<close>; \<open>ApplyCapture\<close>
  runs with an arbitrary batch of them before each of its own lock acquisitions. The injected
  clock is an argument.
\<close>

section \<open>Data\<close>

record CaptureWindow =
  cwGeneration :: i64
  cwAdded :: i64

record CaptureTicket =
  tkRevision :: u64
  tkGeneration :: i64
  tkSampledMillis :: i64

record CaptureSample =
  smRevision :: u64
  smProofSinceMillis :: i64
  smStartedMillis :: i64

record CaptureNetworkEpoch =
  neRevision :: u64
  neMillis :: i64

record CaptureReadinessSettings =
  probeAgeResolutionMillis :: i64
  freshnessMillis :: i64
  sampleStallMillis :: i64

definition DefaultCaptureReadinessSettings :: CaptureReadinessSettings where
  "DefaultCaptureReadinessSettings =
    \<lparr>probeAgeResolutionMillis = 1000, freshnessMillis = 8000, sampleStallMillis = 30000\<rparr>"

section \<open>Exits and proofs\<close>

text \<open>The quotient is taken of a number that is not negative, where C++ and \<open>div\<close> agree.\<close>

definition CaptureProofAfterNetworkChange ::
  "i64 \<Rightarrow> i64 \<Rightarrow> i64 \<Rightarrow> CaptureReadinessSettings \<Rightarrow> bool" where
  "CaptureProofAfterNetworkChange ageSeconds sampleMillis changedMillis settings =
    (if changedMillis < 0 then True
     else let resolution = (if probeAgeResolutionMillis settings > 0
                            then probeAgeResolutionMillis settings else 0);
              elapsed = sampleMillis - changedMillis
          in ageSeconds \<ge> 0 \<and> elapsed \<ge> resolution \<and> ageSeconds \<le> (elapsed - resolution) div 1000)"

record CaptureExit =
  exProven :: bool
  exDone :: bool
  exQuarantined :: bool
  exWarning :: bool
  exProbeAgeSeconds :: i64

definition CaptureExitIsUsable ::
  "CaptureExit \<Rightarrow> i64 \<Rightarrow> i64 \<Rightarrow> CaptureReadinessSettings \<Rightarrow> bool" where
  "CaptureExitIsUsable ex sampleMillis changedMillis settings =
    (exProven ex \<and> \<not> exDone ex \<and> \<not> exQuarantined ex \<and> \<not> exWarning ex \<and>
     exProbeAgeSeconds ex \<ge> 0 \<and>
     CaptureProofAfterNetworkChange (exProbeAgeSeconds ex) sampleMillis changedMillis settings)"

definition CaptureWaitReason :: "CaptureWindow \<Rightarrow> i64 \<Rightarrow> string \<Rightarrow> string" where
  "CaptureWaitReason window usableProven stallReason =
    (if cwGeneration window = 0 then ''waiting-selection''
     else if usableProven > 0 \<and> cwAdded window > 0 then ''qualified''
     else if stallReason = ''platform-unreachable'' then ''platform-unreachable''
     else if stallReason = ''providers-unresponsive'' then ''providers-unresponsive''
     else if stallReason = ''auth-failing'' then ''auth-failing''
     else if stallReason = ''rate-limited'' then ''rate-limited''
     else if cwAdded window > 0 then ''qualification-pending'' else ''discovery-pending'')"

definition CaptureSampleStalled ::
  "i64 \<Rightarrow> i64 \<Rightarrow> i64 \<Rightarrow> CaptureReadinessSettings \<Rightarrow> bool" where
  "CaptureSampleStalled startedMillis sampledMillis nowMillis settings =
    (let last = (if sampledMillis \<ge> startedMillis then sampledMillis else startedMillis)
     in nowMillis - last \<ge> sampleStallMillis settings)"

section \<open>The readiness of a session\<close>

record CaptureReadiness =
  crRevision :: u64
  crGeneration :: i64
  crProofSinceMillis :: i64
  crNetworkRevision :: u64
  crHandledNetworkRevision :: u64
  crSampledMillis :: i64
  crSettings :: CaptureReadinessSettings
  crProven :: bool
  crCancelled :: bool
  crActive :: bool

definition InitCaptureReadiness :: "CaptureReadinessSettings \<Rightarrow> CaptureReadiness" where
  "InitCaptureReadiness settings = \<lparr>crRevision = 0, crGeneration = 0, crProofSinceMillis = -1,
    crNetworkRevision = 0, crHandledNetworkRevision = 0, crSampledMillis = 0, crSettings = settings,
    crProven = False, crCancelled = False, crActive = False\<rparr>"

definition FreshWithLock :: "CaptureReadiness \<Rightarrow> i64 \<Rightarrow> i64 \<Rightarrow> bool" where
  "FreshWithLock r now sampled =
    (let age = now - sampled in 0 \<le> age \<and> age \<le> freshnessMillis (crSettings r))"

definition CurrentWithLock :: "CaptureReadiness \<Rightarrow> CaptureTicket \<Rightarrow> i64 \<Rightarrow> bool" where
  "CurrentWithLock r ticket now \<longleftrightarrow>
    \<not> crCancelled r \<and> \<not> crActive r \<and> crProven r \<and>
    tkRevision ticket = crRevision r \<and> tkGeneration ticket = crGeneration r \<and>
    FreshWithLock r now (tkSampledMillis ticket)"

definition Invalidate :: "CaptureReadiness \<Rightarrow> i64 \<Rightarrow> CaptureReadiness" where
  "Invalidate r generation =
    (if generation < crGeneration r then r
     else r\<lparr>crGeneration := generation, crRevision := crRevision r + 1, crProven := False\<rparr>)"

definition NetworkChanged :: "CaptureReadiness \<Rightarrow> i64 \<Rightarrow> CaptureReadiness" where
  "NetworkChanged r now =
    r\<lparr>crProofSinceMillis := (if crProofSinceMillis r < now then now else crProofSinceMillis r),
      crNetworkRevision := crNetworkRevision r + 1,
      crRevision := crRevision r + 1, crProven := False\<rparr>"

definition ProofBarrier :: "CaptureReadiness \<Rightarrow> i64 \<Rightarrow> CaptureReadiness" where
  "ProofBarrier r now =
    r\<lparr>crProofSinceMillis := (if crProofSinceMillis r < now then now else crProofSinceMillis r),
      crRevision := crRevision r + 1, crProven := False\<rparr>"

definition PendingNetworkEvent :: "CaptureReadiness \<Rightarrow> CaptureNetworkEpoch option" where
  "PendingNetworkEvent r =
    (if crCancelled r \<or> crNetworkRevision r = crHandledNetworkRevision r then None
     else Some \<lparr>neRevision = crNetworkRevision r, neMillis = crProofSinceMillis r\<rparr>)"

definition NetworkEventHandled :: "CaptureReadiness \<Rightarrow> CaptureNetworkEpoch \<Rightarrow> CaptureReadiness" where
  "NetworkEventHandled r event =
    (if crHandledNetworkRevision r < neRevision event \<and> neRevision event \<le> crNetworkRevision r
     then r\<lparr>crHandledNetworkRevision := neRevision event\<rparr> else r)"

definition BeginSample :: "CaptureReadiness \<Rightarrow> i64 \<Rightarrow> CaptureSample" where
  "BeginSample r now = \<lparr>smRevision = crRevision r, smProofSinceMillis = crProofSinceMillis r,
    smStartedMillis = now\<rparr>"

definition CompleteSample ::
  "CaptureReadiness \<Rightarrow> CaptureSample \<Rightarrow> CaptureWindow \<Rightarrow> CaptureWindow \<Rightarrow> i64 \<Rightarrow> i64 \<Rightarrow>
    CaptureReadiness" where
  "CompleteSample r sample before after usableProven now =
    (if crCancelled r \<or> crActive r \<or> smRevision sample \<noteq> crRevision r then r
     else let proven = (cwGeneration before = cwGeneration after \<and>
                        cwGeneration after \<ge> crGeneration r \<and> cwGeneration after > 0 \<and>
                        cwAdded before > 0 \<and> cwAdded after > 0 \<and> usableProven > 0 \<and>
                        FreshWithLock r now (smStartedMillis sample));
              r1 = (if crGeneration r \<noteq> cwGeneration after \<or> crProven r \<noteq> proven
                    then r\<lparr>crRevision := crRevision r + 1\<rparr> else r);
              r2 = (if crGeneration r1 < cwGeneration before
                    then r1\<lparr>crGeneration := cwGeneration before\<rparr> else r1);
              r3 = (if crGeneration r2 < cwGeneration after
                    then r2\<lparr>crGeneration := cwGeneration after\<rparr> else r2)
          in r3\<lparr>crProven := proven, crSampledMillis := smStartedMillis sample\<rparr>)"

definition Ready :: "CaptureReadiness \<Rightarrow> i64 \<Rightarrow> CaptureTicket option" where
  "Ready r now =
    (if crCancelled r \<or> crActive r \<or> \<not> crProven r \<or> \<not> FreshWithLock r now (crSampledMillis r) then None
     else Some \<lparr>tkRevision = crRevision r, tkGeneration = crGeneration r,
       tkSampledMillis = crSampledMillis r\<rparr>)"

definition Commit :: "CaptureReadiness \<Rightarrow> CaptureTicket \<Rightarrow> i64 \<Rightarrow> CaptureReadiness \<times> bool" where
  "Commit r ticket now =
    (if \<not> CurrentWithLock r ticket now then (r, False) else (r\<lparr>crActive := True\<rparr>, True))"

definition Cancel :: "CaptureReadiness \<Rightarrow> CaptureReadiness" where
  "Cancel r = r\<lparr>crCancelled := True, crProven := False, crRevision := crRevision r + 1\<rparr>"

section \<open>Histories\<close>

datatype CaptureOp =
    OpInvalidate i64
  | OpNetworkChanged i64
  | OpProofBarrier i64
  | OpNetworkEventHandled CaptureNetworkEpoch
  | OpCompleteSample CaptureSample CaptureWindow CaptureWindow i64 i64
  | OpCommit CaptureTicket i64
  | OpCancel

fun capture_step :: "CaptureReadiness \<Rightarrow> CaptureOp \<Rightarrow> CaptureReadiness" where
  "capture_step r (OpInvalidate g) = Invalidate r g"
| "capture_step r (OpNetworkChanged now) = NetworkChanged r now"
| "capture_step r (OpProofBarrier now) = ProofBarrier r now"
| "capture_step r (OpNetworkEventHandled e) = NetworkEventHandled r e"
| "capture_step r (OpCompleteSample s b a u now) = CompleteSample r s b a u now"
| "capture_step r (OpCommit t now) = fst (Commit r t now)"
| "capture_step r OpCancel = Cancel r"

lemmas capture_defs = Invalidate_def NetworkChanged_def ProofBarrier_def NetworkEventHandled_def
  CompleteSample_def Commit_def Cancel_def Let_def

text \<open>
  The interface of a revision-stamped permit: operations may bump a wrapping revision by at most
  one, and a permit is honoured only at the revision it was issued at.
\<close>

locale revision_stamped =
  fixes step :: "'s \<Rightarrow> 'e \<Rightarrow> 's" and rev :: "'s \<Rightarrow> u64" and bumps :: "'s \<Rightarrow> 'e \<Rightarrow> bool"
    and stamp :: "'t \<Rightarrow> u64" and honoured :: "'s \<Rightarrow> 't \<Rightarrow> bool"
  assumes step_rev: "rev (step s e) = rev s + (if bumps s e then 1 else 0)"
    and honoured_rev: "honoured s t \<Longrightarrow> stamp t = rev s"
begin

fun bump_count :: "'s \<Rightarrow> 'e list \<Rightarrow> nat" where
  "bump_count s [] = 0"
| "bump_count s (e # es) = (if bumps s e then 1 else 0) + bump_count (step s e) es"

lemma run_rev: "rev (run step s es) = rev s + of_nat (bump_count s es)"
  by (induction es arbitrary: s) (simp_all add: step_rev algebra_simps)

lemma bump_count_le: "bump_count s es \<le> length es"
  by (induction es arbitrary: s) (auto simp: le_SucI add_mono)

lemma bump_count_append: "bump_count s (es @ fs) = bump_count s es + bump_count (run step s es) fs"
  by (induction es arbitrary: s) auto

theorem stale_never_honoured:
  assumes "stamp t = rev s" "length es < 2 ^ 64" "0 < bump_count s es"
  shows "\<not> honoured (run step s es) t"
proof
  assume "honoured (run step s es) t"
  then have "rev s = rev s + of_nat (bump_count s es)"
    using honoured_rev assms(1) by (metis run_rev)
  then have "(of_nat (bump_count s es) :: u64) = 0" by simp
  then have "2 ^ 64 dvd bump_count s es" by (simp add: word_of_nat_eq_0_iff)
  then have "2 ^ 64 \<le> bump_count s es" using assms(3) by (rule dvd_imp_le)
  then show False using assms(2) bump_count_le [of s es] by linarith
qed

end

fun capture_bumps :: "CaptureReadiness \<Rightarrow> CaptureOp \<Rightarrow> bool" where
  "capture_bumps r (OpInvalidate g) \<longleftrightarrow> crGeneration r \<le> g"
| "capture_bumps r (OpNetworkChanged now) \<longleftrightarrow> True"
| "capture_bumps r (OpProofBarrier now) \<longleftrightarrow> True"
| "capture_bumps r (OpNetworkEventHandled e) \<longleftrightarrow> False"
| "capture_bumps r (OpCompleteSample s b a u now) \<longleftrightarrow> crRevision (CompleteSample r s b a u now) \<noteq> crRevision r"
| "capture_bumps r (OpCommit t now) \<longleftrightarrow> False"
| "capture_bumps r OpCancel \<longleftrightarrow> True"

interpretation cap: revision_stamped capture_step crRevision capture_bumps tkRevision
  "\<lambda>r t. \<exists>now. CurrentWithLock r t now"
proof
  fix r op
  show "crRevision (capture_step r op) = crRevision r + (if capture_bumps r op then 1 else 0)"
    by (cases op) (auto simp: capture_defs)
qed (auto simp: CurrentWithLock_def)

text \<open>A sample is honoured, too, only at the revision it was begun at.\<close>

interpretation cap_sample: revision_stamped capture_step crRevision capture_bumps smRevision
  "\<lambda>r s. \<exists>b a u now. CompleteSample r s b a u now \<noteq> r"
  by unfold_locales (auto simp: cap.step_rev CompleteSample_def split: if_splits)

text \<open>What withdraws the proof granted so far.\<close>

fun revokes :: "CaptureReadiness \<Rightarrow> CaptureOp \<Rightarrow> bool" where
  "revokes r (OpInvalidate g) \<longleftrightarrow> crGeneration r \<le> g"
| "revokes r (OpNetworkChanged now) \<longleftrightarrow> True"
| "revokes r (OpProofBarrier now) \<longleftrightarrow> True"
| "revokes r OpCancel \<longleftrightarrow> True"
| "revokes r _ \<longleftrightarrow> False"

lemma revokes_bumps: "revokes r op \<Longrightarrow> capture_bumps r op"
  by (cases op) auto

lemma revoked_bump_count:
  "revokes (run capture_step r pre) op \<Longrightarrow> 0 < cap.bump_count r (pre @ op # post)"
  by (simp add: cap.bump_count_append revokes_bumps)

lemma Ready_stamp: "Ready r now = Some t \<Longrightarrow> tkRevision t = crRevision r"
  by (auto simp: Ready_def split: if_splits)

text \<open>
  (C21) A ticket never outlives what it was granted on: once a destination change, a network change,
  a proof barrier or a cancellation has happened after the ticket was issued, the ticket is not
  current at any later time, whatever else happens in between, up to \<open>2 ^ 64\<close> operations, where
  the revision counter would wrap.
\<close>

theorem ticket_revoked:
  assumes "Ready r now0 = Some t" and "revokes (run capture_step r pre) op"
    and "length (pre @ op # post) < 2 ^ 64"
  shows "\<not> CurrentWithLock (run capture_step r (pre @ op # post)) t now"
  using cap.stale_never_honoured [OF Ready_stamp [OF assms(1)] assms(3) revoked_bump_count [OF assms(2)]]
  by blast

theorem ticket_revoked_witness:
  "\<not> CurrentWithLock (run capture_step
      ((InitCaptureReadiness DefaultCaptureReadinessSettings)\<lparr>crProven := True, crGeneration := 3, crSampledMillis := 100\<rparr>)
      ([] @ OpNetworkChanged 150 # [])) \<lparr>tkRevision = 0, tkGeneration = 3, tkSampledMillis = 100\<rparr> 160"
  by (rule ticket_revoked [where ?now0.0 = 120])
    (simp_all add: Ready_def FreshWithLock_def InitCaptureReadiness_def DefaultCaptureReadinessSettings_def)

text \<open>
  A sample begun before the evidence was withdrawn grants nothing when it completes: its
  completion leaves the readiness exactly as it is.
\<close>

theorem stale_sample_ignored:
  assumes "revokes (run capture_step r pre) op" and "length (pre @ op # post) < 2 ^ 64"
  shows "CompleteSample (run capture_step r (pre @ op # post)) (BeginSample r now0) before after u now =
    run capture_step r (pre @ op # post)"
proof -
  have "cap_sample.bump_count r es = cap.bump_count r es" for r es
    by (induction es arbitrary: r) auto
  then show ?thesis
    using cap_sample.stale_never_honoured [of "BeginSample r now0" r "pre @ op # post"] assms
      revoked_bump_count [OF assms(1), of post]
    by (auto simp: BeginSample_def)
qed

theorem stale_sample_ignored_witness:
  "crProven (CompleteSample
      (run capture_step (InitCaptureReadiness DefaultCaptureReadinessSettings) ([] @ OpInvalidate 4 # []))
      (BeginSample (InitCaptureReadiness DefaultCaptureReadinessSettings) 10)
      \<lparr>cwGeneration = 4, cwAdded = 2\<rparr> \<lparr>cwGeneration = 4, cwAdded = 2\<rparr> 1 20) = False"
  by (subst stale_sample_ignored)
    (simp_all add: InitCaptureReadiness_def Invalidate_def)

lemma closed_stays_closed:
  "crActive r \<or> crCancelled r \<Longrightarrow> crActive (capture_step r op) \<or> crCancelled (capture_step r op)"
  by (cases op) (auto simp: capture_defs)

interpretation closed: observer capture_step "\<lambda>r. crActive r \<or> crCancelled r" "\<lambda>_ _. True"
  by unfold_locales (rule closed_stays_closed)

text \<open>
  One capture per session: after a successful commit, and after a cancellation, no ticket is
  ever issued again and no commit ever succeeds, whatever late callbacks arrive.
\<close>

theorem capture_at_most_once:
  assumes "crCancelled r \<or> (\<exists>r0 t0 now0. Commit r0 t0 now0 = (r, True))"
  shows "snd (Commit (run capture_step r ops) t now) = False \<and> Ready (run capture_step r ops) now = None"
proof -
  have "crActive r \<or> crCancelled r" using assms by (auto simp: Commit_def split: if_splits)
  then have "crActive (run capture_step r ops) \<or> crCancelled (run capture_step r ops)"
    by (rule closed.run_good_total) simp
  then show ?thesis by (auto simp: Commit_def CurrentWithLock_def Ready_def)
qed

theorem capture_at_most_once_witness:
  "snd (Commit (run capture_step (Cancel (InitCaptureReadiness DefaultCaptureReadinessSettings))
      [OpInvalidate 2, OpCompleteSample \<lparr>smRevision = 2, smProofSinceMillis = -1, smStartedMillis = 5\<rparr>
         \<lparr>cwGeneration = 2, cwAdded = 1\<rparr> \<lparr>cwGeneration = 2, cwAdded = 1\<rparr> 1 6])
    \<lparr>tkRevision = 3, tkGeneration = 2, tkSampledMillis = 5\<rparr> 7) = False"
  by (rule conjunct1 [OF capture_at_most_once]) (simp add: Cancel_def)

text \<open>
  A probe age of whole seconds proves the new uplink exactly when every instant it can stand
  for lies after the network change: with the age's true resolution of a second, the test accepts
  if and only if each time that truncates to this age is later than the change.
\<close>

theorem proof_after_change_exact:
  assumes "0 \<le> changed" and "probeAgeResolutionMillis st = 1000"
  shows "CaptureProofAfterNetworkChange age sample changed st \<longleftrightarrow>
    0 \<le> age \<and> (\<forall>t. (sample - t) div 1000 = age \<longrightarrow> changed < t)"
proof -
  have "(\<forall>t. (sample - t) div 1000 = age \<longrightarrow> changed < t) \<longleftrightarrow> 1000 * age + 999 < sample - changed"
  proof
    assume a: "\<forall>t. (sample - t) div 1000 = age \<longrightarrow> changed < t"
    have "(sample - (sample - (1000 * age + 999))) div 1000 = age" by simp
    with a have "changed < sample - (1000 * age + 999)" by blast
    then show "1000 * age + 999 < sample - changed" by simp
  next
    assume "1000 * age + 999 < sample - changed"
    moreover have "sample - t \<le> 1000 * ((sample - t) div 1000) + 999" for t
      using div_mult_mod_eq [of "sample - t" 1000] pos_mod_bound [of 1000 "sample - t"] by linarith
    ultimately show "\<forall>t. (sample - t) div 1000 = age \<longrightarrow> changed < t"
      by (auto simp: less_diff_eq)
  qed
  then show ?thesis using assms by (auto simp: CaptureProofAfterNetworkChange_def Let_def)
qed

theorem proof_after_change_exact_witness:
  "CaptureProofAfterNetworkChange 2 10000 6000 DefaultCaptureReadinessSettings \<longleftrightarrow>
    0 \<le> (2::int) \<and> (\<forall>t. (10000 - t) div 1000 = 2 \<longrightarrow> (6000::int) < t)"
  by (rule proof_after_change_exact) (simp_all add: DefaultCaptureReadinessSettings_def)

section \<open>The capture transaction\<close>

datatype CaptureStage = Prepare | Firewall | Network | Connected

datatype CaptureResult = Waiting | Active | Halted

text \<open>What a stage's callback did: returned true, returned false, or threw.\<close>

datatype ApplyOutcome = Applied | Declined | Raised

datatype CaptureAction = Try CaptureStage | Rollback

datatype CaptureEnd = Returned CaptureResult | Rethrown

text \<open>
  \<open>others i\<close> are the operations of other threads before the transaction's \<open>i\<close>-th look at the
  readiness, and \<open>clock i\<close> is the time it reads there. The list of actions is what happened to the
  machine, in order.
\<close>

fun apply_stages :: "(CaptureStage \<Rightarrow> ApplyOutcome) \<Rightarrow> (nat \<Rightarrow> CaptureOp list) \<Rightarrow> (nat \<Rightarrow> i64) \<Rightarrow>
    CaptureTicket \<Rightarrow> CaptureStage list \<Rightarrow> nat \<Rightarrow> CaptureReadiness \<Rightarrow>
    CaptureEnd \<times> CaptureReadiness \<times> CaptureAction list" where
  "apply_stages act others clock ticket [] i r0 =
    (let r = run capture_step r0 (others i)
     in case Commit r ticket (clock i) of
          (r', True) \<Rightarrow> (Returned Active, r', [])
        | (r', False) \<Rightarrow> (Returned Waiting, r', [Rollback]))"
| "apply_stages act others clock ticket (stage # stages) i r0 =
    (let r = run capture_step r0 (others i)
     in if \<not> CurrentWithLock r ticket (clock i) then (Returned Waiting, r, [Rollback])
        else case act stage of
          Declined \<Rightarrow> (Returned Halted, r, [Try stage, Rollback])
        | Raised \<Rightarrow> (Rethrown, r, [Try stage, Rollback])
        | Applied \<Rightarrow>
            (case apply_stages act others clock ticket stages (Suc i) r of
               (e, r', as) \<Rightarrow> (e, r', Try stage # as)))"

definition ApplyCapture :: "(CaptureStage \<Rightarrow> ApplyOutcome) \<Rightarrow> (nat \<Rightarrow> CaptureOp list) \<Rightarrow> (nat \<Rightarrow> i64) \<Rightarrow>
    CaptureTicket \<Rightarrow> CaptureReadiness \<Rightarrow> CaptureEnd \<times> CaptureReadiness \<times> CaptureAction list" where
  "ApplyCapture act others clock ticket r0 =
    (let r = run capture_step r0 (others 0)
     in if \<not> CurrentWithLock r ticket (clock 0) then (Returned Waiting, r, [])
        else apply_stages act others clock ticket [Prepare, Firewall, Network, Connected] 1 r)"

lemma apply_stages_trace:
  assumes "apply_stages act others clock ticket stages i r = (e, r', as)"
  shows "(e = Returned Active \<and> as = map Try stages \<and> list_all (\<lambda>st. act st = Applied) stages \<and> crActive r')
    \<or> (e \<noteq> Returned Active \<and> (\<exists>k\<le>length stages. as = map Try (take k stages) @ [Rollback]))"
  using assms
proof (induction stages arbitrary: i r e r' as)
  case Nil
  then show ?case by (auto simp: Commit_def Let_def split: if_splits)
next
  case (Cons stage stages)
  let ?r = "run capture_step r (others i)"
  obtain e1 r1 as1 where rest: "apply_stages act others clock ticket stages (Suc i) ?r = (e1, r1, as1)"
    by (cases "apply_stages act others clock ticket stages (Suc i) ?r")
  consider "\<not> CurrentWithLock ?r ticket (clock i)"
    | "CurrentWithLock ?r ticket (clock i)" "act stage \<noteq> Applied"
    | "CurrentWithLock ?r ticket (clock i)" "act stage = Applied" by blast
  then show ?case
  proof cases
    case 1
    with Cons.prems show ?thesis by (auto simp: Let_def)
  next
    case 2
    with Cons.prems have "e \<noteq> Returned Active" "as = map Try (take 1 (stage # stages)) @ [Rollback]"
      by (auto simp: Let_def split: ApplyOutcome.splits)
    then show ?thesis by (intro disjI2) (auto intro!: exI [of _ 1])
  next
    case 3
    with Cons.prems rest have "e = e1" "r' = r1" "as = Try stage # as1" by (auto simp: Let_def)
    moreover from Cons.IH [OF rest] have
      "(e1 = Returned Active \<and> as1 = map Try stages \<and> list_all (\<lambda>st. act st = Applied) stages \<and> crActive r1)
        \<or> (e1 \<noteq> Returned Active \<and> (\<exists>k\<le>length stages. as1 = map Try (take k stages) @ [Rollback]))" .
    ultimately show ?thesis using 3 by (auto intro!: exI [of _ "Suc _"])
  qed
qed



end
