(* ===== verification/NetworkChange.thy ===== *)
theory NetworkChange
  imports Prelude
begin

text \<open>
  The network-change notification of \<^verbatim>\<open>Service/NetworkChangeNotify.h\<close>: the burst coalescer, the
  watchdog sampler's sleep, the freeze bars, what counts as the network moving
  (\<open>EgressChangeFilter\<close>) and one pass of the notifier's thread. The thread, its condition
  variable and the device calls are outside the model: a pass returns the calls it makes, or how
  long it sleeps.
\<close>

section \<open>The coalescer\<close>

record NetworkNotifySettings =
  windowMillis :: i64

definition DefaultNetworkNotifySettings :: NetworkNotifySettings where
  "DefaultNetworkNotifySettings = \<lparr>windowMillis = 750\<rparr>"

record NotifyCoalescer =
  ncWindowMillis :: i64
  pending :: bool
  deadlineMillis :: i64
  coalesced :: i64
  lastBurstSize :: i64

definition InitNotifyCoalescer :: "NetworkNotifySettings \<Rightarrow> NotifyCoalescer" where
  "InitNotifyCoalescer settings = \<lparr>ncWindowMillis = windowMillis settings, pending = False,
    deadlineMillis = 0, coalesced = 0, lastBurstSize = 0\<rparr>"

definition CoalescerObserve :: "NotifyCoalescer \<Rightarrow> i64 \<Rightarrow> NotifyCoalescer" where
  "CoalescerObserve c now =
    (let c1 = c\<lparr>coalesced := coalesced c + 1\<rparr>
     in if pending c1 then c1
        else c1\<lparr>pending := True, deadlineMillis := now + ncWindowMillis c1\<rparr>)"

definition TakeDue :: "NotifyCoalescer \<Rightarrow> i64 \<Rightarrow> NotifyCoalescer \<times> bool" where
  "TakeDue c now =
    (if \<not> pending c \<or> now < deadlineMillis c then (c, False)
     else (c\<lparr>pending := False, lastBurstSize := coalesced c, coalesced := 0\<rparr>, True))"

section \<open>The sampler's sleep\<close>

record SamplerSleep =
  waitMillis :: i64
  networkPending :: bool
  qualityPending :: bool

definition PlanSamplerSleep ::
  "i64 \<Rightarrow> i64 \<Rightarrow> NotifyCoalescer \<Rightarrow> NotifyCoalescer \<Rightarrow> SamplerSleep" where
  "PlanSamplerSleep now nextSample network quality =
    (let w0 = nextSample - now;
         w1 = (if pending network \<and> deadlineMillis network - now < w0
               then deadlineMillis network - now else w0);
         w2 = (if pending quality \<and> deadlineMillis quality - now < w1
               then deadlineMillis quality - now else w1)
     in \<lparr>waitMillis = w2, networkPending = pending network, qualityPending = pending quality\<rparr>)"

definition SamplerSleepInterrupted :: "SamplerSleep \<Rightarrow> NotifyCoalescer \<Rightarrow> NotifyCoalescer \<Rightarrow> bool" where
  "SamplerSleepInterrupted plan network quality =
    ((\<not> networkPending plan \<and> pending network) \<or> (\<not> qualityPending plan \<and> pending quality))"

section \<open>Freezes\<close>

record FreezeResponse =
  rebase :: bool
  frNetworkChanged :: bool

definition FreezeResponseFor :: "i64 \<Rightarrow> i64 \<Rightarrow> i64 \<Rightarrow> FreezeResponse" where
  "FreezeResponseFor tickGapMillis frozenMillis networkChangeMillis =
    (let rb = (tickGapMillis \<ge> frozenMillis)
     in \<lparr>rebase = rb, frNetworkChanged = rb \<and> tickGapMillis \<ge> networkChangeMillis\<rparr>)"

section \<open>What counts as the network moving\<close>

text \<open>The sixteen-byte arrays of the source are \<open>8 word list\<close>s, compared whole.\<close>

record EgressFamilySignature =
  ifIndex :: u32
  usable :: bool
  source :: "8 word list"
  efNetwork :: "8 word list"
  gateway :: "8 word list"

record EgressSignature =
  v4 :: EgressFamilySignature
  v6 :: EgressFamilySignature

record EgressChange =
  ecNetwork :: bool
  ecBinding :: bool

record EgressChangeFilter =
  lastSignature :: EgressSignature
  seeded :: bool

definition NetworkMoved :: "EgressFamilySignature \<Rightarrow> EgressFamilySignature \<Rightarrow> bool" where
  "NetworkMoved before after \<longleftrightarrow>
    ifIndex before \<noteq> ifIndex after \<or> usable before \<noteq> usable after \<or>
    efNetwork before \<noteq> efNetwork after \<or> gateway before \<noteq> gateway after"

definition BindingMoved :: "EgressFamilySignature \<Rightarrow> EgressFamilySignature \<Rightarrow> bool" where
  "BindingMoved before after \<longleftrightarrow>
    ifIndex before \<noteq> ifIndex after \<or> source before \<noteq> source after"

definition FilterSeed :: "EgressChangeFilter \<Rightarrow> EgressSignature \<Rightarrow> EgressChangeFilter" where
  "FilterSeed f sig = f\<lparr>lastSignature := sig, seeded := True\<rparr>"

definition FilterObserve ::
  "EgressChangeFilter \<Rightarrow> EgressSignature \<Rightarrow> EgressChangeFilter \<times> EgressChange" where
  "FilterObserve f sig =
    (let change =
       (if \<not> seeded f then \<lparr>ecNetwork = True, ecBinding = True\<rparr>
        else \<lparr>ecNetwork = NetworkMoved (v4 (lastSignature f)) (v4 sig) \<or>
                NetworkMoved (v6 (lastSignature f)) (v6 sig),
              ecBinding = BindingMoved (v4 (lastSignature f)) (v4 sig) \<or>
                BindingMoved (v6 (lastSignature f)) (v6 sig)\<rparr>)
     in (FilterSeed f sig, change))"

section \<open>One pass of the notifier's thread\<close>

text \<open>The last two fields say whether the channel was given a function to call.\<close>

record NotifierChannel =
  chCancelled :: bool
  chNetwork :: NotifyCoalescer
  chQuality :: NotifyCoalescer
  hasNetworkChanged :: bool
  hasNetworkQualityChanged :: bool

datatype DeviceCall = CallNetworkChanged | CallNetworkQualityChanged

datatype NotifierPass = Exit | Sleep i64 | Calls "DeviceCall list"

definition ObserveNetwork :: "NotifierChannel \<Rightarrow> i64 \<Rightarrow> NotifierChannel" where
  "ObserveNetwork ch now =
    (if chCancelled ch then ch else ch\<lparr>chNetwork := CoalescerObserve (chNetwork ch) now\<rparr>)"

definition ObserveQuality :: "NotifierChannel \<Rightarrow> i64 \<Rightarrow> NotifierChannel" where
  "ObserveQuality ch now =
    (if chCancelled ch then ch else ch\<lparr>chQuality := CoalescerObserve (chQuality ch) now\<rparr>)"

definition NotifierRunPass :: "NotifierChannel \<Rightarrow> i64 \<Rightarrow> NotifierChannel \<times> NotifierPass" where
  "NotifierRunPass ch now =
    (if chCancelled ch then (ch, Exit)
     else case TakeDue (chNetwork ch) now of (network, networkDue) \<Rightarrow>
          case TakeDue (chQuality ch) now of (quality, qualityDue) \<Rightarrow>
          (let ch' = ch\<lparr>chNetwork := network, chQuality := quality\<rparr>
           in if networkDue \<or> qualityDue
              then (ch', Calls ((if networkDue \<and> hasNetworkChanged ch then [CallNetworkChanged] else []) @
                                (if qualityDue \<and> \<not> networkDue \<and> hasNetworkQualityChanged ch
                                 then [CallNetworkQualityChanged] else [])))
              else let w0 = (if pending network then deadlineMillis network - now else -1);
                       w1 = (if pending quality
                             then (let untilQuality = deadlineMillis quality - now
                                   in if w0 < 0 \<or> untilQuality < w0 then untilQuality else w0)
                             else w0)
                   in (ch', Sleep w1)))"

section \<open>Bursts\<close>

datatype CoalescerEvent = Observed i64 | Polled i64

fun coalescer_step :: "NotifyCoalescer \<Rightarrow> CoalescerEvent \<Rightarrow> NotifyCoalescer" where
  "coalescer_step c (Observed t) = CoalescerObserve c t"
| "coalescer_step c (Polled t) = fst (TakeDue c t)"

text \<open>The notifications of a history: when each was taken and how many observations it folded.\<close>

fun notifications :: "NotifyCoalescer \<Rightarrow> CoalescerEvent list \<Rightarrow> (i64 \<times> i64) list" where
  "notifications c [] = []"
| "notifications c (Observed t # es) = notifications (CoalescerObserve c t) es"
| "notifications c (Polled t # es) =
    (case TakeDue c t of (c', due) \<Rightarrow>
       (if due then [(t, lastBurstSize c')] else []) @ notifications c' es)"

definition observations :: "CoalescerEvent list \<Rightarrow> nat" where
  "observations es = length (filter (\<lambda>e. case e of Observed _ \<Rightarrow> True | _ \<Rightarrow> False) es)"

lemma notifications_conserve:
  "sum_list (map snd (notifications c es)) + coalesced (run coalescer_step c es) =
    coalesced c + int (observations es)"
proof (induction c es rule: notifications.induct)
  case (2 c t es)
  then show ?case by (simp add: observations_def CoalescerObserve_def Let_def split: if_splits)
next
  case (3 c t es)
  obtain c' due where td: "TakeDue c t = (c', due)" by (cases "TakeDue c t")
  note IH = "3.IH" [OF td [symmetric]]
  show ?case
  proof (cases due)
    case True
    then have "lastBurstSize c' = coalesced c" "coalesced c' = 0"
      using td by (auto simp: TakeDue_def split: if_splits)
    with IH td True show ?thesis by (simp add: observations_def)
  next
    case False
    then have "c' = c" using td by (auto simp: TakeDue_def split: if_splits)
    with IH td False show ?thesis by (simp add: observations_def)
  qed
qed (simp add: observations_def)

definition coalescer_inv :: "NotifyCoalescer \<Rightarrow> bool" where
  "coalescer_inv c \<longleftrightarrow> (pending c \<longleftrightarrow> 0 < coalesced c) \<and> 0 \<le> coalesced c"

interpretation bursts: observer coalescer_step coalescer_inv "\<lambda>_ _. True"
proof
  fix c e
  assume "coalescer_inv c"
  then show "coalescer_inv (coalescer_step c e)"
    by (cases e) (auto simp: coalescer_inv_def CoalescerObserve_def TakeDue_def Let_def)
qed

lemma coalescer_inv_init: "coalescer_inv (InitNotifyCoalescer settings)"
  by (simp add: coalescer_inv_def InitNotifyCoalescer_def)

text \<open>
  No observation is lost and none is reported twice: over any history the burst sizes of the
  notifications taken, plus what is still being folded, add up to the observations made, and a
  notification is outstanding exactly when some observation has not been reported.
\<close>

theorem coalescer_conserves:
  "sum_list (map snd (notifications (InitNotifyCoalescer settings) es)) +
      coalesced (run coalescer_step (InitNotifyCoalescer settings) es) = int (observations es) \<and>
    (pending (run coalescer_step (InitNotifyCoalescer settings) es) \<longleftrightarrow>
      0 < coalesced (run coalescer_step (InitNotifyCoalescer settings) es))"
proof -
  have "coalescer_inv (run coalescer_step (InitNotifyCoalescer settings) es)"
    using bursts.run_good_total [OF coalescer_inv_init] by simp
  then show ?thesis
    using notifications_conserve [of "InitNotifyCoalescer settings" es]
    by (simp add: InitNotifyCoalescer_def coalescer_inv_def)
qed

text \<open>
  The deadline of a burst is fixed by its first observation: whatever observations follow, the
  notification is due at every poll from that deadline on, and at none before. A link that keeps
  flapping cannot push it out.
\<close>

theorem burst_deadline_fixed:
  assumes "\<not> pending c"
  shows "snd (TakeDue (run CoalescerObserve (CoalescerObserve c t0) ts) now) \<longleftrightarrow>
    t0 + ncWindowMillis c \<le> now"
proof -
  have "pending (run CoalescerObserve c ts) \<and> deadlineMillis (run CoalescerObserve c ts) = deadlineMillis c"
    if "pending c" for c
    using that by (induction ts arbitrary: c) (auto simp: CoalescerObserve_def Let_def)
  from this [of "CoalescerObserve c t0"] assms show ?thesis
    by (auto simp: TakeDue_def CoalescerObserve_def Let_def)
qed

theorem burst_deadline_fixed_witness:
  "snd (TakeDue (run CoalescerObserve
      (CoalescerObserve (InitNotifyCoalescer DefaultNetworkNotifySettings) 1000) [1200, 1700, 1749]) 1750)"
  using burst_deadline_fixed [of "InitNotifyCoalescer DefaultNetworkNotifySettings" 1000 "[1200, 1700, 1749]" 1750]
  by (simp add: InitNotifyCoalescer_def DefaultNetworkNotifySettings_def)

text \<open>Histories in time order, and the gaps between notifications.\<close>

fun event_time :: "CoalescerEvent \<Rightarrow> i64" where
  "event_time (Observed t) = t"
| "event_time (Polled t) = t"

lemma notifications_after:
  assumes "sorted (map event_time es)" "list_all (\<lambda>e. lower \<le> event_time e) es"
    and "pending c \<Longrightarrow> lower + ncWindowMillis c \<le> deadlineMillis c"
  shows "list_all (\<lambda>n. lower + ncWindowMillis c \<le> fst n) (notifications c es) \<and>
    sorted_wrt (\<lambda>a b. fst a + ncWindowMillis c \<le> fst b) (notifications c es)"
  using assms
proof (induction c es arbitrary: lower rule: notifications.induct)
  case (2 c t es)
  have "ncWindowMillis (CoalescerObserve c t) = ncWindowMillis c"
    by (simp add: CoalescerObserve_def Let_def)
  moreover have "pending (CoalescerObserve c t) \<Longrightarrow>
      lower + ncWindowMillis c \<le> deadlineMillis (CoalescerObserve c t)"
    using "2.prems" by (auto simp: CoalescerObserve_def Let_def)
  ultimately show ?case using "2.IH" [of lower] "2.prems" by simp
next
  case (3 c t es)
  obtain c' due where td: "TakeDue c t = (c', due)" by (cases "TakeDue c t")
  have w: "ncWindowMillis c' = ncWindowMillis c" using td by (auto simp: TakeDue_def split: if_splits)
  show ?case
  proof (cases due)
    case False
    then have "c' = c" using td by (auto simp: TakeDue_def split: if_splits)
    with "3.IH" [OF td [symmetric], of lower] "3.prems" td False show ?thesis by simp
  next
    case True
    then have "pending c" "deadlineMillis c \<le> t" "\<not> pending c'"
      using td by (auto simp: TakeDue_def split: if_splits)
    moreover have "list_all (\<lambda>e. t \<le> event_time e) es"
      using "3.prems"(1) by (auto simp: list_all_iff)
    moreover note "3.IH" [OF td [symmetric], of t]
    ultimately have "list_all (\<lambda>n. t + ncWindowMillis c \<le> fst n) (notifications c' es)"
      "sorted_wrt (\<lambda>a b. fst a + ncWindowMillis c \<le> fst b) (notifications c' es)"
      "lower + ncWindowMillis c \<le> t"
      using "3.prems" w by (auto simp: sorted_append)
    moreover have "lower \<le> t" using "3.prems"(2) by simp
    ultimately show ?thesis using td True by (auto simp: list_all_iff)
  qed
qed simp

text \<open>
  The device is told at most once per window: in any history in time order two notifications
  are at least the window apart.
\<close>

theorem notifications_spaced:
  assumes "sorted (map event_time es)"
  shows "sorted_wrt (\<lambda>a b. fst a + windowMillis settings \<le> fst b)
    (notifications (InitNotifyCoalescer settings) es)"
proof (cases es)
  case (Cons e es')
  then have "list_all (\<lambda>x. event_time e \<le> event_time x) es"
    using assms by (auto simp: list_all_iff)
  with assms show ?thesis
    using notifications_after [of es "event_time e" "InitNotifyCoalescer settings"]
    by (simp add: InitNotifyCoalescer_def)
qed simp

theorem notifications_spaced_witness:
  "sorted_wrt (\<lambda>a b. fst a + 750 \<le> fst b) (notifications (InitNotifyCoalescer DefaultNetworkNotifySettings)
     [Observed 0, Observed 100, Polled 760, Observed 770, Polled 1000, Polled 1600])"
  using notifications_spaced [of "[Observed 0, Observed 100, Polled 760, Observed 770, Polled 1000, Polled 1600]"
      DefaultNetworkNotifySettings]
  by (simp add: DefaultNetworkNotifySettings_def)

section \<open>Sleeps\<close>

text \<open>
  The sampler sleeps to the earliest of its next sample and the open windows, and only an
  observation that opens a window the plan did not include ends the sleep early: a further
  observation of a planned burst never does, the first of a new one always does.
\<close>

theorem sampler_sleep_plan:
  "let plan = PlanSamplerSleep now nextSample network quality in
    waitMillis plan = Min ({nextSample - now} \<union>
      (if pending network then {deadlineMillis network - now} else {}) \<union>
      (if pending quality then {deadlineMillis quality - now} else {})) \<and>
    (SamplerSleepInterrupted plan (CoalescerObserve network t) quality \<longleftrightarrow> \<not> pending network) \<and>
    (SamplerSleepInterrupted plan network (CoalescerObserve quality t) \<longleftrightarrow> \<not> pending quality) \<and>
    \<not> SamplerSleepInterrupted plan network quality"
  by (auto simp: PlanSamplerSleep_def SamplerSleepInterrupted_def CoalescerObserve_def Let_def)

text \<open>
  The notifier's thread neither spins nor oversleeps: a pass that makes no call sleeps without
  limit exactly when no window is open, and otherwise for the positive time after which the next
  pass makes a call; a pass that does make calls makes exactly one, the network change taking the
  quality change with it.
\<close>

theorem notifier_pass_live:
  assumes "NotifierRunPass ch now = (ch', p)" and "\<not> chCancelled ch"
    and "hasNetworkChanged ch" and "hasNetworkQualityChanged ch"
  shows "(\<forall>w. p = Sleep w \<longrightarrow>
      (if pending (chNetwork ch') \<or> pending (chQuality ch')
       then 0 < w \<and> (\<exists>ch'' call. NotifierRunPass ch' (now + w) = (ch'', Calls [call]))
       else w = -1)) \<and>
    (\<forall>cs. p = Calls cs \<longrightarrow>
      cs = [if snd (TakeDue (chNetwork ch) now) then CallNetworkChanged else CallNetworkQualityChanged])"
  using assms
  by (auto simp: NotifierRunPass_def TakeDue_def Let_def not_less split: if_splits)

theorem notifier_pass_live_witness:
  "\<exists>ch'' call. NotifierRunPass
     \<lparr>chCancelled = False, chNetwork = CoalescerObserve (InitNotifyCoalescer DefaultNetworkNotifySettings) 100,
       chQuality = InitNotifyCoalescer DefaultNetworkNotifySettings,
       hasNetworkChanged = True, hasNetworkQualityChanged = True\<rparr> 850 = (ch'', Calls [call])"
  using notifier_pass_live [of
     "\<lparr>chCancelled = False, chNetwork = CoalescerObserve (InitNotifyCoalescer DefaultNetworkNotifySettings) 100,
       chQuality = InitNotifyCoalescer DefaultNetworkNotifySettings,
       hasNetworkChanged = True, hasNetworkQualityChanged = True\<rparr>" 200
     "\<lparr>chCancelled = False, chNetwork = CoalescerObserve (InitNotifyCoalescer DefaultNetworkNotifySettings) 100,
       chQuality = InitNotifyCoalescer DefaultNetworkNotifySettings,
       hasNetworkChanged = True, hasNetworkQualityChanged = True\<rparr>" "Sleep 650"]
  by (simp add: NotifierRunPass_def TakeDue_def CoalescerObserve_def InitNotifyCoalescer_def
      DefaultNetworkNotifySettings_def)

section \<open>The egress filter over a run\<close>

fun filter_changes :: "EgressChangeFilter \<Rightarrow> EgressSignature list \<Rightarrow> EgressChange list" where
  "filter_changes f [] = []"
| "filter_changes f (x # xs) = snd (FilterObserve f x) # filter_changes (fst (FilterObserve f x)) xs"

definition rides :: "EgressSignature \<Rightarrow> (u32 \<times> bool \<times> 8 word list \<times> 8 word list) list" where
  "rides s = map (\<lambda>f. (ifIndex f, usable f, efNetwork f, gateway f)) [v4 s, v6 s]"

lemma network_moved_rides:
  "seeded f \<Longrightarrow> ecNetwork (snd (FilterObserve f x)) \<longleftrightarrow> rides (lastSignature f) \<noteq> rides x"
  by (auto simp: FilterObserve_def NetworkMoved_def rides_def Let_def)

text \<open>
  A network move cannot creep past the filter: if a run of readings reports no network change,
  every reading of the run rides the network the run started from, however many there were and
  whatever else changed in them.
\<close>

theorem filter_no_drift:
  assumes "seeded f" and "list_all (\<lambda>c. \<not> ecNetwork c) (filter_changes f xs)"
  shows "list_all (\<lambda>x. rides x = rides (lastSignature f)) xs"
  using assms
proof (induction xs arbitrary: f)
  case (Cons x xs)
  have s: "seeded (fst (FilterObserve f x))" "lastSignature (fst (FilterObserve f x)) = x"
    by (simp_all add: FilterObserve_def FilterSeed_def Let_def)
  with Cons.prems have "rides x = rides (lastSignature f)" by (simp add: network_moved_rides)
  moreover have "list_all (\<lambda>y. rides y = rides x) xs"
    using Cons.IH [of "fst (FilterObserve f x)"] Cons.prems s by simp
  ultimately show ?case by simp
qed simp

definition exampleFamily :: EgressFamilySignature where
  "exampleFamily = \<lparr>ifIndex = 5, usable = True, source = [10], efNetwork = [10], gateway = [1]\<rparr>"

theorem filter_no_drift_witness:
  "list_all (\<lambda>x. rides x = rides \<lparr>v4 = exampleFamily, v6 = exampleFamily\<rparr>)
    [\<lparr>v4 = exampleFamily\<lparr>source := [11]\<rparr>, v6 = exampleFamily\<rparr>, \<lparr>v4 = exampleFamily, v6 = exampleFamily\<rparr>]"
  using filter_no_drift [of "\<lparr>lastSignature = \<lparr>v4 = exampleFamily, v6 = exampleFamily\<rparr>, seeded = True\<rparr>"
      "[\<lparr>v4 = exampleFamily\<lparr>source := [11]\<rparr>, v6 = exampleFamily\<rparr>, \<lparr>v4 = exampleFamily, v6 = exampleFamily\<rparr>]"]
  by (simp add: FilterObserve_def FilterSeed_def NetworkMoved_def Let_def)

end
