(* ===== verification/BalanceGate.thy ===== *)
theory BalanceGate
  imports Prelude
begin

text \<open>
  The out-of-balance gate of \<^verbatim>\<open>Common/BalanceGate.h\<close>: when an account that cannot pay is refused,
  what the connect button and every connect gesture do then, how often the user is told, and the
  recovery that runs a refused start again once data is back. The sinks the templates call are the
  values the model returns.
\<close>

section \<open>The gate and the button\<close>

definition OutOfBalance :: "bool \<Rightarrow> bool \<Rightarrow> bool \<Rightarrow> bool" where
  "OutOfBalance insufficientBalance supporter confirming \<longleftrightarrow>
    insufficientBalance \<and> \<not> supporter \<and> \<not> confirming"

datatype ConnectButtonAction = ButtonConnect | ButtonDisconnect | ButtonRetry

record ConnectButton =
  cbAction :: ConnectButtonAction
  cbEnabled :: bool

definition DecideConnectButton :: "bool \<Rightarrow> bool \<Rightarrow> bool \<Rightarrow> bool \<Rightarrow> bool \<Rightarrow> bool \<Rightarrow> ConnectButton" where
  "DecideConnectButton failed actionIsDisconnect confirming outOfBalance transitional watchdogFired =
    (let action = (if failed \<and> \<not> outOfBalance then ButtonRetry
                   else if actionIsDisconnect then ButtonDisconnect else ButtonConnect);
         blocked = (confirming \<or> outOfBalance)
     in \<lparr>cbAction = action,
         cbEnabled = (if blocked \<and> action = ButtonDisconnect then True
                      else \<not> blocked \<and> (\<not> transitional \<or> watchdogFired))\<rparr>)"

section \<open>The latch\<close>

record BalanceObservation =
  boInsufficientBalance :: bool
  boProvidersConnected :: bool
  boBalanceKnown :: bool
  boAvailableBytes :: i64

record OutOfBalanceLatch =
  latched :: bool
  lowKnown :: bool
  lowBytes :: i64

definition LatchReset :: OutOfBalanceLatch where
  "LatchReset = \<lparr>latched = False, lowKnown = False, lowBytes = 0\<rparr>"

definition NoteBalance :: "OutOfBalanceLatch \<Rightarrow> BalanceObservation \<Rightarrow> OutOfBalanceLatch" where
  "NoteBalance l ob =
    (if \<not> boBalanceKnown ob then l
     else if \<not> lowKnown l \<or> boAvailableBytes ob < lowBytes l
          then l\<lparr>lowKnown := True, lowBytes := boAvailableBytes ob\<rparr> else l)"

definition LatchObserve :: "OutOfBalanceLatch \<Rightarrow> BalanceObservation \<Rightarrow> OutOfBalanceLatch" where
  "LatchObserve l ob =
    (if boInsufficientBalance ob then NoteBalance (l\<lparr>latched := True\<rparr>) ob
     else if \<not> latched l then l
     else if boProvidersConnected ob then LatchReset
     else if boBalanceKnown ob \<and> lowKnown l \<and> lowBytes l < boAvailableBytes ob then LatchReset
     else NoteBalance l ob)"

section \<open>Gestures and starts\<close>

datatype ConnectGestureAction = GestureConnect | GestureDisconnect | GestureUpgrade

definition DecideConnectGesture :: "bool \<Rightarrow> bool \<Rightarrow> ConnectGestureAction" where
  "DecideConnectGesture actionIsDisconnect outOfBalance =
    (if actionIsDisconnect then GestureDisconnect
     else if outOfBalance then GestureUpgrade else GestureConnect)"

record AccountBalance =
  abKnown :: bool
  abPro :: bool
  abAvailableBytes :: i64
  abOpenTransferBytes :: i64
  abFetchedAtMs :: i64

definition kFreshBalanceMs :: i64 where "kFreshBalanceMs = 60000"

definition WithinFreshness :: "i64 \<Rightarrow> i64 \<Rightarrow> bool" where
  "WithinFreshness atMs nowMs \<longleftrightarrow> atMs \<le> nowMs \<and> nowMs - atMs \<le> kFreshBalanceMs"

definition AccountBalanceExhausted :: "AccountBalance \<Rightarrow> bool" where
  "AccountBalanceExhausted b \<longleftrightarrow>
    abKnown b \<and> \<not> abPro b \<and> abAvailableBytes b \<le> 0 \<and> abOpenTransferBytes b \<le> 0"

record StartConnectFacts =
  sfLatched :: bool
  sfSupporter :: bool
  sfConfirming :: bool
  sfBalance :: AccountBalance
  sfFetchSettled :: bool
  sfFetchSettledAtMs :: i64
  sfNowMs :: i64

datatype StartConnectStep = StartConnect | StartUpgrade | StartFetchBalance

definition DecideStartConnect :: "StartConnectFacts \<Rightarrow> StartConnectStep" where
  "DecideStartConnect f =
    (if OutOfBalance (sfLatched f) (sfSupporter f) (sfConfirming f) then StartUpgrade
     else if sfSupporter f \<or> sfConfirming f then StartConnect
     else if abKnown (sfBalance f) \<and> WithinFreshness (abFetchedAtMs (sfBalance f)) (sfNowMs f)
          then (if AccountBalanceExhausted (sfBalance f) then StartUpgrade else StartConnect)
     else if sfFetchSettled f \<and> WithinFreshness (sfFetchSettledAtMs f) (sfNowMs f) then StartConnect
     else StartFetchBalance)"

datatype Sink = SinkConnect | SinkDisconnect | SinkUpgrade | SinkFetchBalance | SinkNotice | SinkDataLimitNotice

text \<open>Whether the start is admitted, and what the sinks were asked for.\<close>

definition AdmitStartConnect :: "StartConnectFacts \<Rightarrow> bool \<times> Sink list" where
  "AdmitStartConnect facts =
    (case DecideStartConnect facts of
       StartConnect \<Rightarrow> (True, [])
     | StartUpgrade \<Rightarrow> (False, [SinkUpgrade])
     | StartFetchBalance \<Rightarrow> (False, [SinkFetchBalance]))"

definition RouteConnectGesture :: "bool \<Rightarrow> bool \<Rightarrow> Sink list" where
  "RouteConnectGesture actionIsDisconnect outOfBalance =
    (case DecideConnectGesture actionIsDisconnect outOfBalance of
       GestureDisconnect \<Rightarrow> [SinkDisconnect]
     | GestureUpgrade \<Rightarrow> [SinkUpgrade]
     | GestureConnect \<Rightarrow> [SinkConnect])"

section \<open>Notices\<close>

record GateNoticeTracker =
  posted :: bool

definition NoticeUpdate :: "GateNoticeTracker \<Rightarrow> bool \<Rightarrow> bool \<Rightarrow> bool \<Rightarrow> GateNoticeTracker \<times> bool" where
  "NoticeUpdate t insufficientBalance supporter confirming =
    (if \<not> insufficientBalance then (t\<lparr>posted := False\<rparr>, False)
     else if posted t \<or> \<not> OutOfBalance insufficientBalance supporter confirming then (t, False)
     else (t\<lparr>posted := True\<rparr>, True))"

definition ReactToBalancePush ::
  "GateNoticeTracker \<Rightarrow> bool \<Rightarrow> bool \<Rightarrow> bool \<Rightarrow> GateNoticeTracker \<times> Sink list" where
  "ReactToBalancePush t insufficientBalance supporter confirming =
    (case NoticeUpdate t insufficientBalance supporter confirming of
       (t', due) \<Rightarrow> (t', if due then [SinkNotice] else []))"

datatype TrafficLine = TrafficNone | Held | Blocked | NotProtected

definition TrafficLineFor :: "bool \<Rightarrow> bool \<Rightarrow> bool \<Rightarrow> TrafficLine" where
  "TrafficLineFor sessionUp routesInstalled firewallInForce =
    (if \<not> sessionUp then TrafficNone else if routesInstalled then Held
     else if firewallInForce then Blocked else NotProtected)"

definition BannerSaysDisconnectFirst :: "bool \<Rightarrow> TrafficLine \<Rightarrow> bool" where
  "BannerSaysDisconnectFirst outOfBalance line \<longleftrightarrow> outOfBalance \<and> (line = Held \<or> line = Blocked)"

definition BannerOffersDisconnect :: "bool \<Rightarrow> bool \<Rightarrow> bool" where
  "BannerOffersDisconnect refused sessionUp \<longleftrightarrow> refused \<and> sessionUp"

section \<open>The data limit of a paid plan\<close>

record DataLimitGate =
  refusedBeforePro :: bool

definition DataLimitObserve :: "DataLimitGate \<Rightarrow> bool \<Rightarrow> bool \<Rightarrow> bool \<Rightarrow> bool \<Rightarrow> DataLimitGate \<times> bool" where
  "DataLimitObserve g insufficientBalance planKnown pro confirming =
    (if \<not> insufficientBalance then (g\<lparr>refusedBeforePro := False\<rparr>, False)
     else let g' = (if planKnown \<and> \<not> pro then g\<lparr>refusedBeforePro := True\<rparr> else g)
          in (g', planKnown \<and> pro \<and> \<not> refusedBeforePro g' \<and> \<not> confirming))"

definition ReactToDataLimitPush :: "GateNoticeTracker \<Rightarrow> bool \<Rightarrow> bool \<Rightarrow> GateNoticeTracker \<times> Sink list" where
  "ReactToDataLimitPush t insufficientBalance dataLimit =
    (case NoticeUpdate t insufficientBalance (\<not> dataLimit) False of
       (t', due) \<Rightarrow> (t', if due then [SinkDataLimitNotice] else []))"

definition BannerOffersUpgrade :: "bool \<Rightarrow> bool" where
  "BannerOffersUpgrade dataLimit \<longleftrightarrow> \<not> dataLimit"

section \<open>Recovery\<close>

definition kRecoveryThresholdBytes :: i64 where "kRecoveryThresholdBytes = 64 * 1024 * 1024"
definition kRecoveryMaxRetries :: int where "kRecoveryMaxRetries = 3"
definition kRecoveryBudgetResetMs :: i64 where "kRecoveryBudgetResetMs = 10 * 60 * 1000"

datatype OutOfBalanceKind = Kind_Unknown | Reserved | Exhausted

definition OutOfBalanceKindFor :: "AccountBalance \<Rightarrow> OutOfBalanceKind" where
  "OutOfBalanceKindFor b =
    (if \<not> abKnown b \<or> abPro b then Kind_Unknown
     else if kRecoveryThresholdBytes \<le> abAvailableBytes b then Kind_Unknown
     else if kRecoveryThresholdBytes \<le> abOpenTransferBytes b then Reserved else Exhausted)"

record RecoveryState =
  rsStartWaiting :: bool
  rsRetriesLeft :: bool

text \<open>The step's target is present exactly for a start.\<close>

datatype 'a RecoveryStep = Recovery_None | Recovery_Start 'a | Recovery_Rebuild

record 'a BalanceRecovery =
  refusedStart :: "'a option"
  recHeld :: bool
  armedAtMs :: "i64 option"
  retries :: int
  lastRetryAtMs :: i64

definition InitBalanceRecovery :: "'a BalanceRecovery" where
  "InitBalanceRecovery = \<lparr>refusedStart = None, recHeld = False, armedAtMs = None, retries = 0, lastRetryAtMs = 0\<rparr>"

definition Arm :: "'a BalanceRecovery \<Rightarrow> i64 \<Rightarrow> 'a BalanceRecovery" where
  "Arm r atMs = (if armedAtMs r = None then r\<lparr>armedAtMs := Some atMs\<rparr> else r)"

definition RecoveryStateOf :: "'a BalanceRecovery \<Rightarrow> RecoveryState" where
  "RecoveryStateOf r = \<lparr>rsStartWaiting = (refusedStart r \<noteq> None), rsRetriesLeft = (retries r < kRecoveryMaxRetries)\<rparr>"

definition StartRefused :: "'a BalanceRecovery \<Rightarrow> 'a \<Rightarrow> i64 \<Rightarrow> 'a BalanceRecovery" where
  "StartRefused r target nowMs = Arm (r\<lparr>refusedStart := Some target, retries := 0\<rparr>) nowMs"

definition RecoveryClear :: "'a BalanceRecovery \<Rightarrow> 'a BalanceRecovery" where
  "RecoveryClear r = r\<lparr>refusedStart := None, armedAtMs := None, retries := 0\<rparr>"

text \<open>The two halves of one observation: the bookkeeping that always runs, and the retry.\<close>

definition RecoveryNote :: "'a BalanceRecovery \<Rightarrow> bool \<Rightarrow> bool \<Rightarrow> i64 \<Rightarrow> 'a BalanceRecovery" where
  "RecoveryNote r gate connectRequested nowMs =
    (let heldNow = (gate \<and> connectRequested);
         r1 = (if heldNow \<and> \<not> recHeld r then Arm r nowMs else r);
         r2 = r1\<lparr>recHeld := heldNow\<rparr>
     in if connectRequested \<and> \<not> heldNow \<and> 0 < retries r2 \<and>
           kRecoveryBudgetResetMs \<le> nowMs - lastRetryAtMs r2
        then r2\<lparr>retries := 0\<rparr> else r2)"

definition RecoveryObserve :: "'a BalanceRecovery \<Rightarrow> bool \<Rightarrow> bool \<Rightarrow> AccountBalance \<Rightarrow> i64 \<Rightarrow>
    'a BalanceRecovery \<times> 'a RecoveryStep" where
  "RecoveryObserve r0 gate connectRequested balance nowMs =
    (let heldNow = (gate \<and> connectRequested);
         r = RecoveryNote r0 gate connectRequested nowMs
     in if refusedStart r = None \<and> \<not> heldNow then (r\<lparr>armedAtMs := None\<rparr>, Recovery_None)
        else if \<not> abKnown balance then (r, Recovery_None)
        else if abAvailableBytes balance < kRecoveryThresholdBytes
             then (Arm r (abFetchedAtMs balance), Recovery_None)
        else if (case armedAtMs r of None \<Rightarrow> True | Some a \<Rightarrow> abFetchedAtMs balance < a) \<or>
                kRecoveryMaxRetries \<le> retries r then (r, Recovery_None)
        else let r' = r\<lparr>armedAtMs := None, retries := retries r + 1, lastRetryAtMs := nowMs\<rparr>
             in case refusedStart r of
                  Some target \<Rightarrow> (r'\<lparr>refusedStart := None\<rparr>, Recovery_Start target)
                | None \<Rightarrow> (r', Recovery_Rebuild))"

record RecoveryLines =
  rlKind :: OutOfBalanceKind
  rlWillReconnect :: bool
  rlCancel :: bool

definition RecoveryLinesFor :: "bool \<Rightarrow> bool \<Rightarrow> OutOfBalanceKind \<Rightarrow> RecoveryState option \<Rightarrow> RecoveryLines" where
  "RecoveryLinesFor outOfBalance sessionUp kind recovery =
    (let startWaiting = (case recovery of None \<Rightarrow> False | Some s \<Rightarrow> rsStartWaiting s);
         willReconnect = (case recovery of None \<Rightarrow> False
           | Some s \<Rightarrow> rsRetriesLeft s \<and> (startWaiting \<or> outOfBalance \<and> sessionUp))
     in \<lparr>rlKind = (if outOfBalance then kind else Kind_Unknown), rlWillReconnect = willReconnect,
         rlCancel = willReconnect \<and> startWaiting\<rparr>)"

definition BannerOpen :: "bool \<Rightarrow> RecoveryState option \<Rightarrow> bool" where
  "BannerOpen outOfBalance recovery \<longleftrightarrow>
    outOfBalance \<or> (case recovery of None \<Rightarrow> False | Some s \<Rightarrow> rsStartWaiting s \<and> rsRetriesLeft s)"

section \<open>The latch against its history\<close>

text \<open>
  What the latch promises: none before a refusal; from a refusal on, the balances read since, until
  providers attach or a balance above one of those readings shows that data arrived.
\<close>

fun latch_spec :: "i64 list option \<Rightarrow> BalanceObservation \<Rightarrow> i64 list option" where
  "latch_spec s ob =
    (let seen = (if boBalanceKnown ob then [boAvailableBytes ob] else [])
     in if boInsufficientBalance ob then Some (case s of None \<Rightarrow> seen | Some bs \<Rightarrow> seen @ bs)
        else case s of None \<Rightarrow> None
           | Some bs \<Rightarrow> if boProvidersConnected ob \<or>
                boBalanceKnown ob \<and> list_ex (\<lambda>b. b < boAvailableBytes ob) bs
              then None else Some (seen @ bs))"

definition latch_abs :: "OutOfBalanceLatch \<Rightarrow> i64 list option \<Rightarrow> bool" where
  "latch_abs l s \<longleftrightarrow>
    (case s of None \<Rightarrow> l = LatchReset
     | Some bs \<Rightarrow> latched l \<and> (lowKnown l \<longleftrightarrow> bs \<noteq> []) \<and> (bs \<noteq> [] \<longrightarrow> lowBytes l = Min (set bs)))"

lemma NoteBalance_abs:
  assumes "latched l" "lowKnown l \<longleftrightarrow> bs \<noteq> []" "bs \<noteq> [] \<longrightarrow> lowBytes l = Min (set bs)"
  shows "latch_abs (NoteBalance l ob) (Some ((if boBalanceKnown ob then [boAvailableBytes ob] else []) @ bs))"
proof -
  obtain m where m: "bs \<noteq> [] \<Longrightarrow> Min (set bs) = m" by auto
  show ?thesis using assms m by (auto simp: latch_abs_def NoteBalance_def min_def)
qed

lemma Min_less_list_ex: "bs \<noteq> [] \<Longrightarrow> Min (set bs) < (a::int) \<longleftrightarrow> list_ex (\<lambda>b. b < a) bs"
  by (simp add: Min_less_iff list_ex_iff)

lemma latch_simulation: "latch_abs l s \<Longrightarrow> latch_abs (LatchObserve l ob) (latch_spec s ob)"
proof (cases s)
  case None
  assume "latch_abs l s"
  with None have l: "l = LatchReset" by (simp add: latch_abs_def)
  show ?thesis
  proof (cases "boInsufficientBalance ob")
    case True
    then show ?thesis
      using NoteBalance_abs [of "LatchReset\<lparr>latched := True\<rparr>" "[]" ob] None l
      by (simp add: LatchObserve_def Let_def LatchReset_def)
  qed (simp add: None l LatchObserve_def latch_abs_def LatchReset_def Let_def)
next
  case (Some bs)
  assume "latch_abs l s"
  with Some have l: "latched l" "lowKnown l \<longleftrightarrow> bs \<noteq> []" "bs \<noteq> [] \<longrightarrow> lowBytes l = Min (set bs)"
    by (auto simp: latch_abs_def)
  let ?clears = "boProvidersConnected ob \<or> boBalanceKnown ob \<and> list_ex (\<lambda>b. b < boAvailableBytes ob) bs"
  have low: "lowKnown l \<and> lowBytes l < boAvailableBytes ob \<longleftrightarrow> list_ex (\<lambda>b. b < boAvailableBytes ob) bs"
    using l Min_less_list_ex [of bs "boAvailableBytes ob"] by (cases "bs = []") auto
  consider "boInsufficientBalance ob" | "\<not> boInsufficientBalance ob" ?clears
    | "\<not> boInsufficientBalance ob" "\<not> ?clears" by blast
  then show ?thesis
  proof cases
    case 1
    then show ?thesis using NoteBalance_abs [of "l\<lparr>latched := True\<rparr>" bs ob] l Some
      by (simp add: LatchObserve_def Let_def)
  next
    case 2
    then have "LatchObserve l ob = LatchReset" using l low by (auto simp: LatchObserve_def)
    with 2 Some show ?thesis by (auto simp: latch_abs_def)
  next
    case 3
    then have "LatchObserve l ob = NoteBalance l ob" using l low by (auto simp: LatchObserve_def)
    then show ?thesis using NoteBalance_abs [OF l, of ob] 3 Some by auto
  qed
qed

text \<open>
  The latch implements its contract: after any observations it is set exactly when an
  insufficient balance was reported and since then neither providers attached nor a balance was
  read above one of the balances read since. It keeps one number where the contract keeps them all.
\<close>

theorem latch_refines_history:
  "latched (run LatchObserve LatchReset os) \<longleftrightarrow> run latch_spec None os \<noteq> None"
proof -
  have "latch_abs (run LatchObserve l os) (run latch_spec s os)" if "latch_abs l s" for l s
    using that by (induction os arbitrary: l s) (simp_all add: latch_simulation del: latch_spec.simps)
  from this [of LatchReset None] have "latch_abs (run LatchObserve LatchReset os) (run latch_spec None os)"
    by (simp add: latch_abs_def)
  then show ?thesis by (auto simp: latch_abs_def LatchReset_def split: option.splits)
qed

section \<open>Once per episode\<close>

type_synonym balance_push = "bool \<times> bool \<times> bool"

fun push_out :: "balance_push \<Rightarrow> bool" where
  "push_out (ib, su, co) = OutOfBalance ib su co"

fun notice_step :: "GateNoticeTracker \<Rightarrow> balance_push \<Rightarrow> GateNoticeTracker" where
  "notice_step t (ib, su, co) = fst (ReactToBalancePush t ib su co)"

lemma notice_posted:
  "posted (run notice_step \<lparr>posted = False\<rparr> ps) \<longleftrightarrow> list_ex push_out (takeWhile fst (rev ps))"
proof (induction ps rule: rev_induct)
  case (snoc p ps)
  obtain ib su co where "p = (ib, su, co)" by (cases p)
  with snoc show ?case by (auto simp: ReactToBalancePush_def NoticeUpdate_def OutOfBalance_def)
qed simp

text \<open>
  The user is told once per out-of-balance episode, on its first push that is refused: after
  any pushes, the next one posts the notice exactly when it is out of balance and no push since the
  balance last sufficed was.
\<close>

theorem notice_once_per_episode:
  "snd (ReactToBalancePush (run notice_step \<lparr>posted = False\<rparr> ps) ib su co) =
    (if OutOfBalance ib su co \<and> \<not> list_ex push_out (takeWhile fst (rev ps)) then [SinkNotice] else [])"
  by (auto simp: ReactToBalancePush_def NoticeUpdate_def notice_posted OutOfBalance_def)

section \<open>Starts\<close>

text \<open>
  A start is decided after at most one fetch: once a fetch has settled, whatever its outcome,
  the same start within the freshness window is admitted or sent to the upgrade and never fetches
  again; it is admitted exactly when the account is a supporter, a payment is confirming, or
  neither the latch nor a fresh balance says that it cannot pay.
\<close>

theorem start_decided_after_fetch:
  assumes "sfFetchSettled f" and "WithinFreshness (sfFetchSettledAtMs f) (sfNowMs f)"
  shows "SinkFetchBalance \<notin> set (snd (AdmitStartConnect f)) \<and>
    (fst (AdmitStartConnect f) \<longleftrightarrow> sfSupporter f \<or> sfConfirming f \<or>
      \<not> sfLatched f \<and>
      \<not> (AccountBalanceExhausted (sfBalance f) \<and> WithinFreshness (abFetchedAtMs (sfBalance f)) (sfNowMs f)))"
  using assms
  by (auto simp: AdmitStartConnect_def DecideStartConnect_def OutOfBalance_def AccountBalanceExhausted_def)

theorem start_decided_after_fetch_witness:
  "fst (AdmitStartConnect \<lparr>sfLatched = False, sfSupporter = False, sfConfirming = False,
    sfBalance = \<lparr>abKnown = False, abPro = False, abAvailableBytes = 0, abOpenTransferBytes = 0, abFetchedAtMs = 0\<rparr>,
    sfFetchSettled = True, sfFetchSettledAtMs = 1000, sfNowMs = 5000\<rparr>)"
  using start_decided_after_fetch [of "\<lparr>sfLatched = False, sfSupporter = False, sfConfirming = False,
    sfBalance = \<lparr>abKnown = False, abPro = False, abAvailableBytes = 0, abOpenTransferBytes = 0, abFetchedAtMs = 0\<rparr>,
    sfFetchSettled = True, sfFetchSettledAtMs = 1000, sfNowMs = 5000\<rparr>"]
  by (simp add: WithinFreshness_def kFreshBalanceMs_def AccountBalanceExhausted_def)

section \<open>The recovery's budget\<close>

record RecoveryInput =
  riGate :: bool
  riConnectRequested :: bool
  riBalance :: AccountBalance
  riNowMs :: i64

definition observe :: "'a BalanceRecovery \<Rightarrow> RecoveryInput \<Rightarrow> 'a BalanceRecovery \<times> 'a RecoveryStep" where
  "observe r i = RecoveryObserve r (riGate i) (riConnectRequested i) (riBalance i) (riNowMs i)"

text \<open>The times of the retries an observation sequence makes, newest first.\<close>

fun retry_times :: "'a BalanceRecovery \<Rightarrow> RecoveryInput list \<Rightarrow> i64 list \<Rightarrow> i64 list" where
  "retry_times r [] acc = acc"
| "retry_times r (i # is) acc =
    (case observe r i of (r', st) \<Rightarrow>
       retry_times r' is (if st = Recovery_None then acc else riNowMs i # acc))"

lemma note_retries:
  "retries (RecoveryNote r g c now) =
     (if c \<and> \<not> (g \<and> c) \<and> 0 < retries r \<and> kRecoveryBudgetResetMs \<le> now - lastRetryAtMs r
      then 0 else retries r)"
  "lastRetryAtMs (RecoveryNote r g c now) = lastRetryAtMs r"
  "refusedStart (RecoveryNote r g c now) = refusedStart r"
  by (auto simp: RecoveryNote_def Arm_def Let_def)

lemma observe_cases:
  assumes "observe r i = (r', st)"
  defines "n \<equiv> RecoveryNote r (riGate i) (riConnectRequested i) (riNowMs i)"
  shows "(st = Recovery_None \<and> retries r' = retries n \<and> lastRetryAtMs r' = lastRetryAtMs r) \<or>
    (st \<noteq> Recovery_None \<and> retries n < kRecoveryMaxRetries \<and> retries r' = retries n + 1 \<and>
      lastRetryAtMs r' = riNowMs i)"
  using assms
  by (auto simp: observe_def RecoveryObserve_def note_retries Arm_def Let_def split: if_splits option.splits)

text \<open>
  The invariant behind the budget: the retries made since the last refill are the newest
  \<open>retries r\<close> ones, and the one before them is a whole reset period older than each, and than now.
\<close>

definition budget_inv :: "'a BalanceRecovery \<Rightarrow> i64 \<Rightarrow> i64 list \<Rightarrow> bool" where
  "budget_inv r now rs \<longleftrightarrow>
    0 \<le> retries r \<and> retries r \<le> kRecoveryMaxRetries \<and> nat (retries r) \<le> length rs \<and>
    (0 < retries r \<longrightarrow> lastRetryAtMs r = hd rs) \<and>
    sorted_wrt (\<ge>) (now # rs) \<and>
    (nat (retries r) < length rs \<longrightarrow>
      (\<forall>j<nat (retries r). rs ! nat (retries r) + kRecoveryBudgetResetMs \<le> rs ! j) \<and>
      rs ! nat (retries r) + kRecoveryBudgetResetMs \<le> now)"

lemma budget_note:
  assumes "budget_inv r now rs" and "now \<le> t"
  shows "budget_inv (RecoveryNote r g c t) t rs"
proof (cases "c \<and> \<not> (g \<and> c) \<and> 0 < retries r \<and> kRecoveryBudgetResetMs \<le> t - lastRetryAtMs r")
  case True
  then have ne: "rs \<noteq> []" "lastRetryAtMs r = hd rs"
    using assms(1) by (auto simp: budget_inv_def)
  then have "lastRetryAtMs r = rs ! 0" by (simp add: hd_conv_nth)
  with ne show ?thesis using True assms
    by (auto simp: budget_inv_def note_retries kRecoveryMaxRetries_def)
next
  case False
  then have "retries (RecoveryNote r g c t) = retries r" by (simp add: note_retries)
  then show ?thesis using assms by (auto simp: budget_inv_def note_retries)
qed

lemma budget_retry:
  assumes "budget_inv n t rs" and "retries n < kRecoveryMaxRetries"
    and "retries r' = retries n + 1" and "lastRetryAtMs r' = t"
  shows "budget_inv r' t (t # rs)"
proof -
  obtain m where m: "retries n = int m" using assms(1) by (auto simp: budget_inv_def elim: nonneg_int_cases)
  have "nat (int m + 1) = Suc m" by simp
  then show ?thesis using assms m
    by (auto simp: budget_inv_def nth_Cons split: nat.splits)
qed

definition retries_spaced :: "i64 list \<Rightarrow> bool" where
  "retries_spaced rs \<longleftrightarrow> (\<forall>k. k + 3 < length rs \<longrightarrow> rs ! (k + 3) + kRecoveryBudgetResetMs \<le> rs ! k)"

lemma budget_spaced:
  assumes "budget_inv r' t (t # rs)" and "0 < retries r'" and "retries_spaced rs"
  shows "retries_spaced (t # rs)"
  unfolding retries_spaced_def
proof (intro allI impI)
  fix k assume k: "k + 3 < length (t # rs)"
  show "(t # rs) ! (k + 3) + kRecoveryBudgetResetMs \<le> (t # rs) ! k"
  proof (cases k)
    case 0
    let ?n = "nat (retries r')"
    have n: "?n \<le> 3" "0 < ?n" "(t # rs) ! ?n + kRecoveryBudgetResetMs \<le> t"
      using assms(1,2) k by (auto simp: budget_inv_def kRecoveryMaxRetries_def)
    have "sorted_wrt (\<ge>) (t # rs)" using assms(1) by (simp add: budget_inv_def)
    then have "(t # rs) ! 3 \<le> (t # rs) ! ?n"
      using n(1) k sorted_wrt_nth_less [of "(\<ge>)" "t # rs" ?n 3] by (cases "?n = 3") auto
    with n(3) 0 show ?thesis by simp
  next
    case (Suc j)
    then show ?thesis using assms(3) k by (auto simp: retries_spaced_def add.commute [of 3])
  qed
qed

lemma budget_run:
  assumes "budget_inv r now rs" and "retries_spaced rs" and "sorted (now # map riNowMs is)"
  shows "retries_spaced (retry_times r is rs)"
  using assms
proof (induction "is" arbitrary: r now rs)
  case (Cons i "is")
  obtain r' st where ob: "observe r i = (r', st)" by (cases "observe r i")
  let ?n = "RecoveryNote r (riGate i) (riConnectRequested i) (riNowMs i)"
  have n: "budget_inv ?n (riNowMs i) rs" using Cons.prems by (intro budget_note) auto
  have later: "sorted (riNowMs i # map riNowMs is)" using Cons.prems(3) by auto
  from observe_cases [OF ob] show ?case
  proof (elim disjE conjE)
    assume st: "st = Recovery_None" "retries r' = retries ?n" "lastRetryAtMs r' = lastRetryAtMs r"
    then have "budget_inv r' (riNowMs i) rs" using n by (simp add: budget_inv_def note_retries)
    then show ?thesis using Cons.IH [OF _ Cons.prems(2) later] ob st by simp
  next
    assume st: "st \<noteq> Recovery_None" "retries ?n < kRecoveryMaxRetries" "retries r' = retries ?n + 1"
      "lastRetryAtMs r' = riNowMs i"
    then have inv: "budget_inv r' (riNowMs i) (riNowMs i # rs)" by (intro budget_retry [OF n])
    moreover have "0 < retries r'" using st n by (simp add: budget_inv_def)
    ultimately have "retries_spaced (riNowMs i # rs)" using Cons.prems(2) by (intro budget_spaced)
    then show ?thesis using Cons.IH [OF inv _ later] ob st by simp
  qed
qed simp

text \<open>
  (C34) The recovery cannot loop: from a state with a full budget, whatever gates and balances are
  observed in time order, any four successive retries span at least the ten minutes of the budget's
  reset, so no window shorter than that holds more than three.
\<close>

theorem recovery_rate_bounded:
  assumes "retries r = 0" and "sorted (map riNowMs is)"
  shows "retries_spaced (retry_times r is [])"
proof (cases "is")
  case (Cons i is')
  then have "sorted (riNowMs i # map riNowMs is)" using assms(2) by simp
  then show ?thesis using assms(1)
    by (intro budget_run [of r "riNowMs i"]) (auto simp: budget_inv_def retries_spaced_def kRecoveryMaxRetries_def)
qed (simp add: retries_spaced_def)

theorem recovery_rate_bounded_witness:
  "retries_spaced (retry_times (StartRefused InitBalanceRecovery ''se'' 0)
    (map (\<lambda>t. \<lparr>riGate = True, riConnectRequested = True, riBalance = \<lparr>abKnown = True, abPro = False,
        abAvailableBytes = (if even t then 100000000 else 0), abOpenTransferBytes = 0, abFetchedAtMs = t\<rparr>,
        riNowMs = t\<rparr>) [10, 11, 12, 13, 14, 15, 16, 17, 18]) [])"
  by (rule recovery_rate_bounded) (simp_all add: StartRefused_def Arm_def)



end
