(* ===== verification/Protocol.thy ===== *)
theory Protocol
  imports Prelude
begin

text \<open>
  The start modes and tunnel states of \<^verbatim>\<open>Common/Protocol.h\<close>, with the strings they travel as on the
  control pipe and the predicates both processes decide by.
\<close>

datatype StartMode = Mode_Tunnel | Mode_RpcOnly

definition StartModeToString :: "StartMode \<Rightarrow> string" where
  "StartModeToString m = (case m of Mode_Tunnel \<Rightarrow> ''tunnel'' | Mode_RpcOnly \<Rightarrow> ''rpc_only'')"

definition StartModeFromString :: "string \<Rightarrow> StartMode option" where
  "StartModeFromString s =
    (if s = ''tunnel'' then Some Mode_Tunnel
     else if s = ''rpc_only'' then Some Mode_RpcOnly else None)"

datatype TunnelState = Stopped | Starting | Up | Stopping | Error | RpcOnly | Preparing

definition TunnelStateToString :: "TunnelState \<Rightarrow> string" where
  "TunnelStateToString s =
    (case s of Stopped \<Rightarrow> ''stopped'' | Starting \<Rightarrow> ''starting'' | Up \<Rightarrow> ''up'' | Stopping \<Rightarrow> ''stopping''
     | Error \<Rightarrow> ''error'' | RpcOnly \<Rightarrow> ''rpc_only'' | Preparing \<Rightarrow> ''preparing'')"

definition TunnelStateFromString :: "string \<Rightarrow> TunnelState" where
  "TunnelStateFromString s =
    (if s = ''starting'' then Starting
     else if s = ''up'' then Up
     else if s = ''preparing'' then Preparing
     else if s = ''stopping'' then Stopping
     else if s = ''error'' then Error
     else if s = ''rpc_only'' then RpcOnly
     else Stopped)"

definition IsSessionLive :: "TunnelState \<Rightarrow> bool" where
  "IsSessionLive s \<longleftrightarrow> s = Up \<or> s = RpcOnly \<or> s = Preparing"

definition IsTunnelUp :: "TunnelState \<Rightarrow> bool" where
  "IsTunnelUp s \<longleftrightarrow> s = Up"

definition IsFailsafeStop :: "string \<Rightarrow> bool" where
  "IsFailsafeStop stop_reason \<longleftrightarrow> take 9 stop_reason = ''failsafe_''"

lemma tunnel_state_roundtrip: "TunnelStateFromString (TunnelStateToString s) = s"
  by (cases s) (simp_all add: TunnelStateFromString_def TunnelStateToString_def)

lemma start_mode_roundtrip: "StartModeFromString (StartModeToString m) = Some m"
  by (cases m) (simp_all add: StartModeFromString_def StartModeToString_def)

text \<open>A string no state prints as is read as the state that claims the least.\<close>

lemma tunnel_state_unknown:
  "s \<notin> range TunnelStateToString \<Longrightarrow> TunnelStateFromString s = Stopped"
proof -
  assume a: "s \<notin> range TunnelStateToString"
  have "s \<noteq> TunnelStateToString st" for st using a by blast
  from this [of Starting] this [of Up] this [of Preparing] this [of Stopping] this [of Error]
    this [of RpcOnly]
  show ?thesis by (simp add: TunnelStateFromString_def TunnelStateToString_def)
qed

end
