(* ===== verification/ConnectionHealth.thy ===== *)
theory ConnectionHealth
  imports Prelude
begin

text \<open>
  The aggregate connection state of \<^verbatim>\<open>Common/ConnectionHealth.h\<close> that every surface renders: the
  folding of the SDK's status, the tracker with its degrade hold, and the clamp by the service's
  capture facts. Time is an argument, as in the source.
\<close>

datatype HealthState = NoService | Disconnected | Connecting | Evaluating | HealthConnected | Degraded | Failed

record CaptureSignals =
  csServiceConnected :: bool
  csPreparing :: bool
  csActive :: bool
  csFailed :: bool

definition WithCapture :: "HealthState \<Rightarrow> CaptureSignals \<Rightarrow> HealthState" where
  "WithCapture provider capture =
    (if \<not> csServiceConnected capture then NoService
     else if csFailed capture then Failed
     else if csPreparing capture
          then (if provider = Failed \<or> provider = Evaluating then provider else Connecting)
     else if csActive capture then provider else Disconnected)"

datatype Activity = Inactive | ActivityConnecting | ActivityActive

text \<open>\<open>upcase\<close> is the loop body's fold of one character: \<^verbatim>\<open>'a'..'z'\<close> moves down by 32.\<close>

definition upcase :: "char \<Rightarrow> char" where
  "upcase c = (if 97 \<le> code_of c \<and> code_of c \<le> 122 then char_of (code_of c - 32) else c)"

fun fold_equal :: "string \<Rightarrow> string \<Rightarrow> bool" where
  "fold_equal (a # as) (b # bs) = (if upcase a \<noteq> upcase b then False else fold_equal as bs)"
| "fold_equal _ _ = True"

definition EqualsIgnoreAsciiCase :: "string \<Rightarrow> string \<Rightarrow> bool" where
  "EqualsIgnoreAsciiCase a b = (if length a \<noteq> length b then False else fold_equal a b)"

definition ActivityFromStatus :: "string \<Rightarrow> Activity" where
  "ActivityFromStatus status =
    (if EqualsIgnoreAsciiCase status ''CONNECTED'' then ActivityActive
     else if EqualsIgnoreAsciiCase status ''CONNECTING'' \<or>
             EqualsIgnoreAsciiCase status ''DESTINATION_SET'' then ActivityConnecting
     else Inactive)"

definition CellProven :: "string \<Rightarrow> bool" where
  "CellProven s \<longleftrightarrow> s = ''Added''"

definition CellOccupiesWindow :: "string \<Rightarrow> bool" where
  "CellOccupiesWindow s \<longleftrightarrow> s \<noteq> [] \<and> s \<noteq> ''Removed''"

record HealthSignals =
  hsServiceConnected :: bool
  hsActivity :: Activity
  hsGridKnown :: bool
  hsWindowSize :: i64
  hsProvenCount :: i64
  hsWindowFailed :: bool
  hsStatusFromLocation :: bool

record HealthTracker =
  htState :: HealthState
  htProven :: bool
  htProvenLostAtMillis :: i64
  htReevalAtMillis :: i64

definition InitHealthTracker :: HealthTracker where
  "InitHealthTracker = \<lparr>htState = NoService, htProven = False, htProvenLostAtMillis = -1, htReevalAtMillis = 0\<rparr>"

definition kDegradeHoldMillis :: i64 where "kDegradeHoldMillis = 7000"

definition ResetAttempt :: "HealthTracker \<Rightarrow> HealthTracker" where
  "ResetAttempt t = t\<lparr>htProven := False, htProvenLostAtMillis := -1, htReevalAtMillis := 0\<rparr>"

definition NoteNewAttempt :: "HealthTracker \<Rightarrow> HealthTracker" where
  "NoteNewAttempt t = (ResetAttempt t)\<lparr>htState := Connecting\<rparr>"

text \<open>The tracker after \<^verbatim>\<open>Update\<close>; its return value is the new \<open>htState\<close>.\<close>

definition HealthUpdate :: "HealthTracker \<Rightarrow> HealthSignals \<Rightarrow> i64 \<Rightarrow> HealthTracker" where
  "HealthUpdate t0 sig now =
    (let t = t0\<lparr>htReevalAtMillis := 0\<rparr> in
     if \<not> hsServiceConnected sig then (ResetAttempt t)\<lparr>htState := NoService\<rparr>
     else if hsActivity sig = Inactive then (ResetAttempt t)\<lparr>htState := Disconnected\<rparr>
     else if \<not> hsGridKnown sig then
       (if hsWindowFailed sig \<and> \<not> htProven t then t\<lparr>htState := Failed\<rparr>
        else if htState t = HealthConnected \<or> htState t = Degraded \<or> htState t = Evaluating then t
        else if hsActivity sig = ActivityActive \<or>
                hsStatusFromLocation sig \<and> hsActivity sig = ActivityConnecting
             then t\<lparr>htProven := True, htProvenLostAtMillis := -1, htState := HealthConnected\<rparr>
        else t\<lparr>htState := Connecting\<rparr>)
     else if hsProvenCount sig \<ge> 1
          then t\<lparr>htProven := True, htProvenLostAtMillis := -1, htState := HealthConnected\<rparr>
     else if hsWindowFailed sig \<and> \<not> htProven t then t\<lparr>htState := Failed\<rparr>
     else if htProven t then
       (let t1 = (if htProvenLostAtMillis t < 0 then t\<lparr>htProvenLostAtMillis := now\<rparr> else t)
        in if now - htProvenLostAtMillis t1 < kDegradeHoldMillis
           then t1\<lparr>htReevalAtMillis := htProvenLostAtMillis t1 + kDegradeHoldMillis, htState := HealthConnected\<rparr>
           else t1\<lparr>htState := Degraded\<rparr>)
     else if hsWindowSize sig > 0 then t\<lparr>htState := Evaluating\<rparr>
     else t\<lparr>htState := Connecting\<rparr>)"

type_synonym health_event = "HealthSignals \<times> i64"

fun health_step :: "HealthTracker \<Rightarrow> health_event \<Rightarrow> HealthTracker" where
  "health_step t (s, now) = HealthUpdate t s now"

text \<open>A snapshot of a live attempt whose grid shows no proven provider, and one that proves.\<close>

definition unproven :: "HealthSignals \<Rightarrow> bool" where
  "unproven s \<longleftrightarrow> hsServiceConnected s \<and> hsActivity s \<noteq> Inactive \<and> hsGridKnown s \<and> hsProvenCount s < 1"

definition proves :: "HealthSignals \<Rightarrow> bool" where
  "proves s \<longleftrightarrow> hsServiceConnected s \<and> hsActivity s \<noteq> Inactive \<and> hsGridKnown s \<and> 1 \<le> hsProvenCount s"

lemma update_unproven:
  assumes "unproven s" and "htProven t"
  shows "HealthUpdate t s now =
    (let lost = (if htProvenLostAtMillis t < 0 then now else htProvenLostAtMillis t)
     in t\<lparr>htProvenLostAtMillis := lost,
          htReevalAtMillis := (if now - lost < kDegradeHoldMillis then lost + kDegradeHoldMillis else 0),
          htState := (if now - lost < kDegradeHoldMillis then HealthConnected else Degraded)\<rparr>)"
  using assms by (simp add: HealthUpdate_def unproven_def Let_def)

lemma update_proves:
  assumes "proves s"
  shows "htState (HealthUpdate t s now) = HealthConnected \<and> htProven (HealthUpdate t s now) \<and>
    htProvenLostAtMillis (HealthUpdate t s now) = -1"
  using assms by (simp add: HealthUpdate_def proves_def Let_def)

lemma unproven_run:
  assumes "htProven t" and "0 \<le> htProvenLostAtMillis t" and "list_all (\<lambda>e. unproven (fst e)) es"
  shows "htProven (run health_step t es) \<and>
    htProvenLostAtMillis (run health_step t es) = htProvenLostAtMillis t"
  using assms
proof (induction es arbitrary: t)
  case (Cons e es)
  obtain s now where e: "e = (s, now)" by (cases e)
  with Cons show ?case by (simp add: update_unproven Let_def)
qed simp

text \<open>
  A blip never flaps the state and a loss is never hidden: from the moment a proven attempt
  first shows no proven provider, whatever the window does meanwhile, a later snapshot reads
  connected exactly within the seven seconds of the hold and degraded from then on; while it holds,
  the announced re-evaluation time is the end of the hold. One proven provider ends it at once.
\<close>

theorem degrade_hold_exact:
  assumes "htProven t" and "htProvenLostAtMillis t = -1" and "0 \<le> t0"
    and "list_all (\<lambda>e. unproven (fst e)) ((s0, t0) # es @ [(s, now)])" and "proves p"
  defines "after \<equiv> run health_step t ((s0, t0) # es @ [(s, now)])"
  shows "htState after = (if now < t0 + 7000 then HealthConnected else Degraded) \<and>
    htReevalAtMillis after = (if now < t0 + 7000 then t0 + 7000 else 0) \<and>
    htState (HealthUpdate after p now2) = HealthConnected"
proof -
  let ?t1 = "HealthUpdate t s0 t0"
  have t1: "htProven ?t1" "htProvenLostAtMillis ?t1 = t0"
    using assms(1-4) by (simp_all add: update_unproven Let_def)
  then have "htProven (run health_step ?t1 es) \<and> htProvenLostAtMillis (run health_step ?t1 es) = t0"
    using unproven_run [of ?t1 es] assms(3,4) by simp
  then have "htState after = (if now < t0 + 7000 then HealthConnected else Degraded)"
    "htReevalAtMillis after = (if now < t0 + 7000 then t0 + 7000 else 0)"
    using assms(3,4) by (simp_all add: after_def update_unproven kDegradeHoldMillis_def Let_def)
  then show ?thesis using update_proves [OF assms(5)] by simp
qed

definition exampleSignals :: "i64 \<Rightarrow> HealthSignals" where
  "exampleSignals proven = \<lparr>hsServiceConnected = True, hsActivity = ActivityActive, hsGridKnown = True,
    hsWindowSize = 3, hsProvenCount = proven, hsWindowFailed = False, hsStatusFromLocation = False\<rparr>"

theorem degrade_hold_exact_witness:
  "htState (run health_step (HealthUpdate InitHealthTracker (exampleSignals 2) 500)
     ((exampleSignals 0, 1000) # [(exampleSignals 0, 4000)] @ [(exampleSignals 0, 8000)])) = Degraded"
  using degrade_hold_exact [of "HealthUpdate InitHealthTracker (exampleSignals 2) 500" 1000
      "exampleSignals 0" "[(exampleSignals 0, 4000)]" "exampleSignals 0" 8000 "exampleSignals 1" 8001]
    update_proves [of "exampleSignals 2" InitHealthTracker 500]
  by (simp add: exampleSignals_def unproven_def proves_def)

text \<open>The evidence an attempt has had: a proving snapshot, or the session's own claim with no feed.\<close>

definition vouches :: "HealthSignals \<Rightarrow> bool" where
  "vouches s \<longleftrightarrow> proves s \<or> (hsServiceConnected s \<and> \<not> hsGridKnown s \<and>
    (hsActivity s = ActivityActive \<or> hsStatusFromLocation s \<and> hsActivity s = ActivityConnecting))"

definition claim_backed :: "HealthTracker \<Rightarrow> bool" where
  "claim_backed t \<longleftrightarrow> (htState t = HealthConnected \<or> htState t = Degraded \<longrightarrow> htProven t)"

lemma health_step_evidence:
  assumes "claim_backed t" and "\<not> htProven t" and "\<not> vouches s"
  shows "claim_backed (HealthUpdate t s now) \<and> \<not> htProven (HealthUpdate t s now)"
  using assms
  by (cases "hsActivity s")
    (auto simp: HealthUpdate_def claim_backed_def vouches_def proves_def ResetAttempt_def Let_def)

lemma claim_backed_step: "claim_backed t \<Longrightarrow> claim_backed (health_step t e)"
  by (cases e)
    (simp add: HealthUpdate_def claim_backed_def ResetAttempt_def Let_def)

interpretation health: observer health_step claim_backed "\<lambda>_ _. True"
  by unfold_locales (rule claim_backed_step)

text \<open>
  No surface says connected without evidence of this attempt: after a deliberate new connect,
  while no snapshot shows a proven provider or the session's own claim with no grid feed to check
  it, the state is never connected and never degraded, whatever was proven before.
\<close>

theorem connected_needs_evidence:
  assumes "list_all (\<lambda>e. \<not> vouches (fst e)) es"
  shows "htState (run health_step (NoteNewAttempt t) es) \<noteq> HealthConnected \<and>
    htState (run health_step (NoteNewAttempt t) es) \<noteq> Degraded"
proof -
  have "claim_backed (run health_step t es) \<and> \<not> htProven (run health_step t es)"
    if "claim_backed t" "\<not> htProven t" for t
    using assms that
  proof (induction es arbitrary: t)
    case (Cons e es)
    obtain s now where e: "e = (s, now)" by (cases e)
    with Cons show ?case using health_step_evidence [of t s now] by simp
  qed simp
  from this [of "NoteNewAttempt t"] show ?thesis
    by (auto simp: NoteNewAttempt_def ResetAttempt_def claim_backed_def)
qed

theorem connected_needs_evidence_witness:
  "htState (run health_step (NoteNewAttempt (HealthUpdate InitHealthTracker (exampleSignals 2) 500))
     [(exampleSignals 0, 600), (exampleSignals 0, 9000)]) \<noteq> Degraded"
  by (rule conjunct2 [OF connected_needs_evidence])
    (simp add: exampleSignals_def vouches_def proves_def)


end
