(* ===== verification/ConnectAction.thy ===== *)
theory ConnectAction
  imports Protocol ConnectionHealth
begin

text \<open>
  The one decision behind every connect and disconnect control, \<^verbatim>\<open>Common/ConnectAction.h\<close>: from a
  gesture, what the service reports and what the app knows, the plan the session worker performs.
  The sentence a plan carries is a datatype with one constructor per literal of the source; the
  initial empty string is \<open>Why_Empty\<close>.
\<close>

datatype Gesture = Connect | ConnectRow | Disconnect | TrayToggle | EnsureSession | ForceStopTunnel | LiftKillSwitch

record ServiceFacts =
  pipeUp :: bool
  known :: bool
  svState :: TunnelState
  svMode :: StartMode
  routesInstalled :: bool
  wfpState :: string
  stopReason :: string

record AppFacts =
  haveDevice :: bool
  killSwitch :: bool
  wantsTunnel :: bool
  userDisconnected :: bool
  health :: HealthState

datatype PlanWhy =
    Why_Empty
  | Why_NoServiceToAsk | Why_PolicyNotLiftable | Why_KillSwitchHolds
  | Why_NoControlChannel | Why_EscapeHatch
  | Why_NoServiceNoTunnel | Why_StateUnknownDisconnect
  | Why_DeliberateDisconnect | Why_StaleDevice | Why_NothingInstalled
  | Why_UserDisconnected | Why_KeepSession | Why_NoSessionNoAnswer
  | Why_PreparedSession | Why_SessionLive | Why_TunnelGone | Why_NoSessionYet
  | Why_Unrecognised

record Plan =
  stopTunnel :: bool
  tearDownDevice :: bool
  startTunnel :: bool
  sdkConnect :: bool
  sdkDisconnect :: bool
  liftKillSwitch :: bool
  why :: PlanWhy

definition EmptyPlan :: Plan where
  "EmptyPlan = \<lparr>stopTunnel = False, tearDownDevice = False, startTunnel = False, sdkConnect = False,
    sdkDisconnect = False, liftKillSwitch = False, why = Why_Empty\<rparr>"

definition WfpInForce :: "ServiceFacts \<Rightarrow> bool" where
  "WfpInForce f \<longleftrightarrow> wfpState f \<noteq> [] \<and> wfpState f \<noteq> ''off''"

definition MachineIsCaptured :: "ServiceFacts \<Rightarrow> bool" where
  "MachineIsCaptured f \<longleftrightarrow> routesInstalled f \<or> WfpInForce f"

definition KillSwitchIsLiftable :: "ServiceFacts \<Rightarrow> bool" where
  "KillSwitchIsLiftable f \<longleftrightarrow>
    pipeUp f \<and> svState f \<noteq> Up \<and> (wfpState f = ''armed'' \<or> wfpState f = ''connecting'')"

definition BlockedByKillSwitch :: "ServiceFacts \<Rightarrow> bool" where
  "BlockedByKillSwitch f \<longleftrightarrow> \<not> routesInstalled f \<and> wfpState f = ''armed''"

definition ActionIsDisconnect :: "ServiceFacts \<Rightarrow> HealthState \<Rightarrow> bool" where
  "ActionIsDisconnect f h \<longleftrightarrow>
    (let sdkActive = (h \<noteq> Disconnected \<and> h \<noteq> NoService)
     in sdkActive \<or> svState f = Preparing \<or> (MachineIsCaptured f \<and> \<not> BlockedByKillSwitch f))"

definition ServingRpcOnly :: "ServiceFacts \<Rightarrow> bool" where
  "ServingRpcOnly f \<longleftrightarrow> IsSessionLive (svState f) \<and> svMode f = Mode_RpcOnly"

text \<open>The branches of \<open>Decide\<close>, one per group of gestures.\<close>

definition DecideLift :: "ServiceFacts \<Rightarrow> Plan" where
  "DecideLift f =
    (if \<not> pipeUp f then EmptyPlan\<lparr>why := Why_NoServiceToAsk\<rparr>
     else if \<not> KillSwitchIsLiftable f then EmptyPlan\<lparr>why := Why_PolicyNotLiftable\<rparr>
     else EmptyPlan\<lparr>liftKillSwitch := True, why := Why_KillSwitchHolds\<rparr>)"

definition DecideForceStop :: "ServiceFacts \<Rightarrow> AppFacts \<Rightarrow> Plan" where
  "DecideForceStop f a =
    (if \<not> pipeUp f then EmptyPlan\<lparr>why := Why_NoControlChannel\<rparr>
     else EmptyPlan\<lparr>stopTunnel := True, tearDownDevice := haveDevice a, why := Why_EscapeHatch\<rparr>)"

definition DecideDisconnect :: "ServiceFacts \<Rightarrow> AppFacts \<Rightarrow> Plan" where
  "DecideDisconnect f a =
    (if \<not> pipeUp f then EmptyPlan\<lparr>sdkDisconnect := haveDevice a, why := Why_NoServiceNoTunnel\<rparr>
     else if \<not> known f
          then EmptyPlan\<lparr>stopTunnel := True, tearDownDevice := haveDevice a, sdkDisconnect := haveDevice a,
                 why := Why_StateUnknownDisconnect\<rparr>
     else let serviceHasSomething = (routesInstalled f \<or>
                (IsSessionLive (svState f) \<and> svMode f = Mode_Tunnel) \<or> WfpInForce f);
              tearDown = (haveDevice a \<and> (serviceHasSomething \<or> \<not> IsSessionLive (svState f)))
          in EmptyPlan\<lparr>stopTunnel := serviceHasSomething, sdkDisconnect := haveDevice a,
               tearDownDevice := tearDown,
               why := (if serviceHasSomething then Why_DeliberateDisconnect
                       else if tearDown then Why_StaleDevice else Why_NothingInstalled)\<rparr>)"

definition DecideConnect :: "Gesture \<Rightarrow> ServiceFacts \<Rightarrow> AppFacts \<Rightarrow> Plan" where
  "DecideConnect g f a =
    (let p = EmptyPlan\<lparr>sdkConnect := (g \<noteq> EnsureSession)\<rparr> in
     if g = EnsureSession \<and> userDisconnected a \<and> \<not> IsSessionLive (svState f)
     then p\<lparr>why := Why_UserDisconnected\<rparr>
     else if \<not> pipeUp f \<or> \<not> known f
     then p\<lparr>startTunnel := (\<not> haveDevice a),
            why := (if haveDevice a then Why_KeepSession else Why_NoSessionNoAnswer)\<rparr>
     else let needRoutes = (wantsTunnel a \<and> \<not> ServingRpcOnly f);
              serviceHasWhatWeNeed = (IsSessionLive (svState f) \<and>
                (\<not> needRoutes \<or> routesInstalled f \<or> svState f = Preparing))
          in if haveDevice a \<and> serviceHasWhatWeNeed
             then p\<lparr>why := (if svState f = Preparing then Why_PreparedSession else Why_SessionLive)\<rparr>
             else p\<lparr>tearDownDevice := haveDevice a, startTunnel := True,
                    why := (if haveDevice a then Why_TunnelGone else Why_NoSessionYet)\<rparr>)"

definition Decide :: "Gesture \<Rightarrow> ServiceFacts \<Rightarrow> AppFacts \<Rightarrow> Plan" where
  "Decide g0 f a =
    (let g = (if g0 = TrayToggle
              then (if ActionIsDisconnect f (health a) then Disconnect else Connect) else g0)
     in case g of
          LiftKillSwitch \<Rightarrow> DecideLift f
        | ForceStopTunnel \<Rightarrow> DecideForceStop f a
        | Disconnect \<Rightarrow> DecideDisconnect f a
        | Connect \<Rightarrow> DecideConnect g f a
        | ConnectRow \<Rightarrow> DecideConnect g f a
        | EnsureSession \<Rightarrow> DecideConnect g f a
        | TrayToggle \<Rightarrow> EmptyPlan\<lparr>why := Why_Unrecognised\<rparr>)"

lemmas decide_defs = Decide_def DecideLift_def DecideForceStop_def DecideDisconnect_def
  DecideConnect_def EmptyPlan_def Let_def

section \<open>Properties\<close>

text \<open>
  Disconnect gives the machine back: with a service there, whenever its network is captured by
  routes or by any firewall policy, or a tunnel session is live, or its state could not be read,
  the plan stops the tunnel and drops the session that pointed at it, and starts nothing. The same
  holds of the tray item whenever the machine is captured by anything but the armed kill switch.
\<close>

theorem disconnect_releases_machine:
  assumes "pipeUp f"
    and "\<not> known f \<or> MachineIsCaptured f \<or> (IsSessionLive (svState f) \<and> svMode f = Mode_Tunnel)"
  shows "stopTunnel (Decide Disconnect f a) \<and> tearDownDevice (Decide Disconnect f a) = haveDevice a \<and>
    \<not> startTunnel (Decide Disconnect f a) \<and> \<not> sdkConnect (Decide Disconnect f a) \<and>
    (MachineIsCaptured f \<and> \<not> BlockedByKillSwitch f \<longrightarrow> Decide TrayToggle f a = Decide Disconnect f a)"
proof (intro conjI impI)
  show "Decide TrayToggle f a = Decide Disconnect f a"
    if "MachineIsCaptured f \<and> \<not> BlockedByKillSwitch f"
    using that by (simp add: Decide_def ActionIsDisconnect_def)
qed (use assms in \<open>auto simp: decide_defs MachineIsCaptured_def\<close>)

theorem disconnect_releases_machine_witness:
  "stopTunnel (Decide Disconnect
     \<lparr>pipeUp = True, known = True, svState = Stopped, svMode = Mode_Tunnel, routesInstalled = False,
       wfpState = ''armed'', stopReason = ''failsafe_no_exit''\<rparr>
     \<lparr>haveDevice = True, killSwitch = True, wantsTunnel = True, userDisconnected = False, health = NoService\<rparr>)"
  by (rule conjunct1 [OF disconnect_releases_machine])
    (simp_all add: MachineIsCaptured_def WfpInForce_def)

text \<open>
  A connect is never answered from a stale handle: when the service could be asked and the
  plan of a connect gesture does not start a tunnel, the app holds a session and the service's own
  report says that session is live and, unless it is an rpc-only one or the app wants no tunnel,
  has its routes installed or is preparing them.
\<close>

theorem connect_never_stale:
  assumes "g = Connect \<or> g = ConnectRow" and "pipeUp f" and "known f"
  shows "sdkConnect (Decide g f a) \<and>
    (startTunnel (Decide g f a) \<longleftrightarrow>
      \<not> (haveDevice a \<and> IsSessionLive (svState f) \<and>
        (routesInstalled f \<or> svState f = Preparing \<or> svMode f = Mode_RpcOnly \<or> \<not> wantsTunnel a))) \<and>
    (tearDownDevice (Decide g f a) \<longleftrightarrow> startTunnel (Decide g f a) \<and> haveDevice a)"
  using assms by (auto simp: decide_defs ServingRpcOnly_def)

theorem connect_never_stale_witness:
  "startTunnel (Decide ConnectRow
     \<lparr>pipeUp = True, known = True, svState = Stopped, svMode = Mode_Tunnel, routesInstalled = False,
       wfpState = ''off'', stopReason = ''user''\<rparr>
     \<lparr>haveDevice = True, killSwitch = False, wantsTunnel = True, userDisconnected = False, health = HealthConnected\<rparr>)"
  using connect_never_stale [of ConnectRow
     "\<lparr>pipeUp = True, known = True, svState = Stopped, svMode = Mode_Tunnel, routesInstalled = False,
       wfpState = ''off'', stopReason = ''user''\<rparr>"
     "\<lparr>haveDevice = True, killSwitch = False, wantsTunnel = True, userDisconnected = False, health = HealthConnected\<rparr>"]
  by (simp add: IsSessionLive_def)

text \<open>
  Which gesture may do what: a tunnel is started only by the connect gestures, by ensuring a
  session, or by the tray item when it reads connect, and never by ensuring a session after the
  user disconnected while none is live; a tunnel is stopped only by a disconnect, by the escape
  hatch, or by the tray item when it reads disconnect; no plan does both, the policy is lifted only
  when the service can lift it, every plan says why, and the kill-switch preference is never read.
\<close>

theorem gesture_authority:
  "(startTunnel (Decide g f a) \<longrightarrow>
      g = Connect \<or> g = ConnectRow \<or> g = TrayToggle \<and> \<not> ActionIsDisconnect f (health a) \<or>
      g = EnsureSession \<and> \<not> (userDisconnected a \<and> \<not> IsSessionLive (svState f))) \<and>
    (stopTunnel (Decide g f a) \<longrightarrow>
      g = Disconnect \<or> g = ForceStopTunnel \<or> g = TrayToggle \<and> ActionIsDisconnect f (health a)) \<and>
    \<not> (startTunnel (Decide g f a) \<and> stopTunnel (Decide g f a)) \<and>
    (liftKillSwitch (Decide g f a) \<longleftrightarrow> g = LiftKillSwitch \<and> KillSwitchIsLiftable f) \<and>
    why (Decide g f a) \<noteq> Why_Empty \<and> why (Decide g f a) \<noteq> Why_Unrecognised \<and>
    Decide g f (a\<lparr>killSwitch := k\<rparr>) = Decide g f a"
proof (intro conjI)
  show "Decide g f (a\<lparr>killSwitch := k\<rparr>) = Decide g f a"
    by (cases g) (auto simp: decide_defs)
  show "liftKillSwitch (Decide g f a) \<longleftrightarrow> g = LiftKillSwitch \<and> KillSwitchIsLiftable f"
    by (cases g) (auto simp: decide_defs KillSwitchIsLiftable_def)
qed (cases g; auto simp: decide_defs)+

theorem gesture_authority_witness:
  "\<not> startTunnel (Decide EnsureSession
     \<lparr>pipeUp = False, known = False, svState = Stopped, svMode = Mode_Tunnel, routesInstalled = False,
       wfpState = ''off'', stopReason = ''user''\<rparr>
     \<lparr>haveDevice = False, killSwitch = False, wantsTunnel = True, userDisconnected = True, health = NoService\<rparr>)"
  using gesture_authority [of EnsureSession
     "\<lparr>pipeUp = False, known = False, svState = Stopped, svMode = Mode_Tunnel, routesInstalled = False,
       wfpState = ''off'', stopReason = ''user''\<rparr>"
     "\<lparr>haveDevice = False, killSwitch = False, wantsTunnel = True, userDisconnected = True, health = NoService\<rparr>"]
  by (simp add: IsSessionLive_def)

end
