(* ===== verification/ProvideLifecycle.thy ===== *)
theory ProvideLifecycle
  imports Protocol
begin

text \<open>
  Whether the device provides while there is no tunnel session, \<^verbatim>\<open>Common/ProvideLifecycle.h\<close>: the
  tier per control mode, the service's refusals, the move of one device between its two roles, and
  the step the app takes from a status the service answered.
\<close>

datatype ControlMode = Never | Always | Control_Network | Auto | Control_Unknown

definition ControlModeFrom :: "string \<Rightarrow> ControlMode" where
  "ControlModeFrom mode =
    (if mode = ''never'' then Never
     else if mode = ''always'' then Always
     else if mode = ''network'' then Control_Network
     else if mode = ''auto'' then Auto
     else Control_Unknown)"

definition ControlModeToString :: "ControlMode \<Rightarrow> string" where
  "ControlModeToString mode =
    (case mode of Never \<Rightarrow> ''never'' | Always \<Rightarrow> ''always'' | Control_Network \<Rightarrow> ''network''
     | Auto \<Rightarrow> ''auto'' | Control_Unknown \<Rightarrow> ''unknown'')"

datatype Tier = Tier_None | Tier_Network | Tier_Public

definition tier_value :: "Tier \<Rightarrow> i64" where
  "tier_value t = (case t of Tier_None \<Rightarrow> 0 | Tier_Network \<Rightarrow> 1 | Tier_Public \<Rightarrow> 3)"

definition SdkTierFor :: "ControlMode \<Rightarrow> bool \<Rightarrow> Tier" where
  "SdkTierFor mode connected =
    (case mode of
       Always \<Rightarrow> Tier_Public
     | Control_Network \<Rightarrow> Tier_Network
     | Auto \<Rightarrow> (if connected then Tier_Public else Tier_Network)
     | Never \<Rightarrow> Tier_None
     | Control_Unknown \<Rightarrow> Tier_None)"

definition ProviderRuns :: "ControlMode \<Rightarrow> bool \<Rightarrow> bool" where
  "ProviderRuns mode connected \<longleftrightarrow> SdkTierFor mode connected \<noteq> Tier_None"

record ServiceProviderState =
  spTunnelSession :: bool
  spFirewallInForce :: bool
  spDeviceStillHeld :: bool
  spRestartPending :: bool

datatype ProviderRefusal = Refusal_None | ModeDoesNotProvide | TunnelSession | KillSwitchArmed
  | DeviceStillHeld | RestartPending

definition ProviderStartRefusal :: "ControlMode \<Rightarrow> ServiceProviderState \<Rightarrow> ProviderRefusal" where
  "ProviderStartRefusal mode state =
    (if \<not> ProviderRuns mode False then ModeDoesNotProvide
     else if spTunnelSession state then TunnelSession
     else if spFirewallInForce state then KillSwitchArmed
     else if spDeviceStillHeld state then DeviceStillHeld
     else if spRestartPending state then RestartPending
     else Refusal_None)"

definition RefusalReason :: "ProviderRefusal \<Rightarrow> string" where
  "RefusalReason refusal =
    (case refusal of
       ModeDoesNotProvide \<Rightarrow> ''the provide mode does not provide while disconnected''
     | TunnelSession \<Rightarrow> ''a tunnel session exists, and its device is already the provider''
     | KillSwitchArmed \<Rightarrow> ''the kill switch is holding this machine blocked; providing resumes '' @
         ''after you reconnect or turn the kill switch off''
     | DeviceStillHeld \<Rightarrow> ''a previous teardown is still holding this device's identity''
     | RestartPending \<Rightarrow> ''this service is restarting itself''
     | Refusal_None \<Rightarrow> '''')"

datatype ExtenderSettingTarget = ProviderDevice | SessionDevice | NetworkSpace | Target_None

definition ExtenderSettingTargetFor :: "bool \<Rightarrow> bool \<Rightarrow> bool \<Rightarrow> ExtenderSettingTarget" where
  "ExtenderSettingTargetFor providerDevice sessionDevice lastSpace =
    (if providerDevice then ProviderDevice else if sessionDevice then SessionDevice
     else if lastSpace then NetworkSpace else Target_None)"

definition ExtenderSettingTargetToString :: "ExtenderSettingTarget \<Rightarrow> string" where
  "ExtenderSettingTargetToString target =
    (case target of
       ProviderDevice \<Rightarrow> ''the provider-only device''
     | SessionDevice \<Rightarrow> ''the session's device''
     | NetworkSpace \<Rightarrow> ''the last device's network space''
     | Target_None \<Rightarrow> ''nothing'')"

section \<open>One device in two roles\<close>

record DeviceIdentity =
  jwtSubject :: string
  networkSpaceJson :: string
  instanceId :: string
  deviceDescription :: string
  deviceSpec :: string
  appVersion :: string

definition SameIdentity :: "DeviceIdentity \<Rightarrow> DeviceIdentity \<Rightarrow> bool" where
  "SameIdentity a b \<longleftrightarrow>
    jwtSubject a = jwtSubject b \<and> networkSpaceJson a = networkSpaceJson b \<and>
    instanceId a = instanceId b \<and> deviceDescription a = deviceDescription b \<and>
    deviceSpec a = deviceSpec b \<and> appVersion a = appVersion b"

definition note_field :: "string \<Rightarrow> bool \<times> string \<Rightarrow> string" where
  "note_field names field =
    (case field of (differs, name) \<Rightarrow>
       if \<not> differs then names
       else (if names \<noteq> [] then names @ '', '' else names) @ name)"

definition DifferingIdentityFields :: "DeviceIdentity \<Rightarrow> DeviceIdentity \<Rightarrow> string" where
  "DifferingIdentityFields a b =
    foldl note_field []
      [(jwtSubject a \<noteq> jwtSubject b, ''by_jwt''),
       (networkSpaceJson a \<noteq> networkSpaceJson b, ''network_space_json''),
       (instanceId a \<noteq> instanceId b, ''instance_id''),
       (deviceDescription a \<noteq> deviceDescription b, ''device_description''),
       (deviceSpec a \<noteq> deviceSpec b, ''device_spec''),
       (appVersion a \<noteq> appVersion b, ''app_version'')]"

definition PromotesProviderDevice :: "bool \<Rightarrow> DeviceIdentity \<Rightarrow> DeviceIdentity \<Rightarrow> bool" where
  "PromotesProviderDevice providerDevice provider start \<longleftrightarrow> providerDevice \<and> SameIdentity provider start"

record SessionStopFacts =
  ssSessionDevice :: bool
  ssDisconnect :: bool
  ssMode :: ControlMode
  ssFirewallInForce :: bool
  ssDeviceStillHeld :: bool
  ssRestartPending :: bool

definition KeepsSessionDevice :: "SessionStopFacts \<Rightarrow> bool" where
  "KeepsSessionDevice facts =
    (if \<not> ssSessionDevice facts \<or> \<not> ssDisconnect facts then False
     else ProviderStartRefusal (ssMode facts)
       \<lparr>spTunnelSession = False, spFirewallInForce = ssFirewallInForce facts,
         spDeviceStillHeld = ssDeviceStillHeld facts, spRestartPending = ssRestartPending facts\<rparr> = Refusal_None)"

section \<open>The app's half\<close>

record ServiceProviderFacts =
  pfAnswered :: bool
  pfTunnelSession :: bool
  pfKillSwitchArmed :: bool
  pfProviderRunning :: bool

datatype DisconnectedStep = Step_None | Step_Start | Step_Stop

definition DisconnectedProviderStep :: "string \<Rightarrow> ServiceProviderFacts \<Rightarrow> DisconnectedStep" where
  "DisconnectedProviderStep controlMode facts =
    (if \<not> pfAnswered facts \<or> pfTunnelSession facts then Step_None
     else if \<not> ProviderRuns (ControlModeFrom controlMode) False
          then (if pfProviderRunning facts then Step_Stop else Step_None)
     else if pfKillSwitchArmed facts then (if pfProviderRunning facts then Step_Stop else Step_None)
     else Step_Start)"

text \<open>The fields of a \<^verbatim>\<open>TunnelStatus\<close> that \<^verbatim>\<open>ProviderFactsFrom\<close> reads.\<close>

record ProviderStatus =
  psState :: TunnelState
  psWfpState :: string
  psProviderRunning :: bool

definition ProviderFactsFrom :: "ProviderStatus \<Rightarrow> bool \<Rightarrow> ServiceProviderFacts" where
  "ProviderFactsFrom s answered =
    \<lparr>pfAnswered = answered,
     pfTunnelSession = IsSessionLive (psState s) \<or> psState s = Starting \<or> psState s = Stopping,
     pfKillSwitchArmed = psWfpState s \<noteq> [] \<and> psWfpState s \<noteq> ''off'',
     pfProviderRunning = psProviderRunning s\<rparr>"

section \<open>Properties\<close>

lemma provider_modes: "ProviderRuns m c \<longleftrightarrow> m \<in> {Always, Control_Network, Auto}"
  by (cases m) (auto simp: ProviderRuns_def SdkTierFor_def)

lemma connecting_never_lowers_tier:
  "tier_value (SdkTierFor m False) \<le> tier_value (SdkTierFor m True)"
  by (cases m) (simp_all add: SdkTierFor_def tier_value_def)

lemma refusal_reasons_distinct: "RefusalReason r = RefusalReason r' \<longleftrightarrow> r = r'"
  by (cases r; cases r') (simp_all add: RefusalReason_def)

lemma note_field_Nil_iff: "foldl note_field names fs = [] \<longleftrightarrow> names = [] \<and> list_all (\<lambda>f. \<not> fst f \<or> snd f = []) fs"
  by (induction fs arbitrary: names) (auto simp: note_field_def split: prod.splits if_splits)

text \<open>
  The log line that names what differs is empty exactly for one identity, and a running
  provider device is handed to a session exactly when there is nothing to name.
\<close>

theorem differing_fields_exact:
  "(DifferingIdentityFields a b = [] \<longleftrightarrow> SameIdentity a b) \<and>
    (PromotesProviderDevice True a b \<longleftrightarrow> a = b)"
proof
  show "DifferingIdentityFields a b = [] \<longleftrightarrow> SameIdentity a b"
    unfolding DifferingIdentityFields_def note_field_Nil_iff SameIdentity_def by auto
  show "PromotesProviderDevice True a b \<longleftrightarrow> a = b"
    by (auto simp: PromotesProviderDevice_def SameIdentity_def)
qed

text \<open>
  The two processes agree about when the machine provides. For a service state that a status
  reports truthfully: the app asks for a start only where the service's own rule has no lasting
  objection, that is none at all or one that a finished teardown or restart removes; it asks for a
  stop only for a provider that runs where a start would be refused for the mode or the armed
  firewall; and a disconnect keeps the session's device exactly when a start in its place is not
  refused.
\<close>

theorem provide_halves_agree:
  assumes "spTunnelSession state = pfTunnelSession (ProviderFactsFrom s True)"
    and "spFirewallInForce state = pfKillSwitchArmed (ProviderFactsFrom s True)"
  shows "(DisconnectedProviderStep mode (ProviderFactsFrom s True) = Step_Start \<longleftrightarrow>
      ProviderStartRefusal (ControlModeFrom mode) state \<in> {Refusal_None, DeviceStillHeld, RestartPending}) \<and>
    (DisconnectedProviderStep mode (ProviderFactsFrom s True) = Step_Stop \<longleftrightarrow>
      psProviderRunning s \<and> \<not> spTunnelSession state \<and>
      ProviderStartRefusal (ControlModeFrom mode) state \<in> {ModeDoesNotProvide, KillSwitchArmed}) \<and>
    (\<not> spTunnelSession state \<longrightarrow>
      KeepsSessionDevice \<lparr>ssSessionDevice = True, ssDisconnect = True, ssMode = ControlModeFrom mode,
        ssFirewallInForce = spFirewallInForce state, ssDeviceStillHeld = spDeviceStillHeld state,
        ssRestartPending = spRestartPending state\<rparr> =
      (ProviderStartRefusal (ControlModeFrom mode) state = Refusal_None))"
  using assms
  by (auto simp: DisconnectedProviderStep_def ProviderStartRefusal_def ProviderFactsFrom_def KeepsSessionDevice_def)

theorem provide_halves_agree_witness:
  "DisconnectedProviderStep ''auto''
    (ProviderFactsFrom \<lparr>psState = Stopped, psWfpState = ''off'', psProviderRunning = False\<rparr> True) = Step_Start"
  using provide_halves_agree [of "\<lparr>spTunnelSession = False, spFirewallInForce = False,
      spDeviceStillHeld = True, spRestartPending = False\<rparr>"
      "\<lparr>psState = Stopped, psWfpState = ''off'', psProviderRunning = False\<rparr>" "''auto''"]
  by (simp add: ProviderFactsFrom_def IsSessionLive_def ProviderStartRefusal_def ProviderRuns_def
      ControlModeFrom_def SdkTierFor_def)

end
