(* ===== verification/VersionGrammar.thy ===== *)
theory VersionGrammar
  imports Prelude
begin

text \<open>
  The release tag grammar of \<^verbatim>\<open>Common/VersionGrammar.h\<close> and the update formats of
  \<^verbatim>\<open>Common/UpdateFormats.h\<close>: digit runs, the release code of a tag, asset digests, payload and
  renamed file names. A \<^verbatim>\<open>std::string_view\<close> is the list of its characters; \<open>drop n\<close> is
  \<^verbatim>\<open>remove_prefix\<close>. The code is accumulated in 64 bits, as in the source.
\<close>

section \<open>Digit runs and release codes\<close>

record DigitRun =
  drValue :: u64
  drLength :: nat

definition digits_word :: "string \<Rightarrow> u64" where
  "digits_word s = foldl (\<lambda>v c. v * 10 + of_nat (digit_value c)) 0 s"

definition TakeDigits :: "string \<Rightarrow> nat \<Rightarrow> DigitRun" where
  "TakeDigits s maxDigits =
    (let n = length (takeWhile IsDigit s)
     in if n = 0 \<or> n > maxDigits then \<lparr>drValue = 0, drLength = 0\<rparr>
        else \<lparr>drValue = digits_word (take n s), drLength = n\<rparr>)"

text \<open>The test \<^verbatim>\<open>tag.empty() || tag.front() != c\<close> followed by \<^verbatim>\<open>remove_prefix(1)\<close>.\<close>

definition skip_char :: "char \<Rightarrow> string \<Rightarrow> string option" where
  "skip_char c s = (if s = [] \<or> hd s \<noteq> c then None else Some (tl s))"

definition strip_v :: "string \<Rightarrow> string" where
  "strip_v tag = (if tag \<noteq> [] \<and> hd tag = CHR ''v'' then tl tag else tag)"

definition ParseReleaseCode :: "string \<Rightarrow> u64" where
  "ParseReleaseCode tag0 =
    (let tag = strip_v tag0; year = TakeDigits tag 4 in
     if drLength year \<noteq> 4 then 0 else
     case skip_char (CHR ''.'') (drop (drLength year) tag) of None \<Rightarrow> 0 | Some tag1 \<Rightarrow>
     let month = TakeDigits tag1 2 in
     if drLength month = 0 \<or> drValue month < 1 \<or> drValue month > 12 then 0 else
     case skip_char (CHR ''.'') (drop (drLength month) tag1) of None \<Rightarrow> 0 | Some tag2 \<Rightarrow>
     let day = TakeDigits tag2 2 in
     if drLength day = 0 \<or> drValue day < 1 \<or> drValue day > 31 then 0 else
     case skip_char (CHR ''-'') (drop (drLength day) tag2) of None \<Rightarrow> 0 | Some tag3 \<Rightarrow>
     let code = TakeDigits tag3 18 in
     if drLength code = 0 then 0 else
     let tag4 = drop (drLength code) tag3 in
     if tag4 \<noteq> [] \<and> tag4 \<noteq> ''-beta'' then 0 else drValue code)"

section \<open>Update formats\<close>

definition IsHexDigit :: "char \<Rightarrow> bool" where
  "IsHexDigit c \<longleftrightarrow> IsDigit c \<or> (97 \<le> code_of c \<and> code_of c \<le> 102) \<or> (65 \<le> code_of c \<and> code_of c \<le> 70)"

definition AsciiLower :: "char \<Rightarrow> char" where
  "AsciiLower c = (if 65 \<le> code_of c \<and> code_of c \<le> 90 then char_of (code_of c + 32) else c)"

definition EqualsAsciiCaseless :: "string \<Rightarrow> string \<Rightarrow> bool" where
  "EqualsAsciiCaseless a b \<longleftrightarrow> length a = length b \<and> list_all2 (\<lambda>x y. AsciiLower x = AsciiLower y) a b"

definition DigestHexFromAssetDigest :: "string \<Rightarrow> string" where
  "DigestHexFromAssetDigest digest =
    (let kPrefix = ''sha256:'' in
     if length digest \<noteq> length kPrefix + 64 then []
     else if take (length kPrefix) digest \<noteq> kPrefix then []
     else let rest = drop (length kPrefix) digest
          in if \<not> list_all IsHexDigit rest then [] else map AsciiLower rest)"

text \<open>\<^verbatim>\<open>std::string_view::rfind\<close>: the last position of a pattern that is not empty.\<close>

definition rfind :: "string \<Rightarrow> string \<Rightarrow> nat option" where
  "rfind pat s = find (\<lambda>i. take (length pat) (drop i s) = pat) (rev [0..<length s])"

definition IsAllowedPayloadName :: "string \<Rightarrow> bool" where
  "IsAllowedPayloadName name =
    (if name = [] \<or> name = ''.'' \<or> name = ''..'' then False
     else if list_ex (\<lambda>c. c = CHR ''/'' \<or> code_of c = 92 \<or> c = CHR '':'') name then False
     else case rfind ''.'' name of None \<Rightarrow> False
        | Some dot \<Rightarrow> if dot = 0 then False
            else let ext = drop dot name
                 in EqualsAsciiCaseless ext ''.exe'' \<or> EqualsAsciiCaseless ext ''.dll'' \<or>
                    EqualsAsciiCaseless ext ''.pri'')"

definition IsStaleRenamedName :: "string \<Rightarrow> bool" where
  "IsStaleRenamedName name =
    (case rfind ''.old'' name of None \<Rightarrow> False
     | Some pos \<Rightarrow> if pos = 0 then False
         else let tail = drop (pos + 4) name
              in if tail = [] then True
                 else if length tail < 2 \<or> hd tail \<noteq> CHR ''-'' then False
                 else list_all IsDigit (tl tail))"

section \<open>Digits are read without wrap-around\<close>

lemma digits_word_snoc [simp]: "digits_word (s @ [c]) = digits_word s * 10 + of_nat (digit_value c)"
  by (simp add: digits_word_def)

lemma digits_word_of_nat: "digits_word s = of_nat (dec_value s)"
  by (induction s rule: rev_induct) (simp_all add: digits_word_def dec_value_def ac_simps)

lemma unat_digits_word:
  assumes "\<forall>c\<in>set s. IsDigit c" and "length s \<le> 19"
  shows "unat (digits_word s) = dec_value s"
proof -
  have "dec_value s < 10 ^ length s" using assms(1) by (rule dec_value_less)
  also have "(10::nat) ^ length s \<le> 10 ^ 19" using assms(2) by (intro power_increasing) auto
  also have "(10::nat) ^ 19 < 2 ^ 64" by simp
  finally show ?thesis by (simp add: digits_word_of_nat unat_of_nat)
qed

lemma TakeDigits_append:
  assumes "\<forall>c\<in>set ds. IsDigit c" and "ds \<noteq> []" and "length ds \<le> k" and "rest = [] \<or> \<not> IsDigit (hd rest)"
  shows "TakeDigits (ds @ rest) k = \<lparr>drValue = of_nat (dec_value ds), drLength = length ds\<rparr>"
  using assms takeWhile_digits_append [OF assms(1,4)]
  by (simp add: TakeDigits_def digits_word_of_nat Let_def)

lemma TakeDigits_bound: "k \<le> 19 \<Longrightarrow> unat (drValue (TakeDigits s k)) < 10 ^ k"
proof -
  assume k: "k \<le> 19"
  let ?ds = "takeWhile IsDigit s"
  have ds: "\<forall>c\<in>set ?ds. IsDigit c" using set_takeWhileD by fastforce
  have "unat (digits_word ?ds) < 10 ^ k" if "length ?ds \<le> k"
  proof -
    have "unat (digits_word ?ds) < 10 ^ length ?ds"
      using unat_digits_word [OF ds] dec_value_less [OF ds] that k by simp
    also have "(10::nat) ^ length ?ds \<le> 10 ^ k" using that by (intro power_increasing) auto
    finally show ?thesis .
  qed
  then show ?thesis
    by (auto simp: TakeDigits_def Let_def takeWhile_eq_take [symmetric])
qed

text \<open>A tag as the releases mint it.\<close>

definition release_tag :: "bool \<Rightarrow> nat \<Rightarrow> nat \<Rightarrow> nat \<Rightarrow> nat \<Rightarrow> bool \<Rightarrow> string" where
  "release_tag v y m d code beta =
    (if v then ''v'' else []) @ show_nat y @ ''.'' @ show_nat m @ ''.'' @ show_nat d @ ''-'' @ show_nat code @
    (if beta then ''-beta'' else [])"

lemma TakeDigits_show_nat:
  assumes "length (show_nat n) \<le> k" and "rest = [] \<or> \<not> IsDigit (hd rest)"
  shows "TakeDigits (show_nat n @ rest) k = \<lparr>drValue = of_nat n, drLength = length (show_nat n)\<rparr>"
  using TakeDigits_append [OF show_nat_digits show_nat_not_Nil assms] by simp

lemma punctuation_not_digit [simp]: "\<not> IsDigit (CHR ''.'')" "\<not> IsDigit (CHR ''-'')" "\<not> IsDigit (CHR ''v'')"
  by (simp_all add: IsDigit_def)

lemma show_nat_hd_digit: "IsDigit (hd (show_nat n @ rest))"
  using show_nat_digits [of n] by (cases "show_nat n") auto

lemma strip_v_release_tag:
  "strip_v (release_tag v y m d code beta) = show_nat y @ ''.'' @ show_nat m @ ''.'' @ show_nat d @ ''-'' @
    show_nat code @ (if beta then ''-beta'' else [])"
proof -
  have "hd (show_nat y @ rest) \<noteq> CHR ''v''" for rest using show_nat_hd_digit [of y rest] by auto
  then show ?thesis by (auto simp: strip_v_def release_tag_def)
qed

text \<open>
  Tags are read as they are minted, and nothing outranks them by overflow: a tag with a
  four-digit year, a calendar month and day and a code of at most eighteen digits, with or without
  the leading v and the beta marker, reads as exactly its code; and whatever text is read, the
  result is below \<open>10 ^ 18\<close>, so no run of digits wraps into a larger code.
\<close>

theorem release_code_exact:
  assumes "1000 \<le> y" "y < 10000" and "1 \<le> m" "m \<le> 12" and "1 \<le> d" "d \<le> 31" and "code < 10 ^ 18"
  shows "unat (ParseReleaseCode (release_tag v y m d code beta)) = code \<and>
    unat (ParseReleaseCode text) < 10 ^ 18"
proof
  have len: "length (show_nat y) = 4" "length (show_nat m) \<le> 2" "length (show_nat d) \<le> 2"
      "length (show_nat code) \<le> 18"
    using length_show_nat_le [of 4 y] length_show_nat_ge [of 3 y] length_show_nat_le [of 2 m]
      length_show_nat_le [of 2 d] length_show_nat_le [of 18 code] assms by auto
  have un: "unat (of_nat m :: u64) = m" "unat (of_nat d :: u64) = d"
    using assms by (simp_all add: unat_of_nat)
  then have md: "(of_nat m :: u64) \<noteq> 0" "\<not> (12::u64) < of_nat m" "(of_nat d :: u64) \<noteq> 0" "\<not> (31::u64) < of_nat d"
    using assms by (auto simp: word_less_nat_alt dest: arg_cong [of _ _ unat])
  have "ParseReleaseCode (release_tag v y m d code beta) = of_nat code"
    unfolding ParseReleaseCode_def strip_v_release_tag
    using md len TakeDigits_show_nat [of code 18]
    by (simp add: TakeDigits_show_nat skip_char_def Let_def split: if_splits)
  then show "unat (ParseReleaseCode (release_tag v y m d code beta)) = code"
    using assms(7) by (simp add: unat_of_nat)
  show "unat (ParseReleaseCode text) < 10 ^ 18"
    using TakeDigits_bound [of 18]
    by (simp add: ParseReleaseCode_def Let_def split: option.split)
qed

theorem release_code_exact_witness:
  "unat (ParseReleaseCode (release_tag True 2026 8 9 1013462345 True)) = 1013462345"
  by (rule conjunct1 [OF release_code_exact]) simp_all

lemma AsciiLower_hex: "IsHexDigit c \<Longrightarrow> IsHexDigit (AsciiLower c) \<and> AsciiLower (AsciiLower c) = AsciiLower c"
  by (auto simp: IsHexDigit_def AsciiLower_def IsDigit_def)

lemma EqualsAsciiCaseless_map: "EqualsAsciiCaseless a b \<longleftrightarrow> map AsciiLower a = map AsciiLower b"
  by (auto simp: EqualsAsciiCaseless_def list_all2_conv_all_nth list_eq_iff_nth_eq)

text \<open>A digest that is accepted is 64 lower-case hex digits; otherwise it is empty.\<close>

lemma digest_accepted:
  "DigestHexFromAssetDigest s \<noteq> [] \<Longrightarrow>
    length (DigestHexFromAssetDigest s) = 64 \<and> list_all IsHexDigit (DigestHexFromAssetDigest s) \<and>
    DigestHexFromAssetDigest (''sha256:'' @ DigestHexFromAssetDigest s) = DigestHexFromAssetDigest s"
  by (auto simp: DigestHexFromAssetDigest_def Let_def list_all_iff AsciiLower_hex split: if_splits)

end
