(* ===== verification/CivilTime.thy ===== *)
theory CivilTime
  imports Prelude
begin

text \<open>
  The calendar arithmetic of the updater: reading and printing a UTC second
  (\<^verbatim>\<open>ParseUtcSecond\<close> of \<^verbatim>\<open>Common/UpdateResult.h\<close>, \<^verbatim>\<open>FormatUtcSecond\<close> of \<^verbatim>\<open>Common/UpdateApply.h\<close>),
  the civil date of a day number and the start of a UTC day (\<^verbatim>\<open>Common/ReleaseSelection.h\<close>). The
  unsigned intermediate values of the source are natural numbers below \<open>2 ^ 32\<close> and appear as
  \<open>int\<close>; no subtraction on them goes below zero (\<open>civil_era\<close>).
\<close>

section \<open>Reading\<close>

definition IsUtcSecond :: "string \<Rightarrow> bool" where
  "IsUtcSecond text =
    (let kShape = ''0000-00-00T00:00:00Z'' in
     length text = length kShape \<and>
     list_all2 (\<lambda>shape c. if shape = CHR ''0'' then IsDigit c else c = shape) kShape text)"

definition kDays :: "int list" where
  "kDays = [31, 28, 31, 30, 31, 30, 31, 31, 30, 31, 30, 31]"

definition leap :: "int \<Rightarrow> bool" where
  "leap year \<longleftrightarrow> cmod year 4 = 0 \<and> (cmod year 100 \<noteq> 0 \<or> cmod year 400 = 0)"

definition DaysInMonth :: "i64 \<Rightarrow> i64 \<Rightarrow> i64" where
  "DaysInMonth year month = (if month = 2 \<and> leap year then 29 else kDays ! nat (month - 1))"

definition number :: "string \<Rightarrow> nat \<Rightarrow> nat \<Rightarrow> i64" where
  "number text at digits =
    foldl (\<lambda>value i. value * 10 + int (digit_value (text ! (at + i)))) 0 [0..<digits]"

text \<open>The days since 1970-01-01 of a civil date, as \<open>ParseUtcSecond\<close> computes them.\<close>

definition DaysFromCivil :: "i64 \<Rightarrow> i64 \<Rightarrow> i64 \<Rightarrow> i64" where
  "DaysFromCivil year month day =
    (let y = year - (if month \<le> 2 then 1 else 0);
         era = cdiv (if y \<ge> 0 then y else y - 399) 400;
         yearOfEra = y - era * 400;
         dayOfYear = cdiv (153 * (if month > 2 then month - 3 else month + 9) + 2) 5 + day - 1;
         dayOfEra = yearOfEra * 365 + cdiv yearOfEra 4 - cdiv yearOfEra 100 + dayOfYear
     in era * 146097 + dayOfEra - 719468)"

definition ParseUtcSecond :: "string \<Rightarrow> i64 option" where
  "ParseUtcSecond text =
    (if \<not> IsUtcSecond text then None
     else let year = number text 0 4; month = number text 5 2; day = number text 8 2;
              hour = number text 11 2; minute = number text 14 2; second = number text 17 2
          in if month < 1 \<or> month > 12 \<or> day < 1 \<or> hour > 23 \<or> minute > 59 \<or> second > 59 then None
             else if day > DaysInMonth year month then None
             else Some (DaysFromCivil year month day * 86400 + hour * 3600 + minute * 60 + second))"

section \<open>Printing\<close>

record CivilDate =
  cdYear :: i64
  cdMonth :: i64
  cdDay :: i64

definition year_of_era :: "int \<Rightarrow> int" where
  "year_of_era dayOfEra =
    (dayOfEra - dayOfEra div 1460 + dayOfEra div 36524 - dayOfEra div 146096) div 365"

definition CivilFromDays :: "i64 \<Rightarrow> CivilDate" where
  "CivilFromDays days0 =
    (let days = days0 + 719468;
         era = cdiv (if days \<ge> 0 then days else days - 146096) 146097;
         dayOfEra = days - era * 146097;
         yearOfEra = year_of_era dayOfEra;
         dayOfYear = dayOfEra - (365 * yearOfEra + yearOfEra div 4 - yearOfEra div 100);
         monthIndex = (5 * dayOfYear + 2) div 153;
         day = dayOfYear - (153 * monthIndex + 2) div 5 + 1;
         month = (if monthIndex < 10 then monthIndex + 3 else monthIndex - 9);
         year = yearOfEra + era * 400 + (if month \<le> 2 then 1 else 0)
     in \<lparr>cdYear = year, cdMonth = month, cdDay = day\<rparr>)"

definition two :: "i64 \<Rightarrow> string" where
  "two value = (if value < 10 then ''0'' @ show_int value else show_int value)"

definition pad4 :: "string \<Rightarrow> string" where
  "pad4 text = replicate (4 - length text) (CHR ''0'') @ text"

definition FormatUtcSecond :: "i64 \<Rightarrow> string" where
  "FormatUtcSecond unixSeconds =
    (let days = (if unixSeconds \<ge> 0 then cdiv unixSeconds 86400 else cdiv (unixSeconds - 86399) 86400);
         secondOfDay = unixSeconds - days * 86400;
         date = CivilFromDays days
     in pad4 (show_int (cdYear date)) @ ''-'' @ two (cdMonth date) @ ''-'' @ two (cdDay date) @ ''T'' @
        two (cdiv secondOfDay 3600) @ '':'' @ two (cmod (cdiv secondOfDay 60) 60) @ '':'' @
        two (cmod secondOfDay 60) @ ''Z'')"

definition kSecondsPerDay :: i64 where "kSecondsPerDay = 24 * 60 * 60"

definition UtcDayStart :: "i64 \<Rightarrow> i64" where
  "UtcDayStart unixSeconds =
    (let intoDay = cmod unixSeconds kSecondsPerDay;
         intoDay' = (if intoDay < 0 then intoDay + kSecondsPerDay else intoDay)
     in unixSeconds - intoDay')"

lemma UtcDayStart_floor: "UtcDayStart t = t - t mod 86400"
  using cmod_floor [of 86400 t] by (auto simp: UtcDayStart_def kSecondsPerDay_def Let_def)

section \<open>The year of an era\<close>

definition year_start :: "int \<Rightarrow> int" where
  "year_start y = 365 * y + y div 4 - y div 100 + y div 400"

definition era_f :: "int \<Rightarrow> int" where
  "era_f d = d - d div 1460 + d div 36524 - d div 146096"

lemma era_f_arith:
  "q' \<le> q + 1 \<Longrightarrow> r \<le> r' \<Longrightarrow> (d::int) - q + r - 0 \<le> (d + 1) - q' + r' - 0"
  by simp

lemma era_f_step:
  assumes "0 \<le> d" and "d < 146096"
  shows "era_f d \<le> era_f (d + 1)"
proof (cases "d = 146095")
  case True
  then show ?thesis by (simp add: era_f_def)
next
  case False
  then have "d div 146096 = 0" "(d + 1) div 146096 = 0"
    using assms by (simp_all add: div_pos_pos_trivial)
  moreover have "(d + 1) div 1460 \<le> (d + 1460) div 1460" by (intro zdiv_mono1) auto
  then have "(d + 1) div 1460 \<le> d div 1460 + 1" by (simp only: div_add_self2 [of 1460 d])
  moreover have "d div 36524 \<le> (d + 1) div 36524" by (intro zdiv_mono1) auto
  ultimately show ?thesis unfolding era_f_def by (metis era_f_arith)
qed

lemma era_f_mono_nat: "0 \<le> a \<Longrightarrow> a + int n \<le> 146096 \<Longrightarrow> era_f a \<le> era_f (a + int n)"
proof (induction n)
  case (Suc n)
  then have "era_f a \<le> era_f (a + int n)" by simp
  also have "\<dots> \<le> era_f (a + int n + 1)" using Suc.prems by (intro era_f_step) auto
  finally show ?case by (simp add: algebra_simps)
qed simp

lemma era_f_mono: "0 \<le> a \<Longrightarrow> a \<le> b \<Longrightarrow> b \<le> 146096 \<Longrightarrow> era_f a \<le> era_f b"
  using era_f_mono_nat [of a "nat (b - a)"] by simp

lemma year_table:
  "list_all (\<lambda>y. 365 * y \<le> era_f (year_start y) \<and> era_f (year_start (y + 1) - 1) \<le> 365 * y + 364 \<and>
     0 \<le> year_start y \<and> year_start (y + 1) \<le> 146097) [0..399]"
  by code_simp

lemma year_interval:
  "0 \<le> d \<Longrightarrow> d < year_start (int n) \<Longrightarrow>
    \<exists>y. 0 \<le> y \<and> y < int n \<and> year_start y \<le> d \<and> d < year_start (y + 1)"
proof (induction n)
  case 0
  then show ?case by (simp add: year_start_def)
next
  case (Suc n)
  show ?case
  proof (cases "d < year_start (int n)")
    case True
    with Suc obtain y where "0 \<le> y" "y < int n" "year_start y \<le> d" "d < year_start (y + 1)" by auto
    then show ?thesis by (intro exI [of _ y]) auto
  next
    case False
    then show ?thesis using Suc.prems by (intro exI [of _ "int n"]) (auto simp: add.commute)
  qed
qed

lemma year_of_era_exact:
  assumes "0 \<le> d" and "d < 146097"
  shows "0 \<le> year_of_era d \<and> year_of_era d < 400 \<and> year_start (year_of_era d) \<le> d \<and>
    d < year_start (year_of_era d + 1)"
proof -
  have "year_start 400 = 146097" by (simp add: year_start_def)
  then obtain y where y: "0 \<le> y" "y < 400" "year_start y \<le> d" "d < year_start (y + 1)"
    using year_interval [of d 400] assms by auto
  then have "y \<in> set [0..399]" by simp
  with year_table have t: "365 * y \<le> era_f (year_start y)" "era_f (year_start (y + 1) - 1) \<le> 365 * y + 364"
    "0 \<le> year_start y" "year_start (y + 1) \<le> 146097"
    by (simp_all only: list_all_iff)
  have "365 * y \<le> era_f d" using t y assms era_f_mono [of "year_start y" d] by simp
  moreover have "era_f d \<le> 365 * y + 364"
    using t y assms era_f_mono [of d "year_start (y + 1) - 1"] by simp
  ultimately have "era_f d div 365 = y" by (intro int_div_pos_eq [of _ 365 y "era_f d - 365 * y"]) auto
  then show ?thesis using y by (simp add: year_of_era_def era_f_def)
qed

section \<open>Civil dates\<close>

lemma month_table:
  "list_all (\<lambda>d. let mp = (5 * d + 2) div 153; day = d - (153 * mp + 2) div 5 + 1;
       month = (if mp < 10 then mp + 3 else mp - 9)
     in 0 \<le> mp \<and> mp \<le> 11 \<and> 1 \<le> day \<and>
       (day \<le> kDays ! nat (month - 1) \<or> d = 365 \<and> month = 2 \<and> day = 29)) [0..365]"
  by code_simp

lemma leap_table:
  "list_all (\<lambda>y. year_start (y + 1) - year_start y \<le> 366 \<and>
     (year_start (y + 1) - year_start y = 366 \<longrightarrow> 4 dvd (y + 1) \<and> (\<not> 100 dvd (y + 1) \<or> 400 dvd (y + 1)))) [0..399]"
  by code_simp

lemma leap_era: "leap (y + 400 * e) \<longleftrightarrow> leap y"
proof -
  have "k dvd y + 400 * e \<longleftrightarrow> k dvd y" if "k dvd 400" for k :: int
    using dvd_add_left_iff [OF dvd_mult2 [OF that, of e]] by simp
  from this [of 4] this [of 100] this [of 400] show ?thesis by (simp add: leap_def cmod_eq_0)
qed

lemma civil_era:
  assumes "0 \<le> d" and "d < 146097"
  defines "y \<equiv> year_of_era d"
  defines "doy \<equiv> d - (365 * y + y div 4 - y div 100)"
  shows "0 \<le> y" "y < 400" "0 \<le> doy" "doy \<le> 365" "doy = 365 \<Longrightarrow> leap (y + 1)"
proof -
  have y: "0 \<le> y" "y < 400" "year_start y \<le> d" "d < year_start (y + 1)"
    using year_of_era_exact [OF assms(1,2)] by (simp_all add: y_def)
  then have "y div 400 = 0" by (simp add: div_pos_pos_trivial)
  then have doy: "doy = d - year_start y" by (simp add: doy_def year_start_def)
  have "y \<in> set [0..399]" using y by simp
  from bspec [OF leap_table [unfolded list_all_iff] this]
  have t: "year_start (y + 1) - year_start y \<le> 366"
    "year_start (y + 1) - year_start y = 366 \<longrightarrow> 4 dvd (y + 1) \<and> (\<not> 100 dvd (y + 1) \<or> 400 dvd (y + 1))"
    by blast+
  show "0 \<le> y" "y < 400" using y by auto
  show "0 \<le> doy" "doy \<le> 365" using doy y t(1) by linarith+
  assume "doy = 365"
  then have "year_start (y + 1) - year_start y = 366" using doy y t(1) by linarith
  then show "leap (y + 1)" using t(2) by (simp add: leap_def cmod_eq_0)
qed

text \<open>A day number's civil date is a date of the calendar, and its day number is that number.\<close>

lemma civil_from_days:
  defines "c n \<equiv> CivilFromDays n"
  shows "1 \<le> cdMonth (c n)" "cdMonth (c n) \<le> 12" "1 \<le> cdDay (c n)"
    "cdDay (c n) \<le> DaysInMonth (cdYear (c n)) (cdMonth (c n))"
    "DaysFromCivil (cdYear (c n)) (cdMonth (c n)) (cdDay (c n)) = n"
proof -
  define z where "z = n + 719468"
  define era where "era = z div 146097"
  define d where "d = z - era * 146097"
  define y where "y = year_of_era d"
  define doy where "doy = d - (365 * y + y div 4 - y div 100)"
  define mp where "mp = (5 * doy + 2) div 153"
  define day where "day = doy - (153 * mp + 2) div 5 + 1"
  define month where "month = (if mp < 10 then mp + 3 else mp - 9)"
  define year where "year = y + era * 400 + (if month \<le> 2 then 1 else 0)"
  have era0: "cdiv (if z \<ge> 0 then z else z - 146096) 146097 = era"
    using cdiv_floor [of 146097 z] by (cases "0 \<le> z") (simp_all add: era_def)
  have cn: "c n = \<lparr>cdYear = year, cdMonth = month, cdDay = day\<rparr>"
    unfolding c_def CivilFromDays_def Let_def z_def [symmetric] era0 d_def [symmetric] y_def [symmetric]
      doy_def [symmetric] mp_def [symmetric] day_def [symmetric] month_def [symmetric] year_def [symmetric]
    by (rule refl)
  have d: "0 \<le> d" "d < 146097"
    using pos_mod_sign [of 146097 z] pos_mod_bound [of 146097 z]
    by (simp_all add: d_def era_def minus_div_mult_eq_mod)
  note e = civil_era [OF d, folded y_def, folded doy_def]
  have "doy \<in> set [0..365]" using e by simp
  with month_table have "(let mp = (5 * doy + 2) div 153; day = doy - (153 * mp + 2) div 5 + 1;
       month = (if mp < 10 then mp + 3 else mp - 9)
     in 0 \<le> mp \<and> mp \<le> 11 \<and> 1 \<le> day \<and>
       (day \<le> kDays ! nat (month - 1) \<or> doy = 365 \<and> month = 2 \<and> day = 29))"
    by (simp only: list_all_iff)
  then have m: "0 \<le> mp" "mp \<le> 11" "1 \<le> day"
    "day \<le> kDays ! nat (month - 1) \<or> doy = 365 \<and> month = 2 \<and> day = 29"
    by (simp_all only: Let_def mp_def [symmetric] day_def [symmetric] month_def [symmetric])
  show "1 \<le> cdMonth (c n)" "cdMonth (c n) \<le> 12" "1 \<le> cdDay (c n)"
    using m cn by (auto simp: month_def)
  have "leap year" if "doy = 365" "month = 2"
    using e(5) [OF that(1)] leap_era [of "y + 1" era] that(2) by (simp add: year_def algebra_simps)
  moreover have "kDays ! nat (2 - 1) = 28" by (simp add: kDays_def)
  ultimately show "cdDay (c n) \<le> DaysInMonth (cdYear (c n)) (cdMonth (c n))"
    using m(4) cn by (auto simp: DaysInMonth_def)
  let ?y = "year - (if month \<le> 2 then 1 else 0)"
  have y': "?y = y + era * 400" by (simp add: year_def)
  have era': "cdiv (if ?y \<ge> 0 then ?y else ?y - 399) 400 = era"
    unfolding y' using cdiv_floor [of 400 "y + era * 400"] e(1,2)
    by (cases "0 \<le> y + era * 400") (simp_all add: div_pos_pos_trivial)
  have mp': "(if month > 2 then month - 3 else month + 9) = mp"
    using m by (auto simp: month_def)
  have doy': "cdiv (153 * mp + 2) 5 + day - 1 = doy" using m(1) by (simp add: day_def)
  have "DaysFromCivil year month day = era * 146097 + (y * 365 + y div 4 - y div 100 + doy) - 719468"
    unfolding DaysFromCivil_def Let_def era' mp' doy' using e(1) by (simp add: y')
  also have "\<dots> = n" by (simp add: doy_def d_def z_def)
  finally show "DaysFromCivil (cdYear (c n)) (cdMonth (c n)) (cdDay (c n)) = n" by (simp add: cn)
qed

section \<open>Printing and reading\<close>

lemma two_digits:
  "0 \<le> v \<Longrightarrow> v < 100 \<Longrightarrow> two v = [digit_char (nat v div 10), digit_char (nat v mod 10)]"
proof -
  assume v: "0 \<le> v" "v < 100"
  have zero: "digit_char 0 = CHR ''0''"
    by (subst of_char_eq_iff [symmetric, where 'a = nat]) simp
  show ?thesis
  proof (cases "v < 10")
    case True
    then show ?thesis using v by (simp add: two_def show_nat_small zero)
  next
    case False
    then have "10 \<le> nat v" "nat v div 10 < 10" using v by auto
    then show ?thesis using v False by (simp add: two_def show_nat_step show_nat_small)
  qed
qed

lemma pad4_digits:
  assumes "0 \<le> y" and "y \<le> 9999"
  obtains a b c d where "pad4 (show_int y) = [a, b, c, d]" "IsDigit a" "IsDigit b" "IsDigit c" "IsDigit d"
    "((int (digit_value a) * 10 + int (digit_value b)) * 10 + int (digit_value c)) * 10 + int (digit_value d) = y"
proof -
  let ?s = "pad4 (show_int y)"
  have "length (show_nat (nat y)) \<le> 4" using length_show_nat_le [of 4 "nat y"] assms by simp
  then have "length ?s = 4" using assms by (simp add: pad4_def)
  then obtain a b c d where s: "?s = [a, b, c, d]"
    by (auto simp: length_Suc_conv numeral_eq_Suc)
  have "dec_value (replicate k (CHR ''0'') @ t) = dec_value t" for k t
    by (induction k) (auto simp: dec_value_def digit_value_def)
  then have "dec_value ?s = nat y" using assms by (simp add: pad4_def)
  then have "int (dec_value [a, b, c, d]) = y" using assms by (simp only: s)
  then have v: "((int (digit_value a) * 10 + int (digit_value b)) * 10 + int (digit_value c)) * 10 +
      int (digit_value d) = y"
    by (simp add: dec_value_def)
  have "\<forall>x\<in>set ?s. IsDigit x" using show_nat_digits [of "nat y"] assms by (auto simp: pad4_def IsDigit_def)
  then show ?thesis using that [OF s _ _ _ _ v] by (simp add: s)
qed

lemma DaysInMonth_le: "1 \<le> m \<Longrightarrow> m \<le> 12 \<Longrightarrow> DaysInMonth y m \<le> 31"
proof -
  assume m: "1 \<le> m" "m \<le> 12"
  then have "nat (m - 1) < length kDays" by (simp add: kDays_def)
  then have "kDays ! nat (m - 1) \<in> set kDays" by (rule nth_mem)
  moreover have "\<forall>k\<in>set kDays. k \<le> 31" by (simp add: kDays_def)
  ultimately show ?thesis by (simp add: DaysInMonth_def)
qed

lemma number_explicit:
  "number text at 2 = int (digit_value (text ! at)) * 10 + int (digit_value (text ! (at + 1)))"
  "number text at 4 = ((int (digit_value (text ! at)) * 10 + int (digit_value (text ! (at + 1)))) * 10 +
     int (digit_value (text ! (at + 2)))) * 10 + int (digit_value (text ! (at + 3)))"
  by (simp_all add: number_def numeral_eq_Suc)

lemma two_value:
  assumes "0 \<le> v"
  shows "int (nat v div 10) * 10 + int (nat v mod 10) = v"
proof -
  have "nat v div 10 * 10 + nat v mod 10 = nat v" by (rule div_mult_mod_eq)
  from arg_cong [OF this, of int] assms show ?thesis
    by (simp only: of_nat_add of_nat_mult of_nat_numeral int_nat_eq if_True)
qed

text \<open>
  The updater reads back every time it writes: a second whose civil year has four digits,
  before or after 1970, is printed as a text that parses to exactly that second. The parser's
  calendar check, the leap rule and both directions of the day count agree.
\<close>

theorem utc_second_roundtrip:
  assumes "0 \<le> cdYear (CivilFromDays (t div 86400))" and "cdYear (CivilFromDays (t div 86400)) \<le> 9999"
  shows "ParseUtcSecond (FormatUtcSecond t) = Some t"
proof -
  define sod where "sod = t mod 86400"
  define date where "date = CivilFromDays (t div 86400)"
  have days: "(if t \<ge> 0 then cdiv t 86400 else cdiv (t - 86399) 86400) = t div 86400"
    using cdiv_floor [of 86400 t] by (cases "0 \<le> t") simp_all
  have sod: "0 \<le> sod" "sod < 86400" "t - t div 86400 * 86400 = sod"
    by (simp_all add: sod_def minus_div_mult_eq_mod)
  define h mi se where "h = sod div 3600" and "mi = sod div 60 mod 60" and "se = sod mod 60"
  have "h \<le> 86399 div 3600" unfolding h_def using sod by (intro zdiv_mono1) auto
  moreover have "mi < 60" "se < 60" by (simp_all add: mi_def se_def)
  ultimately have hms: "0 \<le> h" "h \<le> 23" "0 \<le> mi" "mi \<le> 59" "0 \<le> se" "se \<le> 59"
    using sod(1) by (simp_all add: h_def mi_def se_def pos_imp_zdiv_nonneg_iff)
  have "h = sod div 60 div 60" unfolding h_def using zdiv_zmult2_eq [of 60 sod 60] by simp
  then have "h * 60 + mi = sod div 60" unfolding mi_def by (simp only: div_mult_mod_eq)
  moreover have "sod div 60 * 60 + se = sod" unfolding se_def by (rule div_mult_mod_eq)
  ultimately have "(h * 60 + mi) * 60 + se = sod" by (simp only:)
  then have total: "h * 3600 + mi * 60 + se = sod" by (simp add: algebra_simps)
  note civil = civil_from_days [of "t div 86400", folded date_def]
  have mon: "0 \<le> cdMonth date" "cdMonth date < 100" using civil by auto
  have day: "0 \<le> cdDay date" "cdDay date < 100"
    using civil(3,4) DaysInMonth_le [OF civil(1,2), of "cdYear date"] by auto
  obtain a b c d where y: "pad4 (show_int (cdYear date)) = [a, b, c, d]"
    "IsDigit a" "IsDigit b" "IsDigit c" "IsDigit d"
    "((int (digit_value a) * 10 + int (digit_value b)) * 10 + int (digit_value c)) * 10 + int (digit_value d) = cdYear date"
    using pad4_digits assms unfolding date_def by blast
  have printed: "FormatUtcSecond t = [a, b, c, d] @ ''-'' @ two (cdMonth date) @ ''-'' @ two (cdDay date) @ ''T'' @
      two h @ '':'' @ two mi @ '':'' @ two se @ ''Z''"
    using sod by (simp add: FormatUtcSecond_def days Let_def date_def [symmetric] y h_def mi_def se_def)
  let ?dc = "\<lambda>n. digit_char n"
  have explicit: "FormatUtcSecond t = [a, b, c, d, CHR ''-'', ?dc (nat (cdMonth date) div 10),
      ?dc (nat (cdMonth date) mod 10), CHR ''-'', ?dc (nat (cdDay date) div 10), ?dc (nat (cdDay date) mod 10),
      CHR ''T'', ?dc (nat h div 10), ?dc (nat h mod 10), CHR '':'', ?dc (nat mi div 10), ?dc (nat mi mod 10),
      CHR '':'', ?dc (nat se div 10), ?dc (nat se mod 10), CHR ''Z'']"
    using printed mon day hms by (simp add: two_digits)
  have tens: "nat v div 10 < 10" if "v < 100" for v :: int using that by auto
  have "IsUtcSecond (FormatUtcSecond t)"
    unfolding explicit using y(2-5) mon day hms by (simp add: IsUtcSecond_def tens)
  moreover have "number (FormatUtcSecond t) 0 4 = cdYear date" "number (FormatUtcSecond t) 5 2 = cdMonth date"
    "number (FormatUtcSecond t) 8 2 = cdDay date" "number (FormatUtcSecond t) 11 2 = h"
    "number (FormatUtcSecond t) 14 2 = mi" "number (FormatUtcSecond t) 17 2 = se"
    unfolding explicit number_explicit using y(6) mon day hms by (simp_all add: tens two_value)
  ultimately have "ParseUtcSecond (FormatUtcSecond t) = Some (t div 86400 * 86400 + h * 3600 + mi * 60 + se)"
    using civil hms by (simp add: ParseUtcSecond_def Let_def)
  also have "t div 86400 * 86400 + h * 3600 + mi * 60 + se = t" using total sod(3) by simp
  finally show ?thesis .
qed

theorem utc_second_roundtrip_witness:
  "ParseUtcSecond (FormatUtcSecond 1790866277) = Some 1790866277"
  by (rule utc_second_roundtrip; code_simp)

end
