(* ===== verification/ReleaseSelection.thy ===== *)
theory ReleaseSelection
  imports VersionGrammar CivilTime
begin

text \<open>
  The release selection of \<^verbatim>\<open>Common/ReleaseSelection.h\<close>: the feed, the soak of a release, the loop
  that picks the newest installable release of a GitHub listing, the redirect allow-list and the
  MSI version of a code. Codes are \<open>64 word\<close>s, as parsed; times are seconds.
\<close>

record Feed =
  feId :: string
  feNumericRepoId :: nat
  feOwner :: string
  feRepo :: string
  feAcceptBetaPrereleases :: bool
  feRequireImmutable :: bool
  feSoakSeconds :: i64
  feTagPrefix :: string
  feAcceptAnyPrerelease :: bool

definition kOfficialFeed :: Feed where
  "kOfficialFeed = \<lparr>feId = ''official'', feNumericRepoId = 936244679, feOwner = ''urnetwork'',
    feRepo = ''build'', feAcceptBetaPrereleases = False, feRequireImmutable = True,
    feSoakSeconds = 24 * 60 * 60, feTagPrefix = [], feAcceptAnyPrerelease = False\<rparr>"

definition kFeeds :: "Feed list" where "kFeeds = [kOfficialFeed]"

definition FeedById :: "string \<Rightarrow> Feed option" where
  "FeedById i = find (\<lambda>feed. feId feed = i) kFeeds"

definition kReleaseListPageSize :: nat where "kReleaseListPageSize = 30"

definition ReleaseListUrl :: "Feed \<Rightarrow> string" where
  "ReleaseListUrl feed = ''https://api.github.com/repositories/'' @ show_nat (feNumericRepoId feed) @
    ''/releases?per_page='' @ show_nat kReleaseListPageSize"

definition kFutureCodeLimitSeconds :: i64 where "kFutureCodeLimitSeconds = 48 * 60 * 60"
definition kCodeEpochUnixSeconds :: i64 where "kCodeEpochUnixSeconds = 1684800000"

definition CodeUnixSeconds :: "u64 \<Rightarrow> i64" where
  "CodeUnixSeconds code = kCodeEpochUnixSeconds + int (unat (code div 10))"

section \<open>Soak\<close>

text \<open>Either the time the soak counts from, or what is wrong with the release's times.\<close>

type_synonym SoakStart = "string + i64"

definition SoakStartOf :: "u64 \<Rightarrow> string \<Rightarrow> string \<Rightarrow> string \<Rightarrow> SoakStart" where
  "SoakStartOf code publishedAt updatedAt assetUpdatedAt =
    (case ParseUtcSecond publishedAt of
       None \<Rightarrow> Inl ''has no publication time to judge its soak by''
     | Some published \<Rightarrow>
         if published < CodeUnixSeconds code - kFutureCodeLimitSeconds
         then Inl ''has a publication time before its own code's''
         else case ParseUtcSecond updatedAt of
           None \<Rightarrow> Inl ''has no time of its last change to judge its soak by''
         | Some changed \<Rightarrow>
             (case ParseUtcSecond assetUpdatedAt of
                None \<Rightarrow> Inl ''has no upload time of its package to judge its soak by''
              | Some uploaded \<Rightarrow> Inr (max (max published changed) uploaded)))"

definition HasSoaked :: "Feed \<Rightarrow> i64 option \<Rightarrow> i64 \<Rightarrow> bool" where
  "HasSoaked feed since server =
    (if feSoakSeconds feed \<le> 0 then True
     else case since of None \<Rightarrow> False
        | Some s \<Rightarrow> if server \<le> 0 then False else s + feSoakSeconds feed \<le> UtcDayStart server)"

definition SoakEndUnixSeconds :: "Feed \<Rightarrow> i64 \<Rightarrow> i64" where
  "SoakEndUnixSeconds feed since =
    (if feSoakSeconds feed \<le> 0 then since
     else let soaked = since + feSoakSeconds feed; day = UtcDayStart soaked
          in if day = soaked then soaked else day + kSecondsPerDay)"

definition kOfferFreshSeconds :: i64 where "kOfferFreshSeconds = 5 * 60"

definition OfferMayHaveChanged :: "Feed \<Rightarrow> i64 \<Rightarrow> i64 \<Rightarrow> bool" where
  "OfferMayHaveChanged feed serverAtCheck secondsSince =
    (if secondsSince < 0 \<or> secondsSince > kOfferFreshSeconds then True
     else if feSoakSeconds feed \<le> 0 \<or> serverAtCheck \<le> 0 then False
     else UtcDayStart (serverAtCheck + secondsSince) \<noteq> UtcDayStart serverAtCheck)"

section \<open>Releases and their selection\<close>

record ReleaseAsset =
  asName :: string
  asUrl :: string
  asDigest :: string
  asUpdatedAt :: string

record Release =
  reTag :: string
  reDraft :: bool
  rePrerelease :: bool
  reImmutable :: bool
  rePublishedAt :: string
  reUpdatedAt :: string
  reAssets :: "ReleaseAsset list"

record Skip =
  skTag :: string
  skReason :: string
  skSoaking :: bool

record Selection =
  seNewestCode :: u64
  seNewestVersion :: string
  seWaitingCode :: u64
  seWaitingVersion :: string
  seWaitingFrom :: i64
  seCode :: u64
  seVersion :: string
  seTag :: string
  seAssetName :: string
  seAssetUrl :: string
  seDigestHex :: string
  seSkipped :: "Skip list"

definition EmptySelection :: Selection where
  "EmptySelection = \<lparr>seNewestCode = 0, seNewestVersion = [], seWaitingCode = 0, seWaitingVersion = [],
    seWaitingFrom = 0, seCode = 0, seVersion = [], seTag = [], seAssetName = [], seAssetUrl = [],
    seDigestHex = [], seSkipped = []\<rparr>"

definition InstallerAssetName :: "string \<Rightarrow> string \<Rightarrow> string" where
  "InstallerAssetName version arch = ''URnetwork-'' @ version @ ''-'' @ arch @ ''.msi''"

record FeedTag =
  ftVersion :: string
  ftCode :: u64

definition ParseFeedTag :: "Feed \<Rightarrow> string \<Rightarrow> FeedTag option" where
  "ParseFeedTag feed tag0 =
    (if take (length (feTagPrefix feed)) tag0 \<noteq> feTagPrefix feed then None
     else let tag = drop (length (feTagPrefix feed)) tag0; code = ParseReleaseCode tag
          in if code = 0 then None else Some \<lparr>ftVersion = strip_v tag, ftCode = code\<rparr>)"

definition FeedAssetUrl :: "Feed \<Rightarrow> string \<Rightarrow> string \<Rightarrow> string" where
  "FeedAssetUrl feed tag asset = ''https://github.com/'' @ feOwner feed @ ''/'' @ feRepo feed @
    ''/releases/download/'' @ tag @ ''/'' @ asset"

definition IsFeedAssetUrl :: "Feed \<Rightarrow> string \<Rightarrow> string \<Rightarrow> string \<Rightarrow> bool" where
  "IsFeedAssetUrl feed tag asset url \<longleftrightarrow> url = FeedAssetUrl feed tag asset"

definition EndsWith :: "string \<Rightarrow> string \<Rightarrow> bool" where
  "EndsWith s suffix \<longleftrightarrow> length suffix \<le> length s \<and> drop (length s - length suffix) s = suffix"

text \<open>The last asset of the name, as the inner loop leaves it.\<close>

definition find_asset :: "string \<Rightarrow> ReleaseAsset list \<Rightarrow> ReleaseAsset option" where
  "find_asset name assets = foldl (\<lambda>match a. if asName a = name then Some a else match) None assets"

definition skip :: "Selection \<Rightarrow> Release \<Rightarrow> string \<Rightarrow> bool \<Rightarrow> Selection" where
  "skip s rel reason soaking =
    s\<lparr>seSkipped := seSkipped s @ [\<lparr>skTag = reTag rel, skReason = reason, skSoaking = soaking\<rparr>]\<rparr>"

text \<open>One pass of the loop: from the tag on, once drafts and prereleases are out.\<close>

definition consider_release :: "string \<Rightarrow> Feed \<Rightarrow> i64 \<Rightarrow> Selection \<Rightarrow> Release \<Rightarrow> FeedTag \<Rightarrow> Selection" where
  "consider_release arch feed server s rel tag =
    (if feRequireImmutable feed \<and> \<not> reImmutable rel then skip s rel ''is not an immutable release'' False
     else if CodeUnixSeconds (ftCode tag) > server + kFutureCodeLimitSeconds
     then skip s rel ''has a future code (more than 48 h after the server's date)'' False
     else let name = InstallerAssetName (ftVersion tag) arch in
     case find_asset name (reAssets rel) of
       None \<Rightarrow> skip s rel (''lacks '' @ name) False
     | Some match \<Rightarrow>
         if asUrl match = [] then skip s rel (''lacks '' @ name) False
         else let since = SoakStartOf (ftCode tag) (rePublishedAt rel) (reUpdatedAt rel) (asUpdatedAt match) in
         if \<not> HasSoaked feed (case since of Inl _ \<Rightarrow> None | Inr t \<Rightarrow> Some t) server then
           (case since of
              Inl problem \<Rightarrow> skip s rel problem False
            | Inr t \<Rightarrow>
                let s1 = skip s rel (''had not been out, unchanged, for '' @
                      show_int (cdiv (feSoakSeconds feed) 3600) @ '' h when the server's day began'') True
                in if ftCode tag > seWaitingCode s1
                   then s1\<lparr>seWaitingCode := ftCode tag, seWaitingVersion := ftVersion tag,
                          seWaitingFrom := SoakEndUnixSeconds feed t\<rparr>
                   else s1)
         else let s1 = (if ftCode tag > seNewestCode s
                        then s\<lparr>seNewestCode := ftCode tag, seNewestVersion := ftVersion tag\<rparr> else s) in
         if ftCode tag \<le> seCode s1 then s1
         else let digestHex = DigestHexFromAssetDigest (asDigest match) in
         if digestHex = [] then skip s1 rel (''lacks a usable digest for '' @ name) False
         else s1\<lparr>seCode := ftCode tag, seVersion := ftVersion tag, seTag := reTag rel, seAssetName := name,
                seAssetUrl := asUrl match, seDigestHex := digestHex\<rparr>)"

definition select_step :: "string \<Rightarrow> Feed \<Rightarrow> i64 \<Rightarrow> Selection \<Rightarrow> Release \<Rightarrow> Selection" where
  "select_step arch feed server s rel =
    (if reDraft rel then s
     else if rePrerelease rel \<and> \<not> feAcceptAnyPrerelease feed \<and>
             \<not> (feAcceptBetaPrereleases feed \<and> EndsWith (reTag rel) ''-beta'') then s
     else case ParseFeedTag feed (reTag rel) of
            None \<Rightarrow> s
          | Some tag \<Rightarrow> consider_release arch feed server s rel tag)"

definition SelectRelease :: "Release list \<Rightarrow> string \<Rightarrow> Feed \<Rightarrow> i64 \<Rightarrow> Selection" where
  "SelectRelease releases arch feed server = foldl (select_step arch feed server) EmptySelection releases"

section \<open>Redirects and the package version\<close>

definition kAssetRedirectHosts :: "string list" where
  "kAssetRedirectHosts = [''release-assets.githubusercontent.com'', ''objects.githubusercontent.com'']"

definition find_first_of :: "string \<Rightarrow> string \<Rightarrow> nat option" where
  "find_first_of chars s = find (\<lambda>i. s ! i \<in> set chars) [0..<length s]"

definition IsAllowedAssetRedirect :: "string \<Rightarrow> bool" where
  "IsAllowedAssetRedirect url =
    (let kScheme = ''https://'' in
     if take (length kScheme) url \<noteq> kScheme then False
     else if list_ex (\<lambda>c. code_of c \<le> 32 \<or> code_of c \<ge> 127 \<or> code_of c = 92 \<or> code_of c = 34 \<or>
            c = CHR ''<'' \<or> c = CHR ''>'' \<or> code_of c = 96) url then False
     else let rest = drop (length kScheme) url in
     case find_first_of ''/?#'' rest of
       None \<Rightarrow> False
     | Some authorityEnd \<Rightarrow>
         if rest ! authorityEnd \<noteq> CHR ''/'' then False
         else let authority = take authorityEnd rest in
         if CHR ''@'' \<in> set authority then False
         else case find_first_of '':'' authority of
           None \<Rightarrow> list_ex (\<lambda>host. EqualsAsciiCaseless authority host) kAssetRedirectHosts
         | Some colon \<Rightarrow>
             if drop (colon + 1) authority \<noteq> ''443'' then False
             else list_ex (\<lambda>host. EqualsAsciiCaseless (take colon authority) host) kAssetRedirectHosts)"

definition UrMsiVersion :: "u64 \<Rightarrow> string" where
  "UrMsiVersion code =
    (if code = 0 then []
     else let seconds = CodeUnixSeconds code;
              days = cdiv seconds 86400;
              secondOfDay = cmod seconds 86400;
              date = CivilFromDays days;
              major = cdYear date - 2000
          in if major < 0 \<or> major > 255 then []
             else let patch = (cdDay date - 1) * 2048 + cdiv (secondOfDay * 2048) 86400
                  in show_int major @ ''.'' @ show_int (cdMonth date) @ ''.'' @ show_int patch)"

section \<open>What the listing offers\<close>

text \<open>
  The contract of the loop, release by release: the offer a release makes, which is none for a
  draft, a refused prerelease, a foreign tag, a mutable release where the feed wants immutable ones,
  a code from the future, a missing package, a release that has not soaked, or an unusable digest.
\<close>

type_synonym offer = "u64 \<times> string \<times> string \<times> string \<times> string \<times> string"

definition offer_of :: "string \<Rightarrow> Feed \<Rightarrow> i64 \<Rightarrow> Release \<Rightarrow> offer option" where
  "offer_of arch feed server rel =
    (case ParseFeedTag feed (reTag rel) of None \<Rightarrow> None
     | Some tag \<Rightarrow>
        let name = InstallerAssetName (ftVersion tag) arch in
        (case find_asset name (reAssets rel) of None \<Rightarrow> None
         | Some asset \<Rightarrow>
            if \<not> reDraft rel \<and>
               (rePrerelease rel \<longrightarrow> feAcceptAnyPrerelease feed \<or>
                 feAcceptBetaPrereleases feed \<and> EndsWith (reTag rel) ''-beta'') \<and>
               (feRequireImmutable feed \<longrightarrow> reImmutable rel) \<and>
               CodeUnixSeconds (ftCode tag) \<le> server + kFutureCodeLimitSeconds \<and>
               asUrl asset \<noteq> [] \<and>
               HasSoaked feed (case SoakStartOf (ftCode tag) (rePublishedAt rel) (reUpdatedAt rel)
                   (asUpdatedAt asset) of Inl _ \<Rightarrow> None | Inr t \<Rightarrow> Some t) server \<and>
               DigestHexFromAssetDigest (asDigest asset) \<noteq> []
            then Some (ftCode tag, ftVersion tag, reTag rel, name, asUrl asset,
                   DigestHexFromAssetDigest (asDigest asset))
            else None))"

definition selected :: "Selection \<Rightarrow> offer" where
  "selected s = (seCode s, seVersion s, seTag s, seAssetName s, seAssetUrl s, seDigestHex s)"

lemma selected_skip [simp]: "selected (skip s rel r b) = selected s" "seCode (skip s rel r b) = seCode s"
  by (simp_all add: selected_def skip_def)

lemma selected_newest [simp]:
  "selected (s\<lparr>seNewestCode := c, seNewestVersion := v\<rparr>) = selected s"
  "selected (s\<lparr>seWaitingCode := c, seWaitingVersion := v, seWaitingFrom := t\<rparr>) = selected s"
  by (simp_all add: selected_def)

lemma consider_release_offer:
  assumes "ParseFeedTag feed (reTag rel) = Some tag" and "\<not> reDraft rel"
    and "rePrerelease rel \<longrightarrow> feAcceptAnyPrerelease feed \<or>
      feAcceptBetaPrereleases feed \<and> EndsWith (reTag rel) ''-beta''"
  shows "selected (consider_release arch feed server s rel tag) =
    (case offer_of arch feed server rel of
       None \<Rightarrow> selected s
     | Some ofr \<Rightarrow> if seCode s < fst ofr then ofr else selected s)"
proof (cases "find_asset (InstallerAssetName (ftVersion tag) arch) (reAssets rel)")
  case None
  then show ?thesis using assms by (simp add: consider_release_def offer_of_def Let_def)
next
  case (Some asset)
  let ?since = "SoakStartOf (ftCode tag) (rePublishedAt rel) (reUpdatedAt rel) (asUpdatedAt asset)"
  let ?soaked = "HasSoaked feed (case ?since of Inl _ \<Rightarrow> None | Inr t \<Rightarrow> Some t) server"
  show ?thesis
  proof (cases "(feRequireImmutable feed \<longrightarrow> reImmutable rel) \<and>
      CodeUnixSeconds (ftCode tag) \<le> server + kFutureCodeLimitSeconds \<and> asUrl asset \<noteq> [] \<and> ?soaked")
    case True
    then show ?thesis using assms Some
      by (auto simp: consider_release_def offer_of_def Let_def not_less selected_def skip_def)
  next
    case False
    then have "offer_of arch feed server rel = None"
      using assms(1) Some by (auto simp: offer_of_def Let_def)
    moreover have "selected (consider_release arch feed server s rel tag) = selected s"
      using False Some by (auto simp: consider_release_def Let_def not_le split: sum.split)
    ultimately show ?thesis by simp
  qed
qed

lemma select_step_offer:
  "selected (select_step arch feed server s rel) =
    (case offer_of arch feed server rel of
       None \<Rightarrow> selected s
     | Some ofr \<Rightarrow> if seCode s < fst ofr then ofr else selected s)"
proof (cases "\<not> reDraft rel \<and> (rePrerelease rel \<longrightarrow> feAcceptAnyPrerelease feed \<or>
      feAcceptBetaPrereleases feed \<and> EndsWith (reTag rel) ''-beta'') \<and> ParseFeedTag feed (reTag rel) \<noteq> None")
  case True
  then obtain tag where "ParseFeedTag feed (reTag rel) = Some tag" by auto
  with True show ?thesis
    using consider_release_offer [of feed rel tag arch server s] by (auto simp: select_step_def)
next
  case False
  then have "offer_of arch feed server rel = None" "select_step arch feed server s rel = s"
    by (auto simp: offer_of_def select_step_def Let_def split: option.split)
  then show ?thesis by simp
qed

lemma offer_code_pos: "offer_of arch feed server rel = Some ofr \<Longrightarrow> 0 < fst ofr"
  by (auto simp: offer_of_def ParseFeedTag_def Let_def word_gt_0 split: option.splits if_splits)

definition offers :: "string \<Rightarrow> Feed \<Rightarrow> i64 \<Rightarrow> Release list \<Rightarrow> offer list" where
  "offers arch feed server releases = List.map_filter (offer_of arch feed server) releases"

lemma select_release_spec:
  "(if offers arch feed server releases = [] then selected (SelectRelease releases arch feed server) = selected EmptySelection
    else selected (SelectRelease releases arch feed server) \<in> set (offers arch feed server releases)) \<and>
    list_all (\<lambda>ofr. 0 < fst ofr \<and> fst ofr \<le> seCode (SelectRelease releases arch feed server))
      (offers arch feed server releases)"
proof (induction releases rule: rev_induct)
  case Nil
  then show ?case by (simp add: SelectRelease_def offers_def)
next
  case (snoc rel releases)
  let ?s = "SelectRelease releases arch feed server"
  have step: "selected (SelectRelease (releases @ [rel]) arch feed server) =
      (case offer_of arch feed server rel of None \<Rightarrow> selected ?s
       | Some ofr \<Rightarrow> if seCode ?s < fst ofr then ofr else selected ?s)"
    using select_step_offer [of arch feed server ?s rel] by (simp add: SelectRelease_def)
  have code: "seCode s = fst (selected s)" for s by (simp add: selected_def)
  have app: "offers arch feed server (releases @ [rel]) = offers arch feed server releases @
      (case offer_of arch feed server rel of None \<Rightarrow> [] | Some ofr \<Rightarrow> [ofr])"
    by (simp add: offers_def map_filter_def split: option.split)
  show ?case
  proof (cases "offer_of arch feed server rel")
    case None
    then show ?thesis using snoc step app code by simp
  next
    case (Some ofr)
    have pos: "0 < fst ofr" using offer_code_pos [OF Some] .
    have zero: "seCode ?s = 0" if "offers arch feed server releases = []"
      using snoc that by (simp add: selected_def EmptySelection_def)
    show ?thesis
    proof (cases "seCode ?s < fst ofr")
      case True
      then show ?thesis using snoc step app Some pos
        by (auto simp: code [of "SelectRelease (releases @ [rel]) arch feed server"] list_all_iff)
    next
      case False
      then have "offers arch feed server releases \<noteq> []" using zero pos by auto
      then show ?thesis using snoc step app Some pos False
        by (auto simp: code [of "SelectRelease (releases @ [rel]) arch feed server"]
            code [of ?s, symmetric] list_all_iff)
    qed
  qed
qed

text \<open>
  The update offered is the newest installable one: what the selection holds is exactly an
  offer the listing makes, none of the listing's offers has a higher code, and the selection is
  empty exactly when the listing offers nothing. Nothing unsoaked, mutable, future-dated, foreign
  or without a usable digest is ever selected, whatever order GitHub lists the releases in.
\<close>

theorem selection_newest:
  "(if offers arch feed server releases = [] then selected (SelectRelease releases arch feed server) = selected EmptySelection
    else selected (SelectRelease releases arch feed server) \<in> set (offers arch feed server releases)) \<and>
    list_all (\<lambda>ofr. 0 < fst ofr \<and> fst ofr \<le> seCode (SelectRelease releases arch feed server))
      (offers arch feed server releases)"
  by (rule select_release_spec)

lemma day_multiple_le: "86400 * k \<le> (t::int) \<longleftrightarrow> k \<le> t div 86400"
proof
  assume "86400 * k \<le> t"
  then have "86400 * k div 86400 \<le> t div 86400" by (intro zdiv_mono1) auto
  then show "k \<le> t div 86400" by simp
next
  assume "k \<le> t div 86400"
  then have "86400 * k \<le> 86400 * (t div 86400)" by simp
  also have "\<dots> \<le> t" unfolding minus_mod_eq_mult_div [symmetric] by simp
  finally show "86400 * k \<le> t" .
qed

lemma soak_ceiling:
  assumes "\<And>k. 86400 * k \<le> t \<longleftrightarrow> k \<le> (d::int)" and "0 \<le> r" and "r < 86400"
  shows "86400 * q + r \<le> 86400 * d \<longleftrightarrow> (if r = 0 then 86400 * q + r else 86400 * (q + 1)) \<le> t"
  using assms(1) [of q] assms(1) [of "q + 1"] assms(2,3) by auto

text \<open>
  The time a waiting release is announced for is the first at which it has soaked: for a feed
  with a soak, a release has soaked at a server time exactly from the announced second on.
\<close>

theorem soak_end_exact:
  assumes "0 < feSoakSeconds feed" and "0 < server"
  shows "HasSoaked feed (Some since) server \<longleftrightarrow> SoakEndUnixSeconds feed since \<le> server"
proof -
  define x where "x = since + feSoakSeconds feed"
  define q r where "q = x div 86400" and "r = x mod 86400"
  have x: "x = 86400 * q + r" by (simp add: q_def r_def)
  have "UtcDayStart x = x - r" by (simp add: UtcDayStart_floor r_def)
  then have "SoakEndUnixSeconds feed since = (if x - r = x then x else x - r + 86400)"
    using assms by (simp add: SoakEndUnixSeconds_def kSecondsPerDay_def x_def [symmetric] Let_def)
  also have "\<dots> = (if r = 0 then 86400 * q + r else 86400 * (q + 1))" by (simp add: x)
  finally have se: "SoakEndUnixSeconds feed since = (if r = 0 then 86400 * q + r else 86400 * (q + 1))" .
  have "HasSoaked feed (Some since) server \<longleftrightarrow> 86400 * q + r \<le> 86400 * (server div 86400)"
    using assms x
    by (simp add: HasSoaked_def UtcDayStart_floor minus_mod_eq_mult_div x_def [symmetric])
  also have "\<dots> \<longleftrightarrow> (if r = 0 then 86400 * q + r else 86400 * (q + 1)) \<le> server"
    by (rule soak_ceiling [OF day_multiple_le]) (simp_all add: r_def)
  finally show ?thesis by (simp only: se)
qed

theorem soak_end_exact_witness:
  "HasSoaked kOfficialFeed (Some 1790866277) 1791072000"
  using soak_end_exact [of kOfficialFeed 1791072000 1790866277]
  by (simp add: kOfficialFeed_def SoakEndUnixSeconds_def UtcDayStart_floor kSecondsPerDay_def)

lemma find_first_of_Some:
  "find_first_of chars s = Some i \<Longrightarrow> i < length s \<and> s ! i \<in> set chars"
  by (auto simp: find_first_of_def find_Some_iff)

lemma redirect_hosts_lower: "list_all (\<lambda>h. map AsciiLower h = h) kAssetRedirectHosts"
  by code_simp

lemma redirect_host: "list_ex (\<lambda>host. EqualsAsciiCaseless a host) kAssetRedirectHosts \<Longrightarrow>
    map AsciiLower a \<in> set kAssetRedirectHosts"
  using redirect_hosts_lower by (auto simp: list_ex_iff list_all_iff EqualsAsciiCaseless_map)

text \<open>
  A download follows a redirect only to the two asset hosts over https: a URL that is accepted
  is the scheme, one of those hosts in any case, the default port or none, and a path, with no user
  part, no query or fragment before the path and no blank or control character anywhere.
\<close>

theorem redirect_confined:
  assumes "IsAllowedAssetRedirect url"
  shows "\<exists>host port path. url = ''https://'' @ host @ port @ ''/'' @ path \<and>
    map AsciiLower host \<in> set kAssetRedirectHosts \<and> (port = [] \<or> port = '':443'') \<and>
    list_all (\<lambda>c. 32 < code_of c \<and> code_of c < 127) url"
proof -
  let ?rest = "drop 8 url"
  have len: "length ''https://'' = 8" by simp
  note A = assms [unfolded IsAllowedAssetRedirect_def Let_def len]
  have "take 8 url = ''https://''" using A by (simp split: if_splits)
  then have scheme: "url = ''https://'' @ ?rest" using append_take_drop_id [of 8 url] by metis
  have chars: "list_all (\<lambda>c. 32 < code_of c \<and> code_of c < 127) url"
    using A by (auto simp: list_all_iff list_ex_iff not_le split: if_splits)
  obtain e where e: "find_first_of ''/?#'' ?rest = Some e" "?rest ! e = CHR ''/''"
    and auth: "case find_first_of '':'' (take e ?rest) of
        None \<Rightarrow> list_ex (\<lambda>host. EqualsAsciiCaseless (take e ?rest) host) kAssetRedirectHosts
      | Some colon \<Rightarrow> drop (colon + 1) (take e ?rest) = ''443'' \<and>
          list_ex (\<lambda>host. EqualsAsciiCaseless (take colon (take e ?rest)) host) kAssetRedirectHosts"
    using A by (auto split: if_splits option.splits)
  have rest: "?rest = take e ?rest @ ''/'' @ drop (Suc e) ?rest"
    using find_first_of_Some [OF e(1)] e(2) id_take_nth_drop [of e ?rest] by simp
  define au where "au = take e ?rest"
  note auth' = auth [folded au_def]
  obtain host port where a: "au = host @ port" "map AsciiLower host \<in> set kAssetRedirectHosts"
    "port = [] \<or> port = '':443''"
  proof (cases "find_first_of '':'' au")
    case None
    with auth' that [of au "[]"] show ?thesis by (simp add: redirect_host)
  next
    case (Some colon)
    have "au = take colon au @ au ! colon # drop (Suc colon) au" "au ! colon = CHR '':''"
      using find_first_of_Some [OF Some] id_take_nth_drop [of colon au] by auto
    then have "au = take colon au @ '':443''" using auth' Some by simp
    with auth' Some that [of "take colon au" "'':443''"] show ?thesis by (auto intro: redirect_host)
  qed
  have "url = ''https://'' @ host @ port @ ''/'' @ drop (Suc e) ?rest"
    using scheme rest a(1) unfolding au_def by (metis append_assoc)
  with a(2,3) chars show ?thesis by blast
qed

theorem redirect_confined_witness:
  "\<exists>host port path. ''https://objects.githubusercontent.com:443/a?b=c'' = ''https://'' @ host @ port @ ''/'' @ path \<and>
    map AsciiLower host \<in> set kAssetRedirectHosts \<and> (port = [] \<or> port = '':443'') \<and>
    list_all (\<lambda>c. 32 < code_of c \<and> code_of c < 127) ''https://objects.githubusercontent.com:443/a?b=c''"
  by (rule redirect_confined) code_simp

end
