(* ===== verification/UpdateFlow.thy ===== *)
theory UpdateFlow
  imports ReleaseSelection
begin

text \<open>
  The update's flow around the selection: the helper's exit codes and reports
  (\<^verbatim>\<open>Common/UpdateResult.h\<close>), what the elevated helper accepts (\<^verbatim>\<open>Common/UpdateApply.h\<close>) and when the
  app checks and what a click does (\<^verbatim>\<open>Common/UpdateSchedule.h\<close>). Exit codes are \<open>int\<close>, as the source
  holds them in 64 bits.
\<close>

section \<open>Results\<close>

datatype Refusal = NotElevated | Refusal_NotInstalled | DevBuild | BadArguments | Busy | ReleaseList
  | NotOffered | Download | Digest | Package | Staging | InstallerNotStarted | RateLimited

definition refusal_code :: "Refusal \<Rightarrow> int" where
  "refusal_code r =
    (case r of NotElevated \<Rightarrow> 0x20000001 | Refusal_NotInstalled \<Rightarrow> 0x20000002 | DevBuild \<Rightarrow> 0x20000003
     | BadArguments \<Rightarrow> 0x20000004 | Busy \<Rightarrow> 0x20000005 | ReleaseList \<Rightarrow> 0x20000006
     | NotOffered \<Rightarrow> 0x20000007 | Download \<Rightarrow> 0x20000008 | Digest \<Rightarrow> 0x20000009
     | Package \<Rightarrow> 0x2000000A | Staging \<Rightarrow> 0x2000000B | InstallerNotStarted \<Rightarrow> 0x2000000C
     | RateLimited \<Rightarrow> 0x2000000D)"

text \<open>The test of bit 29, \<^verbatim>\<open>exitCode & kRefusalBit\<close>.\<close>

definition IsRefusal :: "int \<Rightarrow> bool" where
  "IsRefusal exitCode \<longleftrightarrow> exitCode > 0 \<and> exitCode \<le> 0xFFFFFFFF \<and> (exitCode div 0x20000000) mod 2 = 1"

definition kRebootInitiated :: int where "kRebootInitiated = 1641"
definition kRebootRequired :: int where "kRebootRequired = 3010"

datatype Outcome = Outcome_Installed | RestartRequired | Outcome_Failed | Refused

definition OutcomeOf :: "int \<Rightarrow> Outcome" where
  "OutcomeOf exitCode =
    (if exitCode = 0 then Outcome_Installed
     else if exitCode = kRebootRequired \<or> exitCode = kRebootInitiated then RestartRequired
     else if IsRefusal exitCode then Refused
     else Outcome_Failed)"

definition KeepsPackage :: "int \<Rightarrow> bool" where
  "KeepsPackage exitCode \<longleftrightarrow> OutcomeOf exitCode = Outcome_Installed \<or> OutcomeOf exitCode = RestartRequired"

record UpdateResult =
  urTag :: string
  urCode :: u64
  urExitCode :: int
  urFinishedUtc :: string

definition IsWellFormed :: "UpdateResult \<Rightarrow> string \<Rightarrow> bool" where
  "IsWellFormed result tagPrefix =
    (if take (length tagPrefix) (urTag result) \<noteq> tagPrefix then False
     else let tag = drop (length tagPrefix) (urTag result)
          in urCode result \<noteq> 0 \<and> ParseReleaseCode tag = urCode result \<and>
             urExitCode result \<ge> 0 \<and> urExitCode result \<le> 0xFFFFFFFF \<and> IsUtcSecond (urFinishedUtc result))"

definition kReportClockSlackSeconds :: i64 where "kReportClockSlackSeconds = 120"

definition IsReportOfRun :: "UpdateResult \<Rightarrow> string \<Rightarrow> int \<Rightarrow> i64 \<Rightarrow> bool" where
  "IsReportOfRun report tag exitCode started =
    (case ParseUtcSecond (urFinishedUtc report) of
       None \<Rightarrow> False
     | Some finished \<Rightarrow> urTag report = tag \<and> urExitCode report = exitCode \<and>
         finished \<ge> started - kReportClockSlackSeconds)"

datatype ReportView = Hidden | View_Installed | RestartApp | RestartWindows | View_NotInstalled

definition ViewOfReport :: "UpdateResult \<Rightarrow> u64 \<Rightarrow> bool \<Rightarrow> bool \<Rightarrow> ReportView" where
  "ViewOfReport report ownCode live restartedSince =
    (case OutcomeOf (urExitCode report) of
       Outcome_Installed \<Rightarrow>
         if ownCode = urCode report then View_Installed
         else if live \<and> ownCode < urCode report then RestartApp else Hidden
     | RestartRequired \<Rightarrow>
         if ownCode > urCode report then Hidden
         else if \<not> restartedSince then RestartWindows
         else if ownCode = urCode report then View_Installed else Hidden
     | Outcome_Failed \<Rightarrow> if ownCode < urCode report then View_NotInstalled else Hidden
     | Refused \<Rightarrow> if ownCode < urCode report then View_NotInstalled else Hidden)"

section \<open>What the helper accepts\<close>

definition kUpgradeCode :: string where "kUpgradeCode = ''{A7C1E2D3-4B5F-6081-9C2D-3E4F50617283}''"
definition kMaxTagLength :: nat where "kMaxTagLength = 96"

definition plain_char :: "char \<Rightarrow> bool" where
  "plain_char c \<longleftrightarrow> IsDigit c \<or> (97 \<le> code_of c \<and> code_of c \<le> 122) \<or>
    (65 \<le> code_of c \<and> code_of c \<le> 90) \<or> c = CHR ''.'' \<or> c = CHR ''-''"

definition IsTagArgument :: "Feed \<Rightarrow> string \<Rightarrow> bool" where
  "IsTagArgument feed tag =
    (if tag = [] \<or> length tag > kMaxTagLength then False
     else if \<not> list_all plain_char tag then False
     else if hd tag = CHR ''.'' \<or> hd tag = CHR ''-'' then False
     else ParseFeedTag feed tag \<noteq> None)"

definition SelectionOffers :: "Selection \<Rightarrow> string \<Rightarrow> u64 \<Rightarrow> bool" where
  "SelectionOffers selection tag ownCode \<longleftrightarrow>
    seCode selection \<noteq> 0 \<and> seTag selection = tag \<and> seCode selection > ownCode \<and>
    seAssetUrl selection \<noteq> [] \<and> seAssetName selection \<noteq> [] \<and> length (seDigestHex selection) = 64"

definition PackageMatches :: "string \<Rightarrow> string \<Rightarrow> u64 \<Rightarrow> bool" where
  "PackageMatches upgradeCode productVersion code \<longleftrightarrow>
    EqualsAsciiCaseless upgradeCode kUpgradeCode \<and> UrMsiVersion code \<noteq> [] \<and>
    productVersion = UrMsiVersion code"

definition quoted :: "string \<Rightarrow> string" where
  "quoted s = [char_of (34::nat)] @ s @ [char_of (34::nat)]"

definition MsiexecCommandLine :: "string \<Rightarrow> string \<Rightarrow> string \<Rightarrow> string" where
  "MsiexecCommandLine msiexec package log =
    quoted msiexec @ '' /i '' @ quoted package @ '' /passive /norestart /l*v '' @ quoted log @ '' UPDATE_RELAUNCH=1''"

definition AsciiUpper :: "char \<Rightarrow> char" where
  "AsciiUpper c = (if 97 \<le> code_of c \<and> code_of c \<le> 122 then char_of (code_of c - 32) else c)"

definition IsAppOverrideName :: "string \<Rightarrow> bool" where
  "IsAppOverrideName name =
    (let kPrefix = ''URNETWORK_'' in
     if length name < length kPrefix then False
     else list_all2 (\<lambda>c p. AsciiUpper c = p) (take (length kPrefix) name) kPrefix)"

datatype HelperWait = Ended | AppExiting

text \<open>
  The polling loop: \<open>ended i\<close> and \<open>exiting i\<close> are what its \<open>i\<close>-th questions are answered. It runs
  until one of them says yes, so its value is \<open>None\<close> when neither ever does.
\<close>

partial_function (option) AwaitHelper :: "(nat \<Rightarrow> bool) \<Rightarrow> (nat \<Rightarrow> bool) \<Rightarrow> nat \<Rightarrow> HelperWait option" where
  "AwaitHelper ended exiting i =
    (if ended i then Some Ended else if exiting i then Some AppExiting
     else AwaitHelper ended exiting (Suc i))"

section \<open>When to check, and what a click does\<close>

definition kStaleAfterSeconds :: i64 where "kStaleAfterSeconds = 72 * 60 * 60"
definition kMaxBackoffSeconds :: i64 where "kMaxBackoffSeconds = 24 * 60 * 60"

record RateLimit =
  rlRetryAfterSeconds :: i64
  rlResetUnixSeconds :: i64
  rlExhausted :: bool
  rlServerUnixSeconds :: i64

definition NextCheckDelaySeconds :: "i64 \<Rightarrow> RateLimit \<Rightarrow> i64" where
  "NextCheckDelaySeconds cadence limit =
    (let w0 = (if rlRetryAfterSeconds limit > 0 then rlRetryAfterSeconds limit else 0);
         w1 = (if rlExhausted limit \<and> rlResetUnixSeconds limit > 0 \<and> rlServerUnixSeconds limit > 0
               then max w0 (rlResetUnixSeconds limit - rlServerUnixSeconds limit) else w0);
         w2 = min w1 kMaxBackoffSeconds
     in max cadence w2)"

definition CheckIsStale :: "i64 \<Rightarrow> i64 \<Rightarrow> bool \<Rightarrow> bool" where
  "CheckIsStale now lastSuccess checking \<longleftrightarrow>
    checking \<and> lastSuccess > 0 \<and> now - lastSuccess > kStaleAfterSeconds"

definition HiddenByLater :: "u64 \<Rightarrow> u64 \<Rightarrow> bool" where
  "HiddenByLater laterCode offeredCode \<longleftrightarrow> laterCode \<noteq> 0 \<and> offeredCode = laterCode"

datatype ClickStep = Proceed | Replaced | Withdrawn | Unconfirmed | Dropped

record ClickAfterCheck =
  ckClickedCode :: u64
  ckSameFeed :: bool
  ckChecked :: bool
  ckOfferedCode :: u64
  ckBannerHolds :: bool
  ckLaterCode :: u64
  ckViaHelper :: bool

definition StepAfterCheck :: "ClickAfterCheck \<Rightarrow> ClickStep" where
  "StepAfterCheck click =
    (if \<not> ckSameFeed click \<or> ckClickedCode click = 0 then Dropped
     else if ckChecked click \<and> ckOfferedCode click = 0 then Withdrawn
     else if ckChecked click \<and> ckOfferedCode click \<noteq> ckClickedCode click then Replaced
     else if \<not> ckBannerHolds click \<or> HiddenByLater (ckLaterCode click) (ckClickedCode click) then Dropped
     else if \<not> ckChecked click \<and> \<not> ckViaHelper click then Unconfirmed
     else Proceed)"

section \<open>Properties\<close>

lemma refusal_outcome: "OutcomeOf (refusal_code r) = Refused \<and> \<not> KeepsPackage (refusal_code r)"
  by (cases r)
    (simp_all add: refusal_code_def OutcomeOf_def IsRefusal_def KeepsPackage_def kRebootRequired_def kRebootInitiated_def)

lemma refusal_code_inject: "refusal_code r = refusal_code r' \<longleftrightarrow> r = r'"
  by (cases r; cases r') (simp_all add: refusal_code_def)

lemma next_check_bounds:
  "cadence \<le> NextCheckDelaySeconds cadence limit \<and>
   NextCheckDelaySeconds cadence limit \<le> max cadence kMaxBackoffSeconds"
  by (auto simp: NextCheckDelaySeconds_def Let_def)

lemma await_returns:
  assumes "ended n \<or> exiting n" and "i \<le> n"
  shows "\<exists>w. AwaitHelper ended exiting i = Some w"
proof -
  have "\<exists>w. AwaitHelper ended exiting i = Some w" if "n - i = k" "i \<le> n" for i k
    using that
  proof (induction k arbitrary: i)
    case 0
    then have "i = n" by simp
    then show ?case using assms(1) by (subst AwaitHelper.simps) auto
  next
    case (Suc k)
    then have "\<exists>w. AwaitHelper ended exiting (Suc i) = Some w" by simp
    then show ?case by (subst AwaitHelper.simps) auto
  qed
  then show ?thesis using assms(2) by blast
qed

text \<open>
  A click installs only what the user saw: the update goes on exactly when the feed is the
  same, the banner still holds the clicked release and Later has not hidden it, and either the
  check found that very release on offer or no check could be made and the helper, which asks
  again by itself, installs. A check that found another release or none never proceeds.
\<close>

theorem click_installs_what_was_seen:
  "(StepAfterCheck click = Proceed \<longleftrightarrow>
      ckSameFeed click \<and> ckClickedCode click \<noteq> 0 \<and> ckBannerHolds click \<and>
      ckLaterCode click \<noteq> ckClickedCode click \<and>
      (if ckChecked click then ckOfferedCode click = ckClickedCode click else ckViaHelper click)) \<and>
    (StepAfterCheck click = Unconfirmed \<longleftrightarrow>
      ckSameFeed click \<and> ckClickedCode click \<noteq> 0 \<and> ckBannerHolds click \<and>
      ckLaterCode click \<noteq> ckClickedCode click \<and> \<not> ckChecked click \<and> \<not> ckViaHelper click)"
  by (auto simp: StepAfterCheck_def HiddenByLater_def)

text \<open>
  A report is never read as more than it says: updated is shown only to the build the report
  names and only for a run that installed; a failure or refusal is shown only to an older build;
  and a report about a release this build has passed is hidden.
\<close>

theorem report_view_honest:
  "(ViewOfReport report own live restarted = View_Installed \<longleftrightarrow>
      own = urCode report \<and> KeepsPackage (urExitCode report) \<and>
      (OutcomeOf (urExitCode report) = Outcome_Installed \<or> restarted)) \<and>
    (ViewOfReport report own live restarted = View_NotInstalled \<longleftrightarrow>
      own < urCode report \<and> \<not> KeepsPackage (urExitCode report)) \<and>
    (if urCode report < own then ViewOfReport report own live restarted = Hidden else True)"
  by (cases "OutcomeOf (urExitCode report)") (auto simp: ViewOfReport_def KeepsPackage_def)

text \<open>
  (C37) The elevated helper installs only the newest offer of the feed: when the selection it makes
  from the listing offers the tag it was asked for, that tag belongs to a release of the listing
  that soaked, is immutable where required and has a 64-digit digest, its code is above the running
  build's, and no offer of the listing is newer.
\<close>

theorem helper_installs_newest_offer:
  assumes "SelectionOffers (SelectRelease releases arch feed server) tag own"
  shows "\<exists>rel code version name url digest. rel \<in> set releases \<and>
    offer_of arch feed server rel = Some (code, version, tag, name, url, digest) \<and>
    own < code \<and> length digest = 64 \<and>
    list_all (\<lambda>ofr. fst ofr \<le> code) (offers arch feed server releases)"
proof -
  let ?s = "SelectRelease releases arch feed server"
  have max: "list_all (\<lambda>ofr. 0 < fst ofr \<and> fst ofr \<le> seCode ?s) (offers arch feed server releases)"
    and in_offers: "selected ?s \<in> set (offers arch feed server releases)"
    using select_release_spec [of arch feed server releases] assms
    by (auto simp: SelectionOffers_def selected_def EmptySelection_def split: if_splits)
  from in_offers obtain rel where rel: "rel \<in> set releases" "offer_of arch feed server rel = Some (selected ?s)"
    by (auto simp: offers_def map_filter_def)
  with assms max show ?thesis
    by (intro exI [of _ rel] exI [of _ "seCode ?s"] exI [of _ "seVersion ?s"] exI [of _ "seAssetName ?s"]
        exI [of _ "seAssetUrl ?s"] exI [of _ "seDigestHex ?s"])
      (auto simp: SelectionOffers_def selected_def list_all_iff)
qed

definition exampleRelease :: Release where
  "exampleRelease = \<lparr>reTag = ''v2026.8.9-1013462345'', reDraft = False, rePrerelease = False, reImmutable = True,
    rePublishedAt = ''2026-08-09T10:00:00Z'', reUpdatedAt = ''2026-08-09T10:00:00Z'',
    reAssets = [\<lparr>asName = ''URnetwork-2026.8.9-1013462345-x64.msi'', asUrl = ''u'',
      asDigest = ''sha256:'' @ replicate 64 (CHR ''a''), asUpdatedAt = ''2026-08-09T09:00:00Z''\<rparr>]\<rparr>"

lemma exampleRelease_facts:
  "ParseFeedTag kOfficialFeed ''v2026.8.9-1013462345'' = Some \<lparr>ftVersion = ''2026.8.9-1013462345'', ftCode = 1013462345\<rparr>"
  "ParseUtcSecond ''2026-08-09T10:00:00Z'' = Some 1786269600"
  "ParseUtcSecond ''2026-08-09T09:00:00Z'' = Some 1786266000"
  "DigestHexFromAssetDigest (''sha256:'' @ replicate 64 (CHR ''a'')) = replicate 64 (CHR ''a'')"
  "InstallerAssetName ''2026.8.9-1013462345'' ''x64'' = ''URnetwork-2026.8.9-1013462345-x64.msi''"
proof -
  show "ParseFeedTag kOfficialFeed ''v2026.8.9-1013462345'' = Some \<lparr>ftVersion = ''2026.8.9-1013462345'', ftCode = 1013462345\<rparr>"
    by (simp add: ParseFeedTag_def kOfficialFeed_def ParseReleaseCode_def TakeDigits_def strip_v_def IsDigit_def
        digits_word_def digit_value_def skip_char_def Let_def)
qed code_simp+

lemma exampleRelease_offered:
  "SelectionOffers (SelectRelease [exampleRelease] ''x64'' kOfficialFeed 1786492800) ''v2026.8.9-1013462345'' 5"
proof -
  have "UtcDayStart 1786492800 = 1786492800" by code_simp
  moreover have "CodeUnixSeconds 1013462345 = 1786146234" by (simp add: CodeUnixSeconds_def kCodeEpochUnixSeconds_def)
  moreover have "feRequireImmutable kOfficialFeed" "feSoakSeconds kOfficialFeed = 86400"
    by (simp_all add: kOfficialFeed_def)
  ultimately show ?thesis
    using exampleRelease_facts(4)
    by (simp add: SelectionOffers_def SelectRelease_def select_step_def consider_release_def exampleRelease_def
        exampleRelease_facts(1-3,5) find_asset_def SoakStartOf_def HasSoaked_def kFutureCodeLimitSeconds_def
        EmptySelection_def Let_def)
qed

theorem helper_installs_newest_offer_witness:
  "\<exists>rel code version name url digest. rel \<in> set [exampleRelease] \<and>
    offer_of ''x64'' kOfficialFeed 1786492800 rel = Some (code, version, ''v2026.8.9-1013462345'', name, url, digest) \<and>
    5 < code \<and> length digest = 64 \<and>
    list_all (\<lambda>ofr. fst ofr \<le> code) (offers ''x64'' kOfficialFeed 1786492800 [exampleRelease])"
  by (rule helper_installs_newest_offer [OF exampleRelease_offered])

end
