(* ===== verification/UpdateMarker.thy ===== *)
theory UpdateMarker
  imports Prelude
begin

text \<open>
  The marker an update leaves while its installer runs, \<^verbatim>\<open>Common/UpdateMarker.h\<close>: its text form, the
  judgement of a marker found at start, and the note of whether a VPN was up at the hand-off.
  \<^verbatim>\<open>std::from_chars\<close> is modelled for the three integer types read: the longest digit run, after a
  minus for the signed one, rejected when it is empty or out of the type's range.
\<close>

definition kUpdateMarkerLifetime :: i64 where "kUpdateMarkerLifetime = 20 * 60"
definition kUpdateMarkerClockSkew :: i64 where "kUpdateMarkerClockSkew = 5 * 60"

datatype VpnAtStart = Vpn_Unknown | NotConnected | Vpn_Connected

record UpdateMarker =
  installerProcessId :: u32
  installerCreationTime :: u64
  writtenAt :: i64
  vpn :: VpnAtStart

definition FormatUpdateMarker :: "UpdateMarker \<Rightarrow> string" where
  "FormatUpdateMarker m =
    show_nat (unat (installerProcessId m)) @ '' '' @ show_nat (unat (installerCreationTime m)) @ '' '' @
    show_int (writtenAt m) @
    (case vpn m of Vpn_Connected \<Rightarrow> '' 1'' | NotConnected \<Rightarrow> '' 0'' | Vpn_Unknown \<Rightarrow> '''') @ [char_of (10::nat)]"

definition from_chars_unsigned :: "nat \<Rightarrow> string \<Rightarrow> (nat \<times> string) option" where
  "from_chars_unsigned bound s =
    (let ds = takeWhile IsDigit s
     in if ds = [] \<or> bound < dec_value ds then None else Some (dec_value ds, drop (length ds) s))"

definition from_chars_i64 :: "string \<Rightarrow> (int \<times> string) option" where
  "from_chars_i64 s =
    (if s \<noteq> [] \<and> hd s = CHR ''-''
     then (case from_chars_unsigned (2 ^ 63) (tl s) of None \<Rightarrow> None | Some (n, rest) \<Rightarrow> Some (- int n, rest))
     else (case from_chars_unsigned (2 ^ 63 - 1) s of None \<Rightarrow> None | Some (n, rest) \<Rightarrow> Some (int n, rest)))"

text \<open>A field that is not the last: the number, then one space.\<close>

definition field_then_space :: "nat \<Rightarrow> string \<Rightarrow> (nat \<times> string) option" where
  "field_then_space bound s =
    (case from_chars_unsigned bound s of None \<Rightarrow> None
     | Some (n, rest) \<Rightarrow> if rest = [] \<or> hd rest \<noteq> CHR '' '' then None else Some (n, tl rest))"

text \<open>The last fields: the time, alone up to the end or with the VPN's digit after a space.\<close>

definition parse_tail :: "string \<Rightarrow> (int \<times> VpnAtStart) option" where
  "parse_tail s =
    (case from_chars_i64 s of None \<Rightarrow> None
     | Some (t, rest) \<Rightarrow>
         if rest = [] then Some (t, Vpn_Unknown)
         else if hd rest \<noteq> CHR '' '' then None
         else if length (tl rest) \<noteq> 1 \<or> (hd (tl rest) \<noteq> CHR ''0'' \<and> hd (tl rest) \<noteq> CHR ''1'') then None
         else Some (t, if hd (tl rest) = CHR ''1'' then Vpn_Connected else NotConnected))"

definition strip_newline :: "string \<Rightarrow> string" where
  "strip_newline s = (if s \<noteq> [] \<and> last s = char_of (10::nat) then butlast s else s)"

definition ParseUpdateMarker :: "string \<Rightarrow> UpdateMarker option" where
  "ParseUpdateMarker text0 =
    (case field_then_space (2 ^ 32 - 1) (strip_newline text0) of None \<Rightarrow> None
     | Some (pid, s1) \<Rightarrow>
       (case field_then_space (2 ^ 64 - 1) s1 of None \<Rightarrow> None
        | Some (created, s2) \<Rightarrow>
          (case parse_tail s2 of None \<Rightarrow> None
           | Some (t, v) \<Rightarrow>
               if pid = 0 \<or> created = 0 then None
               else Some \<lparr>installerProcessId = of_nat pid, installerCreationTime = of_nat created,
                      writtenAt = t, vpn = v\<rparr>)))"

definition VpnOfReport :: "UpdateMarker option \<Rightarrow> i64 option \<Rightarrow> VpnAtStart option" where
  "VpnOfReport record finished =
    (case record of None \<Rightarrow> None
     | Some m \<Rightarrow> (case finished of None \<Rightarrow> Some Vpn_Unknown
         | Some f \<Rightarrow> if f < writtenAt m then Some Vpn_Unknown else Some (vpn m)))"

definition SaysVpnDisconnected :: "VpnAtStart option \<Rightarrow> bool" where
  "SaysVpnDisconnected v = (case v of None \<Rightarrow> False | Some x \<Rightarrow> x \<noteq> NotConnected)"

section \<open>The VPN at the hand-off\<close>

datatype VpnSource = Pushed | Answered | Source_Unknown

record VpnNote =
  vnPushed :: "bool option"
  vnSource :: VpnSource
  vnUpSinceHandOff :: bool

definition InitVpnNote :: VpnNote where
  "InitVpnNote = \<lparr>vnPushed = None, vnSource = Source_Unknown, vnUpSinceHandOff = False\<rparr>"

definition StatusPushed :: "VpnNote \<Rightarrow> bool \<Rightarrow> VpnNote" where
  "StatusPushed n up = n\<lparr>vnPushed := Some up, vnUpSinceHandOff := vnUpSinceHandOff n \<or> up\<rparr>"

definition HandOff :: "VpnNote \<Rightarrow> bool option \<Rightarrow> VpnNote" where
  "HandOff n answered =
    n\<lparr>vnSource := (if vnPushed n \<noteq> None then Pushed else if answered \<noteq> None then Answered else Source_Unknown),
      vnUpSinceHandOff := (let state = (if vnPushed n \<noteq> None then vnPushed n else answered)
                           in case state of None \<Rightarrow> False | Some b \<Rightarrow> b)\<rparr>"

definition Note :: "VpnNote \<Rightarrow> VpnAtStart" where
  "Note n = (if vnUpSinceHandOff n then Vpn_Connected
             else if vnSource n = Source_Unknown then Vpn_Unknown else NotConnected)"

section \<open>Judging a marker\<close>

datatype InstallerState = Running | Installer_Ended | Installer_Unknown

datatype Verdict = Verdict_None | Updating | Stale

definition Judge :: "UpdateMarker \<Rightarrow> InstallerState \<Rightarrow> i64 \<Rightarrow> Verdict" where
  "Judge marker installer now =
    (let age = now - writtenAt marker
     in if age > kUpdateMarkerLifetime \<or> age < - kUpdateMarkerClockSkew then Stale
        else if installer = Installer_Ended then Stale
        else Updating)"

definition Check :: "string option \<Rightarrow> (UpdateMarker \<Rightarrow> InstallerState) \<Rightarrow> i64 \<Rightarrow> Verdict" where
  "Check content probe now =
    (case content of None \<Rightarrow> Verdict_None
     | Some s \<Rightarrow> (case ParseUpdateMarker s of None \<Rightarrow> Stale | Some marker \<Rightarrow> Judge marker (probe marker) now))"

section \<open>Properties\<close>

lemma from_chars_unsigned_show:
  "n \<le> bound \<Longrightarrow> rest = [] \<or> \<not> IsDigit (hd rest) \<Longrightarrow>
    from_chars_unsigned bound (show_nat n @ rest) = Some (n, rest)"
  using takeWhile_digits_append [OF show_nat_digits, of rest n]
  by (simp add: from_chars_unsigned_def Let_def)

lemma from_chars_i64_show:
  assumes "- (2 ^ 63) \<le> t" and "t < 2 ^ 63" and "rest = [] \<or> \<not> IsDigit (hd rest)"
  shows "from_chars_i64 (show_int t @ rest) = Some (t, rest)"
proof (cases "t < 0")
  case True
  then have "nat (- t) \<le> 2 ^ 63" using assms(1) by (simp add: nat_le_iff)
  then show ?thesis using True assms(3)
    by (simp add: show_int_def from_chars_i64_def from_chars_unsigned_show)
next
  case False
  then have le: "nat t \<le> 2 ^ 63 - 1" using assms(2) by (simp add: nat_le_iff)
  have "hd (show_nat (nat t) @ rest) \<noteq> CHR ''-''"
    using show_nat_digits [of "nat t"] by (cases "show_nat (nat t)") (auto simp: IsDigit_def)
  then show ?thesis using False assms(3) le
    by (simp add: show_int_def from_chars_i64_def from_chars_unsigned_show)
qed

lemma space_not_digit [simp]: "\<not> IsDigit (CHR '' '')"
  by (simp add: IsDigit_def)

lemma field_then_space_show:
  "n \<le> bound \<Longrightarrow> field_then_space bound (show_nat n @ CHR '' '' # rest) = Some (n, rest)"
  by (simp add: field_then_space_def from_chars_unsigned_show)

text \<open>
  A marker is read back as it was written: the process id and its creation time over their
  whole unsigned ranges, the time over the whole signed range, and what was known of the VPN.
\<close>

theorem update_marker_roundtrip:
  assumes "installerProcessId m \<noteq> 0" and "installerCreationTime m \<noteq> 0"
    and "- (2 ^ 63) \<le> writtenAt m" and "writtenAt m < 2 ^ 63"
  shows "ParseUpdateMarker (FormatUpdateMarker m) = Some m"
proof -
  let ?v = "case vpn m of Vpn_Connected \<Rightarrow> '' 1'' | NotConnected \<Rightarrow> '' 0'' | Vpn_Unknown \<Rightarrow> ''''"
  have line: "strip_newline (FormatUpdateMarker m) =
      show_nat (unat (installerProcessId m)) @ CHR '' '' # show_nat (unat (installerCreationTime m)) @ CHR '' '' #
      show_int (writtenAt m) @ ?v"
    by (simp add: strip_newline_def FormatUpdateMarker_def butlast_append)
  have "?v = [] \<or> \<not> IsDigit (hd ?v)" by (cases "vpn m") simp_all
  then have tail: "parse_tail (show_int (writtenAt m) @ ?v) = Some (writtenAt m, vpn m)"
    using from_chars_i64_show [OF assms(3,4), of ?v] by (cases "vpn m") (simp_all add: parse_tail_def)
  have "unat (installerProcessId m) \<le> 2 ^ 32 - 1" "unat (installerCreationTime m) \<le> 2 ^ 64 - 1"
    using unsigned_less [of "installerProcessId m", where 'a = nat]
      unsigned_less [of "installerCreationTime m", where 'a = nat] by simp_all
  then show ?thesis using assms(1,2)
    unfolding ParseUpdateMarker_def line
    by (simp add: field_then_space_show tail unat_eq_0)
qed

theorem update_marker_roundtrip_witness:
  "ParseUpdateMarker (FormatUpdateMarker \<lparr>installerProcessId = 4242, installerCreationTime = 133700000000000000,
     writtenAt = 1790866277, vpn = NotConnected\<rparr>) =
   Some \<lparr>installerProcessId = 4242, installerCreationTime = 133700000000000000,
     writtenAt = 1790866277, vpn = NotConnected\<rparr>"
  by (rule update_marker_roundtrip) simp_all

text \<open>
  A start waits only for a live update and never for good: the app stays out exactly when a
  readable marker's installer has not ended and the marker is at most twenty minutes old and not
  more than five minutes in the future; so whatever the probe can see, a marker holds back no start
  made more than twenty minutes after it was written.
\<close>

theorem marker_holds_back_briefly:
  "(Check content probe now = Updating \<longleftrightarrow>
      (\<exists>s m. content = Some s \<and> ParseUpdateMarker s = Some m \<and> probe m \<noteq> Installer_Ended \<and>
        writtenAt m - 300 \<le> now \<and> now \<le> writtenAt m + 1200)) \<and>
    (Check content probe now = Verdict_None \<longleftrightarrow> content = None)"
  by (auto simp: Check_def Judge_def kUpdateMarkerLifetime_def kUpdateMarkerClockSkew_def Let_def
      split: option.splits)

text \<open>
  The note of the VPN is exact: after the hand-off, whatever statuses are pushed, it says
  connected exactly when the state known at the hand-off was up or a pushed status was; it says not
  connected only when a state was known at the hand-off, and never when nothing was.
\<close>

theorem vpn_note_exact:
  fixes n :: VpnNote and answered :: "bool option"
  defines "known \<equiv> (if vnPushed n \<noteq> None then vnPushed n else answered)"
  shows "Note (run StatusPushed (HandOff n answered) ups) =
    (if known = Some True \<or> True \<in> set ups then Vpn_Connected
     else if known = None then Vpn_Unknown else NotConnected)"
proof -
  have "vnUpSinceHandOff (run StatusPushed m ups) = (vnUpSinceHandOff m \<or> True \<in> set ups) \<and>
      vnSource (run StatusPushed m ups) = vnSource m" for m
    by (induction ups arbitrary: m) (auto simp: StatusPushed_def)
  then show ?thesis
    by (auto simp: Note_def HandOff_def known_def Let_def split: option.splits)
qed

end
