(* ===== verification/StopBudget.thy ===== *)
theory StopBudget
  imports Prelude
begin

text \<open>
  Stopping within a budget, \<^verbatim>\<open>Service/StopBudget.h\<close>: the console's escalation ladder, the two
  questions asked about abandoned teardowns, the self-restart latch, and the bounded wait on a
  worker that may never return. Gates are numbers; whether a gate is done, what the clock reads and
  whether the operator has escalated at each pass of a wait are functions of the environment.
\<close>

definition kStopLockBudget :: i64 where "kStopLockBudget = 1000"
definition kSdkTeardownBudget :: i64 where "kSdkTeardownBudget = 6000"
definition kServiceStopWaitHintMillis :: i64 where "kServiceStopWaitHintMillis = 12000"
definition kForcedTeardownBudget :: i64 where "kForcedTeardownBudget = 250"
definition kBudgetPollInterval :: i64 where "kBudgetPollInterval = 50"
definition kConsoleForceGrace :: i64 where "kConsoleForceGrace = 1500"
definition kForcedStopExitCode :: int where "kForcedStopExitCode = 0xC000013A"
definition kSelfRestartExitCode :: int where "kSelfRestartExitCode = 0xE0555201"
definition kSelfRestartGrace :: i64 where "kSelfRestartGrace = 1000"

datatype ConsoleStopAction = Graceful | Force | Terminate

definition DecideConsoleStop :: "int \<Rightarrow> ConsoleStopAction" where
  "DecideConsoleStop press = (if press \<le> 1 then Graceful else if press = 2 then Force else Terminate)"

section \<open>The process-wide flags\<close>

type_synonym gate = nat

record StopState =
  forcedStop :: bool
  teardownAbandoned :: bool
  heldDevices :: "gate list"
  selfRestartPending :: bool

definition ResetStopBudgetForTest :: StopState where
  "ResetStopBudgetForTest = \<lparr>forcedStop = False, teardownAbandoned = False, heldDevices = [], selfRestartPending = False\<rparr>"

definition RequestForcedStop :: "StopState \<Rightarrow> StopState" where
  "RequestForcedStop s = s\<lparr>forcedStop := True\<rparr>"

definition NoteTeardownAbandoned :: "StopState \<Rightarrow> StopState" where
  "NoteTeardownAbandoned s = s\<lparr>teardownAbandoned := True\<rparr>"

datatype AbandonHazard = ProcessExitOnly | HoldsSessionDevice

record AbandonedTeardownSweep =
  outstanding :: nat
  completed_late :: nat

definition NoteSessionDeviceAbandoned :: "StopState \<Rightarrow> gate option \<Rightarrow> StopState" where
  "NoteSessionDeviceAbandoned s g =
    (case g of None \<Rightarrow> s | Some gate \<Rightarrow> s\<lparr>heldDevices := heldDevices s @ [gate]\<rparr>)"

definition SweepAbandonedTeardowns :: "(gate \<Rightarrow> bool) \<Rightarrow> StopState \<Rightarrow> StopState \<times> AbandonedTeardownSweep" where
  "SweepAbandonedTeardowns gate_done s =
    (let before = length (heldDevices s);
         held = filter (\<lambda>g. \<not> gate_done g) (heldDevices s)
     in (s\<lparr>heldDevices := held\<rparr>,
         \<lparr>outstanding = length held, completed_late = before - length held\<rparr>))"

text \<open>The installed handler, if any, and its answer.\<close>

definition RequestSelfRestart :: "(string \<Rightarrow> bool) option \<Rightarrow> string \<Rightarrow> StopState \<Rightarrow> StopState \<times> bool" where
  "RequestSelfRestart handler why s =
    (case handler of None \<Rightarrow> (s, False)
     | Some h \<Rightarrow> (let restarting = h why
                  in (if restarting then s\<lparr>selfRestartPending := True\<rparr> else s, restarting)))"

section \<open>The bounded wait\<close>

definition effective_budget :: "i64 \<Rightarrow> bool \<Rightarrow> i64" where
  "effective_budget budget forced = (if forced then min budget kForcedTeardownBudget else budget)"

text \<open>
  The wait of \<open>RunBounded\<close> from its \<open>i\<close>-th pass: whether the worker finished, and the pass that
  decided. A pass that decides nothing sleeps until \<open>wake_at\<close> or an earlier notification.
\<close>

partial_function (option) bounded_wait ::
  "i64 \<Rightarrow> i64 \<Rightarrow> (nat \<Rightarrow> i64) \<Rightarrow> (nat \<Rightarrow> bool) \<Rightarrow> (nat \<Rightarrow> bool) \<Rightarrow> nat \<Rightarrow> (bool \<times> nat) option" where
  "bounded_wait budget start clock finished forced i =
    (if finished i then Some (True, i)
     else if clock i \<ge> start + effective_budget budget (forced i) then Some (False, i)
     else bounded_wait budget start clock finished forced (Suc i))"

definition wake_at :: "i64 \<Rightarrow> i64 \<Rightarrow> (nat \<Rightarrow> i64) \<Rightarrow> (nat \<Rightarrow> bool) \<Rightarrow> nat \<Rightarrow> i64" where
  "wake_at budget start clock forced i =
    min (start + effective_budget budget (forced i)) (clock i + kBudgetPollInterval)"

text \<open>What \<open>RunBounded\<close> leaves behind once its wait has ended with \<open>ended\<close>.\<close>

definition RunBounded :: "StopState \<Rightarrow> AbandonHazard \<Rightarrow> gate \<Rightarrow> bool \<Rightarrow> StopState \<times> bool" where
  "RunBounded s hazard gate ended =
    (if ended then (s, True)
     else let s1 = NoteTeardownAbandoned s
          in (if hazard = HoldsSessionDevice then NoteSessionDeviceAbandoned s1 (Some gate) else s1, False))"

section \<open>Properties\<close>

lemma stop_fits_wait_hint:
  "kStopLockBudget + 2 * 250 + 150 + kSdkTeardownBudget < kServiceStopWaitHintMillis"
  "kForcedTeardownBudget < kConsoleForceGrace"
  by (simp_all add: kStopLockBudget_def kSdkTeardownBudget_def kServiceStopWaitHintMillis_def
      kForcedTeardownBudget_def kConsoleForceGrace_def)

text \<open>The pass a wait ends at: the first that sees the worker done or the effective budget spent.\<close>

definition ends_at :: "i64 \<Rightarrow> i64 \<Rightarrow> (nat \<Rightarrow> i64) \<Rightarrow> (nat \<Rightarrow> bool) \<Rightarrow> (nat \<Rightarrow> bool) \<Rightarrow> nat \<Rightarrow> bool" where
  "ends_at budget start clock finished forced j \<longleftrightarrow>
    finished j \<or> start + effective_budget budget (forced j) \<le> clock j"

lemma bounded_wait_first:
  assumes "ends_at budget start clock finished forced j" and "i \<le> j"
    and "\<And>k. i \<le> k \<Longrightarrow> k < j \<Longrightarrow> \<not> ends_at budget start clock finished forced k"
  shows "bounded_wait budget start clock finished forced i = Some (finished j, j)"
  using assms(2,3)
proof (induction "j - i" arbitrary: i)
  case 0
  then show ?case using assms(1) by (subst bounded_wait.simps) (auto simp: ends_at_def)
next
  case (Suc d)
  then have "\<not> ends_at budget start clock finished forced i" by simp
  moreover have "bounded_wait budget start clock finished forced (Suc i) = Some (finished j, j)"
    using Suc by (intro Suc.hyps(1)) auto
  ultimately show ?case by (subst bounded_wait.simps) (auto simp: ends_at_def)
qed

text \<open>
  A stop never waits for ever, and an escalation cuts it short. If the clock passes the budget
  at some pass, the wait ends, at the first pass that sees the worker done or the effective budget
  spent, and reports the worker finished exactly when that pass sees it done. If sleeps overrun
  what they were asked for by at most \<open>latency\<close> and the operator has escalated by pass \<open>e\<close>, at
  which the wait is still running, then it ends within \<open>latency\<close> of the collapsed budget, or at
  pass \<open>e\<close> itself.
\<close>

theorem bounded_wait_prompt:
  assumes "start + budget \<le> clock n"
    and "\<And>i. \<not> ends_at budget start clock finished forced i \<Longrightarrow>
      clock (Suc i) \<le> wake_at budget start clock forced i + latency"
    and "\<And>i. e \<le> i \<Longrightarrow> forced i" and "0 \<le> latency"
    and "\<And>k. k < e \<Longrightarrow> \<not> ends_at budget start clock finished forced k"
  shows "\<exists>j\<le>max n e. bounded_wait budget start clock finished forced 0 = Some (finished j, j) \<and>
    ends_at budget start clock finished forced j \<and> e \<le> j \<and>
    clock j \<le> max (clock e) (start + min budget kForcedTeardownBudget + latency)"
proof -
  let ?E = "ends_at budget start clock finished forced"
  have n: "?E n" using assms(1) by (auto simp: ends_at_def effective_budget_def)
  define j where "j = (LEAST k. ?E k)"
  have j: "?E j" "j \<le> n" unfolding j_def using n by (auto intro: LeastI Least_le)
  have first: "\<not> ?E k" if "k < j" for k using not_less_Least that unfolding j_def by blast
  have "e \<le> j" using assms(5) j(1) by (meson not_le)
  have "clock j \<le> max (clock e) (start + min budget kForcedTeardownBudget + latency)"
  proof (cases "j = e")
    case False
    then obtain p where p: "j = Suc p" "e \<le> p" using \<open>e \<le> j\<close> by (cases j) auto
    then have "clock j \<le> start + effective_budget budget (forced p) + latency"
      using assms(2) [OF first, of p] by (auto simp: wake_at_def)
    then show ?thesis using assms(3) [OF p(2)] by (simp add: effective_budget_def)
  qed simp
  moreover have "bounded_wait budget start clock finished forced 0 = Some (finished j, j)"
    using j first by (intro bounded_wait_first) auto
  ultimately show ?thesis using j \<open>e \<le> j\<close> by (intro exI [of _ j]) auto
qed

theorem bounded_wait_prompt_witness:
  "\<exists>j\<le>max 20 3. bounded_wait 600 0 (\<lambda>i. 50 * int i) (\<lambda>_. False) (\<lambda>i. 3 \<le> i) 0 = Some (False, j) \<and>
    ends_at 600 0 (\<lambda>i. 50 * int i) (\<lambda>_. False) (\<lambda>i. 3 \<le> i) j \<and> 3 \<le> j \<and>
    50 * int j \<le> max (50 * int 3) (0 + min 600 kForcedTeardownBudget + 50)"
  by (rule bounded_wait_prompt [of 0 600 "\<lambda>i. 50 * int i" 20 "\<lambda>_. False" "\<lambda>i. 3 \<le> i" 50 3])
    (auto simp: wake_at_def ends_at_def effective_budget_def kForcedTeardownBudget_def kBudgetPollInterval_def)

section \<open>Which devices are held\<close>

datatype TeardownEvent = Abandon gate | Finish gate | Sweep

text \<open>The flags, the gates that are done, and the late completions reported so far.\<close>

type_synonym sweep_world = "StopState \<times> gate list \<times> nat"

fun teardown_step :: "sweep_world \<Rightarrow> TeardownEvent \<Rightarrow> sweep_world" where
  "teardown_step (s, fin, late) (Abandon g) = (fst (RunBounded s HoldsSessionDevice g False), fin, late)"
| "teardown_step (s, fin, late) (Finish g) = (s, g # fin, late)"
| "teardown_step (s, fin, late) Sweep =
    (case SweepAbandonedTeardowns (\<lambda>g. g \<in> set fin) s of (s', r) \<Rightarrow> (s', fin, late + completed_late r))"

definition abandoned :: "TeardownEvent list \<Rightarrow> gate list" where
  "abandoned es = List.map_filter (\<lambda>e. case e of Abandon g \<Rightarrow> Some g | _ \<Rightarrow> None) es"

definition finishes :: "TeardownEvent list \<Rightarrow> gate list" where
  "finishes es = List.map_filter (\<lambda>e. case e of Finish g \<Rightarrow> Some g | _ \<Rightarrow> None) es"

lemma abandoned_snoc: "abandoned (es @ [e]) = abandoned es @ (case e of Abandon g \<Rightarrow> [g] | _ \<Rightarrow> [])"
  by (cases e) (simp_all add: abandoned_def map_filter_def)

lemma finishes_snoc: "finishes (es @ [e]) = finishes es @ (case e of Finish g \<Rightarrow> [g] | _ \<Rightarrow> [])"
  by (cases e) (simp_all add: finishes_def map_filter_def)

definition sweep_inv :: "TeardownEvent list \<Rightarrow> sweep_world \<Rightarrow> bool" where
  "sweep_inv es w \<longleftrightarrow> (case w of (s, fin, late) \<Rightarrow>
    set fin = set (finishes es) \<and>
    filter (\<lambda>g. g \<notin> set fin) (heldDevices s) = filter (\<lambda>g. g \<notin> set fin) (abandoned es) \<and>
    late + length (heldDevices s) = length (abandoned es) \<and>
    (teardownAbandoned s \<longleftrightarrow> abandoned es \<noteq> []))"

lemma filter_notin_insert:
  assumes "filter (\<lambda>g. g \<notin> A) xs = filter (\<lambda>g. g \<notin> A) ys"
  shows "filter (\<lambda>g. g \<noteq> x \<and> g \<notin> A) xs = filter (\<lambda>g. g \<noteq> x \<and> g \<notin> A) ys"
  using arg_cong [OF assms, of "filter (\<lambda>g. g \<noteq> x)"] by (simp add: conj_commute)

lemma sweep_inv_run: "sweep_inv es (run teardown_step (ResetStopBudgetForTest, [], 0) es)"
proof (induction es rule: rev_induct)
  case Nil
  then show ?case
    by (simp add: sweep_inv_def ResetStopBudgetForTest_def abandoned_def finishes_def map_filter_def)
next
  case (snoc e es)
  obtain s fin late where w: "run teardown_step (ResetStopBudgetForTest, [], 0) es = (s, fin, late)"
    by (cases "run teardown_step (ResetStopBudgetForTest, [], 0) es")
  with snoc have inv: "sweep_inv es (s, fin, late)" by simp
  have "sweep_inv (es @ [e]) (teardown_step (s, fin, late) e)"
  proof (cases e)
    case (Abandon g)
    then show ?thesis using inv
      by (auto simp: sweep_inv_def RunBounded_def NoteTeardownAbandoned_def NoteSessionDeviceAbandoned_def
          abandoned_snoc finishes_snoc)
  next
    case (Finish g)
    have f: "filter (\<lambda>g. g \<notin> set fin) (heldDevices s) = filter (\<lambda>g. g \<notin> set fin) (abandoned es)"
      using inv by (auto simp: sweep_inv_def)
    show ?thesis using inv Finish filter_notin_insert [OF f, of g]
      by (auto simp: sweep_inv_def abandoned_snoc finishes_snoc)
  next
    case Sweep
    let ?held = "filter (\<lambda>g. g \<notin> set fin) (heldDevices s)"
    have step: "teardown_step (s, fin, late) e =
        (s\<lparr>heldDevices := ?held\<rparr>, fin, late + (length (heldDevices s) - length ?held))"
      by (simp add: Sweep SweepAbandonedTeardowns_def Let_def)
    have same: "abandoned (es @ [e]) = abandoned es" "finishes (es @ [e]) = finishes es"
      by (simp_all add: Sweep abandoned_snoc finishes_snoc)
    have i: "set fin = set (finishes es)" "?held = filter (\<lambda>g. g \<notin> set fin) (abandoned es)"
      "late + length (heldDevices s) = length (abandoned es)" "teardownAbandoned s \<longleftrightarrow> abandoned es \<noteq> []"
      using inv unfolding sweep_inv_def split_conv by blast+
    show ?thesis unfolding step sweep_inv_def split_conv same
    proof (intro conjI)
      show "filter (\<lambda>g. g \<notin> set fin) (heldDevices (s\<lparr>heldDevices := ?held\<rparr>)) =
          filter (\<lambda>g. g \<notin> set fin) (abandoned es)"
        using i(2) by simp
      show "late + (length (heldDevices s) - length ?held) + length (heldDevices (s\<lparr>heldDevices := ?held\<rparr>)) =
          length (abandoned es)"
        using i(3) length_filter_le [of "\<lambda>g. g \<notin> set fin" "heldDevices s"]
        by (simp del: length_filter_le)
    qed (use i(1,4) in simp_all)
  qed
  then show ?case using w by simp
qed

text \<open>
  A start is refused for a held device only while one is held. After any interleaving of
  abandoned teardowns, workers finishing in any order and sweeps, a sweep counts as outstanding
  exactly the abandoned workers that have not finished; the late completions it has reported so
  far, with those still registered, are all that were abandoned, each reported once; and the
  process may no longer unwind exactly when something was abandoned, however it ended.
\<close>

theorem sweep_never_stale:
  "case run teardown_step (ResetStopBudgetForTest, [], 0) es of (s, fin, late) \<Rightarrow>
    (case SweepAbandonedTeardowns (\<lambda>g. g \<in> set fin) s of (s', r) \<Rightarrow>
       outstanding r = length (filter (\<lambda>g. g \<notin> set (finishes es)) (abandoned es)) \<and>
       late + completed_late r + outstanding r = length (abandoned es) \<and>
       (teardownAbandoned s' \<longleftrightarrow> abandoned es \<noteq> []))"
proof -
  obtain s fin late where w: "run teardown_step (ResetStopBudgetForTest, [], 0) es = (s, fin, late)"
    by (cases "run teardown_step (ResetStopBudgetForTest, [], 0) es")
  have "sweep_inv es (s, fin, late)" using sweep_inv_run [of es] w by simp
  then have i: "set fin = set (finishes es)"
    "filter (\<lambda>g. g \<notin> set fin) (heldDevices s) = filter (\<lambda>g. g \<notin> set fin) (abandoned es)"
    "late + length (heldDevices s) = length (abandoned es)" "teardownAbandoned s \<longleftrightarrow> abandoned es \<noteq> []"
    unfolding sweep_inv_def split_conv by blast+
  show ?thesis
    using i(2-4) length_filter_le [of "\<lambda>g. g \<notin> set fin" "heldDevices s"]
    unfolding w split_conv SweepAbandonedTeardowns_def Let_def i(1) [symmetric]
    by (simp del: length_filter_le)
qed

end
