(* ===== verification/InstanceHandover.thy ===== *)
theory InstanceHandover
  imports Prelude
begin

text \<open>
  How a launch reaches the one running instance, \<^verbatim>\<open>Common/InstanceHandover.h\<close>: the holder's
  activation gate as a transition system whose steps are the sections the source runs under its
  lock, and the launch's own rounds. Launch ids count up from one and never wrap. The gate records,
  beside the source's fields, what is observable: the exiting signal, the work queued on the UI
  thread, the launches that were served and what each \<open>Take\<close> returned.
\<close>

section \<open>Requests\<close>

definition kServeBudget :: i64 where "kServeBudget = 10000"
definition kRedirectBudget :: i64 where "kRedirectBudget = 15000"
definition kExitingHolderBudget :: i64 where "kExitingHolderBudget = 30000"
definition kLaunchRounds :: nat where "kLaunchRounds = 4"
definition kAutostartArgument :: string where "kAutostartArgument = ''--autostart''"
definition kAfterUpdateArgument :: string where "kAfterUpdateArgument = ''--after-update''"
definition kAfterUpdateBudget :: i64 where "kAfterUpdateBudget = 120000"
definition kAfterUpdatePoll :: i64 where "kAfterUpdatePoll = 500"

text \<open>
  The relaunch's wait. \<open>updating i\<close> is the answer to its \<open>i\<close>-th question and \<open>now i\<close> the clock
  read after it.
\<close>

partial_function (option) await_update :: "(nat \<Rightarrow> bool) \<Rightarrow> (nat \<Rightarrow> i64) \<Rightarrow> i64 \<Rightarrow> nat \<Rightarrow> bool option" where
  "await_update updating now deadline i =
    (if \<not> updating i then Some True
     else if now i \<ge> deadline then Some False
     else await_update updating now deadline (Suc i))"

definition AwaitUpdateEnd :: "(nat \<Rightarrow> bool) \<Rightarrow> (nat \<Rightarrow> i64) \<Rightarrow> i64 \<Rightarrow> i64 \<Rightarrow> bool option" where
  "AwaitUpdateEnd updating now start budget = await_update updating now (start + budget) 0"

text \<open>The scan of a command line: the token so far, whether in quotes, whether in a token.\<close>

fun has_argument :: "string \<Rightarrow> string \<Rightarrow> string \<Rightarrow> bool \<Rightarrow> bool \<Rightarrow> bool" where
  "has_argument argument [] token quoted inToken \<longleftrightarrow> inToken \<and> token = argument"
| "has_argument argument (c # cs) token quoted inToken =
    (if code_of c = 34 then has_argument argument cs token (\<not> quoted) True
     else if \<not> quoted \<and> (code_of c = 32 \<or> code_of c = 9)
          then (if inToken \<and> token = argument then True else has_argument argument cs [] quoted False)
     else has_argument argument cs (token @ [c]) quoted True)"

definition HasArgument :: "string \<Rightarrow> string \<Rightarrow> bool" where
  "HasArgument commandLine argument = has_argument argument commandLine [] False False"

record LaunchRequest =
  deepLink :: string
  autostart :: bool

datatype LaunchAction = HandleDeepLink | ShowWindow | TrayOnly

definition ActionFor :: "LaunchRequest \<Rightarrow> LaunchAction" where
  "ActionFor request =
    (if deepLink request \<noteq> [] then HandleDeepLink
     else if autostart request then TrayOnly else ShowWindow)"

section \<open>The activation gate\<close>

datatype GateOutcome = Served | Refused | Undecided

datatype GateState = Gate_Starting | Gate_Open | Closed

record GateLaunch =
  glRequest :: LaunchRequest
  glPosted :: bool
  glOutcome :: GateOutcome
  glAbandoned :: bool

record ActivationGate =
  gState :: GateState
  gLastId :: nat
  gLaunches :: "(nat \<times> GateLaunch) list"
  gSignal :: bool
  gQueue :: "nat list"
  gServed :: "nat list"
  gAnswers :: "(nat \<times> GateOutcome) list"

definition InitGate :: ActivationGate where
  "InitGate = \<lparr>gState = Gate_Starting, gLastId = 0, gLaunches = [], gSignal = False, gQueue = [],
    gServed = [], gAnswers = []\<rparr>"

text \<open>\<open>Take\<close> under the lock: the new id, or none when the launch is refused at once.\<close>

definition TakeLocked :: "ActivationGate \<Rightarrow> LaunchRequest \<Rightarrow> ActivationGate \<times> nat option" where
  "TakeLocked g request =
    (if gState g = Closed then (g, None)
     else let i = gLastId g + 1
          in (g\<lparr>gLastId := i,
                gLaunches := gLaunches g @ [(i, \<lparr>glRequest = request, glPosted = (gState g = Gate_Open),
                  glOutcome = Undecided, glAbandoned = False\<rparr>)]\<rparr>, Some i))"

text \<open>The UI thread's queue accepts the work of a launch.\<close>

definition PostWork :: "ActivationGate \<Rightarrow> nat \<Rightarrow> ActivationGate" where
  "PostWork g i = g\<lparr>gQueue := gQueue g @ [i]\<rparr>"

definition OpenLocked :: "ActivationGate \<Rightarrow> ActivationGate" where
  "OpenLocked g =
    (if gState g \<noteq> Gate_Starting then g
     else g\<lparr>gState := Gate_Open,
            gLaunches := filter (\<lambda>(i, l). \<not> glAbandoned l)
              (map (\<lambda>(i, l). (i, l\<lparr>glOutcome := Served\<rparr>)) (gLaunches g)),
            gServed := gServed g @ map fst (gLaunches g)\<rparr>)"

definition RaiseExitingSignal :: "ActivationGate \<Rightarrow> ActivationGate" where
  "RaiseExitingSignal g = g\<lparr>gSignal := True\<rparr>"

definition refuse :: "GateLaunch \<Rightarrow> GateLaunch" where
  "refuse l = (if glOutcome l = Undecided then l\<lparr>glOutcome := Refused\<rparr> else l)"

definition CloseLocked :: "ActivationGate \<Rightarrow> ActivationGate" where
  "CloseLocked g =
    (if gState g = Closed then g
     else g\<lparr>gState := Closed,
            gLaunches := filter (\<lambda>(i, l). \<not> (glAbandoned l \<and> \<not> glPosted l))
              (map (\<lambda>(i, l). (i, refuse l)) (gLaunches g))\<rparr>)"

definition update_launch :: "nat \<Rightarrow> (GateLaunch \<Rightarrow> GateLaunch) \<Rightarrow> (nat \<times> GateLaunch) list \<Rightarrow> (nat \<times> GateLaunch) list" where
  "update_launch i f ls = map (\<lambda>(j, l). (j, if j = i then f l else l)) ls"

definition erase_launch :: "nat \<Rightarrow> (nat \<times> GateLaunch) list \<Rightarrow> (nat \<times> GateLaunch) list" where
  "erase_launch i ls = filter (\<lambda>(j, l). j \<noteq> i) ls"

definition ServePosted :: "ActivationGate \<Rightarrow> nat \<Rightarrow> ActivationGate" where
  "ServePosted g i =
    (case map_of (gLaunches g) i of
       None \<Rightarrow> g
     | Some l \<Rightarrow>
         let refused = (glOutcome l \<noteq> Undecided);
             g1 = (if refused then g
                   else g\<lparr>gLaunches := update_launch i (\<lambda>l. l\<lparr>glOutcome := Served\<rparr>) (gLaunches g),
                          gServed := gServed g @ [i]\<rparr>)
         in if glAbandoned l then g1\<lparr>gLaunches := erase_launch i (gLaunches g1)\<rparr> else g1)"

text \<open>\<open>Await\<close> once its wait has ended: decided, or at the deadline.\<close>

definition AwaitReturn :: "ActivationGate \<Rightarrow> nat \<Rightarrow> ActivationGate" where
  "AwaitReturn g i =
    (case map_of (gLaunches g) i of
       None \<Rightarrow> g
     | Some l \<Rightarrow>
         if glOutcome l = Undecided
         then g\<lparr>gLaunches := update_launch i (\<lambda>l. l\<lparr>glAbandoned := True\<rparr>) (gLaunches g),
                gAnswers := gAnswers g @ [(i, Undecided)]\<rparr>
         else g\<lparr>gLaunches := erase_launch i (gLaunches g),
                gAnswers := gAnswers g @ [(i, glOutcome l)]\<rparr>)"

text \<open>
  The steps the threads interleave. A close under the lock follows the same thread's raise of the
  signal, so it can happen only with the signal raised; an await returns once per launch.
\<close>

inductive gate_step :: "ActivationGate \<Rightarrow> ActivationGate \<Rightarrow> bool" where
  take: "gate_step g (fst (TakeLocked g request))"
| post: "map_of (gLaunches g) i = Some l \<Longrightarrow> glPosted l \<Longrightarrow> i \<notin> set (gQueue g) \<Longrightarrow> gate_step g (PostWork g i)"
| open_gate: "gate_step g (OpenLocked g)"
| signal: "gate_step g (RaiseExitingSignal g)"
| close: "gSignal g \<Longrightarrow> gate_step g (CloseLocked g)"
| serve: "i \<in> set (gQueue g) \<Longrightarrow> gate_step g ((ServePosted g i)\<lparr>gQueue := remove1 i (gQueue g)\<rparr>)"
| await: "i \<notin> fst ` set (gAnswers g) \<Longrightarrow> gate_step g (AwaitReturn g i)"

inductive_cases gate_stepE: "gate_step g g'"

inductive gate_reachable :: "ActivationGate \<Rightarrow> bool" where
  init: "gate_reachable InitGate"
| step: "gate_reachable g \<Longrightarrow> gate_step g g' \<Longrightarrow> gate_reachable g'"

section \<open>The launch\<close>

datatype RedirectResult = Taken | Redirect_Failed | TimedOut | WaitFailed | HolderGone | Redirect_NotStarted

record RedirectAttempt =
  raResult :: RedirectResult
  raHolderExiting :: bool

datatype Step = Exit | RegisterAgain | AwaitHolderExitThenRegister | Report

definition AfterRedirect :: "RedirectAttempt \<Rightarrow> Step" where
  "AfterRedirect attempt =
    (if raResult attempt = HolderGone then RegisterAgain
     else if raHolderExiting attempt then AwaitHolderExitThenRegister
     else if raResult attempt = Taken then Exit
     else Report)"

datatype LaunchResult = Holder | HandedOver | NoResponse | Launch_Refused | Unreachable
  | Launch_NotStarted | StillClosing | RegistrationFailed | Launch_Updating

definition ReportFor :: "RedirectResult \<Rightarrow> LaunchResult" where
  "ReportFor result =
    (case result of Redirect_Failed \<Rightarrow> Launch_Refused | TimedOut \<Rightarrow> NoResponse | WaitFailed \<Rightarrow> Unreachable
     | Redirect_NotStarted \<Rightarrow> Launch_NotStarted | Taken \<Rightarrow> NoResponse | HolderGone \<Rightarrow> NoResponse)"

text \<open>
  What the launcher answers in each round: the update question at its start and before a wait, the
  key, the redirect, the wait for the holder's exit and the registration.
\<close>

record Launcher =
  updateAtStart :: "nat \<Rightarrow> bool"
  updateBeforeWait :: "nat \<Rightarrow> bool"
  ownsKey :: "nat \<Rightarrow> bool"
  redirect :: "nat \<Rightarrow> RedirectAttempt"
  awaitHolderExit :: "nat \<Rightarrow> bool"
  register :: "nat \<Rightarrow> bool"

function launch_from :: "Launcher \<Rightarrow> nat \<Rightarrow> LaunchResult" where
  "launch_from env round =
    (if updateAtStart env round then Launch_Updating
     else if ownsKey env round then Holder
     else if kLaunchRounds \<le> round then StillClosing
     else case AfterRedirect (redirect env round) of
            Exit \<Rightarrow> HandedOver
          | Report \<Rightarrow> ReportFor (raResult (redirect env round))
          | AwaitHolderExitThenRegister \<Rightarrow>
              if updateBeforeWait env round then Launch_Updating
              else if \<not> awaitHolderExit env round then StillClosing
              else if \<not> register env round then RegistrationFailed
              else launch_from env (Suc round)
          | RegisterAgain \<Rightarrow>
              if \<not> register env round then RegistrationFailed else launch_from env (Suc round))"
  by pat_completeness auto
termination
  by (relation "measure (\<lambda>(env, round). kLaunchRounds - round)") auto

declare launch_from.simps [simp del]

definition Launch :: "Launcher \<Rightarrow> LaunchResult" where
  "Launch env = launch_from env 0"

section \<open>The gate's invariant\<close>

lemma mem_update_launch [simp]:
  "(j, l') \<in> set (update_launch i f ls) \<longleftrightarrow> (\<exists>l. (j, l) \<in> set ls \<and> l' = (if j = i then f l else l))"
  by (induction ls) (auto simp: update_launch_def)

lemma mem_erase_launch [simp]: "(j, l) \<in> set (erase_launch i ls) \<longleftrightarrow> (j, l) \<in> set ls \<and> j \<noteq> i"
  by (auto simp: erase_launch_def)

lemma fst_update_launch [simp]: "map fst (update_launch i f ls) = map fst ls"
  by (auto simp: update_launch_def)

lemma mem_map_launch [simp]:
  "(j, l') \<in> set (map (\<lambda>(i, l). (i, f l)) ls) \<longleftrightarrow> (\<exists>l. (j, l) \<in> set ls \<and> l' = f l)"
  by (induction ls) auto

lemma distinct_fst_filter: "distinct (map fst ls) \<Longrightarrow> distinct (map fst (filter P ls))"
  by (induction ls) auto

lemma distinct_fst_map: "distinct (map fst ls) \<Longrightarrow> distinct (map fst (map (\<lambda>(i, l). (i, f l)) ls))"
  by (simp add: comp_def case_prod_unfold)

text \<open>What holds of every launch in the map, of every answer given, and of the gate as a whole.\<close>

definition launch_ok :: "ActivationGate \<Rightarrow> nat \<Rightarrow> GateLaunch \<Rightarrow> bool" where
  "launch_ok g i l \<longleftrightarrow> 1 \<le> i \<and> i \<le> gLastId g \<and>
    (glOutcome l = Served \<longleftrightarrow> i \<in> set (gServed g)) \<and>
    (glOutcome l = Refused \<longrightarrow> gState g = Closed) \<and>
    (gState g = Closed \<longrightarrow> glOutcome l \<noteq> Undecided) \<and>
    (glAbandoned l \<longrightarrow> (i, Undecided) \<in> set (gAnswers g)) \<and>
    (gState g = Gate_Starting \<longrightarrow> glOutcome l = Undecided)"

definition answer_ok :: "ActivationGate \<Rightarrow> nat \<Rightarrow> GateOutcome \<Rightarrow> bool" where
  "answer_ok g i out \<longleftrightarrow> i \<le> gLastId g \<and>
    (out = Served \<longrightarrow> i \<in> set (gServed g)) \<and>
    (out = Refused \<longrightarrow> i \<notin> set (gServed g) \<and> gState g = Closed) \<and>
    (out \<noteq> Undecided \<longrightarrow> (\<forall>l. (i, l) \<notin> set (gLaunches g)))"

definition gate_lists :: "ActivationGate \<Rightarrow> bool" where
  "gate_lists g \<longleftrightarrow> distinct (map fst (gLaunches g)) \<and> distinct (map fst (gAnswers g)) \<and> distinct (gServed g)"

definition gate_inv :: "ActivationGate \<Rightarrow> bool" where
  "gate_inv g \<longleftrightarrow> gate_lists g \<and>
    (\<forall>i l. (i, l) \<in> set (gLaunches g) \<longrightarrow> launch_ok g i l) \<and>
    (\<forall>i out. (i, out) \<in> set (gAnswers g) \<longrightarrow> answer_ok g i out) \<and>
    (\<forall>i. 1 \<le> i \<and> i \<le> gLastId g \<longrightarrow>
       (\<exists>out. (i, out) \<in> set (gAnswers g)) \<or> (\<exists>l. (i, l) \<in> set (gLaunches g))) \<and>
    (\<forall>i\<in>set (gServed g). i \<le> gLastId g) \<and>
    (gState g = Closed \<longrightarrow> gSignal g) \<and> (gState g = Gate_Starting \<longrightarrow> gServed g = [])"

lemma gate_invI:
  assumes "gate_lists g"
    and "\<And>i l. (i, l) \<in> set (gLaunches g) \<Longrightarrow> launch_ok g i l"
    and "\<And>i out. (i, out) \<in> set (gAnswers g) \<Longrightarrow> answer_ok g i out"
    and "\<And>i. 1 \<le> i \<Longrightarrow> i \<le> gLastId g \<Longrightarrow> (\<exists>out. (i, out) \<in> set (gAnswers g)) \<or> (\<exists>l. (i, l) \<in> set (gLaunches g))"
    and "\<And>i. i \<in> set (gServed g) \<Longrightarrow> i \<le> gLastId g"
    and "gState g = Closed \<Longrightarrow> gSignal g" and "gState g = Gate_Starting \<Longrightarrow> gServed g = []"
  shows "gate_inv g"
  using assms by (auto simp: gate_inv_def)

lemma gate_invD:
  assumes "gate_inv g"
  shows "gate_lists g"
    and "\<And>i l. (i, l) \<in> set (gLaunches g) \<Longrightarrow> launch_ok g i l"
    and "\<And>i out. (i, out) \<in> set (gAnswers g) \<Longrightarrow> answer_ok g i out"
    and "\<And>i. 1 \<le> i \<Longrightarrow> i \<le> gLastId g \<Longrightarrow> (\<exists>out. (i, out) \<in> set (gAnswers g)) \<or> (\<exists>l. (i, l) \<in> set (gLaunches g))"
    and "\<And>i. i \<in> set (gServed g) \<Longrightarrow> i \<le> gLastId g"
    and "gState g = Closed \<Longrightarrow> gSignal g" and "gState g = Gate_Starting \<Longrightarrow> gServed g = []"
  using assms by (auto simp: gate_inv_def)

lemma gate_inv_init: "gate_inv InitGate"
  by (simp add: gate_inv_def gate_lists_def InitGate_def)

lemma gate_inv_take: "gate_inv g \<Longrightarrow> gate_inv (fst (TakeLocked g request))"
proof (cases "gState g = Closed")
  case False
  assume inv: "gate_inv g"
  note D = gate_invD [OF inv]
  let ?l = "\<lparr>glRequest = request, glPosted = (gState g = Gate_Open), glOutcome = Undecided, glAbandoned = False\<rparr>"
  let ?g = "g\<lparr>gLastId := Suc (gLastId g), gLaunches := gLaunches g @ [(Suc (gLastId g), ?l)]\<rparr>"
  have g: "fst (TakeLocked g request) = ?g" using False by (simp add: TakeLocked_def Let_def)
  have fresh: "(Suc (gLastId g), l) \<notin> set (gLaunches g)" "(Suc (gLastId g), out) \<notin> set (gAnswers g)"
    "Suc (gLastId g) \<notin> set (gServed g)" for l out
    using D(2,3,5) by (fastforce simp: launch_ok_def answer_ok_def)+
  have "gate_inv ?g"
  proof (rule gate_invI)
    show "gate_lists ?g" using D(1) fresh(1) by (auto simp: gate_lists_def)
    show "launch_ok ?g i l" if "(i, l) \<in> set (gLaunches ?g)" for i l
      using that D(2) [of i l] fresh(3) False by (auto simp: launch_ok_def)
    show "answer_ok ?g i out" if "(i, out) \<in> set (gAnswers ?g)" for i out
      using that D(3) [of i out] fresh(2) by (auto simp: answer_ok_def)
    show "(\<exists>out. (i, out) \<in> set (gAnswers ?g)) \<or> (\<exists>l. (i, l) \<in> set (gLaunches ?g))"
      if "1 \<le> i" "i \<le> gLastId ?g" for i
      using D(4) [of i] that by (cases "i = Suc (gLastId g)") auto
  qed (use D(5-7) in \<open>auto simp: le_SucI\<close>)
  then show ?thesis by (simp only: g)
qed (simp add: TakeLocked_def)

lemma gate_inv_open: "gate_inv g \<Longrightarrow> gate_inv (OpenLocked g)"
proof (cases "gState g = Gate_Starting")
  case True
  assume inv: "gate_inv g"
  note D = gate_invD [OF inv]
  have s: "gServed g = []" using D(7) True by simp
  show ?thesis
  proof (rule gate_invI)
    show "gate_lists (OpenLocked g)"
      using D(1) True s
      by (auto simp: gate_lists_def OpenLocked_def intro!: distinct_fst_filter distinct_fst_map)
    show "launch_ok (OpenLocked g) i l" if "(i, l) \<in> set (gLaunches (OpenLocked g))" for i l
      using that D(2) True by (fastforce simp: launch_ok_def OpenLocked_def image_iff)
    show "answer_ok (OpenLocked g) i out" if "(i, out) \<in> set (gAnswers (OpenLocked g))" for i out
      using that D(3) [of i out] True s by (auto simp: answer_ok_def OpenLocked_def)
    show "(\<exists>out. (i, out) \<in> set (gAnswers (OpenLocked g))) \<or> (\<exists>l. (i, l) \<in> set (gLaunches (OpenLocked g)))"
      if "1 \<le> i" "i \<le> gLastId (OpenLocked g)" for i
    proof -
      have i: "i \<le> gLastId g" using that(2) True by (simp add: OpenLocked_def)
      from D(4) [OF that(1) i] show ?thesis
      proof (elim disjE exE)
        fix l assume l: "(i, l) \<in> set (gLaunches g)"
        then have "glAbandoned l \<longrightarrow> (i, Undecided) \<in> set (gAnswers g)" using D(2) by (auto simp: launch_ok_def)
        then show ?thesis using l True by (cases "glAbandoned l") (auto simp: OpenLocked_def)
      qed (use True in \<open>auto simp: OpenLocked_def\<close>)
    qed
    show "i \<le> gLastId (OpenLocked g)" if "i \<in> set (gServed (OpenLocked g))" for i
      using that D(2) True s by (auto simp: OpenLocked_def launch_ok_def)
  qed (use True in \<open>simp_all add: OpenLocked_def\<close>)
qed (simp add: OpenLocked_def)

lemma gate_inv_close: "gate_inv g \<Longrightarrow> gSignal g \<Longrightarrow> gate_inv (CloseLocked g)"
proof (cases "gState g = Closed")
  case False
  assume inv: "gate_inv g" and sig: "gSignal g"
  note D = gate_invD [OF inv]
  have r: "glAbandoned (refuse l) = glAbandoned l" "glPosted (refuse l) = glPosted l"
    "glOutcome (refuse l) = (if glOutcome l = Undecided then Refused else glOutcome l)" for l
    by (simp_all add: refuse_def)
  show ?thesis
  proof (rule gate_invI)
    show "gate_lists (CloseLocked g)"
      using D(1) False
      by (auto simp: gate_lists_def CloseLocked_def intro!: distinct_fst_filter distinct_fst_map)
    show "launch_ok (CloseLocked g) i l" if "(i, l) \<in> set (gLaunches (CloseLocked g))" for i l
    proof -
      from that False obtain l0 where l0: "(i, l0) \<in> set (gLaunches g)" "l = refuse l0"
        by (auto simp: CloseLocked_def)
      from D(2) [OF l0(1)] False show ?thesis
        by (cases "glOutcome l0") (auto simp: launch_ok_def CloseLocked_def l0(2) r)
    qed
    show "answer_ok (CloseLocked g) i out" if "(i, out) \<in> set (gAnswers (CloseLocked g))" for i out
      using that D(3) [of i out] False by (auto simp: answer_ok_def CloseLocked_def)
    show "(\<exists>out. (i, out) \<in> set (gAnswers (CloseLocked g))) \<or> (\<exists>l. (i, l) \<in> set (gLaunches (CloseLocked g)))"
      if "1 \<le> i" "i \<le> gLastId (CloseLocked g)" for i
    proof -
      have i: "i \<le> gLastId g" using that(2) False by (simp add: CloseLocked_def)
      from D(4) [OF that(1) i] show ?thesis
      proof (elim disjE exE)
        fix l assume l: "(i, l) \<in> set (gLaunches g)"
        then have "glAbandoned l \<longrightarrow> (i, Undecided) \<in> set (gAnswers g)" using D(2) by (auto simp: launch_ok_def)
        then show ?thesis using l False r by (cases "glAbandoned l") (auto simp: CloseLocked_def)
      qed (use False in \<open>auto simp: CloseLocked_def\<close>)
    qed
    show "i \<le> gLastId (CloseLocked g)" if "i \<in> set (gServed (CloseLocked g))" for i
      using that D(5) False by (auto simp: CloseLocked_def)
  qed (use False sig in \<open>simp_all add: CloseLocked_def\<close>)
qed (simp add: CloseLocked_def)

lemma gate_inv_queue: "gate_inv (g\<lparr>gQueue := q\<rparr>) \<longleftrightarrow> gate_inv g"
  by (simp add: gate_inv_def gate_lists_def launch_ok_def answer_ok_def)

lemma gate_inv_signal: "gate_inv g \<Longrightarrow> gate_inv (RaiseExitingSignal g)"
  by (simp add: gate_inv_def gate_lists_def launch_ok_def answer_ok_def RaiseExitingSignal_def)

lemma distinct_erase: "distinct (map fst ls) \<Longrightarrow> distinct (map fst (erase_launch i ls))"
  unfolding erase_launch_def by (rule distinct_fst_filter)

lemma unique_launch:
  "gate_lists g \<Longrightarrow> (i, l) \<in> set (gLaunches g) \<Longrightarrow> (i, l') \<in> set (gLaunches g) \<Longrightarrow> l = l'"
  unfolding gate_lists_def by (metis eq_key_imp_eq_value)

text \<open>Serving an undecided launch, before an abandoned one is dropped, and the dropping itself.\<close>

lemma gate_inv_mark_served:
  assumes inv: "gate_inv g" and l: "(i, l) \<in> set (gLaunches g)" "glOutcome l = Undecided"
    and st: "gState g \<noteq> Gate_Starting"
  shows "gate_inv (g\<lparr>gLaunches := update_launch i (\<lambda>l. l\<lparr>glOutcome := Served\<rparr>) (gLaunches g),
    gServed := gServed g @ [i]\<rparr>)" (is "gate_inv ?g")
proof (rule gate_invI)
  note D = gate_invD [OF inv]
  have i: "i \<notin> set (gServed g)" "i \<le> gLastId g" "1 \<le> i" "gState g \<noteq> Closed"
    using D(2) [OF l(1)] l(2) by (auto simp: launch_ok_def)
  show "gate_lists ?g" using D(1) i by (auto simp: gate_lists_def)
  show "launch_ok ?g j k" if k: "(j, k) \<in> set (gLaunches ?g)" for j k
  proof -
    from k obtain k0 where k0: "(j, k0) \<in> set (gLaunches g)" "k = (if j = i then k0\<lparr>glOutcome := Served\<rparr> else k0)"
      by auto
    then show ?thesis using D(2) [OF k0(1)] i st by (auto simp: launch_ok_def)
  qed
  show "answer_ok ?g j out" if "(j, out) \<in> set (gAnswers ?g)" for j out
    using that D(3) [of j out] l(1) by (auto simp: answer_ok_def)
  show "(\<exists>out. (j, out) \<in> set (gAnswers ?g)) \<or> (\<exists>l. (j, l) \<in> set (gLaunches ?g))"
    if "1 \<le> j" "j \<le> gLastId ?g" for j
    using D(4) [of j] that by auto
  show "j \<le> gLastId ?g" if "j \<in> set (gServed ?g)" for j using that D(5) i by auto
qed (use gate_invD(6,7) [OF inv] st in simp_all)

lemma gate_inv_erase:
  assumes inv: "gate_inv g" and answered: "(i, out) \<in> set (gAnswers g)"
  shows "gate_inv (g\<lparr>gLaunches := erase_launch i (gLaunches g)\<rparr>)" (is "gate_inv ?g")
proof (rule gate_invI)
  note D = gate_invD [OF inv]
  show "gate_lists ?g" using D(1) by (auto simp: gate_lists_def intro: distinct_erase)
  show "launch_ok ?g j k" if "(j, k) \<in> set (gLaunches ?g)" for j k
    using that D(2) [of j k] by (auto simp: launch_ok_def)
  show "answer_ok ?g j o'" if "(j, o') \<in> set (gAnswers ?g)" for j o'
    using that D(3) [of j o'] by (auto simp: answer_ok_def)
  show "(\<exists>out. (j, out) \<in> set (gAnswers ?g)) \<or> (\<exists>l. (j, l) \<in> set (gLaunches ?g))"
    if "1 \<le> j" "j \<le> gLastId ?g" for j
    using D(4) [of j] that answered by (cases "j = i") auto
qed (use gate_invD(5-7) [OF inv] in auto)

lemma gate_inv_serve: "gate_inv g \<Longrightarrow> gState g \<noteq> Gate_Starting \<Longrightarrow> gate_inv (ServePosted g i)"
proof (cases "map_of (gLaunches g) i")
  case None
  then show "gate_inv g \<Longrightarrow> ?thesis" by (simp add: ServePosted_def)
next
  case (Some l)
  assume inv: "gate_inv g" and st: "gState g \<noteq> Gate_Starting"
  have l: "(i, l) \<in> set (gLaunches g)" using Some by (rule map_of_SomeD)
  have ab: "glAbandoned l \<Longrightarrow> (i, Undecided) \<in> set (gAnswers g)"
    using gate_invD(2) [OF inv l] by (simp add: launch_ok_def)
  show ?thesis
  proof (cases "glOutcome l = Undecided")
    case True
    note m = gate_inv_mark_served [OF inv l True st]
    show ?thesis using m gate_inv_erase [OF m] ab True Some by (auto simp: ServePosted_def Let_def)
  next
    case False
    then show ?thesis using inv gate_inv_erase [OF inv] ab Some by (auto simp: ServePosted_def Let_def)
  qed
qed

lemma gate_inv_await:
  assumes inv: "gate_inv g" and new: "i \<notin> fst ` set (gAnswers g)"
  shows "gate_inv (AwaitReturn g i)"
proof (cases "map_of (gLaunches g) i")
  case (Some l)
  note D = gate_invD [OF inv]
  have l: "(i, l) \<in> set (gLaunches g)" using Some by (rule map_of_SomeD)
  note ok = D(2) [OF l]
  have uniq: "k = l" if "(i, k) \<in> set (gLaunches g)" for k using unique_launch [OF D(1) that l] .
  show ?thesis
  proof (rule gate_invI)
    show "gate_lists (AwaitReturn g i)"
      using D(1) new Some by (auto simp: gate_lists_def AwaitReturn_def intro: distinct_erase)
    show "launch_ok (AwaitReturn g i) j k" if "(j, k) \<in> set (gLaunches (AwaitReturn g i))" for j k
    proof (cases "glOutcome l = Undecided")
      case True
      with that Some obtain k0 where k0: "(j, k0) \<in> set (gLaunches g)"
        "k = (if j = i then k0\<lparr>glAbandoned := True\<rparr> else k0)" by (auto simp: AwaitReturn_def)
      show ?thesis using D(2) [OF k0(1)] True Some by (auto simp: launch_ok_def AwaitReturn_def k0(2))
    next
      case False
      with that Some have k: "(j, k) \<in> set (gLaunches g)" by (auto simp: AwaitReturn_def)
      show ?thesis using D(2) [OF k] False Some by (auto simp: launch_ok_def AwaitReturn_def)
    qed
    show "answer_ok (AwaitReturn g i) j out" if "(j, out) \<in> set (gAnswers (AwaitReturn g i))" for j out
      using that D(3) [of j out] ok Some
      by (cases "glOutcome l") (auto simp: answer_ok_def launch_ok_def AwaitReturn_def)
    show "(\<exists>out. (j, out) \<in> set (gAnswers (AwaitReturn g i))) \<or> (\<exists>l. (j, l) \<in> set (gLaunches (AwaitReturn g i)))"
      if "1 \<le> j" "j \<le> gLastId (AwaitReturn g i)" for j
      using D(4) [of j] that Some by (cases "j = i") (auto simp: AwaitReturn_def split: if_splits)
  qed (use D(5-7) Some in \<open>auto simp: AwaitReturn_def split: if_splits\<close>)
qed (use inv in \<open>simp add: AwaitReturn_def\<close>)

text \<open>Work is queued only once the gate has opened.\<close>

definition queue_inv :: "ActivationGate \<Rightarrow> bool" where
  "queue_inv g \<longleftrightarrow> (gState g = Gate_Starting \<longrightarrow> gQueue g = [] \<and> (\<forall>i l. (i, l) \<in> set (gLaunches g) \<longrightarrow> \<not> glPosted l))"

lemma queue_inv_step:
  assumes "gate_step g g'" and "queue_inv g"
  shows "queue_inv g'"
  using assms
proof cases
  case (take request)
  then show ?thesis using assms(2) by (auto simp: queue_inv_def TakeLocked_def Let_def)
next
  case (post i l)
  have "(i, l) \<in> set (gLaunches g)" using post(2) by (rule map_of_SomeD)
  then show ?thesis using assms(2) post by (auto simp: queue_inv_def PostWork_def)
next
  case (serve i)
  then have "gState g \<noteq> Gate_Starting" using assms(2) by (auto simp: queue_inv_def)
  then show ?thesis using serve
    by (auto simp: queue_inv_def ServePosted_def Let_def split: option.splits)
next
  case (await i)
  then show ?thesis using assms(2)
    by (auto simp: queue_inv_def AwaitReturn_def split: option.splits)
qed (use assms(2) in \<open>auto simp: queue_inv_def OpenLocked_def CloseLocked_def RaiseExitingSignal_def\<close>)

lemma gate_inv_step:
  assumes "gate_step g g'" and "queue_inv g" and "gate_inv g"
  shows "gate_inv g'"
  using assms(1)
proof cases
  case (serve i)
  then have "gState g \<noteq> Gate_Starting" using assms(2) by (auto simp: queue_inv_def)
  then show ?thesis using gate_inv_serve [OF assms(3)] serve by (simp add: gate_inv_queue)
qed (use assms(3) in \<open>auto intro: gate_inv_take gate_inv_open gate_inv_signal gate_inv_close gate_inv_await
      simp: PostWork_def gate_inv_queue\<close>)

lemma gate_reachable_inv: "gate_reachable g \<Longrightarrow> gate_inv g \<and> queue_inv g"
proof (induction rule: gate_reachable.induct)
  case init
  then show ?case by (simp add: gate_inv_init) (simp add: queue_inv_def InitGate_def)
next
  case (step g g')
  then show ?case using gate_inv_step queue_inv_step by blast
qed

text \<open>
  No launch is lost or acted on twice, however the threads interleave: a launch is served at
  most once and its \<open>Take\<close> answers at most once; an answer of served means that it was, and an
  answer of refused means that it was not and never will be, with the exiting signal already
  raised; a closed gate leaves no launch undecided; and the entry of every launch whose \<open>Take\<close> has
  not answered is still there for it to read.
\<close>

theorem handover_exact:
  assumes "gate_reachable g"
  shows "distinct (gServed g) \<and> distinct (map fst (gAnswers g)) \<and>
    (\<forall>i. (i, Served) \<in> set (gAnswers g) \<longrightarrow> i \<in> set (gServed g)) \<and>
    (\<forall>i. (i, Refused) \<in> set (gAnswers g) \<longrightarrow> i \<notin> set (gServed g) \<and> gSignal g) \<and>
    (gState g = Closed \<longrightarrow> (\<forall>i l. (i, l) \<in> set (gLaunches g) \<longrightarrow> glOutcome l \<noteq> Undecided)) \<and>
    (\<forall>i. 1 \<le> i \<and> i \<le> gLastId g \<and> i \<notin> fst ` set (gAnswers g) \<longrightarrow> (\<exists>l. (i, l) \<in> set (gLaunches g)))"
proof -
  have inv: "gate_inv g" using gate_reachable_inv [OF assms] by simp
  note D = gate_invD [OF inv]
  show ?thesis
  proof (intro conjI allI impI)
    show "distinct (gServed g)" "distinct (map fst (gAnswers g))" using D(1) by (simp_all add: gate_lists_def)
    show "\<exists>l. (i, l) \<in> set (gLaunches g)" if "1 \<le> i \<and> i \<le> gLastId g \<and> i \<notin> fst ` set (gAnswers g)" for i
      using D(4) [of i] that by force
  qed (use D(2,3,6) in \<open>auto simp: launch_ok_def answer_ok_def\<close>)
qed

definition exampleGate :: ActivationGate where
  "exampleGate = AwaitReturn (CloseLocked (RaiseExitingSignal
     (fst (TakeLocked InitGate \<lparr>deepLink = [], autostart = False\<rparr>)))) 1"

lemma exampleGate_reachable: "gate_reachable exampleGate"
  unfolding exampleGate_def
proof (intro gate_reachable.step [OF _ gate_step.await] gate_reachable.step [OF _ gate_step.close]
    gate_reachable.step [OF _ gate_step.signal] gate_reachable.step [OF _ gate_step.take] gate_reachable.init)
qed (simp_all add: RaiseExitingSignal_def CloseLocked_def TakeLocked_def InitGate_def Let_def)

theorem handover_exact_witness:
  "gAnswers exampleGate = [(1, Refused)] \<and> 1 \<notin> set (gServed exampleGate) \<and> gSignal exampleGate"
proof -
  have a: "gAnswers exampleGate = [(1, Refused)]"
    by (simp add: exampleGate_def AwaitReturn_def CloseLocked_def RaiseExitingSignal_def TakeLocked_def
        InitGate_def refuse_def Let_def)
  then show ?thesis using handover_exact [OF exampleGate_reachable] by auto
qed

section \<open>The launch's rounds\<close>

text \<open>
  A launch always ends, after at most five rounds, and says only what is so: it starts the app
  only as the key's holder with no installer running; it ends as handed over only when a holder
  that is not exiting took it; and it reports an unresponsive, refusing, unreachable or unstartable
  instance only of one that runs, is not exiting and did not take it. An exiting holder is waited
  out instead.
\<close>

theorem launch_result_honest:
  "\<exists>round\<le>kLaunchRounds.
    (case Launch env of
       Holder \<Rightarrow> ownsKey env round \<and> \<not> updateAtStart env round
     | HandedOver \<Rightarrow> raResult (redirect env round) = Taken \<and> \<not> raHolderExiting (redirect env round)
     | Launch_Updating \<Rightarrow> updateAtStart env round \<or> updateBeforeWait env round
     | StillClosing \<Rightarrow> round = kLaunchRounds \<or>
         raHolderExiting (redirect env round) \<and> \<not> awaitHolderExit env round
     | RegistrationFailed \<Rightarrow> \<not> register env round
     | r \<Rightarrow> r = ReportFor (raResult (redirect env round)) \<and>
         raResult (redirect env round) \<notin> {Taken, HolderGone} \<and> \<not> raHolderExiting (redirect env round))"
  (is "\<exists>round\<le>_. ?P (Launch env) round")
proof -
  have "\<exists>k\<le>kLaunchRounds. ?P (launch_from env round) k" if "round \<le> kLaunchRounds" for round
    using that
  proof (induction "kLaunchRounds - round" arbitrary: round)
    case 0
    then have r: "round = kLaunchRounds" by simp
    then have "?P (launch_from env round) round" by (subst launch_from.simps) simp
    then show ?case using r by blast
  next
    case (Suc d)
    then have r: "round < kLaunchRounds" by simp
    then have next_round: "\<exists>k\<le>kLaunchRounds. ?P (launch_from env (Suc round)) k" using Suc by simp
    have "?P (launch_from env round) round \<or> launch_from env round = launch_from env (Suc round)"
      using r
      by (subst (1 2) launch_from.simps, cases "raResult (redirect env round)")
        (simp_all add: AfterRedirect_def ReportFor_def)
    then show ?case using next_round r by (metis less_imp_le_nat)
  qed
  then show ?thesis unfolding Launch_def by simp
qed

end
