(* ===== verification/NetworkCountry.thy ===== *)
theory NetworkCountry
  imports Prelude
begin

text \<open>
  The network country of \<^verbatim>\<open>Common/NetworkCountry.h\<close>: what the service takes off the pipe, the mobile
  country code table with its binary search, the elected default route, and the decision from what
  the mobile broadband adapter answered. \<^verbatim>\<open>std::lower_bound\<close> is modelled as the library's halving of
  the range; data class and interface constants are 32-bit words.
\<close>

unbundle bit_operations_syntax

section \<open>The reading\<close>

definition kSourceMobileBroadband :: string where "kSourceMobileBroadband = ''mobile-broadband''"
definition kSourceNoDefaultRoute :: string where "kSourceNoDefaultRoute = ''no-default-route''"
definition kSourceNotMobileBroadband :: string where "kSourceNotMobileBroadband = ''not-mobile-broadband''"
definition kSourceUnreadable :: string where "kSourceUnreadable = ''mobile-broadband-unreadable''"
definition kSourceNot3gpp :: string where "kSourceNot3gpp = ''mobile-broadband-not-3gpp''"
definition kSourceNotRegistered :: string where "kSourceNotRegistered = ''mobile-broadband-not-registered''"
definition kSourceUnknownMcc :: string where "kSourceUnknownMcc = ''mobile-broadband-unknown-mcc''"
definition kSourceUnknown :: string where "kSourceUnknown = ''unknown''"

definition known_sources :: "string list" where
  "known_sources = [kSourceMobileBroadband, kSourceNoDefaultRoute, kSourceNotMobileBroadband,
    kSourceUnreadable, kSourceNot3gpp, kSourceNotRegistered, kSourceUnknownMcc]"

record Reading =
  rdCode :: string
  rdSource :: string

definition lower_letter :: "char \<Rightarrow> char option" where
  "lower_letter c =
    (if 65 \<le> code_of c \<and> code_of c \<le> 90 then Some (char_of (code_of c + 32))
     else if 97 \<le> code_of c \<and> code_of c \<le> 122 then Some c else None)"

fun fold_code :: "string \<Rightarrow> string \<Rightarrow> string" where
  "fold_code out [] = out"
| "fold_code out (c # cs) = (case lower_letter c of None \<Rightarrow> [] | Some d \<Rightarrow> fold_code (out @ [d]) cs)"

definition CodeOrEmpty :: "string \<Rightarrow> string" where
  "CodeOrEmpty code = (if length code \<noteq> 2 then [] else fold_code [] code)"

definition SourceOrUnknown :: "string \<Rightarrow> string" where
  "SourceOrUnknown source = (case find (\<lambda>known. source = known) known_sources of
    Some known \<Rightarrow> known | None \<Rightarrow> kSourceUnknown)"

definition Normalized :: "string \<Rightarrow> string \<Rightarrow> Reading" where
  "Normalized code source = \<lparr>rdCode = CodeOrEmpty code, rdSource = SourceOrUnknown source\<rparr>"

section \<open>The mobile country code\<close>

type_synonym MccCountry = "nat \<times> string"

definition kMccCountriesLow :: "MccCountry list" where
  "kMccCountriesLow = [
    (202, ''gr''), (204, ''nl''), (206, ''be''), (208, ''fr''), (212, ''mc''), (213, ''ad''),
    (214, ''es''), (216, ''hu''), (218, ''ba''), (219, ''hr''), (220, ''rs''), (221, ''xk''),
    (222, ''it''), (225, ''va''), (226, ''ro''), (228, ''ch''), (230, ''cz''), (231, ''sk''),
    (232, ''at''), (234, ''gb''), (235, ''gb''), (238, ''dk''), (240, ''se''), (242, ''no''),
    (244, ''fi''), (246, ''lt''), (247, ''lv''), (248, ''ee''), (250, ''ru''), (255, ''ua''),
    (257, ''by''), (259, ''md''), (260, ''pl''), (262, ''de''), (266, ''gi''), (268, ''pt''),
    (270, ''lu''), (272, ''ie''), (274, ''is''), (276, ''al''), (278, ''mt''), (280, ''cy''),
    (282, ''ge''), (283, ''am''), (284, ''bg''), (286, ''tr''), (288, ''fo''), (289, ''ge''),
    (290, ''gl''), (292, ''sm''), (293, ''si''), (294, ''mk''), (295, ''li''), (297, ''me''),
    (302, ''ca''), (308, ''pm''), (310, ''us''), (311, ''us''), (312, ''us''), (313, ''us''),
    (314, ''us''), (315, ''us''), (316, ''us''), (330, ''pr''), (332, ''vi''), (334, ''mx''),
    (338, ''jm''), (340, ''gp''), (342, ''bb''), (344, ''ag''), (346, ''ky''), (348, ''vg''),
    (350, ''bm''), (352, ''gd''), (354, ''ms''), (356, ''kn''), (358, ''lc''), (360, ''vc''),
    (362, ''cw''), (363, ''aw''), (364, ''bs''), (365, ''ai''), (366, ''dm''), (368, ''cu''),
    (370, ''do''), (372, ''ht''), (374, ''tt''), (376, ''tc''), (400, ''az''), (401, ''kz''),
    (402, ''bt''), (404, ''in''), (405, ''in''), (406, ''in''), (410, ''pk''), (412, ''af''),
    (413, ''lk''), (414, ''mm''), (415, ''lb''), (416, ''jo''), (417, ''sy''), (418, ''iq''),
    (419, ''kw''), (420, ''sa''), (421, ''ye''), (422, ''om''), (423, ''ps''), (424, ''ae''),
    (425, ''il''), (426, ''bh''), (427, ''qa''), (428, ''mn''), (429, ''np''), (430, ''ae''),
    (431, ''ae''), (432, ''ir''), (434, ''uz''), (436, ''tj''), (437, ''kg''), (438, ''tm''),
    (440, ''jp''), (441, ''jp''), (450, ''kr''), (452, ''vn''), (454, ''hk''), (455, ''mo''),
    (456, ''kh''), (457, ''la''), (460, ''cn''), (461, ''cn''), (466, ''tw''), (467, ''kp''),
    (470, ''bd''), (472, ''mv''), (502, ''my''), (505, ''au''), (510, ''id''), (514, ''tl''),
    (515, ''ph''), (520, ''th'')]"

definition kMccCountriesHigh :: "MccCountry list" where
  "kMccCountriesHigh = [
    (525, ''sg''), (528, ''bn''), (530, ''nz''), (534, ''mp''), (535, ''gu''), (536, ''nr''),
    (537, ''pg''), (539, ''to''), (540, ''sb''), (541, ''vu''), (542, ''fj''), (543, ''wf''),
    (544, ''as''), (545, ''ki''), (546, ''nc''), (547, ''pf''), (548, ''ck''), (549, ''ws''),
    (550, ''fm''), (551, ''mh''), (552, ''pw''), (553, ''tv''), (554, ''tk''), (555, ''nu''),
    (602, ''eg''), (603, ''dz''), (604, ''ma''), (605, ''tn''), (606, ''ly''), (607, ''gm''),
    (608, ''sn''), (609, ''mr''), (610, ''ml''), (611, ''gn''), (612, ''ci''), (613, ''bf''),
    (614, ''ne''), (615, ''tg''), (616, ''bj''), (617, ''mu''), (618, ''lr''), (619, ''sl''),
    (620, ''gh''), (621, ''ng''), (622, ''td''), (623, ''cf''), (624, ''cm''), (625, ''cv''),
    (626, ''st''), (627, ''gq''), (628, ''ga''), (629, ''cg''), (630, ''cd''), (631, ''ao''),
    (632, ''gw''), (633, ''sc''), (634, ''sd''), (635, ''rw''), (636, ''et''), (637, ''so''),
    (638, ''dj''), (639, ''ke''), (640, ''tz''), (641, ''ug''), (642, ''bi''), (643, ''mz''),
    (645, ''zm''), (646, ''mg''), (647, ''re''), (648, ''zw''), (649, ''na''), (650, ''mw''),
    (651, ''ls''), (652, ''bw''), (653, ''sz''), (654, ''km''), (655, ''za''), (657, ''er''),
    (658, ''sh''), (659, ''ss''), (702, ''bz''), (704, ''gt''), (706, ''sv''), (708, ''hn''),
    (710, ''ni''), (712, ''cr''), (714, ''pa''), (716, ''pe''), (722, ''ar''), (724, ''br''),
    (730, ''cl''), (732, ''co''), (734, ''ve''), (736, ''bo''), (738, ''gy''), (740, ''ec''),
    (742, ''gf''), (744, ''py''), (746, ''sr''), (748, ''uy''), (750, ''fk'')]"

definition kMccCountries :: "MccCountry list" where
  "kMccCountries = kMccCountriesLow @ kMccCountriesHigh"

function lower_bound :: "MccCountry list \<Rightarrow> nat \<Rightarrow> nat \<Rightarrow> nat \<Rightarrow> nat" where
  "lower_bound table v first count =
    (if count = 0 then first
     else let half = count div 2; it = first + half
          in if fst (table ! it) < v then lower_bound table v (it + 1) (count - (half + 1))
             else lower_bound table v first half)"
  by pat_completeness auto
termination
  by (relation "measure (\<lambda>(_, _, _, count). count)") auto

declare lower_bound.simps [simp del]

definition CountryForMcc :: "string \<Rightarrow> string" where
  "CountryForMcc mcc =
    (if length mcc \<noteq> 3 then []
     else if \<not> list_all IsDigit mcc then []
     else let v = dec_value mcc;
              it = lower_bound kMccCountries v 0 (length kMccCountries)
          in if it = length kMccCountries \<or> fst (kMccCountries ! it) \<noteq> v then []
             else snd (kMccCountries ! it))"

definition CountryForProviderId :: "string \<Rightarrow> string" where
  "CountryForProviderId providerId =
    (if length providerId \<noteq> 5 \<and> length providerId \<noteq> 6 then []
     else if \<not> list_all IsDigit providerId then []
     else CountryForMcc (take 3 providerId))"

section \<open>The default route\<close>

record DefaultRoute =
  drIfIndex :: u32
  drMetric :: u64
  drConnected :: bool

definition elect_step :: "u32 \<times> u64 \<Rightarrow> DefaultRoute \<Rightarrow> u32 \<times> u64" where
  "elect_step acc route =
    (case acc of (best, bestMetric) \<Rightarrow>
       if \<not> drConnected route \<or> drIfIndex route = 0 then (best, bestMetric)
       else if best = 0 \<or> drMetric route < bestMetric then (drIfIndex route, drMetric route)
       else (best, bestMetric))"

definition ElectDefaultRoute :: "DefaultRoute list \<Rightarrow> u32" where
  "ElectDefaultRoute routes = fst (foldl elect_step (0, 0) routes)"

section \<open>The mobile broadband adapter\<close>

definition kIfTypeWwanPp :: u32 where "kIfTypeWwanPp = 243"
definition kIfTypeWwanPp2 :: u32 where "kIfTypeWwanPp2 = 244"
definition kPhysicalMediumWirelessWan :: u32 where "kPhysicalMediumWirelessWan = 8"

definition IsMobileBroadbandInterface :: "u32 \<Rightarrow> u32 \<Rightarrow> bool" where
  "IsMobileBroadbandInterface ifType physicalMedium \<longleftrightarrow>
    ifType = kIfTypeWwanPp \<or> ifType = kIfTypeWwanPp2 \<or> physicalMedium = kPhysicalMediumWirelessWan"

definition kRegisterStateHome :: u32 where "kRegisterStateHome = 3"
definition kRegisterStateRoaming :: u32 where "kRegisterStateRoaming = 4"
definition kRegisterStatePartner :: u32 where "kRegisterStatePartner = 5"

definition IsRegistered :: "u32 \<Rightarrow> bool" where
  "IsRegistered registerState \<longleftrightarrow> registerState = kRegisterStateHome \<or>
    registerState = kRegisterStateRoaming \<or> registerState = kRegisterStatePartner"

definition kDataClass3gpp :: u32 where "kDataClass3gpp = 0x000000FF"
definition kDataClass3gpp2 :: u32 where "kDataClass3gpp2 = 0x007F0000"

definition Is3gppDataClass :: "u32 \<Rightarrow> bool" where
  "Is3gppDataClass dataClass \<longleftrightarrow> dataClass AND kDataClass3gpp \<noteq> 0 \<and> dataClass AND kDataClass3gpp2 = 0"

definition bare_guid :: "string \<Rightarrow> string" where
  "bare_guid s = (if length s \<ge> 2 \<and> hd s = CHR ''{'' \<and> last s = CHR ''}'' then butlast (tl s) else s)"

definition upper_letter :: "char \<Rightarrow> char" where
  "upper_letter c = (if 97 \<le> code_of c \<and> code_of c \<le> 122 then char_of (code_of c - 32) else c)"

definition SameInterfaceGuid :: "string \<Rightarrow> string \<Rightarrow> bool" where
  "SameInterfaceGuid a0 b0 =
    (let a = bare_guid a0; b = bare_guid b0
     in if a = [] \<or> length a \<noteq> length b then False
        else list_all2 (\<lambda>x y. upper_letter x = upper_letter y) a b)"

section \<open>The decision\<close>

record MobileBroadbandFacts =
  mfDefaultRoute :: bool
  mfMobileBroadband :: bool
  mfReadable :: bool
  mfRegisterState :: u32
  mfDataClass :: u32
  mfProviderId :: string

definition ReadingFor :: "MobileBroadbandFacts \<Rightarrow> Reading" where
  "ReadingFor facts =
    (let none = (\<lambda>source. \<lparr>rdCode = [], rdSource = source\<rparr>) in
     if \<not> mfDefaultRoute facts then none kSourceNoDefaultRoute
     else if \<not> mfMobileBroadband facts then none kSourceNotMobileBroadband
     else if \<not> mfReadable facts then none kSourceUnreadable
     else if \<not> IsRegistered (mfRegisterState facts) then none kSourceNotRegistered
     else if \<not> Is3gppDataClass (mfDataClass facts) then none kSourceNot3gpp
     else let code = CountryForProviderId (mfProviderId facts)
          in if code = [] then none kSourceUnknownMcc
             else \<lparr>rdCode = code, rdSource = kSourceMobileBroadband\<rparr>)"

section \<open>The search finds exactly the table\<close>

lemma lower_bound_spec:
  assumes sorted: "sorted (map fst table)" and "first + count \<le> length table"
    and "\<And>i. i < first \<Longrightarrow> fst (table ! i) < v"
    and "\<And>i. first + count \<le> i \<Longrightarrow> i < length table \<Longrightarrow> v \<le> fst (table ! i)"
  shows "lower_bound table v first count \<le> length table \<and>
    (\<forall>i<lower_bound table v first count. fst (table ! i) < v) \<and>
    (\<forall>i. lower_bound table v first count \<le> i \<and> i < length table \<longrightarrow> v \<le> fst (table ! i))"
  using assms(2-4)
proof (induction count arbitrary: first rule: less_induct)
  case (less count)
  have mono: "fst (table ! i) \<le> fst (table ! j)" if "i \<le> j" "j < length table" for i j
    using sorted_nth_mono [OF sorted, of i j] that by simp
  show ?case
  proof (cases "count = 0")
    case True
    then show ?thesis using less.prems by (subst (1 2 3) lower_bound.simps) auto
  next
    case False
    define it where "it = first + count div 2"
    have it: "it < first + count" "it < length table" using False less.prems(1) by (auto simp: it_def)
    show ?thesis
    proof (cases "fst (table ! it) < v")
      case True
      then have step: "lower_bound table v first count = lower_bound table v (it + 1) (count - (count div 2 + 1))"
        using False by (subst lower_bound.simps) (simp add: it_def Let_def)
      have rest: "it + 1 + (count - (count div 2 + 1)) = first + count" using it False by (simp add: it_def)
      have below: "fst (table ! i) < v" if "i < it + 1" for i
        using mono [of i it] that it True by auto
      show ?thesis unfolding step
        using False below rest less.prems by (intro less.IH) (simp_all add: rest)
    next
      case ge: False
      then have step: "lower_bound table v first count = lower_bound table v first (count div 2)"
        using False by (subst lower_bound.simps) (simp add: it_def Let_def)
      have above: "v \<le> fst (table ! i)" if "first + count div 2 \<le> i" "i < length table" for i
        using mono [of it i] that ge by (simp add: it_def)
      show ?thesis unfolding step
        using False above less.prems by (intro less.IH) auto
    qed
  qed
qed

text \<open>A check of neighbours, linear in the table.\<close>

fun ascending :: "nat list \<Rightarrow> bool" where
  "ascending (a # b # xs) = (a < b \<and> ascending (b # xs))"
| "ascending _ = True"

lemma ascending_sorted: "ascending xs \<Longrightarrow> sorted_wrt (<) xs"
  by (induction xs rule: ascending.induct) (auto dest: less_trans)

lemma mcc_table_sorted: "sorted (map fst kMccCountries) \<and> distinct (map fst kMccCountries)"
proof -
  have "ascending (map fst kMccCountries)"
    by (simp add: kMccCountries_def kMccCountriesLow_def kMccCountriesHigh_def)
  then show ?thesis using ascending_sorted by (simp add: strict_sorted_iff)
qed

lemma lower_pair:
  "97 \<le> code_of a \<Longrightarrow> code_of a \<le> 122 \<Longrightarrow> 97 \<le> code_of b \<Longrightarrow> code_of b \<le> 122 \<Longrightarrow>
    CodeOrEmpty [a, b] = [a, b]"
  by (simp add: CodeOrEmpty_def lower_letter_def)

lemma mcc_codes_wellformed: "list_all (\<lambda>(m, c). CodeOrEmpty c = c) kMccCountries"
  by (simp add: kMccCountries_def kMccCountriesLow_def kMccCountriesHigh_def lower_pair)

text \<open>
  The search answers what the table says: a three-digit code maps to the country assigned to
  it, a code with no assignment to none, and anything that is not three digits to none; what it
  answers is always empty or a lower-case two-letter code, which the pipe's normalization keeps.
\<close>

theorem mcc_search_exact:
  "CountryForMcc mcc =
      (if length mcc = 3 \<and> list_all IsDigit mcc
       then (case map_of kMccCountries (dec_value mcc) of Some code \<Rightarrow> code | None \<Rightarrow> []) else []) \<and>
    CodeOrEmpty (CountryForMcc mcc) = CountryForMcc mcc"
proof -
  let ?v = "dec_value mcc" and ?n = "length kMccCountries"
  let ?it = "lower_bound kMccCountries ?v 0 ?n"
  have spec: "?it \<le> ?n" "\<And>i. i < ?it \<Longrightarrow> fst (kMccCountries ! i) < ?v"
    "\<And>i. ?it \<le> i \<Longrightarrow> i < ?n \<Longrightarrow> ?v \<le> fst (kMccCountries ! i)"
    using lower_bound_spec [of kMccCountries 0 ?n ?v] mcc_table_sorted by auto
  have lookup: "map_of kMccCountries ?v =
      (if ?it = ?n \<or> fst (kMccCountries ! ?it) \<noteq> ?v then None else Some (snd (kMccCountries ! ?it)))"
  proof (cases "?it = ?n \<or> fst (kMccCountries ! ?it) \<noteq> ?v")
    case True
    have "?v \<notin> fst ` set kMccCountries"
    proof
      assume "?v \<in> fst ` set kMccCountries"
      then obtain i where i: "i < ?n" "fst (kMccCountries ! i) = ?v" by (auto simp: in_set_conv_nth)
      then have "?it \<le> i" using spec(2) [of i] i(2) by (metis less_irrefl not_le)
      then have "?it < ?n" "fst (kMccCountries ! ?it) \<le> fst (kMccCountries ! i)"
        using i(1) mcc_table_sorted sorted_nth_mono [of "map fst kMccCountries" ?it i] by auto
      then show False using True i(2) spec(3) [of ?it] by auto
    qed
    then show ?thesis using True by (simp add: map_of_eq_None_iff)
  next
    case False
    then have "(?v, snd (kMccCountries ! ?it)) \<in> set kMccCountries"
      using spec(1) by (metis le_neq_implies_less nth_mem prod.collapse)
    then show ?thesis using False mcc_table_sorted by (simp add: map_of_eq_Some_iff)
  qed
  have first: "CountryForMcc mcc =
      (if length mcc = 3 \<and> list_all IsDigit mcc
       then (case map_of kMccCountries ?v of Some code \<Rightarrow> code | None \<Rightarrow> []) else [])"
    by (simp add: CountryForMcc_def lookup Let_def)
  have "CodeOrEmpty c = c" if "map_of kMccCountries ?v = Some c" for c
    using mcc_codes_wellformed map_of_SomeD [OF that] by (auto simp: list_all_iff)
  then have "CodeOrEmpty (CountryForMcc mcc) = CountryForMcc mcc"
    unfolding first by (auto simp: CodeOrEmpty_def split: option.split)
  with first show ?thesis by blast
qed

text \<open>The elected route is the first of the usable ones with the least metric.\<close>

definition usable_route :: "DefaultRoute \<Rightarrow> bool" where
  "usable_route r \<longleftrightarrow> drConnected r \<and> drIfIndex r \<noteq> 0"

lemma elect_step_usable:
  "elect_step (b, m) q =
    (if usable_route q \<and> (b = 0 \<or> drMetric q < m) then (drIfIndex q, drMetric q) else (b, m))"
  by (auto simp: elect_step_def usable_route_def)

lemma elect_inv:
  "(filter usable_route rs = [] \<and> foldl elect_step (0, 0) rs = (0, 0)) \<or>
   (\<exists>r\<in>set rs. usable_route r \<and> foldl elect_step (0, 0) rs = (drIfIndex r, drMetric r) \<and>
     list_all (\<lambda>q. drMetric r \<le> drMetric q) (filter usable_route rs))"
proof (induction rs rule: rev_induct)
  case (snoc q rs)
  then show ?case
  proof (elim disjE conjE bexE)
    assume none: "filter usable_route rs = []" "foldl elect_step (0, 0) rs = (0, 0)"
    then show ?thesis by (cases "usable_route q") (auto simp: elect_step_usable)
  next
    fix r assume r: "r \<in> set rs" "usable_route r" "foldl elect_step (0, 0) rs = (drIfIndex r, drMetric r)"
      "list_all (\<lambda>q. drMetric r \<le> drMetric q) (filter usable_route rs)"
    show ?thesis
    proof (cases "usable_route q \<and> drMetric q < drMetric r")
      case True
      then show ?thesis using r
        by (intro disjI2 bexI [of _ q]) (auto simp: elect_step_usable list_all_iff)
    next
      case False
      then show ?thesis using r
        by (intro disjI2 bexI [of _ r]) (auto simp: elect_step_usable list_all_iff not_less usable_route_def)
    qed
  qed
qed simp

text \<open>
  The country is read from the interface that carries the traffic: the elected interface is
  zero exactly when no connected route names an interface, and otherwise belongs to such a route
  with the least metric of all of them.
\<close>

theorem elected_route_least:
  "if list_ex usable_route routes
   then \<exists>r. r \<in> set routes \<and> usable_route r \<and> ElectDefaultRoute routes = drIfIndex r \<and>
     list_all (\<lambda>q. drMetric r \<le> drMetric q) (filter usable_route routes)
   else ElectDefaultRoute routes = 0"
  using elect_inv [of routes]
  by (auto simp: ElectDefaultRoute_def list_ex_iff filter_empty_conv)

end
