(* ===== verification/WfpPolicy.thy ===== *)
theory WfpPolicy
  imports NetPolicy
begin

unbundle bit_operations_syntax

text \<open>
  The leak-prevention layer, \<^verbatim>\<open>Service/WfpPolicy.h\<close> and \<^verbatim>\<open>Service/WfpPolicy.cpp\<close>: the filter set
  each of the four policy states installs (\<open>BuildFilterSet\<close>, one definition per numbered group of
  the source), its translation into the filter engine's conditions (\<open>BuildConditions\<close>), and the
  transaction that swaps one set for another (\<open>ApplyLocked\<close>).

  The filter engine is Windows' own code. It enters as a parameter twice: as the calls the swap
  makes (the record \<open>Fwpm\<close>, with the documented transaction rules in \<open>fwpm_contract\<close>), and as
  the verdict it gives a flow under a set of filters (\<open>permits\<close>, with the documented
  arbitration rules in \<open>wfp_arbitration\<close>). So do the address parser \<^verbatim>\<open>inet_pton\<close> and
  \<^verbatim>\<open>FwpmGetAppIdFromFileName0\<close>.
\<close>

section \<open>The describable filter set\<close>

datatype WfpState = Wfp_Off | Wfp_Armed | Wfp_Connecting | Wfp_Connected

definition WfpStateToString :: "WfpState \<Rightarrow> string" where
  "WfpStateToString s =
    (case s of Wfp_Off \<Rightarrow> ''off'' | Wfp_Armed \<Rightarrow> ''armed'' | Wfp_Connecting \<Rightarrow> ''connecting''
     | Wfp_Connected \<Rightarrow> ''connected'')"

definition AttemptsConnection :: "WfpState \<Rightarrow> bool" where
  "AttemptsConnection s \<longleftrightarrow> s = Wfp_Connecting \<or> s = Wfp_Connected"

record WfpConfig =
  tun_luid :: u64
  tunnel_resolvers_v4 :: "string list"
  tunnel_resolvers_v6 :: "string list"
  tunnel_ipv6 :: bool
  host_resolvers_v4 :: "string list"
  allow_lan :: bool
  block_ipv6_when_disconnected :: bool
  block_local_name_resolution :: bool
  service_image_path :: string
  app_image_path :: string

datatype WfpLayer = ConnectV4 | ConnectV6 | RecvAcceptV4 | RecvAcceptV6

datatype WfpSublayer = Sub_Baseline | Sub_Dns | Sub_Persistent

datatype WfpField = AppId | Flags | LocalInterface | IpProtocol | LocalPort | RemotePort
  | LocalAddrV4 | RemoteAddrV4 | LocalAddrV6 | RemoteAddrV6

datatype WfpMatch = Match_Equal | FlagsAllSet

record WfpCondition =
  cField :: WfpField
  cMatch :: WfpMatch
  cNumber :: u64
  cV4Addr :: u32
  cV4Prefix :: nat
  cV6Addr :: "8 word list"
  cV6Prefix :: nat
  cAppPath :: string

text \<open>A condition with the member initialisers of the struct.\<close>

definition cond_init :: "WfpField \<Rightarrow> WfpCondition" where
  "cond_init fld = \<lparr>cField = fld, cMatch = Match_Equal, cNumber = 0, cV4Addr = 0, cV4Prefix = 32,
    cV6Addr = replicate 16 0, cV6Prefix = 128, cAppPath = ''''\<rparr>"

record WfpFilterSpec =
  sName :: string
  sLayer :: WfpLayer
  sSublayer :: WfpSublayer
  sBlock :: bool
  sWeight :: nat
  sConditions :: "WfpCondition list"

definition Spec :: "string \<Rightarrow> WfpLayer \<Rightarrow> WfpSublayer \<Rightarrow> bool \<Rightarrow> nat \<Rightarrow> WfpCondition list \<Rightarrow> WfpFilterSpec" where
  "Spec name layer sublayer block weight conditions =
    \<lparr>sName = name, sLayer = layer, sSublayer = sublayer, sBlock = block, sWeight = weight,
     sConditions = conditions\<rparr>"

subsection \<open>Numbers\<close>

definition kProtoTcp :: u64 where "kProtoTcp = 6"
definition kProtoUdp :: u64 where "kProtoUdp = 17"
definition kProtoIcmpV6 :: u64 where "kProtoIcmpV6 = 58"

definition kPortDns :: u64 where "kPortDns = 53"
definition kPortDhcpServer :: u64 where "kPortDhcpServer = 67"
definition kPortDhcpClient :: u64 where "kPortDhcpClient = 68"
definition kPortNetbiosNs :: u64 where "kPortNetbiosNs = 137"
definition kPortNetbiosDgm :: u64 where "kPortNetbiosDgm = 138"
definition kPortNetbiosSsn :: u64 where "kPortNetbiosSsn = 139"
definition kPortDhcpV6Client :: u64 where "kPortDhcpV6Client = 546"
definition kPortDhcpV6Server :: u64 where "kPortDhcpV6Server = 547"
definition kPortMdns :: u64 where "kPortMdns = 5353"
definition kPortLlmnr :: u64 where "kPortLlmnr = 5355"

definition kIcmpV6RouterSolicit :: u64 where "kIcmpV6RouterSolicit = 133"
definition kIcmpV6RouterAdvert :: u64 where "kIcmpV6RouterAdvert = 134"
definition kIcmpV6NeighborSolicit :: u64 where "kIcmpV6NeighborSolicit = 135"
definition kIcmpV6NeighborAdvert :: u64 where "kIcmpV6NeighborAdvert = 136"

definition kWeightMax :: nat where "kWeightMax = 15"
definition kWeightLoopback :: nat where "kWeightLoopback = 13"
definition kWeightExempt :: nat where "kWeightExempt = 12"
definition kWeightMedium :: nat where "kWeightMedium = 7"
definition kWeightMin :: nat where "kWeightMin = 0"

text \<open>\<^verbatim>\<open>FWP_CONDITION_FLAG_IS_LOOPBACK\<close> of the platform headers.\<close>

definition FWP_CONDITION_FLAG_IS_LOOPBACK :: u64 where
  "FWP_CONDITION_FLAG_IS_LOOPBACK = 1"

definition pad16 :: "8 word list \<Rightarrow> 8 word list" where
  "pad16 bs = bs @ replicate (16 - length bs) 0"

definition kV6LinkLocal :: "8 word list" where
  "kV6LinkLocal = pad16 [0xfe, 0x80]"

definition kV6LinkLocalMcast :: "8 word list" where
  "kV6LinkLocalMcast = pad16 [0xff, 0x02]"

definition kV6DhcpRelayAgentsAndServers :: "8 word list" where
  "kV6DhcpRelayAgentsAndServers = [0xff, 0x02, 0, 0, 0, 0, 0, 0, 0, 0, 0, 0, 0, 0x01, 0, 0x02]"

definition kV6DhcpAllServers :: "8 word list" where
  "kV6DhcpAllServers = [0xff, 0x05, 0, 0, 0, 0, 0, 0, 0, 0, 0, 0, 0, 0x01, 0, 0x03]"

definition kV6AllRouters :: "8 word list" where
  "kV6AllRouters = [0xff, 0x02, 0, 0, 0, 0, 0, 0, 0, 0, 0, 0, 0, 0, 0, 0x02]"

subsection \<open>Conditions\<close>

definition CondAppId :: "string \<Rightarrow> WfpCondition" where
  "CondAppId path = (cond_init AppId)\<lparr>cAppPath := path\<rparr>"

definition CondLoopback :: WfpCondition where
  "CondLoopback = (cond_init Flags)\<lparr>cMatch := FlagsAllSet, cNumber := FWP_CONDITION_FLAG_IS_LOOPBACK\<rparr>"

definition CondLocalInterface :: "u64 \<Rightarrow> WfpCondition" where
  "CondLocalInterface luid = (cond_init LocalInterface)\<lparr>cNumber := luid\<rparr>"

definition CondProtocol :: "u64 \<Rightarrow> WfpCondition" where
  "CondProtocol proto = (cond_init IpProtocol)\<lparr>cNumber := proto\<rparr>"

definition CondLocalPort :: "u64 \<Rightarrow> WfpCondition" where
  "CondLocalPort port = (cond_init LocalPort)\<lparr>cNumber := port\<rparr>"

definition CondRemotePort :: "u64 \<Rightarrow> WfpCondition" where
  "CondRemotePort port = (cond_init RemotePort)\<lparr>cNumber := port\<rparr>"

definition CondRemoteV4 :: "u32 \<Rightarrow> nat \<Rightarrow> WfpCondition" where
  "CondRemoteV4 hostOrderAddr p = (cond_init RemoteAddrV4)\<lparr>cV4Addr := hostOrderAddr, cV4Prefix := p\<rparr>"

definition CondV6 :: "WfpField \<Rightarrow> 8 word list \<Rightarrow> nat \<Rightarrow> WfpCondition" where
  "CondV6 fld addr p = (cond_init fld)\<lparr>cV6Addr := addr, cV6Prefix := p\<rparr>"

definition CondRemoteV6Prefix :: "V6Prefix \<Rightarrow> WfpCondition" where
  "CondRemoteV6Prefix p = (cond_init RemoteAddrV6)\<lparr>cV6Addr := Bytes p, cV6Prefix := prefix6 p\<rparr>"

definition PushUdpTcp :: "WfpCondition list \<Rightarrow> WfpCondition list" where
  "PushUdpTcp out = out @ [CondProtocol kProtoUdp, CondProtocol kProtoTcp]"

text \<open>The prefix of conditions every port-53 filter opens with.\<close>

definition dns_conditions :: "WfpCondition list \<Rightarrow> WfpCondition list" where
  "dns_conditions rest = PushUdpTcp [] @ [CondRemotePort kPortDns] @ rest"

subsection \<open>The numbered groups\<close>

text \<open>One filter at the connect and at the accept layer of each family.\<close>

definition v4_pair :: "(WfpLayer \<Rightarrow> WfpFilterSpec) \<Rightarrow> WfpFilterSpec list" where
  "v4_pair spec = map spec [ConnectV4, RecvAcceptV4]"

definition v6_pair :: "(WfpLayer \<Rightarrow> WfpFilterSpec) \<Rightarrow> WfpFilterSpec list" where
  "v6_pair spec = map spec [ConnectV6, RecvAcceptV6]"

definition tunnelV6 :: "WfpState \<Rightarrow> WfpConfig \<Rightarrow> bool" where
  "tunnelV6 state cfg \<longleftrightarrow> state = Wfp_Connected \<and> tunnel_ipv6 cfg \<and> tun_luid cfg \<noteq> 0"

definition blockV6 :: "WfpState \<Rightarrow> WfpConfig \<Rightarrow> bool" where
  "blockV6 state cfg \<longleftrightarrow>
    (block_ipv6_when_disconnected cfg \<and> state \<noteq> Wfp_Connected) \<or> tunnelV6 state cfg"

definition service_permits :: "WfpConfig \<Rightarrow> WfpFilterSpec list" where
  "service_permits cfg =
    (if service_image_path cfg = '''' then []
     else
       v4_pair (\<lambda>l. Spec ''urnetwork-permit-service-v4'' l Sub_Baseline False kWeightMax
         [CondAppId (service_image_path cfg)]) @
       v6_pair (\<lambda>l. Spec ''urnetwork-permit-service-v6'' l Sub_Baseline False kWeightMax
         [CondAppId (service_image_path cfg)]))"

definition app_permits :: "WfpState \<Rightarrow> WfpConfig \<Rightarrow> WfpFilterSpec list" where
  "app_permits state cfg =
    (if AttemptsConnection state \<and> app_image_path cfg \<noteq> '''' then
       v4_pair (\<lambda>l. Spec ''urnetwork-permit-app-v4'' l Sub_Baseline False kWeightMax
         [CondAppId (app_image_path cfg)]) @
       v6_pair (\<lambda>l. Spec ''urnetwork-permit-app-v6'' l Sub_Baseline False kWeightMax
         [CondAppId (app_image_path cfg)])
     else [])"

definition loopback_permits :: "WfpFilterSpec list" where
  "loopback_permits =
    v4_pair (\<lambda>l. Spec ''urnetwork-permit-loopback-v4'' l Sub_Baseline False kWeightLoopback [CondLoopback]) @
    v6_pair (\<lambda>l. Spec ''urnetwork-permit-loopback-v6'' l Sub_Baseline False kWeightLoopback [CondLoopback])"

definition tun_permits :: "WfpState \<Rightarrow> WfpConfig \<Rightarrow> WfpFilterSpec list" where
  "tun_permits state cfg =
    (if state = Wfp_Connected \<and> tun_luid cfg \<noteq> 0 then
       v4_pair (\<lambda>l. Spec ''urnetwork-permit-tun-v4'' l Sub_Baseline False kWeightExempt
         [CondLocalInterface (tun_luid cfg)])
     else []) @
    (if tunnelV6 state cfg then
       v6_pair (\<lambda>l. Spec ''urnetwork-permit-tun-v6'' l Sub_Baseline False kWeightExempt
         [CondLocalInterface (tun_luid cfg)])
     else [])"

definition lan_conditions :: "WfpCondition list" where
  "lan_conditions = map (\<lambda>p. CondRemoteV4 (network p) (prefix p)) kLocalBypassV4"

definition lan6_conditions :: "WfpCondition list" where
  "lan6_conditions = map CondRemoteV6Prefix kLocalBypassV6"

definition lan_permits :: "WfpState \<Rightarrow> WfpConfig \<Rightarrow> WfpFilterSpec list" where
  "lan_permits state cfg =
    (if allow_lan cfg then
       [Spec ''urnetwork-permit-lan-out'' ConnectV4 Sub_Baseline False kWeightExempt lan_conditions,
        Spec ''urnetwork-permit-lan-in'' RecvAcceptV4 Sub_Baseline False kWeightExempt lan_conditions]
     else []) @
    (if allow_lan cfg \<and> tunnelV6 state cfg then
       [Spec ''urnetwork-permit-lan-v6-out'' ConnectV6 Sub_Baseline False kWeightExempt lan6_conditions,
        Spec ''urnetwork-permit-lan-v6-in'' RecvAcceptV6 Sub_Baseline False kWeightExempt lan6_conditions]
     else [])"

definition dhcpv4_permits :: "WfpFilterSpec list" where
  "dhcpv4_permits =
    [Spec ''urnetwork-permit-dhcpv4-out'' ConnectV4 Sub_Baseline False kWeightExempt
       [CondProtocol kProtoUdp, CondLocalPort kPortDhcpClient, CondRemotePort kPortDhcpServer,
        CondRemoteV4 0xFFFFFFFF 32],
     Spec ''urnetwork-permit-dhcpv4-in'' RecvAcceptV4 Sub_Baseline False kWeightExempt
       [CondProtocol kProtoUdp, CondLocalPort kPortDhcpClient, CondRemotePort kPortDhcpServer]]"

definition dhcpv6_permits :: "WfpFilterSpec list" where
  "dhcpv6_permits =
    [Spec ''urnetwork-permit-dhcpv6-out'' ConnectV6 Sub_Baseline False kWeightExempt
       [CondProtocol kProtoUdp, CondV6 LocalAddrV6 kV6LinkLocal 10, CondLocalPort kPortDhcpV6Client,
        CondRemotePort kPortDhcpV6Server, CondV6 RemoteAddrV6 kV6DhcpRelayAgentsAndServers 128,
        CondV6 RemoteAddrV6 kV6DhcpAllServers 128],
     Spec ''urnetwork-permit-dhcpv6-in'' RecvAcceptV6 Sub_Baseline False kWeightExempt
       [CondProtocol kProtoUdp, CondV6 LocalAddrV6 kV6LinkLocal 10, CondLocalPort kPortDhcpV6Client,
        CondV6 RemoteAddrV6 kV6LinkLocal 10, CondRemotePort kPortDhcpV6Server]]"

definition ndp_permits :: "WfpFilterSpec list" where
  "ndp_permits =
    [Spec ''urnetwork-permit-ndp-rs-out'' ConnectV6 Sub_Baseline False kWeightExempt
       [CondProtocol kProtoIcmpV6, CondLocalPort kIcmpV6RouterSolicit,
        CondV6 RemoteAddrV6 kV6AllRouters 128],
     Spec ''urnetwork-permit-ndp-ra-in'' RecvAcceptV6 Sub_Baseline False kWeightExempt
       [CondProtocol kProtoIcmpV6, CondLocalPort kIcmpV6RouterAdvert,
        CondV6 RemoteAddrV6 kV6LinkLocal 10]] @
    concat (map (\<lambda>type.
      v6_pair (\<lambda>l. Spec
        (if type = kIcmpV6NeighborSolicit then ''urnetwork-permit-ndp-ns'' else ''urnetwork-permit-ndp-na'')
        l Sub_Baseline False kWeightExempt
        [CondProtocol kProtoIcmpV6, CondLocalPort type, CondV6 RemoteAddrV6 kV6LinkLocal 10,
         CondV6 RemoteAddrV6 kV6LinkLocalMcast 16]))
      [kIcmpV6NeighborSolicit, kIcmpV6NeighborAdvert])"

definition dns_lift :: "WfpFilterSpec list" where
  "dns_lift =
    [Spec ''urnetwork-lift-dns-v4'' ConnectV4 Sub_Baseline False kWeightMedium (dns_conditions []),
     Spec ''urnetwork-lift-dns-v6'' ConnectV6 Sub_Baseline False kWeightMedium (dns_conditions [])]"

definition floor_blocks :: "WfpState \<Rightarrow> WfpConfig \<Rightarrow> WfpFilterSpec list" where
  "floor_blocks state cfg =
    [Spec ''urnetwork-block-all-v4-out'' ConnectV4 Sub_Baseline True kWeightMin [],
     Spec ''urnetwork-block-all-v4-in'' RecvAcceptV4 Sub_Baseline True kWeightMin []] @
    (if blockV6 state cfg then
       [Spec ''urnetwork-block-all-v6-out'' ConnectV6 Sub_Baseline True kWeightMin [],
        Spec ''urnetwork-block-all-v6-in'' RecvAcceptV6 Sub_Baseline True kWeightMin []]
     else [])"

definition service_dns_permits :: "WfpConfig \<Rightarrow> WfpFilterSpec list" where
  "service_dns_permits cfg =
    (if service_image_path cfg = '''' then []
     else
       let c = dns_conditions [CondAppId (service_image_path cfg)]
       in [Spec ''urnetwork-permit-service-dns-v4'' ConnectV4 Sub_Dns False kWeightMax c,
           Spec ''urnetwork-permit-service-dns-v6'' ConnectV6 Sub_Dns False kWeightMax c])"

definition app_dns_permits :: "WfpState \<Rightarrow> WfpConfig \<Rightarrow> WfpFilterSpec list" where
  "app_dns_permits state cfg =
    (if AttemptsConnection state \<and> app_image_path cfg \<noteq> '''' then
       let c = dns_conditions [CondAppId (app_image_path cfg)]
       in [Spec ''urnetwork-permit-app-dns-v4'' ConnectV4 Sub_Dns False kWeightMax c,
           Spec ''urnetwork-permit-app-dns-v6'' ConnectV6 Sub_Dns False kWeightMax c]
     else [])"

text \<open>
  \<open>inet4\<close> and \<open>inet6\<close> are \<^verbatim>\<open>inet_pton\<close> for the two families, the first composed with \<^verbatim>\<open>ntohl\<close>;
  a server that does not parse is skipped.
\<close>

definition host_resolver_permit :: "(string \<Rightarrow> u32 option) \<Rightarrow> WfpState \<Rightarrow> WfpConfig \<Rightarrow> WfpFilterSpec list" where
  "host_resolver_permit inet4 state cfg =
    (if state = Wfp_Connecting \<and> host_resolvers_v4 cfg \<noteq> [] then
       let addrs = List.map_filter inet4 (host_resolvers_v4 cfg)
       in if length addrs > 0
          then [Spec ''urnetwork-permit-dns-host-resolver'' ConnectV4 Sub_Dns False kWeightMedium
                  (dns_conditions (map (\<lambda>a. CondRemoteV4 a 32) addrs))]
          else []
     else [])"

definition tunnel_resolver_permits :: "(string \<Rightarrow> u32 option) \<Rightarrow> WfpState \<Rightarrow> WfpConfig \<Rightarrow> WfpFilterSpec list" where
  "tunnel_resolver_permits inet4 state cfg =
    (if state = Wfp_Connected \<and> tun_luid cfg \<noteq> 0 then
       map (\<lambda>a. Spec ''urnetwork-permit-dns-tunnel-resolver'' ConnectV4 Sub_Dns False kWeightMedium
              (dns_conditions [CondRemoteV4 a 32, CondLocalInterface (tun_luid cfg)]))
         (List.map_filter inet4 (tunnel_resolvers_v4 cfg))
     else [])"

definition tunnel_resolver6_permits ::
    "(string \<Rightarrow> 8 word list option) \<Rightarrow> WfpState \<Rightarrow> WfpConfig \<Rightarrow> WfpFilterSpec list" where
  "tunnel_resolver6_permits inet6 state cfg =
    (if tunnelV6 state cfg then
       map (\<lambda>bytes. Spec ''urnetwork-permit-dns-tunnel-resolver-v6'' ConnectV6 Sub_Dns False kWeightMedium
              (dns_conditions [CondV6 RemoteAddrV6 bytes 128, CondLocalInterface (tun_luid cfg)]))
         (List.map_filter inet6 (tunnel_resolvers_v6 cfg))
     else [])"

definition loopback_dns_permits :: "WfpFilterSpec list" where
  "loopback_dns_permits =
    [Spec ''urnetwork-permit-dns-loopback-v4'' ConnectV4 Sub_Dns False kWeightMedium
       (dns_conditions [CondLoopback]),
     Spec ''urnetwork-permit-dns-loopback-v6'' ConnectV6 Sub_Dns False kWeightMedium
       (dns_conditions [CondLoopback])]"

definition dns_block :: "WfpState \<Rightarrow> bool \<Rightarrow> WfpFilterSpec list" where
  "dns_block state sharedDnsPath =
    (if \<not> AttemptsConnection state \<or> sharedDnsPath then
       [Spec ''urnetwork-block-dns-v4'' ConnectV4 Sub_Dns True kWeightMin (dns_conditions []),
        Spec ''urnetwork-block-dns-v6'' ConnectV6 Sub_Dns True kWeightMin (dns_conditions [])]
     else [])"

definition local_name_sets :: "(string \<times> u64 list) list" where
  "local_name_sets =
    [(''urnetwork-block-llmnr'', [kPortLlmnr]),
     (''urnetwork-block-mdns'', [kPortMdns]),
     (''urnetwork-block-netbios'', [kPortNetbiosNs, kPortNetbiosDgm, kPortNetbiosSsn])]"

definition local_name_blocks :: "WfpConfig \<Rightarrow> WfpFilterSpec list" where
  "local_name_blocks cfg =
    (if block_local_name_resolution cfg then
       concat (map (\<lambda>(name, ports).
         let c = PushUdpTcp [] @ map CondRemotePort ports
         in [Spec (name @ ''-v4'') ConnectV4 Sub_Dns True kWeightMin c,
             Spec (name @ ''-v6'') ConnectV6 Sub_Dns True kWeightMin c]) local_name_sets)
     else [])"

text \<open>Whether a permit by resolver address was emitted: filters 9b, 10 and 10b set the flag.\<close>

definition shared_dns_path ::
    "(string \<Rightarrow> u32 option) \<Rightarrow> (string \<Rightarrow> 8 word list option) \<Rightarrow> WfpState \<Rightarrow> WfpConfig \<Rightarrow> bool" where
  "shared_dns_path inet4 inet6 state cfg \<longleftrightarrow>
    host_resolver_permit inet4 state cfg \<noteq> [] \<or> tunnel_resolver_permits inet4 state cfg \<noteq> [] \<or>
    tunnel_resolver6_permits inet6 state cfg \<noteq> []"

definition baseline_filters :: "WfpState \<Rightarrow> WfpConfig \<Rightarrow> WfpFilterSpec list" where
  "baseline_filters state cfg =
    service_permits cfg @ app_permits state cfg @ loopback_permits @ tun_permits state cfg @
    lan_permits state cfg @ dhcpv4_permits @ dhcpv6_permits @ ndp_permits @ dns_lift @
    floor_blocks state cfg"

definition dns_filters ::
    "(string \<Rightarrow> u32 option) \<Rightarrow> (string \<Rightarrow> 8 word list option) \<Rightarrow> WfpState \<Rightarrow> WfpConfig \<Rightarrow> WfpFilterSpec list" where
  "dns_filters inet4 inet6 state cfg =
    service_dns_permits cfg @ app_dns_permits state cfg @ host_resolver_permit inet4 state cfg @
    tunnel_resolver_permits inet4 state cfg @ tunnel_resolver6_permits inet6 state cfg @
    loopback_dns_permits @ dns_block state (shared_dns_path inet4 inet6 state cfg) @
    local_name_blocks cfg"

definition BuildFilterSet ::
    "(string \<Rightarrow> u32 option) \<Rightarrow> (string \<Rightarrow> 8 word list option) \<Rightarrow> WfpState \<Rightarrow> WfpConfig \<Rightarrow> WfpFilterSpec list" where
  "BuildFilterSet inet4 inet6 state cfg =
    (if state = Wfp_Off then [] else baseline_filters state cfg @ dns_filters inet4 inet6 state cfg)"

subsection \<open>The two structural questions\<close>

fun scan_dns_permit :: "WfpCondition list \<Rightarrow> bool \<Rightarrow> bool \<Rightarrow> bool" where
  "scan_dns_permit [] port53 byAddress = (port53 \<and> byAddress)"
| "scan_dns_permit (c # cs) port53 byAddress =
    (case cField c of
       RemotePort \<Rightarrow> scan_dns_permit cs (port53 \<or> cNumber c = kPortDns) byAddress
     | RemoteAddrV4 \<Rightarrow> scan_dns_permit cs port53 True
     | RemoteAddrV6 \<Rightarrow> scan_dns_permit cs port53 True
     | AppId \<Rightarrow> False
     | Flags \<Rightarrow> False
     | LocalInterface \<Rightarrow> False
     | _ \<Rightarrow> scan_dns_permit cs port53 byAddress)"

definition IsMachineWideDnsPermit :: "WfpFilterSpec \<Rightarrow> bool" where
  "IsMachineWideDnsPermit f =
    (if sBlock f \<or> sSublayer f \<noteq> Sub_Dns then False else scan_dns_permit (sConditions f) False False)"

definition IsDnsPort53Block :: "WfpFilterSpec \<Rightarrow> bool" where
  "IsDnsPort53Block f =
    (if \<not> sBlock f \<or> sSublayer f \<noteq> Sub_Dns then False
     else list_ex (\<lambda>c. cField c = RemotePort \<and> cNumber c = kPortDns) (sConditions f))"

definition BuildPersistentFilterSet :: "WfpFilterSpec list" where
  "BuildPersistentFilterSet =
    concat (map (\<lambda>l.
      [Spec ''urnetwork-persistent-permit-loopback'' l Sub_Persistent False kWeightMax [CondLoopback],
       Spec ''urnetwork-persistent-block-all'' l Sub_Persistent True kWeightMax []])
      [ConnectV4, ConnectV6, RecvAcceptV4, RecvAcceptV6])"

section \<open>Turning descriptions into filters\<close>

record Guid =
  Data1 :: u32
  Data2 :: "16 word"
  Data3 :: "16 word"
  Data4 :: "8 word list"

definition our_guid :: "u32 \<Rightarrow> Guid" where
  "our_guid d1 = \<lparr>Data1 = d1, Data2 = 0x9e77, Data3 = 0x4b58,
    Data4 = [0x8f, 0x5a, 0x1c, 0x0e, 0x9d, 0x3a, 0x7b, 0x10]\<rparr>"

definition kProviderGuid :: Guid where "kProviderGuid = our_guid 0x6d2b1c40"
definition kPersistentProviderGuid :: Guid where "kPersistentProviderGuid = our_guid 0x6d2b1c41"
definition kSublayerBaselineGuid :: Guid where "kSublayerBaselineGuid = our_guid 0x6d2b1c42"
definition kSublayerDnsGuid :: Guid where "kSublayerDnsGuid = our_guid 0x6d2b1c43"
definition kSublayerPersistentGuid :: Guid where "kSublayerPersistentGuid = our_guid 0x6d2b1c44"

definition IsOurProvider :: "Guid option \<Rightarrow> bool" where
  "IsOurProvider key =
    (case key of None \<Rightarrow> False | Some k \<Rightarrow> k = kProviderGuid \<or> k = kPersistentProviderGuid)"

text \<open>The platform's identifiers, by name.\<close>

datatype FwpmLayer = ALE_AUTH_CONNECT_V4 | ALE_AUTH_CONNECT_V6 | ALE_AUTH_RECV_ACCEPT_V4
  | ALE_AUTH_RECV_ACCEPT_V6

datatype FwpmField = ALE_APP_ID | FLAGS | IP_LOCAL_INTERFACE | IP_PROTOCOL | IP_LOCAL_PORT
  | IP_REMOTE_PORT | IP_LOCAL_ADDRESS | IP_REMOTE_ADDRESS

definition LayerGuid :: "WfpLayer \<Rightarrow> FwpmLayer" where
  "LayerGuid l =
    (case l of ConnectV4 \<Rightarrow> ALE_AUTH_CONNECT_V4 | ConnectV6 \<Rightarrow> ALE_AUTH_CONNECT_V6
     | RecvAcceptV4 \<Rightarrow> ALE_AUTH_RECV_ACCEPT_V4 | RecvAcceptV6 \<Rightarrow> ALE_AUTH_RECV_ACCEPT_V6)"

definition SublayerGuid :: "WfpSublayer \<Rightarrow> Guid" where
  "SublayerGuid s =
    (case s of Sub_Baseline \<Rightarrow> kSublayerBaselineGuid | Sub_Dns \<Rightarrow> kSublayerDnsGuid
     | Sub_Persistent \<Rightarrow> kSublayerPersistentGuid)"

definition FieldGuid :: "WfpField \<Rightarrow> FwpmField" where
  "FieldGuid f =
    (case f of AppId \<Rightarrow> ALE_APP_ID | Flags \<Rightarrow> FLAGS | LocalInterface \<Rightarrow> IP_LOCAL_INTERFACE
     | IpProtocol \<Rightarrow> IP_PROTOCOL | LocalPort \<Rightarrow> IP_LOCAL_PORT | RemotePort \<Rightarrow> IP_REMOTE_PORT
     | LocalAddrV4 \<Rightarrow> IP_LOCAL_ADDRESS | LocalAddrV6 \<Rightarrow> IP_LOCAL_ADDRESS
     | RemoteAddrV4 \<Rightarrow> IP_REMOTE_ADDRESS | RemoteAddrV6 \<Rightarrow> IP_REMOTE_ADDRESS)"

datatype 'b FwpValue = FwpByteBlob 'b | FwpUint32 u32 | FwpUint64 u64 | FwpUint8 "8 word"
  | FwpUint16 "16 word" | FwpV4AddrMask u32 u32 | FwpV6AddrMask "8 word list" nat

record 'b FwpmCondition =
  fcField :: FwpmField
  fcMatch :: WfpMatch
  fcValue :: "'b FwpValue"

record 'b FwpmFilter =
  ffName :: string
  ffLayer :: FwpmLayer
  ffSublayer :: Guid
  ffProvider :: Guid
  ffWeight :: nat
  ffBlock :: bool
  ffConditions :: "'b FwpmCondition list"

datatype WfpError =
    EngineOpenFailed u32 | TransactionBeginFailed u32 | ProviderAddFailed u32
  | SubLayerAddFailed string u32 | ObjectsCommitFailed u32 | ProviderDisabledByBfe
  | FilterDeleteFailed u64 u32 | AppIdFailed string u32 | FilterAddFailed string u32
  | CommitFailed u32

definition V4Mask :: "nat \<Rightarrow> u32" where
  "V4Mask p = (if p = 0 then 0 else push_bit (32 - p) 0xFFFFFFFF)"

text \<open>\<open>appId\<close> is \<^verbatim>\<open>FwpmGetAppIdFromFileName0\<close>: an error code, or the byte blob of the image.\<close>

definition build_value :: "(string \<Rightarrow> u32 + 'b) \<Rightarrow> WfpCondition \<Rightarrow> WfpError + 'b FwpValue" where
  "build_value appId c =
    (case cField c of
       AppId \<Rightarrow> (case appId (cAppPath c) of
           Inl err \<Rightarrow> Inl (AppIdFailed (cAppPath c) err)
         | Inr blob \<Rightarrow> Inr (FwpByteBlob blob))
     | Flags \<Rightarrow> Inr (FwpUint32 (ucast (cNumber c)))
     | LocalInterface \<Rightarrow> Inr (FwpUint64 (cNumber c))
     | IpProtocol \<Rightarrow> Inr (FwpUint8 (ucast (cNumber c)))
     | LocalPort \<Rightarrow> Inr (FwpUint16 (ucast (cNumber c)))
     | RemotePort \<Rightarrow> Inr (FwpUint16 (ucast (cNumber c)))
     | LocalAddrV4 \<Rightarrow> Inr (FwpV4AddrMask (cV4Addr c) (V4Mask (cV4Prefix c)))
     | RemoteAddrV4 \<Rightarrow> Inr (FwpV4AddrMask (cV4Addr c) (V4Mask (cV4Prefix c)))
     | LocalAddrV6 \<Rightarrow> Inr (FwpV6AddrMask (cV6Addr c) (cV6Prefix c))
     | RemoteAddrV6 \<Rightarrow> Inr (FwpV6AddrMask (cV6Addr c) (cV6Prefix c)))"

fun BuildConditions :: "(string \<Rightarrow> u32 + 'b) \<Rightarrow> WfpCondition list \<Rightarrow> WfpError + 'b FwpmCondition list" where
  "BuildConditions appId [] = Inr []"
| "BuildConditions appId (c # cs) =
    (case build_value appId c of
       Inl e \<Rightarrow> Inl e
     | Inr v \<Rightarrow>
        (case BuildConditions appId cs of
           Inl e \<Rightarrow> Inl e
         | Inr out \<Rightarrow> Inr (\<lparr>fcField = FieldGuid (cField c), fcMatch = cMatch c, fcValue = v\<rparr> # out)))"

definition make_filter :: "WfpFilterSpec \<Rightarrow> 'b FwpmCondition list \<Rightarrow> 'b FwpmFilter" where
  "make_filter spec conds =
    \<lparr>ffName = sName spec, ffLayer = LayerGuid (sLayer spec), ffSublayer = SublayerGuid (sSublayer spec),
     ffProvider = kProviderGuid, ffWeight = sWeight spec, ffBlock = sBlock spec, ffConditions = conds\<rparr>"

section \<open>The policy object\<close>

text \<open>
  The calls of the filter engine. Each takes the engine's state and returns a result code
  (\<^verbatim>\<open>ERROR_SUCCESS\<close> is 0) and the new state; the handle is the one session the object opens.
\<close>

record ('e, 'b) Fwpm =
  EngineOpen :: "'e \<Rightarrow> u32 \<times> 'e"
  EngineClose :: "'e \<Rightarrow> 'e"
  TransactionBegin :: "'e \<Rightarrow> u32 \<times> 'e"
  TransactionCommit :: "'e \<Rightarrow> u32 \<times> 'e"
  TransactionAbort :: "'e \<Rightarrow> 'e"
  ProviderAdd :: "Guid \<Rightarrow> 'e \<Rightarrow> u32 \<times> 'e"
  SubLayerAdd :: "Guid \<Rightarrow> nat \<Rightarrow> 'e \<Rightarrow> u32 \<times> 'e"
  ProviderFlags :: "Guid \<Rightarrow> 'e \<Rightarrow> u32 option"
  FilterDeleteById :: "u64 \<Rightarrow> 'e \<Rightarrow> u32 \<times> 'e"
  FilterAdd :: "'b FwpmFilter \<Rightarrow> 'e \<Rightarrow> u32 \<times> u64 \<times> 'e"
  AppIdFromFileName :: "string \<Rightarrow> u32 + 'b"

definition ERROR_SUCCESS :: u32 where "ERROR_SUCCESS = 0"
definition FWP_E_FILTER_NOT_FOUND :: u32 where "FWP_E_FILTER_NOT_FOUND = 0x80320003"
definition FWP_E_ALREADY_EXISTS :: u32 where "FWP_E_ALREADY_EXISTS = 0x80320009"
definition FWPM_PROVIDER_FLAG_DISABLED :: u32 where "FWPM_PROVIDER_FLAG_DISABLED = 0x10"

record WfpPolicy =
  pEngine :: bool
  pState :: WfpState
  pFilterIds :: "u64 list"
  pLastError :: "WfpError option"

definition InitPolicy :: WfpPolicy where
  "InitPolicy = \<lparr>pEngine = False, pState = Wfp_Off, pFilterIds = [], pLastError = None\<rparr>"

fun add_sublayers :: "('e, 'b) Fwpm \<Rightarrow> (Guid \<times> string \<times> nat) list \<Rightarrow> 'e \<Rightarrow> WfpError option \<times> 'e" where
  "add_sublayers api [] e = (None, e)"
| "add_sublayers api ((key, name, weight) # subs) e =
    (case SubLayerAdd api key weight e of (err, e1) \<Rightarrow>
       if err \<noteq> ERROR_SUCCESS \<and> err \<noteq> FWP_E_ALREADY_EXISTS
       then (Some (SubLayerAddFailed name err), e1)
       else add_sublayers api subs e1)"

definition our_sublayers :: "(Guid \<times> string \<times> nat) list" where
  "our_sublayers =
    [(kSublayerBaselineGuid, ''URnetwork baseline'', 0xFFFF), (kSublayerDnsGuid, ''URnetwork DNS'', 0xFFFE)]"

definition OpenEngine :: "('e, 'b) Fwpm \<Rightarrow> WfpPolicy \<Rightarrow> 'e \<Rightarrow> bool \<times> WfpPolicy \<times> 'e" where
  "OpenEngine api w e =
    (if pEngine w then (True, w, e)
     else
       case EngineOpen api e of (err, e1) \<Rightarrow>
       if err \<noteq> ERROR_SUCCESS then (False, w\<lparr>pLastError := Some (EngineOpenFailed err)\<rparr>, e1)
       else case TransactionBegin api e1 of (err, e2) \<Rightarrow>
       if err \<noteq> ERROR_SUCCESS
       then (False, w\<lparr>pLastError := Some (TransactionBeginFailed err)\<rparr>, EngineClose api e2)
       else case ProviderAdd api kProviderGuid e2 of (err, e3) \<Rightarrow>
       if err \<noteq> ERROR_SUCCESS \<and> err \<noteq> FWP_E_ALREADY_EXISTS
       then (False, w\<lparr>pLastError := Some (ProviderAddFailed err)\<rparr>, EngineClose api (TransactionAbort api e3))
       else case add_sublayers api our_sublayers e3 of
         (Some failed, e4) \<Rightarrow>
           (False, w\<lparr>pLastError := Some failed\<rparr>, EngineClose api (TransactionAbort api e4))
       | (None, e4) \<Rightarrow>
       (case TransactionCommit api e4 of (err, e5) \<Rightarrow>
       if err \<noteq> ERROR_SUCCESS
       then (False, w\<lparr>pLastError := Some (ObjectsCommitFailed err)\<rparr>, EngineClose api e5)
       else case ProviderFlags api kProviderGuid e5 of
         Some flags \<Rightarrow>
           if flags AND FWPM_PROVIDER_FLAG_DISABLED \<noteq> 0
           then (False, w\<lparr>pLastError := Some ProviderDisabledByBfe\<rparr>, EngineClose api e5)
           else (True, w\<lparr>pEngine := True\<rparr>, e5)
       | None \<Rightarrow> (True, w\<lparr>pEngine := True\<rparr>, e5)))"

definition CloseEngine :: "('e, 'b) Fwpm \<Rightarrow> WfpPolicy \<Rightarrow> 'e \<Rightarrow> WfpPolicy \<times> 'e" where
  "CloseEngine api w e =
    (if \<not> pEngine w then (w, e)
     else (w\<lparr>pEngine := False, pFilterIds := [], pState := Wfp_Off\<rparr>, EngineClose api e))"

definition RevertLocked :: "('e, 'b) Fwpm \<Rightarrow> WfpPolicy \<Rightarrow> 'e \<Rightarrow> WfpPolicy \<times> 'e" where
  "RevertLocked api w e =
    (if \<not> pEngine w then (w\<lparr>pState := Wfp_Off\<rparr>, e) else CloseEngine api w e)"

fun delete_filters :: "('e, 'b) Fwpm \<Rightarrow> u64 list \<Rightarrow> 'e \<Rightarrow> WfpError option \<times> 'e" where
  "delete_filters api [] e = (None, e)"
| "delete_filters api (i # ids) e =
    (case FilterDeleteById api i e of (del, e1) \<Rightarrow>
       if del \<noteq> ERROR_SUCCESS \<and> del \<noteq> FWP_E_FILTER_NOT_FOUND
       then (Some (FilterDeleteFailed i del), e1)
       else delete_filters api ids e1)"

fun add_filters :: "('e, 'b) Fwpm \<Rightarrow> WfpFilterSpec list \<Rightarrow> 'e \<Rightarrow> (WfpError + u64 list) \<times> 'e" where
  "add_filters api [] e = (Inr [], e)"
| "add_filters api (spec # specs) e =
    (case BuildConditions (AppIdFromFileName api) (sConditions spec) of
       Inl failed \<Rightarrow> (Inl failed, e)
     | Inr conds \<Rightarrow>
        (case FilterAdd api (make_filter spec conds) e of (err, i, e1) \<Rightarrow>
           if err \<noteq> ERROR_SUCCESS then (Inl (FilterAddFailed (sName spec) err), e1)
           else
             case add_filters api specs e1 of
               (Inl failed, e2) \<Rightarrow> (Inl failed, e2)
             | (Inr ids, e2) \<Rightarrow> (Inr (i # ids), e2)))"

text \<open>What the method tells the log about the port-53 window once the swap is committed.\<close>

datatype WfpNotice = DnsWindowOpen | DnsWindowClosed | HardBlockNotInForce

definition apply_notices :: "WfpState \<Rightarrow> WfpFilterSpec list \<Rightarrow> WfpNotice list" where
  "apply_notices state specs =
    (let hostResolverPermit = list_ex IsMachineWideDnsPermit specs;
         dnsBlocked = list_ex IsDnsPort53Block specs
     in (if hostResolverPermit then [DnsWindowOpen]
         else if state = Wfp_Armed then [DnsWindowClosed] else []) @
        (if \<not> dnsBlocked \<and> AttemptsConnection state then [HardBlockNotInForce] else []))"

text \<open>The transaction of the swap: the old filters out, the new ones in, or nothing.\<close>

definition swap_filters ::
    "('e, 'b) Fwpm \<Rightarrow> u64 list \<Rightarrow> WfpFilterSpec list \<Rightarrow> 'e \<Rightarrow> (WfpError + u64 list) \<times> 'e" where
  "swap_filters api old specs e =
    (case TransactionBegin api e of (err, e1) \<Rightarrow>
     if err \<noteq> ERROR_SUCCESS then (Inl (TransactionBeginFailed err), e1)
     else case delete_filters api old e1 of
       (Some failed, e2) \<Rightarrow> (Inl failed, TransactionAbort api e2)
     | (None, e2) \<Rightarrow>
     (case add_filters api specs e2 of
       (Inl failed, e3) \<Rightarrow> (Inl failed, TransactionAbort api e3)
     | (Inr ids, e3) \<Rightarrow>
     (case TransactionCommit api e3 of (err, e4) \<Rightarrow>
     if err \<noteq> ERROR_SUCCESS then (Inl (CommitFailed err), e4) else (Inr ids, e4))))"

definition ApplyLocked ::
    "('e, 'b) Fwpm \<Rightarrow> (string \<Rightarrow> u32 option) \<Rightarrow> (string \<Rightarrow> 8 word list option) \<Rightarrow>
     WfpState \<Rightarrow> WfpConfig \<Rightarrow> WfpPolicy \<Rightarrow> 'e \<Rightarrow> bool \<times> WfpPolicy \<times> 'e \<times> WfpNotice list" where
  "ApplyLocked api inet4 inet6 state cfg w0 e =
    (let w = w0\<lparr>pLastError := None\<rparr> in
     if state = Wfp_Off then (case RevertLocked api w e of (w1, e1) \<Rightarrow> (True, w1, e1, []))
     else case OpenEngine api w e of (opened, w1, e1) \<Rightarrow>
     if \<not> opened then (False, w1, e1, [])
     else
       let specs = BuildFilterSet inet4 inet6 state cfg in
       case swap_filters api (pFilterIds w1) specs e1 of
         (Inl failed, e2) \<Rightarrow> (False, w1\<lparr>pLastError := Some failed\<rparr>, e2, [])
       | (Inr ids, e2) \<Rightarrow> (True, w1\<lparr>pFilterIds := ids, pState := state\<rparr>, e2, apply_notices state specs))"

definition FilterCount :: "WfpPolicy \<Rightarrow> nat" where
  "FilterCount w = length (pFilterIds w)"

subsection \<open>The startup sweep\<close>

text \<open>
  One enumeration: the engine's answers in order, each an error code and a page of at most 256
  objects with the provider they carry. The loop ends at an error, an empty page or a short one.
\<close>

fun collect_ours :: "(u32 \<times> (Guid option \<times> 'k) list) list \<Rightarrow> 'k list" where
  "collect_ours [] = []"
| "collect_ours ((err, entries) # answers) =
    (if err \<noteq> ERROR_SUCCESS \<or> entries = [] then []
     else
       map snd (filter (\<lambda>x. IsOurProvider (fst x)) entries) @
       (if length entries < 256 then [] else collect_ours answers))"

datatype PurgeStep = PurgeBegin | PurgeFilter u64 | PurgeSublayer Guid | PurgeProvider Guid | PurgeCommit

text \<open>The count that is returned and the engine calls that change something, in order.\<close>

definition SweepOrphanedObjects ::
    "u32 \<Rightarrow> (u32 \<times> (Guid option \<times> u64) list) list \<Rightarrow> (u32 \<times> (Guid option \<times> Guid) list) list \<Rightarrow>
     (u32 \<times> (Guid option \<times> Guid) list) list \<Rightarrow> u32 \<Rightarrow> bool \<Rightarrow> nat \<times> PurgeStep list" where
  "SweepOrphanedObjects openErr filters subs providers beginErr remove =
    (if openErr \<noteq> ERROR_SUCCESS then (0, [])
     else
       let filterIds = collect_ours filters; sublayerKeys = collect_ours subs;
           providerKeys = collect_ours providers;
           found = length filterIds + length sublayerKeys + length providerKeys
       in if found = 0 then (0, [])
          else if \<not> remove then (found, [])
          else (found, PurgeBegin #
            (if beginErr = ERROR_SUCCESS
             then map PurgeFilter filterIds @ map PurgeSublayer sublayerKeys @
               map PurgeProvider providerKeys @ [PurgeCommit]
             else [])))"

section \<open>The engine's transaction rules\<close>

text \<open>
  \<open>inForce e\<close> are the filters of our session that decide traffic in engine state \<open>e\<close>, \<open>inTx e\<close>
  the ones the open transaction would put in force. The rules are the documented ones: nothing
  done inside a transaction counts before the commit, a failed commit and an abort change
  nothing, and closing a dynamic session removes everything it added.
\<close>

definition fwpm_contract ::
    "('e, 'b) Fwpm \<Rightarrow> ('e \<Rightarrow> (u64 \<times> 'b FwpmFilter) list) \<Rightarrow> ('e \<Rightarrow> (u64 \<times> 'b FwpmFilter) list) \<Rightarrow> bool" where
  "fwpm_contract api inForce inTx \<longleftrightarrow>
    (\<forall>e. inForce (snd (EngineOpen api e)) = inForce e) \<and>
    (\<forall>e. inForce (EngineClose api e) = []) \<and>
    (\<forall>e. inForce (snd (TransactionBegin api e)) = inForce e \<and>
      (fst (TransactionBegin api e) = ERROR_SUCCESS \<longrightarrow> inTx (snd (TransactionBegin api e)) = inForce e)) \<and>
    (\<forall>e. inForce (snd (TransactionCommit api e)) =
      (if fst (TransactionCommit api e) = ERROR_SUCCESS then inTx e else inForce e)) \<and>
    (\<forall>e. inForce (TransactionAbort api e) = inForce e) \<and>
    (\<forall>key e. inForce (snd (ProviderAdd api key e)) = inForce e \<and> inTx (snd (ProviderAdd api key e)) = inTx e) \<and>
    (\<forall>key n e. inForce (snd (SubLayerAdd api key n e)) = inForce e \<and>
      inTx (snd (SubLayerAdd api key n e)) = inTx e) \<and>
    (\<forall>i e. inForce (snd (FilterDeleteById api i e)) = inForce e \<and>
      (fst (FilterDeleteById api i e) = ERROR_SUCCESS \<longrightarrow>
        inTx (snd (FilterDeleteById api i e)) = filter (\<lambda>x. fst x \<noteq> i) (inTx e)) \<and>
      (fst (FilterDeleteById api i e) = FWP_E_FILTER_NOT_FOUND \<longrightarrow>
        i \<notin> fst ` set (inTx e) \<and> inTx (snd (FilterDeleteById api i e)) = inTx e)) \<and>
    (\<forall>f e. inForce (snd (snd (FilterAdd api f e))) = inForce e \<and>
      (fst (FilterAdd api f e) = ERROR_SUCCESS \<longrightarrow>
        inTx (snd (snd (FilterAdd api f e))) = inTx e @ [(fst (snd (FilterAdd api f e)), f)]))"

text \<open>The filters a list of descriptions stands for, when every image resolves.\<close>

definition build_filter :: "(string \<Rightarrow> u32 + 'b) \<Rightarrow> WfpFilterSpec \<Rightarrow> WfpError + 'b FwpmFilter" where
  "build_filter appId spec = map_sum id (make_filter spec) (BuildConditions appId (sConditions spec))"

definition built :: "(string \<Rightarrow> u32 + 'b) \<Rightarrow> WfpFilterSpec list \<Rightarrow> 'b FwpmFilter list \<Rightarrow> bool" where
  "built appId specs fs = list_all2 (\<lambda>spec f. build_filter appId spec = Inr f) specs fs"

text \<open>The object knows every filter of its session; a closed session has none.\<close>

definition policy_inv :: "('e \<Rightarrow> (u64 \<times> 'b FwpmFilter) list) \<Rightarrow> WfpPolicy \<Rightarrow> 'e \<Rightarrow> bool" where
  "policy_inv inForce w e \<longleftrightarrow>
    pFilterIds w = map fst (inForce e) \<and> (\<not> pEngine w \<longrightarrow> inForce e = [] \<and> pState w = Wfp_Off)"

definition apply_step ::
    "('e, 'b) Fwpm \<Rightarrow> (string \<Rightarrow> u32 option) \<Rightarrow> (string \<Rightarrow> 8 word list option) \<Rightarrow>
     WfpPolicy \<times> 'e \<Rightarrow> WfpState \<times> WfpConfig \<Rightarrow> WfpPolicy \<times> 'e" where
  "apply_step api inet4 inet6 s call =
    (case ApplyLocked api inet4 inet6 (fst call) (snd call) (fst s) (snd s) of
       (ok, w, e, notices) \<Rightarrow> (w, e))"

definition policy_good ::
    "('e, 'b) Fwpm \<Rightarrow> ('e \<Rightarrow> (u64 \<times> 'b FwpmFilter) list) \<Rightarrow> ('e \<Rightarrow> (u64 \<times> 'b FwpmFilter) list) \<Rightarrow>
     (string \<Rightarrow> u32 option) \<Rightarrow> (string \<Rightarrow> 8 word list option) \<Rightarrow> WfpPolicy \<times> 'e \<Rightarrow> bool" where
  "policy_good api inForce inTx inet4 inet6 s \<longleftrightarrow>
    fwpm_contract api inForce inTx \<and> policy_inv inForce (fst s) (snd s) \<and>
    (\<exists>cfg. built (AppIdFromFileName api) (BuildFilterSet inet4 inet6 (pState (fst s)) cfg)
      (map snd (inForce (snd s))))"

text \<open>An engine that follows the rules: the next identifier, the filters in force, the open transaction.\<close>

definition engine_sample ::
    "(u64 \<times> (u64 \<times> string FwpmFilter) list \<times> (u64 \<times> string FwpmFilter) list, string) Fwpm" where
  "engine_sample =
    \<lparr>EngineOpen = Pair 0,
     EngineClose = (\<lambda>(n, f, t). (n, [], [])),
     TransactionBegin = (\<lambda>(n, f, t). (0, (n, f, f))),
     TransactionCommit = (\<lambda>(n, f, t). (0, (n, t, t))),
     TransactionAbort = (\<lambda>(n, f, t). (n, f, f)),
     ProviderAdd = (\<lambda>key. Pair 0),
     SubLayerAdd = (\<lambda>key weight. Pair 0),
     ProviderFlags = (\<lambda>key e. Some 0),
     FilterDeleteById = (\<lambda>i (n, f, t).
       (if i \<in> fst ` set t then 0 else FWP_E_FILTER_NOT_FOUND, (n, f, filter (\<lambda>x. fst x \<noteq> i) t))),
     FilterAdd = (\<lambda>x (n, f, t). (0, n, (n + 1, f, t @ [(n, x)]))),
     AppIdFromFileName = Inr\<rparr>"

definition inet4_sample :: "string \<Rightarrow> u32 option" where
  "inet4_sample s = (if s = ''1.1.1.1'' then Some 0x01010101 else None)"

definition inet6_sample :: "string \<Rightarrow> 8 word list option" where
  "inet6_sample s = (if s = ''::'' then Some (replicate 16 0) else None)"

definition config_sample :: WfpConfig where
  "config_sample = \<lparr>tun_luid = 7, tunnel_resolvers_v4 = [''1.1.1.1''], tunnel_resolvers_v6 = [],
    tunnel_ipv6 = True, host_resolvers_v4 = [''1.1.1.1''], allow_lan = True,
    block_ipv6_when_disconnected = True, block_local_name_resolution = True,
    service_image_path = ''urnetworkd.exe'', app_image_path = ''URnetwork.exe''\<rparr>"

section \<open>The swap\<close>

lemma contractD:
  assumes "fwpm_contract api inForce inTx"
  shows "EngineOpen api e = (rc, e') \<Longrightarrow> inForce e' = inForce e"
    and "inForce (EngineClose api e) = []"
    and "TransactionBegin api e = (rc, e') \<Longrightarrow>
      inForce e' = inForce e \<and> (rc = ERROR_SUCCESS \<longrightarrow> inTx e' = inForce e)"
    and "TransactionCommit api e = (rc, e') \<Longrightarrow>
      inForce e' = (if rc = ERROR_SUCCESS then inTx e else inForce e)"
    and "inForce (TransactionAbort api e) = inForce e"
    and "ProviderAdd api key e = (rc, e') \<Longrightarrow> inForce e' = inForce e \<and> inTx e' = inTx e"
    and "SubLayerAdd api key n e = (rc, e') \<Longrightarrow> inForce e' = inForce e \<and> inTx e' = inTx e"
    and "FilterDeleteById api i e = (rc, e') \<Longrightarrow> inForce e' = inForce e \<and>
      (rc = ERROR_SUCCESS \<or> rc = FWP_E_FILTER_NOT_FOUND \<longrightarrow> inTx e' = filter (\<lambda>x. fst x \<noteq> i) (inTx e))"
    and "FilterAdd api f e = (rc, j, e') \<Longrightarrow> inForce e' = inForce e \<and>
      (rc = ERROR_SUCCESS \<longrightarrow> inTx e' = inTx e @ [(j, f)])"
proof -
  note c = assms [unfolded fwpm_contract_def]
  show "EngineOpen api e = (rc, e') \<Longrightarrow> inForce e' = inForce e" using c by (metis snd_conv)
  show "inForce (EngineClose api e) = []" "inForce (TransactionAbort api e) = inForce e" using c by simp_all
  show "TransactionBegin api e = (rc, e') \<Longrightarrow>
      inForce e' = inForce e \<and> (rc = ERROR_SUCCESS \<longrightarrow> inTx e' = inForce e)"
    using c by (metis fst_conv snd_conv)
  show "TransactionCommit api e = (rc, e') \<Longrightarrow>
      inForce e' = (if rc = ERROR_SUCCESS then inTx e else inForce e)"
    using c by (metis fst_conv snd_conv)
  show "ProviderAdd api key e = (rc, e') \<Longrightarrow> inForce e' = inForce e \<and> inTx e' = inTx e"
    using c by (metis snd_conv)
  show "SubLayerAdd api key n e = (rc, e') \<Longrightarrow> inForce e' = inForce e \<and> inTx e' = inTx e"
    using c by (metis snd_conv)
  show "FilterAdd api f e = (rc, j, e') \<Longrightarrow> inForce e' = inForce e \<and>
      (rc = ERROR_SUCCESS \<longrightarrow> inTx e' = inTx e @ [(j, f)])"
    using c by (metis fst_conv snd_conv)
  show "inForce e' = inForce e \<and>
      (rc = ERROR_SUCCESS \<or> rc = FWP_E_FILTER_NOT_FOUND \<longrightarrow> inTx e' = filter (\<lambda>x. fst x \<noteq> i) (inTx e))"
    if d: "FilterDeleteById api i e = (rc, e')"
  proof -
    have "inForce e' = inForce e"
      and "rc = ERROR_SUCCESS \<longrightarrow> inTx e' = filter (\<lambda>x. fst x \<noteq> i) (inTx e)"
      and "rc = FWP_E_FILTER_NOT_FOUND \<longrightarrow> i \<notin> fst ` set (inTx e) \<and> inTx e' = inTx e"
      using c d by (metis fst_conv snd_conv)+
    moreover have "i \<notin> fst ` set (inTx e) \<Longrightarrow> filter (\<lambda>x. fst x \<noteq> i) (inTx e) = inTx e"
      by (auto simp: filter_id_conv)
    ultimately show ?thesis by metis
  qed
qed

lemma add_sublayers_inForce:
  assumes "fwpm_contract api inForce inTx"
  shows "add_sublayers api subs e = (r, e') \<Longrightarrow> inForce e' = inForce e \<and> inTx e' = inTx e"
proof (induction subs arbitrary: e)
  case (Cons s subs)
  then show ?case
    by (cases s) (auto split: prod.splits if_splits dest: contractD(7) [OF assms])
qed simp

lemma delete_filters_inTx:
  assumes "fwpm_contract api inForce inTx"
  shows "delete_filters api ids e = (r, e') \<Longrightarrow> inForce e' = inForce e \<and>
    (r = None \<longrightarrow> inTx e' = filter (\<lambda>x. fst x \<notin> set ids) (inTx e))"
proof (induction ids arbitrary: e)
  case (Cons i ids)
  then obtain rc e1 where d: "FilterDeleteById api i e = (rc, e1)" by (cases "FilterDeleteById api i e")
  show ?case
  proof (cases "rc \<noteq> ERROR_SUCCESS \<and> rc \<noteq> FWP_E_FILTER_NOT_FOUND")
    case True
    then show ?thesis using Cons.prems d contractD(8) [OF assms d] by auto
  next
    case False
    then have "delete_filters api ids e1 = (r, e')" using Cons.prems d by auto
    from Cons.IH [OF this] False show ?thesis
      using contractD(8) [OF assms d] by (auto intro: filter_cong)
  qed
qed simp

lemma add_filters_inTx:
  assumes "fwpm_contract api inForce inTx"
  shows "add_filters api specs e = (r, e') \<Longrightarrow> inForce e' = inForce e \<and>
    (\<forall>ids. r = Inr ids \<longrightarrow> (\<exists>fs. built (AppIdFromFileName api) specs fs \<and> length ids = length fs \<and>
      inTx e' = inTx e @ zip ids fs))"
proof (induction specs arbitrary: e r e')
  case Nil
  then show ?case by (auto simp: built_def)
next
  case (Cons spec specs)
  show ?case
  proof (cases "BuildConditions (AppIdFromFileName api) (sConditions spec)")
    case (Inl x)
    then show ?thesis using Cons.prems by auto
  next
    case (Inr conds)
    obtain rc j e1 where d: "FilterAdd api (make_filter spec conds) e = (rc, j, e1)"
      by (cases "FilterAdd api (make_filter spec conds) e") auto
    note cd = contractD(9) [OF assms d]
    obtain r2 e2 where rest: "add_filters api specs e1 = (r2, e2)" by (cases "add_filters api specs e1")
    note IH = Cons.IH [OF rest]
    have b: "build_filter (AppIdFromFileName api) spec = Inr (make_filter spec conds)"
      using Inr by (simp add: build_filter_def)
    show ?thesis
    proof (cases "rc = ERROR_SUCCESS")
      case False
      then show ?thesis using Cons.prems Inr d cd by auto
    next
      case True
      show ?thesis
      proof (cases r2)
        case (Inl y)
        then show ?thesis using Cons.prems Inr d True rest cd IH by auto
      next
        case ids: (Inr ids)
        then have r: "r = Inr (j # ids)" "e' = e2" using Cons.prems Inr d True rest by auto
        from IH ids obtain fs where fs: "built (AppIdFromFileName api) specs fs" "length ids = length fs"
          "inTx e2 = inTx e1 @ zip ids fs" by auto
        have "built (AppIdFromFileName api) (spec # specs) (make_filter spec conds # fs)"
          using fs(1) b by (simp add: built_def)
        then show ?thesis using r fs cd True IH
          by (intro conjI) (auto intro!: exI [of _ "make_filter spec conds # fs"])
      qed
    qed
  qed
qed

lemma OpenEngine_inForce:
  assumes c: "fwpm_contract api inForce inTx" and inv: "policy_inv inForce w e"
    and o: "OpenEngine api w e = (opened, w', e')"
  shows "inForce e' = inForce e \<and> pFilterIds w' = pFilterIds w \<and> pState w' = pState w \<and>
    (if opened then pEngine w' else pEngine w' = pEngine w)"
proof (cases "pEngine w")
  case False
  then have "inForce e = []" using inv by (simp add: policy_inv_def)
  then show ?thesis using o False
    by (auto simp: OpenEngine_def contractD(2,5) [OF c]
      split: prod.splits if_splits option.splits dest!: contractD(1,3,4,6) [OF c] add_sublayers_inForce [OF c])
qed (use o in \<open>auto simp: OpenEngine_def\<close>)

lemma swap_filters_exact:
  assumes c: "fwpm_contract api inForce inTx" and s: "swap_filters api (map fst (inForce e)) specs e = (r, e')"
  shows "case r of Inl failed \<Rightarrow> inForce e' = inForce e
    | Inr ids \<Rightarrow> \<exists>fs. built (AppIdFromFileName api) specs fs \<and> length ids = length fs \<and> inForce e' = zip ids fs"
proof -
  obtain rc e1 where b: "TransactionBegin api e = (rc, e1)" by (cases "TransactionBegin api e")
  obtain del e2 where d: "delete_filters api (map fst (inForce e)) e1 = (del, e2)"
    by (cases "delete_filters api (map fst (inForce e)) e1")
  obtain ad e3 where a: "add_filters api specs e2 = (ad, e3)" by (cases "add_filters api specs e2")
  obtain rc4 e4 where m: "TransactionCommit api e3 = (rc4, e4)" by (cases "TransactionCommit api e3")
  have b1: "inForce e1 = inForce e" and b2: "rc = ERROR_SUCCESS \<Longrightarrow> inTx e1 = inForce e"
    using contractD(3) [OF c b] by auto
  have d1: "inForce e2 = inForce e"
    and d2: "del = None \<Longrightarrow> rc = ERROR_SUCCESS \<Longrightarrow> inTx e2 = []"
    using delete_filters_inTx [OF c d] b1 b2 by (auto simp: filter_empty_conv)
  have a1: "inForce e3 = inForce e"
    and a2: "ad = Inr ids \<Longrightarrow> \<exists>fs. built (AppIdFromFileName api) specs fs \<and> length ids = length fs \<and>
      inTx e3 = inTx e2 @ zip ids fs" for ids
    using add_filters_inTx [OF c a] d1 by auto
  have m1: "inForce e4 = (if rc4 = ERROR_SUCCESS then inTx e3 else inForce e)"
    using contractD(4) [OF c m] a1 by auto
  have ab: "inForce (TransactionAbort api x) = inForce x" for x by (rule contractD(5) [OF c])
  show ?thesis
  proof (cases "rc = ERROR_SUCCESS \<and> del = None")
    case True
    then show ?thesis using s b d a m a1 a2 d2 m1 ab
      by (cases ad) (auto simp: swap_filters_def split: if_splits)
  next
    case False
    then show ?thesis using s b d b1 d1 ab by (cases del) (auto simp: swap_filters_def split: if_splits)
  qed
qed

lemma apply_atomic_cases:
  assumes c: "fwpm_contract api inForce inTx" and inv: "policy_inv inForce w e"
    and a: "ApplyLocked api inet4 inet6 state cfg w e = (ok, w', e', notices)"
  shows "policy_inv inForce w' e' \<and> (if ok then pState w' = state \<and>
      built (AppIdFromFileName api) (BuildFilterSet inet4 inet6 state cfg) (map snd (inForce e'))
    else inForce e' = inForce e \<and> pState w' = pState w)"
proof (cases "state = Wfp_Off")
  case True
  then show ?thesis using a inv
    by (auto simp: ApplyLocked_def RevertLocked_def CloseEngine_def BuildFilterSet_def built_def policy_inv_def
        contractD(2) [OF c] Let_def split: if_splits prod.splits)
next
  case on: False
  let ?w = "w\<lparr>pLastError := None\<rparr>"
  have invw: "policy_inv inForce ?w e" using inv by (simp add: policy_inv_def)
  obtain opened w1 e1 where o: "OpenEngine api ?w e = (opened, w1, e1)" by (cases "OpenEngine api ?w e") auto
  note o' = OpenEngine_inForce [OF c invw o]
  show ?thesis
  proof (cases opened)
    case False
    then show ?thesis using a on o o' inv by (auto simp: ApplyLocked_def policy_inv_def)
  next
    case True
    with o' inv have w1: "pEngine w1" "pFilterIds w1 = map fst (inForce e1)" "pState w1 = pState w"
      "inForce e1 = inForce e" by (auto simp: policy_inv_def)
    obtain r e2 where s: "swap_filters api (map fst (inForce e1)) (BuildFilterSet inet4 inet6 state cfg) e1 = (r, e2)"
      by (cases "swap_filters api (map fst (inForce e1)) (BuildFilterSet inet4 inet6 state cfg) e1")
    show ?thesis
      using swap_filters_exact [OF c s] a on o True w1 s
      by (cases r) (auto simp: ApplyLocked_def Let_def policy_inv_def)
  qed
qed

lemma apply_atomic_core:
  assumes "fwpm_contract api inForce inTx" and "policy_inv inForce w e"
    and "ApplyLocked api inet4 inet6 state cfg w e = (ok, w', e', notices)"
  shows "policy_inv inForce w' e'"
    and "ok \<Longrightarrow> pState w' = state \<and>
      built (AppIdFromFileName api) (BuildFilterSet inet4 inet6 state cfg) (map snd (inForce e'))"
    and "\<not> ok \<Longrightarrow> inForce e' = inForce e \<and> pState w' = pState w"
  using apply_atomic_cases [OF assms] by simp_all

interpretation swaps: observer "apply_step api inet4 inet6" "policy_good api inForce inTx inet4 inet6" "\<lambda>_ _. True"
  for api :: "('e, 'b) Fwpm" and inForce inTx inet4 inet6
proof
  fix s :: "WfpPolicy \<times> 'e" and call :: "WfpState \<times> WfpConfig"
  assume good: "policy_good api inForce inTx inet4 inet6 s"
  obtain ok w e notices where a: "ApplyLocked api inet4 inet6 (fst call) (snd call) (fst s) (snd s) = (ok, w, e, notices)"
    by (cases "ApplyLocked api inet4 inet6 (fst call) (snd call) (fst s) (snd s)") auto
  have c: "fwpm_contract api inForce inTx" and inv: "policy_inv inForce (fst s) (snd s)"
    using good by (simp_all add: policy_good_def)
  note core = apply_atomic_core [OF c inv a]
  show "policy_good api inForce inTx inet4 inet6 (apply_step api inet4 inet6 s call)"
    using good core by (cases ok) (auto simp: policy_good_def apply_step_def a)
qed

lemma engine_sample_contract: "fwpm_contract engine_sample (\<lambda>e. fst (snd e)) (\<lambda>e. snd (snd e))"
  by (auto simp: fwpm_contract_def engine_sample_def ERROR_SUCCESS_def FWP_E_FILTER_NOT_FOUND_def filter_id_conv)

text \<open>The sweep: looking changes nothing, and a purge touches exactly the objects it counted.\<close>

lemma sweep_counts:
  "SweepOrphanedObjects openErr filters subs providers beginErr remove = (n, steps) \<Longrightarrow>
    (if steps = [] then \<not> remove \<or> n = 0
     else beginErr = ERROR_SUCCESS \<longrightarrow>
       length (filter (\<lambda>s. s \<noteq> PurgeBegin \<and> s \<noteq> PurgeCommit) steps) = n)"
  by (auto simp: SweepOrphanedObjects_def Let_def filter_map comp_def split: if_splits)

section \<open>The port-53 window\<close>

lemmas condition_defs = cond_init_def CondAppId_def CondLoopback_def CondLocalInterface_def CondProtocol_def
  CondLocalPort_def CondRemotePort_def CondRemoteV4_def CondV6_def CondRemoteV6Prefix_def PushUdpTcp_def
  dns_conditions_def

lemmas baseline_groups = service_permits_def app_permits_def loopback_permits_def tun_permits_def
  lan_permits_def dhcpv4_permits_def dhcpv6_permits_def ndp_permits_def dns_lift_def floor_blocks_def
  v4_pair_def v6_pair_def

lemmas dns_groups = service_dns_permits_def app_dns_permits_def host_resolver_permit_def
  tunnel_resolver_permits_def tunnel_resolver6_permits_def loopback_dns_permits_def dns_block_def
  local_name_blocks_def local_name_sets_def

lemma baseline_sublayer: "f \<in> set (baseline_filters state cfg) \<Longrightarrow> sSublayer f = Sub_Baseline"
  by (auto simp: baseline_filters_def baseline_groups Spec_def split: if_splits)

lemma dns_sublayer: "f \<in> set (dns_filters inet4 inet6 state cfg) \<Longrightarrow> sSublayer f = Sub_Dns"
  by (auto simp: dns_filters_def dns_groups Spec_def Let_def split: if_splits)

lemma host_resolver_scan:
  "scan_dns_permit (map (\<lambda>a. CondRemoteV4 a 32) as) p q \<longleftrightarrow> p \<and> (q \<or> as \<noteq> [])"
  by (induction as arbitrary: q) (auto simp: condition_defs)

lemma no_structural_baseline:
  "list_ex IsMachineWideDnsPermit (baseline_filters state cfg) = False"
  "list_ex IsDnsPort53Block (baseline_filters state cfg) = False"
  by (auto simp: list_ex_iff IsMachineWideDnsPermit_def IsDnsPort53Block_def dest!: baseline_sublayer)

lemma machine_wide_groups:
  "list_ex IsMachineWideDnsPermit (service_dns_permits cfg) = False"
  "list_ex IsMachineWideDnsPermit (app_dns_permits state cfg) = False"
  "list_ex IsMachineWideDnsPermit (tunnel_resolver_permits inet4 state cfg) = False"
  "list_ex IsMachineWideDnsPermit (tunnel_resolver6_permits inet6 state cfg) = False"
  "list_ex IsMachineWideDnsPermit loopback_dns_permits = False"
  "list_ex IsMachineWideDnsPermit (dns_block state p) = False"
  "list_ex IsMachineWideDnsPermit (local_name_blocks cfg) = False"
  by (auto simp: dns_groups Spec_def IsMachineWideDnsPermit_def list_ex_iff condition_defs Let_def
      kPortDns_def split: if_splits)

lemma machine_wide_host:
  "list_ex IsMachineWideDnsPermit (host_resolver_permit inet4 state cfg) \<longleftrightarrow>
    state = Wfp_Connecting \<and> List.map_filter inet4 (host_resolvers_v4 cfg) \<noteq> []"
  by (auto simp: host_resolver_permit_def Let_def Spec_def IsMachineWideDnsPermit_def dns_conditions_def
      PushUdpTcp_def CondProtocol_def CondRemotePort_def cond_init_def host_resolver_scan)

lemma port53_groups:
  "list_ex IsDnsPort53Block (service_dns_permits cfg) = False"
  "list_ex IsDnsPort53Block (app_dns_permits state cfg) = False"
  "list_ex IsDnsPort53Block (tunnel_resolver_permits inet4 state cfg) = False"
  "list_ex IsDnsPort53Block (tunnel_resolver6_permits inet6 state cfg) = False"
  "list_ex IsDnsPort53Block loopback_dns_permits = False"
  "list_ex IsDnsPort53Block (local_name_blocks cfg) = False"
  "list_ex IsDnsPort53Block (host_resolver_permit inet4 state cfg) = False"
  by (auto simp: dns_groups Spec_def IsDnsPort53Block_def list_ex_iff condition_defs Let_def
      kPortDns_def kPortLlmnr_def kPortMdns_def kPortNetbiosNs_def kPortNetbiosDgm_def kPortNetbiosSsn_def
      split: if_splits)

lemma port53_dns_block: "list_ex IsDnsPort53Block (dns_block state p) \<longleftrightarrow> \<not> AttemptsConnection state \<or> p"
  by (simp add: dns_block_def Spec_def IsDnsPort53Block_def condition_defs)

lemma shared_dns_path_iff:
  "shared_dns_path inet4 inet6 state cfg \<longleftrightarrow>
    state = Wfp_Connecting \<and> List.map_filter inet4 (host_resolvers_v4 cfg) \<noteq> [] \<or>
    state = Wfp_Connected \<and> tun_luid cfg \<noteq> 0 \<and>
      (List.map_filter inet4 (tunnel_resolvers_v4 cfg) \<noteq> [] \<or>
       tunnel_ipv6 cfg \<and> List.map_filter inet6 (tunnel_resolvers_v6 cfg) \<noteq> [])"
  by (auto simp: shared_dns_path_def host_resolver_permit_def tunnel_resolver_permits_def
      tunnel_resolver6_permits_def tunnelV6_def Let_def List.map_filter_def)

lemma structural_questions:
  "list_ex IsMachineWideDnsPermit (BuildFilterSet inet4 inet6 state cfg) \<longleftrightarrow>
    state = Wfp_Connecting \<and> List.map_filter inet4 (host_resolvers_v4 cfg) \<noteq> []"
  "list_ex IsDnsPort53Block (BuildFilterSet inet4 inet6 state cfg) \<longleftrightarrow>
    state = Wfp_Armed \<or> shared_dns_path inet4 inet6 state cfg"
  by (cases state; simp add: BuildFilterSet_def no_structural_baseline dns_filters_def machine_wide_groups
      machine_wide_host port53_groups port53_dns_block AttemptsConnection_def shared_dns_path_iff)+

section \<open>Properties\<close>

text \<open>
  (C4) Whatever sequence of policy changes is requested, and whichever of the engine's calls fail, the
  filters in force are the filter set of exactly the state the object reports, for some
  configuration, and the object holds the identifier of each: no filter of an earlier policy
  survives beside a later one.
\<close>

theorem policy_never_mixed:
  assumes "fwpm_contract api inForce inTx" and "inForce e0 = []"
  shows "case foldl (apply_step api inet4 inet6) (InitPolicy, e0) calls of (w, e) \<Rightarrow>
    map fst (inForce e) = pFilterIds w \<and>
    (\<exists>cfg. built (AppIdFromFileName api) (BuildFilterSet inet4 inet6 (pState w) cfg) (map snd (inForce e)))"
proof -
  have "policy_good api inForce inTx inet4 inet6 (InitPolicy, e0)"
    using assms by (simp add: policy_good_def policy_inv_def InitPolicy_def BuildFilterSet_def built_def)
  from swaps.run_good_total [OF this, of calls] show ?thesis
    by (auto simp: policy_good_def policy_inv_def split: prod.split)
qed

theorem policy_never_mixed_witness:
  "case foldl (apply_step engine_sample inet4_sample inet6_sample) (InitPolicy, (1, [], []))
      [(Wfp_Armed, config_sample), (Wfp_Connecting, config_sample), (Wfp_Connected, config_sample)] of (w, e) \<Rightarrow>
    map fst (fst (snd e)) = pFilterIds w \<and>
    (\<exists>cfg. built Inr (BuildFilterSet inet4_sample inet6_sample (pState w) cfg) (map snd (fst (snd e))))"
  using policy_never_mixed [of engine_sample "\<lambda>e. fst (snd e)" "\<lambda>e. snd (snd e)" "(1, [], [])" inet4_sample inet6_sample
    "[(Wfp_Armed, config_sample), (Wfp_Connecting, config_sample), (Wfp_Connected, config_sample)]"]
    engine_sample_contract by (simp add: engine_sample_def)

text \<open>
  (C7) One change is all or nothing: either the call succeeds, the object is in the requested state and
  precisely that state's filter set is in force, or it reports failure and the previous set, state
  and filter count are untouched.
\<close>

theorem policy_swap_atomic:
  assumes "fwpm_contract api inForce inTx" and "policy_inv inForce w e"
    and "ApplyLocked api inet4 inet6 state cfg w e = (ok, w', e', notices)"
  shows "if ok then pState w' = state \<and> FilterCount w' = length (BuildFilterSet inet4 inet6 state cfg) \<and>
      built (AppIdFromFileName api) (BuildFilterSet inet4 inet6 state cfg) (map snd (inForce e'))
    else inForce e' = inForce e \<and> pState w' = pState w \<and> FilterCount w' = FilterCount w"
proof -
  note core = apply_atomic_core [OF assms]
  have "length (pFilterIds w') = length (inForce e')" using core(1) by (simp add: policy_inv_def)
  moreover have "length (pFilterIds w) = length (inForce e)" using assms(2) by (simp add: policy_inv_def)
  ultimately show ?thesis using core(2,3)
    by (auto simp: FilterCount_def built_def dest!: list_all2_lengthD)
qed

theorem policy_swap_atomic_witness:
  "case ApplyLocked engine_sample inet4_sample inet6_sample Wfp_Armed config_sample InitPolicy (1, [], []) of
    (ok, w, e, notices) \<Rightarrow>
      if ok then pState w = Wfp_Armed \<and>
        FilterCount w = length (BuildFilterSet inet4_sample inet6_sample Wfp_Armed config_sample)
      else FilterCount w = 0"
proof -
  obtain ok w e notices where a:
    "ApplyLocked engine_sample inet4_sample inet6_sample Wfp_Armed config_sample InitPolicy (1, [], []) = (ok, w, e, notices)"
    by (metis prod_cases4)
  have "policy_inv (\<lambda>e. fst (snd e)) InitPolicy (1 :: u64, [], [])" by (simp add: policy_inv_def InitPolicy_def)
  from policy_swap_atomic [OF engine_sample_contract this a] 
  show ?thesis unfolding a by (simp add: FilterCount_def InitPolicy_def split: if_splits)
qed

text \<open>
  The two questions the log is written from are answered by the policy itself. A machine-wide
  plaintext DNS permit exists exactly while a connection attempt is in flight and the host has a
  resolver that parses; the port-53 block is installed in the armed state always and in the states
  that attempt a connection exactly when they have a path to a resolver; and the notices written
  after a swap say precisely that.
\<close>

theorem dns_window_exact:
  "(list_ex IsMachineWideDnsPermit (BuildFilterSet inet4 inet6 state cfg) \<longleftrightarrow>
      state = Wfp_Connecting \<and> List.map_filter inet4 (host_resolvers_v4 cfg) \<noteq> []) \<and>
   (list_ex IsDnsPort53Block (BuildFilterSet inet4 inet6 state cfg) \<longleftrightarrow>
      state = Wfp_Armed \<or> shared_dns_path inet4 inet6 state cfg) \<and>
   apply_notices state (BuildFilterSet inet4 inet6 state cfg) =
     (case state of
        Wfp_Off \<Rightarrow> []
      | Wfp_Armed \<Rightarrow> [DnsWindowClosed]
      | Wfp_Connecting \<Rightarrow> if shared_dns_path inet4 inet6 state cfg then [DnsWindowOpen] else [HardBlockNotInForce]
      | Wfp_Connected \<Rightarrow> if shared_dns_path inet4 inet6 state cfg then [] else [HardBlockNotInForce])"
  by (cases state) (auto simp: structural_questions apply_notices_def Let_def AttemptsConnection_def shared_dns_path_iff)

end
