(* ===== verification/WfpVerdict.thy ===== *)
theory WfpVerdict
  imports WfpPolicy
begin

unbundle bit_operations_syntax

text \<open>
  What the filter sets of \<open>WfpPolicy\<close> do to traffic. The verdict is the filter engine's, a
  parameter \<open>permits\<close> of every statement; \<open>wfp_arbitration\<close> is its documented rule, the one the
  sources' comments rely on: conditions on one field are alternatives and different fields are
  joint, inside a sublayer a matching filter of higher weight decides, and across sublayers a
  block wins over a permit. \<open>verdict_sample\<close> is a function that follows it.
\<close>

section \<open>Flows and the engine's rule\<close>

record 'b Flow =
  flowApp :: 'b
  flowFlags :: u32
  flowInterface :: u64
  flowProtocol :: "8 word"
  flowLocalPort :: "16 word"
  flowRemotePort :: "16 word"
  flowLocalV4 :: u32
  flowRemoteV4 :: u32
  flowLocalV6 :: "u64 \<times> u64"
  flowRemoteV6 :: "u64 \<times> u64"

definition v4_agrees :: "u32 \<Rightarrow> u32 \<Rightarrow> u32 \<Rightarrow> bool" where
  "v4_agrees a addr m \<longleftrightarrow> a AND m = addr AND m"

definition v6_agrees :: "u64 \<times> u64 \<Rightarrow> 8 word list \<Rightarrow> nat \<Rightarrow> bool" where
  "v6_agrees a addr p \<longleftrightarrow>
    fst a AND MaskHi6 p = hi (FromBytes addr p) AND MaskHi6 p \<and>
    snd a AND MaskLo6 p = lo (FromBytes addr p) AND MaskLo6 p"

fun value_holds :: "FwpmField \<Rightarrow> WfpMatch \<Rightarrow> 'b FwpValue \<Rightarrow> 'b Flow \<Rightarrow> bool" where
  "value_holds ALE_APP_ID m (FwpByteBlob b) x = (flowApp x = b)"
| "value_holds FLAGS m (FwpUint32 n) x =
    (if m = FlagsAllSet then flowFlags x AND n = n else flowFlags x = n)"
| "value_holds IP_LOCAL_INTERFACE m (FwpUint64 n) x = (flowInterface x = n)"
| "value_holds IP_PROTOCOL m (FwpUint8 n) x = (flowProtocol x = n)"
| "value_holds IP_LOCAL_PORT m (FwpUint16 n) x = (flowLocalPort x = n)"
| "value_holds IP_REMOTE_PORT m (FwpUint16 n) x = (flowRemotePort x = n)"
| "value_holds IP_LOCAL_ADDRESS m (FwpV4AddrMask a k) x = v4_agrees (flowLocalV4 x) a k"
| "value_holds IP_REMOTE_ADDRESS m (FwpV4AddrMask a k) x = v4_agrees (flowRemoteV4 x) a k"
| "value_holds IP_LOCAL_ADDRESS m (FwpV6AddrMask a p) x = v6_agrees (flowLocalV6 x) a p"
| "value_holds IP_REMOTE_ADDRESS m (FwpV6AddrMask a p) x = v6_agrees (flowRemoteV6 x) a p"
| "value_holds _ _ _ _ = False"

definition condition_holds :: "'b FwpmCondition \<Rightarrow> 'b Flow \<Rightarrow> bool" where
  "condition_holds c x = value_holds (fcField c) (fcMatch c) (fcValue c) x"

text \<open>Same field: one of them; different fields: all of them.\<close>

definition filter_matches :: "'b FwpmFilter \<Rightarrow> 'b Flow \<Rightarrow> bool" where
  "filter_matches f x =
    list_all (\<lambda>c. list_ex (\<lambda>d. fcField d = fcField c \<and> condition_holds d x) (ffConditions f)) (ffConditions f)"

text \<open>A block stands unless a permit of higher weight in the same sublayer matches too.\<close>

definition stands :: "'b FwpmFilter list \<Rightarrow> FwpmLayer \<Rightarrow> 'b Flow \<Rightarrow> 'b FwpmFilter \<Rightarrow> bool" where
  "stands fs l x f \<longleftrightarrow>
    ffLayer f = l \<and> ffBlock f \<and> filter_matches f x \<and>
    \<not> list_ex (\<lambda>g. ffLayer g = l \<and> ffSublayer g = ffSublayer f \<and> \<not> ffBlock g \<and> filter_matches g x \<and>
        ffWeight f < ffWeight g) fs"

definition wfp_arbitration :: "('b FwpmFilter list \<Rightarrow> FwpmLayer \<Rightarrow> 'b Flow \<Rightarrow> bool) \<Rightarrow> bool" where
  "wfp_arbitration permits \<longleftrightarrow> (\<forall>fs l x. permits fs l x \<longleftrightarrow> (\<forall>f\<in>set fs. \<not> stands fs l x f))"

definition verdict_sample :: "'b FwpmFilter list \<Rightarrow> FwpmLayer \<Rightarrow> 'b Flow \<Rightarrow> bool" where
  "verdict_sample fs l x = list_all (\<lambda>f. \<not> stands fs l x f) fs"

lemma verdict_sample_arbitration: "wfp_arbitration verdict_sample"
  by (simp add: wfp_arbitration_def verdict_sample_def list_all_iff)

section \<open>The kinds of traffic the policy speaks of\<close>

definition from_image :: "(string \<Rightarrow> u32 + 'b) \<Rightarrow> string \<Rightarrow> 'b Flow \<Rightarrow> bool" where
  "from_image appId path x \<longleftrightarrow> path \<noteq> '''' \<and> appId path = Inr (flowApp x)"

definition is_loopback :: "'b Flow \<Rightarrow> bool" where
  "is_loopback x \<longleftrightarrow> flowFlags x AND 1 = 1"

definition udp_or_tcp :: "'b Flow \<Rightarrow> bool" where
  "udp_or_tcp x \<longleftrightarrow> flowProtocol x = 17 \<or> flowProtocol x = 6"

definition is_dns :: "'b Flow \<Rightarrow> bool" where
  "is_dns x \<longleftrightarrow> udp_or_tcp x \<and> flowRemotePort x = 53"

definition is_local_name :: "'b Flow \<Rightarrow> bool" where
  "is_local_name x \<longleftrightarrow> udp_or_tcp x \<and> flowRemotePort x \<in> {5355, 5353, 137, 138, 139}"

definition is_dhcp_request :: "'b Flow \<Rightarrow> bool" where
  "is_dhcp_request x \<longleftrightarrow>
    flowProtocol x = 17 \<and> flowLocalPort x = 68 \<and> flowRemotePort x = 67 \<and> flowRemoteV4 x = 0xFFFFFFFF"

definition on_tun :: "WfpState \<Rightarrow> WfpConfig \<Rightarrow> 'b Flow \<Rightarrow> bool" where
  "on_tun state cfg x \<longleftrightarrow> state = Wfp_Connected \<and> tun_luid cfg \<noteq> 0 \<and> flowInterface x = tun_luid cfg"

definition own_traffic :: "(string \<Rightarrow> u32 + 'b) \<Rightarrow> WfpState \<Rightarrow> WfpConfig \<Rightarrow> 'b Flow \<Rightarrow> bool" where
  "own_traffic appId state cfg x \<longleftrightarrow>
    from_image appId (service_image_path cfg) x \<or>
    AttemptsConnection state \<and> from_image appId (app_image_path cfg) x"

section \<open>From filters back to descriptions\<close>

text \<open>The same rule on the descriptions, before they are translated.\<close>

definition spec_holds :: "(string \<Rightarrow> u32 + 'b) \<Rightarrow> WfpCondition \<Rightarrow> 'b Flow \<Rightarrow> bool" where
  "spec_holds appId c x =
    (case build_value appId c of Inl e \<Rightarrow> False | Inr v \<Rightarrow> value_holds (FieldGuid (cField c)) (cMatch c) v x)"

definition spec_matches :: "(string \<Rightarrow> u32 + 'b) \<Rightarrow> WfpCondition list \<Rightarrow> 'b Flow \<Rightarrow> bool" where
  "spec_matches appId cs x \<longleftrightarrow>
    (\<forall>c\<in>set cs. \<exists>d\<in>set cs. FieldGuid (cField d) = FieldGuid (cField c) \<and> spec_holds appId d x)"

lemma BuildConditions_Inr:
  "BuildConditions appId cs = Inr out \<Longrightarrow>
    list_all2 (\<lambda>c fc. \<exists>v. build_value appId c = Inr v \<and>
      fc = \<lparr>fcField = FieldGuid (cField c), fcMatch = cMatch c, fcValue = v\<rparr>) cs out"
  by (induction cs arbitrary: out) (auto split: sum.splits)

lemma list_all2_ex_transfer:
  "list_all2 R xs ys \<Longrightarrow> (\<And>x y. R x y \<Longrightarrow> P x = Q y) \<Longrightarrow> (\<exists>x\<in>set xs. P x) = (\<exists>y\<in>set ys. Q y)"
  by (induction rule: list_all2_induct) auto

lemma list_all2_all_transfer:
  "list_all2 R xs ys \<Longrightarrow> (\<And>x y. R x y \<Longrightarrow> P x = Q y) \<Longrightarrow> (\<forall>x\<in>set xs. P x) = (\<forall>y\<in>set ys. Q y)"
  by (induction rule: list_all2_induct) auto

lemma build_filter_facts:
  assumes "build_filter appId spec = Inr f"
  shows "ffLayer f = LayerGuid (sLayer spec)" "ffSublayer f = SublayerGuid (sSublayer spec)"
    "ffBlock f = sBlock spec" "ffWeight f = sWeight spec"
    "filter_matches f x = spec_matches appId (sConditions spec) x"
proof -
  from assms obtain conds where c: "BuildConditions appId (sConditions spec) = Inr conds"
    and f: "f = make_filter spec conds"
    by (cases "BuildConditions appId (sConditions spec)") (auto simp: build_filter_def)
  show "ffLayer f = LayerGuid (sLayer spec)" "ffSublayer f = SublayerGuid (sSublayer spec)"
    "ffBlock f = sBlock spec" "ffWeight f = sWeight spec" by (simp_all add: f make_filter_def)
  note t = BuildConditions_Inr [OF c]
  have "(\<exists>d\<in>set (sConditions spec). FieldGuid (cField d) = k \<and> spec_holds appId d x) =
      (\<exists>d\<in>set conds. fcField d = k \<and> condition_holds d x)" for k
    by (rule list_all2_ex_transfer [OF t]) (auto simp: spec_holds_def condition_holds_def)
  then have "spec_matches appId (sConditions spec) x \<longleftrightarrow>
      (\<forall>c\<in>set (sConditions spec). \<exists>d\<in>set conds. fcField d = FieldGuid (cField c) \<and> condition_holds d x)"
    by (simp add: spec_matches_def)
  also have "\<dots> \<longleftrightarrow> (\<forall>c\<in>set conds. \<exists>d\<in>set conds. fcField d = fcField c \<and> condition_holds d x)"
    by (rule list_all2_all_transfer [OF t]) auto
  finally show "filter_matches f x = spec_matches appId (sConditions spec) x"
    by (simp add: filter_matches_def list_all_iff list_ex_iff f make_filter_def)
qed

lemma LayerGuid_inject: "LayerGuid l = LayerGuid l' \<longleftrightarrow> l = l'"
  by (cases l; cases l') (simp_all add: LayerGuid_def)

lemma SublayerGuid_inject: "SublayerGuid s = SublayerGuid s' \<longleftrightarrow> s = s'"
  by (cases s; cases s')
    (simp_all add: SublayerGuid_def kSublayerBaselineGuid_def kSublayerDnsGuid_def
      kSublayerPersistentGuid_def our_guid_def)

text \<open>A description list lets a flow pass in one sublayer when every matching block is outweighed.\<close>

definition passes :: "(string \<Rightarrow> u32 + 'b) \<Rightarrow> WfpFilterSpec list \<Rightarrow> WfpLayer \<Rightarrow> 'b Flow \<Rightarrow> bool" where
  "passes appId specs l x \<longleftrightarrow>
    (\<forall>s\<in>set specs. sLayer s = l \<and> sBlock s \<and> spec_matches appId (sConditions s) x \<longrightarrow>
      (\<exists>t\<in>set specs. sLayer t = l \<and> \<not> sBlock t \<and> spec_matches appId (sConditions t) x \<and> sWeight s < sWeight t))"

lemma permits_specs:
  assumes "wfp_arbitration permits" "built appId specs fs"
  shows "permits fs (LayerGuid l) x \<longleftrightarrow>
    (\<forall>s\<in>set specs. sLayer s = l \<and> sBlock s \<and> spec_matches appId (sConditions s) x \<longrightarrow>
      (\<exists>t\<in>set specs. sLayer t = l \<and> sSublayer t = sSublayer s \<and> \<not> sBlock t \<and>
        spec_matches appId (sConditions t) x \<and> sWeight s < sWeight t))"
proof -
  note t = assms(2) [unfolded built_def]
  have ex: "(\<exists>t\<in>set specs. sLayer t = l \<and> sSublayer t = sub \<and> \<not> sBlock t \<and>
        spec_matches appId (sConditions t) x \<and> w < sWeight t) =
      (\<exists>g\<in>set fs. ffLayer g = LayerGuid l \<and> ffSublayer g = SublayerGuid sub \<and> \<not> ffBlock g \<and>
        filter_matches g x \<and> w < ffWeight g)" for sub w
    by (rule list_all2_ex_transfer [OF t])
      (auto simp: build_filter_facts LayerGuid_inject SublayerGuid_inject)
  show ?thesis
    unfolding ex using assms(1)
    by (simp add: wfp_arbitration_def stands_def list_ex_iff)
      (rule list_all2_all_transfer [OF t, symmetric],
        auto simp: build_filter_facts LayerGuid_inject)
qed

lemma permits_two_sublayers:
  assumes "wfp_arbitration permits" "built appId (BuildFilterSet inet4 inet6 state cfg) fs" "state \<noteq> Wfp_Off"
  shows "permits fs (LayerGuid l) x \<longleftrightarrow>
    passes appId (baseline_filters state cfg) l x \<and> passes appId (dns_filters inet4 inet6 state cfg) l x"
proof -
  have set: "set (BuildFilterSet inet4 inet6 state cfg) =
      set (baseline_filters state cfg) \<union> set (dns_filters inet4 inet6 state cfg)"
    using assms(3) by (simp add: BuildFilterSet_def)
  have b: "sSublayer s = Sub_Baseline" if "s \<in> set (baseline_filters state cfg)" for s
    using that by (rule baseline_sublayer)
  have d: "sSublayer s = Sub_Dns" if "s \<in> set (dns_filters inet4 inet6 state cfg)" for s
    using that by (rule dns_sublayer)
  show ?thesis
    unfolding permits_specs [OF assms(1,2)] set passes_def ball_Un
    by (intro arg_cong2 [where f = "(\<and>)"] ball_cong refl) (simp_all add: bex_Un b d cong: bex_cong)
qed

section \<open>Group by group\<close>

definition lifts :: "(string \<Rightarrow> u32 + 'b) \<Rightarrow> WfpFilterSpec list \<Rightarrow> WfpLayer \<Rightarrow> 'b Flow \<Rightarrow> bool" where
  "lifts appId specs l x \<longleftrightarrow>
    (\<exists>t\<in>set specs. sLayer t = l \<and> \<not> sBlock t \<and> 0 < sWeight t \<and> spec_matches appId (sConditions t) x)"

definition blocked :: "(string \<Rightarrow> u32 + 'b) \<Rightarrow> WfpFilterSpec list \<Rightarrow> WfpLayer \<Rightarrow> 'b Flow \<Rightarrow> bool" where
  "blocked appId specs l x \<longleftrightarrow>
    (\<exists>s\<in>set specs. sLayer s = l \<and> sBlock s \<and> spec_matches appId (sConditions s) x)"

lemma passes_iff:
  assumes "\<forall>s\<in>set specs. sBlock s \<longrightarrow> sWeight s = 0"
  shows "passes appId specs l x \<longleftrightarrow> (blocked appId specs l x \<longrightarrow> lifts appId specs l x)"
  using assms by (auto simp: passes_def blocked_def lifts_def)

lemma lifts_append [simp]: "lifts appId (a @ b) l x \<longleftrightarrow> lifts appId a l x \<or> lifts appId b l x"
  and lifts_Nil [simp]: "\<not> lifts appId [] l x"
  and blocked_append [simp]: "blocked appId (a @ b) l x \<longleftrightarrow> blocked appId a l x \<or> blocked appId b l x"
  and blocked_Nil [simp]: "\<not> blocked appId [] l x"
  and lifts_Cons: "lifts appId (Spec n k sub blk w cs # b) l x \<longleftrightarrow>
    k = l \<and> \<not> blk \<and> 0 < w \<and> spec_matches appId cs x \<or> lifts appId b l x"
  and blocked_Cons: "blocked appId (Spec n k sub blk w cs # b) l x \<longleftrightarrow>
    k = l \<and> blk \<and> spec_matches appId cs x \<or> blocked appId b l x"
  by (auto simp: lifts_def blocked_def Spec_def)

lemma weights_pos [simp]: "0 < kWeightMax" "0 < kWeightLoopback" "0 < kWeightExempt" "0 < kWeightMedium"
    "kWeightMin = 0"
  by (simp_all add: kWeightMax_def kWeightLoopback_def kWeightExempt_def kWeightMedium_def kWeightMin_def)

lemma weights_baseline: "\<forall>s\<in>set (baseline_filters state cfg). sBlock s \<longrightarrow> sWeight s = 0"
  by (auto simp: baseline_filters_def baseline_groups Spec_def split: if_splits)

lemma weights_dns: "\<forall>s\<in>set (dns_filters inet4 inet6 state cfg). sBlock s \<longrightarrow> sWeight s = 0"
  by (auto simp: dns_filters_def dns_groups Spec_def Let_def split: if_splits)

text \<open>Each condition, read.\<close>

lemma field_guids [simp]:
  "FieldGuid (cField (CondAppId path)) = ALE_APP_ID"
  "FieldGuid (cField CondLoopback) = FLAGS"
  "FieldGuid (cField (CondLocalInterface n)) = IP_LOCAL_INTERFACE"
  "FieldGuid (cField (CondProtocol n)) = IP_PROTOCOL"
  "FieldGuid (cField (CondLocalPort n)) = IP_LOCAL_PORT"
  "FieldGuid (cField (CondRemotePort n)) = IP_REMOTE_PORT"
  "FieldGuid (cField (CondRemoteV4 a p)) = IP_REMOTE_ADDRESS"
  "FieldGuid (cField (CondRemoteV6Prefix q)) = IP_REMOTE_ADDRESS"
  "FieldGuid (cField (CondV6 RemoteAddrV6 b p)) = IP_REMOTE_ADDRESS"
  "FieldGuid (cField (CondV6 LocalAddrV6 b p)) = IP_LOCAL_ADDRESS"
  by (simp_all add: condition_defs FieldGuid_def)

lemma spec_holds_simps [simp]:
  "spec_holds appId (CondAppId path) x \<longleftrightarrow> appId path = Inr (flowApp x)"
  "spec_holds appId CondLoopback x \<longleftrightarrow> is_loopback x"
  "spec_holds appId (CondLocalInterface n) x \<longleftrightarrow> flowInterface x = n"
  "spec_holds appId (CondProtocol n) x \<longleftrightarrow> flowProtocol x = ucast n"
  "spec_holds appId (CondLocalPort n) x \<longleftrightarrow> flowLocalPort x = ucast n"
  "spec_holds appId (CondRemotePort n) x \<longleftrightarrow> flowRemotePort x = ucast n"
  "spec_holds appId (CondRemoteV4 a p) x \<longleftrightarrow> v4_agrees (flowRemoteV4 x) a (V4Mask p)"
  "spec_holds appId (CondRemoteV6Prefix q) x \<longleftrightarrow> v6_agrees (flowRemoteV6 x) (Bytes q) (prefix6 q)"
  "spec_holds appId (CondV6 RemoteAddrV6 b p) x \<longleftrightarrow> v6_agrees (flowRemoteV6 x) b p"
  "spec_holds appId (CondV6 LocalAddrV6 b p) x \<longleftrightarrow> v6_agrees (flowLocalV6 x) b p"
  by (auto simp: spec_holds_def condition_defs build_value_def FieldGuid_def is_loopback_def
      FWP_CONDITION_FLAG_IS_LOOPBACK_def split: sum.splits)

lemma V4Mask_PrefixMask: "V4Mask = PrefixMask"
  by (simp add: fun_eq_iff V4Mask_def PrefixMask_def)

lemma v4_agrees_32 [simp]: "v4_agrees a b (V4Mask 32) \<longleftrightarrow> a = b"
  unfolding v4_agrees_def V4Mask_def ones32 by simp

lemma v4_agrees_prefix: "wf_v4 p \<Longrightarrow> v4_agrees a (network p) (V4Mask (prefix p)) \<longleftrightarrow> matches_v4 p a"
  by (simp add: v4_agrees_def V4Mask_PrefixMask wf_v4_def matches_v4_def)

lemma v6_agrees_128: "length b = 16 \<Longrightarrow> v6_agrees a b 128 \<longleftrightarrow> a = (hi (FromBytes b 128), lo (FromBytes b 128))"
  by (cases a) (simp add: v6_agrees_def MaskHi6_def MaskLo6_def)

lemma v6_agrees_prefix:
  "wf_v6 p \<Longrightarrow> v6_agrees a (Bytes p) (prefix6 p) \<longleftrightarrow> matches_v6 p a"
  by (simp add: v6_agrees_def bytes_back wf_v6_def matches_v6_def)

lemma spec_matches_single [simp]: "spec_matches appId [c] x = spec_holds appId c x"
  by (simp add: spec_matches_def)

lemma spec_matches_Nil [simp]: "spec_matches appId [] x"
  by (simp add: spec_matches_def)

lemma spec_matches_lan [simp]: "spec_matches appId lan_conditions x \<longleftrightarrow> IsLocalBypassV4 (flowRemoteV4 x)"
proof -
  have "kLocalBypassV4 \<noteq> []" by (simp add: kLocalBypassV4_def)
  then show ?thesis
    by (auto simp: spec_matches_def lan_conditions_def IsLocalBypassV4_iff v4_agrees_prefix wf_bypass_v4)
qed

lemma spec_matches_lan6 [simp]:
  "spec_matches appId lan6_conditions x \<longleftrightarrow> (\<exists>b\<in>set kLocalBypassV6. matches_v6 b (flowRemoteV6 x))"
proof -
  have "kLocalBypassV6 \<noteq> []" by (simp add: kLocalBypassV6_def)
  then show ?thesis
    by (auto simp: spec_matches_def lan6_conditions_def v6_agrees_prefix wf_bypass_v6)
qed

text \<open>The port-53 conditions and what follows them.\<close>

lemma spec_matches_dns:
  assumes "\<forall>c\<in>set rest. FieldGuid (cField c) \<noteq> IP_PROTOCOL \<and> FieldGuid (cField c) \<noteq> IP_REMOTE_PORT"
  shows "spec_matches appId (dns_conditions rest) x \<longleftrightarrow> is_dns x \<and> spec_matches appId rest x"
proof -
  have "spec_matches appId (dns_conditions rest) x \<longleftrightarrow>
      (udp_or_tcp x \<and> flowRemotePort x = 53) \<and>
      (\<forall>c\<in>set rest. \<exists>d\<in>set (dns_conditions rest). FieldGuid (cField d) = FieldGuid (cField c) \<and> spec_holds appId d x)"
    using assms unfolding spec_matches_def
    by (auto simp: dns_conditions_def PushUdpTcp_def udp_or_tcp_def kProtoUdp_def kProtoTcp_def kPortDns_def)
  moreover have "(\<exists>d\<in>set (dns_conditions rest). FieldGuid (cField d) = FieldGuid (cField c) \<and> spec_holds appId d x) \<longleftrightarrow>
      (\<exists>d\<in>set rest. FieldGuid (cField d) = FieldGuid (cField c) \<and> spec_holds appId d x)"
    if "c \<in> set rest" for c
    using assms that by (fastforce simp: dns_conditions_def PushUdpTcp_def)
  ultimately show ?thesis by (simp add: spec_matches_def is_dns_def)
qed

lemma spec_matches_dns_simps [simp]:
  "spec_matches appId (dns_conditions []) x \<longleftrightarrow> is_dns x"
  "spec_matches appId (dns_conditions [CondAppId path]) x \<longleftrightarrow> is_dns x \<and> appId path = Inr (flowApp x)"
  "spec_matches appId (dns_conditions [CondLoopback]) x \<longleftrightarrow> is_dns x \<and> is_loopback x"
  "spec_matches appId (dns_conditions [CondRemoteV4 a 32, CondLocalInterface n]) x \<longleftrightarrow>
    is_dns x \<and> flowRemoteV4 x = a \<and> flowInterface x = n"
  "spec_matches appId (dns_conditions [CondV6 RemoteAddrV6 b p, CondLocalInterface n]) x \<longleftrightarrow>
    is_dns x \<and> v6_agrees (flowRemoteV6 x) b p \<and> flowInterface x = n"
  "as \<noteq> [] \<Longrightarrow> spec_matches appId (dns_conditions (map (\<lambda>a. CondRemoteV4 a 32) as)) x \<longleftrightarrow>
    is_dns x \<and> flowRemoteV4 x \<in> set as"
  by (auto simp: spec_matches_dns) (auto simp: spec_matches_def)

lemma spec_matches_ports:
  "ps \<noteq> [] \<Longrightarrow> spec_matches appId (PushUdpTcp [] @ map CondRemotePort ps) x \<longleftrightarrow>
    udp_or_tcp x \<and> flowRemotePort x \<in> ucast ` set ps"
  by (auto simp: spec_matches_def PushUdpTcp_def udp_or_tcp_def kProtoUdp_def kProtoTcp_def)

text \<open>What the baseline groups let through.\<close>

definition is_v4 :: "WfpLayer \<Rightarrow> bool" where
  "is_v4 l \<longleftrightarrow> l = ConnectV4 \<or> l = RecvAcceptV4"

lemma lifts_groups:
  "lifts appId (service_permits cfg) l x \<longleftrightarrow> from_image appId (service_image_path cfg) x"
  "lifts appId (app_permits state cfg) l x \<longleftrightarrow> AttemptsConnection state \<and> from_image appId (app_image_path cfg) x"
  "lifts appId loopback_permits l x \<longleftrightarrow> is_loopback x"
  "lifts appId (tun_permits state cfg) l x \<longleftrightarrow> on_tun state cfg x \<and> (is_v4 l \<or> tunnel_ipv6 cfg)"
  "lifts appId (lan_permits state cfg) l x \<longleftrightarrow>
    allow_lan cfg \<and> (if is_v4 l then IsLocalBypassV4 (flowRemoteV4 x)
      else tunnelV6 state cfg \<and> (\<exists>b\<in>set kLocalBypassV6. matches_v6 b (flowRemoteV6 x)))"
  "lifts appId dns_lift l x \<longleftrightarrow> (l = ConnectV4 \<or> l = ConnectV6) \<and> is_dns x"
  "lifts appId (floor_blocks state cfg) l x = False"
  by (cases l; auto simp: baseline_groups lifts_Cons from_image_def on_tun_def is_v4_def tunnelV6_def)+

lemma lifts_dhcpv4:
  "lifts appId dhcpv4_permits l x \<longleftrightarrow>
    (l = ConnectV4 \<and> is_dhcp_request x) \<or>
    (l = RecvAcceptV4 \<and> flowProtocol x = 17 \<and> flowLocalPort x = 68 \<and> flowRemotePort x = 67)"
  by (cases l; simp add: baseline_groups lifts_Cons spec_matches_def is_dhcp_request_def kProtoUdp_def
      kPortDhcpClient_def kPortDhcpServer_def)

lemma lifts_v6_only:
  "lifts appId dhcpv6_permits ConnectV4 x = False" "lifts appId dhcpv6_permits RecvAcceptV4 x = False"
  "lifts appId ndp_permits ConnectV4 x = False" "lifts appId ndp_permits RecvAcceptV4 x = False"
  by (simp_all add: baseline_groups lifts_Cons)

definition is_dhcpv6_request :: "'b Flow \<Rightarrow> bool" where
  "is_dhcpv6_request x \<longleftrightarrow>
    flowProtocol x = 17 \<and> v6_agrees (flowLocalV6 x) kV6LinkLocal 10 \<and> flowLocalPort x = 546 \<and>
    flowRemotePort x = 547 \<and>
    (v6_agrees (flowRemoteV6 x) kV6DhcpRelayAgentsAndServers 128 \<or> v6_agrees (flowRemoteV6 x) kV6DhcpAllServers 128)"

definition is_neighbour_discovery :: "'b Flow \<Rightarrow> bool" where
  "is_neighbour_discovery x \<longleftrightarrow>
    flowProtocol x = 58 \<and>
    (flowLocalPort x = 133 \<and> v6_agrees (flowRemoteV6 x) kV6AllRouters 128 \<or>
     (flowLocalPort x = 135 \<or> flowLocalPort x = 136) \<and>
       (v6_agrees (flowRemoteV6 x) kV6LinkLocal 10 \<or> v6_agrees (flowRemoteV6 x) kV6LinkLocalMcast 16))"

lemma lifts_connect_v6:
  "lifts appId dhcpv6_permits ConnectV6 x \<longleftrightarrow> is_dhcpv6_request x"
  "lifts appId ndp_permits ConnectV6 x \<longleftrightarrow> is_neighbour_discovery x"
  by (auto simp: baseline_groups lifts_Cons spec_matches_def is_dhcpv6_request_def is_neighbour_discovery_def
      kProtoUdp_def kProtoIcmpV6_def kPortDhcpV6Client_def kPortDhcpV6Server_def kIcmpV6RouterSolicit_def
      kIcmpV6RouterAdvert_def kIcmpV6NeighborSolicit_def kIcmpV6NeighborAdvert_def)

lemma blocked_baseline:
  "blocked appId (baseline_filters state cfg) l x \<longleftrightarrow> is_v4 l \<or> blockV6 state cfg"
  by (cases l; auto simp: baseline_filters_def baseline_groups blocked_Cons is_v4_def)

text \<open>What the DNS groups block and let through.\<close>

lemma lifts_dns_groups:
  "lifts appId (service_dns_permits cfg) l x \<longleftrightarrow>
    (l = ConnectV4 \<or> l = ConnectV6) \<and> is_dns x \<and> from_image appId (service_image_path cfg) x"
  "lifts appId (app_dns_permits state cfg) l x \<longleftrightarrow>
    (l = ConnectV4 \<or> l = ConnectV6) \<and> is_dns x \<and> AttemptsConnection state \<and> from_image appId (app_image_path cfg) x"
  "lifts appId loopback_dns_permits l x \<longleftrightarrow> (l = ConnectV4 \<or> l = ConnectV6) \<and> is_dns x \<and> is_loopback x"
  "lifts appId (dns_block state p) l x = False"
  "lifts appId (local_name_blocks cfg) l x = False"
  by (cases l; auto simp: dns_groups lifts_Cons from_image_def Let_def)+

lemma lifts_host_resolver:
  "lifts appId (host_resolver_permit inet4 state cfg) l x \<longleftrightarrow>
    l = ConnectV4 \<and> state = Wfp_Connecting \<and> is_dns x \<and>
    flowRemoteV4 x \<in> set (List.map_filter inet4 (host_resolvers_v4 cfg))"
proof (cases "List.map_filter inet4 (host_resolvers_v4 cfg) = []")
  case False
  then have "host_resolvers_v4 cfg \<noteq> []" by (auto simp: List.map_filter_def)
  with False show ?thesis by (auto simp: host_resolver_permit_def Let_def lifts_Cons)
qed (simp add: host_resolver_permit_def Let_def)

lemma lifts_tunnel_resolvers:
  "lifts appId (tunnel_resolver_permits inet4 state cfg) l x \<longleftrightarrow>
    l = ConnectV4 \<and> on_tun state cfg x \<and> is_dns x \<and>
    flowRemoteV4 x \<in> set (List.map_filter inet4 (tunnel_resolvers_v4 cfg))"
  "lifts appId (tunnel_resolver6_permits inet6 state cfg) l x \<longleftrightarrow>
    l = ConnectV6 \<and> on_tun state cfg x \<and> tunnel_ipv6 cfg \<and> is_dns x \<and>
    (\<exists>b\<in>set (List.map_filter inet6 (tunnel_resolvers_v6 cfg)). v6_agrees (flowRemoteV6 x) b 128)"
  by (auto simp: tunnel_resolver_permits_def tunnel_resolver6_permits_def lifts_def Spec_def on_tun_def tunnelV6_def)

lemma blocked_local_names:
  "blocked appId (local_name_blocks cfg) l x \<longleftrightarrow>
    (l = ConnectV4 \<or> l = ConnectV6) \<and> block_local_name_resolution cfg \<and> is_local_name x"
proof -
  have *: "spec_matches appId (PushUdpTcp [] @ map CondRemotePort ps) x \<longleftrightarrow>
      udp_or_tcp x \<and> flowRemotePort x \<in> ucast ` set ps" if "ps \<noteq> []" for ps
    using that by (rule spec_matches_ports)
  from * [of "[kPortLlmnr]"] * [of "[kPortMdns]"] * [of "[kPortNetbiosNs, kPortNetbiosDgm, kPortNetbiosSsn]"]
  show ?thesis
    by (cases l) (auto simp: local_name_blocks_def local_name_sets_def blocked_Cons Let_def is_local_name_def
        kPortLlmnr_def kPortMdns_def kPortNetbiosNs_def kPortNetbiosDgm_def kPortNetbiosSsn_def)
qed

lemma blocked_permits: "list_all (\<lambda>s. \<not> sBlock s) specs \<Longrightarrow> blocked appId specs l x = False"
  by (auto simp: blocked_def list_all_iff)

lemma blocked_dns_permits:
  "blocked appId (service_dns_permits cfg) l x = False"
  "blocked appId (app_dns_permits state cfg) l x = False"
  "blocked appId (host_resolver_permit inet4 state cfg) l x = False"
  "blocked appId (tunnel_resolver_permits inet4 state cfg) l x = False"
  "blocked appId (tunnel_resolver6_permits inet6 state cfg) l x = False"
  "blocked appId loopback_dns_permits l x = False"
  by (rule blocked_permits; auto simp: dns_groups Spec_def Let_def list_all_iff)+

lemma blocked_dns_block:
  "blocked appId (dns_block state p) l x \<longleftrightarrow>
    (l = ConnectV4 \<or> l = ConnectV6) \<and> is_dns x \<and> (\<not> AttemptsConnection state \<or> p)"
  by (cases l) (simp_all add: dns_block_def blocked_Cons)

lemma local_name_not_dns: "is_local_name x \<Longrightarrow> \<not> is_dns x"
  by (auto simp: is_local_name_def is_dns_def)

text \<open>The verdict on an outbound IPv4 flow, decided group by group.\<close>

definition resolver_flow ::
    "(string \<Rightarrow> u32 option) \<Rightarrow> WfpState \<Rightarrow> WfpConfig \<Rightarrow> 'b Flow \<Rightarrow> bool" where
  "resolver_flow inet4 state cfg x \<longleftrightarrow>
    state = Wfp_Connecting \<and> flowRemoteV4 x \<in> set (List.map_filter inet4 (host_resolvers_v4 cfg)) \<or>
    on_tun state cfg x \<and> flowRemoteV4 x \<in> set (List.map_filter inet4 (tunnel_resolvers_v4 cfg))"

definition resolver6_flow ::
    "(string \<Rightarrow> 8 word list option) \<Rightarrow> WfpState \<Rightarrow> WfpConfig \<Rightarrow> 'b Flow \<Rightarrow> bool" where
  "resolver6_flow inet6 state cfg x \<longleftrightarrow>
    on_tun state cfg x \<and> tunnel_ipv6 cfg \<and>
    (\<exists>b\<in>set (List.map_filter inet6 (tunnel_resolvers_v6 cfg)). v6_agrees (flowRemoteV6 x) b 128)"

lemma connect_v4_verdict:
  assumes "wfp_arbitration permits" "built appId (BuildFilterSet inet4 inet6 state cfg) fs" "state \<noteq> Wfp_Off"
  shows "permits fs ALE_AUTH_CONNECT_V4 x \<longleftrightarrow>
    (own_traffic appId state cfg x \<or> is_loopback x \<or> on_tun state cfg x \<or>
      (allow_lan cfg \<and> IsLocalBypassV4 (flowRemoteV4 x)) \<or> is_dhcp_request x \<or> is_dns x) \<and>
    (is_dns x \<and> (\<not> AttemptsConnection state \<or> shared_dns_path inet4 inet6 state cfg) \<longrightarrow>
      own_traffic appId state cfg x \<or> is_loopback x \<or> resolver_flow inet4 state cfg x) \<and>
    \<not> (block_local_name_resolution cfg \<and> is_local_name x)"
proof -
  have l: "ALE_AUTH_CONNECT_V4 = LayerGuid ConnectV4" by (simp add: LayerGuid_def)
  show ?thesis
    unfolding l permits_two_sublayers [OF assms] passes_iff [OF weights_baseline] passes_iff [OF weights_dns]
      blocked_baseline
    by (auto simp: is_v4_def baseline_filters_def dns_filters_def lifts_groups lifts_dhcpv4 lifts_v6_only
        lifts_dns_groups lifts_host_resolver lifts_tunnel_resolvers blocked_local_names blocked_dns_permits
        blocked_dns_block
        own_traffic_def resolver_flow_def dest: local_name_not_dns)
qed

lemma connect_v6_verdict:
  assumes "wfp_arbitration permits" "built appId (BuildFilterSet inet4 inet6 state cfg) fs" "state \<noteq> Wfp_Off"
  shows "permits fs ALE_AUTH_CONNECT_V6 x \<longleftrightarrow>
    (blockV6 state cfg \<longrightarrow>
      own_traffic appId state cfg x \<or> is_loopback x \<or> (on_tun state cfg x \<and> tunnel_ipv6 cfg) \<or>
      (allow_lan cfg \<and> tunnelV6 state cfg \<and> (\<exists>b\<in>set kLocalBypassV6. matches_v6 b (flowRemoteV6 x))) \<or>
      is_dhcpv6_request x \<or> is_neighbour_discovery x \<or> is_dns x) \<and>
    (is_dns x \<and> (\<not> AttemptsConnection state \<or> shared_dns_path inet4 inet6 state cfg) \<longrightarrow>
      own_traffic appId state cfg x \<or> is_loopback x \<or> resolver6_flow inet6 state cfg x) \<and>
    \<not> (block_local_name_resolution cfg \<and> is_local_name x)"
proof -
  have l: "ALE_AUTH_CONNECT_V6 = LayerGuid ConnectV6" by (simp add: LayerGuid_def)
  show ?thesis
    unfolding l permits_two_sublayers [OF assms] passes_iff [OF weights_baseline] passes_iff [OF weights_dns]
      blocked_baseline
    by (auto simp: is_v4_def baseline_filters_def dns_filters_def lifts_groups lifts_dhcpv4 lifts_connect_v6
        lifts_dns_groups lifts_host_resolver lifts_tunnel_resolvers blocked_local_names blocked_dns_permits
        blocked_dns_block own_traffic_def resolver6_flow_def dest: local_name_not_dns)
qed

lemma accept_v4_verdict:
  assumes "wfp_arbitration permits" "built appId (BuildFilterSet inet4 inet6 state cfg) fs" "state \<noteq> Wfp_Off"
  shows "permits fs ALE_AUTH_RECV_ACCEPT_V4 x \<longleftrightarrow>
    own_traffic appId state cfg x \<or> is_loopback x \<or> on_tun state cfg x \<or>
    (allow_lan cfg \<and> IsLocalBypassV4 (flowRemoteV4 x)) \<or>
    (flowProtocol x = 17 \<and> flowLocalPort x = 68 \<and> flowRemotePort x = 67)"
proof -
  have l: "ALE_AUTH_RECV_ACCEPT_V4 = LayerGuid RecvAcceptV4" by (simp add: LayerGuid_def)
  show ?thesis
    unfolding l permits_two_sublayers [OF assms] passes_iff [OF weights_baseline] passes_iff [OF weights_dns]
      blocked_baseline
    by (auto simp: is_v4_def baseline_filters_def dns_filters_def lifts_groups lifts_dhcpv4 lifts_v6_only
        blocked_local_names blocked_dns_permits blocked_dns_block own_traffic_def)
qed

text \<open>When every image resolves, every description translates.\<close>

definition filters_of :: "(string \<Rightarrow> u32 + 'b) \<Rightarrow> WfpFilterSpec list \<Rightarrow> 'b FwpmFilter list" where
  "filters_of appId specs = map (\<lambda>s. projr (build_filter appId s)) specs"

lemma BuildConditions_total:
  "(\<And>path. \<exists>b. appId path = Inr b) \<Longrightarrow> \<exists>out. BuildConditions appId cs = Inr out"
proof (induction cs)
  case (Cons c cs)
  obtain b where "appId (cAppPath c) = Inr b" using Cons.prems by blast
  then have "\<exists>v. build_value appId c = Inr v" by (cases "cField c") (simp_all add: build_value_def)
  then show ?case using Cons by auto
qed simp

lemma built_filters_of:
  assumes "\<And>path. \<exists>b. appId path = Inr b"
  shows "built appId specs (filters_of appId specs)"
proof -
  have "build_filter appId s = Inr (projr (build_filter appId s))" for s
    using BuildConditions_total [of appId "sConditions s"] assms by (auto simp: build_filter_def)
  then show ?thesis by (simp add: built_def filters_of_def list_all2_conv_all_nth)
qed

lemmas sample_built = built_filters_of [of Inr, simplified]

definition flow_sample :: "string Flow" where
  "flow_sample = \<lparr>flowApp = ''browser.exe'', flowFlags = 0, flowInterface = 3, flowProtocol = 6,
    flowLocalPort = 50000, flowRemotePort = 443, flowLocalV4 = 0xC0A80002, flowRemoteV4 = 0x08080808,
    flowLocalV6 = (0, 0), flowRemoteV6 = (0x2001000000000000, 1)\<rparr>"

section \<open>Properties\<close>

text \<open>
  (C17) The whole of the outbound IPv4 decision, in every state that has a policy. A flow leaves exactly
  when it is the product's own, loopback, on the tun, to a bypass range, a DHCP request or a DNS
  query; and a DNS query, where the port-53 block is installed, only when it is the product's own,
  loopback, or addressed to a resolver of the state it is in, which while connected means over the
  tun; and never to the ports of the other name protocols when those are blocked.
\<close>

theorem outbound_v4_exact:
  assumes "wfp_arbitration permits" and "built appId (BuildFilterSet inet4 inet6 state cfg) fs"
    and "state \<noteq> Wfp_Off"
  shows "permits fs ALE_AUTH_CONNECT_V4 x \<longleftrightarrow>
    (own_traffic appId state cfg x \<or> is_loopback x \<or> on_tun state cfg x \<or>
      (allow_lan cfg \<and> IsLocalBypassV4 (flowRemoteV4 x)) \<or> is_dhcp_request x \<or> is_dns x) \<and>
    (is_dns x \<and> (\<not> AttemptsConnection state \<or> shared_dns_path inet4 inet6 state cfg) \<longrightarrow>
      own_traffic appId state cfg x \<or> is_loopback x \<or> resolver_flow inet4 state cfg x) \<and>
    \<not> (block_local_name_resolution cfg \<and> is_local_name x)"
  by (rule connect_v4_verdict [OF assms])

theorem outbound_v4_exact_witness:
  "\<not> verdict_sample (filters_of Inr (BuildFilterSet inet4_sample inet6_sample Wfp_Connected config_sample))
      ALE_AUTH_CONNECT_V4 flow_sample \<and>
   verdict_sample (filters_of Inr (BuildFilterSet inet4_sample inet6_sample Wfp_Connected config_sample))
      ALE_AUTH_CONNECT_V4 (flow_sample\<lparr>flowInterface := 7\<rparr>)"
  using outbound_v4_exact [OF verdict_sample_arbitration
      sample_built [of "BuildFilterSet inet4_sample inet6_sample Wfp_Connected config_sample"], of flow_sample]
    outbound_v4_exact [OF verdict_sample_arbitration
      sample_built [of "BuildFilterSet inet4_sample inet6_sample Wfp_Connected config_sample"],
      of "flow_sample\<lparr>flowInterface := 7\<rparr>"]
  by (simp add: flow_sample_def config_sample_def own_traffic_def from_image_def is_loopback_def on_tun_def
      IsLocalBypassV4_def kLocalBypassV4_def PrefixMask_def is_dhcp_request_def is_dns_def is_local_name_def)

text \<open>
  The outbound IPv6 decision. Where the IPv6 floor is installed (disconnected with the option on, or
  connected with a tunnel that carries IPv6) a flow leaves only when it is the product's own,
  loopback, on such a tunnel, to a bypass range beside it, DHCPv6, neighbour discovery or a DNS
  query; the DNS and local-name rules are those of IPv4, with the tunnel's IPv6 resolvers.
\<close>

theorem outbound_v6_exact:
  assumes "wfp_arbitration permits" and "built appId (BuildFilterSet inet4 inet6 state cfg) fs"
    and "state \<noteq> Wfp_Off"
  shows "permits fs ALE_AUTH_CONNECT_V6 x \<longleftrightarrow>
    (blockV6 state cfg \<longrightarrow>
      own_traffic appId state cfg x \<or> is_loopback x \<or> (on_tun state cfg x \<and> tunnel_ipv6 cfg) \<or>
      (allow_lan cfg \<and> tunnelV6 state cfg \<and> (\<exists>b\<in>set kLocalBypassV6. matches_v6 b (flowRemoteV6 x))) \<or>
      is_dhcpv6_request x \<or> is_neighbour_discovery x \<or> is_dns x) \<and>
    (is_dns x \<and> (\<not> AttemptsConnection state \<or> shared_dns_path inet4 inet6 state cfg) \<longrightarrow>
      own_traffic appId state cfg x \<or> is_loopback x \<or> resolver6_flow inet6 state cfg x) \<and>
    \<not> (block_local_name_resolution cfg \<and> is_local_name x)"
  by (rule connect_v6_verdict [OF assms])

theorem outbound_v6_exact_witness:
  "\<not> verdict_sample (filters_of Inr (BuildFilterSet inet4_sample inet6_sample Wfp_Armed config_sample))
      ALE_AUTH_CONNECT_V6 flow_sample"
  using outbound_v6_exact [OF verdict_sample_arbitration
      sample_built [of "BuildFilterSet inet4_sample inet6_sample Wfp_Armed config_sample"], of flow_sample]
  by (simp add: flow_sample_def config_sample_def own_traffic_def from_image_def is_loopback_def on_tun_def
      blockV6_def tunnelV6_def is_dhcpv6_request_def is_neighbour_discovery_def is_dns_def AttemptsConnection_def)

end
