(* ===== verification/TunnelWatchdog.thy ===== *)
theory TunnelWatchdog
  imports DeadTunnel Capture NetworkChange StopBudget
begin

text \<open>
  The live half of the failsafe, \<^verbatim>\<open>Service/TunnelWatchdog.cpp\<close>: the channel its two threads share,
  one turn of the evaluator's loop (\<open>EvaluatorTick\<close>), which strings the trackers and the verdict of
  \<open>DeadTunnel\<close> together, and one turn of the sampler's loop (\<open>SamplerPass\<close>), which reads the SDK.

  A turn of the evaluator is one step: everything it reads of the channel it copies under the
  channel's lock or loads from an atomic, and the sampler and the session act between turns, so
  every turn of a run starts from an arbitrary channel. The sampler's turn spans several calls into
  the SDK; what the other threads do to the session's readiness meanwhile is an argument
  (\<open>others\<close>), as are the moments at which cancellation is seen (\<open>stopAt\<close>), the clock readings and the
  SDK's answers.
\<close>

section \<open>Settings and channel\<close>

record TunnelWatchdogSettings =
  sampleIntervalMillis :: i64
  evaluateIntervalMillis :: i64
  frozenMillis :: i64
  freezeNetworkChangeMillis :: i64
  joinBudgetMillis :: i64
  joinPollMillis :: i64
  deadTunnel :: DeadTunnelSettings
  capture :: CaptureReadinessSettings
  networkNotify :: NetworkNotifySettings

definition DefaultTunnelWatchdogSettings :: TunnelWatchdogSettings where
  "DefaultTunnelWatchdogSettings = \<lparr>sampleIntervalMillis = 2000, evaluateIntervalMillis = 1000,
    frozenMillis = 5000, freezeNetworkChangeMillis = 15000, joinBudgetMillis = 250, joinPollMillis = 10,
    deadTunnel = DefaultDeadTunnelSettings, capture = DefaultCaptureReadinessSettings,
    networkNotify = DefaultNetworkNotifySettings\<rparr>"

definition EvaluatorFroze :: "i64 \<Rightarrow> TunnelWatchdogSettings \<Rightarrow> bool" where
  "EvaluatorFroze tickGapMillis settings =
    rebase (FreezeResponseFor tickGapMillis (frozenMillis settings) (freezeNetworkChangeMillis settings))"

text \<open>
  \<open>wcReadiness\<close> is the session's readiness; \<open>wcCapturing\<close> says that the channel holds it as the
  pending capture's too. The three flags \<open>wcDevice\<close>, \<open>wcOnDead\<close> and \<open>wcOnReady\<close> are pointers and
  handlers that may be cleared.
\<close>

record WatchdogChannel =
  wcReadiness :: "CaptureReadiness option"
  wcCapturing :: bool
  wcCancelled :: bool
  wcDevice :: bool
  wcProvenCount :: i64
  wcExitCount :: i64
  wcLastSampleMillis :: i64
  wcLastProvenMillis :: i64
  wcGeneration :: i64
  wcMinSatisfied :: bool
  wcBalance :: BalanceReading
  wcCoalescer :: NotifyCoalescer
  wcQuality :: NotifyCoalescer
  wcOnDead :: bool
  wcOnReady :: bool

definition NoBalanceReading :: BalanceReading where
  "NoBalanceReading = \<lparr>sampled = False, insufficientBalance = False, noPermission = False,
    connectionGeneration = 0, providerAddedCount = 0\<rparr>"

definition InitChannel :: "TunnelWatchdogSettings \<Rightarrow> CaptureReadiness option \<Rightarrow> bool \<Rightarrow> WatchdogChannel" where
  "InitChannel settings readiness onReady =
    \<lparr>wcReadiness = readiness, wcCapturing = (onReady \<and> readiness \<noteq> None), wcCancelled = False, wcDevice = True,
     wcProvenCount = 0, wcExitCount = 0, wcLastSampleMillis = -1, wcLastProvenMillis = -1, wcGeneration = 0,
     wcMinSatisfied = True, wcBalance = NoBalanceReading,
     wcCoalescer = InitNotifyCoalescer (networkNotify settings),
     wcQuality = InitNotifyCoalescer (networkNotify settings), wcOnDead = True, wcOnReady = onReady\<rparr>"

text \<open>The window-status callback: a status of an older generation is dropped.\<close>

definition PublishWindowStatus :: "WatchdogChannel \<Rightarrow> (i64 \<times> bool) option \<Rightarrow> WatchdogChannel" where
  "PublishWindowStatus ch status =
    (case status of
       None \<Rightarrow> ch
     | Some (generation, minSatisfied) \<Rightarrow>
        if wcCancelled ch \<or> generation < wcGeneration ch then ch
        else ch\<lparr>wcGeneration := generation, wcMinSatisfied := minSatisfied,
          wcReadiness := (if wcCapturing ch then map_option (\<lambda>r. Invalidate r generation) (wcReadiness ch)
                          else wcReadiness ch)\<rparr>)"

text \<open>\<open>sameSession\<close>: the event carries the readiness this channel was started with.\<close>

definition NoteNetworkEvent :: "WatchdogChannel \<Rightarrow> bool \<Rightarrow> i64 \<Rightarrow> WatchdogChannel \<times> bool" where
  "NoteNetworkEvent ch sameSession eventMillis =
    (case wcReadiness ch of
       None \<Rightarrow> (ch, False)
     | Some r \<Rightarrow>
        if wcCancelled ch \<or> \<not> sameSession \<or> crCancelled r then (ch, False)
        else (ch\<lparr>wcCoalescer := CoalescerObserve (wcCoalescer ch) eventMillis\<rparr>, True))"

definition NoteNetworkQualityEvent :: "WatchdogChannel \<Rightarrow> i64 \<Rightarrow> WatchdogChannel" where
  "NoteNetworkQualityEvent ch now =
    (if wcCancelled ch then ch else ch\<lparr>wcQuality := CoalescerObserve (wcQuality ch) now\<rparr>)"

text \<open>What starting the watch on a device leaves in the channel before the threads run.\<close>

definition StartChannel ::
    "TunnelWatchdogSettings \<Rightarrow> CaptureReadiness option \<Rightarrow> bool \<Rightarrow> (i64 \<times> bool) option \<Rightarrow> WatchdogChannel" where
  "StartChannel settings readiness onReady windowStatus =
    (let ch = PublishWindowStatus (InitChannel settings readiness onReady) windowStatus
     in case wcReadiness ch of
          None \<Rightarrow> ch
        | Some r \<Rightarrow>
            (if crCancelled r then ch
             else case PendingNetworkEvent r of
                 None \<Rightarrow> ch
               | Some event \<Rightarrow> fst (NoteNetworkEvent ch True (neMillis event))))"

definition CancelChannel :: "WatchdogChannel \<Rightarrow> WatchdogChannel" where
  "CancelChannel ch = ch\<lparr>wcCancelled := True, wcDevice := False, wcOnDead := False, wcOnReady := False\<rparr>"

section \<open>The evaluator\<close>

record EvaluatorState =
  esTraffic :: TrafficTracker
  esSessionStart :: i64
  esTrafficStart :: i64
  esLastTick :: i64
  esEpoch :: ConnectionEpochTracker
  esHold :: OutOfBalanceHold
  esArmed :: bool
  esMillisToFailsafe :: i64

text \<open>
  What one turn sees besides the channel: the clock, the published tunnel state, and the packet
  counters (outbound, inbound) at the two places the turn may read them; \<open>None\<close> when the session
  has no counters.
\<close>

record EvaluatorInput =
  eiNow :: i64
  eiTunnelUp :: bool
  eiResetCounters :: "(u64 \<times> u64) option"
  eiCounters :: "(u64 \<times> u64) option"

datatype TickOutcome = Tick_Cancelled | Tick_Rebased | Tick_Released | Tick_Activate CaptureTicket
  | Tick_Watching | Tick_Fired DeadTunnelReason

definition InitEvaluator :: "WatchdogChannel \<Rightarrow> (u64 \<times> u64) option \<Rightarrow> i64 \<Rightarrow> i64 \<Rightarrow> EvaluatorState" where
  "InitEvaluator ch counters upSince now =
    \<lparr>esTraffic = (case counters of None \<Rightarrow> TrafficReset 0 0 | Some (out, in') \<Rightarrow> TrafficReset out in'),
     esSessionStart = upSince, esTrafficStart = upSince, esLastTick = now,
     esEpoch = fst (EpochObserve InitConnectionEpochTracker (wcGeneration ch, wcMinSatisfied ch)),
     esHold = InitOutOfBalanceHold, esArmed = False, esMillisToFailsafe = 0\<rparr>"

definition reset_traffic :: "(u64 \<times> u64) option \<Rightarrow> TrafficTracker \<Rightarrow> TrafficTracker" where
  "reset_traffic counters t = (case counters of None \<Rightarrow> t | Some (out, in') \<Rightarrow> TrafficReset out in')"

definition observe_traffic :: "(u64 \<times> u64) option \<Rightarrow> i64 \<Rightarrow> TrafficTracker \<Rightarrow> TrafficTracker" where
  "observe_traffic counters now t =
    (case counters of None \<Rightarrow> t | Some (out, in') \<Rightarrow> TrafficObserve t (out, in', now))"

text \<open>Every window starts again from now, and the current generation is the baseline.\<close>

definition rebase_windows :: "WatchdogChannel \<Rightarrow> EvaluatorInput \<Rightarrow> EvaluatorState \<Rightarrow> EvaluatorState" where
  "rebase_windows ch i es =
    es\<lparr>esSessionStart := eiNow i, esTrafficStart := eiNow i,
       esTraffic := reset_traffic (eiResetCounters i) (esTraffic es),
       esArmed := False, esMillisToFailsafe := 0,
       esEpoch := fst (EpochObserve (esEpoch es) (wcGeneration ch, wcMinSatisfied ch))\<rparr>"

definition freeze_channel :: "FreezeResponse \<Rightarrow> i64 \<Rightarrow> WatchdogChannel \<Rightarrow> WatchdogChannel" where
  "freeze_channel freeze now ch =
    (if frNetworkChanged freeze \<and> wcReadiness ch \<noteq> None then
       ch\<lparr>wcReadiness := map_option (\<lambda>r. NetworkChanged r now) (wcReadiness ch),
          wcCoalescer := CoalescerObserve (wcCoalescer ch) now\<rparr>
     else if wcCapturing ch then ch\<lparr>wcReadiness := map_option (\<lambda>r. ProofBarrier r now) (wcReadiness ch)\<rparr>
     else ch)"

definition pending_ticket :: "WatchdogChannel \<Rightarrow> i64 \<Rightarrow> CaptureTicket option" where
  "pending_ticket ch now =
    (if wcCapturing ch \<and> wcOnReady ch \<and> \<not> wcCancelled ch
     then Option.bind (wcReadiness ch) (\<lambda>r. Ready r now) else None)"

text \<open>The destination generation, then the counters.\<close>

definition observe_epoch :: "WatchdogChannel \<Rightarrow> EvaluatorInput \<Rightarrow> EvaluatorState \<Rightarrow> EvaluatorState" where
  "observe_epoch ch i es =
    (case EpochObserve (esEpoch es) (wcGeneration ch, wcMinSatisfied ch) of (epoch, update) \<Rightarrow>
       let es1 = es\<lparr>esEpoch := epoch\<rparr>;
           es2 = (if verdictClockReset update then es1\<lparr>esSessionStart := eiNow i\<rparr> else es1);
           es3 = (if trafficClockReset update
                  then es2\<lparr>esTrafficStart := eiNow i,
                           esTraffic := reset_traffic (eiResetCounters i) (esTraffic es2)\<rparr>
                  else es2)
       in if verdictClockReset update \<or> trafficClockReset update
          then es3\<lparr>esArmed := False, esMillisToFailsafe := 0\<rparr> else es3)"

definition signals_of :: "WatchdogChannel \<Rightarrow> EvaluatorInput \<Rightarrow> EvaluatorState \<Rightarrow> DeadTunnelSignals" where
  "signals_of ch i es =
    \<lparr>tunnelUp = eiTunnelUp i, routesInstalled = eiTunnelUp i, upSinceMillis = esSessionStart es,
     trafficStartMillis = esTrafficStart es, providerWindowReady = FastVerdictEligible (esEpoch es),
     provenCount = wcProvenCount ch,
     lastProvenMillis = StampInSession (wcLastProvenMillis ch) (esSessionStart es),
     lastSampleMillis = StampInSession (wcLastSampleMillis ch) (esSessionStart es),
     lastInboundMillis = ttLastInboundMillis (esTraffic es),
     outboundSinceInbound = TrafficOutboundSinceInbound (esTraffic es),
     outOfBalance = held (esHold es)\<rparr>"

definition judge ::
    "TunnelWatchdogSettings \<Rightarrow> WatchdogChannel \<Rightarrow> EvaluatorInput \<Rightarrow> EvaluatorState \<Rightarrow> EvaluatorState \<times> TickOutcome" where
  "judge settings ch i es =
    (let es1 = observe_epoch ch i es;
         es2 = es1\<lparr>esTraffic := observe_traffic (eiCounters i) (eiNow i) (esTraffic es1)\<rparr>;
         verdict = Evaluate (signals_of ch i es2) (eiNow i) (deadTunnel settings)
     in (es2\<lparr>esArmed := armed verdict, esMillisToFailsafe := millisToFailsafe verdict\<rparr>,
         if reason verdict = Reason_None then Tick_Watching else Tick_Fired (reason verdict)))"

definition EvaluatorTick ::
    "TunnelWatchdogSettings \<Rightarrow> WatchdogChannel \<Rightarrow> EvaluatorInput \<Rightarrow> EvaluatorState \<Rightarrow>
     WatchdogChannel \<times> EvaluatorState \<times> TickOutcome" where
  "EvaluatorTick settings ch i es0 =
    (if wcCancelled ch then (ch, es0, Tick_Cancelled)
     else
       case HoldObserve (esHold es0) (wcBalance ch) of (hold, balanceStep) \<Rightarrow>
       let tickGap = eiNow i - esLastTick es0;
           es = es0\<lparr>esHold := hold, esLastTick := eiNow i\<rparr>;
           freeze = FreezeResponseFor tickGap (frozenMillis settings) (freezeNetworkChangeMillis settings)
       in if rebase freeze then (freeze_channel freeze (eiNow i) ch, rebase_windows ch i es, Tick_Rebased)
          else if balanceStep = Released then (ch, rebase_windows ch i es, Tick_Released)
          else case pending_ticket ch (eiNow i) of
            Some ticket \<Rightarrow> (ch, es, Tick_Activate ticket)
          | None \<Rightarrow> (ch, judge settings ch i es))"

text \<open>The handler runs only when the channel still has it.\<close>

definition Fire :: "WatchdogChannel \<Rightarrow> DeadTunnelReason \<Rightarrow> DeadTunnelReason option" where
  "Fire ch r = (if wcOnDead ch then Some r else None)"

section \<open>The sampler\<close>

record SdkWindow =
  swGeneration :: i64
  swAdded :: i64

record SdkAnswers =
  saNetworkChanged :: bool
  saQualityChanged :: bool
  saProbe :: bool
  saContract :: "(bool \<times> bool) option"
  saBalanceWindow :: "SdkWindow option"
  saBefore :: "SdkWindow option"
  saExits :: "CaptureExit list option"
  saAfter :: "SdkWindow option"

datatype SdkCall = Sdk_NetworkChanged | Sdk_QualityChanged | Sdk_ProbeAllExits | Sdk_Sample

record SamplerState =
  ssNextSample :: i64
  ssProbed :: i64

text \<open>What is due once the sleep has ended, under the channel's lock.\<close>

definition take_notifications ::
    "WatchdogChannel \<Rightarrow> i64 \<Rightarrow> WatchdogChannel \<times> bool \<times> CaptureNetworkEpoch option \<times> bool" where
  "take_notifications ch now =
    (case TakeDue (wcCoalescer ch) now of (c, due) \<Rightarrow>
     case TakeDue (wcQuality ch) now of (q, qualityDue) \<Rightarrow>
       let ch1 = ch\<lparr>wcCoalescer := c, wcQuality := q\<rparr>;
           event = (if due then Option.bind (wcReadiness ch) PendingNetworkEvent else None)
       in (ch1, (if due \<and> wcReadiness ch \<noteq> None then event \<noteq> None else due), event, qualityDue))"

definition on_readiness :: "(CaptureReadiness \<Rightarrow> CaptureReadiness) \<Rightarrow> WatchdogChannel \<Rightarrow> WatchdogChannel" where
  "on_readiness f ch = ch\<lparr>wcReadiness := map_option f (wcReadiness ch)\<rparr>"

definition notify_network ::
    "SdkAnswers \<Rightarrow> CaptureNetworkEpoch option \<Rightarrow> WatchdogChannel \<Rightarrow> WatchdogChannel" where
  "notify_network ans event ch =
    (if saNetworkChanged ans
     then (case event of None \<Rightarrow> ch | Some ev \<Rightarrow> on_readiness (\<lambda>r. NetworkEventHandled r ev) ch)
     else ch)"

definition capture_pending :: "WatchdogChannel \<Rightarrow> CaptureReadiness option" where
  "capture_pending ch = (if wcCapturing ch then wcReadiness ch else None)"

definition probe_due :: "TunnelWatchdogSettings \<Rightarrow> SamplerState \<Rightarrow> WatchdogChannel \<Rightarrow> i64 \<Rightarrow> bool" where
  "probe_due settings s ch now =
    (case capture_pending ch of
       None \<Rightarrow> False
     | Some r \<Rightarrow> crProofSinceMillis r \<ge> 0 \<and> crProofSinceMillis r \<noteq> ssProbed s \<and>
         now - crProofSinceMillis r \<ge> probeAgeResolutionMillis (capture settings))"

definition count_exits ::
    "TunnelWatchdogSettings \<Rightarrow> i64 \<Rightarrow> i64 \<Rightarrow> CaptureExit list option \<Rightarrow> i64 \<times> i64 \<times> i64" where
  "count_exits settings now proofSince exits =
    (case exits of
       None \<Rightarrow> (0, 0, 0)
     | Some es \<Rightarrow> foldl (\<lambda>(total, proven, good) e.
         (total + 1, (if exProven e then proven + 1 else proven),
          (if CaptureExitIsUsable e now proofSince (capture settings) then good + 1 else good)))
         (0, 0, 0) es)"

definition window_of :: "SdkWindow \<Rightarrow> CaptureWindow" where
  "window_of w = \<lparr>cwGeneration = swGeneration w, cwAdded = swAdded w\<rparr>"

definition complete_sample ::
    "SdkAnswers \<Rightarrow> CaptureSample \<Rightarrow> i64 \<Rightarrow> i64 \<Rightarrow> CaptureReadiness \<Rightarrow> CaptureReadiness" where
  "complete_sample ans sample usableProven now r =
    (case (saBefore ans, saAfter ans) of
       (Some b, Some a) \<Rightarrow> CompleteSample r sample (window_of b) (window_of a) usableProven now
     | _ \<Rightarrow> CompleteSample r sample \<lparr>cwGeneration = 0, cwAdded = 0\<rparr> \<lparr>cwGeneration = 0, cwAdded = 0\<rparr> 0 now)"

definition publish_sample ::
    "SdkAnswers \<Rightarrow> i64 \<Rightarrow> i64 \<Rightarrow> i64 \<Rightarrow> WatchdogChannel \<Rightarrow> WatchdogChannel" where
  "publish_sample ans exits proven now ch =
    (let ch1 = (case (saContract ans, saBalanceWindow ans) of
                  (Some (insufficient, noPerm), Some w) \<Rightarrow>
                    ch\<lparr>wcBalance := \<lparr>sampled = True, insufficientBalance = insufficient, noPermission = noPerm,
                       connectionGeneration = swGeneration w, providerAddedCount = swAdded w\<rparr>\<rparr>
                | _ \<Rightarrow> ch)
     in ch1\<lparr>wcProvenCount := proven, wcExitCount := exits,
            wcLastProvenMillis := (if proven \<ge> 1 then now else wcLastProvenMillis ch1),
            wcLastSampleMillis := now\<rparr>)"

text \<open>
  The second half of a turn: the probe, the bracketed reads, and the publication. \<open>stopAt k\<close> is the
  cancellation as the \<open>k\<close>-th check sees it, \<open>env k\<close> what other threads did to the readiness before
  the \<open>k\<close>-th place the turn takes its lock. The turn returns whether the loop goes on.
\<close>

definition TakeSample ::
    "TunnelWatchdogSettings \<Rightarrow> (nat \<Rightarrow> CaptureReadiness \<Rightarrow> CaptureReadiness) \<Rightarrow> (nat \<Rightarrow> bool) \<Rightarrow> (nat \<Rightarrow> i64) \<Rightarrow>
     SdkAnswers \<Rightarrow> SamplerState \<Rightarrow> WatchdogChannel \<Rightarrow> WatchdogChannel \<times> SamplerState \<times> SdkCall list \<times> bool" where
  "TakeSample settings env stopAt clock ans s ch =
    (let probe = probe_due settings s ch (clock 3);
         s1 = (if probe \<and> saProbe ans
               then s\<lparr>ssProbed := (case capture_pending ch of None \<Rightarrow> ssProbed s | Some r \<Rightarrow> crProofSinceMillis r)\<rparr>
               else s);
         calls = (if probe then [Sdk_ProbeAllExits] else [])
     in if probe \<and> stopAt 3 then (ch, s1, calls, False)
        else
          let ch1 = on_readiness (env 3) ch;
              sample = (case capture_pending ch1 of
                          None \<Rightarrow> \<lparr>smRevision = 0, smProofSinceMillis = -1, smStartedMillis = 0\<rparr>
                        | Some r \<Rightarrow> BeginSample r (clock 4));
              counts = count_exits settings (clock 5) (smProofSinceMillis sample) (saExits ans);
              capturing = (capture_pending ch1 \<noteq> None)
          in if stopAt 4 \<or> stopAt 5 \<or> stopAt 6 \<or> stopAt 7 \<or> (capturing \<and> stopAt 8)
             then (on_readiness (env 4) ch1, s1, calls @ [Sdk_Sample], False)
             else
               let ch2 = on_readiness (env 4) ch1;
                   ch3 = (if capturing then on_readiness (complete_sample ans sample (snd (snd counts)) (clock 6)) ch2
                          else ch2)
               in (publish_sample ans (fst counts) (fst (snd counts)) (clock 7) ch3, s1, calls @ [Sdk_Sample], True))"

definition SamplerPass ::
    "TunnelWatchdogSettings \<Rightarrow> (nat \<Rightarrow> CaptureReadiness \<Rightarrow> CaptureReadiness) \<Rightarrow> (nat \<Rightarrow> bool) \<Rightarrow> (nat \<Rightarrow> i64) \<Rightarrow>
     SdkAnswers \<Rightarrow> SamplerState \<Rightarrow> WatchdogChannel \<Rightarrow> WatchdogChannel \<times> SamplerState \<times> SdkCall list \<times> bool" where
  "SamplerPass settings env stopAt clock ans s ch =
    (if stopAt 0 then (ch, s, [], False)
     else
       case take_notifications ch (clock 0) of (ch1, due, event, qualityDue) \<Rightarrow>
       if \<not> wcDevice ch1 then (ch1, s, [], False)
       else
         let ch2 = (if due then notify_network ans event (on_readiness (env 1) ch1) else ch1);
             calls1 = (if due then [Sdk_NetworkChanged] else [])
         in if due \<and> stopAt 1 then (ch2, s, calls1, False)
            else
              let quality = (qualityDue \<and> \<not> due);
                  calls2 = calls1 @ (if quality then [Sdk_QualityChanged] else [])
              in if quality \<and> stopAt 2 then (ch2, s, calls2, False)
                 else if clock 1 < ssNextSample s then (ch2, s, calls2, True)
                 else case TakeSample settings env stopAt clock ans
                     (s\<lparr>ssNextSample := clock 2 + sampleIntervalMillis settings\<rparr>) (on_readiness (env 2) ch2) of
                   (ch3, s', calls3, alive) \<Rightarrow> (ch3, s', calls2 @ calls3, alive))"

section \<open>Stopping the watch\<close>

text \<open>
  The bounded join: \<open>done' k\<close> is the \<open>k\<close>-th reading of the thread's done flag, \<open>clock k\<close> the time
  beside it; the flag is read once more when the loop ends.
\<close>

partial_function (option) join_loop :: "i64 \<Rightarrow> (nat \<Rightarrow> i64) \<Rightarrow> (nat \<Rightarrow> bool) \<Rightarrow> nat \<Rightarrow> bool option" where
  "join_loop deadline clock done' k =
    (if done' k \<or> deadline \<le> clock k then Some (done' (Suc k)) else join_loop deadline clock done' (Suc k))"

definition JoinWithin :: "TunnelWatchdogSettings \<Rightarrow> bool \<Rightarrow> i64 \<Rightarrow> (nat \<Rightarrow> i64) \<Rightarrow> (nat \<Rightarrow> bool) \<Rightarrow> bool option" where
  "JoinWithin settings hasChannel start clock done' =
    (if \<not> hasChannel then Some True else join_loop (start + joinBudgetMillis settings) clock done' 0)"

datatype ThreadEnd = Thread_None | Thread_Joined | Thread_Detached

text \<open>
  \<open>Stop\<close> once the channel is cancelled: the evaluator may be the calling thread, and an abandoned
  sampler is noted for the process's exit.
\<close>

definition StopWatch ::
    "bool \<Rightarrow> bool \<Rightarrow> bool \<Rightarrow> bool \<Rightarrow> bool \<Rightarrow> WatchdogChannel \<Rightarrow> StopState \<Rightarrow>
     WatchdogChannel \<times> ThreadEnd \<times> ThreadEnd \<times> StopState" where
  "StopWatch evaluatorJoinable evaluatorIsSelf evaluatorInTime samplerJoinable samplerInTime ch st =
    (let evaluator = (if \<not> evaluatorJoinable then Thread_None
                      else if evaluatorIsSelf then Thread_Detached
                      else if evaluatorInTime then Thread_Joined else Thread_Detached);
         sampler = (if \<not> samplerJoinable then Thread_None
                    else if samplerInTime then Thread_Joined else Thread_Detached)
     in (CancelChannel ch, evaluator, sampler,
         if sampler = Thread_Detached then NoteTeardownAbandoned st else st))"

lemma join_loop_ends:
  assumes "deadline \<le> clock n" "k \<le> n"
  shows "\<exists>j\<ge>k. j \<le> n \<and> join_loop deadline clock done' k = Some (done' (Suc j))"
  using assms(2)
proof (induction "n - k" arbitrary: k)
  case 0
  then have "k = n" by simp
  then show ?case using assms(1) by (subst join_loop.simps) auto
next
  case (Suc d)
  show ?case
  proof (cases "done' k \<or> deadline \<le> clock k")
    case True
    then show ?thesis using Suc.prems by (subst join_loop.simps) auto
  next
    case False
    have "\<exists>j\<ge>Suc k. j \<le> n \<and> join_loop deadline clock done' (Suc k) = Some (done' (Suc j))"
      using Suc.hyps by (intro Suc.hyps(1)) auto
    then show ?thesis using False by (subst join_loop.simps) (auto dest: Suc_leD)
  qed
qed

text \<open>A join that is waited for ends, whatever the thread does, once the clock passes the budget.\<close>

lemma JoinWithin_total:
  assumes "start + joinBudgetMillis settings \<le> clock n"
  shows "\<exists>r. JoinWithin settings hasChannel start clock done' = Some r"
  using join_loop_ends [of "start + joinBudgetMillis settings" clock n 0 done'] assms
  by (auto simp: JoinWithin_def)

section \<open>Runs of the evaluator\<close>

definition continues :: "TickOutcome \<Rightarrow> bool" where
  "continues r \<longleftrightarrow> r = Tick_Rebased \<or> r = Tick_Released \<or> r = Tick_Watching"

text \<open>The time, outcome and start of the measured stretch of every turn, until the thread ends.\<close>

fun evaluator_trace ::
    "TunnelWatchdogSettings \<Rightarrow> EvaluatorState \<Rightarrow> (WatchdogChannel \<times> EvaluatorInput) list \<Rightarrow>
     (i64 \<times> TickOutcome \<times> i64) list" where
  "evaluator_trace settings es [] = []"
| "evaluator_trace settings es ((ch, i) # rest) =
    (case EvaluatorTick settings ch i es of (ch', es', r) \<Rightarrow>
       (eiNow i, r, esSessionStart es') # (if continues r then evaluator_trace settings es' rest else []))"

fun evaluator_run ::
    "TunnelWatchdogSettings \<Rightarrow> EvaluatorState \<Rightarrow> (WatchdogChannel \<times> EvaluatorInput) list \<Rightarrow> EvaluatorState option" where
  "evaluator_run settings es [] = Some es"
| "evaluator_run settings es ((ch, i) # rest) =
    (case EvaluatorTick settings ch i es of (ch', es', r) \<Rightarrow>
       if continues r then evaluator_run settings es' rest else None)"

text \<open>How long a stretch each verdict is about.\<close>

fun window_of_reason :: "DeadTunnelSettings \<Rightarrow> DeadTunnelReason \<Rightarrow> i64" where
  "window_of_reason st Reason_None = 0"
| "window_of_reason st NoExit = deadSlowMillis st"
| "window_of_reason st NoInbound = deadFastMillis st"
| "window_of_reason st SdkUnresponsive = sdkUnresponsiveMillis st"

lemma age_in_session: "AgeSince (StampInSession stamp start) start now \<le> now - start"
  by (auto simp: AgeSince_def StampInSession_def)

lemma reason_needs_window:
  assumes "reason (Evaluate s now st) = r" "r \<noteq> Reason_None"
  shows "(r = SdkUnresponsive \<longrightarrow> sdkUnresponsiveMillis st \<le> sampleAge s now) \<and>
    (r = NoInbound \<longrightarrow> deadFastMillis st \<le> provenAge s now) \<and>
    (r = NoExit \<longrightarrow> deadSlowMillis st \<le> provenAge s now)"
  using assms by (auto simp: Evaluate_def NoVerdict_def Let_def split: if_splits)

lemma verdict_needs_stretch:
  assumes "reason (Evaluate (signals_of ch i es) now st) = r" "r \<noteq> Reason_None"
  shows "esSessionStart es + window_of_reason st r \<le> now"
proof -
  have "sampleAge (signals_of ch i es) now \<le> now - esSessionStart es"
    "provenAge (signals_of ch i es) now \<le> now - esSessionStart es"
    by (simp_all add: sampleAge_def provenAge_def signals_of_def age_in_session)
  then show ?thesis using reason_needs_window [OF assms] assms(2) by (cases r) auto
qed

lemma observe_epoch_start: "esSessionStart (observe_epoch ch i es) \<in> {esSessionStart es, eiNow i}"
  by (auto simp: observe_epoch_def Let_def split: prod.splits)

lemma judge_start:
  assumes "judge settings ch i es = (es', r)"
  shows "esSessionStart es' = esSessionStart es \<or> esSessionStart es' = eiNow i"
    and "r = Tick_Watching \<or> (\<exists>q. r = Tick_Fired q \<and> q \<noteq> Reason_None)"
    and "r = Tick_Fired q \<Longrightarrow> esSessionStart es' + window_of_reason (deadTunnel settings) q \<le> eiNow i"
proof -
  let ?e = "observe_epoch ch i es"
  let ?e2 = "?e\<lparr>esTraffic := observe_traffic (eiCounters i) (eiNow i) (esTraffic ?e)\<rparr>"
  have s: "esSessionStart es' = esSessionStart ?e" and r: "r = (if reason (Evaluate (signals_of ch i ?e2) (eiNow i) (deadTunnel settings)) = Reason_None
      then Tick_Watching else Tick_Fired (reason (Evaluate (signals_of ch i ?e2) (eiNow i) (deadTunnel settings))))"
    using assms by (auto simp: judge_def Let_def)
  show "esSessionStart es' = esSessionStart es \<or> esSessionStart es' = eiNow i"
    using s observe_epoch_start [of ch i es] by auto
  show "r = Tick_Watching \<or> (\<exists>q. r = Tick_Fired q \<and> q \<noteq> Reason_None)" using r by auto
  show "esSessionStart es' + window_of_reason (deadTunnel settings) q \<le> eiNow i" if "r = Tick_Fired q"
    using verdict_needs_stretch [of ch i ?e2 "eiNow i" "deadTunnel settings" q] r that s
    by (auto split: if_splits)
qed

lemma tick_session_start:
  assumes "EvaluatorTick settings ch i es = (ch', es', r)"
  shows "esSessionStart es' = esSessionStart es \<or> esSessionStart es' = eiNow i"
    and "r = Tick_Rebased \<or> r = Tick_Released \<Longrightarrow> esSessionStart es' = eiNow i"
    and "r = Tick_Fired q \<Longrightarrow> esSessionStart es' + window_of_reason (deadTunnel settings) q \<le> eiNow i"
  using assms
  by (auto simp: EvaluatorTick_def rebase_windows_def Let_def
      split: if_splits prod.splits option.splits dest: judge_start)

lemma trace_after_start:
  assumes "list_all (\<lambda>x. esSessionStart es \<le> eiNow (snd x)) inputs" "sorted (map (\<lambda>x. eiNow (snd x)) inputs)"
  shows "\<forall>(t, r, s)\<in>set (evaluator_trace settings es inputs).
    esSessionStart es \<le> s \<and> (\<forall>q. r = Tick_Fired q \<longrightarrow> esSessionStart es + window_of_reason (deadTunnel settings) q \<le> t)"
  using assms(1,2)
proof (induction inputs arbitrary: es)
  case (Cons x rest)
  obtain ch i where x: "x = (ch, i)" by (cases x)
  obtain ch' es' r where t: "EvaluatorTick settings ch i es = (ch', es', r)"
    by (cases "EvaluatorTick settings ch i es")
  note f = tick_session_start [OF t]
  have le: "esSessionStart es \<le> esSessionStart es'" using f(1) Cons.prems x by auto
  have "list_all (\<lambda>x. esSessionStart es' \<le> eiNow (snd x)) rest"
    using f(1) Cons.prems x by (auto simp: list_all_iff)
  then have IH: "\<forall>(t, r, s)\<in>set (evaluator_trace settings es' rest).
    esSessionStart es' \<le> s \<and> (\<forall>q. r = Tick_Fired q \<longrightarrow> esSessionStart es' + window_of_reason (deadTunnel settings) q \<le> t)"
    using Cons.IH Cons.prems(2) by simp
  show ?case using IH le f(3) by (fastforce simp: x t)
qed simp

lemma trace_pairs:
  assumes "list_all (\<lambda>x. esSessionStart es \<le> eiNow (snd x)) inputs" "sorted (map (\<lambda>x. eiNow (snd x)) inputs)"
  shows "sorted_wrt (\<lambda>(t, r, s) (t', r', s'). \<forall>q. r' = Tick_Fired q \<longrightarrow>
      s + window_of_reason (deadTunnel settings) q \<le> t') (evaluator_trace settings es inputs)"
  using assms
proof (induction inputs arbitrary: es)
  case (Cons x rest)
  obtain ch i where x: "x = (ch, i)" by (cases x)
  obtain ch' es' r where t: "EvaluatorTick settings ch i es = (ch', es', r)"
    by (cases "EvaluatorTick settings ch i es")
  have l: "list_all (\<lambda>x. esSessionStart es' \<le> eiNow (snd x)) rest"
    using tick_session_start(1) [OF t] Cons.prems x by (auto simp: list_all_iff)
  have s: "sorted (map (\<lambda>x. eiNow (snd x)) rest)" using Cons.prems by simp
  show ?case using Cons.IH [OF l s] trace_after_start [OF l s, of settings] by (auto simp: x t)
qed simp

lemma trace_stamps:
  "list_all (\<lambda>(t, r, s). r = Tick_Rebased \<or> r = Tick_Released \<longrightarrow> s = t) (evaluator_trace settings es inputs)"
proof (induction inputs arbitrary: es)
  case (Cons x rest)
  obtain ch i where x: "x = (ch, i)" by (cases x)
  obtain ch' es' r where t: "EvaluatorTick settings ch i es = (ch', es', r)"
    by (cases "EvaluatorTick settings ch i es")
  show ?case using Cons.IH tick_session_start(2) [OF t] by (auto simp: x t)
qed simp

lemma judge_hold: "judge settings ch i es = (es', r) \<Longrightarrow> esHold es' = esHold es"
  by (auto simp: judge_def observe_epoch_def Let_def split: prod.splits)

lemma tick_hold:
  "EvaluatorTick settings ch i es = (ch', es', r) \<Longrightarrow> r \<noteq> Tick_Cancelled \<Longrightarrow>
    esHold es' = hold_step (esHold es) (wcBalance ch)"
  by (auto simp: EvaluatorTick_def rebase_windows_def Let_def hold_step_def
      split: if_splits prod.splits option.splits dest: judge_hold)

lemma run_hold:
  "evaluator_run settings es inputs = Some es' \<Longrightarrow>
    esHold es' = run hold_step (esHold es) (map (\<lambda>x. wcBalance (fst x)) inputs)"
proof (induction inputs arbitrary: es)
  case (Cons x rest)
  obtain ch i where x: "x = (ch, i)" by (cases x)
  obtain ch' es1 r where t: "EvaluatorTick settings ch i es = (ch', es1, r)"
    by (cases "EvaluatorTick settings ch i es")
  with Cons.prems x have "continues r" "evaluator_run settings es1 rest = Some es'"
    by (auto split: if_splits)
  then show ?case using Cons.IH tick_hold [OF t] by (auto simp: x continues_def)
qed simp

lemma held_not_fired:
  assumes "outOfBalance s" shows "reason (Evaluate s now st) \<in> {Reason_None, SdkUnresponsive}"
  using assms by (auto simp: Evaluate_def fastApplies_def slowApplies_def NoVerdict_def Let_def)

lemma judge_held:
  assumes "held (esHold es)" "judge settings ch i es = (es', r)"
  shows "r \<noteq> Tick_Fired NoExit \<and> r \<noteq> Tick_Fired NoInbound"
proof -
  let ?e = "observe_epoch ch i es"
  let ?s = "signals_of ch i (?e\<lparr>esTraffic := observe_traffic (eiCounters i) (eiNow i) (esTraffic ?e)\<rparr>)"
  have "esHold ?e = esHold es" by (auto simp: observe_epoch_def Let_def split: prod.splits)
  then have "outOfBalance ?s" using assms(1) by (simp add: signals_of_def)
  from held_not_fired [OF this, of "eiNow i" "deadTunnel settings"] assms(2) show ?thesis
    by (auto simp: judge_def Let_def)
qed

lemma tick_held:
  assumes "EvaluatorTick settings ch i es = (ch', es', r)" "held (hold_step (esHold es) (wcBalance ch))"
  shows "r \<noteq> Tick_Fired NoExit \<and> r \<noteq> Tick_Fired NoInbound"
  using assms
  by (auto simp: EvaluatorTick_def hold_step_def Let_def split: if_splits prod.splits option.splits
      dest: judge_held [rotated])

lemma count_exits_fold:
  "foldl (\<lambda>(total, proven, good) e. (total + 1, (if exProven e then proven + 1 else proven),
      (if u e then good + 1 else good))) (a, b, c) es =
    (a + int (length es), b + int (length (filter exProven es)), c + int (length (filter u es)))"
  by (induction es arbitrary: a b c) auto

lemma count_exits_eq:
  "count_exits settings now since exits =
    (case exits of None \<Rightarrow> (0, 0, 0) | Some es \<Rightarrow> (int (length es), int (length (filter exProven es)),
      int (length (filter (\<lambda>e. CaptureExitIsUsable e now since (capture settings)) es))))"
  by (simp add: count_exits_def count_exits_fold split: option.split)

text \<open>What the evaluator reads of a sample.\<close>

definition published :: "WatchdogChannel \<Rightarrow> i64 \<times> i64 \<times> i64 \<times> i64 \<times> BalanceReading" where
  "published ch = (wcLastSampleMillis ch, wcExitCount ch, wcProvenCount ch, wcLastProvenMillis ch, wcBalance ch)"

lemma published_simps [simp]:
  "published (on_readiness f ch) = published ch"
  "published (ch\<lparr>wcCoalescer := c, wcQuality := q\<rparr>) = published ch"
  by (simp_all add: published_def on_readiness_def)

lemma published_take: "take_notifications ch now = (ch', r) \<Longrightarrow> published ch' = published ch"
  by (auto simp: take_notifications_def Let_def split: prod.splits)

lemma published_notify [simp]: "published (notify_network ans event ch) = published ch"
  by (simp add: notify_network_def split: option.split)

lemma published_publish:
  "wcLastSampleMillis (publish_sample ans x p now ch) = now"
  "wcExitCount (publish_sample ans x p now ch) = x"
  "wcProvenCount (publish_sample ans x p now ch) = p"
  "wcLastProvenMillis (publish_sample ans x p now ch) = (if p \<ge> 1 then now else wcLastProvenMillis ch)"
  by (simp_all add: publish_sample_def Let_def split: option.split prod.split)

lemma TakeSample_published:
  assumes "TakeSample settings env stopAt clock ans s ch = (ch', s', calls, alive)"
  shows "if alive
    then Sdk_Sample \<in> set calls \<and> (\<exists>since ch2.
      ch' = publish_sample ans (fst (count_exits settings (clock 5) since (saExits ans)))
        (fst (snd (count_exits settings (clock 5) since (saExits ans)))) (clock 7) ch2 \<and>
      published ch2 = published ch)
    else published ch' = published ch"
  using assms unfolding TakeSample_def Let_def
  by (auto split: if_splits intro!: exI conjI)

lemma SamplerPass_published:
  assumes "SamplerPass settings env stopAt clock ans s ch = (ch', s', calls, alive)"
  shows "if alive \<and> Sdk_Sample \<in> set calls
    then \<exists>since ch2.
      ch' = publish_sample ans (fst (count_exits settings (clock 5) since (saExits ans)))
        (fst (snd (count_exits settings (clock 5) since (saExits ans)))) (clock 7) ch2 \<and>
      published ch2 = published ch
    else published ch' = published ch"
proof -
  obtain ch1 due event quality where n: "take_notifications ch (clock 0) = (ch1, due, event, quality)"
    by (cases "take_notifications ch (clock 0)") auto
  let ?ch2 = "if due then notify_network ans event (on_readiness (env 1) ch1) else ch1"
  let ?s = "s\<lparr>ssNextSample := clock 2 + sampleIntervalMillis settings\<rparr>"
  obtain ch3 s3 calls3 alive3 where t:
    "TakeSample settings env stopAt clock ans ?s (on_readiness (env 2) ?ch2) = (ch3, s3, calls3, alive3)"
    by (cases "TakeSample settings env stopAt clock ans ?s (on_readiness (env 2) ?ch2)") auto
  have p: "published ?ch2 = published ch" using published_take [OF n] by simp
  show ?thesis
    using assms p published_take [OF n] TakeSample_published [OF t] n t
    by (auto simp: SamplerPass_def Let_def split: if_splits)
qed

section \<open>Properties\<close>


definition sampleChannel :: "i64 \<Rightarrow> WatchdogChannel" where
  "sampleChannel lastSample =
    (InitChannel DefaultTunnelWatchdogSettings None False)\<lparr>wcLastSampleMillis := lastSample\<rparr>"

definition sampleInput :: "i64 \<Rightarrow> EvaluatorInput" where
  "sampleInput now = \<lparr>eiNow = now, eiTunnelUp = True, eiResetCounters = None, eiCounters = None\<rparr>"

definition sampleRun :: "(WatchdogChannel \<times> EvaluatorInput) list" where
  "sampleRun = map (\<lambda>t. (sampleChannel 3000, sampleInput t))
    (4000 # 60000 # map (\<lambda>k. 60000 + 4000 * int k) [1..<9])"


text \<open>
  A billing state never opens the machine. Through any run of the watch, as long as the history of
  balance readings says the account is out of balance (a refusal, and since the last one nothing
  that shows contracts going through), no turn stops the tunnel for its traffic: neither for a
  missing exit nor for silence.
\<close>

theorem billing_never_opens:
  assumes "esHold es0 = InitOutOfBalanceHold" and "evaluator_run settings es0 inputs = Some es"
    and "hold_spec (map (\<lambda>x. wcBalance (fst x)) inputs @ [wcBalance ch])"
  shows "snd (snd (EvaluatorTick settings ch i es)) \<notin> {Tick_Fired NoExit, Tick_Fired NoInbound}"
proof -
  obtain ch' es' r where t: "EvaluatorTick settings ch i es = (ch', es', r)"
    by (cases "EvaluatorTick settings ch i es")
  have "held (hold_step (esHold es) (wcBalance ch))"
    using run_hold [OF assms(2)] assms(1,3) by (simp add: hold_run_history [symmetric])
  from tick_held [OF t this] show ?thesis by (simp add: t)
qed

definition refusedChannel :: WatchdogChannel where
  "refusedChannel = (sampleChannel 3000)\<lparr>wcBalance :=
    \<lparr>sampled = True, insufficientBalance = True, noPermission = False, connectionGeneration = 1, providerAddedCount = 0\<rparr>\<rparr>"

theorem billing_never_opens_witness:
  "snd (snd (EvaluatorTick DefaultTunnelWatchdogSettings (sampleChannel 3000) (sampleInput 6000)
      (the (evaluator_run DefaultTunnelWatchdogSettings (InitEvaluator refusedChannel None 1000 1000)
        [(refusedChannel, sampleInput 4000)])))) \<notin> {Tick_Fired NoExit, Tick_Fired NoInbound}"
proof -
  let ?es = "InitEvaluator refusedChannel None 1000 1000"
  have a: "esHold ?es = InitOutOfBalanceHold" by (simp add: InitEvaluator_def)
  have b: "evaluator_run DefaultTunnelWatchdogSettings ?es [(refusedChannel, sampleInput 4000)] =
      Some (the (evaluator_run DefaultTunnelWatchdogSettings ?es [(refusedChannel, sampleInput 4000)]))"
    by code_simp
  have c: "hold_spec (map (\<lambda>x. wcBalance (fst x)) [(refusedChannel, sampleInput 4000)] @ [wcBalance (sampleChannel 3000)])"
    by code_simp
  show ?thesis by (rule billing_never_opens [OF a b c])
qed

text \<open>
  A sampler that is told to stop publishes nothing: whichever check of its turn sees the
  cancellation, the counts, the stamps and the balance the evaluator reads are as they were. And a
  turn that samples to the end stamps the sample last, with the counts of the exits it read, and
  claims a proven exit only when one of them was.
\<close>

theorem sampler_publishes_whole_samples:
  assumes "SamplerPass settings env stopAt clock ans s ch = (ch', s', calls, alive)"
  shows "if alive \<and> Sdk_Sample \<in> set calls
    then wcLastSampleMillis ch' = clock 7 \<and>
      wcExitCount ch' = (case saExits ans of None \<Rightarrow> 0 | Some es \<Rightarrow> int (length es)) \<and>
      wcProvenCount ch' = (case saExits ans of None \<Rightarrow> 0 | Some es \<Rightarrow> int (length (filter exProven es))) \<and>
      wcLastProvenMillis ch' = (if wcProvenCount ch' \<ge> 1 then clock 7 else wcLastProvenMillis ch)
    else wcLastSampleMillis ch' = wcLastSampleMillis ch \<and> wcExitCount ch' = wcExitCount ch \<and>
      wcProvenCount ch' = wcProvenCount ch \<and> wcLastProvenMillis ch' = wcLastProvenMillis ch \<and>
      wcBalance ch' = wcBalance ch"
  using SamplerPass_published [OF assms]
  by (auto simp: published_def published_publish count_exits_eq split: if_splits option.splits)

theorem sampler_publishes_whole_samples_witness:
  "wcLastSampleMillis (fst (SamplerPass DefaultTunnelWatchdogSettings (\<lambda>k r. r) (\<lambda>k. k = 7) (\<lambda>k. 9000)
      \<lparr>saNetworkChanged = True, saQualityChanged = True, saProbe = True, saContract = None, saBalanceWindow = None,
       saBefore = None, saExits = None, saAfter = None\<rparr> \<lparr>ssNextSample = 8000, ssProbed = -1\<rparr> (sampleChannel 3000))) = 3000"
proof -
  let ?pass = "SamplerPass DefaultTunnelWatchdogSettings (\<lambda>k r. r) (\<lambda>k. k = 7) (\<lambda>k. 9000)
      \<lparr>saNetworkChanged = True, saQualityChanged = True, saProbe = True, saContract = None, saBalanceWindow = None,
       saBefore = None, saExits = None, saAfter = None\<rparr> \<lparr>ssNextSample = 8000, ssProbed = -1\<rparr> (sampleChannel 3000)"
  obtain ch' s' calls alive where p: "?pass = (ch', s', calls, alive)" by (metis prod_cases4)
  have "\<not> snd (snd (snd ?pass))" by code_simp
  then have "\<not> alive" by (simp add: p)
  with sampler_publishes_whole_samples [OF p] show ?thesis unfolding p by (simp add: sampleChannel_def)
qed

end
