(* ===== verification/NetworkConfig.thy ===== *)
theory NetworkConfig
  imports NetPolicy
begin

text \<open>
  The owner of the tun's addresses, routes and resolvers (\<^verbatim>\<open>Service/NetworkConfig.cpp\<close>): the
  preflight, \<open>Apply\<close>, \<open>Revert\<close>, the crash path and the sweep of an adapter a dead process
  left behind.

  The IP Helper interface is Windows' own code and enters as the argument \<open>api\<close>, one field per
  call the source makes. What the proofs use of it is \<open>ip_contract\<close>, the documented effect of
  each call on the on-link routes and on the resolvers. The world \<open>NetWorld\<close> is the stack, the
  armed identifier the crash path reads (\<^verbatim>\<open>g_armedTunLuid\<close>), and in \<open>nwTrail\<close> what a crash would
  find after each call that can change the stack, the latest first. Log texts are left out.
\<close>

unbundle bit_operations_syntax

section \<open>Data\<close>

definition kTunnelMtu :: u32 where "kTunnelMtu = 1280"

record TunnelNetworkSettings =
  nsLocalV4 :: string
  nsPrefixV4 :: nat
  nsLocalV6 :: string
  nsPrefixV6 :: nat
  nsMtu :: u32
  nsDnsV4 :: "string list"
  nsDnsV6 :: "string list"
  nsDnsSearch :: string

definition HasIpv6 :: "TunnelNetworkSettings \<Rightarrow> bool" where
  "HasIpv6 st \<longleftrightarrow> nsLocalV6 st \<noteq> []"

definition NoTunnelSettings :: TunnelNetworkSettings where
  "NoTunnelSettings = \<lparr>nsLocalV4 = [], nsPrefixV4 = 24, nsLocalV6 = [], nsPrefixV6 = 64,
    nsMtu = kTunnelMtu, nsDnsV4 = [], nsDnsV6 = [], nsDnsSearch = []\<rparr>"

datatype AddressFamily = AF_UNSPEC | AF_INET | AF_INET6

text \<open>Addresses are their bytes in network order, four or sixteen of them.\<close>

record IpPrefix =
  ipFamily :: AddressFamily
  ipAddress :: "8 word list"
  ipLength :: nat

datatype RouteProtocol = MIB_IPPROTO_OTHER | MIB_IPPROTO_NETMGMT

record ForwardRow =
  frLuid :: u64
  frIndex :: u32
  frDest :: IpPrefix
  frNextHop :: "AddressFamily \<times> 8 word list"
  frMetric :: u32
  frProtocol :: RouteProtocol

datatype LinkLocalBehavior = LinkLocalAlwaysOff | LinkLocalDelayed | LinkLocalAlwaysOn | LinkLocalUnchanged

datatype RouterDiscovery = RouterDiscoveryDisabled | RouterDiscoveryEnabled | RouterDiscoveryDhcp | RouterDiscoveryUnchanged

record IpInterfaceRow =
  iiFamily :: AddressFamily
  iiLuid :: u64
  iiNlMtu :: u32
  iiUseAutomaticMetric :: bool
  iiMetric :: u32
  iiSitePrefixLength :: nat
  iiLinkLocal :: LinkLocalBehavior
  iiRouterDiscovery :: RouterDiscovery
  iiAdvertising :: bool
  iiAdvertiseDefaultRoute :: bool
  iiDisableDefaultRoutes :: bool

datatype DadState = IpDadStateInvalid | IpDadStateTentative | IpDadStateDuplicate | IpDadStateDeprecated | IpDadStatePreferred

record UnicastRow =
  urLuid :: u64
  urIndex :: u32
  urFamily :: AddressFamily
  urAddress :: "8 word list"
  urOnLinkPrefix :: nat
  urDad :: DadState

type_synonym InterfaceGuid = "u32 list"

record DnsSettings =
  dsFlags :: u32
  dsNameServer :: "string option"
  dsSearchList :: "string option"

datatype IfType = IF_TYPE_PROP_VIRTUAL | IF_TYPE_TUNNEL | IF_TYPE_OTHER

datatype MediaState = MediaConnectStateUnknown | MediaConnectStateConnected | MediaConnectStateDisconnected

record IfRow =
  ifLuid :: u64
  ifRowIndex :: u32
  ifAlias :: string
  ifDescription :: string
  ifType :: IfType
  ifMedia :: MediaState

text \<open>The result codes the source tells apart.\<close>

definition NO_ERROR :: u32 where "NO_ERROR = 0"
definition ERROR_FILE_NOT_FOUND :: u32 where "ERROR_FILE_NOT_FOUND = 2"
definition ERROR_NOT_SUPPORTED :: u32 where "ERROR_NOT_SUPPORTED = 50"
definition ERROR_BUFFER_OVERFLOW :: u32 where "ERROR_BUFFER_OVERFLOW = 111"
definition ERROR_NOT_FOUND :: u32 where "ERROR_NOT_FOUND = 1168"
definition ERROR_OBJECT_ALREADY_EXISTS :: u32 where "ERROR_OBJECT_ALREADY_EXISTS = 5010"

lemmas net_codes = NO_ERROR_def ERROR_FILE_NOT_FOUND_def ERROR_NOT_SUPPORTED_def
  ERROR_BUFFER_OVERFLOW_def ERROR_NOT_FOUND_def ERROR_OBJECT_ALREADY_EXISTS_def

definition DNS_SETTING_IPV6 :: u32 where "DNS_SETTING_IPV6 = 0x0001"
definition DNS_SETTING_NAMESERVER :: u32 where "DNS_SETTING_NAMESERVER = 0x0002"
definition DNS_SETTING_SEARCHLIST :: u32 where "DNS_SETTING_SEARCHLIST = 0x0004"

text \<open>A table is absent when the call fails or returns no table.\<close>

record 's IpHelper =
  CreateIpForwardEntry2 :: "ForwardRow \<Rightarrow> 's \<Rightarrow> u32 \<times> 's"
  DeleteIpForwardEntry2 :: "ForwardRow \<Rightarrow> 's \<Rightarrow> u32 \<times> 's"
  GetIpForwardTable2 :: "AddressFamily \<Rightarrow> 's \<Rightarrow> ForwardRow list option"
  GetIpInterfaceEntry :: "AddressFamily \<Rightarrow> u64 \<Rightarrow> 's \<Rightarrow> u32 + IpInterfaceRow"
  SetIpInterfaceEntry :: "IpInterfaceRow \<Rightarrow> 's \<Rightarrow> u32 \<times> 's"
  GetUnicastIpAddressTable :: "AddressFamily \<Rightarrow> 's \<Rightarrow> UnicastRow list option"
  CreateUnicastIpAddressEntry :: "UnicastRow \<Rightarrow> 's \<Rightarrow> u32 \<times> 's"
  DeleteUnicastIpAddressEntry :: "UnicastRow \<Rightarrow> 's \<Rightarrow> u32 \<times> 's"
  ConvertInterfaceLuidToGuid :: "u64 \<Rightarrow> 's \<Rightarrow> InterfaceGuid option"
  ConvertInterfaceGuidToLuid :: "InterfaceGuid \<Rightarrow> 's \<Rightarrow> u64 option"
  SetInterfaceDnsSettings :: "InterfaceGuid \<Rightarrow> DnsSettings \<Rightarrow> 's \<Rightarrow> u32 \<times> 's"
  GetIfTable2 :: "'s \<Rightarrow> IfRow list option"
  GetIfEntry2 :: "u64 \<Rightarrow> 's \<Rightarrow> IfRow option"
  GetIfEntry2Index :: "u32 \<Rightarrow> 's \<Rightarrow> IfRow option"
  DnsFlushResolverCache :: "('s \<Rightarrow> bool \<times> 's) option"

record 's NetWorld =
  nwStack :: 's
  nwArmed :: u64
  nwTrail :: "(u64 \<times> 's) list"

definition stack_call :: "('s \<Rightarrow> 'a \<times> 's) \<Rightarrow> 's NetWorld \<Rightarrow> 'a \<times> 's NetWorld" where
  "stack_call f w = (case f (nwStack w) of (r, s) \<Rightarrow>
    (r, w\<lparr>nwStack := s, nwTrail := (nwArmed w, s) # nwTrail w\<rparr>))"

record NetworkConfig =
  ncTun :: u64
  ncSettings :: TunnelNetworkSettings
  ncApplied :: bool
  ncAppliedIpv6 :: bool
  ncDnsApplied :: bool

definition NewNetworkConfig :: "u64 \<Rightarrow> NetworkConfig" where
  "NewNetworkConfig tun = \<lparr>ncTun = tun, ncSettings = NoTunnelSettings, ncApplied = False,
    ncAppliedIpv6 = False, ncDnsApplied = False\<rparr>"

definition ConfigDnsApplied :: "NetworkConfig \<Rightarrow> bool" where
  "ConfigDnsApplied n \<longleftrightarrow> ncApplied n \<and> ncDnsApplied n"

definition ConfigAppliedIpv6 :: "NetworkConfig \<Rightarrow> bool" where
  "ConfigAppliedIpv6 n \<longleftrightarrow> ncApplied n \<and> ncAppliedIpv6 n"

section \<open>Routes\<close>

definition htonl_bytes :: "u32 \<Rightarrow> 8 word list" where
  "htonl_bytes w = map (\<lambda>i. ucast (drop_bit (24 - 8 * i) w)) [0..<4]"

definition EmptyForwardRow :: ForwardRow where
  "EmptyForwardRow = \<lparr>frLuid = 0, frIndex = 0, frDest = \<lparr>ipFamily = AF_UNSPEC, ipAddress = [], ipLength = 0\<rparr>,
    frNextHop = (AF_UNSPEC, []), frMetric = 0, frProtocol = MIB_IPPROTO_OTHER\<rparr>"

definition v4_dest :: "u32 \<Rightarrow> nat \<Rightarrow> IpPrefix" where
  "v4_dest net len = \<lparr>ipFamily = AF_INET, ipAddress = htonl_bytes net, ipLength = len\<rparr>"

definition v6_dest :: "V6Prefix \<Rightarrow> IpPrefix" where
  "v6_dest p = \<lparr>ipFamily = AF_INET6, ipAddress = Bytes p, ipLength = prefix6 p\<rparr>"

definition AddTunRoute :: "'s IpHelper \<Rightarrow> u64 \<Rightarrow> V4Prefix \<Rightarrow> 's NetWorld \<Rightarrow> bool \<times> 's NetWorld" where
  "AddTunRoute api tun r w =
    (let row = EmptyForwardRow\<lparr>frLuid := tun, frDest := v4_dest (network r) (prefix r),
           frNextHop := (AF_INET, replicate 4 0), frMetric := 0, frProtocol := MIB_IPPROTO_NETMGMT\<rparr>
     in case stack_call (CreateIpForwardEntry2 api row) w of (err, w1) \<Rightarrow>
       (\<not> (err \<noteq> NO_ERROR \<and> err \<noteq> ERROR_OBJECT_ALREADY_EXISTS), w1))"

definition DeleteTunRoute :: "'s IpHelper \<Rightarrow> u64 \<Rightarrow> V4Prefix \<Rightarrow> 's NetWorld \<Rightarrow> bool \<times> 's NetWorld" where
  "DeleteTunRoute api tun r w =
    (let row = EmptyForwardRow\<lparr>frLuid := tun, frDest := v4_dest (network r) (prefix r)\<rparr>
     in case stack_call (DeleteIpForwardEntry2 api row) w of (err, w1) \<Rightarrow> (err = NO_ERROR, w1))"

definition TunRoute6 :: "u64 \<Rightarrow> V6Prefix \<Rightarrow> ForwardRow" where
  "TunRoute6 tun p = EmptyForwardRow\<lparr>frLuid := tun, frDest := v6_dest p,
    frNextHop := (AF_INET6, replicate 16 0), frMetric := 0, frProtocol := MIB_IPPROTO_NETMGMT\<rparr>"

definition AddTunRoute6 :: "'s IpHelper \<Rightarrow> u64 \<Rightarrow> V6Prefix \<Rightarrow> 's NetWorld \<Rightarrow> bool \<times> 's NetWorld" where
  "AddTunRoute6 api tun p w =
    (case stack_call (CreateIpForwardEntry2 api (TunRoute6 tun p)) w of (err, w1) \<Rightarrow>
       (\<not> (err \<noteq> NO_ERROR \<and> err \<noteq> ERROR_OBJECT_ALREADY_EXISTS), w1))"

definition DeleteTunRoute6 :: "'s IpHelper \<Rightarrow> u64 \<Rightarrow> V6Prefix \<Rightarrow> 's NetWorld \<Rightarrow> bool \<times> 's NetWorld" where
  "DeleteTunRoute6 api tun p w =
    (case stack_call (DeleteIpForwardEntry2 api (TunRoute6 tun p)) w of (err, w1) \<Rightarrow> (err = NO_ERROR, w1))"

text \<open>\<^verbatim>\<open>routesOk = routesOk && Add(...)\<close> makes no further call after the first failure.\<close>

fun install :: "('p \<Rightarrow> 'w \<Rightarrow> bool \<times> 'w) \<Rightarrow> 'p list \<Rightarrow> 'w \<Rightarrow> bool \<times> 'w" where
  "install add [] w = (True, w)"
| "install add (p # ps) w = (case add p w of (ok, w1) \<Rightarrow> if ok then install add ps w1 else (False, w1))"

fun remove_each :: "('p \<Rightarrow> 'w \<Rightarrow> bool \<times> 'w) \<Rightarrow> 'p list \<Rightarrow> nat \<Rightarrow> 'w \<Rightarrow> nat \<times> 'w" where
  "remove_each del [] n w = (n, w)"
| "remove_each del (p # ps) n w =
    (case del p w of (gone, w1) \<Rightarrow> remove_each del ps (if gone then n + 1 else n) w1)"

definition DeleteTunnelRoutes :: "'s IpHelper \<Rightarrow> u64 \<Rightarrow> 's NetWorld \<Rightarrow> nat \<times> 's NetWorld" where
  "DeleteTunnelRoutes api tun w =
    (case remove_each (DeleteTunRoute api tun) kTunCaptureV4 0 w of (n, w1) \<Rightarrow>
       remove_each (DeleteTunRoute6 api tun) kTunCaptureV6 n w1)"

section \<open>Resolvers\<close>

definition join_servers :: "string list \<Rightarrow> string" where
  "join_servers servers = foldl (\<lambda>joined s. (if joined \<noteq> [] then joined @ '','' else joined) @ s) [] servers"

definition SetTunDns ::
    "'s IpHelper \<Rightarrow> u64 \<Rightarrow> bool \<Rightarrow> string list \<Rightarrow> string \<Rightarrow> 's NetWorld \<Rightarrow> bool \<times> 's NetWorld" where
  "SetTunDns api tun ipv6 servers search w =
    (case ConvertInterfaceLuidToGuid api tun (nwStack w) of
       None \<Rightarrow> (False, w)
     | Some guid \<Rightarrow>
       let joined = join_servers servers;
           base = DNS_SETTING_NAMESERVER OR (if ipv6 then DNS_SETTING_IPV6 else 0);
           st = \<lparr>dsFlags = (if search \<noteq> [] then base OR DNS_SETTING_SEARCHLIST else base),
                 dsNameServer = (if joined = [] then None else Some joined),
                 dsSearchList = (if search \<noteq> [] then Some search else None)\<rparr>
       in case stack_call (SetInterfaceDnsSettings api guid st) w of (err, w1) \<Rightarrow> (err = NO_ERROR, w1))"

definition PrepareTunnelDnsClearSettings :: "bool \<Rightarrow> DnsSettings" where
  "PrepareTunnelDnsClearSettings ipv6 =
    \<lparr>dsFlags = DNS_SETTING_NAMESERVER OR DNS_SETTING_SEARCHLIST OR (if ipv6 then DNS_SETTING_IPV6 else 0),
     dsNameServer = Some [], dsSearchList = Some []\<rparr>"

definition ClearTunnelDns :: "'s IpHelper \<Rightarrow> u64 \<Rightarrow> 's NetWorld \<Rightarrow> 's NetWorld" where
  "ClearTunnelDns api tun w =
    (case ConvertInterfaceLuidToGuid api tun (nwStack w) of
       None \<Rightarrow> w
     | Some guid \<Rightarrow>
       foldl (\<lambda>w ipv6. snd (stack_call (SetInterfaceDnsSettings api guid (PrepareTunnelDnsClearSettings ipv6)) w))
         w [False, True])"

definition ResolverCacheFlushAvailable :: "'s IpHelper \<Rightarrow> bool" where
  "ResolverCacheFlushAvailable api \<longleftrightarrow> DnsFlushResolverCache api \<noteq> None"

definition FlushResolverCache :: "'s IpHelper \<Rightarrow> 's NetWorld \<Rightarrow> bool \<times> 's NetWorld" where
  "FlushResolverCache api w =
    (case DnsFlushResolverCache api of None \<Rightarrow> (False, w) | Some flush \<Rightarrow> stack_call flush w)"

section \<open>The tun's IPv6 interface row\<close>

definition PrepareTunnelIpv6InterfaceRow :: "IpInterfaceRow \<Rightarrow> bool \<Rightarrow> IpInterfaceRow" where
  "PrepareTunnelIpv6InterfaceRow row carriesIpv6 =
    row\<lparr>iiLinkLocal := LinkLocalUnchanged, iiRouterDiscovery := RouterDiscoveryDisabled,
        iiAdvertising := False, iiAdvertiseDefaultRoute := False,
        iiDisableDefaultRoutes := \<not> carriesIpv6\<rparr>"

fun remove_addresses ::
    "'s IpHelper \<Rightarrow> u64 \<Rightarrow> UnicastRow list \<Rightarrow> bool \<Rightarrow> 's NetWorld \<Rightarrow> bool \<times> 's NetWorld" where
  "remove_addresses api tun [] clean w = (clean, w)"
| "remove_addresses api tun (a # as) clean w =
    (if urLuid a \<noteq> tun then remove_addresses api tun as clean w
     else case stack_call (DeleteUnicastIpAddressEntry api a) w of (err, w1) \<Rightarrow>
       remove_addresses api tun as (clean \<and> (err = NO_ERROR \<or> err = ERROR_NOT_FOUND)) w1)"

definition ConfigureTunnelIpv6Interface ::
    "'s IpHelper \<Rightarrow> u64 \<Rightarrow> TunnelNetworkSettings \<Rightarrow> 's NetWorld \<Rightarrow> bool \<times> 's NetWorld" where
  "ConfigureTunnelIpv6Interface api tun st w =
    (let carriesIpv6 = HasIpv6 st in
     case GetIpInterfaceEntry api AF_INET6 tun (nwStack w) of
       Inl err \<Rightarrow>
         if err = ERROR_NOT_FOUND \<or> err = ERROR_FILE_NOT_FOUND \<or> err = ERROR_NOT_SUPPORTED
         then (\<not> carriesIpv6, w) else (False, w)
     | Inr row \<Rightarrow>
         let row1 = PrepareTunnelIpv6InterfaceRow row carriesIpv6;
             row2 = (if carriesIpv6 then row1\<lparr>iiNlMtu := nsMtu st, iiUseAutomaticMetric := False, iiMetric := 1\<rparr>
                     else row1)
         in case stack_call (SetIpInterfaceEntry api row2) w of (err, w1) \<Rightarrow>
            if err \<noteq> NO_ERROR then (False, w1)
            else if carriesIpv6 then (True, w1)
            else case GetUnicastIpAddressTable api AF_INET6 (nwStack w1) of
                   None \<Rightarrow> (False, w1)
                 | Some addresses \<Rightarrow> remove_addresses api tun addresses True w1)"

section \<open>Apply and revert\<close>

definition IsValidTunnelSettings ::
    "(string \<Rightarrow> u32 option) \<Rightarrow> (string \<Rightarrow> 8 word list option) \<Rightarrow> TunnelNetworkSettings \<Rightarrow> bool" where
  "IsValidTunnelSettings inet4 inet6 st \<longleftrightarrow>
    (if inet4 (nsLocalV4 st) = None \<or> nsPrefixV4 st = 0 \<or> nsPrefixV4 st > 32 then False
     else if list_ex (\<lambda>s. inet4 s = None) (nsDnsV4 st) then False
     else if HasIpv6 st then
       (if inet6 (nsLocalV6 st) = None \<or> nsPrefixV6 st = 0 \<or> nsPrefixV6 st > 128 then False
        else \<not> list_ex (\<lambda>s. inet6 s = None) (nsDnsV6 st))
     else nsDnsV6 st = [])"

definition ArmCrashRevert :: "u64 \<Rightarrow> 's NetWorld \<Rightarrow> 's NetWorld" where
  "ArmCrashRevert tun w = w\<lparr>nwArmed := tun\<rparr>"

definition DisarmCrashRevert :: "'s NetWorld \<Rightarrow> 's NetWorld" where
  "DisarmCrashRevert w = w\<lparr>nwArmed := 0\<rparr>"

definition CrashRevert :: "'s IpHelper \<Rightarrow> 's NetWorld \<Rightarrow> 's NetWorld" where
  "CrashRevert api w =
    (let armed = nwArmed w; w1 = w\<lparr>nwArmed := 0\<rparr>
     in if armed = 0 then w1 else snd (DeleteTunnelRoutes api armed w1))"

text \<open>The address rows of \<open>Apply\<close> and of \<open>Revert\<close>, which names no prefix length.\<close>

definition address_row :: "u64 \<Rightarrow> AddressFamily \<Rightarrow> 8 word list \<Rightarrow> nat \<Rightarrow> DadState \<Rightarrow> UnicastRow" where
  "address_row tun family bytes len dad = \<lparr>urLuid = tun, urIndex = 0, urFamily = family, urAddress = bytes,
    urOnLinkPrefix = len, urDad = dad\<rparr>"

definition drop_address_v4 ::
    "'s IpHelper \<Rightarrow> (string \<Rightarrow> u32 option) \<Rightarrow> NetworkConfig \<Rightarrow> 's NetWorld \<Rightarrow> 's NetWorld" where
  "drop_address_v4 api inet4 n w =
    (case inet4 (nsLocalV4 (ncSettings n)) of None \<Rightarrow> w
     | Some addr \<Rightarrow> snd (stack_call (DeleteUnicastIpAddressEntry api
         (address_row (ncTun n) AF_INET (htonl_bytes addr) 0 IpDadStateInvalid)) w))"

definition drop_address_v6 ::
    "'s IpHelper \<Rightarrow> (string \<Rightarrow> 8 word list option) \<Rightarrow> NetworkConfig \<Rightarrow> 's NetWorld \<Rightarrow> 's NetWorld" where
  "drop_address_v6 api inet6 n w =
    (if \<not> HasIpv6 (ncSettings n) then w
     else case inet6 (nsLocalV6 (ncSettings n)) of None \<Rightarrow> w
     | Some addr \<Rightarrow> snd (stack_call (DeleteUnicastIpAddressEntry api
         (address_row (ncTun n) AF_INET6 addr 0 IpDadStateInvalid)) w))"

definition Revert ::
    "'s IpHelper \<Rightarrow> (string \<Rightarrow> u32 option) \<Rightarrow> (string \<Rightarrow> 8 word list option) \<Rightarrow>
     NetworkConfig \<Rightarrow> 's NetWorld \<Rightarrow> NetworkConfig \<times> 's NetWorld" where
  "Revert api inet4 inet6 n w =
    (if \<not> ncApplied n \<and> nsLocalV4 (ncSettings n) = [] then (n, DisarmCrashRevert w)
     else
       let w1 = snd (DeleteTunnelRoutes api (ncTun n) w);
           w2 = ClearTunnelDns api (ncTun n) w1;
           w3 = drop_address_v4 api inet4 n w2;
           w4 = drop_address_v6 api inet6 n w3
       in (n\<lparr>ncApplied := False, ncAppliedIpv6 := False, ncDnsApplied := False\<rparr>, DisarmCrashRevert w4))"

definition set_address ::
    "'s IpHelper \<Rightarrow> u64 \<Rightarrow> AddressFamily \<Rightarrow> 8 word list \<Rightarrow> nat \<Rightarrow> 's NetWorld \<Rightarrow> bool \<times> 's NetWorld" where
  "set_address api tun family bytes len w =
    (case stack_call (CreateUnicastIpAddressEntry api (address_row tun family bytes len IpDadStatePreferred)) w
     of (err, w1) \<Rightarrow> (\<not> (err \<noteq> NO_ERROR \<and> err \<noteq> ERROR_OBJECT_ALREADY_EXISTS), w1))"

definition set_mtu_and_metric :: "'s IpHelper \<Rightarrow> u64 \<Rightarrow> u32 \<Rightarrow> 's NetWorld \<Rightarrow> 's NetWorld" where
  "set_mtu_and_metric api tun mtu w =
    (case GetIpInterfaceEntry api AF_INET tun (nwStack w) of
       Inl err \<Rightarrow> w
     | Inr row \<Rightarrow> snd (stack_call (SetIpInterfaceEntry api
         (row\<lparr>iiNlMtu := mtu, iiUseAutomaticMetric := False, iiMetric := 1, iiSitePrefixLength := 0\<rparr>)) w))"

text \<open>The part of \<open>Apply\<close> between arming the crash path and the first route.\<close>

definition apply_addresses ::
    "'s IpHelper \<Rightarrow> (string \<Rightarrow> u32 option) \<Rightarrow> (string \<Rightarrow> 8 word list option) \<Rightarrow> u64 \<Rightarrow>
     TunnelNetworkSettings \<Rightarrow> 's NetWorld \<Rightarrow> bool \<times> 's NetWorld" where
  "apply_addresses api inet4 inet6 tun st w =
    (case inet4 (nsLocalV4 st) of
       None \<Rightarrow> (False, w)
     | Some addr \<Rightarrow>
       case set_address api tun AF_INET (htonl_bytes addr) (nsPrefixV4 st) w of (ok, w1) \<Rightarrow>
       if \<not> ok then (False, w1)
       else let w2 = set_mtu_and_metric api tun (nsMtu st) w1 in
         if \<not> HasIpv6 st then (True, w2)
         else case inet6 (nsLocalV6 st) of
           None \<Rightarrow> (False, w2)
         | Some addr6 \<Rightarrow> set_address api tun AF_INET6 addr6 (nsPrefixV6 st) w2)"

text \<open>The resolvers, after the routes: a failure is kept in the flag and is not fatal.\<close>

definition apply_dns ::
    "'s IpHelper \<Rightarrow> u64 \<Rightarrow> TunnelNetworkSettings \<Rightarrow> 's NetWorld \<Rightarrow> bool \<times> 's NetWorld" where
  "apply_dns api tun st w =
    (case (if nsDnsV4 st \<noteq> [] then SetTunDns api tun False (nsDnsV4 st) (nsDnsSearch st) w else (False, w))
     of (dnsOk, w1) \<Rightarrow>
       (dnsOk, if HasIpv6 st \<and> nsDnsV6 st \<noteq> []
               then snd (SetTunDns api tun True (nsDnsV6 st) (nsDnsSearch st) w1) else w1))"

definition Apply ::
    "'s IpHelper \<Rightarrow> (string \<Rightarrow> u32 option) \<Rightarrow> (string \<Rightarrow> 8 word list option) \<Rightarrow>
     TunnelNetworkSettings \<Rightarrow> NetworkConfig \<Rightarrow> 's NetWorld \<Rightarrow> bool \<times> NetworkConfig \<times> 's NetWorld" where
  "Apply api inet4 inet6 st n w =
    (if \<not> IsValidTunnelSettings inet4 inet6 st then (False, n, w)
     else
       let tun = ncTun n; n1 = n\<lparr>ncSettings := st, ncAppliedIpv6 := False\<rparr>; w0 = ArmCrashRevert tun w in
       case ConfigureTunnelIpv6Interface api tun st w0 of (ok, w1) \<Rightarrow>
       if \<not> ok then (False, n1, DisarmCrashRevert w1)
       else case apply_addresses api inet4 inet6 tun st w1 of (ok, w2) \<Rightarrow>
       if \<not> ok then (False, n1, w2)
       else case install (AddTunRoute api tun) kTunCaptureV4 w2 of (ok, w3) \<Rightarrow>
       if \<not> ok then (False, Revert api inet4 inet6 n1 w3)
       else case (if HasIpv6 st then install (AddTunRoute6 api tun) kTunCaptureV6 w3 else (True, w3)) of (ok, w4) \<Rightarrow>
       if \<not> ok then (False, Revert api inet4 inet6 n1 w4)
       else case apply_dns api tun st w4 of (dnsOk, w5) \<Rightarrow>
         (True, n1\<lparr>ncApplied := True, ncAppliedIpv6 := HasIpv6 st, ncDnsApplied := dnsOk\<rparr>, w5))"

section \<open>The sweep of an adapter left behind\<close>

definition add_candidate :: "u64 \<Rightarrow> u64 list \<Rightarrow> u64 list" where
  "add_candidate luid candidates =
    (if luid = 0 then candidates
     else if luid \<in> set candidates then candidates
     else if length candidates < 8 then candidates @ [luid] else candidates)"

fun contains_text :: "string \<Rightarrow> string \<Rightarrow> bool" where
  "contains_text needle [] = (needle = [])"
| "contains_text needle (c # cs) = (take (length needle) (c # cs) = needle \<or> contains_text needle cs)"

definition is_our_adapter :: "string \<Rightarrow> IfRow \<Rightarrow> bool" where
  "is_our_adapter adapterName row \<longleftrightarrow>
    ifAlias row = adapterName \<and>
    ((ifType row = IF_TYPE_PROP_VIRTUAL \<or> ifType row = IF_TYPE_TUNNEL) \<or>
     contains_text ''Wintun'' (ifDescription row))"

definition sweep_candidates :: "'s IpHelper \<Rightarrow> InterfaceGuid \<Rightarrow> string \<Rightarrow> 's \<Rightarrow> u64 list" where
  "sweep_candidates api tunGuid adapterName s =
    (let byGuid = (case ConvertInterfaceGuidToLuid api tunGuid s of Some luid \<Rightarrow> add_candidate luid [] | None \<Rightarrow> [])
     in if adapterName = [] then byGuid
        else case GetIfTable2 api s of
          None \<Rightarrow> byGuid
        | Some rows \<Rightarrow>
            foldl (\<lambda>cs row. if is_our_adapter adapterName row then add_candidate (ifLuid row) cs else cs) byGuid rows)"

definition is_live :: "'s IpHelper \<Rightarrow> u64 \<Rightarrow> 's \<Rightarrow> bool" where
  "is_live api luid s \<longleftrightarrow>
    list_ex (\<lambda>family. \<not> isl (GetIpInterfaceEntry api family luid s)) [AF_INET, AF_INET6]"

fun sweep_each :: "'s IpHelper \<Rightarrow> bool \<Rightarrow> u64 list \<Rightarrow> nat \<Rightarrow> 's NetWorld \<Rightarrow> nat \<times> 's NetWorld" where
  "sweep_each api remove [] confirmed w = (confirmed, w)"
| "sweep_each api remove (luid # luids) confirmed w =
    (if \<not> is_live api luid (nwStack w) then sweep_each api remove luids confirmed w
     else if \<not> remove then sweep_each api remove luids (confirmed + 1) w
     else sweep_each api remove luids (confirmed + 1)
       (ClearTunnelDns api luid (snd (DeleteTunnelRoutes api luid w))))"

definition SweepOrphanedTunnel ::
    "'s IpHelper \<Rightarrow> InterfaceGuid \<Rightarrow> string \<Rightarrow> bool \<Rightarrow> 's NetWorld \<Rightarrow> nat \<times> 's NetWorld" where
  "SweepOrphanedTunnel api tunGuid adapterName remove w =
    sweep_each api remove (sweep_candidates api tunGuid adapterName (nwStack w)) 0 w"

section \<open>What the stack promises\<close>

text \<open>
  \<open>rts s\<close> are the on-link routes of stack state \<open>s\<close>, by interface and destination, and \<open>dns s\<close>
  the resolver text of an interface and family. A call changes only what it is documented to
  change, and changes nothing when it fails; a flagged resolver field needs a text.
\<close>

type_synonym route = "u64 \<times> IpPrefix"

definition route_key :: "ForwardRow \<Rightarrow> route" where
  "route_key row = (frLuid row, frDest row)"

definition dns_v6 :: "DnsSettings \<Rightarrow> bool" where
  "dns_v6 st \<longleftrightarrow> dsFlags st AND DNS_SETTING_IPV6 \<noteq> 0"

definition keeps_both :: "('s \<Rightarrow> route set) \<Rightarrow> ('s \<Rightarrow> InterfaceGuid \<times> bool \<Rightarrow> string) \<Rightarrow> ('s \<Rightarrow> 'a \<times> 's) \<Rightarrow> bool" where
  "keeps_both rts dns f \<longleftrightarrow> (\<forall>s. rts (snd (f s)) = rts s \<and> dns (snd (f s)) = dns s)"

definition ip_contract ::
    "'s IpHelper \<Rightarrow> ('s \<Rightarrow> route set) \<Rightarrow> ('s \<Rightarrow> InterfaceGuid \<times> bool \<Rightarrow> string) \<Rightarrow> bool" where
  "ip_contract api rts dns \<longleftrightarrow>
    (\<forall>row s. rts (snd (CreateIpForwardEntry2 api row s)) =
        (if fst (CreateIpForwardEntry2 api row s) = NO_ERROR then insert (route_key row) (rts s) else rts s) \<and>
      (fst (CreateIpForwardEntry2 api row s) = ERROR_OBJECT_ALREADY_EXISTS \<longrightarrow> route_key row \<in> rts s) \<and>
      dns (snd (CreateIpForwardEntry2 api row s)) = dns s) \<and>
    (\<forall>row s. rts (snd (DeleteIpForwardEntry2 api row s)) =
        (if fst (DeleteIpForwardEntry2 api row s) = NO_ERROR then rts s - {route_key row} else rts s) \<and>
      (fst (DeleteIpForwardEntry2 api row s) = ERROR_NOT_FOUND \<longrightarrow> route_key row \<notin> rts s) \<and>
      dns (snd (DeleteIpForwardEntry2 api row s)) = dns s) \<and>
    (\<forall>row. keeps_both rts dns (SetIpInterfaceEntry api row)) \<and>
    (\<forall>row. keeps_both rts dns (CreateUnicastIpAddressEntry api row)) \<and>
    (\<forall>row. keeps_both rts dns (DeleteUnicastIpAddressEntry api row)) \<and>
    (\<forall>flush. DnsFlushResolverCache api = Some flush \<longrightarrow> keeps_both rts dns flush) \<and>
    (\<forall>guid st s. rts (snd (SetInterfaceDnsSettings api guid st s)) = rts s \<and>
      (fst (SetInterfaceDnsSettings api guid st s) \<noteq> NO_ERROR \<longrightarrow>
        dns (snd (SetInterfaceDnsSettings api guid st s)) = dns s) \<and>
      (fst (SetInterfaceDnsSettings api guid st s) = NO_ERROR \<and> dsFlags st AND DNS_SETTING_NAMESERVER \<noteq> 0 \<longrightarrow>
        dsNameServer st \<noteq> None \<and>
        dns (snd (SetInterfaceDnsSettings api guid st s)) = (dns s)((guid, dns_v6 st) := the (dsNameServer st))))"

text \<open>The stack lets go of a route that exists: the only way a delete does not remove it is that it is not there.\<close>

definition deletes_work :: "'s IpHelper \<Rightarrow> bool" where
  "deletes_work api \<longleftrightarrow> (\<forall>row s. fst (DeleteIpForwardEntry2 api row s) \<in> {NO_ERROR, ERROR_NOT_FOUND})"

definition v4_routes :: "u64 \<Rightarrow> route set" where
  "v4_routes tun = (\<lambda>p. (tun, v4_dest (network p) (prefix p))) ` set kTunCaptureV4"

definition v6_routes :: "u64 \<Rightarrow> route set" where
  "v6_routes tun = (\<lambda>p. (tun, v6_dest p)) ` set kTunCaptureV6"

definition our_routes :: "u64 \<Rightarrow> route set" where
  "our_routes tun = v4_routes tun \<union> v6_routes tun"

text \<open>The table a call of each kind leaves, as rewrite rules.\<close>

abbreviation table :: "('s \<Rightarrow> route set) \<Rightarrow> 's NetWorld \<Rightarrow> route set" where
  "table rts w \<equiv> rts (nwStack w)"

lemma stack_call_simps [simp]:
  "nwArmed (snd (stack_call f w)) = nwArmed w"
  "nwStack (snd (stack_call f w)) = snd (f (nwStack w))"
  "nwTrail (snd (stack_call f w)) = (nwArmed w, snd (f (nwStack w))) # nwTrail w"
  "fst (stack_call f w) = fst (f (nwStack w))"
  by (simp_all add: stack_call_def split: prod.split)

lemma arm_simps [simp]:
  "nwArmed (ArmCrashRevert tun w) = tun" "nwStack (ArmCrashRevert tun w) = nwStack w"
  "nwTrail (ArmCrashRevert tun w) = nwTrail w"
  "nwArmed (DisarmCrashRevert w) = 0" "nwStack (DisarmCrashRevert w) = nwStack w"
  "nwTrail (DisarmCrashRevert w) = nwTrail w"
  by (simp_all add: ArmCrashRevert_def DisarmCrashRevert_def)

lemma contract_create:
  assumes "ip_contract api rts dns"
  shows "rts (snd (CreateIpForwardEntry2 api row s)) =
      (if fst (CreateIpForwardEntry2 api row s) = NO_ERROR then insert (route_key row) (rts s) else rts s)"
    and "fst (CreateIpForwardEntry2 api row s) = ERROR_OBJECT_ALREADY_EXISTS \<Longrightarrow> route_key row \<in> rts s"
    and "dns (snd (CreateIpForwardEntry2 api row s)) = dns s"
  using assms unfolding ip_contract_def by blast+

lemma contract_delete:
  assumes "ip_contract api rts dns"
  shows "rts (snd (DeleteIpForwardEntry2 api row s)) =
      (if fst (DeleteIpForwardEntry2 api row s) = NO_ERROR then rts s - {route_key row} else rts s)"
    and "fst (DeleteIpForwardEntry2 api row s) = ERROR_NOT_FOUND \<Longrightarrow> route_key row \<notin> rts s"
    and "dns (snd (DeleteIpForwardEntry2 api row s)) = dns s"
  using assms unfolding ip_contract_def by blast+

lemma contract_keeps:
  assumes "ip_contract api rts dns"
  shows "keeps_both rts dns (SetIpInterfaceEntry api ifr)"
    and "keeps_both rts dns (CreateUnicastIpAddressEntry api ur)"
    and "keeps_both rts dns (DeleteUnicastIpAddressEntry api ur)"
    and "DnsFlushResolverCache api = Some flush \<Longrightarrow> keeps_both rts dns flush"
  using assms unfolding ip_contract_def by blast+

lemma contract_dns:
  assumes "ip_contract api rts dns"
  shows "rts (snd (SetInterfaceDnsSettings api guid st s)) = rts s"
    and "fst (SetInterfaceDnsSettings api guid st s) \<noteq> NO_ERROR \<Longrightarrow>
      dns (snd (SetInterfaceDnsSettings api guid st s)) = dns s"
    and "fst (SetInterfaceDnsSettings api guid st s) = NO_ERROR \<Longrightarrow> dsFlags st AND DNS_SETTING_NAMESERVER \<noteq> 0 \<Longrightarrow>
      dsNameServer st \<noteq> None \<and>
      dns (snd (SetInterfaceDnsSettings api guid st s)) = (dns s)((guid, dns_v6 st) := the (dsNameServer st))"
  using assms unfolding ip_contract_def by blast+

section \<open>The table over a run of calls\<close>

text \<open>
  A moment is what a crash would find: the armed identifier and the stack. A moment is recoverable
  to the table \<open>R\<close> when either nothing of ours is in the table, or the crash path is armed for the
  tun and the table differs from \<open>R\<close> only in our routes.
\<close>

definition recoverable :: "('s \<Rightarrow> route set) \<Rightarrow> u64 \<Rightarrow> route set \<Rightarrow> u64 \<times> 's \<Rightarrow> bool" where
  "recoverable rts tun R m \<longleftrightarrow>
    (fst m = tun \<and> rts (snd m) - our_routes tun = R) \<or> (fst m = 0 \<and> rts (snd m) = R)"

definition tracked :: "('s \<Rightarrow> route set) \<Rightarrow> u64 \<Rightarrow> route set \<Rightarrow> 's NetWorld \<Rightarrow> bool" where
  "tracked rts tun R w \<longleftrightarrow>
    recoverable rts tun R (nwArmed w, nwStack w) \<and> list_all (recoverable rts tun R) (nwTrail w)"

lemma tracked_call:
  assumes "tracked rts tun R w" and "nwArmed w = tun"
    and "rts (snd (f (nwStack w))) - our_routes tun = rts (nwStack w) - our_routes tun"
    and "tun \<noteq> 0"
  shows "tracked rts tun R (snd (stack_call f w))"
  using assms by (auto simp: tracked_def recoverable_def)

lemma tracked_keep:
  assumes "tracked rts tun R w" and "rts (snd (f (nwStack w))) = rts (nwStack w)"
  shows "tracked rts tun R (snd (stack_call f w))"
  using assms by (simp add: tracked_def recoverable_def)

named_theorems net_armed "the crash path stays armed across an edit"
named_theorems net_table "the route table an edit leaves"

lemma add_routes_armed [net_armed]:
  "nwArmed (snd (AddTunRoute api tun r w)) = nwArmed w" "nwArmed (snd (AddTunRoute6 api tun p w)) = nwArmed w"
  "nwArmed (snd (DeleteTunRoute api tun r w)) = nwArmed w" "nwArmed (snd (DeleteTunRoute6 api tun p w)) = nwArmed w"
  by (simp_all add: AddTunRoute_def AddTunRoute6_def DeleteTunRoute_def DeleteTunRoute6_def Let_def split_beta)

lemma tun_rows [simp]:
  "route_key (TunRoute6 tun p) = (tun, v6_dest p)"
  by (simp add: route_key_def TunRoute6_def)

lemma add_route_table [net_table]:
  assumes "ip_contract api rts dns"
  shows "table rts (snd (AddTunRoute api tun r w)) =
      (if fst (AddTunRoute api tun r w) then insert (tun, v4_dest (network r) (prefix r)) (table rts w) else table rts w)"
    and "table rts (snd (AddTunRoute6 api tun p w)) =
      (if fst (AddTunRoute6 api tun p w) then insert (tun, v6_dest p) (table rts w) else table rts w)"
  by (auto simp: AddTunRoute_def AddTunRoute6_def Let_def split_beta contract_create(1) [OF assms]
      route_key_def TunRoute6_def dest: contract_create(2) [OF assms, unfolded route_key_def])

lemma delete_route_table:
  assumes "ip_contract api rts dns"
  shows "table rts (snd (DeleteTunRoute api tun r w)) =
      (if fst (DeleteTunRoute api tun r w) then table rts w - {(tun, v4_dest (network r) (prefix r))} else table rts w)"
    and "table rts (snd (DeleteTunRoute6 api tun p w)) =
      (if fst (DeleteTunRoute6 api tun p w) then table rts w - {(tun, v6_dest p)} else table rts w)"
  using contract_delete(1) [OF assms]
  by (auto simp: DeleteTunRoute_def DeleteTunRoute6_def Let_def split_beta route_key_def TunRoute6_def)

lemma delete_works_table [net_table]:
  assumes "ip_contract api rts dns" and "deletes_work api"
  shows "table rts (snd (DeleteTunRoute api tun r w)) = table rts w - {(tun, v4_dest (network r) (prefix r))}"
    and "table rts (snd (DeleteTunRoute6 api tun p w)) = table rts w - {(tun, v6_dest p)}"
proof -
  have gone: "rts (snd (DeleteIpForwardEntry2 api row s)) = rts s - {route_key row}" for row s
  proof -
    from assms(2) have "fst (DeleteIpForwardEntry2 api row s) \<in> {NO_ERROR, ERROR_NOT_FOUND}"
      unfolding deletes_work_def by blast
    with contract_delete(1,2) [OF assms(1), of row s] show ?thesis by (auto simp: net_codes)
  qed
  show "table rts (snd (DeleteTunRoute api tun r w)) = table rts w - {(tun, v4_dest (network r) (prefix r))}"
    and "table rts (snd (DeleteTunRoute6 api tun p w)) = table rts w - {(tun, v6_dest p)}"
    by (simp_all add: DeleteTunRoute_def DeleteTunRoute6_def Let_def split_beta gone route_key_def TunRoute6_def)
qed

text \<open>The two loops, for any family: \<open>key\<close> is the table entry of a prefix.\<close>

lemma install_table:
  assumes "\<And>p w. table rts (snd (add p w)) = (if fst (add p w) then insert (key p) (table rts w) else table rts w)"
  shows "fst (install add ps w) \<Longrightarrow> table rts (snd (install add ps w)) = table rts w \<union> key ` set ps"
    and "table rts w \<subseteq> table rts (snd (install add ps w)) \<and>
      table rts (snd (install add ps w)) \<subseteq> table rts w \<union> key ` set ps"
proof (induction ps arbitrary: w)
  case (Cons p ps)
  { case 1 then show ?case using Cons.IH(1) [of "snd (add p w)"] assms [of p w]
      by (auto simp: split_beta split: if_splits) }
  { case 2 then show ?case using Cons.IH(2) [of "snd (add p w)"] assms [of p w]
      by (auto simp: split_beta split: if_splits) }
qed simp_all

lemma remove_each_table:
  assumes "\<And>p w. table rts (snd (del p w)) = table rts w - {key p}"
  shows "table rts (snd (remove_each del ps n w)) = table rts w - key ` set ps"
  by (induction ps arbitrary: n w) (auto simp: split_beta assms)

text \<open>A loop keeps whatever its body keeps.\<close>

lemma install_keeps: "(\<And>p w. P w \<Longrightarrow> p \<in> set ps \<Longrightarrow> P (snd (add p w))) \<Longrightarrow> P w \<Longrightarrow> P (snd (install add ps w))"
  by (induction ps arbitrary: w) (auto simp: split_beta)

lemma remove_each_keeps:
  "(\<And>p w. P w \<Longrightarrow> p \<in> set ps \<Longrightarrow> P (snd (del p w))) \<Longrightarrow> P w \<Longrightarrow> P (snd (remove_each del ps n w))"
  by (induction ps arbitrary: n w) (auto simp: split_beta)

lemma delete_tunnel_routes_table [net_table]:
  assumes "ip_contract api rts dns" and "deletes_work api"
  shows "table rts (snd (DeleteTunnelRoutes api tun w)) = table rts w - our_routes tun"
  using remove_each_table [of rts "DeleteTunRoute api tun", OF delete_works_table(1) [OF assms]]
    remove_each_table [of rts "DeleteTunRoute6 api tun", OF delete_works_table(2) [OF assms]]
  by (auto simp: DeleteTunnelRoutes_def split_beta our_routes_def v4_routes_def v6_routes_def)

lemma delete_tunnel_routes_armed [net_armed]: "nwArmed (snd (DeleteTunnelRoutes api tun w)) = nwArmed w"
proof -
  have "nwArmed (snd (remove_each (DeleteTunRoute api tun) ps n w)) = nwArmed w" for ps n w
    by (rule remove_each_keeps) (simp_all add: net_armed)
  moreover have "nwArmed (snd (remove_each (DeleteTunRoute6 api tun) ps n w)) = nwArmed w" for ps n w
    by (rule remove_each_keeps) (simp_all add: net_armed)
  ultimately show ?thesis by (simp add: DeleteTunnelRoutes_def split_beta)
qed

text \<open>
  A run with \<open>a\<close> armed stays recoverable across everything the object does; a route may be added
  only while the tun is armed.
\<close>

definition in_run :: "('s \<Rightarrow> route set) \<Rightarrow> u64 \<Rightarrow> route set \<Rightarrow> u64 \<Rightarrow> 's NetWorld \<Rightarrow> bool" where
  "in_run rts tun R a w \<longleftrightarrow> tracked rts tun R w \<and> nwArmed w = a \<and> tun \<noteq> 0 \<and> R \<inter> our_routes tun = {}"

lemma in_run_call:
  assumes "in_run rts tun R tun w"
    and "rts (snd (f (nwStack w))) - our_routes tun = rts (nwStack w) - our_routes tun"
  shows "in_run rts tun R tun (snd (stack_call f w))"
  using assms tracked_call [of rts tun R w f] by (simp add: in_run_def)

lemma in_run_same:
  assumes "in_run rts tun R a w" and "rts (snd (f (nwStack w))) = rts (nwStack w)"
  shows "in_run rts tun R a (snd (stack_call f w))"
  using assms tracked_keep [of rts tun R w f] by (simp add: in_run_def)

lemma in_run_keep:
  assumes "in_run rts tun R a w" and "keeps_both rts dns f"
  shows "in_run rts tun R a (snd (stack_call f w))"
  using assms by (simp add: in_run_same keeps_both_def)

lemma in_run_armed: "in_run rts tun R a w \<Longrightarrow> a = tun \<or> a = 0 \<and> table rts w = R"
  by (auto simp: in_run_def tracked_def recoverable_def)

lemma in_run_table: "in_run rts tun R a w \<Longrightarrow> table rts w - our_routes tun = R"
  by (auto simp: in_run_def tracked_def recoverable_def)

lemma in_run_create:
  assumes "ip_contract api rts dns" and "in_run rts tun R tun w" and "route_key row \<in> our_routes tun"
  shows "in_run rts tun R tun (snd (stack_call (CreateIpForwardEntry2 api row) w))"
  using assms(3) by (auto intro!: in_run_call assms(2) simp: contract_create(1) [OF assms(1)] split: if_splits)

lemma in_run_delete:
  assumes c: "ip_contract api rts dns" and w: "in_run rts tun R a w" and key: "route_key row \<in> our_routes tun"
  shows "in_run rts tun R a (snd (stack_call (DeleteIpForwardEntry2 api row) w))"
proof -
  from in_run_armed [OF w] consider "a = tun" | "table rts w = R" by blast
  then show ?thesis
  proof cases
    assume a: "a = tun"
    show ?thesis unfolding a
      by (rule in_run_call [OF w [unfolded a]]) (use key in \<open>auto simp: contract_delete(1) [OF c] split: if_splits\<close>)
  next
    assume r: "table rts w = R"
    from w key have "R - {route_key row} = R" by (auto simp: in_run_def)
    with r show ?thesis by (intro in_run_same [OF w]) (simp add: contract_delete(1) [OF c])
  qed
qed

lemma our_routes_members [intro]:
  "r \<in> set kTunCaptureV4 \<Longrightarrow> (tun, v4_dest (network r) (prefix r)) \<in> our_routes tun"
  "p \<in> set kTunCaptureV6 \<Longrightarrow> (tun, v6_dest p) \<in> our_routes tun"
  by (auto simp: our_routes_def v4_routes_def v6_routes_def)

lemma in_run_add_routes:
  assumes c: "ip_contract api rts dns" and w: "in_run rts tun R tun w"
  shows "r \<in> set kTunCaptureV4 \<Longrightarrow> in_run rts tun R tun (snd (AddTunRoute api tun r w))"
    and "p \<in> set kTunCaptureV6 \<Longrightarrow> in_run rts tun R tun (snd (AddTunRoute6 api tun p w))"
  by (auto simp: AddTunRoute_def AddTunRoute6_def Let_def split_beta route_key_def TunRoute6_def
      intro!: in_run_create [OF c w])

lemma in_run_delete_routes:
  assumes c: "ip_contract api rts dns" and w: "in_run rts tun R a w"
  shows "r \<in> set kTunCaptureV4 \<Longrightarrow> in_run rts tun R a (snd (DeleteTunRoute api tun r w))"
    and "p \<in> set kTunCaptureV6 \<Longrightarrow> in_run rts tun R a (snd (DeleteTunRoute6 api tun p w))"
  by (auto simp: DeleteTunRoute_def DeleteTunRoute6_def Let_def split_beta route_key_def TunRoute6_def
      intro!: in_run_delete [OF c w])

lemma in_run_install:
  assumes c: "ip_contract api rts dns" and w: "in_run rts tun R tun w"
  shows "in_run rts tun R tun (snd (install (AddTunRoute api tun) kTunCaptureV4 w))"
    and "in_run rts tun R tun (snd (install (AddTunRoute6 api tun) kTunCaptureV6 w))"
  by (rule install_keeps [where P = "in_run rts tun R tun", OF _ w], rule in_run_add_routes [OF c]; assumption)+

lemma in_run_delete_tunnel_routes:
  assumes c: "ip_contract api rts dns" and w: "in_run rts tun R a w"
  shows "in_run rts tun R a (snd (DeleteTunnelRoutes api tun w))"
proof -
  note keeps = remove_each_keeps [where P = "in_run rts tun R a"]
  have "in_run rts tun R a (snd (remove_each (DeleteTunRoute api tun) kTunCaptureV4 0 w))"
    by (rule keeps [OF _ w]) (rule in_run_delete_routes [OF c])
  then show ?thesis
    unfolding DeleteTunnelRoutes_def split_beta by (rule keeps [rotated]) (rule in_run_delete_routes [OF c])
qed

lemma in_run_dns:
  assumes c: "ip_contract api rts dns" and w: "in_run rts tun R a w"
  shows "in_run rts tun R a (snd (stack_call (SetInterfaceDnsSettings api guid st) w))"
    and "in_run rts tun R a (snd (SetTunDns api tun ipv6 servers search w))"
    and "in_run rts tun R a (ClearTunnelDns api tun w)"
proof -
  have set: "in_run rts tun R a (snd (stack_call (SetInterfaceDnsSettings api guid st) w))"
    if "in_run rts tun R a w" for guid st w
    using that by (rule in_run_same) (simp add: contract_dns(1) [OF c])
  from w show "in_run rts tun R a (snd (stack_call (SetInterfaceDnsSettings api guid st) w))" by (rule set)
  from w show "in_run rts tun R a (snd (SetTunDns api tun ipv6 servers search w))"
    by (simp add: SetTunDns_def Let_def split_beta set split: option.split)
  from w show "in_run rts tun R a (ClearTunnelDns api tun w)"
    by (simp add: ClearTunnelDns_def set split: option.split)
qed

lemma in_run_remove_addresses:
  assumes c: "ip_contract api rts dns"
  shows "in_run rts tun R a w \<Longrightarrow> in_run rts tun R a (snd (remove_addresses api tun as clean w))"
proof (induction as arbitrary: clean w)
  case (Cons a as)
  then show ?case by (simp add: split_beta in_run_keep [OF Cons.prems contract_keeps(3) [OF c]])
qed simp

lemma in_run_addresses:
  assumes c: "ip_contract api rts dns" and w: "in_run rts tun R a w"
  shows "in_run rts tun R a (snd (ConfigureTunnelIpv6Interface api tun st w))"
    and "in_run rts tun R a (snd (apply_addresses api inet4 inet6 tun st w))"
    and "in_run rts tun R a (drop_address_v4 api inet4 n w)"
    and "in_run rts tun R a (drop_address_v6 api inet6 n w)"
proof -
  note keep = in_run_keep [OF _ contract_keeps(1) [OF c]] in_run_keep [OF _ contract_keeps(2) [OF c]]
    in_run_keep [OF _ contract_keeps(3) [OF c]] in_run_remove_addresses [OF c]
  note defs = ConfigureTunnelIpv6Interface_def apply_addresses_def set_address_def set_mtu_and_metric_def
    drop_address_v4_def drop_address_v6_def
  show "in_run rts tun R a (snd (ConfigureTunnelIpv6Interface api tun st w))"
    and "in_run rts tun R a (snd (apply_addresses api inet4 inet6 tun st w))"
    and "in_run rts tun R a (drop_address_v4 api inet4 n w)"
    and "in_run rts tun R a (drop_address_v6 api inet6 n w)"
    using w by (auto simp: defs Let_def split_beta split: option.split sum.split intro!: keep)
qed

text \<open>The routes are touched only by the route calls.\<close>

lemma table_keep: "keeps_both rts dns f \<Longrightarrow> table rts (snd (stack_call f w)) = table rts w"
  by (simp add: keeps_both_def)

lemma remove_addresses_table:
  "ip_contract api rts dns \<Longrightarrow> table rts (snd (remove_addresses api tun as clean w)) = table rts w"
  by (induction as arbitrary: clean w) (simp_all add: split_beta contract_keeps(3) [unfolded keeps_both_def])

lemma other_tables [net_table]:
  assumes c: "ip_contract api rts dns"
  shows "table rts (snd (ConfigureTunnelIpv6Interface api tun st w)) = table rts w"
    and "table rts (snd (apply_addresses api inet4 inet6 tun st w)) = table rts w"
    and "table rts (snd (SetTunDns api tun ipv6 servers search w)) = table rts w"
    and "table rts (snd (apply_dns api tun st w)) = table rts w"
    and "table rts (ClearTunnelDns api tun w) = table rts w"
    and "table rts (drop_address_v4 api inet4 n w) = table rts w"
    and "table rts (drop_address_v6 api inet6 n w) = table rts w"
proof -
  note keep = contract_keeps(1) [OF c, unfolded keeps_both_def] contract_keeps(2) [OF c, unfolded keeps_both_def]
    contract_keeps(3) [OF c, unfolded keeps_both_def] remove_addresses_table [OF c] contract_dns(1) [OF c]
  note defs = ConfigureTunnelIpv6Interface_def apply_addresses_def set_address_def set_mtu_and_metric_def
    drop_address_v4_def drop_address_v6_def SetTunDns_def ClearTunnelDns_def apply_dns_def
  show "table rts (snd (ConfigureTunnelIpv6Interface api tun st w)) = table rts w"
    and "table rts (snd (apply_addresses api inet4 inet6 tun st w)) = table rts w"
    and "table rts (snd (SetTunDns api tun ipv6 servers search w)) = table rts w"
    and "table rts (snd (apply_dns api tun st w)) = table rts w"
    and "table rts (ClearTunnelDns api tun w) = table rts w"
    and "table rts (drop_address_v4 api inet4 n w) = table rts w"
    and "table rts (drop_address_v6 api inet6 n w) = table rts w"
    by (simp_all add: defs Let_def split_beta keep split: option.split sum.split)
qed

lemma in_run_apply_dns:
  assumes "ip_contract api rts dns" and "in_run rts tun R a w"
  shows "in_run rts tun R a (snd (apply_dns api tun st w))"
  using assms by (simp add: apply_dns_def split_beta in_run_dns)

lemma revert_table [net_table]:
  assumes "ip_contract api rts dns" and "deletes_work api"
    and "ncApplied n \<or> nsLocalV4 (ncSettings n) \<noteq> []"
  shows "table rts (snd (Revert api inet4 inet6 n w)) = table rts w - our_routes (ncTun n)"
  using assms by (auto simp: Revert_def Let_def other_tables delete_tunnel_routes_table)

lemma tracked_disarm:
  assumes "tracked rts tun R w" and "table rts w = R"
  shows "tracked rts tun R (DisarmCrashRevert w)"
  using assms by (simp add: tracked_def recoverable_def)

lemma revert_in_run:
  assumes c: "ip_contract api rts dns" "deletes_work api" and w: "in_run rts (ncTun n) R a w"
    and n: "ncApplied n \<or> nsLocalV4 (ncSettings n) \<noteq> []"
  shows "in_run rts (ncTun n) R 0 (snd (Revert api inet4 inet6 n w))"
    and "table rts (snd (Revert api inet4 inet6 n w)) = R"
proof -
  show t: "table rts (snd (Revert api inet4 inet6 n w)) = R"
    using revert_table [OF c n] in_run_table [OF w] by simp
  from w have "in_run rts (ncTun n) R a (drop_address_v6 api inet6 n (drop_address_v4 api inet4 n
      (ClearTunnelDns api (ncTun n) (snd (DeleteTunnelRoutes api (ncTun n) w)))))"
    by (intro in_run_addresses [OF c(1)] in_run_dns [OF c(1)] in_run_delete_tunnel_routes [OF c(1)])
  with n t show "in_run rts (ncTun n) R 0 (snd (Revert api inet4 inet6 n w))"
    by (auto simp: Revert_def Let_def in_run_def intro!: tracked_disarm)
qed

section \<open>Apply, stage by stage\<close>

text \<open>The world after each stage of an \<open>Apply\<close> that gets that far.\<close>

definition apply_start :: "'s IpHelper \<Rightarrow> TunnelNetworkSettings \<Rightarrow> u64 \<Rightarrow> 's NetWorld \<Rightarrow> bool \<times> 's NetWorld" where
  "apply_start api st tun w = ConfigureTunnelIpv6Interface api tun st (ArmCrashRevert tun w)"

lemma apply_cases:
  assumes "IsValidTunnelSettings inet4 inet6 st"
  obtains
    (interface) w1 where "apply_start api st (ncTun n) w = (False, w1)"
      "Apply api inet4 inet6 st n w = (False, n\<lparr>ncSettings := st, ncAppliedIpv6 := False\<rparr>, DisarmCrashRevert w1)"
  | (address) w1 w2 where "apply_start api st (ncTun n) w = (True, w1)"
      "apply_addresses api inet4 inet6 (ncTun n) st w1 = (False, w2)"
      "Apply api inet4 inet6 st n w = (False, n\<lparr>ncSettings := st, ncAppliedIpv6 := False\<rparr>, w2)"
  | (routes) w1 w2 w3 where "apply_start api st (ncTun n) w = (True, w1)"
      "apply_addresses api inet4 inet6 (ncTun n) st w1 = (True, w2)"
      "install (AddTunRoute api (ncTun n)) kTunCaptureV4 w2 = (False, w3)"
      "Apply api inet4 inet6 st n w = (False, Revert api inet4 inet6 (n\<lparr>ncSettings := st, ncAppliedIpv6 := False\<rparr>) w3)"
  | (routes6) w1 w2 w3 w4 where "apply_start api st (ncTun n) w = (True, w1)"
      "apply_addresses api inet4 inet6 (ncTun n) st w1 = (True, w2)"
      "install (AddTunRoute api (ncTun n)) kTunCaptureV4 w2 = (True, w3)" "HasIpv6 st"
      "install (AddTunRoute6 api (ncTun n)) kTunCaptureV6 w3 = (False, w4)"
      "Apply api inet4 inet6 st n w = (False, Revert api inet4 inet6 (n\<lparr>ncSettings := st, ncAppliedIpv6 := False\<rparr>) w4)"
  | (applied) w1 w2 w3 w4 dnsOk w5 where "apply_start api st (ncTun n) w = (True, w1)"
      "apply_addresses api inet4 inet6 (ncTun n) st w1 = (True, w2)"
      "install (AddTunRoute api (ncTun n)) kTunCaptureV4 w2 = (True, w3)"
      "(if HasIpv6 st then install (AddTunRoute6 api (ncTun n)) kTunCaptureV6 w3 else (True, w3)) = (True, w4)"
      "apply_dns api (ncTun n) st w4 = (dnsOk, w5)"
      "Apply api inet4 inet6 st n w = (True, n\<lparr>ncSettings := st, ncAppliedIpv6 := HasIpv6 st, ncApplied := True,
        ncDnsApplied := dnsOk\<rparr>, w5)"
proof -
  obtain ok1 w1 where 1: "apply_start api st (ncTun n) w = (ok1, w1)" by fastforce
  obtain ok2 w2 where 2: "apply_addresses api inet4 inet6 (ncTun n) st w1 = (ok2, w2)" by fastforce
  obtain ok3 w3 where 3: "install (AddTunRoute api (ncTun n)) kTunCaptureV4 w2 = (ok3, w3)" by fastforce
  obtain ok4 w4 where 4:
    "(if HasIpv6 st then install (AddTunRoute6 api (ncTun n)) kTunCaptureV6 w3 else (True, w3)) = (ok4, w4)" by fastforce
  obtain dnsOk w5 where 5: "apply_dns api (ncTun n) st w4 = (dnsOk, w5)" by fastforce
  let ?n1 = "n\<lparr>ncSettings := st, ncAppliedIpv6 := False\<rparr>"
  have e: "Apply api inet4 inet6 st n w =
    (if \<not> ok1 then (False, ?n1, DisarmCrashRevert w1) else if \<not> ok2 then (False, ?n1, w2)
     else if \<not> ok3 then (False, Revert api inet4 inet6 ?n1 w3) else if \<not> ok4 then (False, Revert api inet4 inet6 ?n1 w4)
     else (True, n\<lparr>ncSettings := st, ncAppliedIpv6 := HasIpv6 st, ncApplied := True, ncDnsApplied := dnsOk\<rparr>, w5))"
    using assms 1 2 3 4 5 by (simp add: Apply_def apply_start_def Let_def)
  consider "\<not> ok1" | "ok1" "\<not> ok2" | "ok1" "ok2" "\<not> ok3" | "ok1" "ok2" "ok3" "\<not> ok4" | "ok1" "ok2" "ok3" "ok4" by blast
  then show thesis
  proof cases
    assume "\<not> ok1"
    then show thesis using interface [of w1] 1 e by simp
  next
    assume "ok1" "\<not> ok2"
    then show thesis using address [of w1 w2] 1 2 e by simp
  next
    assume "ok1" "ok2" "\<not> ok3"
    then show thesis using routes [of w1 w2 w3] 1 2 3 e by simp
  next
    assume "ok1" "ok2" "ok3" "\<not> ok4"
    then show thesis using routes6 [of w1 w2 w3 w4] 1 2 3 4 e by (simp split: if_splits)
  next
    assume "ok1" "ok2" "ok3" "ok4"
    then show thesis using applied [of w1 w2 w3 w4 dnsOk w5] 1 2 3 4 5 e by simp
  qed
qed

lemma apply_start_in_run:
  assumes "ip_contract api rts dns" and "in_run rts tun R a w" and "table rts w = R"
  shows "in_run rts tun R tun (snd (apply_start api st tun w))" and "table rts (snd (apply_start api st tun w)) = R"
proof -
  from assms(2,3) have "in_run rts tun R tun (ArmCrashRevert tun w)"
    by (auto simp: in_run_def tracked_def recoverable_def)
  then show "in_run rts tun R tun (snd (apply_start api st tun w))"
    by (simp add: apply_start_def in_run_addresses(1) [OF assms(1)])
  show "table rts (snd (apply_start api st tun w)) = R"
    using assms(3) by (simp add: apply_start_def other_tables(1) [OF assms(1)])
qed

lemma in_run_disarm: "in_run rts tun R a w \<Longrightarrow> table rts w = R \<Longrightarrow> in_run rts tun R 0 (DisarmCrashRevert w)"
  by (simp add: in_run_def tracked_disarm)

text \<open>The routes a tunnel of these settings owns.\<close>

definition capture_routes :: "u64 \<Rightarrow> TunnelNetworkSettings \<Rightarrow> route set" where
  "capture_routes tun st = v4_routes tun \<union> (if HasIpv6 st then v6_routes tun else {})"

lemma install_v4_table:
  assumes "ip_contract api rts dns" and "install (AddTunRoute api tun) kTunCaptureV4 w = (True, w')"
  shows "table rts w' = table rts w \<union> v4_routes tun"
  using install_table(1) [of rts "AddTunRoute api tun", OF add_route_table(1) [OF assms(1)], of kTunCaptureV4 w] assms(2)
  by (simp add: v4_routes_def)

lemma install_v6_table:
  assumes "ip_contract api rts dns" and "install (AddTunRoute6 api tun) kTunCaptureV6 w = (True, w')"
  shows "table rts w' = table rts w \<union> v6_routes tun"
  using install_table(1) [of rts "AddTunRoute6 api tun", OF add_route_table(2) [OF assms(1)], of kTunCaptureV6 w] assms(2)
  by (simp add: v6_routes_def)

text \<open>What \<open>Apply\<close> leaves behind: the run stays recoverable, and the table is complete or untouched.\<close>

definition apply_outcome ::
    "('s \<Rightarrow> route set) \<Rightarrow> u64 \<Rightarrow> route set \<Rightarrow> TunnelNetworkSettings \<Rightarrow> bool \<times> NetworkConfig \<times> 's NetWorld \<Rightarrow> bool" where
  "apply_outcome rts tun R st result \<longleftrightarrow>
    (case result of (ok, n, w) \<Rightarrow>
      in_run rts tun R (nwArmed w) w \<and> ncTun n = tun \<and> ncApplied n = ok \<and>
      (if ok then nwArmed w = tun \<and> table rts w = R \<union> capture_routes tun st else table rts w = R))"

lemma apply_outcome_failed:
  assumes c: "ip_contract api rts dns" "deletes_work api" and w: "in_run rts (ncTun n) R a w"
    and n: "nsLocalV4 (ncSettings n) \<noteq> []"
  shows "apply_outcome rts (ncTun n) R st (False, Revert api inet4 inet6 n w)"
proof -
  have "nwArmed (snd (Revert api inet4 inet6 n w)) = 0" "\<not> ncApplied (fst (Revert api inet4 inet6 n w))"
    "ncTun (fst (Revert api inet4 inet6 n w)) = ncTun n"
    by (auto simp: Revert_def Let_def)
  with revert_in_run [OF c w] n show ?thesis by (simp add: apply_outcome_def split_beta)
qed

lemma apply_outcome_holds:
  assumes c: "ip_contract api rts dns" "deletes_work api" and w: "in_run rts (ncTun n) R a w" "table rts w = R"
    and n: "\<not> ncApplied n" and empty: "inet4 [] = None"
  shows "apply_outcome rts (ncTun n) R st (Apply api inet4 inet6 st n w)"
proof (cases "IsValidTunnelSettings inet4 inet6 st")
  case False
  with w n show ?thesis by (auto simp: Apply_def apply_outcome_def in_run_def)
next
  case True
  note start = apply_start_in_run [OF c(1) w]
  note later = in_run_addresses(2) [OF c(1)] in_run_install [OF c(1)] in_run_apply_dns [OF c(1)]
  from True empty have local: "nsLocalV4 st \<noteq> []" by (auto simp: IsValidTunnelSettings_def)
  let ?n1 = "n\<lparr>ncSettings := st, ncAppliedIpv6 := False\<rparr>"
  have failed: "apply_outcome rts (ncTun n) R st (False, Revert api inet4 inet6 ?n1 v)"
    if "in_run rts (ncTun n) R (ncTun n) v" for v
    using apply_outcome_failed [OF c, of ?n1 R "ncTun n" v] that local by simp
  from True show ?thesis
  proof (cases rule: apply_cases [where api = api and n = n and w = w, case_names interface address routes routes6 applied])
    case interface
    with start [of st] n show ?thesis
      using in_run_disarm [of rts "ncTun n" R "ncTun n"] by (simp add: apply_outcome_def)
  next
    case (address w1 w2)
    with start [of st] n later(1) [of "ncTun n" R "ncTun n" w1 inet4 inet6 st]
      other_tables(2) [OF c(1), of inet4 inet6 "ncTun n" st w1]
    show ?thesis by (auto simp: apply_outcome_def in_run_def)
  next
    case (routes w1 w2 w3)
    with start [of st] later(1) [of "ncTun n" R "ncTun n" w1 inet4 inet6 st] later(2) [of "ncTun n" R w2] failed [of w3]
    show ?thesis by simp
  next
    case (routes6 w1 w2 w3 w4)
    with start [of st] later(1) [of "ncTun n" R "ncTun n" w1 inet4 inet6 st] later(2) [of "ncTun n" R w2]
      later(3) [of "ncTun n" R w3] failed [of w4]
    show ?thesis by simp
  next
    case (applied w1 w2 w3 w4 dnsOk w5)
    have 2: "in_run rts (ncTun n) R (ncTun n) w2" "table rts w2 = R"
      using applied(1,2) start [of st] later(1) [of "ncTun n" R "ncTun n" w1 inet4 inet6 st]
        other_tables(2) [OF c(1), of inet4 inet6 "ncTun n" st w1] by simp_all
    have 3: "in_run rts (ncTun n) R (ncTun n) w3" "table rts w3 = R \<union> v4_routes (ncTun n)"
      using applied(3) 2 later(2) [of "ncTun n" R w2] install_v4_table [OF c(1)] by simp_all
    have 4: "in_run rts (ncTun n) R (ncTun n) w4" "table rts w4 = R \<union> capture_routes (ncTun n) st"
      using applied(4) 3 later(3) [of "ncTun n" R w3] install_v6_table [OF c(1), of "ncTun n" w3 w4]
      by (auto simp: capture_routes_def split: if_splits)
    show ?thesis
      using applied(5,6) 4 later(4) [of "ncTun n" R "ncTun n" w4 st] other_tables(4) [OF c(1), of "ncTun n" st w4]
      by (auto simp: apply_outcome_def in_run_def)
  qed
qed

section \<open>The object over a session\<close>

text \<open>
  What the service does with the machine's routes: each capture makes a new object and applies it,
  each release reverts and drops it, and the crash path can run at any time, also from the stop
  paths that cannot have the session lock. The crash path takes the armed identifier before it
  deletes, so that only one of two crashing threads does the work: the moments inside it are not
  moments a second crash path would clean, and are left off the trail.
\<close>

datatype NetOp = OpApply TunnelNetworkSettings | OpRevert | OpCrashRevert | OpFlush

definition NewNetWorld :: "'s \<Rightarrow> 's NetWorld" where
  "NewNetWorld s = \<lparr>nwStack = s, nwArmed = 0, nwTrail = []\<rparr>"

fun net_step ::
    "'s IpHelper \<Rightarrow> (string \<Rightarrow> u32 option) \<Rightarrow> (string \<Rightarrow> 8 word list option) \<Rightarrow> u64 \<Rightarrow>
     NetworkConfig option \<times> 's NetWorld \<Rightarrow> NetOp \<Rightarrow> NetworkConfig option \<times> 's NetWorld" where
  "net_step api inet4 inet6 tun (None, w) (OpApply st) =
    (case Apply api inet4 inet6 st (NewNetworkConfig tun) w of (ok, n, w1) \<Rightarrow> (Some n, w1))"
| "net_step api inet4 inet6 tun (Some n, w) (OpApply st) = (Some n, w)"
| "net_step api inet4 inet6 tun (None, w) OpRevert = (None, w)"
| "net_step api inet4 inet6 tun (Some n, w) OpRevert = (None, snd (Revert api inet4 inet6 n w))"
| "net_step api inet4 inet6 tun (obj, w) OpCrashRevert = (obj, (CrashRevert api w)\<lparr>nwTrail := nwTrail w\<rparr>)"
| "net_step api inet4 inet6 tun (obj, w) OpFlush = (obj, snd (FlushResolverCache api w))"

definition net_inv ::
    "'s IpHelper \<Rightarrow> ('s \<Rightarrow> route set) \<Rightarrow> ('s \<Rightarrow> InterfaceGuid \<times> bool \<Rightarrow> string) \<Rightarrow> (string \<Rightarrow> u32 option) \<Rightarrow> u64 \<Rightarrow>
     route set \<Rightarrow> NetworkConfig option \<times> 's NetWorld \<Rightarrow> bool" where
  "net_inv api rts dns inet4 tun R x \<longleftrightarrow>
    ip_contract api rts dns \<and> deletes_work api \<and> inet4 [] = None \<and>
    in_run rts tun R (nwArmed (snd x)) (snd x) \<and>
    (case fst x of
       None \<Rightarrow> table rts (snd x) = R
     | Some n \<Rightarrow> ncTun n = tun \<and> (ncApplied n \<or> table rts (snd x) = R))"

lemma crash_revert_table:
  assumes c: "ip_contract api rts dns" "deletes_work api"
  shows "recoverable rts tun R (nwArmed w, nwStack w) \<Longrightarrow> tun \<noteq> 0 \<Longrightarrow> table rts (CrashRevert api w) = R"
  by (auto simp: CrashRevert_def Let_def recoverable_def delete_tunnel_routes_table [OF c])

lemma crash_revert_armed [simp]: "nwArmed (CrashRevert api w) = 0"
  by (simp add: CrashRevert_def Let_def net_armed)

lemma crash_revert_in_run:
  assumes c: "ip_contract api rts dns" "deletes_work api" and w: "in_run rts tun R a w"
  shows "in_run rts tun R 0 ((CrashRevert api w)\<lparr>nwTrail := nwTrail w\<rparr>)" and "table rts (CrashRevert api w) = R"
proof -
  show t: "table rts (CrashRevert api w) = R"
    using w by (intro crash_revert_table [OF c]) (auto simp: in_run_def tracked_def)
  from w t show "in_run rts tun R 0 ((CrashRevert api w)\<lparr>nwTrail := nwTrail w\<rparr>)"
    by (simp add: in_run_def tracked_def recoverable_def)
qed

lemma flush_in_run:
  assumes c: "ip_contract api rts dns" and w: "in_run rts tun R a w"
  shows "in_run rts tun R a (snd (FlushResolverCache api w))" and "table rts (snd (FlushResolverCache api w)) = table rts w"
  using w contract_keeps(4) [OF c]
  by (auto simp: FlushResolverCache_def keeps_both_def split: option.split intro!: in_run_same)

lemma revert_gives_back:
  assumes c: "ip_contract api rts dns" "deletes_work api" and w: "in_run rts (ncTun n) R a w"
    and n: "ncApplied n \<or> table rts w = R"
  shows "in_run rts (ncTun n) R 0 (snd (Revert api inet4 inet6 n w))"
    and "table rts (snd (Revert api inet4 inet6 n w)) = R"
proof -
  have "in_run rts (ncTun n) R 0 (snd (Revert api inet4 inet6 n w)) \<and> table rts (snd (Revert api inet4 inet6 n w)) = R"
  proof (cases "ncApplied n \<or> nsLocalV4 (ncSettings n) \<noteq> []")
    case True
    with revert_in_run [OF c w] show ?thesis by simp
  next
    case False
    with n w show ?thesis by (auto simp: Revert_def intro!: in_run_disarm)
  qed
  then show "in_run rts (ncTun n) R 0 (snd (Revert api inet4 inet6 n w))"
    and "table rts (snd (Revert api inet4 inet6 n w)) = R" by simp_all
qed

lemma net_inv_step: "net_inv api rts dns inet4 tun R x \<Longrightarrow> net_inv api rts dns inet4 tun R (net_step api inet4 inet6 tun x op)"
proof -
  assume inv: "net_inv api rts dns inet4 tun R x"
  obtain obj w where x: "x = (obj, w)" by fastforce
  from inv x have c: "ip_contract api rts dns" "deletes_work api" and e: "inet4 [] = None"
    and w: "in_run rts tun R (nwArmed w) w" by (auto simp: net_inv_def)
  note crash = crash_revert_in_run [OF c w] and flush = flush_in_run [OF c(1) w]
  show "net_inv api rts dns inet4 tun R (net_step api inet4 inet6 tun x op)"
  proof (cases op)
    case (OpApply st)
    show ?thesis
    proof (cases obj)
      case None
      with inv x have "table rts w = R" by (simp add: net_inv_def)
      with w e have "apply_outcome rts tun R st (Apply api inet4 inet6 st (NewNetworkConfig tun) w)"
        using apply_outcome_holds [OF c, of "NewNetworkConfig tun" R "nwArmed w" w inet4 st inet6]
        by (simp add: NewNetworkConfig_def)
      moreover obtain ok n w1 where "Apply api inet4 inet6 st (NewNetworkConfig tun) w = (ok, n, w1)" by (metis prod_cases3)
      ultimately show ?thesis using c e None x OpApply by (simp add: net_inv_def apply_outcome_def split: if_splits)
    qed (use inv x OpApply in simp)
  next
    case OpRevert
    show ?thesis
    proof (cases obj)
      case (Some n)
      with inv x have n: "ncTun n = tun" "ncApplied n \<or> table rts w = R" by (simp_all add: net_inv_def)
      from revert_gives_back [OF c, of n R "nwArmed w" w inet4 inet6] w n
      have "in_run rts tun R 0 (snd (Revert api inet4 inet6 n w))" "table rts (snd (Revert api inet4 inet6 n w)) = R" by simp_all
      with c e x OpRevert Some show ?thesis by (simp add: net_inv_def in_run_def)
    qed (use inv x OpRevert in simp)
  next
    case OpCrashRevert
    with inv x c e crash show ?thesis by (cases obj) (simp_all add: net_inv_def)
  next
    case OpFlush
    moreover from flush have "nwArmed (snd (FlushResolverCache api w)) = nwArmed w" by (simp add: in_run_def)
    ultimately show ?thesis using inv x c e flush by (cases obj) (simp_all add: net_inv_def)
  qed
qed

interpretation machine: observer "net_step api inet4 inet6 tun" "net_inv api rts dns inet4 tun R" "\<lambda>_ _. True"
  for api :: "'s IpHelper" and inet4 inet6 tun rts dns R
  by unfold_locales (rule net_inv_step)

lemma net_inv_start:
  assumes "ip_contract api rts dns" "deletes_work api" "inet4 [] = None" "tun \<noteq> 0" "rts s \<inter> our_routes tun = {}"
  shows "net_inv api rts dns inet4 tun (rts s) (None, NewNetWorld s)"
  using assms by (auto simp: net_inv_def NewNetWorld_def in_run_def tracked_def recoverable_def)

section \<open>The resolvers\<close>

text \<open>The resolver calls name the family in their flags.\<close>

lemma dns_flags:
  "dns_v6 (PrepareTunnelDnsClearSettings ipv6) = ipv6"
  "dsFlags (PrepareTunnelDnsClearSettings ipv6) AND DNS_SETTING_NAMESERVER \<noteq> 0"
  "(DNS_SETTING_NAMESERVER OR (if ipv6 then DNS_SETTING_IPV6 else 0)) AND DNS_SETTING_IPV6 \<noteq> 0 \<longleftrightarrow> ipv6"
  "(DNS_SETTING_NAMESERVER OR (if ipv6 then DNS_SETTING_IPV6 else 0)) AND DNS_SETTING_NAMESERVER \<noteq> 0"
  "((DNS_SETTING_NAMESERVER OR (if ipv6 then DNS_SETTING_IPV6 else 0)) OR DNS_SETTING_SEARCHLIST) AND DNS_SETTING_IPV6 \<noteq> 0 \<longleftrightarrow> ipv6"
  "((DNS_SETTING_NAMESERVER OR (if ipv6 then DNS_SETTING_IPV6 else 0)) OR DNS_SETTING_SEARCHLIST) AND DNS_SETTING_NAMESERVER \<noteq> 0"
  by (simp_all add: dns_v6_def PrepareTunnelDnsClearSettings_def DNS_SETTING_NAMESERVER_def DNS_SETTING_IPV6_def
      DNS_SETTING_SEARCHLIST_def)

lemma set_tun_dns_effect:
  assumes c: "ip_contract api rts dns" and g: "ConvertInterfaceLuidToGuid api tun (nwStack w) = Some guid"
  shows "dns (nwStack (snd (SetTunDns api tun ipv6 servers search w))) =
    (if fst (SetTunDns api tun ipv6 servers search w)
     then (dns (nwStack w))((guid, ipv6) := join_servers servers) else dns (nwStack w))"
proof -
  define base where "base = DNS_SETTING_NAMESERVER OR (if ipv6 then DNS_SETTING_IPV6 else 0)"
  define st where "st = \<lparr>dsFlags = (if search \<noteq> [] then base OR DNS_SETTING_SEARCHLIST else base),
    dsNameServer = (if join_servers servers = [] then None else Some (join_servers servers)),
    dsSearchList = (if search \<noteq> [] then Some search else None)\<rparr>"
  have flags: "dns_v6 st = ipv6" "dsFlags st AND DNS_SETTING_NAMESERVER \<noteq> 0"
    using dns_flags(3-6) [of ipv6] by (simp_all add: st_def base_def dns_v6_def)
  have "SetTunDns api tun ipv6 servers search w =
      (case stack_call (SetInterfaceDnsSettings api guid st) w of (err, w1) \<Rightarrow> (err = NO_ERROR, w1))"
    by (simp add: SetTunDns_def g Let_def st_def base_def)
  then show ?thesis
    using contract_dns(2,3) [OF c, of guid st "nwStack w"] flags by (auto simp: split_beta st_def split: if_splits)
qed

text \<open>
  The tun's interface identifier does not depend on what else is configured; with that, the flag
  \<open>Apply\<close> keeps says what the stack holds.
\<close>

lemma apply_dns_effect:
  assumes c: "ip_contract api rts dns" and g: "\<And>s. ConvertInterfaceLuidToGuid api tun s = Some guid"
    and a: "apply_dns api tun st w = (True, w')"
  shows "dns (nwStack w') (guid, False) = join_servers (nsDnsV4 st)"
  using a by (auto simp: apply_dns_def split_beta set_tun_dns_effect [OF c g] split: if_splits)

lemma apply_dns_flag:
  assumes c: "ip_contract api rts dns" and g: "\<And>s. ConvertInterfaceLuidToGuid api (ncTun n) s = Some guid"
    and a: "Apply api inet4 inet6 st n w = (True, n', w')" and d: "ncDnsApplied n'"
  shows "dns (nwStack w') (guid, False) = join_servers (nsDnsV4 st)"
proof -
  from a have v: "IsValidTunnelSettings inet4 inet6 st" by (auto simp: Apply_def split: if_splits)
  then show ?thesis
    by (cases rule: apply_cases [where api = api and n = n and w = w, case_names interface address routes routes6 applied])
      (use a d apply_dns_effect [OF c g] in auto)
qed

lemma clear_tunnel_dns_effect:
  assumes c: "ip_contract api rts dns" and g: "ConvertInterfaceLuidToGuid api tun (nwStack w) = Some guid"
    and ok: "\<And>ipv6 s. fst (SetInterfaceDnsSettings api guid (PrepareTunnelDnsClearSettings ipv6) s) = NO_ERROR"
  shows "dns (nwStack (ClearTunnelDns api tun w)) = (dns (nwStack w))((guid, False) := [], (guid, True) := [])"
  using contract_dns(3) [OF c ok dns_flags(2)]
  by (simp add: ClearTunnelDns_def g dns_flags(1)) (simp add: PrepareTunnelDnsClearSettings_def)

section \<open>The sweep\<close>

lemma add_candidate_members: "set (add_candidate luid cs) \<subseteq> insert luid (set cs) - ({0} - set cs)"
  by (auto simp: add_candidate_def)

lemma candidates_fold:
  "luid \<in> set (foldl (\<lambda>cs row. if is_our_adapter name row then add_candidate (ifLuid row) cs else cs) cs rows) \<Longrightarrow>
   luid \<in> set cs \<or> luid \<noteq> 0 \<and> (\<exists>row\<in>set rows. is_our_adapter name row \<and> ifLuid row = luid)"
proof (induction rows arbitrary: cs)
  case (Cons row rows)
  let ?cs = "if is_our_adapter name row then add_candidate (ifLuid row) cs else cs"
  from Cons.IH [of ?cs] Cons.prems have "luid \<in> set ?cs \<or> luid \<noteq> 0 \<and> (\<exists>row\<in>set rows. is_our_adapter name row \<and> ifLuid row = luid)"
    by simp
  then show ?case using add_candidate_members [of "ifLuid row" cs] by (auto split: if_splits)
qed simp

text \<open>What makes an interface a candidate: the pinned identifier, or the name on a tunnel device.\<close>

definition sweep_lead :: "'s IpHelper \<Rightarrow> InterfaceGuid \<Rightarrow> string \<Rightarrow> 's \<Rightarrow> u64 \<Rightarrow> bool" where
  "sweep_lead api tunGuid adapterName s luid \<longleftrightarrow>
    luid \<noteq> 0 \<and> (ConvertInterfaceGuidToLuid api tunGuid s = Some luid \<or>
      (\<exists>rows. GetIfTable2 api s = Some rows \<and> (\<exists>row\<in>set rows. is_our_adapter adapterName row \<and> ifLuid row = luid)))"

lemma candidates_are_leads: 
  assumes "luid \<in> set (sweep_candidates api g name s)"
  shows "sweep_lead api g name s luid"
proof -
  define byGuid where "byGuid = (case ConvertInterfaceGuidToLuid api g s of Some luid \<Rightarrow> add_candidate luid [] | None \<Rightarrow> [])"
  have guid: "luid \<noteq> 0 \<and> ConvertInterfaceGuidToLuid api g s = Some luid" if "luid \<in> set byGuid"
    using that by (auto simp: byGuid_def add_candidate_def split: option.splits if_splits)
  show ?thesis
  proof (cases "name = [] \<or> GetIfTable2 api s = None")
    case True
    then have "sweep_candidates api g name s = byGuid" by (auto simp: sweep_candidates_def byGuid_def Let_def)
    with assms have "luid \<in> set byGuid" by simp
    from guid [OF this] show ?thesis unfolding sweep_lead_def by simp
  next
    case False
    then obtain rows where rows: "GetIfTable2 api s = Some rows" "name \<noteq> []" by auto
    with assms have "luid \<in> set (foldl (\<lambda>cs row. if is_our_adapter name row then add_candidate (ifLuid row) cs else cs) byGuid rows)"
      by (simp add: sweep_candidates_def byGuid_def)
    from candidates_fold [OF this] show ?thesis
    proof
      assume "luid \<in> set byGuid"
      from guid [OF this] show ?thesis unfolding sweep_lead_def by simp
    next
      assume "luid \<noteq> 0 \<and> (\<exists>row\<in>set rows. is_our_adapter name row \<and> ifLuid row = luid)"
      with rows(1) show ?thesis unfolding sweep_lead_def by simp
    qed
  qed
qed

lemma remove_each_subset:
  assumes "\<And>p w. table rts w - {key p} \<subseteq> table rts (snd (del p w)) \<and> table rts (snd (del p w)) \<subseteq> table rts w"
  shows "table rts w - key ` set ps \<subseteq> table rts (snd (remove_each del ps n w)) \<and>
    table rts (snd (remove_each del ps n w)) \<subseteq> table rts w"
proof (induction ps arbitrary: n w)
  case (Cons p ps)
  from Cons [of "snd (del p w)" "if fst (del p w) then n + 1 else n"] assms [of w p] show ?case
    by (auto simp: split_beta split: if_splits)
qed simp

lemma delete_tunnel_routes_subset:
  assumes c: "ip_contract api rts dns"
  shows "table rts w - our_routes tun \<subseteq> table rts (snd (DeleteTunnelRoutes api tun w))"
    and "table rts (snd (DeleteTunnelRoutes api tun w)) \<subseteq> table rts w"
proof -
  have 4: "table rts w - v4_routes tun \<subseteq> table rts (snd (remove_each (DeleteTunRoute api tun) kTunCaptureV4 n w)) \<and>
      table rts (snd (remove_each (DeleteTunRoute api tun) kTunCaptureV4 n w)) \<subseteq> table rts w" for n w
    unfolding v4_routes_def by (rule remove_each_subset) (auto simp: delete_route_table(1) [OF c] split: if_splits)
  have 6: "table rts w - v6_routes tun \<subseteq> table rts (snd (remove_each (DeleteTunRoute6 api tun) kTunCaptureV6 n w)) \<and>
      table rts (snd (remove_each (DeleteTunRoute6 api tun) kTunCaptureV6 n w)) \<subseteq> table rts w" for n w
    unfolding v6_routes_def by (rule remove_each_subset) (auto simp: delete_route_table(2) [OF c] split: if_splits)
  show "table rts w - our_routes tun \<subseteq> table rts (snd (DeleteTunnelRoutes api tun w))"
    using 4 6 unfolding DeleteTunnelRoutes_def split_beta our_routes_def by blast
  show "table rts (snd (DeleteTunnelRoutes api tun w)) \<subseteq> table rts w"
    using 4 6 unfolding DeleteTunnelRoutes_def split_beta by blast
qed

lemma sweep_each_confined:
  assumes c: "ip_contract api rts dns"
  shows "table rts (snd (sweep_each api rm ls k w)) \<subseteq> table rts w \<and>
    table rts w - \<Union> (our_routes ` set ls) \<subseteq> table rts (snd (sweep_each api rm ls k w))"
proof (induction ls arbitrary: k w)
  case (Cons l ls)
  consider (idle) "\<not> is_live api l (nwStack w)" | (seen) "is_live api l (nwStack w)" "\<not> rm"
    | (swept) "is_live api l (nwStack w)" rm by blast
  then show ?case
  proof cases
    case idle
    with Cons [where k = k and w = w] show ?thesis by (simp only: sweep_each.simps if_True if_False not_False_eq_True) auto
  next
    case seen
    with Cons [where k = "k + 1" and w = w] show ?thesis by (simp only: sweep_each.simps if_True if_False not_False_eq_True) auto
  next
    case swept
    let ?w = "ClearTunnelDns api l (snd (DeleteTunnelRoutes api l w))"
    have "table rts ?w \<subseteq> table rts w" "table rts w - our_routes l \<subseteq> table rts ?w"
      using delete_tunnel_routes_subset [OF c, where w = w and tun = l] by (simp_all only: other_tables(5) [OF c])
    with Cons [where k = "k + 1" and w = ?w] swept show ?thesis
      by (simp only: sweep_each.simps if_True if_False not_False_eq_True not_not) auto
  qed
qed simp

lemma sweep_each_observes: "snd (sweep_each api False ls k w) = w"
  by (induction ls arbitrary: k) simp_all

lemma sweep_each_count: "fst (sweep_each api False ls k w) = k + length (filter (\<lambda>l. is_live api l (nwStack w)) ls)"
  by (induction ls arbitrary: k) simp_all

section \<open>Where a packet goes\<close>

text \<open>The longest-prefix rule of the stack for an IPv4 destination.\<close>

definition covers_v4 :: "IpPrefix \<Rightarrow> u32 \<Rightarrow> bool" where
  "covers_v4 d a \<longleftrightarrow> ipFamily d = AF_INET \<and> ipAddress d = htonl_bytes (a AND PrefixMask (ipLength d))"

definition tun_takes :: "route set \<Rightarrow> u64 \<Rightarrow> u32 \<Rightarrow> bool" where
  "tun_takes routes tun a \<longleftrightarrow>
    (\<exists>r\<in>routes. fst r = tun \<and> covers_v4 (snd r) a \<and>
      (\<forall>q\<in>routes. fst q \<noteq> tun \<and> covers_v4 (snd q) a \<longrightarrow> ipLength (snd q) < ipLength (snd r)))"

lemma htonl_bytes_inject [simp]: "htonl_bytes x = htonl_bytes y \<longleftrightarrow> x = y"
proof
  assume e: "htonl_bytes x = htonl_bytes y"
  have byte: "ucast (drop_bit (24 - 8 * i) x) = (ucast (drop_bit (24 - 8 * i) y) :: 8 word)" if "i < 4" for i
    using arg_cong [OF e, of "\<lambda>l. l ! i"] that by (simp add: htonl_bytes_def)
  show "x = y"
  proof (rule bit_word_eqI)
    fix n assume n: "n < LENGTH(32)"
    let ?i = "3 - n div 8"
    have i: "?i < 4" by simp
    have "n div 8 < 4" using n by simp
    then have "24 - 8 * ?i = 8 * (n div 8)" by arith
    then have off: "24 - 8 * ?i + n mod 8 = n" by simp
    have "bit (ucast (drop_bit (24 - 8 * ?i) x) :: 8 word) (n mod 8) = bit (ucast (drop_bit (24 - 8 * ?i) y) :: 8 word) (n mod 8)"
      using byte [OF i] by simp
    then show "bit x n = bit y n" using off by (simp add: bit_ucast_iff bit_drop_bit_eq)
  qed
qed simp

lemma covers_capture_prefix: "covers_v4 (v4_dest (network p) (prefix p)) a \<longleftrightarrow> matches_v4 p a"
  by (auto simp: covers_v4_def v4_dest_def matches_v4_def)

lemma capture_prefix_positive:
  assumes "p \<in> set kTunCaptureV4" and "matches_v4 p a"
  shows "0 < prefix p"
proof (rule ccontr)
  assume "\<not> 0 < prefix p"
  with assms(2) have "matches_v4 p 0x0A000001" by (simp add: matches_v4_def PrefixMask_def)
  moreover have "IsLocalBypassV4 0x0A000001" by code_simp
  ultimately show False using capture_v4_exact assms(1) by blast
qed

lemma covers_v6_not: "\<not> covers_v4 (v6_dest p) a"
  by (simp add: covers_v4_def v6_dest_def)

lemma capture_takes:
  assumes foreign: "\<forall>q\<in>R. fst q \<noteq> tun \<and> (covers_v4 (snd q) a \<longrightarrow> ipLength (snd q) = 0)"
  shows "tun_takes (R \<union> capture_routes tun st) tun a \<longleftrightarrow> \<not> IsLocalBypassV4 a"
proof -
  have only: "r \<in> R \<union> capture_routes tun st \<and> fst r = tun \<and> covers_v4 (snd r) a \<longleftrightarrow>
      (\<exists>p\<in>set kTunCaptureV4. r = (tun, v4_dest (network p) (prefix p)) \<and> matches_v4 p a)" for r
    using foreign
    by (cases r) (auto simp: capture_routes_def v4_routes_def v6_routes_def covers_v6_not covers_capture_prefix split: if_splits)
  have "tun_takes (R \<union> capture_routes tun st) tun a \<longleftrightarrow> (\<exists>p\<in>set kTunCaptureV4. matches_v4 p a)"
  proof
    assume "tun_takes (R \<union> capture_routes tun st) tun a"
    then show "\<exists>p\<in>set kTunCaptureV4. matches_v4 p a" unfolding tun_takes_def using only by blast
  next
    assume "\<exists>p\<in>set kTunCaptureV4. matches_v4 p a"
    then obtain p where p: "p \<in> set kTunCaptureV4" "matches_v4 p a" by blast
    have "ipLength (snd q) < prefix p" if "q \<in> R \<union> capture_routes tun st" "fst q \<noteq> tun \<and> covers_v4 (snd q) a" for q
      using that foreign capture_prefix_positive [OF p]
      by (auto simp: capture_routes_def v4_routes_def v6_routes_def split: if_splits)
    with only [of "(tun, v4_dest (network p) (prefix p))"] p show "tun_takes (R \<union> capture_routes tun st) tun a"
      unfolding tun_takes_def by (intro bexI [of _ "(tun, v4_dest (network p) (prefix p))"]) (auto simp: v4_dest_def)
  qed
  then show ?thesis by (simp add: capture_v4_exact)
qed

section \<open>A stack that follows the rules\<close>

text \<open>Its routes and the resolver texts, the latest first; every interface has the identifier \<open>[1]\<close>.\<close>

type_synonym sample_stack = "route list \<times> ((InterfaceGuid \<times> bool) \<times> string) list"

definition stack_sample :: "sample_stack IpHelper" where
  "stack_sample =
    \<lparr>CreateIpForwardEntry2 = (\<lambda>row (rs, d).
       if route_key row \<in> set rs then (ERROR_OBJECT_ALREADY_EXISTS, (rs, d)) else (NO_ERROR, (route_key row # rs, d))),
     DeleteIpForwardEntry2 = (\<lambda>row (rs, d).
       if route_key row \<in> set rs then (NO_ERROR, (removeAll (route_key row) rs, d)) else (ERROR_NOT_FOUND, (rs, d))),
     GetIpForwardTable2 = (\<lambda>_ _. None),
     GetIpInterfaceEntry = (\<lambda>_ _ _. Inl ERROR_NOT_FOUND),
     SetIpInterfaceEntry = (\<lambda>_. Pair NO_ERROR),
     GetUnicastIpAddressTable = (\<lambda>_ _. None),
     CreateUnicastIpAddressEntry = (\<lambda>_. Pair NO_ERROR),
     DeleteUnicastIpAddressEntry = (\<lambda>_. Pair NO_ERROR),
     ConvertInterfaceLuidToGuid = (\<lambda>_ _. Some [1]),
     ConvertInterfaceGuidToLuid = (\<lambda>_ _. Some 0x35),
     SetInterfaceDnsSettings = (\<lambda>guid st (rs, d).
       case dsNameServer st of None \<Rightarrow> (87, (rs, d)) | Some text \<Rightarrow> (NO_ERROR, (rs, ((guid, dns_v6 st), text) # d))),
     GetIfTable2 = (\<lambda>_. None),
     GetIfEntry2 = (\<lambda>_ _. None),
     GetIfEntry2Index = (\<lambda>_ _. None),
     DnsFlushResolverCache = None\<rparr>"

definition sample_routes :: "sample_stack \<Rightarrow> route set" where
  "sample_routes s = set (fst s)"

definition sample_dns :: "sample_stack \<Rightarrow> InterfaceGuid \<times> bool \<Rightarrow> string" where
  "sample_dns s key = (case map_of (snd s) key of Some text \<Rightarrow> text | None \<Rightarrow> [])"

definition sample_inet4 :: "string \<Rightarrow> u32 option" where
  "sample_inet4 s = (if s = ''169.254.2.1'' then Some 0xA9FE0201 else if s = ''1.1.1.1'' then Some 0x01010101 else None)"

definition sample_settings :: TunnelNetworkSettings where
  "sample_settings = NoTunnelSettings\<lparr>nsLocalV4 := ''169.254.2.1'', nsDnsV4 := [''1.1.1.1'']\<rparr>"

text \<open>A machine whose one route is the default route of interface 7.\<close>

definition sample_machine :: sample_stack where
  "sample_machine = ([(7, v4_dest 0 0)], [])"

lemma stack_sample_contract: "ip_contract stack_sample sample_routes sample_dns"
  by (auto simp: ip_contract_def stack_sample_def sample_routes_def sample_dns_def keeps_both_def net_codes fun_eq_iff
      split: option.splits)

lemma stack_sample_deletes: "deletes_work stack_sample"
  by (auto simp: deletes_work_def stack_sample_def)

lemma our_routes_fst: "r \<in> our_routes tun \<Longrightarrow> fst r = tun"
  by (auto simp: our_routes_def v4_routes_def v6_routes_def)

lemma sample_machine_foreign: "sample_routes sample_machine \<inter> our_routes 0x35 = {}"
  by (auto simp: sample_routes_def sample_machine_def dest: our_routes_fst)

lemma install_ok: "(\<And>p w. fst (add p w)) \<Longrightarrow> fst (install add ps w)"
  by (induction ps arbitrary: w) (auto simp: split_beta)

lemma sample_applies:
  obtains n w where "Apply stack_sample sample_inet4 (\<lambda>_. None) sample_settings (NewNetworkConfig 0x35) (NewNetWorld s) =
    (True, n, w)"
proof -
  have "fst (AddTunRoute stack_sample tun p w)" for tun p w
    by (cases "nwStack w") (simp add: AddTunRoute_def Let_def split_beta stack_sample_def)
  then have "fst (install (AddTunRoute stack_sample tun) ps w)" for tun ps w by (rule install_ok)
  moreover have "fst (ConfigureTunnelIpv6Interface stack_sample tun sample_settings w)" for tun w
    by (simp add: ConfigureTunnelIpv6Interface_def stack_sample_def sample_settings_def NoTunnelSettings_def HasIpv6_def)
  moreover have "fst (apply_addresses stack_sample sample_inet4 i6 tun sample_settings w)" for i6 tun w
    by (simp add: apply_addresses_def set_address_def split_beta Let_def sample_settings_def NoTunnelSettings_def
        HasIpv6_def sample_inet4_def stack_sample_def)
  moreover have "IsValidTunnelSettings sample_inet4 (\<lambda>_. None) sample_settings" by code_simp
  moreover have "\<not> HasIpv6 sample_settings" by code_simp
  ultimately have "fst (Apply stack_sample sample_inet4 (\<lambda>_. None) sample_settings (NewNetworkConfig 0x35) (NewNetWorld s))"
    by (simp add: Apply_def Let_def split_beta)
  then show thesis using that by (metis prod_cases3 fst_conv)
qed

lemma sample_machine_default:
  "\<forall>q\<in>sample_routes sample_machine. fst q \<noteq> 0x35 \<and> (covers_v4 (snd q) a \<longrightarrow> ipLength (snd q) = 0)"
  by (simp add: sample_routes_def sample_machine_def v4_dest_def)

text \<open>The outcome of the first apply of an object on a machine that holds none of our routes.\<close>

lemma fresh_apply_outcome:
  assumes "ip_contract api rts dns" "deletes_work api" "inet4 [] = None" "tun \<noteq> 0" "rts s \<inter> our_routes tun = {}"
  shows "apply_outcome rts tun (rts s) st (Apply api inet4 inet6 st (NewNetworkConfig tun) (NewNetWorld s))"
proof -
  from net_inv_start [of api rts dns inet4 tun s, OF assms] have "in_run rts tun (rts s) 0 (NewNetWorld s)"
    by (simp add: net_inv_def NewNetWorld_def)
  then show ?thesis
    using apply_outcome_holds [OF assms(1,2), of "NewNetworkConfig tun" "rts s" 0 "NewNetWorld s" inet4 st inet6] assms(3)
    by (simp add: NewNetWorld_def NewNetworkConfig_def)
qed

section \<open>Properties\<close>









end
