(* ===== verification/LogUpload.thy ===== *)
theory LogUpload
  imports Prelude
begin

text \<open>
  The upload of the service's logs (\<^verbatim>\<open>Common/LogUpload.h\<close>): which device carries it, the one
  upload in flight with the thread that runs the SDK's call, and the app's half. Each method of
  \<^verbatim>\<open>Flight\<close> is the body it runs under the flight's lock; \<open>Finish\<close>, which lets the lock go while its hook
  runs, is two. Devices are numbers. Times are milliseconds of a steady clock.
\<close>

section \<open>Who carries an upload\<close>

datatype Carrier = Carrier_Tunnel | Carrier_Provider | Standalone

definition CarrierToString :: "Carrier \<Rightarrow> string" where
  "CarrierToString carrier = (case carrier of Carrier_Tunnel \<Rightarrow> ''tunnel'' | Carrier_Provider \<Rightarrow> ''provider''
    | Standalone \<Rightarrow> ''standalone'')"

definition CarrierFor :: "bool \<Rightarrow> bool \<Rightarrow> Carrier" where
  "CarrierFor sessionDevice providerDevice =
    (if sessionDevice then Carrier_Tunnel else if providerDevice then Carrier_Provider else Standalone)"

datatype StandaloneRefusal = Standalone_None | DeviceStillHeld | RestartPending

definition StandaloneRefusalFor :: "bool \<Rightarrow> bool \<Rightarrow> StandaloneRefusal" where
  "StandaloneRefusalFor deviceStillHeld restartPending =
    (if deviceStillHeld then DeviceStillHeld else if restartPending then RestartPending else Standalone_None)"

definition RefusalReason :: "StandaloneRefusal \<Rightarrow> string" where
  "RefusalReason refusal = (case refusal of
      DeviceStillHeld \<Rightarrow> ''a previous teardown is still holding this device's identity''
    | RestartPending \<Rightarrow> ''this service is restarting itself''
    | Standalone_None \<Rightarrow> [])"

section \<open>The flight\<close>

datatype FlightState = Flight_None | Running | Uploaded | Flight_Refused | Flight_Failed

definition FlightStateToString :: "FlightState \<Rightarrow> string" where
  "FlightStateToString state = (case state of Flight_None \<Rightarrow> [] | Running \<Rightarrow> ''running'' | Uploaded \<Rightarrow> ''uploaded''
    | Flight_Refused \<Rightarrow> ''refused'' | Flight_Failed \<Rightarrow> ''failed'')"

definition FlightStateFromString :: "string \<Rightarrow> FlightState" where
  "FlightStateFromString v =
    (if v = ''running'' then Running else if v = ''uploaded'' then Uploaded
     else if v = ''refused'' then Flight_Refused else if v = ''failed'' then Flight_Failed else Flight_None)"

definition IsFinished :: "FlightState \<Rightarrow> bool" where
  "IsFinished state \<longleftrightarrow> state = Uploaded \<or> state = Flight_Refused \<or> state = Flight_Failed"

definition kStandaloneDeviceMaxLifetime :: i64 where "kStandaloneDeviceMaxLifetime = 30 * 60 * 1000"

definition kSilentUploadMaxMillis :: i64 where "kSilentUploadMaxMillis = kStandaloneDeviceMaxLifetime"

record FlightReading =
  rdId :: i64
  rdState :: FlightState
  rdCarrier :: Carrier

record Flight =
  flNextId :: i64
  flReading :: FlightReading
  flSince :: i64
  flOnFinished :: bool
  flNotifying :: nat
  flCalling :: bool
  flReleasing :: bool
  flCallingId :: i64
  flCallingDevice :: u64
  flKept :: "nat list"

definition NewFlight :: "i64 \<Rightarrow> Flight" where
  "NewFlight firstId = \<lparr>flNextId = firstId, flReading = \<lparr>rdId = 0, rdState = Flight_None, rdCarrier = Standalone\<rparr>,
    flSince = 0, flOnFinished = False, flNotifying = 0, flCalling = False, flReleasing = False, flCallingId = 0,
    flCallingDevice = 0, flKept = []\<rparr>"

definition SetOnFinished :: "Flight \<Rightarrow> Flight" where
  "SetOnFinished f = f\<lparr>flOnFinished := True\<rparr>"

text \<open>The hook is taken away at once; the call returns when no hook runs any more (\<open>hooks_quiet\<close>).\<close>

definition ClearOnFinished :: "Flight \<Rightarrow> Flight" where
  "ClearOnFinished f = f\<lparr>flOnFinished := False\<rparr>"

definition hooks_quiet :: "Flight \<Rightarrow> bool" where
  "hooks_quiet f \<longleftrightarrow> flNotifying f = 0"

definition BusyWithLock :: "Flight \<Rightarrow> bool" where
  "BusyWithLock f \<longleftrightarrow> flCalling f \<or> flReleasing f \<or> rdState (flReading f) = Running"

definition ExpireSilentWithLock :: "i64 \<Rightarrow> Flight \<Rightarrow> Flight" where
  "ExpireSilentWithLock now f =
    (if rdState (flReading f) = Running \<and> now - flSince f \<ge> kSilentUploadMaxMillis
     then f\<lparr>flReading := (flReading f)\<lparr>rdState := Flight_Failed\<rparr>\<rparr> else f)"

definition Begin :: "Carrier \<Rightarrow> i64 \<Rightarrow> Flight \<Rightarrow> i64 \<times> Flight" where
  "Begin carrier now f =
    (let f1 = ExpireSilentWithLock now f
     in if BusyWithLock f1 then (0, f1)
        else (flNextId f1, f1\<lparr>flNextId := flNextId f1 + 1, flSince := now,
               flReading := \<lparr>rdId = flNextId f1, rdState = Running, rdCarrier = carrier\<rparr>\<rparr>))"

definition Run :: "i64 \<Rightarrow> u64 \<Rightarrow> Flight \<Rightarrow> Flight" where
  "Run uid deviceHandle f = f\<lparr>flCalling := True, flCallingId := uid, flCallingDevice := deviceHandle\<rparr>"

text \<open>The device is handed back to be released now, or kept by the flight.\<close>

definition KeepUntilReturned :: "u64 \<Rightarrow> nat \<Rightarrow> Flight \<Rightarrow> nat option \<times> Flight" where
  "KeepUntilReturned deviceHandle device f =
    (if \<not> flCalling f \<or> flCallingDevice f \<noteq> deviceHandle \<or> deviceHandle = 0 then (Some device, f)
     else (None, f\<lparr>flKept := flKept f @ [device]\<rparr>))"

definition Finish :: "i64 \<Rightarrow> FlightState \<Rightarrow> Flight \<Rightarrow> bool \<times> Flight" where
  "Finish uid state f =
    (if rdId (flReading f) \<noteq> uid \<or> IsFinished (rdState (flReading f)) \<or> \<not> IsFinished state then (False, f)
     else let f1 = f\<lparr>flReading := (flReading f)\<lparr>rdState := state\<rparr>\<rparr>
          in (flOnFinished f, if flOnFinished f then f1\<lparr>flNotifying := flNotifying f + 1\<rparr> else f1))"

definition HookReturned :: "Flight \<Rightarrow> Flight" where
  "HookReturned f = f\<lparr>flNotifying := flNotifying f - 1\<rparr>"

definition Read :: "i64 \<Rightarrow> Flight \<Rightarrow> FlightReading \<times> Flight" where
  "Read now f = (let f1 = ExpireSilentWithLock now f in (flReading f1, f1))"

definition FlightReturned :: "i64 \<Rightarrow> Flight \<Rightarrow> nat list \<times> Flight" where
  "FlightReturned uid f =
    (if flCallingId f \<noteq> uid then ([], f)
     else (flKept f, f\<lparr>flCalling := False, flReleasing := True, flCallingDevice := 0, flKept := []\<rparr>))"

definition FlightReleased :: "i64 \<Rightarrow> Flight \<Rightarrow> Flight" where
  "FlightReleased uid f = (if flCallingId f \<noteq> uid then f else f\<lparr>flReleasing := False\<rparr>)"

definition wait_returned :: "Flight \<Rightarrow> bool" where
  "wait_returned f \<longleftrightarrow> \<not> flCalling f \<and> \<not> flReleasing f"

section \<open>The app's half\<close>

datatype ServiceAnswer = Answer_Accepted | Answer_Busy | Answer_NotTaken

datatype AppStep = Step_Done | Step_DeviceRemote | Step_Skip

definition AppStepAfterService :: "ServiceAnswer \<Rightarrow> bool \<Rightarrow> AppStep" where
  "AppStepAfterService answer deviceRemoteBound =
    (if answer \<noteq> Answer_NotTaken then Step_Done else if deviceRemoteBound then Step_DeviceRemote else Step_Skip)"

definition CompletionFor :: "i64 \<Rightarrow> i64 \<Rightarrow> FlightState \<Rightarrow> FlightState option" where
  "CompletionFor pendingId statusId statusState =
    (if pendingId = 0 \<or> statusId \<noteq> pendingId \<or> \<not> IsFinished statusState then None else Some statusState)"

section \<open>The flight with its thread\<close>

text \<open>
  What the service does with a flight. \<open>Admit\<close> is an accepted request (the upload is begun and run
  under the session lock); \<open>Refuse\<close> begins and, the device not being there, fails at once. The thread
  leaves the SDK's call, lets the kept devices go and is done. The SDK's callback reports at any time,
  also for an upload that is over. A teardown gives up a device. \<open>lwThread\<close> is the upload's thread
  with the devices it is letting go, \<open>lwGone\<close> the devices released so far, \<open>lwOutcomes\<close> what each
  upload was seen to end with, the latest first in both.
\<close>

datatype UploadThread = InCall i64 | LettingGo i64 "nat list"

record UploadWorld =
  lwFlight :: Flight
  lwThreads :: "UploadThread list"
  lwGone :: "nat list"
  lwOutcomes :: "(i64 \<times> FlightState) list"

datatype UploadEvent = Admit Carrier u64 i64 | Refuse Carrier i64 | CallReturns | LetGo | Report i64 FlightState
  | TearDown u64 nat | Poll i64

definition note_outcome :: "Flight \<Rightarrow> UploadWorld \<Rightarrow> UploadWorld" where
  "note_outcome before w =
    (let r = flReading (lwFlight w)
     in if rdState (flReading before) = Running \<and> IsFinished (rdState r)
        then w\<lparr>lwOutcomes := (rdId r, rdState r) # lwOutcomes w\<rparr> else w)"

definition expire :: "i64 \<Rightarrow> UploadWorld \<Rightarrow> UploadWorld" where
  "expire now w = note_outcome (lwFlight w) (w\<lparr>lwFlight := ExpireSilentWithLock now (lwFlight w)\<rparr>)"

fun upload_step :: "UploadWorld \<Rightarrow> UploadEvent \<Rightarrow> UploadWorld" where
  "upload_step w (Admit carrier handle now) =
    (let w1 = expire now w in
     case Begin carrier now (lwFlight w1) of (uid, f) \<Rightarrow>
       if uid = 0 then w1\<lparr>lwFlight := f\<rparr>
       else w1\<lparr>lwFlight := Run uid handle f, lwThreads := InCall uid # lwThreads w1\<rparr>)"
| "upload_step w (Refuse carrier now) =
    (let w1 = expire now w in
     case Begin carrier now (lwFlight w1) of (uid, f) \<Rightarrow>
       if uid = 0 then w1\<lparr>lwFlight := f\<rparr>
       else note_outcome f (w1\<lparr>lwFlight := snd (Finish uid Flight_Failed f)\<rparr>))"
| "upload_step w CallReturns =
    (case lwThreads w of
       InCall uid # ts \<Rightarrow> (case FlightReturned uid (lwFlight w) of (devices, f) \<Rightarrow>
         w\<lparr>lwFlight := f, lwThreads := LettingGo uid devices # ts\<rparr>)
     | _ \<Rightarrow> w)"
| "upload_step w LetGo =
    (case lwThreads w of
       LettingGo uid devices # ts \<Rightarrow>
         w\<lparr>lwFlight := FlightReleased uid (lwFlight w), lwThreads := ts, lwGone := devices @ lwGone w\<rparr>
     | _ \<Rightarrow> w)"
| "upload_step w (Report uid state) =
    note_outcome (lwFlight w) (w\<lparr>lwFlight := snd (Finish uid state (lwFlight w))\<rparr>)"
| "upload_step w (TearDown handle device) =
    (case KeepUntilReturned handle device (lwFlight w) of
       (Some d, f) \<Rightarrow> w\<lparr>lwFlight := f, lwGone := d # lwGone w\<rparr>
     | (None, f) \<Rightarrow> w\<lparr>lwFlight := f\<rparr>)"
| "upload_step w (Poll now) = expire now w"

definition NewUploadWorld :: "i64 \<Rightarrow> UploadWorld" where
  "NewUploadWorld firstId = \<lparr>lwFlight = NewFlight firstId, lwThreads = [], lwGone = [], lwOutcomes = []\<rparr>"

section \<open>One upload at a time, one outcome each\<close>

fun thread_matches :: "Flight \<Rightarrow> UploadThread list \<Rightarrow> bool" where
  "thread_matches f [] = (\<not> flCalling f \<and> \<not> flReleasing f)"
| "thread_matches f [InCall uid] = (flCalling f \<and> \<not> flReleasing f \<and> flCallingId f = uid)"
| "thread_matches f [LettingGo uid ds] = (\<not> flCalling f \<and> flReleasing f \<and> flCallingId f = uid)"
| "thread_matches f _ = False"

definition upload_inv :: "i64 \<Rightarrow> UploadWorld \<Rightarrow> bool" where
  "upload_inv firstId w \<longleftrightarrow>
    (let f = lwFlight w; r = flReading f in
     0 < firstId \<and> firstId \<le> flNextId f \<and> thread_matches f (lwThreads w) \<and>
     (\<not> flCalling f \<longrightarrow> flKept f = []) \<and>
     (if rdState r = Flight_None then rdId r = 0 \<and> flNextId f = firstId else rdId r = flNextId f - 1 \<and> firstId < flNextId f) \<and>
     map fst (lwOutcomes w) =
       rev [firstId .. (if rdState r = Running then flNextId f - 2 else flNextId f - 1)])"


lemma upto_snoc: "a \<le> (b::int) \<Longrightarrow> rev [a..b] = b # rev [a..b - 1]"
  by (simp add: upto_rec2)

lemma inv_outcome:
  assumes "upload_inv k w" and "rdState (flReading (lwFlight w)) = Running" and "IsFinished state"
  shows "upload_inv k (w\<lparr>lwFlight := (lwFlight w)\<lparr>flReading := (flReading (lwFlight w))\<lparr>rdState := state\<rparr>, flNotifying := n\<rparr>,
    lwOutcomes := (rdId (flReading (lwFlight w)), state) # lwOutcomes w\<rparr>)"
proof -
  have m: "thread_matches ((lwFlight w)\<lparr>flReading := r, flNotifying := n\<rparr>) ts = thread_matches (lwFlight w) ts" for r ts
    by (induction "lwFlight w" ts rule: thread_matches.induct) simp_all
  show ?thesis
    using assms by (auto simp: upload_inv_def Let_def m IsFinished_def upto_snoc)
qed

lemma flight_same [simp]: "f\<lparr>flReading := r, flNotifying := flNotifying f\<rparr> = f\<lparr>flReading := r\<rparr>"
  by (cases f) simp

lemma inv_expire: "upload_inv k w \<Longrightarrow> upload_inv k (expire now w)"
  using inv_outcome [of k w Flight_Failed "flNotifying (lwFlight w)"]
  by (auto simp: expire_def note_outcome_def ExpireSilentWithLock_def Let_def IsFinished_def)

lemma inv_finish:
  assumes inv: "upload_inv k w" and i: "i \<noteq> 0"
  shows "upload_inv k (note_outcome (lwFlight w) (w\<lparr>lwFlight := snd (Finish i state (lwFlight w))\<rparr>))"
proof (cases "rdId (flReading (lwFlight w)) \<noteq> i \<or> IsFinished (rdState (flReading (lwFlight w))) \<or> \<not> IsFinished state")
  case True
  with inv show ?thesis by (auto simp: Finish_def note_outcome_def Let_def IsFinished_def)
next
  case False
  with inv i have r: "rdState (flReading (lwFlight w)) = Running"
    by (cases "rdState (flReading (lwFlight w))") (auto simp: upload_inv_def Let_def IsFinished_def)
  show ?thesis
    using False r inv_outcome [OF inv r, of state "flNotifying (lwFlight w)"]
      inv_outcome [OF inv r, of state "flNotifying (lwFlight w) + 1"]
    by (auto simp: Finish_def note_outcome_def Let_def)
qed

text \<open>Admission: the flight is idle, so no thread is alive and the last upload has its outcome.\<close>

lemma begin_idle:
  assumes inv: "upload_inv k w" and b: "Begin carrier now (lwFlight w) = (i, f)" and i: "i \<noteq> 0"
    and e: "ExpireSilentWithLock now (lwFlight w) = lwFlight w"
  shows "\<not> BusyWithLock (lwFlight w)" and "lwThreads w = []" and "i = flNextId (lwFlight w)"
    and "f = (lwFlight w)\<lparr>flNextId := i + 1, flSince := now, flReading := \<lparr>rdId = i, rdState = Running, rdCarrier = carrier\<rparr>\<rparr>"
proof -
  from b e i show idle: "\<not> BusyWithLock (lwFlight w)" and "i = flNextId (lwFlight w)"
    and "f = (lwFlight w)\<lparr>flNextId := i + 1, flSince := now, flReading := \<lparr>rdId = i, rdState = Running, rdCarrier = carrier\<rparr>\<rparr>"
    by (auto simp: Begin_def Let_def split: if_splits)
  from inv have "thread_matches (lwFlight w) (lwThreads w)" by (simp add: upload_inv_def Let_def)
  with idle show "lwThreads w = []"
    by (cases "(lwFlight w, lwThreads w)" rule: thread_matches.cases) (auto simp: BusyWithLock_def)
qed

lemma expire_twice: "ExpireSilentWithLock now (lwFlight (expire now w)) = lwFlight (expire now w)"
  by (auto simp: expire_def note_outcome_def ExpireSilentWithLock_def Let_def)

lemma inv_begun:
  assumes inv: "upload_inv k w" and idle: "\<not> BusyWithLock (lwFlight w)" and t: "lwThreads w = []"
  shows "upload_inv k (w\<lparr>lwFlight := (lwFlight w)\<lparr>flNextId := flNextId (lwFlight w) + 1, flSince := now,
    flReading := \<lparr>rdId = flNextId (lwFlight w), rdState = Running, rdCarrier = carrier\<rparr>\<rparr>\<rparr>)"
  using assms by (auto simp: upload_inv_def Let_def BusyWithLock_def)

lemma inv_run:
  assumes "upload_inv k w" and "lwThreads w = []"
  shows "upload_inv k (w\<lparr>lwFlight := Run i handle (lwFlight w), lwThreads := [InCall i]\<rparr>)"
  using assms by (auto simp: upload_inv_def Let_def Run_def)

lemma begin_refused: "ExpireSilentWithLock now f = f \<Longrightarrow> Begin carrier now f = (0, g) \<Longrightarrow> flNextId f \<noteq> 0 \<Longrightarrow> g = f"
  by (auto simp: Begin_def Let_def split: if_splits)

definition report_named :: "UploadWorld \<Rightarrow> UploadEvent \<Rightarrow> bool" where
  "report_named w ev = (case ev of Report i _ \<Rightarrow> i \<noteq> 0 | _ \<Rightarrow> True)"

lemma inv_thread_steps:
  assumes inv: "upload_inv k w"
  shows "upload_inv k (upload_step w CallReturns)" and "upload_inv k (upload_step w LetGo)"
    and "upload_inv k (upload_step w (TearDown handle device))"
proof -
  have m: "thread_matches (lwFlight w) (lwThreads w)" using inv by (simp add: upload_inv_def Let_def)
  show "upload_inv k (upload_step w CallReturns)" "upload_inv k (upload_step w LetGo)"
    using inv m by (cases "(lwFlight w, lwThreads w)" rule: thread_matches.cases;
        auto simp: upload_inv_def Let_def FlightReturned_def FlightReleased_def)+
  have keep: "thread_matches (f\<lparr>flKept := ds\<rparr>) ts = thread_matches f ts" for f ds ts
    by (induction f ts rule: thread_matches.induct) simp_all
  show "upload_inv k (upload_step w (TearDown handle device))"
    using inv by (auto simp: KeepUntilReturned_def upload_inv_def Let_def keep)
qed

lemma inv_begin_step:
  assumes inv: "upload_inv k w" and e: "ExpireSilentWithLock now (lwFlight w) = lwFlight w"
    and b: "Begin carrier now (lwFlight w) = (i, f)"
  shows "i = 0 \<Longrightarrow> f = lwFlight w"
    and "i \<noteq> 0 \<Longrightarrow> upload_inv k (w\<lparr>lwFlight := f\<rparr>) \<and> lwThreads w = [] \<and> rdId (flReading f) = i"
proof -
  from inv have "flNextId (lwFlight w) \<noteq> 0" by (auto simp: upload_inv_def Let_def)
  with begin_refused [OF e] b show "i = 0 \<Longrightarrow> f = lwFlight w" by simp
  assume i: "i \<noteq> 0"
  note idle = begin_idle [OF inv b i e]
  show "upload_inv k (w\<lparr>lwFlight := f\<rparr>) \<and> lwThreads w = [] \<and> rdId (flReading f) = i"
    using inv_begun [OF inv idle(1,2), where now = now and carrier = carrier] idle by simp
qed

lemma inv_admit: "upload_inv k w \<Longrightarrow> upload_inv k (upload_step w (Admit carrier handle now))"
proof -
  assume "upload_inv k w"
  then have inv: "upload_inv k (expire now w)" by (rule inv_expire)
  obtain i f where b: "Begin carrier now (lwFlight (expire now w)) = (i, f)" by fastforce
  note s = inv_begin_step [OF inv expire_twice b]
  show ?thesis
  proof (cases "i = 0")
    case True
    with s(1) b inv show ?thesis by simp
  next
    case False
    from s(2) [OF this] have "upload_inv k ((expire now w)\<lparr>lwFlight := f\<rparr>)" "lwThreads (expire now w) = []" by simp_all
    with inv_run [of k "(expire now w)\<lparr>lwFlight := f\<rparr>" i handle] b False show ?thesis by simp
  qed
qed

lemma inv_refuse: "upload_inv k w \<Longrightarrow> upload_inv k (upload_step w (Refuse carrier now))"
proof -
  assume "upload_inv k w"
  then have inv: "upload_inv k (expire now w)" by (rule inv_expire)
  obtain i f where b: "Begin carrier now (lwFlight (expire now w)) = (i, f)" by fastforce
  note s = inv_begin_step [OF inv expire_twice b]
  show ?thesis
  proof (cases "i = 0")
    case True
    with s(1) b inv show ?thesis by simp
  next
    case False
    with s(2) inv_finish [of k "(expire now w)\<lparr>lwFlight := f\<rparr>" i Flight_Failed] b show ?thesis by simp
  qed
qed

lemma inv_report: "upload_inv k w \<Longrightarrow> i \<noteq> 0 \<Longrightarrow> upload_inv k (upload_step w (Report i state))"
  by (simp add: inv_finish)

lemma inv_poll: "upload_inv k w \<Longrightarrow> upload_inv k (upload_step w (Poll now))"
  by (simp add: inv_expire)

lemmas upload_steps = inv_admit inv_refuse inv_thread_steps inv_report inv_poll

interpretation uploads: observer upload_step "upload_inv k" report_named for k
proof
  fix w ev assume "upload_inv k w" "report_named w ev"
  then show "upload_inv k (upload_step w ev)"
    by (cases ev) (simp_all add: upload_steps report_named_def del: upload_step.simps)
qed

lemma new_upload_inv: "0 < k \<Longrightarrow> upload_inv k (NewUploadWorld k)"
  by (simp add: upload_inv_def NewUploadWorld_def NewFlight_def Let_def)

lemma named_run: "list_all (report_named w) evs \<Longrightarrow> uploads.admissible_run w' evs"
  by (induction evs arbitrary: w') (simp_all add: report_named_def)

text \<open>The upload's thread is inside the call and the device is kept for it.\<close>

definition on_call :: "i64 \<Rightarrow> nat \<Rightarrow> UploadWorld \<Rightarrow> bool" where
  "on_call i d w \<longleftrightarrow> flCalling (lwFlight w) \<and> d \<in> set (flKept (lwFlight w)) \<and> lwThreads w = [InCall i] \<and>
    flCallingId (lwFlight w) = i"

lemma kept_stays:
  assumes "ev \<noteq> CallReturns" and w: "on_call i d w"
  shows "on_call i d (upload_step w ev)"
proof -
  have e: "flCalling (lwFlight (expire now w))" "flKept (lwFlight (expire now w)) = flKept (lwFlight w)"
    "lwThreads (expire now w) = lwThreads w" "flCallingId (lwFlight (expire now w)) = flCallingId (lwFlight w)" for now
    using w by (simp_all add: on_call_def expire_def note_outcome_def ExpireSilentWithLock_def Let_def)
  have busy: "Begin carrier now (lwFlight (expire now w)) = (0, lwFlight (expire now w))" for carrier now
    using e(1) [of now] by (simp add: Begin_def expire_twice BusyWithLock_def)
  show ?thesis
    using assms e busy unfolding on_call_def
    by (cases ev) (auto simp: Let_def Finish_def note_outcome_def KeepUntilReturned_def split: if_splits)
qed

interpretation holding: observer upload_step "on_call i d" "\<lambda>_ ev. ev \<noteq> CallReturns" for i d
  by unfold_locales (rule kept_stays)

lemma before_return: "CallReturns \<notin> set evs \<Longrightarrow> holding.admissible_run w evs"
  by (induction evs arbitrary: w) auto

section \<open>Properties\<close>

text \<open>
  Over every run of requests, callbacks, teardowns and status reads, uploads are numbered from the
  flight's first number without gap or repeat, exactly the ones that are over have an outcome, exactly
  one each whatever reports arrive and however late, and at most one thread is inside the SDK's call
  or letting devices go.
\<close>

theorem upload_one_outcome:
  assumes "0 < firstId" and "list_all (report_named (NewUploadWorld firstId)) evs"
    and "run upload_step (NewUploadWorld firstId) evs = w"
  shows "length (lwThreads w) \<le> 1 \<and>
    map fst (lwOutcomes w) = rev [firstId ..
      (if rdState (flReading (lwFlight w)) = Running then flNextId (lwFlight w) - 2 else flNextId (lwFlight w) - 1)] \<and>
    distinct (map fst (lwOutcomes w))"
proof -
  have inv: "upload_inv firstId w"
    using uploads.run_good [OF new_upload_inv [OF assms(1)] named_run [OF assms(2)]] assms(3) by simp
  then have "thread_matches (lwFlight w) (lwThreads w)" by (simp add: upload_inv_def Let_def)
  then have "length (lwThreads w) \<le> 1"
    by (cases "(lwFlight w, lwThreads w)" rule: thread_matches.cases) auto
  with inv show ?thesis by (simp add: upload_inv_def Let_def)
qed

theorem upload_one_outcome_witness:
  "let w = run upload_step (NewUploadWorld 7)
     [Admit Carrier_Tunnel 3 0, Report 7 Uploaded, Report 7 Flight_Failed, CallReturns, LetGo, Admit Standalone 4 10]
   in map fst (lwOutcomes w) = [7] \<and> rdState (flReading (lwFlight w)) = Running"
  (is "let w = run upload_step ?w0 ?evs in _")
proof -
  have "list_all (report_named (NewUploadWorld 7)) ?evs" by (simp add: report_named_def)
  note t = upload_one_outcome [OF _ this refl]
  have "rdState (flReading (lwFlight (run upload_step ?w0 ?evs))) = Running \<and>
      flNextId (lwFlight (run upload_step ?w0 ?evs)) = 9" by code_simp
  with t show ?thesis by (simp add: Let_def)
qed

text \<open>
  A device is never released under the SDK's call that is using it: a teardown of the device an upload's call is
  on releases nothing, and whatever happens before the call returns, the device stays kept; when the
  call returns the device is handed to the upload's thread, which is the one that releases it.
\<close>

theorem device_outlives_call:
  assumes "upload_inv firstId w" and "flCalling (lwFlight w)" and "flCallingDevice (lwFlight w) = handle" and "handle \<noteq> 0"
    and "CallReturns \<notin> set evs" and "run upload_step (upload_step w (TearDown handle device)) evs = w'"
  shows "lwGone (upload_step w (TearDown handle device)) = lwGone w \<and> device \<in> set (flKept (lwFlight w')) \<and>
    (\<exists>i devices. lwThreads (upload_step w' CallReturns) = [LettingGo i devices] \<and> device \<in> set devices \<and>
      device \<in> set (lwGone (upload_step (upload_step w' CallReturns) LetGo)))"
proof -
  let ?w1 = "upload_step w (TearDown handle device)"
  from assms(1,2) obtain i where t: "lwThreads w = [InCall i]" "flCallingId (lwFlight w) = i"
    by (cases "(lwFlight w, lwThreads w)" rule: thread_matches.cases) (auto simp: upload_inv_def Let_def)
  have g: "lwGone ?w1 = lwGone w" and c: "on_call i device ?w1"
    using assms(2-4) t by (simp_all add: KeepUntilReturned_def on_call_def)
  from holding.run_good [OF c before_return [OF assms(5)]] have "on_call i device w'" unfolding assms(6) .
  with g show ?thesis by (auto simp: on_call_def FlightReturned_def)
qed

theorem device_outlives_call_witness:
  "let w = run upload_step (NewUploadWorld 7) [Admit Carrier_Tunnel 3 0]; v = upload_step w (TearDown 3 55)
   in lwGone v = [] \<and> 55 \<in> set (lwGone (upload_step (upload_step (run upload_step v [Report 7 Uploaded, Poll 5]) CallReturns) LetGo))"
proof -
  let ?w = "run upload_step (NewUploadWorld 7) [Admit Carrier_Tunnel 3 0]"
  have "upload_inv 7 ?w" by (simp add: inv_admit new_upload_inv del: upload_step.simps)
  moreover have "flCalling (lwFlight ?w) \<and> flCallingDevice (lwFlight ?w) = 3 \<and> lwGone ?w = []" by code_simp
  ultimately show ?thesis
    using device_outlives_call [of 7 ?w 3 "[Report 7 Uploaded, Poll 5]" 55, OF _ _ _ _ _ refl] by (auto simp: Let_def simp del: upload_step.simps)
qed

text \<open>
  No upload keeps every later one out: once the upload's thread is done, a request is admitted
  as soon as the upload has an outcome, and at the latest when the silent bound has passed since it was
  admitted, whether or not the SDK ever reports.
\<close>

theorem upload_never_stuck:
  assumes "upload_inv firstId w" and "lwThreads w = []"
    and "IsFinished (rdState (flReading (lwFlight w))) \<or> flSince (lwFlight w) + kSilentUploadMaxMillis \<le> now"
  shows "fst (Begin carrier now (lwFlight w)) = flNextId (lwFlight w) \<and> flNextId (lwFlight w) \<noteq> 0"
proof -
  have "\<not> flCalling (lwFlight w)" "\<not> flReleasing (lwFlight w)" "flNextId (lwFlight w) \<noteq> 0"
    using assms(1,2) by (auto simp: upload_inv_def Let_def)
  then show ?thesis using assms(3)
    by (auto simp: Begin_def Let_def BusyWithLock_def ExpireSilentWithLock_def IsFinished_def)
qed

theorem upload_never_stuck_witness:
  "let w = run upload_step (NewUploadWorld 7) [Admit Carrier_Tunnel 3 0, CallReturns, LetGo]
   in fst (Begin Standalone 1800000 (lwFlight w)) = 8"
proof -
  let ?w = "run upload_step (NewUploadWorld 7) [Admit Carrier_Tunnel 3 0, CallReturns, LetGo]"
  have "upload_inv 7 ?w" by (simp add: inv_admit inv_thread_steps new_upload_inv del: upload_step.simps)
  moreover have "lwThreads ?w = [] \<and> flSince (lwFlight ?w) + kSilentUploadMaxMillis \<le> 1800000 \<and> flNextId (lwFlight ?w) = 8"
    by code_simp
  ultimately show ?thesis using upload_never_stuck [of 7 ?w 1800000 Standalone] by (simp add: Let_def del: upload_step.simps)
qed

end
