(* ===== verification/WintunError.thy ===== *)
theory WintunError
  imports Prelude
begin

text \<open>
  The wording of a wintun failure (\<^verbatim>\<open>Service/WintunError.h\<close>): the Windows error code in decimal and in
  hexadecimal, with a cause for the codes whose meaning is unambiguous. These texts reach the user as
  the error of a start, so the code has to survive in them.
\<close>

definition kAccessDenied :: u32 where "kAccessDenied = 5"
definition kModNotFound :: u32 where "kModNotFound = 126"
definition kProcNotFound :: u32 where "kProcNotFound = 127"
definition kBadExeFormat :: u32 where "kBadExeFormat = 193"
definition kInvalidImageHash :: u32 where "kInvalidImageHash = 577"
definition kDriverBlocked :: u32 where "kDriverBlocked = 1275"

definition hex_char :: "nat \<Rightarrow> char" where
  "hex_char d = (if d < 10 then digit_char d else char_of (55 + d))"

fun show_hex :: "nat \<Rightarrow> string" where
  "show_hex n = (if n < 16 then [hex_char n] else show_hex (n div 16) @ [hex_char (n mod 16)])"

declare show_hex.simps [simp del]

definition CodeText :: "u32 \<Rightarrow> string" where
  "CodeText code = ''Windows error '' @ show_nat (unat code) @ '' (0x'' @ show_hex (unat code) @ '')''"

definition load_cause :: "u32 \<Rightarrow> string" where
  "load_cause code =
    (if code = kModNotFound
     then ''wintun.dll is missing next to urnetworkd.exe; reinstall URnetwork, and check whether antivirus quarantined it''
     else if code = kProcNotFound then ''wintun.dll is not the expected Wintun build; reinstall URnetwork''
     else if code = kBadExeFormat
     then ''wintun.dll is for a different CPU architecture; install the URnetwork build for this PC''
     else ''is it next to urnetworkd.exe?'')"

definition LoadFailure :: "u32 \<Rightarrow> string" where
  "LoadFailure code = ''failed to load wintun.dll: '' @ CodeText code @ '' - '' @ load_cause code"

definition adapter_cause :: "u32 \<Rightarrow> string" where
  "adapter_cause code =
    (if code = kAccessDenied
     then ''access denied; the tunnel must run in the URnetwork service (LocalSystem) or an elevated console''
     else if code = kInvalidImageHash
     then ''Windows rejected the wintun driver's signature; check the driver blocklist, Memory integrity, or antivirus''
     else if code = kDriverBlocked then ''Windows or security software blocked the wintun driver''
     else ''it needs the URnetwork service (LocalSystem) or administrator rights and a wintun driver Windows will load; the service log has wintun's own messages'')"

definition AdapterFailure :: "u32 \<Rightarrow> string" where
  "AdapterFailure code = ''failed to create the wintun adapter: '' @ CodeText code @ '' - '' @ adapter_cause code"

section \<open>The code survives\<close>

text \<open>What a reader does: skip the fixed words and read the decimal digits.\<close>

definition code_read :: "nat \<Rightarrow> string \<Rightarrow> nat" where
  "code_read n s = dec_value (takeWhile IsDigit (drop n s))"

lemma code_read_text: "length pre = n \<Longrightarrow> code_read (n + 14) (pre @ CodeText code @ rest) = unat code"
  using takeWhile_digits_append [OF show_nat_digits, of "'' (0x'' @ show_hex (unat code) @ '')'' @ rest" "unat code"]
  by (simp add: code_read_def CodeText_def IsDigit_def)

lemma failures_name_their_code:
  "code_read 41 (LoadFailure code) = unat code"
  "code_read 51 (AdapterFailure code) = unat code"
  using code_read_text [of "''failed to load wintun.dll: ''" 27 code "'' - '' @ load_cause code"]
    code_read_text [of "''failed to create the wintun adapter: ''" 37 code "'' - '' @ adapter_cause code"]
  by (simp_all add: LoadFailure_def AdapterFailure_def)

lemma failures_tell_codes_apart:
  "LoadFailure a = LoadFailure b \<longleftrightarrow> a = b" "AdapterFailure a = AdapterFailure b \<longleftrightarrow> a = b"
  by (metis failures_name_their_code word_unat_eq_iff)+

end
