(* ===== verification/TunnelController.thy ===== *)
theory TunnelController
  imports WfpPolicy NetworkConfig Capture DeadTunnel StopBudget LogUpload NetworkCountry ProvideLifecycle Protocol WintunError
begin

text \<open>
  The tunnel controller of the service (\<^verbatim>\<open>Service/TunnelController.cpp\<close>): the object that owns the
  session, the firewall policy, the routes and the provider-only device, and the operations the
  control pipe, the watchdogs and the service control manager call on it.

  Every operation that takes the session lock is one function from state to state. The paths
  that run without the lock because it could not be had in time are operations of their own
  (\<open>locked\<close> false). What the machine and the SDK answer while an operation runs are fields of
  \<open>Outside\<close>; calls that change the machine or can block are recorded in \<open>tcCalls\<close>, the latest
  first. SDK objects are numbers, so that one device can be followed through its roles. Log
  texts, the window trace, the flow-owner lookup and the device statistics are left out.
\<close>

section \<open>Data\<close>

definition kStopAfterMinStep :: int where "kStopAfterMinStep = 1"
definition kStopAfterMaxStep :: int where "kStopAfterMaxStep = 8"
definition kRpcOnlyCeilingStep :: int where "kRpcOnlyCeilingStep = 5"

definition ClampStopAfterStep :: "int \<Rightarrow> int" where
  "ClampStopAfterStep step =
    (if step < kStopAfterMinStep then kStopAfterMinStep
     else if step > kStopAfterMaxStep then kStopAfterMaxStep else step)"

definition EffectiveStopStep :: "int \<Rightarrow> bool \<Rightarrow> int" where
  "EffectiveStopStep stopAfterStep rpcOnly =
    (let limit = (if rpcOnly then kRpcOnlyCeilingStep else kStopAfterMaxStep)
     in if stopAfterStep \<le> 0 then limit
        else let requested = ClampStopAfterStep stopAfterStep
             in if requested < limit then requested else limit)"

text \<open>The owner of the routes and the DNS settings, with what its \<open>Apply\<close> reached.\<close>

record NetOwner =
  DnsApplied :: bool
  AppliedIpv6 :: bool

text \<open>A request to provide: the identity \<open>IdentityOf\<close> reads off it, the mode and the transport policy.\<close>

record StartProvider =
  spIdentity :: DeviceIdentity
  spProvideMode :: string
  spTransport :: string
  spCountry :: "string \<times> string"

definition NoProviderRequest :: StartProvider where
  "NoProviderRequest = \<lparr>spIdentity = \<lparr>jwtSubject = '''', networkSpaceJson = '''', instanceId = '''',
    deviceDescription = '''', deviceSpec = '''', appVersion = ''''\<rparr>, spProvideMode = '''', spTransport = '''',
    spCountry = ('''', '''')\<rparr>"

record StartTunnel =
  stIdentity :: DeviceIdentity
  stMode :: StartMode
  stKillSwitch :: bool
  stRpcHostPort :: string
  stRpcSessionId :: string
  stExcluded :: "string list"
  stAllowlist :: bool
  stCountry :: "string \<times> string"

record TunnelStatus =
  tsState :: TunnelState
  tsMode :: StartMode
  tsRoutes :: bool
  tsDns :: bool
  tsWfp :: string
  tsRpcHostPort :: string
  tsInstanceId :: string
  tsRpcSessionId :: string
  tsError :: string
  tsUpMillis :: i64
  tsEgress :: "i64 \<times> i64"
  tsProviderRunning :: bool
  tsProviderControlMode :: string
  tsProviderTier :: i64
  tsProviderKey :: bool
  tsStopReason :: string
  tsFailsafeArmed :: bool

definition InitStatus :: TunnelStatus where
  "InitStatus = \<lparr>tsState = Stopped, tsMode = Mode_Tunnel, tsRoutes = False, tsDns = False, tsWfp = ''off'',
    tsRpcHostPort = '''', tsInstanceId = '''', tsRpcSessionId = '''', tsError = '''', tsUpMillis = 0,
    tsEgress = (0, 0), tsProviderRunning = False, tsProviderControlMode = '''', tsProviderTier = 0,
    tsProviderKey = False, tsStopReason = '''', tsFailsafeArmed = False\<rparr>"

datatype Call =
    NetApply
  | NetRevert
  | CrashRevert
  | FlushResolverCache
  | SdkTeardown gate
  | ProviderTeardown gate
  | HandedOffTeardown gate
  | LogUploadTeardown gate
  | PushRules "string list" bool
  | ClearIdentityFiles

datatype Watch = Watch_None | Watch_RpcOnly | Watch_Capture | Watch_Tunnel

record 'e Controller =
  tcState :: TunnelState
  tcMode :: StartMode
  tcRpcOnlyClamp :: bool
  tcStopAfterStep :: int
  tcKillSwitch :: bool
  tcWfp :: WfpPolicy
  tcEngine :: 'e
  tcConnectingWatch :: bool
  tcWintun :: bool
  tcAdapter :: "u64 option"
  tcEgress :: "(i64 \<times> i64) option"
  tcSpace :: "nat option"
  tcDevice :: "nat option"
  tcPump :: bool
  tcSplit :: bool
  tcNetConfig :: "NetOwner option"
  tcResolversV4 :: "string list"
  tcResolversV6 :: "string list"
  tcRpcHostPort :: string
  tcInstanceId :: string
  tcRpcSessionId :: string
  tcError :: string
  tcStopReason :: string
  tcUpSince :: i64
  tcUpSinceMirror :: i64
  tcLiveEgress :: "i64 \<times> i64"
  tcMirror :: TunnelStatus
  tcReadiness :: CaptureReadiness
  tcSession :: nat
  tcStopGeneration :: u64
  tcWatch :: Watch
  tcProviderDevice :: "nat option"
  tcProviderSpace :: "nat option"
  tcProviderEgress :: bool
  tcProviderRequest :: StartProvider
  tcProviderTier :: i64
  tcProviderKey :: bool
  tcSessionIdentity :: StartProvider
  tcHandedDevice :: "nat option"
  tcHandedSpace :: "nat option"
  tcLogUpload :: "nat option"
  tcLastSpace :: bool
  tcCountry :: "NetworkCountry.Reading option"
  tcSdkCountry :: string
  tcExcluded :: "string list"
  tcAllowlist :: bool
  tcMarker :: bool
  tcStops :: StopState
  tcNextGate :: gate
  tcCalls :: "Call list"

text \<open>
  The adapter settings a capture prepares, and the answers an operation gets. \<open>Inl\<close> and \<open>None\<close>
  where the source throws or fails; the string is what the exception says. A bounded worker
  finishes inside its budget according to its gate, so two workers of one operation are independent.
\<close>

record ('e, 'b) Outside =
  oApi :: "('e, 'b) Fwpm"
  oInet4 :: "string \<Rightarrow> u32 option"
  oInet6 :: "string \<Rightarrow> 8 word list option"
  oServiceImage :: string
  oAppImage :: string
  oHostResolvers :: "u64 \<Rightarrow> string list"
  oNow :: i64
  oGateDone :: "gate \<Rightarrow> bool"
  oFinishes :: "gate \<Rightarrow> bool"
  oSelfRestart :: "(string \<Rightarrow> bool) option"
  oStopDuring :: bool
  oWintunLoad :: "u32 option"
  oAdapter :: "u32 + u64"
  oEgress :: "i64 \<times> i64"
  oImport :: "string + nat"
  oSpaceKey :: bool
  oNewDevice :: "string + nat"
  oRpcServer :: "string option"
  oPrepare :: "bool"
  oLocalV4 :: string
  oDnsV4 :: "string list option"
  oDefaultDnsV4 :: string
  oLocalV6 :: string
  oPrefixV6 :: i64
  oDnsV6 :: "string list option"
  oDefaultDnsV6 :: string
  oSplitOpen :: bool
  oPumpStarts :: bool
  oDiscoverEgress :: "i64 \<times> i64"
  oNetApply :: "bool \<times> NetOwner"
  oModeAtStop :: "string option"
  oModeAtResume :: "string option"
  oSessionCleared :: bool
  oProviderEgress :: bool
  oTransportTaken :: bool
  oModeTaken :: bool
  oTier :: i64
  oNetworkKey :: bool
  oIdentityCleared :: bool
  oFailsafeArmed :: bool

section \<open>The status, published and served\<close>

definition ComposeStatusLocked :: "('e, 'b) Outside \<Rightarrow> 'e Controller \<Rightarrow> TunnelStatus" where
  "ComposeStatusLocked out c =
    \<lparr>tsState = tcState c, tsMode = tcMode c, tsRoutes = (tcNetConfig c \<noteq> None),
     tsDns = (case tcNetConfig c of None \<Rightarrow> False | Some n \<Rightarrow> DnsApplied n),
     tsWfp = WfpStateToString (pState (tcWfp c)), tsRpcHostPort = tcRpcHostPort c,
     tsInstanceId = tcInstanceId c, tsRpcSessionId = tcRpcSessionId c, tsError = tcError c,
     tsUpMillis = (if tcUpSince c \<noteq> 0 then oNow out - tcUpSince c else 0),
     tsEgress = (case tcEgress c of Some bound \<Rightarrow> if tcNetConfig c \<noteq> None then bound else (0, 0) | None \<Rightarrow> (0, 0)),
     tsProviderRunning = (tcProviderDevice c \<noteq> None),
     tsProviderControlMode = (if tcProviderDevice c \<noteq> None then spProvideMode (tcProviderRequest c) else ''''),
     tsProviderTier = (if tcProviderDevice c \<noteq> None then tcProviderTier c else 0),
     tsProviderKey = (tcProviderDevice c \<noteq> None \<and> tcProviderKey c),
     tsStopReason = '''', tsFailsafeArmed = False\<rparr>"

definition StatusLocked :: "('e, 'b) Outside \<Rightarrow> 'e Controller \<Rightarrow> 'e Controller" where
  "StatusLocked out c = c\<lparr>tcUpSinceMirror := tcUpSince c, tcMirror := ComposeStatusLocked out c\<rparr>"

definition Status :: "('e, 'b) Outside \<Rightarrow> 'e Controller \<Rightarrow> TunnelStatus" where
  "Status out c =
    (let s = (tcMirror c)\<lparr>tsStopReason := tcStopReason c, tsFailsafeArmed := oFailsafeArmed out\<rparr>;
         s1 = (if tsRoutes s then s\<lparr>tsEgress := tcLiveEgress c\<rparr> else s)
     in s1\<lparr>tsUpMillis := (if tcUpSinceMirror c \<noteq> 0 then oNow out - tcUpSinceMirror c else 0)\<rparr>)"

definition RepublishMachineFactsLockFree :: "bool \<Rightarrow> 'e Controller \<Rightarrow> 'e Controller" where
  "RepublishMachineFactsLockFree routesReverted c =
    (let m = (tcMirror c)\<lparr>tsWfp := WfpStateToString (pState (tcWfp c))\<rparr>
     in c\<lparr>tcMirror :=
          (if routesReverted then m\<lparr>tsRoutes := False, tsDns := False, tsEgress := (0, 0)\<rparr> else m)\<rparr>)"

definition SetStateLocked :: "('e, 'b) Outside \<Rightarrow> TunnelState \<Rightarrow> 'e Controller \<Rightarrow> 'e Controller" where
  "SetStateLocked out st c = StatusLocked out (c\<lparr>tcState := st\<rparr>)"

definition SetActiveMarker :: "bool \<Rightarrow> 'e Controller \<Rightarrow> 'e Controller" where
  "SetActiveMarker active c = c\<lparr>tcMarker := active\<rparr>"

definition TakeActiveMarker :: "'e Controller \<Rightarrow> bool \<times> 'e Controller" where
  "TakeActiveMarker c = (tcMarker c, c\<lparr>tcMarker := False\<rparr>)"

definition call :: "Call \<Rightarrow> 'e Controller \<Rightarrow> 'e Controller" where
  "call x c = c\<lparr>tcCalls := x # tcCalls c\<rparr>"

text \<open>A bounded worker that takes SDK objects with it, under a gate of its own.\<close>

definition run_worker :: "('e, 'b) Outside \<Rightarrow> (gate \<Rightarrow> Call) \<Rightarrow> 'e Controller \<Rightarrow> bool \<times> 'e Controller" where
  "run_worker out what c =
    (case RunBounded (tcStops c) HoldsSessionDevice (tcNextGate c) (oFinishes out (tcNextGate c)) of
       (stops, finished) \<Rightarrow>
         (finished, call (what (tcNextGate c)) (c\<lparr>tcStops := stops, tcNextGate := Suc (tcNextGate c)\<rparr>)))"

section \<open>The firewall transitions\<close>

definition BaseWfpConfig :: "('e, 'b) Outside \<Rightarrow> WfpConfig" where
  "BaseWfpConfig out =
    \<lparr>tun_luid = 0, tunnel_resolvers_v4 = [], tunnel_resolvers_v6 = [], tunnel_ipv6 = False,
     host_resolvers_v4 = [], allow_lan = True, block_ipv6_when_disconnected = True,
     block_local_name_resolution = True,
     service_image_path = oServiceImage out, app_image_path = oAppImage out\<rparr>"

definition transition_config :: "('e, 'b) Outside \<Rightarrow> WfpState \<Rightarrow> 'e Controller \<Rightarrow> WfpConfig" where
  "transition_config out state c =
    (let v6 = (state = Wfp_Connected \<and> (case tcNetConfig c of None \<Rightarrow> False | Some n \<Rightarrow> AppliedIpv6 n))
     in (BaseWfpConfig out)
       \<lparr>tun_luid := (if state = Wfp_Connected then (case tcAdapter c of Some luid \<Rightarrow> luid | None \<Rightarrow> 0) else 0),
        tunnel_resolvers_v4 := (if state = Wfp_Connected then tcResolversV4 c else []),
        tunnel_ipv6 := v6,
        tunnel_resolvers_v6 := (if v6 then tcResolversV6 c else []),
        host_resolvers_v4 :=
          (if state = Wfp_Connecting
           then oHostResolvers out (case tcAdapter c of Some luid \<Rightarrow> luid | None \<Rightarrow> 0) else [])\<rparr>)"

definition wfp_apply :: "('e, 'b) Outside \<Rightarrow> WfpState \<Rightarrow> WfpConfig \<Rightarrow> 'e Controller \<Rightarrow> bool \<times> 'e Controller" where
  "wfp_apply out state cfg c =
    (case ApplyLocked (oApi out) (oInet4 out) (oInet6 out) state cfg (tcWfp c) (tcEngine c) of
       (ok, w, e, _) \<Rightarrow> (ok, c\<lparr>tcWfp := w, tcEngine := e\<rparr>))"

definition wfp_revert :: "('e, 'b) Outside \<Rightarrow> 'e Controller \<Rightarrow> 'e Controller" where
  "wfp_revert out c =
    (case RevertLocked (oApi out) (tcWfp c) (tcEngine c) of (w, e) \<Rightarrow> c\<lparr>tcWfp := w, tcEngine := e\<rparr>)"

definition CancelConnectingWatchdogLocked :: "'e Controller \<Rightarrow> 'e Controller" where
  "CancelConnectingWatchdogLocked c = c\<lparr>tcConnectingWatch := False\<rparr>"

definition ArmConnectingWatchdogLocked :: "'e Controller \<Rightarrow> 'e Controller" where
  "ArmConnectingWatchdogLocked c = (CancelConnectingWatchdogLocked c)\<lparr>tcConnectingWatch := True\<rparr>"

definition ApplyWfpLocked :: "('e, 'b) Outside \<Rightarrow> WfpState \<Rightarrow> 'e Controller \<Rightarrow> bool \<times> 'e Controller" where
  "ApplyWfpLocked out state c0 =
    (let c = CancelConnectingWatchdogLocked c0 in
     if state = Wfp_Off then (True, StatusLocked out (wfp_revert out c))
     else
       let cfg = transition_config out state c in
       if service_image_path cfg = '''' then (False, c)
       else case wfp_apply out state cfg c of (ok, c1) \<Rightarrow>
         (ok, if ok \<and> state = Wfp_Connecting then ArmConnectingWatchdogLocked (StatusLocked out c1)
              else StatusLocked out c1))"

text \<open>The window of a connection attempt has run out and no transition came first.\<close>

definition ConnectingWatchdogFires :: "('e, 'b) Outside \<Rightarrow> 'e Controller \<Rightarrow> 'e Controller" where
  "ConnectingWatchdogFires out c =
    (if \<not> tcConnectingWatch c then c
     else RepublishMachineFactsLockFree False
       (snd (wfp_apply out Wfp_Armed (BaseWfpConfig out) (c\<lparr>tcConnectingWatch := False\<rparr>))))"

definition DropFirewallOnEscape :: "('e, 'b) Outside \<Rightarrow> 'e Controller \<Rightarrow> 'e Controller" where
  "DropFirewallOnEscape out c =
    (if tcKillSwitch c then c else if pState (tcWfp c) = Wfp_Off then c else wfp_revert out c)"

section \<open>The provider-only device\<close>

text \<open>
  The network country, kept with the code the SDK was last told, and the import of a network space, which
  leaves the key that a setting without a device is written under.
\<close>

definition SetNetworkCountry :: "string \<Rightarrow> string \<Rightarrow> 'e Controller \<Rightarrow> 'e Controller" where
  "SetNetworkCountry code source c =
    (let reading = Normalized code source
     in if tcCountry c = Some reading then c
        else c\<lparr>tcCountry := Some reading, tcSdkCountry := rdCode reading\<rparr>)"

definition ImportNetworkSpaceLocked :: "('e, 'b) Outside \<Rightarrow> 'e Controller \<Rightarrow> (string + nat) \<times> 'e Controller" where
  "ImportNetworkSpaceLocked out c =
    (case oImport out of Inl what \<Rightarrow> (Inl what, c) | Inr space \<Rightarrow> (Inr space, c\<lparr>tcLastSpace := oSpaceKey out\<rparr>))"

definition clear_provider :: "'e Controller \<Rightarrow> 'e Controller" where
  "clear_provider c =
    c\<lparr>tcProviderEgress := False, tcProviderDevice := None, tcProviderSpace := None,
      tcProviderRequest := NoProviderRequest, tcProviderTier := 0, tcProviderKey := False\<rparr>"

definition RetireProviderDeviceLocked :: "('e, 'b) Outside \<Rightarrow> 'e Controller \<Rightarrow> 'e Controller" where
  "RetireProviderDeviceLocked out c =
    (if tcProviderDevice c = None \<and> tcProviderSpace c = None then c
     else snd (run_worker out ProviderTeardown (StatusLocked out (clear_provider c))))"

definition TakeProviderDeviceLocked :: "('e, 'b) Outside \<Rightarrow> StartTunnel \<Rightarrow> 'e Controller \<Rightarrow> 'e Controller" where
  "TakeProviderDeviceLocked out config c =
    (if \<not> PromotesProviderDevice (tcProviderDevice c \<noteq> None) (spIdentity (tcProviderRequest c)) (stIdentity config)
     then c
     else StatusLocked out
       ((clear_provider c)\<lparr>tcHandedDevice := tcProviderDevice c, tcHandedSpace := tcProviderSpace c\<rparr>))"

definition CloseHandedOffDeviceLocked :: "('e, 'b) Outside \<Rightarrow> 'e Controller \<Rightarrow> 'e Controller" where
  "CloseHandedOffDeviceLocked out c =
    (if tcHandedDevice c = None \<and> tcHandedSpace c = None then c
     else snd (run_worker out HandedOffTeardown (c\<lparr>tcHandedDevice := None, tcHandedSpace := None\<rparr>)))"

text \<open>The standalone device of a log upload, closed like the provider-only one.\<close>

definition RetireLogUploadDeviceLocked :: "('e, 'b) Outside \<Rightarrow> 'e Controller \<Rightarrow> 'e Controller" where
  "RetireLogUploadDeviceLocked out c =
    (if tcLogUpload c = None then c
     else snd (run_worker out LogUploadTeardown (c\<lparr>tcLogUpload := None\<rparr>)))"

definition ReadProviderFactsLocked :: "('e, 'b) Outside \<Rightarrow> 'e Controller \<Rightarrow> 'e Controller" where
  "ReadProviderFactsLocked out c =
    (if tcProviderDevice c = None then c\<lparr>tcProviderTier := 0, tcProviderKey := False\<rparr>
     else c\<lparr>tcProviderTier := oTier out, tcProviderKey := oNetworkKey out\<rparr>)"

definition ResumeProvidingLocked :: "('e, 'b) Outside \<Rightarrow> nat option \<times> nat option \<Rightarrow> 'e Controller \<Rightarrow> 'e Controller" where
  "ResumeProvidingLocked out kept c =
    (let c1 = c\<lparr>tcProviderSpace := snd kept, tcProviderDevice := fst kept\<rparr> in
     if \<not> oProviderEgress out then RetireProviderDeviceLocked out c1
     else StatusLocked out (ReadProviderFactsLocked out
       (c1\<lparr>tcProviderEgress := True,
           tcProviderRequest := (tcSessionIdentity c)
             \<lparr>spProvideMode := (case oModeAtResume out of Some m \<Rightarrow> m | None \<Rightarrow> '''')\<rparr>\<rparr>)))"

section \<open>Stopping\<close>

definition CancelCapture :: "'e Controller \<Rightarrow> 'e Controller" where
  "CancelCapture c = c\<lparr>tcReadiness := Cancel (tcReadiness c)\<rparr>"

definition release_machine :: "('e, 'b) Outside \<Rightarrow> bool \<Rightarrow> 'e Controller \<Rightarrow> 'e Controller" where
  "release_machine out hadRoutes c =
    (let c1 = (if tcNetConfig c \<noteq> None then (call NetRevert c)\<lparr>tcNetConfig := None\<rparr> else c);
         c2 = StatusLocked out (c1\<lparr>tcResolversV4 := [], tcResolversV6 := []\<rparr>);
         c3 = (if hadRoutes then call FlushResolverCache c2 else c2)
     in SetActiveMarker False c3)"

definition settle_policy :: "('e, 'b) Outside \<Rightarrow> bool \<Rightarrow> bool \<Rightarrow> 'e Controller \<Rightarrow> 'e Controller" where
  "settle_policy out finalDisarm hadRoutes c =
    (if finalDisarm then snd (ApplyWfpLocked out Wfp_Off c)
     else if tcKillSwitch c \<and> pState (tcWfp c) \<noteq> Wfp_Off then snd (ApplyWfpLocked out Wfp_Armed c)
     else if tcKillSwitch c \<and> hadRoutes then snd (ApplyWfpLocked out Wfp_Armed c)
     else if pState (tcWfp c) \<noteq> Wfp_Off then snd (ApplyWfpLocked out Wfp_Off c)
     else c)"

definition RevertMachineStateLocked :: "('e, 'b) Outside \<Rightarrow> bool \<Rightarrow> bool \<Rightarrow> 'e Controller \<Rightarrow> 'e Controller" where
  "RevertMachineStateLocked out finalDisarm hadRoutes c =
    settle_policy out finalDisarm hadRoutes (release_machine out hadRoutes c)"

text \<open>
  The session's objects go to a bounded worker. A kept device comes back when the worker took the
  session off it and handed it over before the caller looked (\<open>oSessionCleared\<close>).
\<close>

definition drop_session :: "'e Controller \<Rightarrow> 'e Controller" where
  "drop_session c =
    c\<lparr>tcSplit := False, tcPump := False, tcEgress := None, tcLiveEgress := (0, 0), tcDevice := None,
      tcAdapter := None, tcWintun := False, tcSpace := None\<rparr>"

definition TearDownSessionLocked ::
    "('e, 'b) Outside \<Rightarrow> bool \<Rightarrow> 'e Controller \<Rightarrow> bool \<times> (nat option \<times> nat option) \<times> 'e Controller" where
  "TearDownSessionLocked out keepDevice c =
    (if \<not> tcPump c \<and> tcEgress c = None \<and> tcDevice c = None \<and> tcAdapter c = None \<and> \<not> tcWintun c \<and>
        tcSpace c = None \<and> \<not> tcSplit c
     then (True, (None, None), c)
     else
       let handback = (keepDevice \<and> tcDevice c \<noteq> None);
           kept = (if handback \<and> oSessionCleared out then (tcDevice c, tcSpace c) else (None, None))
       in case run_worker out SdkTeardown (drop_session c) of (finished, c1) \<Rightarrow> (finished, kept, c1))"

definition keep_device :: "('e, 'b) Outside \<Rightarrow> 'e Controller \<Rightarrow> bool \<times> 'e Controller" where
  "keep_device out c =
    (case SweepAbandonedTeardowns (oGateDone out) (tcStops c) of (stops, sweep) \<Rightarrow>
      (KeepsSessionDevice
         \<lparr>ssSessionDevice = True, ssDisconnect = True,
          ssMode = (case oModeAtStop out of Some m \<Rightarrow> ControlModeFrom m | None \<Rightarrow> Control_Unknown),
          ssFirewallInForce = (pState (tcWfp c) \<noteq> Wfp_Off), ssDeviceStillHeld = (outstanding sweep > 0),
          ssRestartPending = selfRestartPending stops\<rparr>,
       c\<lparr>tcStops := stops\<rparr>))"

definition finish_stop :: "('e, 'b) Outside \<Rightarrow> bool \<Rightarrow> 'e Controller \<Rightarrow> 'e Controller" where
  "finish_stop out keepDevice c =
    (case TearDownSessionLocked out keepDevice c of (tornDown, kept, c1) \<Rightarrow>
      let c2 = SetStateLocked out Stopped
            (c1\<lparr>tcRpcHostPort := '''', tcInstanceId := '''', tcRpcSessionId := '''', tcUpSince := 0\<rparr>)
      in (if fst kept \<noteq> None then ResumeProvidingLocked out kept c2 else c2)
           \<lparr>tcSessionIdentity := NoProviderRequest\<rparr>)"

text \<open>The two halves of a stop: the machine first, then the objects.\<close>

definition stop_machine :: "('e, 'b) Outside \<Rightarrow> bool \<Rightarrow> 'e Controller \<Rightarrow> 'e Controller" where
  "stop_machine out finalDisarm c0 =
    (let c1 = CancelCapture c0;
         hadRoutes = (tcNetConfig c1 \<noteq> None);
         c2 = (if IsSessionLive (tcState c1) \<or> tcState c1 = Starting then SetStateLocked out Stopping c1 else c1)
     in RetireLogUploadDeviceLocked out (RetireProviderDeviceLocked out
       (RevertMachineStateLocked out finalDisarm hadRoutes (c2\<lparr>tcWatch := Watch_None\<rparr>))))"

definition StopLocked :: "('e, 'b) Outside \<Rightarrow> bool \<Rightarrow> bool \<Rightarrow> 'e Controller \<Rightarrow> 'e Controller" where
  "StopLocked out finalDisarm disconnect c =
    (let c4 = stop_machine out finalDisarm c
     in if disconnect \<and> tcDevice c4 \<noteq> None
        then case keep_device out c4 of (keep, c5) \<Rightarrow> finish_stop out keep c5
        else finish_stop out False c4)"

text \<open>A stop by a person, and the failsafe's: with the session lock, or past it when it is not to be had.\<close>

definition escape :: "('e, 'b) Outside \<Rightarrow> 'e Controller \<Rightarrow> 'e Controller" where
  "escape out c =
    (let c1 = DropFirewallOnEscape out (SetActiveMarker False (call CrashRevert c));
         c2 = RepublishMachineFactsLockFree True c1
     in c2\<lparr>tcStops := NoteTeardownAbandoned (tcStops c2)\<rparr>)"

definition StopWith :: "('e, 'b) Outside \<Rightarrow> bool \<Rightarrow> bool \<Rightarrow> 'e Controller \<Rightarrow> 'e Controller" where
  "StopWith out locked disconnect c0 =
    (let c = (CancelCapture (c0\<lparr>tcStopGeneration := tcStopGeneration c0 + 1\<rparr>))\<lparr>tcStopReason := kStopReasonUser\<rparr>
     in if locked then StopLocked out True disconnect c
        else escape out c)"

definition FailsafeStop :: "('e, 'b) Outside \<Rightarrow> bool \<Rightarrow> DeadTunnelReason \<Rightarrow> 'e Controller \<Rightarrow> 'e Controller" where
  "FailsafeStop out locked why c0 =
    (let c = (CancelCapture (c0\<lparr>tcStopGeneration := tcStopGeneration c0 + 1\<rparr>))\<lparr>tcStopReason := StopReasonOf why\<rparr>;
         finalDisarm = FailsafeFinalDisarm (tcKillSwitch c)
     in if locked then StopLocked out finalDisarm False c
        else escape out (c\<lparr>tcWatch := Watch_None\<rparr>))"

text \<open>The stop point of a staged bring-up; true when the sequence ends here.\<close>

definition HaltAfterStepLocked :: "('e, 'b) Outside \<Rightarrow> int \<Rightarrow> 'e Controller \<Rightarrow> bool \<times> 'e Controller" where
  "HaltAfterStepLocked out step c =
    (if tcStopAfterStep c = 0 \<or> step < tcStopAfterStep c then (False, c)
     else (True, StopLocked out True False c))"

section \<open>Starting\<close>

text \<open>How a step of the sequence ends: it goes on, it returns, or it throws.\<close>

datatype 'c Flow = Go 'c | Return 'c | Throw string 'c

fun and_then :: "'c Flow \<Rightarrow> ('c \<Rightarrow> 'c Flow) \<Rightarrow> 'c Flow" where
  "and_then (Go c) f = f c"
| "and_then (Return c) f = Return c"
| "and_then (Throw what c) f = Throw what c"

definition halt_here :: "('e, 'b) Outside \<Rightarrow> int \<Rightarrow> 'e Controller \<Rightarrow> 'e Controller Flow" where
  "halt_here out step c = (case HaltAfterStepLocked out step c of (True, c') \<Rightarrow> Return c' | (False, c') \<Rightarrow> Go c')"

definition start_wintun :: "('e, 'b) Outside \<Rightarrow> 'e Controller \<Rightarrow> 'e Controller Flow" where
  "start_wintun out c =
    (if tcMode c = Mode_RpcOnly then halt_here out 1 c
     else case oWintunLoad out of Some code \<Rightarrow> Throw (LoadFailure code) (c\<lparr>tcWintun := False\<rparr>)
     | None \<Rightarrow>
       (case oAdapter out of Inl code \<Rightarrow> Throw (AdapterFailure code) (c\<lparr>tcWintun := True, tcAdapter := None\<rparr>)
        | Inr luid \<Rightarrow> halt_here out 1 (c\<lparr>tcWintun := True, tcAdapter := Some luid\<rparr>)))"

definition start_egress :: "('e, 'b) Outside \<Rightarrow> 'e Controller \<Rightarrow> 'e Controller Flow" where
  "start_egress out c = halt_here out 2 (c\<lparr>tcEgress := Some (oEgress out), tcLiveEgress := oEgress out\<rparr>)"

definition start_space :: "('e, 'b) Outside \<Rightarrow> StartTunnel \<Rightarrow> 'e Controller \<Rightarrow> 'e Controller Flow" where
  "start_space out config c0 =
    (let c = SetNetworkCountry (fst (stCountry config)) (snd (stCountry config)) c0 in
     case tcHandedSpace c of
       Some space \<Rightarrow> halt_here out 3 (c\<lparr>tcSpace := Some space, tcHandedSpace := None\<rparr>)
     | None \<Rightarrow>
       (case ImportNetworkSpaceLocked out c of
          (Inl what, c1) \<Rightarrow> Throw what c1
        | (Inr space, c1) \<Rightarrow> halt_here out 3 (c1\<lparr>tcSpace := Some space\<rparr>)))"

definition start_device :: "('e, 'b) Outside \<Rightarrow> 'e Controller \<Rightarrow> 'e Controller Flow" where
  "start_device out c =
    (case tcHandedDevice c of
       Some device \<Rightarrow> halt_here out 4 (c\<lparr>tcDevice := Some device, tcHandedDevice := None\<rparr>)
     | None \<Rightarrow>
       (case oNewDevice out of Inl what \<Rightarrow> Throw what c
        | Inr device \<Rightarrow> halt_here out 4 (c\<lparr>tcDevice := Some device\<rparr>)))"

definition start_rpc :: "('e, 'b) Outside \<Rightarrow> StartTunnel \<Rightarrow> 'e Controller \<Rightarrow> 'e Controller Flow" where
  "start_rpc out config c =
    (case oRpcServer out of Some what \<Rightarrow> Throw what c
     | None \<Rightarrow> halt_here out 5 (StatusLocked out (c\<lparr>tcRpcHostPort := stRpcHostPort config\<rparr>)))"

definition the_fence :: "('e, 'b) Outside \<Rightarrow> 'e Controller \<Rightarrow> 'e Controller Flow" where
  "the_fence out c =
    (if crCancelled (tcReadiness c) then Return (StopLocked out True False c)
     else if tcMode c = Mode_RpcOnly
     then Return ((StatusLocked out ((SetStateLocked out RpcOnly c)\<lparr>tcUpSince := oNow out\<rparr>))\<lparr>tcWatch := Watch_RpcOnly\<rparr>)
     else Go ((SetStateLocked out Preparing c)\<lparr>tcWatch := Watch_Capture\<rparr>))"

definition start_steps :: "('e, 'b) Outside \<Rightarrow> StartTunnel \<Rightarrow> 'e Controller \<Rightarrow> 'e Controller Flow" where
  "start_steps out config c =
    and_then (and_then (and_then (and_then (and_then (start_wintun out c) (start_egress out)) (start_space out config))
      (start_device out)) (start_rpc out config)) (the_fence out)"

definition begin_session :: "('e, 'b) Outside \<Rightarrow> StartTunnel \<Rightarrow> 'e Controller \<Rightarrow> 'e Controller" where
  "begin_session out config c =
    (let c1 = SetStateLocked out Starting
           (c\<lparr>tcInstanceId := instanceId (stIdentity config), tcRpcSessionId := stRpcSessionId config,
              tcSessionIdentity := \<lparr>spIdentity = stIdentity config, spProvideMode = '''', spTransport = '''', spCountry = ('''', '''')\<rparr>,
              tcExcluded := stExcluded config, tcAllowlist := stAllowlist config\<rparr>)
     in StatusLocked out
          (c1\<lparr>tcMode := (if tcRpcOnlyClamp c \<and> stMode config \<noteq> Mode_RpcOnly then Mode_RpcOnly else stMode config),
              tcError := ''''\<rparr>))"

definition widen_for_attempt :: "('e, 'b) Outside \<Rightarrow> 'e Controller \<Rightarrow> 'e Controller" where
  "widen_for_attempt out c =
    (if tcMode c \<noteq> Mode_RpcOnly \<and> pState (tcWfp c) \<noteq> Wfp_Off
     then snd (ApplyWfpLocked out Wfp_Connecting c) else c)"

definition run_session :: "('e, 'b) Outside \<Rightarrow> StartTunnel \<Rightarrow> 'e Controller \<Rightarrow> 'e Controller" where
  "run_session out config c =
    (case start_steps out config (widen_for_attempt out (begin_session out config c)) of
       Go c1 \<Rightarrow> c1
     | Return c1 \<Rightarrow> c1
     | Throw what c1 \<Rightarrow>
         SetStateLocked out Error (StopLocked out False False (SetStateLocked out Error (c1\<lparr>tcError := what\<rparr>))))"

definition em_dash :: string where
  "em_dash = map char_of [0xE2 :: nat, 0x80, 0x94]"

definition restarting_error :: string where
  "restarting_error =
    ''this service is already restarting itself '' @ em_dash @ '' reconnecting in a few seconds''"

definition held_error :: "bool \<Rightarrow> string" where
  "held_error restarting =
    (if restarting
     then ''a previous teardown is still holding its device, so this service is restarting itself now '' @
       em_dash @ '' reconnecting in a few seconds''
     else ''a previous teardown is still holding its device; this service process must be restarted before another tunnel can start'')"

definition admit_session :: "('e, 'b) Outside \<Rightarrow> StartTunnel \<Rightarrow> 'e Controller \<Rightarrow> 'e Controller" where
  "admit_session out config c =
    (if selfRestartPending (tcStops c) then (SetStateLocked out Error c)\<lparr>tcError := restarting_error\<rparr>
     else case SweepAbandonedTeardowns (oGateDone out) (tcStops c) of (stops, sweep) \<Rightarrow>
       if outstanding sweep > 0
       then case RequestSelfRestart (oSelfRestart out)
              ''a previous sdk teardown is still holding this session's device'' stops of
              (stops', restarting) \<Rightarrow>
                (SetStateLocked out Error (c\<lparr>tcStops := stops'\<rparr>))\<lparr>tcError := held_error restarting\<rparr>
       else run_session out config (c\<lparr>tcStops := stops\<rparr>))"

definition StartLocked :: "('e, 'b) Outside \<Rightarrow> StartTunnel \<Rightarrow> 'e Controller \<Rightarrow> 'e Controller" where
  "StartLocked out config c =
    (let c1 = TakeProviderDeviceLocked out config (c\<lparr>tcKillSwitch := stKillSwitch config\<rparr>);
         c2 = StopLocked out False False c1;
         readiness = InitCaptureReadiness DefaultCaptureReadinessSettings;
         c3 = c2\<lparr>tcReadiness := (if oStopDuring out then Cancel readiness else readiness),
                 tcSession := Suc (tcSession c2), tcStopReason := kStopReasonNone\<rparr>
     in CloseHandedOffDeviceLocked out (StatusLocked out (admit_session out config c3)))"

section \<open>The capture\<close>

definition prepared_settings :: "('e, 'b) Outside \<Rightarrow> TunnelNetworkSettings" where
  "prepared_settings out =
    (let v6 = (oLocalV6 out \<noteq> '''')
     in \<lparr>nsLocalV4 = (if oLocalV4 out = '''' then ''169.254.2.1'' else oLocalV4 out), nsPrefixV4 = 24,
         nsLocalV6 = oLocalV6 out,
         nsPrefixV6 = (if v6 \<and> 0 < oPrefixV6 out \<and> oPrefixV6 out \<le> 128 then nat (oPrefixV6 out) else 64),
         nsMtu = kTunnelMtu,
         nsDnsV4 = (case oDnsV4 out of Some dns \<Rightarrow> if dns \<noteq> [] then dns else [oDefaultDnsV4 out]
                    | None \<Rightarrow> [oDefaultDnsV4 out]),
         nsDnsV6 = (if \<not> v6 then []
                    else case oDnsV6 out of Some dns \<Rightarrow> if dns \<noteq> [] then dns else [oDefaultDnsV6 out]
                    | None \<Rightarrow> [oDefaultDnsV6 out]),
         nsDnsSearch = []\<rparr>)"

definition PushExcludedToDriver :: "string list \<Rightarrow> bool \<Rightarrow> 'e Controller \<Rightarrow> 'e Controller" where
  "PushExcludedToDriver paths allowlist c = (if \<not> tcSplit c then c else call (PushRules paths allowlist) c)"

definition capture_checkpoints :: "('e, 'b) Outside \<Rightarrow> 'e Controller \<Rightarrow> ApplyOutcome \<times> 'e Controller" where
  "capture_checkpoints out c =
    (case HaltAfterStepLocked out 6 c of (halted6, c6) \<Rightarrow>
     if halted6 then (Declined, c6)
     else case HaltAfterStepLocked out 7 c6 of (halted7, c7) \<Rightarrow>
     if halted7 then (Declined, c7)
     else case HaltAfterStepLocked out 8 c7 of (halted8, c8) \<Rightarrow>
     if halted8 then (Declined, c8) else (Applied, c8))"

fun stage_action :: "('e, 'b) Outside \<Rightarrow> CaptureStage \<Rightarrow> 'e Controller \<Rightarrow> ApplyOutcome \<times> 'e Controller" where
  "stage_action out Prepare c =
    (if \<not> oPrepare out then (Raised, c)
     else
       let c1 = c\<lparr>tcSplit := oSplitOpen out\<rparr>;
           c2 = PushExcludedToDriver (tcExcluded c1) (tcAllowlist c1) c1
       in if tcPump c2 then (Applied, c2)
          else (if oPumpStarts out then Applied else Raised, c2\<lparr>tcPump := True\<rparr>))"
| "stage_action out Firewall c =
    (if oDiscoverEgress out = (0, 0) then (Raised, c)
     else case ApplyWfpLocked out Wfp_Connecting c of (ok, c1) \<Rightarrow>
       (if \<not> ok \<and> tcKillSwitch c1 then Raised else Applied, c1))"
| "stage_action out Network c =
    (let c1 = call NetApply (SetActiveMarker True c)
     in if \<not> fst (oNetApply out) then (Raised, c1\<lparr>tcNetConfig := Some (snd (oNetApply out))\<rparr>)
        else
          let n = snd (oNetApply out);
              c2 = StatusLocked out
                (c1\<lparr>tcNetConfig := Some n, tcResolversV4 := nsDnsV4 (prepared_settings out),
                    tcResolversV6 := (if AppliedIpv6 n then nsDnsV6 (prepared_settings out) else [])\<rparr>)
          in (if DnsApplied n then Applied else Raised, c2))"
| "stage_action out Connected c =
    (case (if pState (tcWfp c) \<noteq> Wfp_Off then ApplyWfpLocked out Wfp_Connected c else (True, c)) of
       (False, c1) \<Rightarrow> (Raised, c1)
     | (True, c1) \<Rightarrow> capture_checkpoints out (call FlushResolverCache c1))"

definition capture_rollback :: "('e, 'b) Outside \<Rightarrow> bool \<Rightarrow> 'e Controller \<Rightarrow> 'e Controller" where
  "capture_rollback out cancelled c =
    (let c1 = RevertMachineStateLocked out False (tcNetConfig c \<noteq> None) c
     in if \<not> cancelled \<and> \<not> crCancelled (tcReadiness c1) \<and> tcKillSwitch c1 \<and> pState (tcWfp c1) \<noteq> Wfp_Off
        then snd (ApplyWfpLocked out Wfp_Connecting c1) else c1)"

text \<open>
  The transaction is \<open>ApplyCapture\<close>, run on what each stage does after the ones before it; the
  actions it reports are then what happened to this controller. \<open>others\<close> and \<open>clock\<close> are the other
  threads' calls on the readiness and the times it reads, as there; \<open>others 6\<close> are the calls before the
  caller looks at it again.
\<close>

fun stages_before :: "CaptureStage \<Rightarrow> CaptureStage list" where
  "stages_before Prepare = []"
| "stages_before Firewall = [Prepare]"
| "stages_before Network = [Prepare, Firewall]"
| "stages_before Connected = [Prepare, Firewall, Network]"

definition after_stages :: "('e, 'b) Outside \<Rightarrow> CaptureStage list \<Rightarrow> 'e Controller \<Rightarrow> 'e Controller" where
  "after_stages out stages c = foldl (\<lambda>c stage. snd (stage_action out stage c)) c stages"

definition stage_outcome :: "('e, 'b) Outside \<Rightarrow> 'e Controller \<Rightarrow> CaptureStage \<Rightarrow> ApplyOutcome" where
  "stage_outcome out c stage = fst (stage_action out stage (after_stages out (stages_before stage) c))"

fun perform :: "('e, 'b) Outside \<Rightarrow> bool \<Rightarrow> 'e Controller \<Rightarrow> CaptureAction \<Rightarrow> 'e Controller" where
  "perform out cancelled c (Try stage) = snd (stage_action out stage c)"
| "perform out cancelled c Rollback = capture_rollback out cancelled c"

text \<open>The step a failure is reported at: the last one a stage announced.\<close>

fun stage_step :: "('e, 'b) Outside \<Rightarrow> CaptureStage \<Rightarrow> string" where
  "stage_step out Prepare = (if oPrepare out then ''packet pump and split tunnel'' else ''adapter settings'')"
| "stage_step out Firewall = ''capture firewall''"
| "stage_step out Network = ''capture routes and DNS''"
| "stage_step out Connected = ''connected firewall''"

fun reached_step :: "('e, 'b) Outside \<Rightarrow> string \<Rightarrow> CaptureAction list \<Rightarrow> string" where
  "reached_step out step [] = step"
| "reached_step out step (Try stage # actions) = reached_step out (stage_step out stage) actions"
| "reached_step out step (Rollback # actions) = reached_step out step actions"

definition BringUpTunnelLocked ::
    "('e, 'b) Outside \<Rightarrow> (nat \<Rightarrow> CaptureOp list) \<Rightarrow> (nat \<Rightarrow> i64) \<Rightarrow> CaptureTicket \<Rightarrow> 'e Controller \<Rightarrow>
     CaptureEnd \<times> string \<times> 'e Controller" where
  "BringUpTunnelLocked out others clock ticket c =
    (if tcMode c \<noteq> Mode_Tunnel \<or> tcAdapter c = None \<or> tcDevice c = None then (Rethrown, ''readiness'', c)
     else case ApplyCapture (stage_outcome out c) others clock ticket (tcReadiness c) of (ending, r, actions) \<Rightarrow>
       let c1 = foldl (perform out (crCancelled r)) c actions;
           r1 = run capture_step r (others 6)
       in (ending, reached_step out ''readiness'' actions,
           c1\<lparr>tcReadiness := (if crCancelled (tcReadiness c1) then Cancel r1 else r1)\<rparr>))"

definition ActivateCapture ::
    "('e, 'b) Outside \<Rightarrow> (nat \<Rightarrow> CaptureOp list) \<Rightarrow> (nat \<Rightarrow> i64) \<Rightarrow> bool \<Rightarrow> nat \<Rightarrow> CaptureTicket \<Rightarrow>
     'e Controller \<Rightarrow> 'e Controller" where
  "ActivateCapture out others clock locked session ticket c =
    (if \<not> locked \<or> crCancelled (tcReadiness c) \<or> session \<noteq> tcSession c \<or> tcState c \<noteq> Preparing then c
     else case BringUpTunnelLocked out others clock ticket c of (ending, step, c1) \<Rightarrow>
       (case ending of
          Rethrown \<Rightarrow>
            SetStateLocked out Error
              (StopLocked out False False (c1\<lparr>tcError := ''tunnel activation failed at '' @ step\<rparr>))
        | Returned result \<Rightarrow>
            if result = Halted \<or> crCancelled (tcReadiness c1) then c1
            else if result = Waiting then c1\<lparr>tcWatch := Watch_Capture\<rparr>
            else (SetStateLocked out Up (c1\<lparr>tcUpSince := oNow out\<rparr>))\<lparr>tcWatch := Watch_Tunnel\<rparr>))"

section \<open>The other requests\<close>

definition ClampToRpcOnly :: "'e Controller \<Rightarrow> 'e Controller" where
  "ClampToRpcOnly c = c\<lparr>tcRpcOnlyClamp := True\<rparr>"

definition SetStopAfterStep :: "int \<Rightarrow> 'e Controller \<Rightarrow> 'e Controller" where
  "SetStopAfterStep step c = c\<lparr>tcStopAfterStep := ClampStopAfterStep step\<rparr>"

definition SetKillSwitch :: "('e, 'b) Outside \<Rightarrow> bool \<Rightarrow> 'e Controller \<Rightarrow> bool \<times> 'e Controller" where
  "SetKillSwitch out on c0 =
    (if tcKillSwitch c0 = on then (True, c0)
     else
       let c = c0\<lparr>tcKillSwitch := on\<rparr>; policy = pState (tcWfp c) in
       if \<not> on \<and> tcState c \<noteq> Up \<and> (policy = Wfp_Armed \<or> policy = Wfp_Connecting)
       then (True, snd (ApplyWfpLocked out Wfp_Off c))
       else if on \<and> tcState c = Up \<and> policy = Wfp_Off then ApplyWfpLocked out Wfp_Connected c
       else (True, c))"

definition SetSplitTunnel :: "string list \<Rightarrow> bool \<Rightarrow> 'e Controller \<Rightarrow> 'e Controller" where
  "SetSplitTunnel excludedPaths allowlist c0 =
    (let c = c0\<lparr>tcExcluded := excludedPaths, tcAllowlist := allowlist\<rparr>
     in if tcState c \<noteq> Up then c else PushExcludedToDriver excludedPaths allowlist c)"

definition OnEgressChanged :: "i64 \<times> i64 \<Rightarrow> 'e Controller \<Rightarrow> 'e Controller" where
  "OnEgressChanged egress c =
    (if tcEgress c = None then c else c\<lparr>tcEgress := Some egress, tcLiveEgress := egress\<rparr>)"

definition Logout :: "('e, 'b) Outside \<Rightarrow> bool \<Rightarrow> string \<Rightarrow> 'e Controller \<Rightarrow> bool \<times> 'e Controller" where
  "Logout out locked spaceJson c0 =
    (let c = CancelCapture (c0\<lparr>tcStopGeneration := tcStopGeneration c0 + 1\<rparr>)
     in if \<not> locked then (False, c)
        else let c1 = call ClearIdentityFiles (StopLocked out True False (c\<lparr>tcStopReason := kStopReasonUser\<rparr>))
          in if spaceJson = '''' then (True, c1)
             else (case ImportNetworkSpaceLocked out c1 of
                     (Inl _, c2) \<Rightarrow> (False, c2) | (Inr _, c2) \<Rightarrow> (oIdentityCleared out, c2)))"

text \<open>The provider-only device: admission, the device that runs already, and a new one.\<close>

definition provider_state :: "AbandonedTeardownSweep \<Rightarrow> 'e Controller \<Rightarrow> ServiceProviderState" where
  "provider_state sweep c =
    \<lparr>spTunnelSession =
       (tcState c = Starting \<or> IsSessionLive (tcState c) \<or> tcState c = Stopping \<or> tcDevice c \<noteq> None \<or>
        tcAdapter c \<noteq> None \<or> tcNetConfig c \<noteq> None \<or> tcPump c \<or> tcEgress c \<noteq> None),
     spFirewallInForce = (pState (tcWfp c) \<noteq> Wfp_Off), spDeviceStillHeld = (outstanding sweep > 0),
     spRestartPending = selfRestartPending (tcStops c)\<rparr>"

definition keep_provider :: "('e, 'b) Outside \<Rightarrow> StartProvider \<Rightarrow> 'e Controller \<Rightarrow> (string + unit) \<times> 'e Controller" where
  "keep_provider out request c =
    (if spTransport request \<noteq> '''' \<and> spTransport request \<noteq> spTransport (tcProviderRequest c) \<and> \<not> oTransportTaken out
     then (Inl ''the provider transport policy could not be applied'', c)
     else if \<not> oModeTaken out then (Inl ''the provide mode could not be applied'', c)
     else (Inr (), StatusLocked out (ReadProviderFactsLocked out (c\<lparr>tcProviderRequest := request\<rparr>))))"

definition provider_failed :: "('e, 'b) Outside \<Rightarrow> string \<Rightarrow> 'e Controller \<Rightarrow> (string + unit) \<times> 'e Controller" where
  "provider_failed out step c =
    (Inl (''the provider could not be started at the '' @ step @ '' step''), RetireProviderDeviceLocked out c)"

definition build_provider :: "('e, 'b) Outside \<Rightarrow> StartProvider \<Rightarrow> 'e Controller \<Rightarrow> (string + unit) \<times> 'e Controller" where
  "build_provider out request c0 =
    (if \<not> oProviderEgress out then provider_failed out ''egress'' c0
     else
       let c = c0\<lparr>tcProviderEgress := True\<rparr> in
       case ImportNetworkSpaceLocked out c of (Inl _, c') \<Rightarrow> provider_failed out ''network space'' c'
     | (Inr space, c') \<Rightarrow>
       let c1 = c'\<lparr>tcProviderSpace := Some space\<rparr> in
       (case oNewDevice out of Inl _ \<Rightarrow> provider_failed out ''device'' c1
        | Inr device \<Rightarrow>
          let c2 = c1\<lparr>tcProviderDevice := Some device\<rparr> in
          if spTransport request \<noteq> '''' \<and> \<not> oTransportTaken out
          then provider_failed out ''provider transport policy'' c2
          else if \<not> oModeTaken out then provider_failed out ''provide mode'' c2
          else (Inr (), StatusLocked out (ReadProviderFactsLocked out (c2\<lparr>tcProviderRequest := request\<rparr>)))))"

definition StartProviderLocked :: "('e, 'b) Outside \<Rightarrow> bool \<Rightarrow> StartProvider \<Rightarrow> 'e Controller \<Rightarrow> (string + unit) \<times> 'e Controller" where
  "StartProviderLocked out locked request c0 =
    (if \<not> locked then (Inl ''a tunnel operation is in progress'', c0)
     else case SweepAbandonedTeardowns (oGateDone out) (tcStops c0) of (stops, sweep) \<Rightarrow>
       let c = c0\<lparr>tcStops := stops\<rparr>;
           refusal = ProviderStartRefusal (ControlModeFrom (spProvideMode request)) (provider_state sweep c)
       in if refusal \<noteq> Refusal_None then (Inl (ProvideLifecycle.RefusalReason refusal), c)
          else let c1 = SetNetworkCountry (fst (spCountry request)) (snd (spCountry request)) c in
            if tcProviderDevice c1 \<noteq> None \<and> SameIdentity (spIdentity (tcProviderRequest c1)) (spIdentity request)
            then keep_provider out request c1
            else build_provider out request (RetireLogUploadDeviceLocked out (RetireProviderDeviceLocked out c1)))"

definition StopProvider :: "('e, 'b) Outside \<Rightarrow> bool \<Rightarrow> 'e Controller \<Rightarrow> bool \<times> 'e Controller" where
  "StopProvider out locked c = (if \<not> locked then (False, c) else (True, RetireProviderDeviceLocked out c))"

text \<open>
  The device a log upload runs on. Without a session's or a provider-only device one is built for it,
  refused while an abandoned teardown may hold the identity or the process is restarting itself. The
  second function is the waiter that retires it once the upload reported or its lifetime is over.
\<close>

definition upload_failed :: "string \<Rightarrow> string" where
  "upload_failed step = ''the logs could not be uploaded at the '' @ step @ '' step''"

definition open_upload_device :: "('e, 'b) Outside \<Rightarrow> 'e Controller \<Rightarrow> (string + nat) \<times> 'e Controller" where
  "open_upload_device out c0 =
    (case SweepAbandonedTeardowns (oGateDone out) (tcStops c0) of (stops, sweep) \<Rightarrow>
       let c = c0\<lparr>tcStops := stops\<rparr>;
           refusal = StandaloneRefusalFor (outstanding sweep > 0) (selfRestartPending stops)
       in if refusal \<noteq> Standalone_None then (Inl (LogUpload.RefusalReason refusal), c)
          else let c1 = RetireLogUploadDeviceLocked out c in
            (case ImportNetworkSpaceLocked out c1 of (Inl _, c2) \<Rightarrow> (Inl (upload_failed ''network space''), c2)
             | (Inr space, c2) \<Rightarrow>
               (case oNewDevice out of Inl _ \<Rightarrow> (Inl (upload_failed ''device''), c2)
                | Inr device \<Rightarrow>
                    if \<not> oModeTaken out
                    then (Inl (upload_failed ''provide mode''), snd (run_worker out LogUploadTeardown c2))
                    else (Inr device, c2\<lparr>tcLogUpload := Some device\<rparr>))))"

definition upload_device :: "('e, 'b) Outside \<Rightarrow> 'e Controller \<Rightarrow> (string + nat) \<times> 'e Controller" where
  "upload_device out c =
    (case tcDevice c of Some device \<Rightarrow> (Inr device, c)
     | None \<Rightarrow> (case tcProviderDevice c of Some device \<Rightarrow> (Inr device, c) | None \<Rightarrow> open_upload_device out c))"

definition CloseLogUploadDevice :: "('e, 'b) Outside \<Rightarrow> nat \<Rightarrow> 'e Controller \<Rightarrow> 'e Controller" where
  "CloseLogUploadDevice out device c =
    (if tcLogUpload c \<noteq> Some device then c else RetireLogUploadDeviceLocked out c)"

section \<open>The controller as a machine\<close>

definition InitController :: "'e \<Rightarrow> 'e Controller" where
  "InitController e =
    \<lparr>tcState = Stopped, tcMode = Mode_Tunnel, tcRpcOnlyClamp = False, tcStopAfterStep = 0, tcKillSwitch = False,
     tcWfp = InitPolicy, tcEngine = e, tcConnectingWatch = False, tcWintun = False, tcAdapter = None,
     tcEgress = None, tcSpace = None, tcDevice = None, tcPump = False, tcSplit = False, tcNetConfig = None,
     tcResolversV4 = [], tcResolversV6 = [], tcRpcHostPort = '''', tcInstanceId = '''', tcRpcSessionId = '''',
     tcError = '''', tcStopReason = kStopReasonNone, tcUpSince = 0, tcUpSinceMirror = 0, tcLiveEgress = (0, 0),
     tcMirror = InitStatus, tcReadiness = Cancel (InitCaptureReadiness DefaultCaptureReadinessSettings),
     tcSession = 0, tcStopGeneration = 0, tcWatch = Watch_None, tcProviderDevice = None, tcProviderSpace = None,
     tcProviderEgress = False, tcProviderRequest = NoProviderRequest, tcProviderTier = 0, tcProviderKey = False,
     tcSessionIdentity = NoProviderRequest, tcHandedDevice = None, tcHandedSpace = None, tcLogUpload = None, tcLastSpace = False,
     tcCountry = None, tcSdkCountry = '''', tcExcluded = [],
     tcAllowlist = False, tcMarker = False, tcStops = ResetStopBudgetForTest, tcNextGate = 0, tcCalls = []\<rparr>"

datatype Request =
    Req_Start StartTunnel
  | Req_Stop bool bool
  | Req_Failsafe bool DeadTunnelReason
  | Req_Activate "nat \<Rightarrow> CaptureOp list" "nat \<Rightarrow> i64" bool nat CaptureTicket
  | Req_Readiness CaptureOp
  | Req_ConnectingWindow
  | Req_KillSwitch bool
  | Req_SplitTunnel "string list" bool
  | Req_Egress "i64 \<times> i64"
  | Req_Logout bool string
  | Req_StartProvider bool StartProvider
  | Req_StopProvider bool
  | Req_UploadDevice
  | Req_UploadOver nat
  | Req_NetworkCountry string string

text \<open>One request with the answers it meets. The watchdog's threads work on the readiness between requests.\<close>

fun controller_step :: "'e Controller \<Rightarrow> ('e, 'b) Outside \<times> Request \<Rightarrow> 'e Controller" where
  "controller_step c (out, Req_Start config) = StartLocked out config c"
| "controller_step c (out, Req_Stop locked disconnect) = StopWith out locked disconnect c"
| "controller_step c (out, Req_Failsafe locked why) = FailsafeStop out locked why c"
| "controller_step c (out, Req_Activate others clock locked session ticket) =
    ActivateCapture out others clock locked session ticket c"
| "controller_step c (out, Req_Readiness op) = c\<lparr>tcReadiness := capture_step (tcReadiness c) op\<rparr>"
| "controller_step c (out, Req_ConnectingWindow) = ConnectingWatchdogFires out c"
| "controller_step c (out, Req_KillSwitch on) = snd (SetKillSwitch out on c)"
| "controller_step c (out, Req_SplitTunnel paths allowlist) = SetSplitTunnel paths allowlist c"
| "controller_step c (out, Req_Egress egress) = OnEgressChanged egress c"
| "controller_step c (out, Req_Logout locked spaceJson) = snd (Logout out locked spaceJson c)"
| "controller_step c (out, Req_StartProvider locked request) = snd (StartProviderLocked out locked request c)"
| "controller_step c (out, Req_StopProvider locked) = snd (StopProvider out locked c)"
| "controller_step c (out, Req_UploadDevice) = snd (upload_device out c)"
| "controller_step c (out, Req_UploadOver device) = CloseLogUploadDevice out device c"
| "controller_step c (out, Req_NetworkCountry code source) = SetNetworkCountry code source c"

end
