(* ===== verification/ControllerSafety.thy ===== *)
theory ControllerSafety
  imports TunnelController
begin

text \<open>
  What the controller keeps through every sequence of requests. The frame lemmas say which parts of
  the state a transition leaves alone; the invariant \<open>controller_inv\<close> is kept by every request
  (\<open>service\<close> interprets the observer contract on the controller) and gives the properties: the
  served status, the shape of a session, the order of a teardown, what a stop gives back, what a
  process clamped to rpc-only never does, and the policy a capture leaves in force.
\<close>

section \<open>Firewall transitions\<close>

subsection \<open>The parts a transition leaves alone\<close>

fun routes_out :: "Call list \<Rightarrow> bool" where
  "routes_out [] = False"
| "routes_out (NetApply # cs) = True"
| "routes_out (NetRevert # cs) = False"
| "routes_out (CrashRevert # cs) = False"
| "routes_out (_ # cs) = routes_out cs"

fun takes_objects :: "Call \<Rightarrow> bool" where
  "takes_objects (SdkTeardown g) = True"
| "takes_objects (ProviderTeardown g) = True"
| "takes_objects (HandedOffTeardown g) = True"
| "takes_objects (LogUploadTeardown g) = True"
| "takes_objects _ = False"

fun orderly :: "Call list \<Rightarrow> bool" where
  "orderly [] = True"
| "orderly (x # cs) = ((takes_objects x \<longrightarrow> \<not> routes_out cs) \<and> orderly cs)"

lemmas publish_defs [simp] = StatusLocked_def SetStateLocked_def SetActiveMarker_def call_def
  CancelConnectingWatchdogLocked_def ArmConnectingWatchdogLocked_def CancelCapture_def

lemma apply_locked_state:
  assumes "ApplyLocked api inet4 inet6 st cfg w e = (ok, w', e', notices)"
  shows "pState w' = (if ok then st else pState w)" and "st = Wfp_Off \<Longrightarrow> ok"
  using assms
  by (auto simp: ApplyLocked_def RevertLocked_def CloseEngine_def OpenEngine_def Let_def
      split: if_splits prod.splits sum.splits option.splits)

lemma revert_state: "pState (fst (RevertLocked api w e)) = Wfp_Off"
  by (simp add: RevertLocked_def CloseEngine_def)

text \<open>What every holder of a leak-prevention policy promises its callers.\<close>

locale policy_holder =
  fixes transit :: "WfpState \<Rightarrow> 'c \<Rightarrow> bool \<times> 'c" and policy :: "'c \<Rightarrow> WfpState"
  assumes transit_ok: "fst (transit st c) \<Longrightarrow> policy (snd (transit st c)) = st"
    and transit_refused: "\<not> fst (transit st c) \<Longrightarrow> policy (snd (transit st c)) = policy c"
    and transit_off: "fst (transit Wfp_Off c)"
begin

lemma policy_after: "policy (snd (transit st c)) = (if fst (transit st c) then st else policy c)"
  by (simp add: transit_ok transit_refused)

lemma lifted: "policy (snd (transit Wfp_Off c)) = Wfp_Off"
  by (simp add: transit_ok transit_off)

lemma stays_in_force: "policy c \<noteq> Wfp_Off \<Longrightarrow> st \<noteq> Wfp_Off \<Longrightarrow> policy (snd (transit st c)) \<noteq> Wfp_Off"
  by (simp add: policy_after)

lemma two_values: "policy (snd (transit st c)) = st \<or> policy (snd (transit st c)) = policy c"
  by (simp add: policy_after)

end

interpretation policy_object: policy_holder
  "\<lambda>st (w, e). case ApplyLocked api inet4 inet6 st cfg w e of (ok, w', e', notices) \<Rightarrow> (ok, (w', e'))"
  "\<lambda>(w, e). pState w"
  for api :: "('e, 'b) Fwpm" and inet4 inet6 cfg
  by unfold_locales (auto dest: apply_locked_state split: prod.splits)

lemma wfp_apply_state:
  "pState (tcWfp (snd (wfp_apply out st cfg c))) = (if fst (wfp_apply out st cfg c) then st else pState (tcWfp c))"
  by (auto simp: wfp_apply_def dest: apply_locked_state split: prod.splits)

lemma wfp_revert_state [simp]: "pState (tcWfp (wfp_revert out c)) = Wfp_Off"
  using revert_state [of "oApi out" "tcWfp c" "tcEngine c"] by (auto simp: wfp_revert_def split: prod.splits)

interpretation firewall: policy_holder "ApplyWfpLocked out" "\<lambda>c. pState (tcWfp c)" for out :: "('e, 'b) Outside"
  by unfold_locales
    (auto simp: ApplyWfpLocked_def Let_def wfp_apply_def dest: apply_locked_state split: prod.splits if_splits)

lemma transition_frame [simp]:
  "tcState (snd (ApplyWfpLocked out st c)) = tcState c" "tcMode (snd (ApplyWfpLocked out st c)) = tcMode c"
  "tcRpcOnlyClamp (snd (ApplyWfpLocked out st c)) = tcRpcOnlyClamp c"
  "tcStopAfterStep (snd (ApplyWfpLocked out st c)) = tcStopAfterStep c"
  "tcKillSwitch (snd (ApplyWfpLocked out st c)) = tcKillSwitch c"
  "tcWintun (snd (ApplyWfpLocked out st c)) = tcWintun c"
  "tcAdapter (snd (ApplyWfpLocked out st c)) = tcAdapter c"
  "tcEgress (snd (ApplyWfpLocked out st c)) = tcEgress c"
  "tcSpace (snd (ApplyWfpLocked out st c)) = tcSpace c"
  "tcDevice (snd (ApplyWfpLocked out st c)) = tcDevice c" "tcPump (snd (ApplyWfpLocked out st c)) = tcPump c"
  "tcSplit (snd (ApplyWfpLocked out st c)) = tcSplit c"
  "tcNetConfig (snd (ApplyWfpLocked out st c)) = tcNetConfig c"
  "tcLiveEgress (snd (ApplyWfpLocked out st c)) = tcLiveEgress c"
  "tcProviderDevice (snd (ApplyWfpLocked out st c)) = tcProviderDevice c"
  "tcProviderSpace (snd (ApplyWfpLocked out st c)) = tcProviderSpace c"
  "tcProviderEgress (snd (ApplyWfpLocked out st c)) = tcProviderEgress c"
  "tcHandedDevice (snd (ApplyWfpLocked out st c)) = tcHandedDevice c"
  "tcHandedSpace (snd (ApplyWfpLocked out st c)) = tcHandedSpace c"
  "tcLogUpload (snd (ApplyWfpLocked out st c)) = tcLogUpload c"
  "tcMarker (snd (ApplyWfpLocked out st c)) = tcMarker c"
  "tcCalls (snd (ApplyWfpLocked out st c)) = tcCalls c" "tcStops (snd (ApplyWfpLocked out st c)) = tcStops c"
  "tcReadiness (snd (ApplyWfpLocked out st c)) = tcReadiness c"
  "tcSession (snd (ApplyWfpLocked out st c)) = tcSession c"
  "tcUpSince (snd (ApplyWfpLocked out st c)) = tcUpSince c"
  by (auto simp: ApplyWfpLocked_def Let_def wfp_apply_def wfp_revert_def split: prod.splits)

subsection \<open>What a stop leaves\<close>

definition grounded :: "'e Controller \<Rightarrow> bool" where
  "grounded c \<longleftrightarrow> (routes_out (tcCalls c) \<longrightarrow> tcNetConfig c \<noteq> None)"

definition told :: "'e Controller \<Rightarrow> bool" where
  "told c \<longleftrightarrow>
    tsWfp (tcMirror c) = WfpStateToString (pState (tcWfp c)) \<and> tsState (tcMirror c) = tcState c \<and>
    (routes_out (tcCalls c) \<longrightarrow> tsRoutes (tcMirror c)) \<and> (tsRoutes (tcMirror c) \<longrightarrow> tcNetConfig c \<noteq> None)"

lemma told_grounded: "told c \<Longrightarrow> grounded c"
  by (auto simp: told_def grounded_def)

lemma compose_facts [simp]:
  "tsWfp (ComposeStatusLocked out c) = WfpStateToString (pState (tcWfp c))"
  "tsState (ComposeStatusLocked out c) = tcState c"
  "tsRoutes (ComposeStatusLocked out c) = (tcNetConfig c \<noteq> None)"
  by (simp_all add: ComposeStatusLocked_def)

lemma told_publish: "told (c\<lparr>tcUpSinceMirror := u, tcMirror := ComposeStatusLocked out c\<rparr>) = grounded c"
  by (auto simp: told_def grounded_def)

lemma transition_told: "told c \<Longrightarrow> told (snd (ApplyWfpLocked out st c))"
  by (auto simp: ApplyWfpLocked_def Let_def wfp_apply_def wfp_revert_def told_def split: prod.splits)

lemma release_machine_results [simp]:
  "tcNetConfig (release_machine out hadRoutes c) = None"
  "tcMarker (release_machine out hadRoutes c) = False"
  "tcWfp (release_machine out hadRoutes c) = tcWfp c"
  "tcCalls (release_machine out hadRoutes c) =
    (if hadRoutes then [FlushResolverCache] else []) @ (if tcNetConfig c \<noteq> None then [NetRevert] else []) @ tcCalls c"
  by (simp_all add: release_machine_def Let_def)

lemma release_machine_told: "grounded c \<Longrightarrow> told (release_machine out hadRoutes c)"
  by (auto simp: release_machine_def Let_def told_def grounded_def)

lemma release_machine_frame [simp]:
  "tcState (release_machine out hadRoutes c) = tcState c"
  "tcMode (release_machine out hadRoutes c) = tcMode c"
  "tcRpcOnlyClamp (release_machine out hadRoutes c) = tcRpcOnlyClamp c"
  "tcStopAfterStep (release_machine out hadRoutes c) = tcStopAfterStep c"
  "tcKillSwitch (release_machine out hadRoutes c) = tcKillSwitch c"
  "tcWintun (release_machine out hadRoutes c) = tcWintun c"
  "tcAdapter (release_machine out hadRoutes c) = tcAdapter c"
  "tcEgress (release_machine out hadRoutes c) = tcEgress c"
  "tcSpace (release_machine out hadRoutes c) = tcSpace c"
  "tcDevice (release_machine out hadRoutes c) = tcDevice c"
  "tcPump (release_machine out hadRoutes c) = tcPump c"
  "tcSplit (release_machine out hadRoutes c) = tcSplit c"
  "tcLiveEgress (release_machine out hadRoutes c) = tcLiveEgress c"
  "tcProviderDevice (release_machine out hadRoutes c) = tcProviderDevice c"
  "tcProviderSpace (release_machine out hadRoutes c) = tcProviderSpace c"
  "tcProviderEgress (release_machine out hadRoutes c) = tcProviderEgress c"
  "tcHandedDevice (release_machine out hadRoutes c) = tcHandedDevice c"
  "tcHandedSpace (release_machine out hadRoutes c) = tcHandedSpace c"
  "tcLogUpload (release_machine out hadRoutes c) = tcLogUpload c"
  "tcStops (release_machine out hadRoutes c) = tcStops c"
  "tcReadiness (release_machine out hadRoutes c) = tcReadiness c"
  "tcSession (release_machine out hadRoutes c) = tcSession c"
  "tcUpSince (release_machine out hadRoutes c) = tcUpSince c"
  by (simp_all add: release_machine_def Let_def)

lemma revert_machine_frame [simp]:
  "tcState (RevertMachineStateLocked out finalDisarm hadRoutes c) = tcState c"
  "tcMode (RevertMachineStateLocked out finalDisarm hadRoutes c) = tcMode c"
  "tcRpcOnlyClamp (RevertMachineStateLocked out finalDisarm hadRoutes c) = tcRpcOnlyClamp c"
  "tcStopAfterStep (RevertMachineStateLocked out finalDisarm hadRoutes c) = tcStopAfterStep c"
  "tcKillSwitch (RevertMachineStateLocked out finalDisarm hadRoutes c) = tcKillSwitch c"
  "tcWintun (RevertMachineStateLocked out finalDisarm hadRoutes c) = tcWintun c"
  "tcAdapter (RevertMachineStateLocked out finalDisarm hadRoutes c) = tcAdapter c"
  "tcEgress (RevertMachineStateLocked out finalDisarm hadRoutes c) = tcEgress c"
  "tcSpace (RevertMachineStateLocked out finalDisarm hadRoutes c) = tcSpace c"
  "tcDevice (RevertMachineStateLocked out finalDisarm hadRoutes c) = tcDevice c"
  "tcPump (RevertMachineStateLocked out finalDisarm hadRoutes c) = tcPump c"
  "tcSplit (RevertMachineStateLocked out finalDisarm hadRoutes c) = tcSplit c"
  "tcLiveEgress (RevertMachineStateLocked out finalDisarm hadRoutes c) = tcLiveEgress c"
  "tcProviderDevice (RevertMachineStateLocked out finalDisarm hadRoutes c) = tcProviderDevice c"
  "tcProviderSpace (RevertMachineStateLocked out finalDisarm hadRoutes c) = tcProviderSpace c"
  "tcProviderEgress (RevertMachineStateLocked out finalDisarm hadRoutes c) = tcProviderEgress c"
  "tcHandedDevice (RevertMachineStateLocked out finalDisarm hadRoutes c) = tcHandedDevice c"
  "tcHandedSpace (RevertMachineStateLocked out finalDisarm hadRoutes c) = tcHandedSpace c"
  "tcLogUpload (RevertMachineStateLocked out finalDisarm hadRoutes c) = tcLogUpload c"
  "tcStops (RevertMachineStateLocked out finalDisarm hadRoutes c) = tcStops c"
  "tcReadiness (RevertMachineStateLocked out finalDisarm hadRoutes c) = tcReadiness c"
  "tcSession (RevertMachineStateLocked out finalDisarm hadRoutes c) = tcSession c"
  "tcUpSince (RevertMachineStateLocked out finalDisarm hadRoutes c) = tcUpSince c"
  by (simp_all add: RevertMachineStateLocked_def settle_policy_def Let_def)

lemma revert_machine_results [simp]:
  "tcNetConfig (RevertMachineStateLocked out finalDisarm hadRoutes c) = None"
  "tcMarker (RevertMachineStateLocked out finalDisarm hadRoutes c) = False"
  "tcCalls (RevertMachineStateLocked out finalDisarm hadRoutes c) =
    (if hadRoutes then [FlushResolverCache] else []) @ (if tcNetConfig c \<noteq> None then [NetRevert] else []) @ tcCalls c"
  by (simp_all add: RevertMachineStateLocked_def settle_policy_def Let_def)

lemma revert_machine_told: "grounded c \<Longrightarrow> told (RevertMachineStateLocked out finalDisarm hadRoutes c)"
  by (simp add: RevertMachineStateLocked_def settle_policy_def Let_def release_machine_told transition_told)

lemma revert_machine_policy:
  "finalDisarm \<or> \<not> tcKillSwitch c \<Longrightarrow> pState (tcWfp (RevertMachineStateLocked out finalDisarm hadRoutes c)) = Wfp_Off"
  "\<not> finalDisarm \<Longrightarrow> tcKillSwitch c \<Longrightarrow> pState (tcWfp c) \<noteq> Wfp_Off \<Longrightarrow>
    pState (tcWfp (RevertMachineStateLocked out finalDisarm hadRoutes c)) \<noteq> Wfp_Off"
  "\<not> finalDisarm \<Longrightarrow> \<not> hadRoutes \<Longrightarrow> pState (tcWfp c) = Wfp_Off \<Longrightarrow>
    pState (tcWfp (RevertMachineStateLocked out finalDisarm hadRoutes c)) = Wfp_Off"
  by (auto simp: RevertMachineStateLocked_def settle_policy_def firewall.policy_after firewall.transit_off)

lemma revert_machine_routes:
  "grounded c \<Longrightarrow> \<not> routes_out (tcCalls (RevertMachineStateLocked out finalDisarm hadRoutes c))"
  "orderly (tcCalls c) \<Longrightarrow> orderly (tcCalls (RevertMachineStateLocked out finalDisarm hadRoutes c))"
  by (auto simp: grounded_def)

lemma run_worker_frame [simp]:
  "tcState (snd (run_worker out what c)) = tcState c" "tcMode (snd (run_worker out what c)) = tcMode c"
  "tcRpcOnlyClamp (snd (run_worker out what c)) = tcRpcOnlyClamp c"
  "tcStopAfterStep (snd (run_worker out what c)) = tcStopAfterStep c"
  "tcKillSwitch (snd (run_worker out what c)) = tcKillSwitch c"
  "tcWintun (snd (run_worker out what c)) = tcWintun c"
  "tcAdapter (snd (run_worker out what c)) = tcAdapter c"
  "tcEgress (snd (run_worker out what c)) = tcEgress c" "tcSpace (snd (run_worker out what c)) = tcSpace c"
  "tcDevice (snd (run_worker out what c)) = tcDevice c" "tcPump (snd (run_worker out what c)) = tcPump c"
  "tcSplit (snd (run_worker out what c)) = tcSplit c"
  "tcNetConfig (snd (run_worker out what c)) = tcNetConfig c"
  "tcLiveEgress (snd (run_worker out what c)) = tcLiveEgress c"
  "tcProviderDevice (snd (run_worker out what c)) = tcProviderDevice c"
  "tcProviderSpace (snd (run_worker out what c)) = tcProviderSpace c"
  "tcProviderEgress (snd (run_worker out what c)) = tcProviderEgress c"
  "tcHandedDevice (snd (run_worker out what c)) = tcHandedDevice c"
  "tcHandedSpace (snd (run_worker out what c)) = tcHandedSpace c"
  "tcLogUpload (snd (run_worker out what c)) = tcLogUpload c"
  "tcMarker (snd (run_worker out what c)) = tcMarker c"
  "tcReadiness (snd (run_worker out what c)) = tcReadiness c"
  "tcSession (snd (run_worker out what c)) = tcSession c"
  "tcUpSince (snd (run_worker out what c)) = tcUpSince c" "tcWfp (snd (run_worker out what c)) = tcWfp c"
  "tcMirror (snd (run_worker out what c)) = tcMirror c"
  "tcUpSinceMirror (snd (run_worker out what c)) = tcUpSinceMirror c"
  "tcSessionIdentity (snd (run_worker out what c)) = tcSessionIdentity c"
  "tcConnectingWatch (snd (run_worker out what c)) = tcConnectingWatch c"
  by (simp_all add: run_worker_def split: prod.splits)

lemma run_worker_calls [simp]: "tcCalls (snd (run_worker out what c)) = what (tcNextGate c) # tcCalls c"
  by (simp add: run_worker_def split: prod.splits)

definition removes_objects :: "(gate \<Rightarrow> Call) \<Rightarrow> bool" where
  "removes_objects what \<longleftrightarrow> (\<forall>g cs. takes_objects (what g) \<and> routes_out (what g # cs) = routes_out cs)"

lemma workers [simp]: "removes_objects SdkTeardown" "removes_objects ProviderTeardown" "removes_objects HandedOffTeardown"
    "removes_objects LogUploadTeardown"
  by (simp_all add: removes_objects_def)

lemma run_worker_keeps:
  assumes "removes_objects what"
  shows "routes_out (tcCalls (snd (run_worker out what c))) = routes_out (tcCalls c)"
    and "told (snd (run_worker out what c)) = told c"
    and "grounded (snd (run_worker out what c)) = grounded c"
    and "\<not> routes_out (tcCalls c) \<Longrightarrow> orderly (tcCalls c) \<Longrightarrow> orderly (tcCalls (snd (run_worker out what c)))"
  using assms by (auto simp: removes_objects_def told_def grounded_def)

lemma retire_frame [simp]:
  "tcState (RetireProviderDeviceLocked out c) = tcState c"
  "tcMode (RetireProviderDeviceLocked out c) = tcMode c"
  "tcRpcOnlyClamp (RetireProviderDeviceLocked out c) = tcRpcOnlyClamp c"
  "tcStopAfterStep (RetireProviderDeviceLocked out c) = tcStopAfterStep c"
  "tcKillSwitch (RetireProviderDeviceLocked out c) = tcKillSwitch c"
  "tcWintun (RetireProviderDeviceLocked out c) = tcWintun c"
  "tcAdapter (RetireProviderDeviceLocked out c) = tcAdapter c"
  "tcEgress (RetireProviderDeviceLocked out c) = tcEgress c"
  "tcSpace (RetireProviderDeviceLocked out c) = tcSpace c"
  "tcDevice (RetireProviderDeviceLocked out c) = tcDevice c"
  "tcPump (RetireProviderDeviceLocked out c) = tcPump c"
  "tcSplit (RetireProviderDeviceLocked out c) = tcSplit c"
  "tcNetConfig (RetireProviderDeviceLocked out c) = tcNetConfig c"
  "tcLiveEgress (RetireProviderDeviceLocked out c) = tcLiveEgress c"
  "tcHandedDevice (RetireProviderDeviceLocked out c) = tcHandedDevice c"
  "tcHandedSpace (RetireProviderDeviceLocked out c) = tcHandedSpace c"
  "tcLogUpload (RetireProviderDeviceLocked out c) = tcLogUpload c"
  "tcMarker (RetireProviderDeviceLocked out c) = tcMarker c"
  "tcReadiness (RetireProviderDeviceLocked out c) = tcReadiness c"
  "tcSession (RetireProviderDeviceLocked out c) = tcSession c"
  "tcUpSince (RetireProviderDeviceLocked out c) = tcUpSince c"
  "tcWfp (RetireProviderDeviceLocked out c) = tcWfp c"
  "tcSessionIdentity (RetireProviderDeviceLocked out c) = tcSessionIdentity c"
  "tcConnectingWatch (RetireProviderDeviceLocked out c) = tcConnectingWatch c"
  by (simp_all add: RetireProviderDeviceLocked_def clear_provider_def)

lemma retire_results [simp]:
  "tcProviderDevice (RetireProviderDeviceLocked out c) = None"
  "tcProviderSpace (RetireProviderDeviceLocked out c) = None"
  by (simp_all add: RetireProviderDeviceLocked_def clear_provider_def)

lemma retire_keeps:
  "routes_out (tcCalls (RetireProviderDeviceLocked out c)) = routes_out (tcCalls c)"
  "\<not> routes_out (tcCalls c) \<Longrightarrow> orderly (tcCalls c) \<Longrightarrow> orderly (tcCalls (RetireProviderDeviceLocked out c))"
  by (simp_all add: RetireProviderDeviceLocked_def run_worker_keeps clear_provider_def)

lemma retire_told: "told c \<Longrightarrow> told (RetireProviderDeviceLocked out c)"
  by (auto simp: RetireProviderDeviceLocked_def run_worker_keeps clear_provider_def told_def)

lemma country_frame [simp]:
  "tcState (SetNetworkCountry cc source c) = tcState c"
  "tcMode (SetNetworkCountry cc source c) = tcMode c"
  "tcRpcOnlyClamp (SetNetworkCountry cc source c) = tcRpcOnlyClamp c"
  "tcStopAfterStep (SetNetworkCountry cc source c) = tcStopAfterStep c"
  "tcKillSwitch (SetNetworkCountry cc source c) = tcKillSwitch c"
  "tcWfp (SetNetworkCountry cc source c) = tcWfp c"
  "tcEngine (SetNetworkCountry cc source c) = tcEngine c"
  "tcConnectingWatch (SetNetworkCountry cc source c) = tcConnectingWatch c"
  "tcWintun (SetNetworkCountry cc source c) = tcWintun c"
  "tcAdapter (SetNetworkCountry cc source c) = tcAdapter c"
  "tcEgress (SetNetworkCountry cc source c) = tcEgress c"
  "tcSpace (SetNetworkCountry cc source c) = tcSpace c"
  "tcDevice (SetNetworkCountry cc source c) = tcDevice c"
  "tcPump (SetNetworkCountry cc source c) = tcPump c"
  "tcSplit (SetNetworkCountry cc source c) = tcSplit c"
  "tcNetConfig (SetNetworkCountry cc source c) = tcNetConfig c"
  "tcRpcHostPort (SetNetworkCountry cc source c) = tcRpcHostPort c"
  "tcInstanceId (SetNetworkCountry cc source c) = tcInstanceId c"
  "tcRpcSessionId (SetNetworkCountry cc source c) = tcRpcSessionId c"
  "tcError (SetNetworkCountry cc source c) = tcError c"
  "tcStopReason (SetNetworkCountry cc source c) = tcStopReason c"
  "tcUpSince (SetNetworkCountry cc source c) = tcUpSince c"
  "tcUpSinceMirror (SetNetworkCountry cc source c) = tcUpSinceMirror c"
  "tcLiveEgress (SetNetworkCountry cc source c) = tcLiveEgress c"
  "tcMirror (SetNetworkCountry cc source c) = tcMirror c"
  "tcReadiness (SetNetworkCountry cc source c) = tcReadiness c"
  "tcSession (SetNetworkCountry cc source c) = tcSession c"
  "tcWatch (SetNetworkCountry cc source c) = tcWatch c"
  "tcProviderDevice (SetNetworkCountry cc source c) = tcProviderDevice c"
  "tcProviderSpace (SetNetworkCountry cc source c) = tcProviderSpace c"
  "tcProviderEgress (SetNetworkCountry cc source c) = tcProviderEgress c"
  "tcProviderRequest (SetNetworkCountry cc source c) = tcProviderRequest c"
  "tcProviderTier (SetNetworkCountry cc source c) = tcProviderTier c"
  "tcProviderKey (SetNetworkCountry cc source c) = tcProviderKey c"
  "tcSessionIdentity (SetNetworkCountry cc source c) = tcSessionIdentity c"
  "tcHandedDevice (SetNetworkCountry cc source c) = tcHandedDevice c"
  "tcHandedSpace (SetNetworkCountry cc source c) = tcHandedSpace c"
  "tcLogUpload (SetNetworkCountry cc source c) = tcLogUpload c"
  "tcMarker (SetNetworkCountry cc source c) = tcMarker c"
  "tcStops (SetNetworkCountry cc source c) = tcStops c"
  "tcCalls (SetNetworkCountry cc source c) = tcCalls c"
  by (simp_all add: SetNetworkCountry_def Let_def)

lemma retire_upload_frame [simp]:
  "tcState (RetireLogUploadDeviceLocked out c) = tcState c"
  "tcMode (RetireLogUploadDeviceLocked out c) = tcMode c"
  "tcRpcOnlyClamp (RetireLogUploadDeviceLocked out c) = tcRpcOnlyClamp c"
  "tcStopAfterStep (RetireLogUploadDeviceLocked out c) = tcStopAfterStep c"
  "tcKillSwitch (RetireLogUploadDeviceLocked out c) = tcKillSwitch c"
  "tcWintun (RetireLogUploadDeviceLocked out c) = tcWintun c"
  "tcAdapter (RetireLogUploadDeviceLocked out c) = tcAdapter c"
  "tcEgress (RetireLogUploadDeviceLocked out c) = tcEgress c"
  "tcSpace (RetireLogUploadDeviceLocked out c) = tcSpace c"
  "tcDevice (RetireLogUploadDeviceLocked out c) = tcDevice c"
  "tcPump (RetireLogUploadDeviceLocked out c) = tcPump c"
  "tcSplit (RetireLogUploadDeviceLocked out c) = tcSplit c"
  "tcNetConfig (RetireLogUploadDeviceLocked out c) = tcNetConfig c"
  "tcLiveEgress (RetireLogUploadDeviceLocked out c) = tcLiveEgress c"
  "tcHandedDevice (RetireLogUploadDeviceLocked out c) = tcHandedDevice c"
  "tcHandedSpace (RetireLogUploadDeviceLocked out c) = tcHandedSpace c"
  "tcMarker (RetireLogUploadDeviceLocked out c) = tcMarker c"
  "tcReadiness (RetireLogUploadDeviceLocked out c) = tcReadiness c"
  "tcSession (RetireLogUploadDeviceLocked out c) = tcSession c"
  "tcUpSince (RetireLogUploadDeviceLocked out c) = tcUpSince c"
  "tcWfp (RetireLogUploadDeviceLocked out c) = tcWfp c"
  "tcSessionIdentity (RetireLogUploadDeviceLocked out c) = tcSessionIdentity c"
  "tcConnectingWatch (RetireLogUploadDeviceLocked out c) = tcConnectingWatch c"
  "tcProviderDevice (RetireLogUploadDeviceLocked out c) = tcProviderDevice c"
  "tcProviderSpace (RetireLogUploadDeviceLocked out c) = tcProviderSpace c"
  "tcProviderEgress (RetireLogUploadDeviceLocked out c) = tcProviderEgress c"
  "tcMirror (RetireLogUploadDeviceLocked out c) = tcMirror c"
  "tcUpSinceMirror (RetireLogUploadDeviceLocked out c) = tcUpSinceMirror c"
  "tcLogUpload (RetireLogUploadDeviceLocked out c) = None"
  by (simp_all add: RetireLogUploadDeviceLocked_def)

lemma retire_upload_keeps:
  "routes_out (tcCalls (RetireLogUploadDeviceLocked out c)) = routes_out (tcCalls c)"
  "\<not> routes_out (tcCalls c) \<Longrightarrow> orderly (tcCalls c) \<Longrightarrow> orderly (tcCalls (RetireLogUploadDeviceLocked out c))"
  by (simp_all add: RetireLogUploadDeviceLocked_def run_worker_keeps)

lemma retire_upload_told: "told c \<Longrightarrow> told (RetireLogUploadDeviceLocked out c)"
  by (simp add: told_def retire_upload_keeps)


definition session_empty :: "'e Controller \<Rightarrow> bool" where
  "session_empty c \<longleftrightarrow>
    \<not> tcPump c \<and> tcEgress c = None \<and> tcDevice c = None \<and> tcAdapter c = None \<and> \<not> tcWintun c \<and>
    tcSpace c = None \<and> \<not> tcSplit c"

abbreviation torn :: "('e, 'b) Outside \<Rightarrow> bool \<Rightarrow> 'e Controller \<Rightarrow> 'e Controller" where
  "torn out keep c \<equiv> snd (snd (TearDownSessionLocked out keep c))"

lemma teardown_cases:
  "torn out keep c = (if session_empty c then c else snd (run_worker out SdkTeardown (drop_session c)))"
  by (simp add: TearDownSessionLocked_def session_empty_def Let_def split: prod.splits)

lemma teardown_empty: "session_empty (torn out keep c)"
  by (auto simp: teardown_cases session_empty_def drop_session_def)

lemma teardown_frame [simp]:
  "tcState (torn out keep c) = tcState c" "tcMode (torn out keep c) = tcMode c"
  "tcRpcOnlyClamp (torn out keep c) = tcRpcOnlyClamp c"
  "tcStopAfterStep (torn out keep c) = tcStopAfterStep c" "tcKillSwitch (torn out keep c) = tcKillSwitch c"
  "tcNetConfig (torn out keep c) = tcNetConfig c" "tcProviderDevice (torn out keep c) = tcProviderDevice c"
  "tcProviderSpace (torn out keep c) = tcProviderSpace c"
  "tcProviderEgress (torn out keep c) = tcProviderEgress c"
  "tcHandedDevice (torn out keep c) = tcHandedDevice c" "tcHandedSpace (torn out keep c) = tcHandedSpace c"
  "tcLogUpload (torn out keep c) = tcLogUpload c"
  "tcMarker (torn out keep c) = tcMarker c" "tcReadiness (torn out keep c) = tcReadiness c"
  "tcSession (torn out keep c) = tcSession c" "tcUpSince (torn out keep c) = tcUpSince c"
  "tcWfp (torn out keep c) = tcWfp c" "tcMirror (torn out keep c) = tcMirror c"
  "tcSessionIdentity (torn out keep c) = tcSessionIdentity c"
  by (simp_all add: teardown_cases drop_session_def)

lemma teardown_keeps:
  "routes_out (tcCalls (torn out keep c)) = routes_out (tcCalls c)"
  "grounded c \<Longrightarrow> grounded (torn out keep c)"
  "\<not> routes_out (tcCalls c) \<Longrightarrow> orderly (tcCalls c) \<Longrightarrow> orderly (tcCalls (torn out keep c))"
  by (simp_all add: teardown_cases run_worker_keeps drop_session_def grounded_def)

lemma teardown_kept:
  "fst (fst (snd (TearDownSessionLocked out keep c))) \<noteq> None \<Longrightarrow>
    fst (snd (TearDownSessionLocked out keep c)) = (tcDevice c, tcSpace c) \<and> tcDevice c \<noteq> None \<and> keep"
  by (auto simp: TearDownSessionLocked_def Let_def split: prod.splits if_splits)

lemma resume_frame [simp]:
  "tcState (ResumeProvidingLocked out kept c) = tcState c"
  "tcMode (ResumeProvidingLocked out kept c) = tcMode c"
  "tcRpcOnlyClamp (ResumeProvidingLocked out kept c) = tcRpcOnlyClamp c"
  "tcStopAfterStep (ResumeProvidingLocked out kept c) = tcStopAfterStep c"
  "tcKillSwitch (ResumeProvidingLocked out kept c) = tcKillSwitch c"
  "tcWintun (ResumeProvidingLocked out kept c) = tcWintun c"
  "tcAdapter (ResumeProvidingLocked out kept c) = tcAdapter c"
  "tcEgress (ResumeProvidingLocked out kept c) = tcEgress c"
  "tcSpace (ResumeProvidingLocked out kept c) = tcSpace c"
  "tcDevice (ResumeProvidingLocked out kept c) = tcDevice c"
  "tcPump (ResumeProvidingLocked out kept c) = tcPump c"
  "tcSplit (ResumeProvidingLocked out kept c) = tcSplit c"
  "tcNetConfig (ResumeProvidingLocked out kept c) = tcNetConfig c"
  "tcLiveEgress (ResumeProvidingLocked out kept c) = tcLiveEgress c"
  "tcHandedDevice (ResumeProvidingLocked out kept c) = tcHandedDevice c"
  "tcHandedSpace (ResumeProvidingLocked out kept c) = tcHandedSpace c"
  "tcLogUpload (ResumeProvidingLocked out kept c) = tcLogUpload c"
  "tcMarker (ResumeProvidingLocked out kept c) = tcMarker c"
  "tcReadiness (ResumeProvidingLocked out kept c) = tcReadiness c"
  "tcSession (ResumeProvidingLocked out kept c) = tcSession c"
  "tcUpSince (ResumeProvidingLocked out kept c) = tcUpSince c"
  "tcWfp (ResumeProvidingLocked out kept c) = tcWfp c"
  by (simp_all add: ResumeProvidingLocked_def ReadProviderFactsLocked_def Let_def)

lemma resume_keeps:
  "routes_out (tcCalls (ResumeProvidingLocked out kept c)) = routes_out (tcCalls c)"
  "\<not> routes_out (tcCalls c) \<Longrightarrow> orderly (tcCalls c) \<Longrightarrow> orderly (tcCalls (ResumeProvidingLocked out kept c))"
  by (simp_all add: ResumeProvidingLocked_def ReadProviderFactsLocked_def Let_def retire_keeps)

lemma resume_told: "told c \<Longrightarrow> told (ResumeProvidingLocked out kept c)"
proof -
  assume t: "told c"
  have "told (c\<lparr>tcProviderSpace := snd kept, tcProviderDevice := fst kept\<rparr>)" using t by (simp add: told_def)
  from retire_told [OF this] t show ?thesis
    by (auto simp: ResumeProvidingLocked_def ReadProviderFactsLocked_def Let_def told_def)
qed

lemma finish_stop_cases:
  "finish_stop out keep c =
    (let c2 = SetStateLocked out Stopped ((torn out keep c)
          \<lparr>tcRpcHostPort := [], tcInstanceId := [], tcRpcSessionId := [], tcUpSince := 0\<rparr>);
         kept = fst (snd (TearDownSessionLocked out keep c))
     in (if fst kept \<noteq> None then ResumeProvidingLocked out kept c2 else c2)\<lparr>tcSessionIdentity := NoProviderRequest\<rparr>)"
  by (simp add: finish_stop_def split: prod.splits)

lemma told_identity: "told (c\<lparr>tcSessionIdentity := x\<rparr>) = told c"
  by (simp add: told_def)

lemma finish_stop_told:
  assumes "grounded c"
  shows "told (finish_stop out keep c)"
proof -
  let ?c2 = "SetStateLocked out Stopped ((torn out keep c)
      \<lparr>tcRpcHostPort := [], tcInstanceId := [], tcRpcSessionId := [], tcUpSince := 0\<rparr>)"
  have "told ?c2" using teardown_keeps(2) [OF assms, of out keep] by (auto simp: told_def grounded_def)
  from resume_told [OF this, of out] this show ?thesis
    unfolding finish_stop_cases Let_def by (simp add: told_identity del: publish_defs)
qed

lemma finish_stop_frame [simp]:
  "tcMode (finish_stop out keep c) = tcMode c" "tcRpcOnlyClamp (finish_stop out keep c) = tcRpcOnlyClamp c"
  "tcStopAfterStep (finish_stop out keep c) = tcStopAfterStep c"
  "tcKillSwitch (finish_stop out keep c) = tcKillSwitch c"
  "tcNetConfig (finish_stop out keep c) = tcNetConfig c"
  "tcHandedDevice (finish_stop out keep c) = tcHandedDevice c"
  "tcLogUpload (finish_stop out keep c) = tcLogUpload c"
  "tcHandedSpace (finish_stop out keep c) = tcHandedSpace c" "tcMarker (finish_stop out keep c) = tcMarker c"
  "tcReadiness (finish_stop out keep c) = tcReadiness c" "tcSession (finish_stop out keep c) = tcSession c"
  "tcWfp (finish_stop out keep c) = tcWfp c"
  by (simp_all add: finish_stop_cases Let_def)

lemma finish_stop_results:
  "tcState (finish_stop out keep c) = Stopped"
  "session_empty (finish_stop out keep c)"
  "tcUpSince (finish_stop out keep c) = 0"
  using teardown_empty [of out keep c] by (simp_all add: finish_stop_cases Let_def session_empty_def)

lemma finish_stop_keeps:
  "routes_out (tcCalls (finish_stop out keep c)) = routes_out (tcCalls c)"
  "\<not> routes_out (tcCalls c) \<Longrightarrow> orderly (tcCalls c) \<Longrightarrow> orderly (tcCalls (finish_stop out keep c))"
  by (simp_all add: finish_stop_cases Let_def resume_keeps teardown_keeps)

lemma finish_stop_provider:
  "\<not> keep \<Longrightarrow> tcProviderDevice (finish_stop out keep c) = tcProviderDevice c \<and>
    tcProviderSpace (finish_stop out keep c) = tcProviderSpace c"
  using teardown_kept [of out keep c] by (auto simp: finish_stop_cases Let_def)

lemma stop_machine_frame [simp]:
  "tcMode (stop_machine out finalDisarm c) = tcMode c"
  "tcRpcOnlyClamp (stop_machine out finalDisarm c) = tcRpcOnlyClamp c"
  "tcStopAfterStep (stop_machine out finalDisarm c) = tcStopAfterStep c"
  "tcKillSwitch (stop_machine out finalDisarm c) = tcKillSwitch c"
  "tcWintun (stop_machine out finalDisarm c) = tcWintun c"
  "tcAdapter (stop_machine out finalDisarm c) = tcAdapter c"
  "tcEgress (stop_machine out finalDisarm c) = tcEgress c"
  "tcSpace (stop_machine out finalDisarm c) = tcSpace c"
  "tcDevice (stop_machine out finalDisarm c) = tcDevice c"
  "tcPump (stop_machine out finalDisarm c) = tcPump c" "tcSplit (stop_machine out finalDisarm c) = tcSplit c"
  "tcLiveEgress (stop_machine out finalDisarm c) = tcLiveEgress c"
  "tcHandedDevice (stop_machine out finalDisarm c) = tcHandedDevice c"
  "tcHandedSpace (stop_machine out finalDisarm c) = tcHandedSpace c"
  "tcSession (stop_machine out finalDisarm c) = tcSession c"
  "tcUpSince (stop_machine out finalDisarm c) = tcUpSince c"
  by (simp_all add: stop_machine_def Let_def)

lemma StopLocked_halves:
  "StopLocked out finalDisarm disconnect c =
    (let c4 = stop_machine out finalDisarm c
     in if disconnect \<and> tcDevice c \<noteq> None
        then finish_stop out (fst (keep_device out c4)) (snd (keep_device out c4))
        else finish_stop out False c4)"
  by (auto simp: StopLocked_def Let_def case_prod_beta)

lemma stop_machine_results [simp]:
  "tcNetConfig (stop_machine out finalDisarm c) = None"
  "tcMarker (stop_machine out finalDisarm c) = False"
  "tcProviderDevice (stop_machine out finalDisarm c) = None"
  "tcProviderSpace (stop_machine out finalDisarm c) = None"
  "tcLogUpload (stop_machine out finalDisarm c) = None"
  "tcReadiness (stop_machine out finalDisarm c) = Cancel (tcReadiness c)"
  by (simp_all add: stop_machine_def Let_def)

lemma stop_machine_keeps:
  assumes "grounded c"
  shows "\<not> routes_out (tcCalls (stop_machine out finalDisarm c))"
    and "orderly (tcCalls c) \<Longrightarrow> orderly (tcCalls (stop_machine out finalDisarm c))"
  using assms
  by (cases "tcNetConfig c";
      auto simp: stop_machine_def Let_def retire_keeps retire_upload_keeps(1) grounded_def
        intro!: retire_upload_keeps(2) retire_keeps(2))+

lemma stop_machine_policy:
  "finalDisarm \<or> \<not> tcKillSwitch c \<Longrightarrow> pState (tcWfp (stop_machine out finalDisarm c)) = Wfp_Off"
  "\<not> finalDisarm \<Longrightarrow> tcKillSwitch c \<Longrightarrow> pState (tcWfp c) \<noteq> Wfp_Off \<Longrightarrow>
    pState (tcWfp (stop_machine out finalDisarm c)) \<noteq> Wfp_Off"
  "\<not> finalDisarm \<Longrightarrow> tcNetConfig c = None \<Longrightarrow> pState (tcWfp c) = Wfp_Off \<Longrightarrow>
    pState (tcWfp (stop_machine out finalDisarm c)) = Wfp_Off"
  by (auto simp: stop_machine_def Let_def revert_machine_policy)

lemma keep_device_frame [simp]:
  "tcState (snd (keep_device out c)) = tcState c" "tcMode (snd (keep_device out c)) = tcMode c"
  "tcRpcOnlyClamp (snd (keep_device out c)) = tcRpcOnlyClamp c"
  "tcStopAfterStep (snd (keep_device out c)) = tcStopAfterStep c"
  "tcKillSwitch (snd (keep_device out c)) = tcKillSwitch c" "tcWintun (snd (keep_device out c)) = tcWintun c"
  "tcAdapter (snd (keep_device out c)) = tcAdapter c" "tcEgress (snd (keep_device out c)) = tcEgress c"
  "tcSpace (snd (keep_device out c)) = tcSpace c" "tcDevice (snd (keep_device out c)) = tcDevice c"
  "tcPump (snd (keep_device out c)) = tcPump c" "tcSplit (snd (keep_device out c)) = tcSplit c"
  "tcNetConfig (snd (keep_device out c)) = tcNetConfig c"
  "tcLiveEgress (snd (keep_device out c)) = tcLiveEgress c"
  "tcProviderDevice (snd (keep_device out c)) = tcProviderDevice c"
  "tcProviderSpace (snd (keep_device out c)) = tcProviderSpace c"
  "tcProviderEgress (snd (keep_device out c)) = tcProviderEgress c"
  "tcHandedDevice (snd (keep_device out c)) = tcHandedDevice c"
  "tcHandedSpace (snd (keep_device out c)) = tcHandedSpace c"
  "tcLogUpload (snd (keep_device out c)) = tcLogUpload c"
  "tcMarker (snd (keep_device out c)) = tcMarker c" "tcCalls (snd (keep_device out c)) = tcCalls c"
  "tcReadiness (snd (keep_device out c)) = tcReadiness c" "tcSession (snd (keep_device out c)) = tcSession c"
  "tcUpSince (snd (keep_device out c)) = tcUpSince c" "tcWfp (snd (keep_device out c)) = tcWfp c"
  "tcMirror (snd (keep_device out c)) = tcMirror c"
  by (simp_all add: keep_device_def split: prod.splits)

lemma StopLocked_frame [simp]:
  "tcMode (StopLocked out finalDisarm disconnect c) = tcMode c"
  "tcRpcOnlyClamp (StopLocked out finalDisarm disconnect c) = tcRpcOnlyClamp c"
  "tcStopAfterStep (StopLocked out finalDisarm disconnect c) = tcStopAfterStep c"
  "tcKillSwitch (StopLocked out finalDisarm disconnect c) = tcKillSwitch c"
  "tcHandedDevice (StopLocked out finalDisarm disconnect c) = tcHandedDevice c"
  "tcHandedSpace (StopLocked out finalDisarm disconnect c) = tcHandedSpace c"
  "tcLogUpload (StopLocked out finalDisarm disconnect c) = None"
  "tcSession (StopLocked out finalDisarm disconnect c) = tcSession c"
  by (simp_all add: StopLocked_halves Let_def)

lemma StopLocked_results [simp]:
  "tcState (StopLocked out finalDisarm disconnect c) = Stopped"
  "tcNetConfig (StopLocked out finalDisarm disconnect c) = None"
  "tcMarker (StopLocked out finalDisarm disconnect c) = False"
  "tcReadiness (StopLocked out finalDisarm disconnect c) = Cancel (tcReadiness c)"
  "session_empty (StopLocked out finalDisarm disconnect c)"
  by (simp_all add: StopLocked_halves Let_def finish_stop_results)

lemma StopLocked_objects [simp]:
  "\<not> tcPump (StopLocked out finalDisarm disconnect c)" "tcEgress (StopLocked out finalDisarm disconnect c) = None"
  "tcDevice (StopLocked out finalDisarm disconnect c) = None" "tcAdapter (StopLocked out finalDisarm disconnect c) = None"
  "\<not> tcWintun (StopLocked out finalDisarm disconnect c)" "tcSpace (StopLocked out finalDisarm disconnect c) = None"
  "\<not> tcSplit (StopLocked out finalDisarm disconnect c)"
  using StopLocked_results(5) [of out finalDisarm disconnect c] by (simp_all add: session_empty_def)

lemma StopLocked_routes:
  assumes "grounded c"
  shows "\<not> routes_out (tcCalls (StopLocked out finalDisarm disconnect c))"
    and "orderly (tcCalls c) \<Longrightarrow> orderly (tcCalls (StopLocked out finalDisarm disconnect c))"
    and "told (StopLocked out finalDisarm disconnect c)"
proof -
  have n: "grounded (stop_machine out finalDisarm c)"
    using stop_machine_keeps(1) [OF assms, of out finalDisarm] by (simp add: grounded_def)
  then have k: "grounded (snd (keep_device out (stop_machine out finalDisarm c)))" by (simp add: grounded_def)
  show "\<not> routes_out (tcCalls (StopLocked out finalDisarm disconnect c))"
    using stop_machine_keeps(1) [OF assms, of out finalDisarm] by (simp add: StopLocked_halves Let_def finish_stop_keeps)
  show "orderly (tcCalls (StopLocked out finalDisarm disconnect c))" if "orderly (tcCalls c)"
    using stop_machine_keeps [OF assms, of out finalDisarm] that by (simp add: StopLocked_halves Let_def finish_stop_keeps)
  show "told (StopLocked out finalDisarm disconnect c)"
    using finish_stop_told [OF n, of out] finish_stop_told [OF k, of out] by (simp add: StopLocked_halves Let_def)
qed

lemma StopLocked_policy:
  "finalDisarm \<or> \<not> tcKillSwitch c \<Longrightarrow> pState (tcWfp (StopLocked out finalDisarm disconnect c)) = Wfp_Off"
  "\<not> finalDisarm \<Longrightarrow> tcKillSwitch c \<Longrightarrow> pState (tcWfp c) \<noteq> Wfp_Off \<Longrightarrow>
    pState (tcWfp (StopLocked out finalDisarm disconnect c)) \<noteq> Wfp_Off"
  "\<not> finalDisarm \<Longrightarrow> tcNetConfig c = None \<Longrightarrow> pState (tcWfp c) = Wfp_Off \<Longrightarrow>
    pState (tcWfp (StopLocked out finalDisarm disconnect c)) = Wfp_Off"
  by (simp_all add: StopLocked_halves Let_def stop_machine_policy)

lemma StopLocked_provider [simp]:
  "tcProviderDevice (StopLocked out finalDisarm False c) = None"
  "tcProviderSpace (StopLocked out finalDisarm False c) = None"
  using finish_stop_provider [of False out "stop_machine out finalDisarm c"]
  by (simp_all add: StopLocked_halves Let_def)

section \<open>The invariant of the controller\<close>

definition bound_live :: "'e Controller \<Rightarrow> bool" where
  "bound_live c \<longleftrightarrow> (\<forall>b. tcEgress c = Some b \<longrightarrow> tcLiveEgress c = b)"

definition alone :: "'e Controller \<Rightarrow> bool" where
  "alone c \<longleftrightarrow> tcProviderDevice c = None \<and> tcProviderSpace c = None \<and> tcLogUpload c = None"

definition carrying :: "'e Controller \<Rightarrow> bool" where
  "carrying c \<longleftrightarrow>
    tcMode c = Mode_Tunnel \<and> tcAdapter c \<noteq> None \<and> tcDevice c \<noteq> None \<and> tcEgress c \<noteq> None \<and> tcPump c"

definition settled :: "'e Controller \<Rightarrow> bool" where
  "settled c \<longleftrightarrow>
    told c \<and> orderly (tcCalls c) \<and> bound_live c \<and>
    tcState c \<noteq> Starting \<and> tcState c \<noteq> Stopping \<and>
    (tcState c = Stopped \<or> tcState c = Error \<longrightarrow> session_empty c) \<and>
    (tcState c = Preparing \<longrightarrow> tcEgress c \<noteq> None) \<and>
    (tcNetConfig c \<noteq> None \<longrightarrow> (tcState c = Up \<or> tcState c = Preparing) \<and> carrying c) \<and>
    (tcState c = Up \<longrightarrow> (\<exists>n. tcNetConfig c = Some n \<and> DnsApplied n) \<and>
      (pState (tcWfp c) = Wfp_Off \<or> pState (tcWfp c) = Wfp_Connected) \<and> \<not> tcConnectingWatch c) \<and>
    (tcDevice c \<noteq> None \<longrightarrow> alone c) \<and>
    (tcLogUpload c \<noteq> None \<longrightarrow> tcProviderDevice c = None)"

definition controller_inv :: "'e Controller \<Rightarrow> bool" where
  "controller_inv c \<longleftrightarrow> settled c \<and> tcHandedDevice c = None \<and> tcHandedSpace c = None"

lemma settled_told: "settled c \<Longrightarrow> told c"
  by (simp add: settled_def)

lemma settled_grounded: "settled c \<Longrightarrow> grounded c"
  by (simp add: settled_def told_grounded)

lemma settled_orderly: "settled c \<Longrightarrow> orderly (tcCalls c)"
  by (simp add: settled_def)

lemma stop_settled:
  assumes "grounded c" and "orderly (tcCalls c)"
  shows "settled (StopLocked out finalDisarm disconnect c)"
  using StopLocked_routes [OF assms(1), of out finalDisarm disconnect] assms(2)
    StopLocked_results(5) [of out finalDisarm disconnect c]
  by (simp add: settled_def session_empty_def bound_live_def)

lemma error_settled:
  assumes "settled c" and "tcState c = Stopped"
  shows "settled (SetStateLocked out Error c)"
  using assms settled_grounded [OF assms(1)]
  by (auto simp: settled_def told_def grounded_def session_empty_def bound_live_def alone_def)

definition resting :: "'e Controller \<Rightarrow> bool" where
  "resting c \<longleftrightarrow> settled c \<and> tcNetConfig c = None"

lemma resting_no_routes: "resting c \<Longrightarrow> \<not> routes_out (tcCalls c)"
  by (auto simp: resting_def settled_def told_def)

lemma stop_resting: "grounded c \<Longrightarrow> orderly (tcCalls c) \<Longrightarrow> resting (StopLocked out finalDisarm disconnect c)"
  by (simp add: resting_def stop_settled)

lemma error_resting: "resting c \<Longrightarrow> tcState c = Stopped \<Longrightarrow> resting (SetStateLocked out Error c)"
  using error_settled [of c out] by (simp add: resting_def del: publish_defs) (simp add: SetStateLocked_def)

lemma resting_publish: "resting c \<Longrightarrow> resting (StatusLocked out c)"
  by (auto simp: resting_def settled_def told_def session_empty_def bound_live_def alone_def carrying_def)

subsection \<open>A start\<close>

definition stepping :: "'e Controller \<Rightarrow> bool" where
  "stepping c \<longleftrightarrow> told c \<and> orderly (tcCalls c) \<and> tcNetConfig c = None \<and> alone c \<and> bound_live c"

fun flow_ok :: "('e Controller \<Rightarrow> bool) \<Rightarrow> 'e Controller Flow \<Rightarrow> bool" where
  "flow_ok G (Go c) = G c"
| "flow_ok G (Return c) = resting c"
| "flow_ok G (Throw what c) = stepping c"

lemma flow_and_then:
  "flow_ok G f \<Longrightarrow> (\<And>c. G c \<Longrightarrow> flow_ok G' (g c)) \<Longrightarrow> flow_ok G' (and_then f g)"
  by (cases f) simp_all

lemma stepping_grounded: "stepping c \<Longrightarrow> grounded c \<and> orderly (tcCalls c)"
  by (simp add: stepping_def told_grounded)

lemma stepping_fields:
  assumes "stepping c"
  shows "stepping (c\<lparr>tcWintun := a, tcAdapter := b\<rparr>)" "stepping (c\<lparr>tcWintun := a\<rparr>)"
    "stepping (c\<lparr>tcSpace := d, tcHandedSpace := e\<rparr>)" "stepping (c\<lparr>tcSpace := d\<rparr>)"
    "stepping (c\<lparr>tcDevice := d, tcHandedDevice := e\<rparr>)" "stepping (c\<lparr>tcDevice := d\<rparr>)"
    "stepping (c\<lparr>tcEgress := Some x, tcLiveEgress := x\<rparr>)" "stepping (c\<lparr>tcError := t\<rparr>)"
  using assms by (auto simp: stepping_def told_def alone_def bound_live_def)

lemma halt_ok:
  assumes "stepping c" and "G c"
  shows "flow_ok G (halt_here out step c)"
  using assms stop_resting [of c out True False] stepping_grounded [OF assms(1)]
  by (auto simp: halt_here_def HaltAfterStepLocked_def)

lemma wintun_ok: "stepping c \<Longrightarrow> flow_ok stepping (start_wintun out c)"
  by (auto simp: start_wintun_def stepping_fields intro!: halt_ok split: option.splits sum.splits)

definition stepping_bound :: "'e Controller \<Rightarrow> bool" where
  "stepping_bound c \<longleftrightarrow> stepping c \<and> tcEgress c \<noteq> None"

lemma egress_ok: "stepping c \<Longrightarrow> flow_ok stepping_bound (start_egress out c)"
  by (auto simp: start_egress_def stepping_bound_def stepping_fields intro!: halt_ok)

lemma stepping_space [simp]:
  "stepping (SetNetworkCountry cc source c) \<longleftrightarrow> stepping c" "stepping (c\<lparr>tcLastSpace := b\<rparr>) \<longleftrightarrow> stepping c"
  by (auto simp: stepping_def told_def alone_def bound_live_def)

lemma stepping_imported: "stepping c \<Longrightarrow> stepping (c\<lparr>tcLastSpace := b, tcSpace := d\<rparr>)"
  by (auto simp: stepping_def told_def alone_def bound_live_def)

lemma space_ok: "stepping_bound c \<Longrightarrow> flow_ok stepping_bound (start_space out config c)"
  by (auto simp: start_space_def ImportNetworkSpaceLocked_def Let_def stepping_bound_def stepping_fields stepping_imported
      intro!: halt_ok split: option.splits sum.splits)

lemma device_ok: "stepping_bound c \<Longrightarrow> flow_ok stepping_bound (start_device out c)"
  by (auto simp: start_device_def stepping_bound_def stepping_fields intro!: halt_ok split: option.splits sum.splits)

lemma stepping_publish: "stepping c \<Longrightarrow> stepping (SetStateLocked out st c)" "stepping c \<Longrightarrow> stepping (StatusLocked out c)"
  by (auto simp: stepping_def told_def alone_def bound_live_def)

lemma rpc_ok: "stepping_bound c \<Longrightarrow> flow_ok stepping_bound (start_rpc out config c)"
proof -
  assume s: "stepping_bound c"
  then have "stepping (c\<lparr>tcRpcHostPort := stRpcHostPort config\<rparr>)"
    by (auto simp: stepping_bound_def stepping_def told_def alone_def bound_live_def)
  from stepping_publish(2) [OF this, of out] s show ?thesis
    by (auto simp: start_rpc_def stepping_bound_def intro!: halt_ok split: option.splits)
qed

lemma fence_ok: "stepping_bound c \<Longrightarrow> flow_ok resting (the_fence out c)"
proof -
  assume s: "stepping_bound c"
  then have "resting ((SetStateLocked out Preparing c)\<lparr>tcWatch := Watch_Capture\<rparr>)"
    and "resting ((StatusLocked out ((SetStateLocked out RpcOnly c)\<lparr>tcUpSince := oNow out\<rparr>))\<lparr>tcWatch := Watch_RpcOnly\<rparr>)"
    by (auto simp: resting_def settled_def stepping_bound_def stepping_def told_def bound_live_def alone_def)
  then show ?thesis
    using stop_resting [of c out True False] s stepping_grounded [of c]
    unfolding the_fence_def stepping_bound_def by (simp del: publish_defs)
qed

lemma steps_ok: "stepping c \<Longrightarrow> flow_ok resting (start_steps out config c)"
  unfolding start_steps_def
  by (rule flow_and_then [OF flow_and_then [OF flow_and_then [OF flow_and_then [OF flow_and_then [OF wintun_ok
      egress_ok] space_ok] device_ok] rpc_ok] fence_ok])

lemma run_session_resting:
  assumes "stepping c"
  shows "resting (run_session out config c)"
proof -
  let ?b = "begin_session out config c"
  have "stepping ?b" using assms by (auto simp: begin_session_def Let_def stepping_def told_def alone_def bound_live_def)
  then have "stepping (widen_for_attempt out ?b)"
    using transition_told [of ?b out Wfp_Connecting]
    by (auto simp: widen_for_attempt_def stepping_def alone_def bound_live_def)
  note f = steps_ok [OF this, of out config]
  have "resting (SetStateLocked out Error (StopLocked out False False (SetStateLocked out Error (c1\<lparr>tcError := w\<rparr>))))"
    if "stepping c1" for c1 w
    using stepping_grounded [OF stepping_publish(1) [OF stepping_fields(8) [OF that, of w], of out Error]]
    by (intro error_resting stop_resting StopLocked_results(1)) simp_all
  then show ?thesis using f
    unfolding run_session_def by (cases "start_steps out config (widen_for_attempt out ?b)") simp_all
qed
lemma admit_resting:
  assumes "stepping c" and "resting c" and "tcState c = Stopped"
  shows "resting (StatusLocked out (admit_session out config c))"
proof -
  have run: "resting (run_session out config (c\<lparr>tcStops := s\<rparr>))" for s
    using assms(1) by (intro run_session_resting) (auto simp: stepping_def told_def alone_def bound_live_def)
  have fail: "resting (StatusLocked out ((SetStateLocked out Error (c\<lparr>tcStops := s\<rparr>))\<lparr>tcError := t\<rparr>))" for s t
    using assms
    by (auto simp: resting_def settled_def told_def session_empty_def bound_live_def alone_def)
  have fail': "resting (StatusLocked out ((SetStateLocked out Error c)\<lparr>tcError := t\<rparr>))" for t
    using assms
    by (auto simp: resting_def settled_def told_def session_empty_def bound_live_def alone_def)
  show ?thesis
    using fail fail' resting_publish [OF run, of out]
    unfolding admit_session_def by (auto split: prod.splits simp del: publish_defs)
qed

lemma close_handed_settled: "settled c \<Longrightarrow> \<not> routes_out (tcCalls c) \<Longrightarrow> settled (CloseHandedOffDeviceLocked out c)"
  by (auto simp: CloseHandedOffDeviceLocked_def settled_def told_def session_empty_def bound_live_def alone_def
      carrying_def)

lemma close_handed_resting: "resting c \<Longrightarrow> settled (CloseHandedOffDeviceLocked out c)"
  using resting_no_routes [of c] by (simp add: resting_def close_handed_settled)

lemma close_handed_empty:
  "tcHandedDevice (CloseHandedOffDeviceLocked out c) = None" "tcHandedSpace (CloseHandedOffDeviceLocked out c) = None"
  by (auto simp: CloseHandedOffDeviceLocked_def)

lemma take_provider_keeps:
  "grounded c \<Longrightarrow> grounded (TakeProviderDeviceLocked out config c)"
  "tcCalls (TakeProviderDeviceLocked out config c) = tcCalls c"
  by (auto simp: TakeProviderDeviceLocked_def clear_provider_def grounded_def)


lemma StartLocked_inv:
  assumes "controller_inv c"
  shows "controller_inv (StartLocked out config c)"
proof -
  let ?c1 = "TakeProviderDeviceLocked out config (c\<lparr>tcKillSwitch := stKillSwitch config\<rparr>)"
  let ?c2 = "StopLocked out False False ?c1"
  have g: "grounded c" and o: "orderly (tcCalls c)"
    using assms by (simp_all add: controller_inv_def settled_grounded settled_orderly)
  then have "grounded (c\<lparr>tcKillSwitch := stKillSwitch config\<rparr>)" by (simp add: grounded_def)
  with o have r: "resting ?c2" by (intro stop_resting) (simp_all add: take_provider_keeps)
  have e: "session_empty ?c2" by simp
  have "resting (?c2\<lparr>tcReadiness := x, tcSession := y, tcStopReason := z\<rparr>)"
    and "stepping (?c2\<lparr>tcReadiness := x, tcSession := y, tcStopReason := z\<rparr>)" for x y z
    using r e
    by (auto simp: resting_def settled_def stepping_def told_def alone_def bound_live_def session_empty_def carrying_def)
  from admit_resting [OF this(2,1)] have
    "resting (StatusLocked out (admit_session out config (?c2\<lparr>tcReadiness := x, tcSession := y, tcStopReason := z\<rparr>)))"
    for x y z by simp
  from close_handed_resting [OF this] show ?thesis
    unfolding StartLocked_def Let_def controller_inv_def by (simp only: close_handed_empty simp_thms)
qed

subsection \<open>A capture\<close>

definition staged :: "'e Controller \<Rightarrow> bool" where
  "staged c \<longleftrightarrow>
    grounded c \<and> orderly (tcCalls c) \<and> bound_live c \<and> alone c \<and>
    tcHandedDevice c = None \<and> tcHandedSpace c = None \<and>
    (tcState c = Preparing \<and> tcMode c = Mode_Tunnel \<and> tcAdapter c \<noteq> None \<and> tcDevice c \<noteq> None \<and> tcEgress c \<noteq> None \<or>
     tcState c = Stopped \<and> session_empty c \<and> tcNetConfig c = None)"

lemma stop_staged: "staged c \<Longrightarrow> staged (StopLocked out finalDisarm False c)"
  using StopLocked_routes [of c out finalDisarm False]
  by (simp add: staged_def alone_def bound_live_def grounded_def session_empty_def)

lemma transition_staged: "staged c \<Longrightarrow> staged (snd (ApplyWfpLocked out st c))"
  by (simp add: staged_def grounded_def alone_def bound_live_def session_empty_def)

lemma halt_staged: "staged c \<Longrightarrow> staged (snd (HaltAfterStepLocked out step c))"
  by (simp add: HaltAfterStepLocked_def stop_staged)

declare stage_action.simps [simp del]

lemma checkpoints_cases:
  "capture_checkpoints out c =
    (if tcStopAfterStep c \<noteq> 0 \<and> tcStopAfterStep c \<le> 8 then (Declined, StopLocked out True False c) else (Applied, c))"
  by (simp add: capture_checkpoints_def HaltAfterStepLocked_def)

lemma call_staged:
  "staged c \<Longrightarrow> staged (call FlushResolverCache c)" "staged c \<Longrightarrow> staged (call (PushRules ps a) c)"
  by (simp_all add: staged_def grounded_def alone_def bound_live_def session_empty_def)

lemma checkpoints_staged: "staged c \<Longrightarrow> staged (snd (capture_checkpoints out c))"
  by (simp add: checkpoints_cases stop_staged)

lemma stage_staged: "staged c \<Longrightarrow> tcState c = Preparing \<Longrightarrow> staged (snd (stage_action out stage c))"
proof (cases stage)
  case Prepare
  assume s: "staged c" "tcState c = Preparing"
  have "staged (PushExcludedToDriver ps a (c\<lparr>tcSplit := b\<rparr>))" for ps a b
    using s by (auto simp: PushExcludedToDriver_def staged_def grounded_def alone_def bound_live_def session_empty_def)
  moreover have "staged (x\<lparr>tcPump := True\<rparr>)" if "staged x" "tcState x = Preparing" for x :: "'a Controller"
    using that by (auto simp: staged_def grounded_def alone_def bound_live_def session_empty_def)
  ultimately show ?thesis
    using Prepare s by (simp add: stage_action.simps Let_def) (simp add: PushExcludedToDriver_def)
next
  case Firewall
  assume s: "staged c"
  then show ?thesis using Firewall transition_staged [OF s, of out Wfp_Connecting] by (auto simp: stage_action.simps split: prod.splits)
next
  case Network
  assume "staged c" "tcState c = Preparing"
  then show ?thesis using Network
    by (auto simp: stage_action.simps Let_def staged_def grounded_def alone_def bound_live_def session_empty_def)
next
  case Connected
  assume s: "staged c"
  have x: "staged (snd (capture_checkpoints out (call FlushResolverCache x)))" if "staged x" for x
    by (rule checkpoints_staged [OF call_staged(1) [OF that]])
  show ?thesis
    using Connected x [OF s] x [OF transition_staged [OF s, of out Wfp_Connected]] transition_staged [OF s, of out Wfp_Connected]
    by (cases "ApplyWfpLocked out Wfp_Connected c") (auto simp: stage_action.simps split: bool.splits simp del: publish_defs)
qed

lemma rollback_settled: "staged c \<Longrightarrow> controller_inv (capture_rollback out cancelled c)"
proof -
  assume s: "staged c"
  let ?c1 = "RevertMachineStateLocked out False (tcNetConfig c \<noteq> None) c"
  have "told ?c1" using s by (simp add: staged_def revert_machine_told)
  moreover have "orderly (tcCalls ?c1)" using s by (simp add: staged_def)
  ultimately have "controller_inv x" if "x = ?c1 \<or> x = snd (ApplyWfpLocked out Wfp_Connecting ?c1)" for x
    using that s transition_told [of ?c1 out Wfp_Connecting]
    by (auto simp: controller_inv_def settled_def staged_def alone_def bound_live_def session_empty_def)
  then show ?thesis by (simp add: capture_rollback_def Let_def)
qed

lemma rollback_netconfig: "tcNetConfig (capture_rollback out cancelled c) = None"
  by (simp add: capture_rollback_def Let_def)

lemma apply_capture_trace:
  assumes "ApplyCapture act others clock ticket r = (e, r', as)"
  shows "(e = Returned Active \<and> as = map Try [Prepare, Firewall, Network, Connected] \<and>
      act Prepare = Applied \<and> act Firewall = Applied \<and> act Network = Applied \<and> act Connected = Applied \<and> crActive r')
    \<or> (e \<noteq> Returned Active \<and>
      (as = [] \<or> (\<exists>k. as = map Try (take k [Prepare, Firewall, Network, Connected]) @ [Rollback])))"
proof (cases "CurrentWithLock (run capture_step r (others 0)) ticket (clock 0)")
  case True
  then have "apply_stages act others clock ticket [Prepare, Firewall, Network, Connected] 1
      (run capture_step r (others 0)) = (e, r', as)"
    using assms by (simp add: ApplyCapture_def Let_def)
  from apply_stages_trace [OF this] show ?thesis by fastforce
next
  case False
  then show ?thesis using assms by (auto simp: ApplyCapture_def Let_def)
qed

lemma stage_preparing: "stage \<noteq> Connected \<Longrightarrow> tcState (snd (stage_action out stage c)) = tcState c"
proof (cases stage)
  case Prepare
  then show ?thesis by (simp add: stage_action.simps Let_def PushExcludedToDriver_def)
next
  case Firewall
  then show ?thesis using transition_frame(1) [of out Wfp_Connecting c] by (auto simp: stage_action.simps split: prod.splits simp del: transition_frame)
qed (simp_all add: stage_action.simps Let_def)

lemma performed [simp]: "foldl (perform out x) c (map Try stages) = after_stages out stages c"
  by (simp add: after_stages_def foldl_map)

lemma prefix_staged:
  assumes "staged c" and "tcState c = Preparing"
  shows "staged (after_stages out (take k [Prepare, Firewall, Network, Connected]) c)"
proof -
  let ?p = "snd (stage_action out Prepare c)"
  let ?f = "snd (stage_action out Firewall ?p)"
  let ?n = "snd (stage_action out Network ?f)"
  have p: "staged ?p" "tcState ?p = Preparing" using stage_staged [OF assms] stage_preparing [of Prepare out c] assms by simp_all
  have f: "staged ?f" "tcState ?f = Preparing" using stage_staged [OF p] stage_preparing [of Firewall out ?p] p by simp_all
  have n: "staged ?n" "tcState ?n = Preparing" using stage_staged [OF f] stage_preparing [of Network out ?f] f by simp_all
  consider "k = 0" | "k = 1" | "k = 2" | "k = 3" | "4 \<le> k" by linarith
  then show ?thesis
    using assms(1) p(1) f(1) n(1) stage_staged [OF n, of out Connected]
    by cases (simp_all add: after_stages_def numeral_eq_Suc)
qed
text \<open>What each stage reaches when it reports success.\<close>

lemma prepare_applied:
  assumes "fst (stage_action out Prepare c) = Applied"
  shows "tcPump (snd (stage_action out Prepare c))"
    and "told c \<Longrightarrow> told (snd (stage_action out Prepare c))"
    and "tcKillSwitch (snd (stage_action out Prepare c)) = tcKillSwitch c"
  using assms by (auto simp: stage_action.simps Let_def PushExcludedToDriver_def told_def split: if_splits)

lemma firewall_applied:
  assumes "fst (stage_action out Firewall c) = Applied"
  defines "c' \<equiv> snd (stage_action out Firewall c)"
  shows "told c \<Longrightarrow> told c'" and "tcPump c' = tcPump c" and "tcKillSwitch c' = tcKillSwitch c"
    and "pState (tcWfp c') = Wfp_Off \<Longrightarrow> \<not> tcConnectingWatch c'"
    and "tcKillSwitch c \<Longrightarrow> pState (tcWfp c') = Wfp_Connecting"
proof -
  obtain ok x where a: "ApplyWfpLocked out Wfp_Connecting c = (ok, x)" by fastforce
  have x: "x = snd (ApplyWfpLocked out Wfp_Connecting c)" using a by simp
  have c: "c' = x" and k: "ok \<or> \<not> tcKillSwitch c"
    using assms transition_frame(5) [of out Wfp_Connecting c]
    by (auto simp: stage_action.simps a c'_def split: if_splits)
  show "told c \<Longrightarrow> told c'" "tcPump c' = tcPump c" "tcKillSwitch c' = tcKillSwitch c"
    unfolding c x by (simp_all add: transition_told)
  have p: "ok \<Longrightarrow> pState (tcWfp x) = Wfp_Connecting"
    using firewall.transit_ok [of out Wfp_Connecting c] a by simp
  then show "tcKillSwitch c \<Longrightarrow> pState (tcWfp c') = Wfp_Connecting" using k c by simp
  have "\<not> ok \<Longrightarrow> \<not> tcConnectingWatch x"
    using a by (auto simp: ApplyWfpLocked_def Let_def wfp_apply_def split: prod.splits if_splits)
  then show "pState (tcWfp c') = Wfp_Off \<Longrightarrow> \<not> tcConnectingWatch c'" using p c by auto
qed

lemma network_applied:
  assumes "fst (stage_action out Network c) = Applied"
  defines "c' \<equiv> snd (stage_action out Network c)"
  shows "told c'" and "\<exists>n. tcNetConfig c' = Some n \<and> DnsApplied n" and "tcPump c' = tcPump c"
    and "tcWfp c' = tcWfp c" and "tcConnectingWatch c' = tcConnectingWatch c" and "tcKillSwitch c' = tcKillSwitch c"
  using assms by (auto simp: stage_action.simps Let_def told_def split: if_splits)

lemma connected_applied:
  assumes "fst (stage_action out Connected c) = Applied"
  defines "c' \<equiv> snd (stage_action out Connected c)"
  shows "told c \<Longrightarrow> told c'" and "tcNetConfig c' = tcNetConfig c" and "tcPump c' = tcPump c" and "tcState c' = tcState c"
    and "pState (tcWfp c') = (if pState (tcWfp c) = Wfp_Off then Wfp_Off else Wfp_Connected)"
    and "(pState (tcWfp c) = Wfp_Off \<Longrightarrow> \<not> tcConnectingWatch c) \<Longrightarrow> \<not> tcConnectingWatch c'"
    and "tcKillSwitch c' = tcKillSwitch c"
proof -
  define t where "t = (if pState (tcWfp c) \<noteq> Wfp_Off then ApplyWfpLocked out Wfp_Connected c else (True, c))"
  have ok: "fst t" and c: "c' = call FlushResolverCache (snd t)"
    using assms unfolding stage_action.simps t_def [symmetric]
    by (cases t; auto simp: checkpoints_cases split: bool.splits if_splits)+
  show "told c \<Longrightarrow> told c'"
    using transition_told [of c out Wfp_Connected] by (auto simp: c t_def told_def)
  show "tcNetConfig c' = tcNetConfig c" "tcPump c' = tcPump c" "tcState c' = tcState c" "tcKillSwitch c' = tcKillSwitch c"
    by (simp_all add: c t_def)
  show "pState (tcWfp c') = (if pState (tcWfp c) = Wfp_Off then Wfp_Off else Wfp_Connected)"
    using ok firewall.transit_ok [of out Wfp_Connected c] by (auto simp: c t_def)
  have "\<not> tcConnectingWatch (snd (ApplyWfpLocked out Wfp_Connected c))"
    by (simp add: ApplyWfpLocked_def Let_def wfp_apply_def split: prod.splits)
  then show "(pState (tcWfp c) = Wfp_Off \<Longrightarrow> \<not> tcConnectingWatch c) \<Longrightarrow> \<not> tcConnectingWatch c'"
    by (simp add: c t_def)
qed

lemma all_stages_applied:
  assumes "stage_outcome out c Prepare = Applied" "stage_outcome out c Firewall = Applied"
    "stage_outcome out c Network = Applied" "stage_outcome out c Connected = Applied"
  defines "c' \<equiv> after_stages out [Prepare, Firewall, Network, Connected] c"
  shows "told c'" and "tcPump c'" and "\<exists>n. tcNetConfig c' = Some n \<and> DnsApplied n"
    and "pState (tcWfp c') = Wfp_Off \<or> pState (tcWfp c') = Wfp_Connected" and "\<not> tcConnectingWatch c'"
    and "tcKillSwitch c' = tcKillSwitch c" and "tcKillSwitch c \<Longrightarrow> pState (tcWfp c') = Wfp_Connected"
    and "tcState c' = tcState c"
proof -
  let ?p = "snd (stage_action out Prepare c)"
  let ?f = "snd (stage_action out Firewall ?p)"
  let ?n = "snd (stage_action out Network ?f)"
  have c: "c' = snd (stage_action out Connected ?n)" by (simp add: c'_def after_stages_def)
  have p: "fst (stage_action out Prepare c) = Applied" and f: "fst (stage_action out Firewall ?p) = Applied"
    and n: "fst (stage_action out Network ?f) = Applied" and d: "fst (stage_action out Connected ?n) = Applied"
    using assms by (simp_all add: stage_outcome_def after_stages_def)
  note ps = prepare_applied [OF p] and fs = firewall_applied [OF f] and ns = network_applied [OF n]
    and ds = connected_applied [OF d]
  show "told c'" unfolding c by (rule ds(1) [OF ns(1)])
  show "tcPump c'" using ps(1) fs(2) ns(3) ds(3) c by simp
  show "\<exists>n. tcNetConfig c' = Some n \<and> DnsApplied n" using ns(2) ds(2) c by simp
  show "pState (tcWfp c') = Wfp_Off \<or> pState (tcWfp c') = Wfp_Connected" using ds(5) c by simp
  show "\<not> tcConnectingWatch c'" unfolding c by (rule ds(6)) (use fs(4) ns(4,5) in simp)
  show "tcKillSwitch c' = tcKillSwitch c" using ps(3) fs(3) ns(6) ds(7) c by simp
  show "tcKillSwitch c \<Longrightarrow> pState (tcWfp c') = Wfp_Connected" using ps(3) fs(5) ns(4) ds(5) c by simp
  show "tcState c' = tcState c"
    using ds(4) c stage_preparing [of Network out ?f] stage_preparing [of Firewall out ?p]
      stage_preparing [of Prepare out c] by simp
qed

lemma inv_readiness: "controller_inv (c\<lparr>tcReadiness := r\<rparr>) = controller_inv c"
  by (simp add: controller_inv_def settled_def told_def bound_live_def session_empty_def carrying_def alone_def)

lemma inv_watch: "controller_inv (c\<lparr>tcWatch := w\<rparr>) = controller_inv c"
  by (simp add: controller_inv_def settled_def told_def bound_live_def session_empty_def carrying_def alone_def)

text \<open>The transaction from the controller's side: it commits all of it, or leaves a session that is still waiting.\<close>

lemma inv_staged:
  assumes "controller_inv c" and "tcState c = Preparing"
    and "tcMode c = Mode_Tunnel" and "tcAdapter c \<noteq> None" and "tcDevice c \<noteq> None"
  shows "staged c"
  using assms settled_grounded [of c] by (simp add: controller_inv_def settled_def staged_def)

definition captured :: "'e Controller \<Rightarrow> bool" where
  "captured c \<longleftrightarrow>
    staged c \<and> told c \<and> tcPump c \<and> tcState c = Preparing \<and> (\<exists>n. tcNetConfig c = Some n \<and> DnsApplied n) \<and>
    \<not> tcConnectingWatch c \<and> (pState (tcWfp c) = Wfp_Off \<or> pState (tcWfp c) = Wfp_Connected) \<and>
    (tcKillSwitch c \<longrightarrow> pState (tcWfp c) = Wfp_Connected)"

lemma captured_readiness: "captured (c\<lparr>tcReadiness := r\<rparr>) = captured c"
  by (simp add: captured_def staged_def told_def grounded_def bound_live_def alone_def session_empty_def)

lemma bring_up_cases:
  assumes "controller_inv c" and "tcState c = Preparing"
    and "BringUpTunnelLocked out others clock ticket c = (ending, step, c')"
  shows "if ending = Returned Active then captured c' else controller_inv c'"
proof (cases "tcMode c \<noteq> Mode_Tunnel \<or> tcAdapter c = None \<or> tcDevice c = None")
  case True
  then show ?thesis using assms(1,3) by (auto simp: BringUpTunnelLocked_def)
next
  case False
  then have s: "staged c" using inv_staged [OF assms(1,2)] by simp
  obtain e r as where a: "ApplyCapture (stage_outcome out c) others clock ticket (tcReadiness c) = (e, r, as)"
    by (metis prod_cases3)
  let ?c1 = "foldl (perform out (crCancelled r)) c as"
  have e: "ending = e" and c': "\<exists>x. c' = ?c1\<lparr>tcReadiness := x\<rparr>"
    using assms(3) False by (auto simp: BringUpTunnelLocked_def a Let_def)
  from apply_capture_trace [OF a] show ?thesis
  proof
    assume t: "e = Returned Active \<and> as = map Try [Prepare, Firewall, Network, Connected] \<and>
      stage_outcome out c Prepare = Applied \<and> stage_outcome out c Firewall = Applied \<and>
      stage_outcome out c Network = Applied \<and> stage_outcome out c Connected = Applied \<and> crActive r"
    then have c1: "?c1 = after_stages out [Prepare, Firewall, Network, Connected] c" by (metis performed)
    from t have "captured ?c1"
      using all_stages_applied [of out c] prefix_staged [OF s assms(2), of out 4] assms(2)
      unfolding c1 captured_def by simp
    then show ?thesis using t e c' captured_readiness by auto
  next
    assume t: "e \<noteq> Returned Active \<and>
      (as = [] \<or> (\<exists>k. as = map Try (take k [Prepare, Firewall, Network, Connected]) @ [Rollback]))"
    then have "controller_inv ?c1"
      using rollback_settled [OF prefix_staged [OF s assms(2), of out]] assms(1) by auto
    then show ?thesis using t e c' inv_readiness by auto
  qed
qed

lemma ActivateCapture_inv:
  assumes "controller_inv c"
  shows "controller_inv (ActivateCapture out others clock locked session ticket c)"
proof (cases "\<not> locked \<or> crCancelled (tcReadiness c) \<or> session \<noteq> tcSession c \<or> tcState c \<noteq> Preparing")
  case True
  then show ?thesis using assms by (simp add: ActivateCapture_def)
next
  case False
  obtain ending step c1 where b: "BringUpTunnelLocked out others clock ticket c = (ending, step, c1)"
    by (metis prod_cases3)
  note r = bring_up_cases [OF assms _ b]
  have up: "controller_inv ((SetStateLocked out Up (c1\<lparr>tcUpSince := u\<rparr>))\<lparr>tcWatch := w\<rparr>)"
    "controller_inv c1" if "captured c1" for u w
    using that by (auto simp: captured_def staged_def controller_inv_def settled_def told_def carrying_def
        bound_live_def alone_def session_empty_def grounded_def)
  have stop: "controller_inv (SetStateLocked out Error (StopLocked out False False (c1\<lparr>tcError := t\<rparr>)))"
    if "controller_inv c1" for t
  proof -
    have "grounded (c1\<lparr>tcError := t\<rparr>)" "orderly (tcCalls (c1\<lparr>tcError := t\<rparr>))"
      using that settled_grounded [of c1] by (simp_all add: controller_inv_def grounded_def settled_orderly)
    then have "settled (SetStateLocked out Error (StopLocked out False False (c1\<lparr>tcError := t\<rparr>)))"
      by (intro error_settled stop_settled StopLocked_results(1))
    then show ?thesis using that by (simp add: controller_inv_def)
  qed
  show ?thesis
  proof (cases ending)
    case Rethrown
    then show ?thesis using False b r stop unfolding ActivateCapture_def by (auto simp del: publish_defs)
  next
    case (Returned result)
    then show ?thesis using False b r up unfolding ActivateCapture_def
      by (cases result) (auto simp: inv_watch simp del: publish_defs)
  qed
qed

subsection \<open>The other requests\<close>

lemma inv_stop:
  assumes "controller_inv c"
  shows "controller_inv (StopLocked out finalDisarm disconnect c)"
  using assms stop_settled [of c out finalDisarm disconnect] settled_grounded [of c] settled_orderly [of c]
  by (simp add: controller_inv_def)

lemma inv_notes:
  "controller_inv c \<Longrightarrow> controller_inv (c\<lparr>tcReadiness := r, tcStopGeneration := n, tcStopReason := t\<rparr>)"
  by (simp add: controller_inv_def settled_def told_def bound_live_def session_empty_def carrying_def alone_def)

lemma drop_frame [simp]:
  "tcState (DropFirewallOnEscape out c) = tcState c" "tcMode (DropFirewallOnEscape out c) = tcMode c"
  "tcRpcOnlyClamp (DropFirewallOnEscape out c) = tcRpcOnlyClamp c"
  "tcStopAfterStep (DropFirewallOnEscape out c) = tcStopAfterStep c"
  "tcKillSwitch (DropFirewallOnEscape out c) = tcKillSwitch c"
  "tcWintun (DropFirewallOnEscape out c) = tcWintun c" "tcAdapter (DropFirewallOnEscape out c) = tcAdapter c"
  "tcEgress (DropFirewallOnEscape out c) = tcEgress c" "tcSpace (DropFirewallOnEscape out c) = tcSpace c"
  "tcDevice (DropFirewallOnEscape out c) = tcDevice c" "tcPump (DropFirewallOnEscape out c) = tcPump c"
  "tcSplit (DropFirewallOnEscape out c) = tcSplit c"
  "tcNetConfig (DropFirewallOnEscape out c) = tcNetConfig c"
  "tcLiveEgress (DropFirewallOnEscape out c) = tcLiveEgress c"
  "tcProviderDevice (DropFirewallOnEscape out c) = tcProviderDevice c"
  "tcProviderSpace (DropFirewallOnEscape out c) = tcProviderSpace c"
  "tcProviderEgress (DropFirewallOnEscape out c) = tcProviderEgress c"
  "tcHandedDevice (DropFirewallOnEscape out c) = tcHandedDevice c"
  "tcHandedSpace (DropFirewallOnEscape out c) = tcHandedSpace c"
  "tcLogUpload (DropFirewallOnEscape out c) = tcLogUpload c"
  "tcMarker (DropFirewallOnEscape out c) = tcMarker c" "tcCalls (DropFirewallOnEscape out c) = tcCalls c"
  "tcStops (DropFirewallOnEscape out c) = tcStops c"
  "tcReadiness (DropFirewallOnEscape out c) = tcReadiness c"
  "tcSession (DropFirewallOnEscape out c) = tcSession c"
  "tcUpSince (DropFirewallOnEscape out c) = tcUpSince c" "tcMirror (DropFirewallOnEscape out c) = tcMirror c"
  "tcConnectingWatch (DropFirewallOnEscape out c) = tcConnectingWatch c"
  by (simp_all add: DropFirewallOnEscape_def wfp_revert_def split: prod.splits)

lemma drop_policy: "pState (tcWfp (DropFirewallOnEscape out c)) = (if tcKillSwitch c then pState (tcWfp c) else Wfp_Off)"
  by (simp add: DropFirewallOnEscape_def)

lemma escape_frame [simp]:
  "tcState (escape out c) = tcState c" "tcMode (escape out c) = tcMode c"
  "tcRpcOnlyClamp (escape out c) = tcRpcOnlyClamp c" "tcStopAfterStep (escape out c) = tcStopAfterStep c"
  "tcKillSwitch (escape out c) = tcKillSwitch c" "tcWintun (escape out c) = tcWintun c"
  "tcAdapter (escape out c) = tcAdapter c" "tcEgress (escape out c) = tcEgress c"
  "tcSpace (escape out c) = tcSpace c" "tcDevice (escape out c) = tcDevice c"
  "tcPump (escape out c) = tcPump c" "tcSplit (escape out c) = tcSplit c"
  "tcNetConfig (escape out c) = tcNetConfig c" "tcLiveEgress (escape out c) = tcLiveEgress c"
  "tcProviderDevice (escape out c) = tcProviderDevice c" "tcProviderSpace (escape out c) = tcProviderSpace c"
  "tcProviderEgress (escape out c) = tcProviderEgress c" "tcHandedDevice (escape out c) = tcHandedDevice c"
  "tcLogUpload (escape out c) = tcLogUpload c"
  "tcHandedSpace (escape out c) = tcHandedSpace c" "tcReadiness (escape out c) = tcReadiness c"
  "tcSession (escape out c) = tcSession c" "tcUpSince (escape out c) = tcUpSince c"
  "tcConnectingWatch (escape out c) = tcConnectingWatch c"
  by (simp_all add: escape_def Let_def RepublishMachineFactsLockFree_def)

lemma escape_results [simp]:
  "tcMarker (escape out c) = False" "tcCalls (escape out c) = CrashRevert # tcCalls c"
  "pState (tcWfp (escape out c)) = (if tcKillSwitch c then pState (tcWfp c) else Wfp_Off)"
  "tsRoutes (tcMirror (escape out c)) = False" "tsState (tcMirror (escape out c)) = tsState (tcMirror c)"
  "tsWfp (tcMirror (escape out c)) = WfpStateToString (pState (tcWfp (escape out c)))"
  by (simp_all add: escape_def Let_def RepublishMachineFactsLockFree_def drop_policy)

lemma escape_inv: "controller_inv c \<Longrightarrow> controller_inv (escape out c)"
  by (auto simp: controller_inv_def settled_def told_def bound_live_def session_empty_def carrying_def alone_def)

lemma fires_frame:
  assumes "tcConnectingWatch c"
  shows "\<exists>x. ConnectingWatchdogFires out c =
    RepublishMachineFactsLockFree False (c\<lparr>tcConnectingWatch := False, tcWfp := fst x, tcEngine := snd x\<rparr>)"
  using assms by (auto simp: ConnectingWatchdogFires_def wfp_apply_def split: prod.splits)

lemma fires_inv:
  assumes "controller_inv c"
  shows "controller_inv (ConnectingWatchdogFires out c)"
proof (cases "tcConnectingWatch c")
  case True
  from fires_frame [OF this, of out] obtain x where x: "ConnectingWatchdogFires out c =
    RepublishMachineFactsLockFree False (c\<lparr>tcConnectingWatch := False, tcWfp := fst x, tcEngine := snd x\<rparr>)" by blast
  from True assms have "tcState c \<noteq> Up" by (auto simp: controller_inv_def settled_def)
  with assms show ?thesis
    by (auto simp: x RepublishMachineFactsLockFree_def controller_inv_def settled_def told_def bound_live_def
        session_empty_def carrying_def alone_def)
next
  case False
  then show ?thesis using assms by (simp add: ConnectingWatchdogFires_def)
qed

lemma kill_switch_inv:
  assumes "controller_inv c"
  shows "controller_inv (snd (SetKillSwitch out on c))"
proof -
  let ?c = "c\<lparr>tcKillSwitch := on\<rparr>"
  have i: "controller_inv ?c"
    using assms by (simp add: controller_inv_def settled_def told_def bound_live_def session_empty_def carrying_def alone_def)
  have w: "\<not> tcConnectingWatch (snd (ApplyWfpLocked out Wfp_Connected ?c))"
    by (simp add: ApplyWfpLocked_def Let_def wfp_apply_def split: prod.splits)
  have "controller_inv (snd (ApplyWfpLocked out Wfp_Connected ?c))"
    "tcState ?c \<noteq> Up \<Longrightarrow> controller_inv (snd (ApplyWfpLocked out Wfp_Off ?c))"
    using i w transition_told [of ?c out] firewall.two_values [of out Wfp_Connected ?c]
    by (auto simp: controller_inv_def settled_def bound_live_def session_empty_def carrying_def alone_def)
  with i assms show ?thesis by (auto simp: SetKillSwitch_def Let_def)
qed

lemma inv_no_routes: "controller_inv c \<Longrightarrow> tcDevice c = None \<Longrightarrow> \<not> routes_out (tcCalls c)"
  by (auto simp: controller_inv_def settled_def told_def carrying_def)

lemma retire_inv:
  assumes "controller_inv c"
  shows "controller_inv (RetireProviderDeviceLocked out c)"
proof (cases "tcProviderDevice c = None \<and> tcProviderSpace c = None")
  case True
  then show ?thesis using assms by (simp add: RetireProviderDeviceLocked_def)
next
  case False
  then have d: "tcDevice c = None" using assms by (auto simp: controller_inv_def settled_def alone_def)
  show ?thesis
    using assms inv_no_routes [OF assms d] retire_told [of c out] retire_keeps(2) [of c out]
    by (auto simp: controller_inv_def settled_def bound_live_def session_empty_def carrying_def alone_def)
qed

lemma retire_upload_inv:
  assumes "controller_inv c"
  shows "controller_inv (RetireLogUploadDeviceLocked out c)"
proof (cases "tcLogUpload c = None")
  case True
  then show ?thesis using assms by (simp add: RetireLogUploadDeviceLocked_def)
next
  case False
  then have d: "tcDevice c = None" using assms by (auto simp: controller_inv_def settled_def alone_def)
  show ?thesis
    using assms inv_no_routes [OF assms d] retire_upload_told [of c out] retire_upload_keeps(2) [of c out]
    by (auto simp: controller_inv_def settled_def bound_live_def session_empty_def carrying_def alone_def)
qed

lemma provider_publish_inv:
  "controller_inv c \<Longrightarrow> controller_inv (StatusLocked out (ReadProviderFactsLocked out (c\<lparr>tcProviderRequest := r\<rparr>)))"
  by (auto simp: ReadProviderFactsLocked_def controller_inv_def settled_def told_def bound_live_def
      session_empty_def carrying_def alone_def)

lemma inv_space [simp]:
  "controller_inv (SetNetworkCountry cc source c) \<longleftrightarrow> controller_inv c" "controller_inv (c\<lparr>tcLastSpace := b\<rparr>) \<longleftrightarrow> controller_inv c"
  by (simp_all add: controller_inv_def settled_def told_def bound_live_def session_empty_def carrying_def alone_def)

lemma build_provider_inv:
  assumes "controller_inv c" and "tcDevice c = None" and "tcLogUpload c = None"
  shows "controller_inv (snd (build_provider out request c))"
proof -
  have fields: "controller_inv (c\<lparr>tcProviderEgress := a, tcLastSpace := k, tcProviderSpace := b, tcProviderDevice := d\<rparr>)"
    "controller_inv (c\<lparr>tcProviderEgress := a, tcLastSpace := k, tcProviderSpace := b\<rparr>)"
    "controller_inv (c\<lparr>tcProviderEgress := a\<rparr>)" for a b d k
    using assms
    by (auto simp: controller_inv_def settled_def told_def bound_live_def session_empty_def carrying_def alone_def)
  show ?thesis
    using retire_inv [OF assms(1)] retire_inv [OF fields(1)] retire_inv [OF fields(2)] retire_inv [OF fields(3)]
      provider_publish_inv [OF fields(1)]
    unfolding build_provider_def provider_failed_def ImportNetworkSpaceLocked_def
    by (auto simp: Let_def split: sum.splits simp del: publish_defs)
qed

lemma start_provider_inv:
  assumes "controller_inv c"
  shows "controller_inv (snd (StartProviderLocked out locked request c))"
proof -
  have s: "controller_inv (c\<lparr>tcStops := s\<rparr>)" for s
    using assms by (simp add: controller_inv_def settled_def told_def bound_live_def session_empty_def carrying_def alone_def)
  have d: "tcDevice c = None"
    if "ProviderStartRefusal m (provider_state sweep (c\<lparr>tcStops := s\<rparr>)) = Refusal_None" for m sweep s
    using that by (auto simp: ProviderStartRefusal_def provider_state_def split: if_splits)
  have n: "controller_inv (SetNetworkCountry cc source (c\<lparr>tcStops := s\<rparr>))" for cc source s using s by simp
  show ?thesis
    using assms s provider_publish_inv [OF n, where out = out]
      build_provider_inv [OF retire_upload_inv [OF retire_inv [OF n, where out = out], where out = out], where out = out] d
    unfolding StartProviderLocked_def keep_provider_def
    by (auto simp: Let_def split: prod.splits simp del: publish_defs)
qed

lemma stop_with_inv: "controller_inv c \<Longrightarrow> controller_inv (StopWith out locked disconnect c)"
proof -
  assume "controller_inv c"
  then have "controller_inv ((CancelCapture (c\<lparr>tcStopGeneration := n\<rparr>))\<lparr>tcStopReason := t\<rparr>)" for n t
    by (simp add: controller_inv_def settled_def told_def bound_live_def session_empty_def carrying_def alone_def)
  from inv_stop [OF this, where out = out] escape_inv [OF this, where out = out] show ?thesis
    unfolding StopWith_def Let_def by (simp del: publish_defs)
qed

lemma failsafe_inv: "controller_inv c \<Longrightarrow> controller_inv (FailsafeStop out locked why c)"
proof -
  assume "controller_inv c"
  then have "controller_inv ((CancelCapture (c\<lparr>tcStopGeneration := n\<rparr>))\<lparr>tcStopReason := t\<rparr>)"
    and "controller_inv ((CancelCapture (c\<lparr>tcStopGeneration := n\<rparr>))\<lparr>tcStopReason := t, tcWatch := w\<rparr>)" for n t w
    by (simp_all add: controller_inv_def settled_def told_def bound_live_def session_empty_def carrying_def alone_def)
  from inv_stop [OF this(1), where out = out] escape_inv [OF this(2), where out = out] show ?thesis
    unfolding FailsafeStop_def Let_def by (simp del: publish_defs)
qed

lemma logout_inv: "controller_inv c \<Longrightarrow> controller_inv (snd (Logout out locked spaceJson c))"
proof -
  assume "controller_inv c"
  then have "controller_inv ((CancelCapture (c\<lparr>tcStopGeneration := n\<rparr>))\<lparr>tcStopReason := t\<rparr>)"
    and i: "controller_inv (CancelCapture (c\<lparr>tcStopGeneration := n\<rparr>))" for n t
    by (simp_all add: controller_inv_def settled_def told_def bound_live_def session_empty_def carrying_def alone_def)
  from inv_stop [OF this(1), of out True False] have
    "controller_inv (call ClearIdentityFiles (StopLocked out True False
      ((CancelCapture (c\<lparr>tcStopGeneration := n\<rparr>))\<lparr>tcStopReason := t\<rparr>)))" for n t
    by (auto simp: controller_inv_def settled_def told_def bound_live_def session_empty_def carrying_def alone_def)
  with i show ?thesis
    unfolding Logout_def Let_def ImportNetworkSpaceLocked_def by (auto split: sum.split simp del: publish_defs)
qed

lemma split_egress_inv:
  "controller_inv c \<Longrightarrow> controller_inv (SetSplitTunnel paths allowlist c)"
  "controller_inv c \<Longrightarrow> controller_inv (OnEgressChanged egress c)"
  by (auto simp: SetSplitTunnel_def OnEgressChanged_def PushExcludedToDriver_def Let_def controller_inv_def settled_def
      told_def bound_live_def session_empty_def carrying_def alone_def)

lemma upload_worker_inv:
  assumes "controller_inv c" and "tcDevice c = None"
  shows "controller_inv (snd (run_worker out LogUploadTeardown c))"
  using assms inv_no_routes [OF assms] run_worker_keeps [where what = LogUploadTeardown and out = out and c = c]
  by (auto simp: controller_inv_def settled_def bound_live_def session_empty_def carrying_def alone_def)

lemma open_upload_inv:
  assumes "controller_inv c" and "tcDevice c = None" and "tcProviderDevice c = None"
  shows "controller_inv (snd (open_upload_device out c))"
proof -
  have s: "controller_inv (c\<lparr>tcStops := s\<rparr>)" for s
    using assms(1) by (simp add: controller_inv_def settled_def told_def bound_live_def session_empty_def carrying_def alone_def)
  let ?r = "\<lambda>s. RetireLogUploadDeviceLocked out (c\<lparr>tcStops := s\<rparr>)"
  have r: "controller_inv (?r s)" for s by (rule retire_upload_inv [OF s])
  have "controller_inv ((?r s)\<lparr>tcLastSpace := b\<rparr>)" for s b using r by simp
  note w = upload_worker_inv [OF this, where out = out]
  have u: "controller_inv ((?r s)\<lparr>tcLastSpace := b, tcLogUpload := Some d\<rparr>)" for s d b
    using r [of s] assms(2,3)
    by (auto simp: controller_inv_def settled_def told_def bound_live_def session_empty_def carrying_def alone_def)
  show ?thesis
    unfolding open_upload_device_def ImportNetworkSpaceLocked_def
    by (simp add: Let_def s r w u assms(2) split: prod.split sum.split del: publish_defs)
qed

lemma upload_steps_inv:
  assumes "controller_inv c"
  shows "controller_inv (snd (upload_device out c))" and "controller_inv (CloseLogUploadDevice out device c)"
proof -
  show "controller_inv (CloseLogUploadDevice out device c)"
    using assms retire_upload_inv [OF assms, of out] by (simp add: CloseLogUploadDevice_def)
  show "controller_inv (snd (upload_device out c))"
    using assms open_upload_inv [OF assms, of out] by (simp add: upload_device_def split: option.split)
qed

lemma init_inv: "controller_inv (InitController e)"
  by (simp add: InitController_def InitStatus_def InitPolicy_def controller_inv_def settled_def told_def bound_live_def
      session_empty_def WfpStateToString_def)

lemma step_inv: "controller_inv c \<Longrightarrow> controller_inv (controller_step c request)"
  by (cases "(c, request)" rule: controller_step.cases)
    (simp_all add: StartLocked_inv stop_with_inv failsafe_inv ActivateCapture_inv inv_readiness fires_inv kill_switch_inv
      split_egress_inv logout_inv start_provider_inv StopProvider_def retire_inv upload_steps_inv)

interpretation service: observer controller_step controller_inv "\<lambda>_ _. True"
  by unfold_locales (rule step_inv)

lemma reachable_inv: "controller_inv (run controller_step (InitController e) requests)"
  by (rule service.run_good_total [OF init_inv]) simp

lemma up_shape:
  assumes "controller_inv c" and "tcState c = Up"
  shows "(\<exists>n. tcNetConfig c = Some n \<and> DnsApplied n) \<and> tcPump c \<and> tcMode c = Mode_Tunnel \<and>
    tcAdapter c \<noteq> None \<and> tcDevice c \<noteq> None \<and> (pState (tcWfp c) = Wfp_Off \<or> pState (tcWfp c) = Wfp_Connected)"
  using assms by (auto simp: controller_inv_def settled_def carrying_def)

lemma down_shape:
  assumes "controller_inv c" and "tcState c = Stopped \<or> tcState c = Error"
  shows "session_empty c \<and> tcNetConfig c = None \<and> \<not> routes_out (tcCalls c)"
proof -
  have s: "settled c" using assms(1) by (simp add: controller_inv_def)
  have n: "tcNetConfig c = None" using s assms(2) by (auto simp: settled_def)
  then show ?thesis using s settled_told [OF s] assms(2) by (auto simp: settled_def told_def)
qed

lemma one_device:
  assumes "controller_inv c"
  shows "(tcDevice c \<noteq> None \<longrightarrow> tcProviderDevice c = None \<and> tcLogUpload c = None) \<and>
    (tcLogUpload c \<noteq> None \<longrightarrow> tcProviderDevice c = None)"
  using assms by (simp add: controller_inv_def settled_def alone_def)

section \<open>A process clamped to rpc-only\<close>

fun flow_all :: "('c \<Rightarrow> bool) \<Rightarrow> 'c Flow \<Rightarrow> bool" where
  "flow_all P (Go c) = P c"
| "flow_all P (Return c) = P c"
| "flow_all P (Throw what c) = P c"

lemma flow_all_and_then: "flow_all P f \<Longrightarrow> (\<And>c. P c \<Longrightarrow> flow_all P (g c)) \<Longrightarrow> flow_all P (and_then f g)"
  by (cases f) simp_all

lemma no_apply_calls [simp]:
  "NetApply \<in> set (tcCalls (RetireProviderDeviceLocked out c)) \<longleftrightarrow> NetApply \<in> set (tcCalls c)"
  "NetApply \<in> set (tcCalls (RetireLogUploadDeviceLocked out c)) \<longleftrightarrow> NetApply \<in> set (tcCalls c)"
  "NetApply \<in> set (tcCalls (torn out keep c)) \<longleftrightarrow> NetApply \<in> set (tcCalls c)"
  by (simp_all add: RetireProviderDeviceLocked_def RetireLogUploadDeviceLocked_def clear_provider_def teardown_cases
      drop_session_def)

lemma no_apply_stop [simp]:
  "NetApply \<in> set (tcCalls (StopLocked out finalDisarm disconnect c)) \<longleftrightarrow> NetApply \<in> set (tcCalls c)"
proof -
  have r: "NetApply \<in> set (tcCalls (ResumeProvidingLocked out kept x)) \<longleftrightarrow> NetApply \<in> set (tcCalls x)" for kept x
    by (simp add: ResumeProvidingLocked_def ReadProviderFactsLocked_def Let_def)
  have f: "NetApply \<in> set (tcCalls (finish_stop out keep x)) \<longleftrightarrow> NetApply \<in> set (tcCalls x)" for keep x
    by (simp add: finish_stop_cases Let_def r)
  have "NetApply \<in> set (tcCalls (stop_machine out finalDisarm c)) \<longleftrightarrow> NetApply \<in> set (tcCalls c)"
    by (simp add: stop_machine_def Let_def)
  then show ?thesis by (simp add: StopLocked_halves Let_def f)
qed

text \<open>Nothing of ours on the machine: no adapter, no route, no DNS setting, no filter, and none was ever requested.\<close>

definition untouched :: "'e Controller \<Rightarrow> bool" where
  "untouched c \<longleftrightarrow>
    \<not> tcWintun c \<and> tcAdapter c = None \<and> tcNetConfig c = None \<and> pState (tcWfp c) = Wfp_Off \<and>
    NetApply \<notin> set (tcCalls c) \<and> \<not> tcMarker c"

definition clamped :: "'e Controller \<Rightarrow> bool" where
  "clamped c \<longleftrightarrow>
    untouched c \<and> tcRpcOnlyClamp c \<and> tcState c \<noteq> Up \<and> tcState c \<noteq> Preparing \<and> \<not> tcConnectingWatch c"

lemma stop_watch:
  "\<not> tcConnectingWatch c \<Longrightarrow> tcNetConfig c = None \<Longrightarrow> \<not> tcConnectingWatch (StopLocked out finalDisarm disconnect c)"
proof -
  assume w: "\<not> tcConnectingWatch c" "tcNetConfig c = None"
  have a: "\<not> tcConnectingWatch (snd (ApplyWfpLocked out st x))" if "st \<noteq> Wfp_Connecting" for st x
    using that by (simp add: ApplyWfpLocked_def Let_def wfp_apply_def wfp_revert_def split: prod.splits)
  have r: "tcConnectingWatch (ResumeProvidingLocked out kept x) = tcConnectingWatch x" for kept x
    by (simp add: ResumeProvidingLocked_def ReadProviderFactsLocked_def Let_def)
  have t: "tcConnectingWatch (torn out keep x) = tcConnectingWatch x" for keep x
    by (simp add: teardown_cases drop_session_def)
  have f: "tcConnectingWatch (finish_stop out keep x) = tcConnectingWatch x" for keep x
    by (simp add: finish_stop_cases Let_def r t)
  have k: "tcConnectingWatch (snd (keep_device out x)) = tcConnectingWatch x" for x
    by (simp add: keep_device_def split: prod.splits)
  have m: "tcConnectingWatch (release_machine out h x) = tcConnectingWatch x" for h x
    by (simp add: release_machine_def Let_def)
  have "\<not> tcConnectingWatch (stop_machine out finalDisarm c)"
    using w by (simp add: stop_machine_def Let_def RevertMachineStateLocked_def settle_policy_def a m)
  then show ?thesis by (simp add: StopLocked_halves Let_def f k)
qed

lemma stop_untouched: "untouched c \<Longrightarrow> untouched (StopLocked out finalDisarm disconnect c)"
  using StopLocked_policy(1,3) [of finalDisarm c out disconnect] by (cases finalDisarm) (simp_all add: untouched_def)

lemma stop_clamped: "clamped c \<Longrightarrow> clamped (StopLocked out finalDisarm disconnect c)"
  using stop_untouched [of c out finalDisarm disconnect] stop_watch [of c out finalDisarm disconnect]
  by (simp add: clamped_def untouched_def)

definition rpc_session :: "'e Controller \<Rightarrow> bool" where
  "rpc_session c \<longleftrightarrow> clamped c \<and> tcMode c = Mode_RpcOnly"

lemma halt_rpc: "rpc_session c \<Longrightarrow> flow_all rpc_session (halt_here out step c)"
  using stop_clamped [of c out True False]
  by (auto simp: halt_here_def HaltAfterStepLocked_def rpc_session_def)

lemma steps_rpc: "rpc_session c \<Longrightarrow> flow_all rpc_session (start_steps out config c)"
proof -
  have w: "flow_all rpc_session (start_wintun out x)" if "rpc_session x" for x
    using halt_rpc [OF that] that by (simp add: start_wintun_def rpc_session_def)
  have e: "flow_all rpc_session (start_egress out x)" if "rpc_session x" for x
    using that unfolding start_egress_def by (intro halt_rpc) (simp add: rpc_session_def clamped_def untouched_def)
  have s: "flow_all rpc_session (start_space out config x)" if "rpc_session x" for x
    using that by (auto simp: start_space_def ImportNetworkSpaceLocked_def Let_def split: option.splits sum.splits intro!: halt_rpc)
      (auto simp: rpc_session_def clamped_def untouched_def)
  have d: "flow_all rpc_session (start_device out x)" if "rpc_session x" for x
    using that by (auto simp: start_device_def split: option.splits sum.splits intro!: halt_rpc)
      (auto simp: rpc_session_def clamped_def untouched_def)
  have r: "flow_all rpc_session (start_rpc out config x)" if "rpc_session x" for x
    using that by (auto simp: start_rpc_def split: option.splits intro!: halt_rpc)
      (auto simp: rpc_session_def clamped_def untouched_def)
  have f: "flow_all rpc_session (the_fence out x)" if "rpc_session x" for x
    using that stop_clamped [of x out True False] by (auto simp: the_fence_def rpc_session_def clamped_def untouched_def)
  assume "rpc_session c"
  then show ?thesis
    unfolding start_steps_def by (intro flow_all_and_then w e s d r f) assumption
qed

lemma start_clamped:
  assumes "clamped c"
  shows "clamped (StartLocked out config c)"
proof -
  have run: "clamped (run_session out config x)" if "clamped x" for x
  proof -
    have "rpc_session (widen_for_attempt out (begin_session out config x))"
      using that by (cases "stMode config")
        (simp_all add: widen_for_attempt_def begin_session_def Let_def rpc_session_def clamped_def untouched_def)
    from steps_rpc [OF this, of out config] show ?thesis
      using stop_clamped
      by (cases "start_steps out config (widen_for_attempt out (begin_session out config x))")
        (auto simp: run_session_def rpc_session_def clamped_def untouched_def stop_watch
          StopLocked_policy(3))
  qed
  have admit: "clamped (admit_session out config x)" if "clamped x" for x
    using that run by (auto simp: admit_session_def clamped_def untouched_def split: prod.splits)
  have take_it: "clamped (TakeProviderDeviceLocked out config x)" if "clamped x" for x
    using that by (simp add: TakeProviderDeviceLocked_def clear_provider_def clamped_def untouched_def)
  have close: "clamped (CloseHandedOffDeviceLocked out x)" if "clamped x" for x
    using that by (auto simp: CloseHandedOffDeviceLocked_def clamped_def untouched_def wfp_apply_def)
  have "clamped (c\<lparr>tcKillSwitch := k\<rparr>)" for k using assms by (simp add: clamped_def untouched_def)
  note c2 = stop_clamped [OF take_it [OF this], where out = out and finalDisarm = False and disconnect = False]
  have "clamped (x\<lparr>tcReadiness := r, tcSession := n, tcStopReason := s\<rparr>)" if "clamped x" for x r n s
    using that by (simp add: clamped_def untouched_def)
  note c3 = admit [OF this [OF c2]]
  have "clamped (StatusLocked out x)" if "clamped x" for x using that by (simp add: clamped_def untouched_def)
  from close [OF this [OF c3]] show ?thesis unfolding StartLocked_def Let_def by (simp del: publish_defs)
qed
lemma escape_clamped: "clamped c \<Longrightarrow> clamped (escape out c)"
  by (simp add: clamped_def untouched_def)

lemma retire_clamped:
  "clamped c \<Longrightarrow> clamped (RetireProviderDeviceLocked out c)" "clamped c \<Longrightarrow> clamped (RetireLogUploadDeviceLocked out c)"
  by (simp_all add: clamped_def untouched_def)

lemma clamped_space [simp]:
  "clamped (SetNetworkCountry cc source c) \<longleftrightarrow> clamped c" "clamped (c\<lparr>tcLastSpace := b\<rparr>) \<longleftrightarrow> clamped c"
  by (simp_all add: clamped_def untouched_def)

lemma upload_clamped:
  "clamped c \<Longrightarrow> clamped (snd (upload_device out c))" "clamped c \<Longrightarrow> clamped (CloseLogUploadDevice out device c)"
  by (auto simp: upload_device_def open_upload_device_def ImportNetworkSpaceLocked_def CloseLogUploadDevice_def clamped_def untouched_def Let_def
      split: option.split prod.split sum.split)

lemma provider_clamped: "clamped c \<Longrightarrow> clamped (snd (StartProviderLocked out locked request c))"
proof -
  assume c: "clamped c"
  have s: "clamped (c\<lparr>tcStops := s\<rparr>)" for s using c by (simp add: clamped_def untouched_def)
  have p: "clamped (StatusLocked out (ReadProviderFactsLocked out (x\<lparr>tcProviderRequest := r\<rparr>)))" if "clamped x" for x r
    using that by (simp add: ReadProviderFactsLocked_def clamped_def untouched_def)
  have "clamped (snd (build_provider out request x))" if x: "clamped x" for x
  proof -
    have f: "clamped (x\<lparr>tcProviderEgress := a, tcLastSpace := k, tcProviderSpace := b, tcProviderDevice := d\<rparr>)"
      "clamped (x\<lparr>tcProviderEgress := a, tcLastSpace := k, tcProviderSpace := b\<rparr>)" "clamped (x\<lparr>tcProviderEgress := a\<rparr>)" for a b d k
      using x by (simp_all add: clamped_def untouched_def)
    note r = retire_clamped(1) [where out = out]
    show ?thesis using r [OF x] r [OF f(1)] r [OF f(2)] r [OF f(3)] p [OF f(1)]
      unfolding build_provider_def provider_failed_def ImportNetworkSpaceLocked_def
      by (auto simp: Let_def split: sum.splits simp del: publish_defs)
  qed
  have n: "clamped (SetNetworkCountry cc source (c\<lparr>tcStops := s\<rparr>))" for cc source s
    using s [of s] by simp
  from \<open>\<And>x. clamped x \<Longrightarrow> clamped (snd (build_provider out request x))\<close>
      [OF retire_clamped(2) [OF retire_clamped(1) [OF n, where out = out], where out = out]] s n p [OF n] c show ?thesis
    unfolding StartProviderLocked_def keep_provider_def
    by (auto simp: Let_def split: prod.splits simp del: publish_defs)
qed

lemma step_clamped:
  assumes "clamped c"
  shows "clamped (controller_step c request)"
proof -
  have n: "clamped (CancelCapture (c\<lparr>tcStopGeneration := n\<rparr>))"
    "clamped ((CancelCapture (c\<lparr>tcStopGeneration := n\<rparr>))\<lparr>tcStopReason := t\<rparr>)"
    "clamped ((CancelCapture (c\<lparr>tcStopGeneration := n\<rparr>))\<lparr>tcStopReason := t, tcWatch := w\<rparr>)" for n t w
    using assms by (simp_all add: clamped_def untouched_def)
  have l: "clamped (call ClearIdentityFiles x)" if "clamped x" for x using that by (simp add: clamped_def untouched_def)
  show ?thesis
  proof (cases "(c, request)" rule: controller_step.cases)
    case (2 c out locked disconnect)
    then show ?thesis using n stop_clamped [OF n(2), where out = out] escape_clamped [OF n(2), where out = out]
      unfolding StopWith_def by (simp add: StopWith_def Let_def del: publish_defs)
  next
    case (3 c out locked why)
    then show ?thesis using stop_clamped [OF n(2), where out = out] escape_clamped [OF n(3), where out = out]
      by (simp add: FailsafeStop_def Let_def del: publish_defs)
  next
    case (10 c out locked spaceJson)
    then show ?thesis using n(1) l [OF stop_clamped [OF n(2), where out = out]]
      by (simp add: Logout_def Let_def ImportNetworkSpaceLocked_def split: sum.split del: publish_defs)
  next
    case (4 c out others clock locked session ticket)
    then show ?thesis using assms by (simp add: ActivateCapture_def clamped_def)
  next
    case (6 c out)
    then show ?thesis using assms by (simp add: ConnectingWatchdogFires_def clamped_def)
  qed (use assms in \<open>simp_all add: start_clamped provider_clamped retire_clamped upload_clamped StopProvider_def,
      (simp_all add: SetKillSwitch_def SetSplitTunnel_def PushExcludedToDriver_def OnEgressChanged_def Let_def
        clamped_def untouched_def)?\<close>)
qed

interpretation rpc_only: observer controller_step clamped "\<lambda>_ _. True"
  by unfold_locales (rule step_clamped)

subsection \<open>The effect of a stop\<close>

lemma inv_released: "controller_inv c \<Longrightarrow> tcNetConfig c = None \<Longrightarrow> \<not> routes_out (tcCalls c) \<and> \<not> tsRoutes (tcMirror c)"
  by (auto simp: controller_inv_def settled_def told_def)

lemma stop_effects:
  assumes "controller_inv c" and s_def: "s = StopWith out locked disconnect c"
  shows "\<not> routes_out (tcCalls s) \<and> \<not> tcMarker s \<and> \<not> tsRoutes (tcMirror s) \<and>
    (locked \<or> \<not> tcKillSwitch c \<longrightarrow> pState (tcWfp s) = Wfp_Off)"
proof (cases locked)
  case True
  then have "tcNetConfig s = None" "\<not> tcMarker s" "pState (tcWfp s) = Wfp_Off"
    by (simp_all add: s_def StopWith_def Let_def StopLocked_policy)
  with inv_released [OF stop_with_inv [OF assms(1), where out = out and locked = locked and disconnect = disconnect]]
  show ?thesis by (simp add: s_def)
next
  case False
  then show ?thesis by (simp add: s_def StopWith_def Let_def)
qed

lemma failsafe_effects:
  assumes "controller_inv c" and s_def: "s = FailsafeStop out locked why c"
  shows "\<not> routes_out (tcCalls s) \<and> \<not> tcMarker s \<and> \<not> tsRoutes (tcMirror s) \<and>
    (\<not> tcKillSwitch c \<longrightarrow> pState (tcWfp s) = Wfp_Off) \<and>
    (tcKillSwitch c \<and> pState (tcWfp c) \<noteq> Wfp_Off \<longrightarrow> pState (tcWfp s) \<noteq> Wfp_Off)"
proof (cases locked)
  case True
  let ?c = "(CancelCapture (c\<lparr>tcStopGeneration := tcStopGeneration c + 1\<rparr>))\<lparr>tcStopReason := StopReasonOf why\<rparr>"
  from True have s: "s = StopLocked out (\<not> tcKillSwitch c) False ?c"
    by (simp add: s_def FailsafeStop_def Let_def FailsafeFinalDisarm_def)
  then have "tcNetConfig s = None" "\<not> tcMarker s" by simp_all
  with inv_released [OF failsafe_inv [OF assms(1), where out = out and locked = locked and why = why]]
  show ?thesis
    using StopLocked_policy(1) [of "\<not> tcKillSwitch c" ?c out False] StopLocked_policy(2) [of "\<not> tcKillSwitch c" ?c out False]
    by (auto simp: s_def [symmetric]) (simp_all add: s)
next
  case False
  then show ?thesis by (simp add: s_def FailsafeStop_def Let_def)
qed

lemma stage_unhalted:
  "tcStopAfterStep c = 0 \<Longrightarrow>
    tcStopAfterStep (snd (stage_action out stage c)) = 0 \<and> tcReadiness (snd (stage_action out stage c)) = tcReadiness c"
  using transition_frame [of out Wfp_Connecting c] transition_frame [of out Wfp_Connected c]
  by (cases stage; cases "ApplyWfpLocked out Wfp_Connecting c"; cases "ApplyWfpLocked out Wfp_Connected c")
    (auto simp: stage_action.simps Let_def PushExcludedToDriver_def checkpoints_cases split: bool.splits)

lemma stages_unhalted:
  "tcStopAfterStep c = 0 \<Longrightarrow>
    tcStopAfterStep (after_stages out stages c) = 0 \<and> tcReadiness (after_stages out stages c) = tcReadiness c"
  unfolding after_stages_def
  by (induction stages arbitrary: c) (simp_all add: stage_unhalted)

lemma perform_not_up: "tcState c \<noteq> Up \<Longrightarrow> tcState (perform out x c action) \<noteq> Up"
proof (cases action)
  case (Try stage)
  assume u: "tcState c \<noteq> Up"
  show ?thesis
  proof (cases "stage = Connected")
    case True
    then show ?thesis using Try u transition_frame(1) [of out Wfp_Connected c]
      by (cases "ApplyWfpLocked out Wfp_Connected c") (auto simp: stage_action.simps checkpoints_cases split: bool.splits)
  next
    case False
    then show ?thesis using Try u stage_preparing [of stage out c] by simp
  qed
next
  case Rollback
  assume "tcState c \<noteq> Up"
  then show ?thesis using Rollback by (simp add: capture_rollback_def Let_def)
qed

lemma performed_not_up: "tcState c \<noteq> Up \<Longrightarrow> tcState (foldl (perform out x) c actions) \<noteq> Up"
  by (induction actions arbitrary: c) (simp_all add: perform_not_up del: perform.simps)

lemma bring_up_state:
  "tcState c = Preparing \<Longrightarrow> BringUpTunnelLocked out others clock ticket c = (ending, step, c') \<Longrightarrow> tcState c' \<noteq> Up"
  using performed_not_up [of c out] by (auto simp: BringUpTunnelLocked_def Let_def split: prod.splits if_splits)

lemma activation_policy:
  assumes "controller_inv c" and "tcState c \<noteq> Up"
    and "c' = ActivateCapture out others clock locked session ticket c"
    and "tcState c' = Up" and "tcKillSwitch c'"
  shows "pState (tcWfp c') = Wfp_Connected"
proof -
  have g: "locked" "\<not> crCancelled (tcReadiness c)" "session = tcSession c" "tcState c = Preparing"
    using assms(2-4) by (auto simp: ActivateCapture_def split: if_splits)
  obtain ending step c1 where b: "BringUpTunnelLocked out others clock ticket c = (ending, step, c1)"
    by (metis prod_cases3)
  note r = bring_up_cases [OF assms(1) g(4) b]
  show ?thesis
  proof (cases "ending = Returned Active")
    case True
    then show ?thesis using r assms(3-5) g b by (auto simp: ActivateCapture_def captured_def split: if_splits)
  next
    case False
    then have "tcState c' = tcState c1 \<or> tcState c' = Error"
      using assms(3) g b by (auto simp: ActivateCapture_def split: if_splits CaptureEnd.splits CaptureResult.splits)
        (metis CaptureResult.exhaust)+
    then show ?thesis using False r assms(4) bring_up_state [OF g(4) b] by simp
  qed
qed
text \<open>An engine that takes every call and keeps nothing.\<close>

definition engine_quiet :: "(unit, unit) Fwpm" where
  "engine_quiet =
    \<lparr>EngineOpen = (\<lambda>e. (0, e)), EngineClose = (\<lambda>e. e), TransactionBegin = (\<lambda>e. (0, e)),
     TransactionCommit = (\<lambda>e. (0, e)), TransactionAbort = (\<lambda>e. e), ProviderAdd = (\<lambda>k e. (0, e)), SubLayerAdd = (\<lambda>k w e. (0, e)),
     ProviderFlags = (\<lambda>k e. None), FilterDeleteById = (\<lambda>i e. (0, e)), FilterAdd = (\<lambda>x e. (0, 1, e)),
     AppIdFromFileName = (\<lambda>s. Inr ())\<rparr>"
lemma quiet_builds: "\<exists>v. BuildConditions (\<lambda>s. Inr ()) conds = Inr v"
  by (induction conds) (auto simp: build_value_def split: WfpField.splits sum.splits)
lemma quiet_adds: "\<exists>ids. add_filters engine_quiet specs e = (Inr ids, ())"
proof (induction specs arbitrary: e)
  case (Cons s ss)
  have "AppIdFromFileName engine_quiet = (\<lambda>s. Inr ())" by (simp add: engine_quiet_def)
  then show ?case using Cons quiet_builds [of "sConditions s"] by (auto simp: engine_quiet_def ERROR_SUCCESS_def)
qed simp
lemma quiet_deletes: "delete_filters engine_quiet ids e = (None, ())"
  by (induction ids arbitrary: e) (auto simp: engine_quiet_def ERROR_SUCCESS_def)

lemma quiet_calls:
  "TransactionBegin engine_quiet e = (ERROR_SUCCESS, ())" "TransactionCommit engine_quiet e = (ERROR_SUCCESS, ())"
  "fst (OpenEngine engine_quiet w e)"
  by (simp_all add: engine_quiet_def ERROR_SUCCESS_def OpenEngine_def our_sublayers_def)

lemma quiet_applies: "fst (ApplyLocked engine_quiet inet4 inet6 st cfg w e)"
proof -
  obtain ids where a: "add_filters engine_quiet (BuildFilterSet inet4 inet6 st cfg) () = (Inr ids, ())"
    using quiet_adds by blast
  have "swap_filters engine_quiet old (BuildFilterSet inet4 inet6 st cfg) x = (Inr ids, ())" for old x
    by (simp add: swap_filters_def quiet_calls quiet_deletes a)
  then show ?thesis
    using quiet_calls(3) by (simp add: ApplyLocked_def Let_def case_prod_beta)
qed

section \<open>Two corners of the code\<close>

text \<open>
  A transition that is refused has already cancelled the watchdog of the connecting window: a
  connecting policy that could not be narrowed stays in force with no timer behind it.
\<close>

lemma refused_narrowing_unwatched:
  assumes "pState (tcWfp c) = Wfp_Connecting" and "\<not> fst (ApplyWfpLocked out Wfp_Armed c)"
  shows "pState (tcWfp (snd (ApplyWfpLocked out Wfp_Armed c))) = Wfp_Connecting \<and>
    \<not> tcConnectingWatch (snd (ApplyWfpLocked out Wfp_Armed c))"
  using firewall.transit_refused [OF assms(2)] assms(1)
  by (auto simp: ApplyWfpLocked_def Let_def wfp_apply_def split: prod.splits)

text \<open>
  The retire looks at the provider-only device and its space, not at their egress monitor. When
  the build of a provider-only device fails at its network space, the monitor it started goes on
  running, and the stop every start opens with does not end it.
\<close>

lemma provider_monitor_left_running:
  assumes "oProviderEgress out" and "oImport out = Inl what"
    and "tcProviderDevice c = None" and "tcProviderSpace c = None"
  shows "tcProviderEgress (StopLocked out' False False (snd (build_provider out request c)))"
proof -
  let ?c = "c\<lparr>tcProviderEgress := True\<rparr>"
  have b: "snd (build_provider out request c) = ?c"
    using assms by (simp add: build_provider_def ImportNetworkSpaceLocked_def provider_failed_def RetireProviderDeviceLocked_def)
  have "stop_machine out' False ?c =
    RetireLogUploadDeviceLocked out' (RevertMachineStateLocked out' False (tcNetConfig c \<noteq> None)
      ((if IsSessionLive (tcState c) \<or> tcState c = Starting then SetStateLocked out' Stopping (CancelCapture ?c)
        else CancelCapture ?c)\<lparr>tcWatch := Watch_None\<rparr>))"
    using assms(3,4) by (simp add: stop_machine_def Let_def RetireProviderDeviceLocked_def)
  then have "tcProviderEgress (stop_machine out' False ?c)" by simp
  then show ?thesis
    using teardown_kept [of out' False "stop_machine out' False ?c"]
    by (auto simp: b StopLocked_halves Let_def finish_stop_cases)
qed
section \<open>A concrete session\<close>

text \<open>The machine of the examples: a connect succeeds, and the policy object refuses when the service's own path is unknown.\<close>

definition outside_sample :: "(unit, unit) Outside" where
  "outside_sample =
    \<lparr>oApi = engine_quiet, oInet4 = inet4_sample, oInet6 = inet6_sample, oServiceImage = '''',
     oAppImage = '''', oHostResolvers = (\<lambda>luid. [''1.1.1.1'']), oNow = 5000,
     oGateDone = (\<lambda>g. True), oFinishes = (\<lambda>g. True), oSelfRestart = None, oStopDuring = False,
     oWintunLoad = None, oAdapter = Inr 7, oEgress = (11, 0), oImport = Inr 1, oSpaceKey = True, oNewDevice = Inr 2,
     oRpcServer = None, oPrepare = True, oLocalV4 = '''', oDnsV4 = None, oDefaultDnsV4 = ''1.1.1.1'',
     oLocalV6 = '''', oPrefixV6 = 0, oDnsV6 = None, oDefaultDnsV6 = '''', oSplitOpen = False, oPumpStarts = True,
     oDiscoverEgress = (11, 0), oNetApply = (True, \<lparr>DnsApplied = True, AppliedIpv6 = False\<rparr>),
     oModeAtStop = Some ''always'', oModeAtResume = Some ''always'', oSessionCleared = True,
     oProviderEgress = True, oTransportTaken = True, oModeTaken = True, oTier = 2, oNetworkKey = False,
     oIdentityCleared = True, oFailsafeArmed = True\<rparr>"

definition start_sample :: "bool \<Rightarrow> StartTunnel" where
  "start_sample killSwitch =
    \<lparr>stIdentity = spIdentity NoProviderRequest, stMode = Mode_Tunnel, stKillSwitch = killSwitch,
     stRpcHostPort = ''127.0.0.1:1'', stRpcSessionId = ''s'', stExcluded = [], stAllowlist = False,
     stCountry = (''us'', ''mobile-broadband'')\<rparr>"

definition proof_sample :: CaptureOp where
  "proof_sample = OpCompleteSample \<lparr>smRevision = 0, smProofSinceMillis = 0, smStartedMillis = 100\<rparr>
    \<lparr>cwGeneration = 1, cwAdded = 1\<rparr> \<lparr>cwGeneration = 1, cwAdded = 1\<rparr> 1 110"

definition ticket_sample :: CaptureTicket where
  "ticket_sample = \<lparr>tkRevision = 1, tkGeneration = 1, tkSampledMillis = 100\<rparr>"

text \<open>A connect, the proof of an exit, and then the capture.\<close>

definition prepare_sample :: "bool \<Rightarrow> ((unit, unit) Outside \<times> Request) list" where
  "prepare_sample killSwitch =
    [(outside_sample, Req_Start (start_sample killSwitch)), (outside_sample, Req_Readiness proof_sample)]"

definition capture_sample :: Request where
  "capture_sample = Req_Activate (\<lambda>_. []) (\<lambda>_. 120) True 1 ticket_sample"

definition connect_sample :: "((unit, unit) Outside \<times> Request) list" where
  "connect_sample = prepare_sample False @ [(outside_sample, capture_sample)]"

lemma up_sample:
  "let c = run controller_step (InitController ()) connect_sample
   in tcState c = Up \<and> \<not> tcKillSwitch c \<and> routes_out (tcCalls c) \<and> tcDevice c = Some 2"
  by code_simp

lemma prepared_sample:
  "let c = run controller_step (InitController ()) (prepare_sample True)
   in tcState c = Preparing \<and> tcKillSwitch c \<and> tcMode c = Mode_Tunnel \<and> tcAdapter c = Some 7 \<and> tcDevice c = Some 2 \<and>
     tcStopAfterStep c = 0 \<and> tcSession c = 1 \<and>
     \<not> crCancelled (tcReadiness c) \<and> CurrentWithLock (tcReadiness c) ticket_sample 120"
  by code_simp

text \<open>The same machine with its own path known: the policy is installed.\<close>

definition filtering_sample :: "(unit, unit) Outside" where
  "filtering_sample = outside_sample\<lparr>oServiceImage := ''urnetworkd.exe''\<rparr>"

lemma filtering_applies: "fst (ApplyWfpLocked filtering_sample st c)"
proof -
  have "service_image_path (transition_config filtering_sample st x) \<noteq> []" for x :: "unit Controller"
    by (simp add: transition_config_def BaseWfpConfig_def Let_def filtering_sample_def)
  moreover have "fst (wfp_apply filtering_sample st cfg x)" for cfg x
    by (simp add: wfp_apply_def case_prod_beta filtering_sample_def outside_sample_def quiet_applies)
  ultimately show ?thesis by (simp add: ApplyWfpLocked_def Let_def case_prod_beta)
qed

lemma sample_outcomes:
  assumes "tcStopAfterStep c = 0"
  shows "stage_outcome filtering_sample c stage = Applied"
proof -
  have p: "fst (stage_action filtering_sample Prepare x) = Applied" for x
    by (simp add: stage_action.simps Let_def filtering_sample_def outside_sample_def)
  have f: "fst (stage_action filtering_sample Firewall x) = Applied" for x
    using filtering_applies [of Wfp_Connecting x]
    by (auto simp: stage_action.simps filtering_sample_def outside_sample_def split: prod.splits)
  have n: "fst (stage_action filtering_sample Network x) = Applied" for x
    by (simp add: stage_action.simps Let_def filtering_sample_def outside_sample_def)
  have d: "fst (stage_action filtering_sample Connected x) = Applied" if "tcStopAfterStep x = 0" for x
    using filtering_applies [of Wfp_Connected x] transition_frame(4) [of filtering_sample Wfp_Connected x] that
    by (cases "ApplyWfpLocked filtering_sample Wfp_Connected x") (auto simp: stage_action.simps checkpoints_cases)
  have "tcStopAfterStep (after_stages filtering_sample (stages_before Connected) c) = 0"
    using stages_unhalted [OF assms] by blast
  with p f n d show ?thesis by (cases stage) (simp_all add: stage_outcome_def)
qed

lemma sample_commits:
  assumes "tcState c = Preparing" "tcMode c = Mode_Tunnel" "tcAdapter c = Some a" "tcDevice c = Some d"
    "tcStopAfterStep c = 0" "tcSession c = 1" "\<not> crCancelled (tcReadiness c)" "CurrentWithLock (tcReadiness c) ticket now"
  defines "c' \<equiv> ActivateCapture filtering_sample (\<lambda>_. []) (\<lambda>_. now) True 1 ticket c"
  shows "tcState c' = Up" and "tcKillSwitch c' = tcKillSwitch c"
proof -
  let ?r = "(tcReadiness c)\<lparr>crActive := True\<rparr>"
  have "ApplyCapture (stage_outcome filtering_sample c) (\<lambda>_. []) (\<lambda>_. now) ticket (tcReadiness c) =
    (Returned Active, ?r, map Try [Prepare, Firewall, Network, Connected])"
    using assms(5,8) by (simp add: ApplyCapture_def Let_def sample_outcomes Commit_def)
  then have b: "BringUpTunnelLocked filtering_sample (\<lambda>_. []) (\<lambda>_. now) ticket c =
    (Returned Active, reached_step filtering_sample ''readiness'' (map Try [Prepare, Firewall, Network, Connected]),
     (after_stages filtering_sample [Prepare, Firewall, Network, Connected] c)\<lparr>tcReadiness :=
       (if crCancelled (tcReadiness (after_stages filtering_sample [Prepare, Firewall, Network, Connected] c))
        then Cancel ?r else ?r)\<rparr>)"
    using assms(2-4) by (simp add: BringUpTunnelLocked_def Let_def after_stages_def)
  have "tcReadiness (after_stages filtering_sample [Prepare, Firewall, Network, Connected] c) = tcReadiness c"
    by (rule conjunct2 [OF stages_unhalted [OF assms(5)]])
  with b assms(1,6,7) all_stages_applied(6) [of filtering_sample c] sample_outcomes [OF assms(5)]
  show "tcState c' = Up" "tcKillSwitch c' = tcKillSwitch c" by (simp_all add: c'_def ActivateCapture_def)
qed

section \<open>Properties\<close>



text \<open>
  (C13) The shape of every reachable state. A tunnel that is up has its routes and DNS applied, its
  pump running, an adapter and a device, and a policy that is either absent or the connected one;
  a stopped or failed controller holds no session object and has no route out; and of the
  session's device, the provider-only one and the one built for a log upload at most one exists.
\<close>

theorem session_shape:
  "let c = run controller_step (InitController e) requests
   in (tcState c = Up \<longrightarrow>
        (\<exists>n. tcNetConfig c = Some n \<and> DnsApplied n) \<and> tcPump c \<and> tcMode c = Mode_Tunnel \<and>
        tcAdapter c \<noteq> None \<and> tcDevice c \<noteq> None \<and>
        (pState (tcWfp c) = Wfp_Off \<or> pState (tcWfp c) = Wfp_Connected)) \<and>
      (tcState c = Stopped \<or> tcState c = Error \<longrightarrow>
        session_empty c \<and> tcNetConfig c = None \<and> \<not> routes_out (tcCalls c)) \<and>
      (tcDevice c \<noteq> None \<longrightarrow> tcProviderDevice c = None \<and> tcLogUpload c = None) \<and>
      (tcLogUpload c \<noteq> None \<longrightarrow> tcProviderDevice c = None)"
  using up_shape [OF reachable_inv [of e requests]] down_shape [OF reachable_inv [of e requests]]
    one_device [OF reachable_inv [of e requests]]
  by (simp only: Let_def) blast

theorem session_shape_witness:
  "let c = run controller_step (InitController ()) connect_sample
   in tcState c = Up \<and> tcPump c \<and> tcAdapter c \<noteq> None \<and> tcProviderDevice c = None"
  using session_shape [of "()" connect_sample] up_sample by (simp add: Let_def)

text \<open>
  (C9) The machine before the objects: in no run is an SDK object handed to a worker that may block
  (the session's, the provider-only device's, a log upload's, a handed-over one's) while a route of ours is out.
\<close>

theorem machine_before_objects:
  "orderly (tcCalls (run controller_step (InitController e) requests))"
  using reachable_inv [of e requests] by (simp add: controller_inv_def settled_def)



text \<open>
  A process clamped to rpc-only leaves the machine alone: whatever is requested of it, it never
  creates an adapter, never asks for a route or a DNS setting, never puts a filter in force and
  never sets the active marker.
\<close>

theorem rpc_only_touches_nothing:
  "untouched (run controller_step (ClampToRpcOnly (InitController e)) requests)"
proof -
  have "clamped (ClampToRpcOnly (InitController e))"
    by (simp add: ClampToRpcOnly_def InitController_def InitPolicy_def clamped_def untouched_def)
  from rpc_only.run_good_total [OF this] have "clamped (run controller_step (ClampToRpcOnly (InitController e)) requests)"
    by simp
  then show ?thesis by (simp add: clamped_def)
qed

text \<open>
  (C12) With the kill switch on, a capture that completes leaves the connected policy in force: the
  tunnel is never reported up beside an absent or a weaker one.
\<close>

theorem kill_switch_capture:
  assumes "c = run controller_step (InitController e) requests" and "tcState c \<noteq> Up"
    and "c' = ActivateCapture out others clock locked session ticket c"
    and "tcState c' = Up" and "tcKillSwitch c'"
  shows "pState (tcWfp c') = Wfp_Connected"
  by (rule activation_policy [OF _ assms(2,3,4,5)]) (simp add: assms(1) reachable_inv)

theorem kill_switch_capture_witness:
  "let c = run controller_step (InitController ()) (prepare_sample True);
       c' = ActivateCapture filtering_sample (\<lambda>_. []) (\<lambda>_. 120) True 1 ticket_sample c
   in tcState c' = Up \<and> tcKillSwitch c' \<and> pState (tcWfp c') = Wfp_Connected"
proof -
  let ?c = "run controller_step (InitController ()) (prepare_sample True)"
  have "tcState (ActivateCapture filtering_sample (\<lambda>_. []) (\<lambda>_. 120) True 1 ticket_sample ?c) = Up \<and>
    tcKillSwitch (ActivateCapture filtering_sample (\<lambda>_. []) (\<lambda>_. 120) True 1 ticket_sample ?c)"
    using prepared_sample [unfolded Let_def] sample_commits [of ?c 7 2 ticket_sample 120] by blast
  then show ?thesis
    using kill_switch_capture [OF refl _ refl, of "()" "prepare_sample True" filtering_sample "\<lambda>_. []" "\<lambda>_. 120" True 1
        ticket_sample] prepared_sample
    by (simp add: Let_def)
qed

end
