(* ===== verification/EgressMonitor.thy ===== *)
theory EgressMonitor
  imports NetworkConfig NetworkChange
begin

text \<open>
  Where the machine's own traffic leaves it: the election of the physical egress interface, the
  signature of what a socket rides and the host's resolvers (the readers of
  \<^verbatim>\<open>Service/NetworkConfig.cpp\<close>), and the monitor that keeps the SDK's sockets pinned to that
  interface (\<^verbatim>\<open>Service/EgressMonitor.cpp\<close>). The stack is read through the same interface as in
  \<open>NetworkConfig\<close>; the adapter list and the text of an address are arguments. What the monitor
  does to others, the SDK setter and its three handlers, is returned as a list of effects in the
  order the source performs them. Registration with the system and log texts are left out.
\<close>

unbundle bit_operations_syntax

section \<open>The election of the egress interface\<close>

record EgressInterfaces =
  index4 :: u32
  index6 :: u32

definition NoEgress :: EgressInterfaces where
  "NoEgress = \<lparr>index4 = 0, index6 = 0\<rparr>"

record Election =
  bestMetric :: u32
  bestIndex :: u32
  bestLinkDownMetric :: u32
  bestLinkDownIndex :: u32

definition NoElection :: Election where
  "NoElection = \<lparr>bestMetric = 0xFFFFFFFF, bestIndex = 0, bestLinkDownMetric = 0xFFFFFFFF, bestLinkDownIndex = 0\<rparr>"

definition row_metric :: "'s IpHelper \<Rightarrow> AddressFamily \<Rightarrow> 's \<Rightarrow> ForwardRow \<Rightarrow> u32" where
  "row_metric api family s row =
    (let ifMetric = (case GetIpInterfaceEntry api family (frLuid row) s of Inr r \<Rightarrow> iiMetric r | Inl err \<Rightarrow> 0)
     in frMetric row + ifMetric)"

definition link_connected :: "IfRow option \<Rightarrow> bool" where
  "link_connected entry = (case entry of Some r \<Rightarrow> ifMedia r \<noteq> MediaConnectStateDisconnected | None \<Rightarrow> True)"

definition elect :: "'s IpHelper \<Rightarrow> AddressFamily \<Rightarrow> u64 \<Rightarrow> 's \<Rightarrow> Election \<Rightarrow> ForwardRow \<Rightarrow> Election" where
  "elect api family tunLuid s e row =
    (if ipLength (frDest row) \<noteq> 0 then e
     else if frLuid row = tunLuid then e
     else let metric = row_metric api family s row in
       if link_connected (GetIfEntry2 api (frLuid row) s)
       then (if metric < bestMetric e then e\<lparr>bestMetric := metric, bestIndex := frIndex row\<rparr> else e)
       else if metric < bestLinkDownMetric e
       then e\<lparr>bestLinkDownMetric := metric, bestLinkDownIndex := frIndex row\<rparr> else e)"

definition discover_family :: "'s IpHelper \<Rightarrow> AddressFamily \<Rightarrow> u64 \<Rightarrow> 's \<Rightarrow> u32" where
  "discover_family api family tunLuid s =
    (case GetIpForwardTable2 api family s of
       None \<Rightarrow> 0
     | Some rows \<Rightarrow>
       let e = foldl (elect api family tunLuid s) NoElection rows
       in if bestIndex e = 0 \<and> bestLinkDownIndex e \<noteq> 0 then bestLinkDownIndex e else bestIndex e)"

definition DiscoverEgress :: "'s IpHelper \<Rightarrow> u64 \<Rightarrow> 's \<Rightarrow> EgressInterfaces" where
  "DiscoverEgress api tunLuid s =
    \<lparr>index4 = discover_family api AF_INET tunLuid s, index6 = discover_family api AF_INET6 tunLuid s\<rparr>"

section \<open>What a socket rides\<close>

definition is_link_local6 :: "8 word list \<Rightarrow> bool" where
  "is_link_local6 a \<longleftrightarrow> a ! 0 = 0xFE \<and> (a ! 1) AND 0xC0 = 0x80"

definition is_link_local4 :: "8 word list \<Rightarrow> bool" where
  "is_link_local4 a \<longleftrightarrow> a ! 0 = 169 \<and> a ! 1 = 254"

definition pad16 :: "8 word list \<Rightarrow> 8 word list" where
  "pad16 bytes = bytes @ replicate (16 - length bytes) 0"

definition AddressBytes :: "8 word list \<Rightarrow> AddressFamily \<Rightarrow> 8 word list" where
  "AddressBytes address family = (if family = AF_INET then pad16 (take 4 address) else take 16 address)"

fun bytes_less :: "8 word list \<Rightarrow> 8 word list \<Rightarrow> bool" where
  "bytes_less [] ys = (ys \<noteq> [])"
| "bytes_less (x # xs) [] = False"
| "bytes_less (x # xs) (y # ys) = (x < y \<or> x = y \<and> bytes_less xs ys)"

definition lowest_prefix :: "u32 \<Rightarrow> bool \<times> 8 word list \<Rightarrow> UnicastRow \<Rightarrow> bool \<times> 8 word list" where
  "lowest_prefix index acc row =
    (case acc of (found, lowest) \<Rightarrow>
     if urIndex row \<noteq> index \<or> urDad row \<noteq> IpDadStatePreferred then (found, lowest)
     else if is_link_local6 (urAddress row) then (found, lowest)
     else let p = pad16 (take 8 (urAddress row)) in
       if \<not> found \<or> bytes_less p lowest then (True, p) else (found, lowest))"

definition LowestPreferredPrefix64 :: "'s IpHelper \<Rightarrow> u32 \<Rightarrow> 's \<Rightarrow> 8 word list" where
  "LowestPreferredPrefix64 api index s =
    (case GetUnicastIpAddressTable api AF_INET6 s of
       None \<Rightarrow> replicate 16 0
     | Some rows \<Rightarrow> snd (foldl (lowest_prefix index) (False, replicate 16 0) rows))"

fun first_source :: "AddressFamily \<Rightarrow> u32 \<Rightarrow> UnicastRow list \<Rightarrow> 8 word list option" where
  "first_source family index [] = None"
| "first_source family index (row # rows) =
    (if urIndex row \<noteq> index \<or> urDad row \<noteq> IpDadStatePreferred then first_source family index rows
     else if family = AF_INET then
       (if is_link_local4 (urAddress row) then first_source family index rows else Some (urAddress row))
     else if family = AF_INET6 then
       (if is_link_local6 (urAddress row) then first_source family index rows else Some (urAddress row))
     else first_source family index rows)"

definition InterfaceSourceAddress :: "'s IpHelper \<Rightarrow> u32 \<Rightarrow> AddressFamily \<Rightarrow> 's \<Rightarrow> 8 word list option" where
  "InterfaceSourceAddress api index family s =
    (case GetUnicastIpAddressTable api family s of None \<Rightarrow> None | Some rows \<Rightarrow> first_source family index rows)"

text \<open>The lowest-metric default route of an interface, the first of equals: its metric and next hop.\<close>

definition best_default :: "AddressFamily \<Rightarrow> u32 \<Rightarrow> (u32 \<times> 8 word list) option \<Rightarrow> ForwardRow \<Rightarrow> (u32 \<times> 8 word list) option" where
  "best_default family index best row =
    (if ipLength (frDest row) \<noteq> 0 \<or> frIndex row \<noteq> index then best
     else case best of
       Some (metric, hop) \<Rightarrow> if frMetric row \<ge> metric then best
         else Some (frMetric row, AddressBytes (snd (frNextHop row)) family)
     | None \<Rightarrow> Some (frMetric row, AddressBytes (snd (frNextHop row)) family))"

definition ObserveEgressFamily :: "'s IpHelper \<Rightarrow> AddressFamily \<Rightarrow> u32 \<Rightarrow> 's \<Rightarrow> EgressFamilySignature" where
  "ObserveEgressFamily api family index s =
    (let zeros = replicate 16 0;
         blank = \<lparr>ifIndex = index, usable = False, source = zeros, efNetwork = zeros, gateway = zeros\<rparr>
     in if index = 0 then blank
        else
          let connected = link_connected (GetIfEntry2Index api index s);
              route = (case GetIpForwardTable2 api family s of
                         Some rows \<Rightarrow> foldl (best_default family index) None rows | None \<Rightarrow> None);
              src = InterfaceSourceAddress api index family s;
              sourceBytes = (case src of Some a \<Rightarrow> pad16 a | None \<Rightarrow> zeros)
          in blank\<lparr>gateway := (case route of Some (metric, hop) \<Rightarrow> hop | None \<Rightarrow> zeros),
                   source := sourceBytes,
                   efNetwork := (if family = AF_INET then sourceBytes else LowestPreferredPrefix64 api index s),
                   usable := connected \<and> route \<noteq> None \<and> src \<noteq> None\<rparr>)"

definition ObserveEgress :: "'s IpHelper \<Rightarrow> EgressInterfaces \<Rightarrow> 's \<Rightarrow> EgressSignature" where
  "ObserveEgress api bound s =
    \<lparr>v4 = ObserveEgressFamily api AF_INET (index4 bound) s, v6 = ObserveEgressFamily api AF_INET6 (index6 bound) s\<rparr>"

section \<open>The host's resolvers\<close>

record AdapterAddresses =
  aaUp :: bool
  aaLuid :: u64
  aaDns :: "(AddressFamily \<times> u32) list"

text \<open>
  The adapter list is asked for up to four times while the answer is that the buffer is too small;
  each answer is a code, the size it wants and the list.
\<close>

fun read_adapters ::
    "(u32 \<Rightarrow> 's \<Rightarrow> (u32 \<times> u32 \<times> AdapterAddresses list) \<times> 's) \<Rightarrow> nat \<Rightarrow> u32 \<Rightarrow> 's \<Rightarrow>
     (u32 \<times> AdapterAddresses list) \<times> 's" where
  "read_adapters ask 0 want s = ((ERROR_BUFFER_OVERFLOW, []), s)"
| "read_adapters ask (Suc left) want s =
    (case ask want s of ((err, want', list), s1) \<Rightarrow>
       if err = ERROR_BUFFER_OVERFLOW then read_adapters ask left want' s1 else ((err, list), s1))"

definition usable_resolver :: "(u32 \<Rightarrow> string option) \<Rightarrow> AddressFamily \<times> u32 \<Rightarrow> string option" where
  "usable_resolver ntop4 d =
    (case d of (family, host) \<Rightarrow>
     if family \<noteq> AF_INET then None
     else if host = 0 then None
     else if host AND 0xFF000000 = 0x7F000000 then None
     else ntop4 host)"

definition add_resolver :: "(u32 \<Rightarrow> string option) \<Rightarrow> string list \<Rightarrow> AddressFamily \<times> u32 \<Rightarrow> string list" where
  "add_resolver ntop4 out d =
    (case usable_resolver ntop4 d of None \<Rightarrow> out | Some s \<Rightarrow> if s \<in> set out then out else out @ [s])"

definition adapter_resolvers :: "(u32 \<Rightarrow> string option) \<Rightarrow> u64 \<Rightarrow> string list \<Rightarrow> AdapterAddresses \<Rightarrow> string list" where
  "adapter_resolvers ntop4 excludeLuid out a =
    (if \<not> aaUp a then out
     else if excludeLuid \<noteq> 0 \<and> aaLuid a = excludeLuid then out
     else foldl (add_resolver ntop4) out (aaDns a))"

definition HostResolversV4 ::
    "(u32 \<Rightarrow> 's \<Rightarrow> (u32 \<times> u32 \<times> AdapterAddresses list) \<times> 's) \<Rightarrow> (u32 \<Rightarrow> string option) \<Rightarrow> u64 \<Rightarrow> 's \<Rightarrow>
     string list \<times> 's" where
  "HostResolversV4 ask ntop4 excludeLuid s =
    (case read_adapters ask 4 (16 * 1024) s of ((err, list), s1) \<Rightarrow>
       if err \<noteq> NO_ERROR then ([], s1) else (foldl (adapter_resolvers ntop4 excludeLuid) [] list, s1))"

section \<open>The monitor\<close>

definition WifiSignalLevel :: "u32 \<Rightarrow> int" where
  "WifiSignalLevel quality = uint (((if quality > 100 then 100 else quality) * 5) div 101)"

definition TrackerObserve :: "int \<Rightarrow> u32 \<Rightarrow> int \<times> bool" where
  "TrackerObserve level quality =
    (let next = WifiSignalLevel quality
     in if level < 0 then (next, False) else if level = next then (level, False) else (next, True))"

definition TrackerReset :: int where "TrackerReset = -1"

datatype Binding = Bind | ObserveOnly

datatype Reading = Baseline | Observation

text \<open>The three flags say whether a handler is set.\<close>

record EgressMonitor =
  emTun :: u64
  emBinding :: Binding
  emCurrent :: EgressInterfaces
  emFilter :: EgressChangeFilter
  emOnChange :: bool
  emOnNetworkEvent :: bool
  emOnQualityEvent :: bool
  emLevel :: int

datatype EgressEffect = SetEgressInterfaceIndex EgressInterfaces | ChangeHandler EgressInterfaces
  | NetworkEventHandler | NetworkQualityEventHandler

definition NoSignature :: EgressFamilySignature where
  "NoSignature = \<lparr>ifIndex = 0, usable = False, source = replicate 16 0, efNetwork = replicate 16 0,
    gateway = replicate 16 0\<rparr>"

definition NewEgressMonitor :: "u64 \<Rightarrow> Binding \<Rightarrow> EgressMonitor" where
  "NewEgressMonitor tunLuid b = \<lparr>emTun = tunLuid, emBinding = b, emCurrent = NoEgress,
    emFilter = \<lparr>lastSignature = \<lparr>v4 = NoSignature, v6 = NoSignature\<rparr>, seeded = False\<rparr>,
    emOnChange = False, emOnNetworkEvent = False, emOnQualityEvent = False, emLevel = TrackerReset\<rparr>"

definition SetOnChange :: "bool \<Rightarrow> EgressMonitor \<Rightarrow> EgressMonitor" where
  "SetOnChange handler m = m\<lparr>emOnChange := handler\<rparr>"

definition SetOnNetworkEvent :: "bool \<Rightarrow> EgressMonitor \<Rightarrow> EgressMonitor" where
  "SetOnNetworkEvent handler m = m\<lparr>emOnNetworkEvent := handler\<rparr>"

definition SetOnNetworkQualityEvent :: "bool \<Rightarrow> EgressMonitor \<Rightarrow> EgressMonitor" where
  "SetOnNetworkQualityEvent handler m = m\<lparr>emOnQualityEvent := handler\<rparr>"

definition InterfaceExists :: "'s IpHelper \<Rightarrow> u32 \<Rightarrow> 's \<Rightarrow> bool" where
  "InterfaceExists api index s \<longleftrightarrow> index \<noteq> 0 \<and> GetIfEntry2Index api index s \<noteq> None"

text \<open>An index that is lost is kept while it still names an interface.\<close>

definition retain :: "'s IpHelper \<Rightarrow> 's \<Rightarrow> u32 \<Rightarrow> u32 \<Rightarrow> u32" where
  "retain api s held found = (if found = 0 \<and> held \<noteq> 0 \<and> InterfaceExists api held s then held else found)"

definition next_egress :: "'s IpHelper \<Rightarrow> 's \<Rightarrow> EgressMonitor \<Rightarrow> EgressInterfaces" where
  "next_egress api s m =
    (let found = DiscoverEgress api (emTun m) s
     in \<lparr>index4 = retain api s (index4 (emCurrent m)) (index4 found),
         index6 = retain api s (index6 (emCurrent m)) (index6 found)\<rparr>)"

definition observe_only :: "'s IpHelper \<Rightarrow> Reading \<Rightarrow> 's \<Rightarrow> EgressMonitor \<Rightarrow> EgressMonitor \<times> EgressEffect list" where
  "observe_only api reading s m =
    (let sig = ObserveEgress api (DiscoverEgress api (emTun m) s) s
     in case reading of
          Baseline \<Rightarrow> (m\<lparr>emFilter := FilterSeed (emFilter m) sig\<rparr>, [])
        | Observation \<Rightarrow> (case FilterObserve (emFilter m) sig of (f, change) \<Rightarrow>
            (m\<lparr>emFilter := f\<rparr>, if ecNetwork change \<and> emOnNetworkEvent m then [NetworkEventHandler] else [])))"

definition Update :: "'s IpHelper \<Rightarrow> Reading \<Rightarrow> 's \<Rightarrow> EgressMonitor \<Rightarrow> EgressMonitor \<times> EgressEffect list" where
  "Update api reading s m =
    (if emBinding m = ObserveOnly then observe_only api reading s m
     else
       let egress = next_egress api s m;
           indexMoved = (index4 egress \<noteq> index4 (emCurrent m) \<or> index6 egress \<noteq> index6 (emCurrent m));
           sig = ObserveEgress api egress s
       in case (case reading of
            Baseline \<Rightarrow> (FilterSeed (emFilter m) sig, \<lparr>ecNetwork = False, ecBinding = indexMoved\<rparr>)
          | Observation \<Rightarrow> (case FilterObserve (emFilter m) sig of (f, c) \<Rightarrow> (f, c\<lparr>ecBinding := ecBinding c \<or> indexMoved\<rparr>)))
          of (f, change) \<Rightarrow>
            (m\<lparr>emCurrent := egress, emFilter := f\<rparr>,
             SetEgressInterfaceIndex egress #
             (if ecBinding change \<and> emOnChange m then [ChangeHandler egress] else []) @
             (if ecNetwork change \<and> emOnNetworkEvent m then [NetworkEventHandler] else [])))"

definition Refresh :: "'s IpHelper \<Rightarrow> 's \<Rightarrow> EgressMonitor \<Rightarrow> EgressMonitor \<times> EgressEffect list" where
  "Refresh api s m = Update api Observation s m"

text \<open>
  Starting reads the baseline; the subscriptions' results decide only what \<open>Start\<close> returns: the
  interface and the route subscription are required, the other two are not.
\<close>

definition Start :: "'s IpHelper \<Rightarrow> u32 \<Rightarrow> u32 \<Rightarrow> 's \<Rightarrow> EgressMonitor \<Rightarrow> bool \<times> EgressMonitor \<times> EgressEffect list" where
  "Start api notifyErr routeErr s m = (notifyErr = NO_ERROR \<and> routeErr = NO_ERROR, Update api Baseline s m)"

definition StopMonitor :: "EgressMonitor \<Rightarrow> EgressMonitor" where
  "StopMonitor m = m\<lparr>emLevel := TrackerReset\<rparr>"

definition ours :: "EgressMonitor \<Rightarrow> u64 \<Rightarrow> bool" where
  "ours m luid \<longleftrightarrow> emTun m \<noteq> 0 \<and> luid = emTun m"

definition OnChange :: "'s IpHelper \<Rightarrow> u64 option \<Rightarrow> 's \<Rightarrow> EgressMonitor \<Rightarrow> EgressMonitor \<times> EgressEffect list" where
  "OnChange api row s m =
    (case row of Some luid \<Rightarrow> if ours m luid then (m, []) else Refresh api s m | None \<Rightarrow> Refresh api s m)"

definition OnRouteChange ::
    "'s IpHelper \<Rightarrow> ForwardRow option \<Rightarrow> bool \<Rightarrow> 's \<Rightarrow> EgressMonitor \<Rightarrow> EgressMonitor \<times> EgressEffect list" where
  "OnRouteChange api row initial s m =
    (case row of None \<Rightarrow> (m, [])
     | Some r \<Rightarrow>
       if initial then (m, [])
       else if ipLength (frDest r) \<noteq> 0 then (m, [])
       else if ours m (frLuid r) then (m, [])
       else Refresh api s m)"

definition OnAddressChange ::
    "'s IpHelper \<Rightarrow> u64 option \<Rightarrow> bool \<Rightarrow> 's \<Rightarrow> EgressMonitor \<Rightarrow> EgressMonitor \<times> EgressEffect list" where
  "OnAddressChange api row initial s m =
    (case row of None \<Rightarrow> (m, [])
     | Some luid \<Rightarrow> if initial then (m, []) else if ours m luid then (m, []) else Refresh api s m)"

text \<open>A Wi-Fi notification that is not a signal quality change carries no quality.\<close>

definition OnWlanChange :: "u32 option \<Rightarrow> EgressMonitor \<Rightarrow> EgressMonitor \<times> EgressEffect list" where
  "OnWlanChange quality m =
    (case quality of None \<Rightarrow> (m, [])
     | Some q \<Rightarrow> (case TrackerObserve (emLevel m) q of (level, moved) \<Rightarrow>
         (m\<lparr>emLevel := level\<rparr>, if moved \<and> emOnQualityEvent m then [NetworkQualityEventHandler] else [])))"


section \<open>The election is exact\<close>

text \<open>A default route of another interface than the tun; its metric is not the largest one.\<close>

definition candidate_row :: "'s IpHelper \<Rightarrow> AddressFamily \<Rightarrow> u64 \<Rightarrow> 's \<Rightarrow> bool \<Rightarrow> ForwardRow \<Rightarrow> bool" where
  "candidate_row api family tun s up row \<longleftrightarrow>
    ipLength (frDest row) = 0 \<and> frLuid row \<noteq> tun \<and> link_connected (GetIfEntry2 api (frLuid row) s) = up \<and>
    row_metric api family s row < 0xFFFFFFFF"

text \<open>The first of the rows with property \<open>P\<close> whose metric is lowest.\<close>

definition first_lowest :: "('r \<Rightarrow> bool) \<Rightarrow> ('r \<Rightarrow> u32) \<Rightarrow> 'r list \<Rightarrow> 'r \<Rightarrow> bool" where
  "first_lowest P metric rows row \<longleftrightarrow>
    (\<exists>before after. rows = before @ row # after \<and> P row \<and>
      (\<forall>q\<in>set before. P q \<longrightarrow> metric row < metric q) \<and> (\<forall>q\<in>set after. P q \<longrightarrow> metric row \<le> metric q))"

lemma first_lowest_snoc_new:
  assumes "P row" and "\<forall>q\<in>set rows. P q \<longrightarrow> metric row < metric q"
  shows "first_lowest P metric (rows @ [row]) row"
  unfolding first_lowest_def using assms by (intro exI [of _ rows] exI [of _ "[]"]) simp

lemma first_lowest_snoc_old:
  assumes "first_lowest P metric rows r" and "P row \<longrightarrow> metric r \<le> metric row"
  shows "first_lowest P metric (rows @ [row]) r"
proof -
  from assms(1) obtain before after where "rows = before @ r # after" "P r"
    "\<forall>q\<in>set before. P q \<longrightarrow> metric r < metric q" "\<forall>q\<in>set after. P q \<longrightarrow> metric r \<le> metric q"
    unfolding first_lowest_def by blast
  with assms(2) show ?thesis
    unfolding first_lowest_def by (intro exI [of _ before] exI [of _ "after @ [row]"]) auto
qed

lemma first_lowest_bound: "first_lowest P metric rows r \<Longrightarrow> q \<in> set rows \<Longrightarrow> P q \<Longrightarrow> metric r \<le> metric q"
  unfolding first_lowest_def by (metis Un_iff less_imp_le order_refl set_ConsD set_append)

text \<open>One of the two elections: what its pair of fields says of the rows seen.\<close>

definition elected :: "('r \<Rightarrow> bool) \<Rightarrow> ('r \<Rightarrow> u32) \<Rightarrow> ('r \<Rightarrow> u32) \<Rightarrow> 'r list \<Rightarrow> u32 \<Rightarrow> u32 \<Rightarrow> bool" where
  "elected P metric index rows best i \<longleftrightarrow>
    (if \<exists>r\<in>set rows. P r then \<exists>r. first_lowest P metric rows r \<and> best = metric r \<and> i = index r
     else best = 0xFFFFFFFF \<and> i = 0)"

lemma elected_take:
  assumes e: "elected P metric index rows best i" and "P row" "metric row < best"
  shows "elected P metric index (rows @ [row]) (metric row) (index row)"
proof -
  have "first_lowest P metric (rows @ [row]) row"
  proof (rule first_lowest_snoc_new [of P], rule assms(2), intro ballI impI)
    fix q assume "q \<in> set rows" "P q"
    with e obtain r where "first_lowest P metric rows r" "best = metric r" by (auto simp: elected_def split: if_splits)
    with first_lowest_bound [of P metric rows r q] \<open>q \<in> set rows\<close> \<open>P q\<close> assms(3) show "metric row < metric q" by simp
  qed
  with assms(2) show ?thesis by (auto simp: elected_def)
qed

lemma elected_skip:
  assumes e: "elected P metric index rows best i" and s: "P row \<Longrightarrow> best \<le> metric row" and m: "\<And>r. P r \<Longrightarrow> metric r < 0xFFFFFFFF"
  shows "elected P metric index (rows @ [row]) best i"
proof (cases "\<exists>r\<in>set rows. P r")
  case True
  with e obtain r where r: "first_lowest P metric rows r" "best = metric r" "i = index r" by (auto simp: elected_def)
  with s have "first_lowest P metric (rows @ [row]) r" by (intro first_lowest_snoc_old) auto
  with r True show ?thesis by (auto simp: elected_def)
next
  case False
  with e have "best = 0xFFFFFFFF" "i = 0" by (auto simp: elected_def)
  moreover have "\<not> P row" using s m [of row] \<open>best = 0xFFFFFFFF\<close> by (auto simp: not_le [symmetric])
  ultimately show ?thesis using False by (auto simp: elected_def)
qed

lemma elected_step:
  assumes "elected P metric index rows best i" and "\<And>r. P r \<Longrightarrow> metric r < 0xFFFFFFFF"
  shows "elected P metric index (rows @ [row]) (if P row \<and> metric row < best then metric row else best)
    (if P row \<and> metric row < best then index row else i)"
proof (cases "P row \<and> metric row < best")
  case True
  with elected_take [OF assms(1)] show ?thesis by simp
next
  case False
  with elected_skip [OF assms(1) _ assms(2)] show ?thesis by (auto simp: not_less)
qed

lemma below_top: "x < b \<Longrightarrow> x < 0xFFFFFFFF" for x b :: u32
proof -
  assume "x < b"
  have "unat b < 2 ^ LENGTH(32)" by (rule unsigned_less)
  then have "b \<le> 0xFFFFFFFF" by (simp add: word_le_nat_alt)
  with \<open>x < b\<close> show ?thesis by (rule less_le_trans)
qed

lemma elect_fields:
  fixes api :: "'s IpHelper" and family tun s e row
  defines "wins \<equiv> \<lambda>up b. candidate_row api family tun s up row \<and> row_metric api family s row < b"
  shows "bestMetric (elect api family tun s e row) =
      (if wins True (bestMetric e) then row_metric api family s row else bestMetric e)"
    and "bestIndex (elect api family tun s e row) = (if wins True (bestMetric e) then frIndex row else bestIndex e)"
    and "bestLinkDownMetric (elect api family tun s e row) =
      (if wins False (bestLinkDownMetric e) then row_metric api family s row else bestLinkDownMetric e)"
    and "bestLinkDownIndex (elect api family tun s e row) =
      (if wins False (bestLinkDownMetric e) then frIndex row else bestLinkDownIndex e)"
  by (auto simp: wins_def elect_def candidate_row_def Let_def dest: below_top)

text \<open>Both elections at once, over the whole table.\<close>

lemma elect_fold:
  fixes api :: "'s IpHelper" and rows :: "ForwardRow list" and family tun s
  defines "e \<equiv> foldl (elect api family tun s) NoElection"
  shows "elected (candidate_row api family tun s True) (row_metric api family s) frIndex rows
      (bestMetric (e rows)) (bestIndex (e rows)) \<and>
    elected (candidate_row api family tun s False) (row_metric api family s) frIndex rows
      (bestLinkDownMetric (e rows)) (bestLinkDownIndex (e rows))"
proof (induction rows rule: rev_induct)
  case Nil
  show ?case by (simp add: elected_def e_def NoElection_def)
next
  case (snoc row rows)
  have low: "candidate_row api family tun s up r \<Longrightarrow> row_metric api family s r < 0xFFFFFFFF" for up r
    by (simp add: candidate_row_def)
  have step: "e (rows @ [row]) = elect api family tun s (e rows) row" by (simp add: e_def)
  note one = elected_step [where P = "candidate_row api family tun s _" and metric = "row_metric api family s", OF _ low]
  from snoc.IH show ?case unfolding step elect_fields by (intro conjI one) simp_all
qed

text \<open>The specification of the election, family by family: \<open>0\<close> for no interface.\<close>

definition egress_choice :: "'s IpHelper \<Rightarrow> AddressFamily \<Rightarrow> u64 \<Rightarrow> 's \<Rightarrow> ForwardRow list \<Rightarrow> u32 \<Rightarrow> bool" where
  "egress_choice api family tun s rows i \<longleftrightarrow>
    (let P = candidate_row api family tun s; lowest = (\<lambda>up r. first_lowest (P up) (row_metric api family s) rows r)
     in if \<exists>r\<in>set rows. P True r then \<exists>r. lowest True r \<and> i = frIndex r
        else if \<exists>r\<in>set rows. P False r then \<exists>r. lowest False r \<and> i = frIndex r
        else i = 0)"

lemma discover_family_choice:
  assumes "GetIpForwardTable2 api family s = Some rows" and "\<forall>r\<in>set rows. frIndex r \<noteq> 0"
  shows "egress_choice api family tun s rows (discover_family api family tun s)"
proof -
  define e where "e = foldl (elect api family tun s) NoElection rows"
  have fold: "elected (candidate_row api family tun s True) (row_metric api family s) frIndex rows (bestMetric e) (bestIndex e)"
    "elected (candidate_row api family tun s False) (row_metric api family s) frIndex rows (bestLinkDownMetric e) (bestLinkDownIndex e)"
    using elect_fold [of api family tun s rows] by (simp_all add: e_def)
  have nz: "frIndex r \<noteq> 0" if "first_lowest P (row_metric api family s) rows r" for P r
    using that assms(2) by (auto simp: first_lowest_def)
  have d: "discover_family api family tun s =
      (if bestIndex e = 0 \<and> bestLinkDownIndex e \<noteq> 0 then bestLinkDownIndex e else bestIndex e)"
    by (simp add: discover_family_def assms(1) e_def Let_def)
  show ?thesis
  proof (cases "\<exists>r\<in>set rows. candidate_row api family tun s True r")
    case True
    with fold(1) obtain r where "first_lowest (candidate_row api family tun s True) (row_metric api family s) rows r"
      "bestIndex e = frIndex r" by (auto simp: elected_def)
    with True d nz show ?thesis unfolding egress_choice_def by auto
  next
    case up: False
    with fold(1) have z: "bestIndex e = 0" by (auto simp: elected_def)
    show ?thesis
    proof (cases "\<exists>r\<in>set rows. candidate_row api family tun s False r")
      case True
      with fold(2) obtain r where "first_lowest (candidate_row api family tun s False) (row_metric api family s) rows r"
        "bestLinkDownIndex e = frIndex r" by (auto simp: elected_def)
      with up True d z nz show ?thesis unfolding egress_choice_def by auto
    next
      case False
      with fold(2) up d z show ?thesis unfolding egress_choice_def by (auto simp: elected_def)
    qed
  qed
qed

text \<open>Whatever the table, the election never returns an interface that only the tun's rows name.\<close>

lemma discover_family_row:
  assumes "discover_family api family tun s \<noteq> 0"
  obtains rows r where "GetIpForwardTable2 api family s = Some rows" "r \<in> set rows" "frLuid r \<noteq> tun"
    "ipLength (frDest r) = 0" "discover_family api family tun s = frIndex r"
proof -
  from assms obtain rows where rows: "GetIpForwardTable2 api family s = Some rows"
    by (auto simp: discover_family_def split: option.splits)
  define e where "e = foldl (elect api family tun s) NoElection rows"
  have el: "elected (candidate_row api family tun s True) (row_metric api family s) frIndex rows (bestMetric e) (bestIndex e)"
    "elected (candidate_row api family tun s False) (row_metric api family s) frIndex rows (bestLinkDownMetric e) (bestLinkDownIndex e)"
    using elect_fold [of api family tun s rows] by (simp_all add: e_def)
  have pick: "\<exists>r\<in>set rows. candidate_row api family tun s up r \<and> i = frIndex r"
    if "elected (candidate_row api family tun s up) (row_metric api family s) frIndex rows b i" "i \<noteq> 0" for up b i
    using that unfolding elected_def first_lowest_def by (auto split: if_splits)
  have "\<exists>up. \<exists>r\<in>set rows. candidate_row api family tun s up r \<and> discover_family api family tun s = frIndex r"
    using pick [OF el(1)] pick [OF el(2)] assms
    by (auto simp: discover_family_def rows e_def [symmetric] Let_def split: if_splits)
  then show thesis using that rows by (auto simp: candidate_row_def)
qed

section \<open>The monitor over a run\<close>

text \<open>A notification and the stack it finds.\<close>

datatype EgressEvent = Changed "u64 option" | RouteChanged "ForwardRow option" bool
  | AddressChanged "u64 option" bool | WlanChanged "u32 option" | Rebased | Refreshed

fun monitor_react :: "'s IpHelper \<Rightarrow> EgressMonitor \<Rightarrow> EgressEvent \<times> 's \<Rightarrow> EgressMonitor \<times> EgressEffect list" where
  "monitor_react api m (Changed row, s) = OnChange api row s m"
| "monitor_react api m (RouteChanged row initial, s) = OnRouteChange api row initial s m"
| "monitor_react api m (AddressChanged row initial, s) = OnAddressChange api row initial s m"
| "monitor_react api m (WlanChanged q, s) = OnWlanChange q m"
| "monitor_react api m (Rebased, s) = Update api Baseline s m"
| "monitor_react api m (Refreshed, s) = Refresh api s m"

definition monitor_step :: "'s IpHelper \<Rightarrow> EgressMonitor \<times> EgressEffect list \<Rightarrow> EgressEvent \<times> 's \<Rightarrow> EgressMonitor \<times> EgressEffect list" where
  "monitor_step api x ev = (case monitor_react api (fst x) ev of (m, effects) \<Rightarrow> (m, snd x @ effects))"

text \<open>The stack knows the tun under one index, and under no other interface's.\<close>

definition tun_index_known :: "'s IpHelper \<Rightarrow> u64 \<Rightarrow> u32 \<Rightarrow> 's \<Rightarrow> bool" where
  "tun_index_known api tun index s \<longleftrightarrow>
    (\<forall>family rows r. GetIpForwardTable2 api family s = Some rows \<longrightarrow> r \<in> set rows \<longrightarrow> frLuid r \<noteq> tun \<longrightarrow> frIndex r \<noteq> index)"

definition clear_of :: "u32 \<Rightarrow> EgressInterfaces \<Rightarrow> bool" where
  "clear_of index e \<longleftrightarrow> index4 e \<noteq> index \<and> index6 e \<noteq> index"

fun effect_clear :: "u32 \<Rightarrow> EgressEffect \<Rightarrow> bool" where
  "effect_clear index (SetEgressInterfaceIndex e) = clear_of index e"
| "effect_clear index (ChangeHandler e) = clear_of index e"
| "effect_clear index NetworkEventHandler = True"
| "effect_clear index NetworkQualityEventHandler = True"

definition monitor_clear :: "u64 \<Rightarrow> u32 \<Rightarrow> EgressMonitor \<times> EgressEffect list \<Rightarrow> bool" where
  "monitor_clear tun index x \<longleftrightarrow>
    index \<noteq> 0 \<and> emTun (fst x) = tun \<and> clear_of index (emCurrent (fst x)) \<and> list_all (effect_clear index) (snd x)"

lemma discover_clear:
  assumes "tun_index_known api tun index s" and "index \<noteq> 0"
  shows "discover_family api family tun s \<noteq> index"
proof (cases "discover_family api family tun s = 0")
  case False
  from discover_family_row [OF this] assms(1) show ?thesis unfolding tun_index_known_def by metis
qed (use assms(2) in simp)

lemma update_clear:
  assumes k: "tun_index_known api (emTun m) index s" and i: "index \<noteq> 0" and c: "clear_of index (emCurrent m)"
    and u: "Update api reading s m = (m', effects)"
  shows "clear_of index (emCurrent m')" and "emTun m' = emTun m" and "list_all (effect_clear index) effects"
proof -
  have "retain api s h (discover_family api family (emTun m) s) \<noteq> index" if "h \<noteq> index" for h family
    using that discover_clear [OF k i] by (simp add: retain_def)
  with c have n: "clear_of index (next_egress api s m)"
    by (simp add: next_egress_def DiscoverEgress_def Let_def clear_of_def)
  note parts = Update_def observe_only_def Let_def split_beta
  show "clear_of index (emCurrent m')" "emTun m' = emTun m" "list_all (effect_clear index) effects"
    using u c n by (cases reading; force simp: parts split: if_splits)+
qed

text \<open>A notification is dropped, or read again, or only moves the Wi-Fi level.\<close>

lemma react_cases:
  "monitor_react api m (e, s) \<in> {(m, []), Update api Observation s m, Update api Baseline s m} \<or>
   (\<exists>q. monitor_react api m (e, s) = OnWlanChange q m)"
  by (cases e) (simp_all add: OnChange_def OnRouteChange_def OnAddressChange_def Refresh_def split: option.split, blast)

lemma wlan_keeps:
  "emCurrent (fst (OnWlanChange q m)) = emCurrent m" "emTun (fst (OnWlanChange q m)) = emTun m"
  "list_all (effect_clear index) (snd (OnWlanChange q m))"
  by (simp_all add: OnWlanChange_def split_beta split: option.split)

lemma react_clear:
  assumes "tun_index_known api (emTun m) index (snd ev)" and "index \<noteq> 0" and "clear_of index (emCurrent m)"
    and "monitor_react api m ev = (m', effects)"
  shows "clear_of index (emCurrent m') \<and> emTun m' = emTun m \<and> list_all (effect_clear index) effects"
proof -
  obtain e s where ev: "ev = (e, s)" by fastforce
  note u = update_clear [OF assms(1) [unfolded ev snd_conv] assms(2,3)]
  from react_cases [of api m e s] assms(4) ev consider "(m', effects) = (m, [])" | reading where "Update api reading s m = (m', effects)"
    | q where "OnWlanChange q m = (m', effects)" by (auto simp del: monitor_react.simps)
  then show ?thesis
  proof cases
    case 1
    with assms(3) show ?thesis by simp
  next
    case 2
    from u [OF 2] show ?thesis by simp
  next
    case 3
    with assms(3) wlan_keeps [where q = q and m = m] show ?thesis by simp
  qed
qed

interpretation pinned: observer "monitor_step api" "monitor_clear tun index"
    "\<lambda>x ev. tun_index_known api tun index (snd ev)" for api :: "'s IpHelper" and tun index
proof
  fix x and ev :: "EgressEvent \<times> 's"
  assume "monitor_clear tun index x" "tun_index_known api tun index (snd ev)"
  moreover obtain m' effects where "monitor_react api (fst x) ev = (m', effects)" by fastforce
  ultimately show "monitor_clear tun index (monitor_step api x ev)"
    using react_clear [of api "fst x" index ev m' effects] by (auto simp: monitor_clear_def monitor_step_def)
qed

lemma known_run: "(\<forall>ev\<in>set evs. tun_index_known api tun index (snd ev)) \<Longrightarrow> pinned.admissible_run api tun index x evs"
  by (induction evs arbitrary: x) simp_all

text \<open>The readings of a binding monitor, spelled out.\<close>

lemma update_bind:
  assumes "emBinding m = Bind"
  shows "Update api Observation s m =
    (let egress = next_egress api s m; sig = ObserveEgress api egress s;
         moved = (index4 egress \<noteq> index4 (emCurrent m) \<or> index6 egress \<noteq> index6 (emCurrent m));
         change = snd (FilterObserve (emFilter m) sig)
     in (m\<lparr>emCurrent := egress, emFilter := FilterSeed (emFilter m) sig\<rparr>,
         SetEgressInterfaceIndex egress #
         (if (ecBinding change \<or> moved) \<and> emOnChange m then [ChangeHandler egress] else []) @
         (if ecNetwork change \<and> emOnNetworkEvent m then [NetworkEventHandler] else [])))"
  using assms by (simp add: Update_def Let_def FilterObserve_def)

lemma next_egress_index:
  "index4 (next_egress api s m) = (let found = discover_family api AF_INET (emTun m) s in
     if found \<noteq> 0 then found else if InterfaceExists api (index4 (emCurrent m)) s then index4 (emCurrent m) else 0)"
  "index6 (next_egress api s m) = (let found = discover_family api AF_INET6 (emTun m) s in
     if found \<noteq> 0 then found else if InterfaceExists api (index6 (emCurrent m)) s then index6 (emCurrent m) else 0)"
  by (simp_all add: next_egress_def retain_def DiscoverEgress_def InterfaceExists_def Let_def)

section \<open>The resolvers are the usable ones\<close>

lemma add_resolver_set:
  "set (add_resolver ntop4 out d) = set out \<union> set_option (usable_resolver ntop4 d)"
  "distinct out \<Longrightarrow> distinct (add_resolver ntop4 out d)"
  by (auto simp: add_resolver_def split: option.split)

lemma add_resolvers_set:
  "set (foldl (add_resolver ntop4) out ds) = set out \<union> (\<Union>d\<in>set ds. set_option (usable_resolver ntop4 d))"
  "distinct out \<Longrightarrow> distinct (foldl (add_resolver ntop4) out ds)"
  by (induction ds arbitrary: out) (auto simp: add_resolver_set)

definition asked_adapter :: "u64 \<Rightarrow> AdapterAddresses \<Rightarrow> bool" where
  "asked_adapter excludeLuid a \<longleftrightarrow> aaUp a \<and> (excludeLuid \<noteq> 0 \<longrightarrow> aaLuid a \<noteq> excludeLuid)"

lemma adapters_resolvers_set:
  "set (foldl (adapter_resolvers ntop4 ex) out as) =
     set out \<union> (\<Union>a\<in>{a \<in> set as. asked_adapter ex a}. \<Union>d\<in>set (aaDns a). set_option (usable_resolver ntop4 d))"
  "distinct out \<Longrightarrow> distinct (foldl (adapter_resolvers ntop4 ex) out as)"
proof (induction as arbitrary: out)
  case (Cons a as)
  have step: "set (adapter_resolvers ntop4 ex out a) = set out \<union>
      (if asked_adapter ex a then \<Union>d\<in>set (aaDns a). set_option (usable_resolver ntop4 d) else {})"
    "distinct out \<Longrightarrow> distinct (adapter_resolvers ntop4 ex out a)" for out
    by (auto simp: adapter_resolvers_def asked_adapter_def add_resolvers_set)
  have cons: "{b \<in> set (a # as). asked_adapter ex b} = (if asked_adapter ex a then {a} else {}) \<union> {b \<in> set as. asked_adapter ex b}"
    by auto
  { case 1 show ?case unfolding cons by (simp add: Cons.IH(1) step(1) Un_ac) }
  { case 2 show ?case using Cons.IH(2) [of "adapter_resolvers ntop4 ex out a"] step(2) [OF 2] by simp }
qed simp_all

section \<open>Properties\<close>

text \<open>
  (C15) The election of the egress interface is exact: in each family it is the first route of lowest
  combined metric among the default routes that do not belong to the tun and whose interface is
  connected; when none is, the first of lowest metric among those whose link is down; and no
  interface when there is none.
\<close>

theorem egress_election_exact:
  assumes "GetIpForwardTable2 api AF_INET s = Some rows4" and "GetIpForwardTable2 api AF_INET6 s = Some rows6"
    and "\<forall>r \<in> set rows4 \<union> set rows6. frIndex r \<noteq> 0"
  shows "egress_choice api AF_INET tun s rows4 (index4 (DiscoverEgress api tun s)) \<and>
    egress_choice api AF_INET6 tun s rows6 (index6 (DiscoverEgress api tun s))"
  using discover_family_choice [OF assms(1)] discover_family_choice [OF assms(2)] assms(3)
  by (simp add: DiscoverEgress_def)

definition uplinks_sample :: "ForwardRow list" where
  "uplinks_sample =
    [EmptyForwardRow\<lparr>frLuid := 0x35, frIndex := 9\<rparr>, EmptyForwardRow\<lparr>frLuid := 7, frIndex := 4, frMetric := 25\<rparr>,
     EmptyForwardRow\<lparr>frLuid := 8, frIndex := 5, frMetric := 10\<rparr>]"

definition uplink_stack :: "sample_stack IpHelper" where
  "uplink_stack = stack_sample\<lparr>GetIpForwardTable2 := \<lambda>family s. Some (if family = AF_INET then uplinks_sample else [])\<rparr>"

theorem egress_election_exact_witness:
  "egress_choice uplink_stack AF_INET 0x35 ([], []) uplinks_sample 5 \<and>
   DiscoverEgress uplink_stack 0x35 ([], []) = \<lparr>index4 = 5, index6 = 0\<rparr>"
proof -
  have d: "DiscoverEgress uplink_stack 0x35 ([], []) = \<lparr>index4 = 5, index6 = 0\<rparr>" by code_simp
  have "GetIpForwardTable2 uplink_stack AF_INET ([], []) = Some uplinks_sample"
    "GetIpForwardTable2 uplink_stack AF_INET6 ([], []) = Some []" "\<forall>r \<in> set uplinks_sample \<union> set []. frIndex r \<noteq> 0"
    by (simp_all add: uplink_stack_def uplinks_sample_def EmptyForwardRow_def)
  from egress_election_exact [OF this, of "0x35"] d show ?thesis by simp
qed



text \<open>
  One reading of a binding monitor, exactly: a family follows the elected interface; when none is
  elected it keeps the interface it had, as long as that still exists, and only otherwise unbinds. The
  SDK is told first; the binding's followers hear of it when an index or a source address moved; and
  the network event fires exactly when what a socket rides differs from the last reading.
\<close>

theorem monitor_reading_exact:
  assumes "emBinding m = Bind" and "seeded (emFilter m)"
    and "Refresh api s m = (m', effects)" and "ObserveEgress api (emCurrent m') s = now"
  shows "index4 (emCurrent m') = (let found = discover_family api AF_INET (emTun m) s in
      if found \<noteq> 0 then found else if InterfaceExists api (index4 (emCurrent m)) s then index4 (emCurrent m) else 0) \<and>
    index6 (emCurrent m') = (let found = discover_family api AF_INET6 (emTun m) s in
      if found \<noteq> 0 then found else if InterfaceExists api (index6 (emCurrent m)) s then index6 (emCurrent m) else 0) \<and>
    hd effects = SetEgressInterfaceIndex (emCurrent m') \<and>
    (NetworkEventHandler \<in> set effects \<longleftrightarrow>
      emOnNetworkEvent m \<and> rides (lastSignature (emFilter m)) \<noteq> rides now) \<and>
    lastSignature (emFilter m') = now"
proof -
  let ?e = "next_egress api s m"
  have m': "emCurrent m' = ?e" "lastSignature (emFilter m') = ObserveEgress api ?e s"
    and hd: "hd effects = SetEgressInterfaceIndex ?e"
    and ev: "NetworkEventHandler \<in> set effects \<longleftrightarrow>
      ecNetwork (snd (FilterObserve (emFilter m) (ObserveEgress api ?e s))) \<and> emOnNetworkEvent m"
    using assms(3) unfolding Refresh_def update_bind [OF assms(1)] Let_def by (auto simp: FilterSeed_def)
  from assms(4) m' have now: "now = ObserveEgress api ?e s" by simp
  show ?thesis
    using hd ev network_moved_rides [OF assms(2)] unfolding m' now
    by (intro conjI next_egress_index) auto
qed

theorem monitor_reading_exact_witness:
  "let m = (NewEgressMonitor 0x35 Bind)\<lparr>emFilter := \<lparr>lastSignature = \<lparr>v4 = NoSignature, v6 = NoSignature\<rparr>, seeded = True\<rparr>\<rparr>
   in index4 (emCurrent (fst (Refresh uplink_stack ([], []) m))) = 5"
proof -
  define m where "m = (NewEgressMonitor 0x35 Bind)\<lparr>emFilter := \<lparr>lastSignature = \<lparr>v4 = NoSignature, v6 = NoSignature\<rparr>, seeded = True\<rparr>\<rparr>"
  have "emBinding m = Bind" "seeded (emFilter m)" by (simp_all add: m_def NewEgressMonitor_def)
  from monitor_reading_exact [OF this, of uplink_stack "([], [])" "fst (Refresh uplink_stack ([], []) m)"
      "snd (Refresh uplink_stack ([], []) m)"]
  have "index4 (emCurrent (fst (Refresh uplink_stack ([], []) m))) = (let found = discover_family uplink_stack AF_INET (emTun m) ([], []) in
      if found \<noteq> 0 then found else if InterfaceExists uplink_stack (index4 (emCurrent m)) ([], []) then index4 (emCurrent m) else 0)"
    by simp
  moreover have "discover_family uplink_stack AF_INET 0x35 ([], []) = 5" by code_simp
  ultimately show ?thesis by (simp add: m_def NewEgressMonitor_def Let_def)
qed

text \<open>
  The resolvers the firewall may open DNS to are exactly the IPv4 resolvers of adapters that are
  up and are not the tun's, without the placeholder address and without loopback, each once; an
  adapter list that cannot be read gives none.
\<close>

theorem host_resolvers_exact:
  "case HostResolversV4 ask ntop4 tun s of (resolvers, s') \<Rightarrow>
    distinct resolvers \<and>
    (case read_adapters ask 4 (16 * 1024) s of ((err, adapters), s1) \<Rightarrow>
      s' = s1 \<and>
      set resolvers = {t. err = NO_ERROR \<and> (\<exists>a host. a \<in> set adapters \<and> asked_adapter tun a \<and>
        (AF_INET, host) \<in> set (aaDns a) \<and> host \<noteq> 0 \<and> host AND 0xFF000000 \<noteq> 0x7F000000 \<and> ntop4 host = Some t)})"
proof -
  have u: "usable_resolver ntop4 d = Some t \<longleftrightarrow> (\<exists>host. d = (AF_INET, host) \<and> host \<noteq> 0 \<and>
      host AND 0xFF000000 \<noteq> 0x7F000000 \<and> ntop4 host = Some t)" for t d
    by (auto simp: usable_resolver_def split: prod.split)
  obtain err adapters s1 where r: "read_adapters ask 4 (16 * 1024) s = ((err, adapters), s1)" by (metis prod.exhaust)
  have "set (foldl (adapter_resolvers ntop4 tun) [] adapters) = {t. \<exists>a host. a \<in> set adapters \<and> asked_adapter tun a \<and>
      (AF_INET, host) \<in> set (aaDns a) \<and> host \<noteq> 0 \<and> host AND 0xFF000000 \<noteq> 0x7F000000 \<and> ntop4 host = Some t}"
    unfolding adapters_resolvers_set(1) by (auto simp: u) blast+
  then show ?thesis
    unfolding HostResolversV4_def r using adapters_resolvers_set(2) [where out = "[]" and as = adapters and ex = tun] by simp
qed

end
