(* ===== verification/FlowOwner.thy ===== *)
theory FlowOwner
  imports NetworkConfig
begin

text \<open>
  Which program owns a connection (\<^verbatim>\<open>Service/FlowOwner.h\<close>, \<^verbatim>\<open>Service/FlowOwner.cpp\<close>): the bounded
  cache with its two write paths, the lookup the SDK calls on its packet path, which only reads the
  caches and asks for a refresh on a miss, and the refresh itself. The owner tables of the system,
  the image path of a process, the parser of addresses and the order in which a hash set is walked
  are arguments; the worker thread is its loop body and a count of live workers.
\<close>

unbundle bit_operations_syntax

section \<open>The bounded cache\<close>

text \<open>The hash map is a map; the deque \<open>bcOrder\<close> is a list, the oldest key first.\<close>

record ('k, 'v) BoundedCache =
  bcCapacity :: nat
  bcOrder :: "'k list"
  bcMap :: "'k \<rightharpoonup> 'v"

definition NewBoundedCache :: "nat \<Rightarrow> ('k, 'v) BoundedCache" where
  "NewBoundedCache cap = \<lparr>bcCapacity = cap, bcOrder = [], bcMap = Map.empty\<rparr>"

definition CacheGet :: "('k, 'v) BoundedCache \<Rightarrow> 'k \<Rightarrow> 'v option" where
  "CacheGet c key = bcMap c key"

definition CachePut :: "('k, 'v) BoundedCache \<Rightarrow> 'k \<Rightarrow> 'v \<Rightarrow> ('k, 'v) BoundedCache" where
  "CachePut c key val =
    (if bcMap c key \<noteq> None then c\<lparr>bcMap := (bcMap c)(key \<mapsto> val)\<rparr>
     else if bcCapacity c = 0 then c
     else
       let c1 = (if length (bcOrder c) \<ge> bcCapacity c
                 then c\<lparr>bcOrder := tl (bcOrder c), bcMap := (bcMap c)(hd (bcOrder c) := None)\<rparr> else c)
       in c1\<lparr>bcOrder := bcOrder c1 @ [key], bcMap := (bcMap c1)(key \<mapsto> val)\<rparr>)"

definition CacheSize :: "('k, 'v) BoundedCache \<Rightarrow> nat" where
  "CacheSize c = card (dom (bcMap c))"

fun replace_loop :: "('k \<times> 'v) list \<Rightarrow> ('k, 'v) BoundedCache \<times> nat \<Rightarrow> ('k, 'v) BoundedCache \<times> nat" where
  "replace_loop [] acc = acc"
| "replace_loop ((key, val) # entries) (c, dropped) =
    (if CacheSize c \<ge> bcCapacity c then replace_loop entries (c, dropped + 1)
     else if bcMap c key \<noteq> None then replace_loop entries (c, dropped)
     else replace_loop entries (c\<lparr>bcOrder := bcOrder c @ [key], bcMap := (bcMap c)(key \<mapsto> val)\<rparr>, dropped))"

definition ReplaceAll :: "('k, 'v) BoundedCache \<Rightarrow> ('k \<times> 'v) list \<Rightarrow> ('k, 'v) BoundedCache \<times> nat" where
  "ReplaceAll c entries = replace_loop entries (c\<lparr>bcOrder := [], bcMap := Map.empty\<rparr>, 0)"

section \<open>Flows\<close>

datatype FlowIpVersion = V4 | V6

record FlowKey =
  fkVersion :: FlowIpVersion
  fkProtocol :: i64
  fkSourceAddr :: "8 word list"
  fkSourcePort :: i64
  fkDestAddr :: "8 word list"
  fkDestPort :: i64

definition IPPROTO_TCP :: i64 where "IPPROTO_TCP = 6"
definition IPPROTO_UDP :: i64 where "IPPROTO_UDP = 17"

definition kMaxFlows :: nat where "kMaxFlows = 8192"
definition kMaxExePaths :: nat where "kMaxExePaths = 4096"
definition kRefreshInterval :: i64 where "kRefreshInterval = 1000"

text \<open>\<open>foWorkers\<close> counts the worker threads that were started and have not been joined.\<close>

record FlowOwner =
  foFlows :: "(FlowKey, u32) BoundedCache"
  foExePaths :: "(u32, string) BoundedCache"
  foRefreshRequests :: u64
  foRefreshPending :: bool
  foStop :: bool
  foRunning :: bool
  foWorkers :: nat

definition NewFlowOwner :: "nat \<Rightarrow> nat \<Rightarrow> FlowOwner" where
  "NewFlowOwner maxFlows maxExePaths = \<lparr>foFlows = NewBoundedCache maxFlows, foExePaths = NewBoundedCache maxExePaths,
    foRefreshRequests = 0, foRefreshPending = False, foStop = False, foRunning = False, foWorkers = 0\<rparr>"

definition RequestRefresh :: "FlowOwner \<Rightarrow> FlowOwner" where
  "RequestRefresh own = own\<lparr>foRefreshRequests := foRefreshRequests own + 1, foRefreshPending := True\<rparr>"

definition LookupCached :: "FlowOwner \<Rightarrow> FlowKey \<Rightarrow> string \<times> FlowOwner" where
  "LookupCached own key =
    (case CacheGet (foFlows own) key of
       None \<Rightarrow> ([], RequestRefresh own)
     | Some pid \<Rightarrow> (case CacheGet (foExePaths own) pid of
         None \<Rightarrow> ([], RequestRefresh own)
       | Some path \<Rightarrow> (path, own)))"

definition addr16 :: "8 word list \<Rightarrow> 8 word list" where
  "addr16 bytes = bytes @ replicate (16 - length bytes) 0"

definition ParseAddr :: "(AddressFamily \<Rightarrow> string \<Rightarrow> 8 word list option) \<Rightarrow> string \<Rightarrow> i64 \<Rightarrow> 8 word list option" where
  "ParseAddr pton txt version =
    (if txt = [] then None
     else if version = 6 then pton AF_INET6 txt
     else map_option addr16 (pton AF_INET txt))"

definition Lookup ::
    "(AddressFamily \<Rightarrow> string \<Rightarrow> 8 word list option) \<Rightarrow> i64 \<Rightarrow> i64 \<Rightarrow> string \<Rightarrow> i64 \<Rightarrow> string \<Rightarrow> i64 \<Rightarrow>
     FlowOwner \<Rightarrow> string \<times> FlowOwner" where
  "Lookup pton version protocol sourceIp sourcePort destIp destPort own =
    (case ParseAddr pton sourceIp version of
       None \<Rightarrow> ([], own)
     | Some source \<Rightarrow>
       let key = \<lparr>fkVersion = (if version = 6 then V6 else V4), fkProtocol = protocol, fkSourceAddr = source,
                  fkSourcePort = sourcePort, fkDestAddr = replicate 16 0, fkDestPort = 0\<rparr>
       in if protocol = IPPROTO_UDP then LookupCached own key
          else case ParseAddr pton destIp version of
            None \<Rightarrow> ([], own)
          | Some dest \<Rightarrow> LookupCached own (key\<lparr>fkDestAddr := dest, fkDestPort := destPort\<rparr>))"

section \<open>The refresh\<close>

text \<open>
  A row of an owner table: the bytes of its addresses and its ports as the 32-bit fields that hold
  them in network order. A UDP row has no remote end.
\<close>

record OwnerRow =
  orLocalAddr :: "8 word list"
  orLocalPort :: u32
  orRemoteAddr :: "8 word list"
  orRemotePort :: u32
  orOwningPid :: u32

definition ntohs :: "u32 \<Rightarrow> i64" where
  "ntohs w = (let p = (ucast w :: 16 word) in uint (push_bit 8 p OR drop_bit 8 p))"

definition tcp_key :: "FlowIpVersion \<Rightarrow> OwnerRow \<Rightarrow> FlowKey" where
  "tcp_key version row = \<lparr>fkVersion = version, fkProtocol = IPPROTO_TCP, fkSourceAddr = addr16 (orLocalAddr row),
    fkSourcePort = ntohs (orLocalPort row), fkDestAddr = addr16 (orRemoteAddr row), fkDestPort = ntohs (orRemotePort row)\<rparr>"

definition udp_key :: "FlowIpVersion \<Rightarrow> OwnerRow \<Rightarrow> FlowKey" where
  "udp_key version row = \<lparr>fkVersion = version, fkProtocol = IPPROTO_UDP, fkSourceAddr = addr16 (orLocalAddr row),
    fkSourcePort = ntohs (orLocalPort row), fkDestAddr = replicate 16 0, fkDestPort = 0\<rparr>"

definition ERROR_INSUFFICIENT_BUFFER :: u32 where "ERROR_INSUFFICIENT_BUFFER = 122"

text \<open>An answer of the system is a code, the size it wants and, on success, the rows.\<close>

type_synonym table_answer = "u32 \<times> u32 \<times> OwnerRow list"

fun fetch_again :: "(u32 \<Rightarrow> 's \<Rightarrow> table_answer \<times> 's) \<Rightarrow> nat \<Rightarrow> table_answer \<Rightarrow> 's \<Rightarrow> table_answer \<times> 's" where
  "fetch_again fetch 0 answer s = (answer, s)"
| "fetch_again fetch (Suc left) answer s =
    (if fst answer = ERROR_INSUFFICIENT_BUFFER
     then (case fetch (fst (snd answer)) s of (again, s1) \<Rightarrow> fetch_again fetch left again s1)
     else (answer, s))"

definition FetchTable :: "(u32 \<Rightarrow> 's \<Rightarrow> table_answer \<times> 's) \<Rightarrow> 's \<Rightarrow> table_answer \<times> 's" where
  "FetchTable fetch s = (case fetch 32768 s of (answer, s1) \<Rightarrow> fetch_again fetch 3 answer s1)"

definition Collect ::
    "(u32 \<Rightarrow> 's \<Rightarrow> table_answer \<times> 's) \<Rightarrow> (OwnerRow \<Rightarrow> FlowKey) \<Rightarrow> (FlowKey \<times> u32) list \<times> 's \<Rightarrow> (FlowKey \<times> u32) list \<times> 's" where
  "Collect fetch key acc =
    (case acc of (out, s) \<Rightarrow> case FetchTable fetch s of ((err, want, rows), s1) \<Rightarrow>
       if err \<noteq> NO_ERROR then (out, s1) else (out @ map (\<lambda>row. (key row, orOwningPid row)) rows, s1))"

text \<open>What the system offers: the four tables by protocol and family, and the image of a process.\<close>

record 's OwnerTables =
  GetExtendedTcpTable :: "AddressFamily \<Rightarrow> u32 \<Rightarrow> 's \<Rightarrow> table_answer \<times> 's"
  GetExtendedUdpTable :: "AddressFamily \<Rightarrow> u32 \<Rightarrow> 's \<Rightarrow> table_answer \<times> 's"
  ProcessImage :: "u32 \<Rightarrow> 's \<Rightarrow> string option"

definition CollectTcp :: "'s OwnerTables \<Rightarrow> AddressFamily \<Rightarrow> (FlowKey \<times> u32) list \<times> 's \<Rightarrow> (FlowKey \<times> u32) list \<times> 's" where
  "CollectTcp sys family = Collect (GetExtendedTcpTable sys family) (tcp_key (if family = AF_INET then V4 else V6))"

definition CollectUdp :: "'s OwnerTables \<Rightarrow> AddressFamily \<Rightarrow> (FlowKey \<times> u32) list \<times> 's \<Rightarrow> (FlowKey \<times> u32) list \<times> 's" where
  "CollectUdp sys family = Collect (GetExtendedUdpTable sys family) (udp_key (if family = AF_INET then V4 else V6))"

definition ResolveExePath :: "'s OwnerTables \<Rightarrow> u32 \<Rightarrow> 's \<Rightarrow> string" where
  "ResolveExePath sys pid s = (case ProcessImage sys pid s of Some path \<Rightarrow> path | None \<Rightarrow> [])"

definition resolve_pid :: "'s OwnerTables \<Rightarrow> 's \<Rightarrow> (u32, string) BoundedCache \<Rightarrow> u32 \<Rightarrow> (u32, string) BoundedCache" where
  "resolve_pid sys s paths pid =
    (if CacheGet paths pid \<noteq> None then paths
     else let path = ResolveExePath sys pid s in if path \<noteq> [] then CachePut paths pid path else paths)"

text \<open>\<open>walk\<close> is the order in which the set of process identifiers is visited.\<close>

definition RefreshOnce :: "'s OwnerTables \<Rightarrow> (u32 list \<Rightarrow> u32 list) \<Rightarrow> FlowOwner \<Rightarrow> 's \<Rightarrow> FlowOwner \<times> 's" where
  "RefreshOnce sys walk own s =
    (case CollectUdp sys AF_INET6 (CollectUdp sys AF_INET (CollectTcp sys AF_INET6 (CollectTcp sys AF_INET ([], s))))
     of (entries, s1) \<Rightarrow>
       let paths = foldl (resolve_pid sys s1) (foExePaths own) (walk (remdups (map snd entries)))
       in (own\<lparr>foExePaths := paths, foFlows := fst (ReplaceAll (foFlows own) entries)\<rparr>, s1))"

section \<open>The worker\<close>

definition StartWorker :: "FlowOwner \<Rightarrow> FlowOwner" where
  "StartWorker own = (if foRunning own then own
    else own\<lparr>foRunning := True, foStop := False, foWorkers := foWorkers own + 1\<rparr>)"

definition StopWorker :: "FlowOwner \<Rightarrow> FlowOwner" where
  "StopWorker own = (if \<not> foRunning own then own
    else own\<lparr>foRunning := False, foStop := True, foWorkers := foWorkers own - 1\<rparr>)"

text \<open>The loop after the wait: it ends when stopped, and otherwise takes the request and refreshes.\<close>

definition WorkerPass :: "'s OwnerTables \<Rightarrow> (u32 list \<Rightarrow> u32 list) \<Rightarrow> FlowOwner \<Rightarrow> 's \<Rightarrow> FlowOwner \<times> 's" where
  "WorkerPass sys walk own s =
    (if foStop own then (own, s) else RefreshOnce sys walk (own\<lparr>foRefreshPending := False\<rparr>) s)"


section \<open>The cache keeps its bound\<close>

definition cache_inv :: "('k, 'v) BoundedCache \<Rightarrow> bool" where
  "cache_inv c \<longleftrightarrow> distinct (bcOrder c) \<and> set (bcOrder c) = dom (bcMap c) \<and> length (bcOrder c) \<le> bcCapacity c"

text \<open>
  What the attribution relies on, whichever cache provides it: a bound, what a read returns after a
  write, and that no write makes an entry up.
\<close>

locale bounded_store =
  fixes good :: "'c \<Rightarrow> bool" and bound :: "'c \<Rightarrow> nat" and look :: "'c \<Rightarrow> 'k \<Rightarrow> 'v option" and store :: "'c \<Rightarrow> 'k \<Rightarrow> 'v \<Rightarrow> 'c"
  assumes finite_dom: "good c \<Longrightarrow> finite (dom (look c))"
    and bounded: "good c \<Longrightarrow> card (dom (look c)) \<le> bound c"
    and store_good: "good c \<Longrightarrow> good (store c k v) \<and> bound (store c k v) = bound c"
    and store_new: "good c \<Longrightarrow> 0 < bound c \<Longrightarrow> look (store c k v) k = Some v"
    and store_no_new: "good c \<Longrightarrow> look (store c k v) j = Some w \<Longrightarrow> j = k \<and> w = v \<or> look c j = Some w"
begin

lemma stores_good: "good c \<Longrightarrow> good (foldl (\<lambda>c (k, v). store c k v) c es) \<and> bound (foldl (\<lambda>c (k, v). store c k v) c es) = bound c"
  by (induction es arbitrary: c) (auto simp: store_good)

lemma stores_bounded: "good c \<Longrightarrow> card (dom (look (foldl (\<lambda>c (k, v). store c k v) c es))) \<le> bound c"
  using stores_good bounded by metis

lemma stores_from: "good c \<Longrightarrow> look (foldl (\<lambda>c (k, v). store c k v) c es) j = Some w \<Longrightarrow> (j, w) \<in> set es \<or> look c j = Some w"
proof (induction es arbitrary: c)
  case (Cons e es)
  obtain k v where e: "e = (k, v)" by fastforce
  from Cons.IH [of "store c k v"] Cons.prems e have "(j, w) \<in> set es \<or> look (store c k v) j = Some w"
    by (simp add: store_good)
  then show ?case using store_no_new [OF Cons.prems(1), of k v j w] e by auto
qed simp

end

lemma cache_size: "cache_inv c \<Longrightarrow> CacheSize c = length (bcOrder c)"
  by (simp add: cache_inv_def CacheSize_def distinct_card [symmetric])

lemma new_cache_inv: "cache_inv (NewBoundedCache cap)"
  by (simp add: cache_inv_def NewBoundedCache_def)

lemma cache_put_inv:
  assumes "cache_inv c"
  shows "cache_inv (CachePut c k v)" and "bcCapacity (CachePut c k v) = bcCapacity c"
proof -
  show "bcCapacity (CachePut c k v) = bcCapacity c" by (simp add: CachePut_def Let_def)
  consider (old) "bcMap c k \<noteq> None" | (none) "bcMap c k = None" "bcCapacity c = 0"
    | (evict) "bcMap c k = None" "bcCapacity c \<noteq> 0" "length (bcOrder c) \<ge> bcCapacity c"
    | (room) "bcMap c k = None" "bcCapacity c \<noteq> 0" "length (bcOrder c) < bcCapacity c"
    by linarith
  then show "cache_inv (CachePut c k v)"
  proof cases
    case old
    with assms show ?thesis by (auto simp: CachePut_def cache_inv_def)
  next
    case none
    with assms show ?thesis by (simp add: CachePut_def)
  next
    case evict
    then obtain x xs where o: "bcOrder c = x # xs" by (cases "bcOrder c") auto
    from evict assms o show ?thesis by (auto simp: CachePut_def cache_inv_def Let_def dom_def)
  next
    case room
    with assms show ?thesis by (auto simp: CachePut_def cache_inv_def Let_def dom_def)
  qed
qed

text \<open>A write evicts at most the entry that was written first, and only to make room.\<close>

lemma cache_put_get:
  "CacheGet (CachePut c k v) j =
    (if j = k \<and> (bcMap c k \<noteq> None \<or> bcCapacity c \<noteq> 0) then Some v
     else if bcMap c k = None \<and> bcCapacity c \<noteq> 0 \<and> length (bcOrder c) \<ge> bcCapacity c \<and> j = hd (bcOrder c) then None
     else CacheGet c j)"
  by (auto simp: CacheGet_def CachePut_def Let_def)

interpretation cache: bounded_store cache_inv bcCapacity CacheGet "CachePut :: ('k, 'v) BoundedCache \<Rightarrow> 'k \<Rightarrow> 'v \<Rightarrow> ('k, 'v) BoundedCache"
proof
  fix c :: "('k, 'v) BoundedCache" and k j v w
  assume c: "cache_inv c"
  have d: "dom (CacheGet c) = set (bcOrder c)" using c by (auto simp: cache_inv_def CacheGet_def dom_def)
  show "finite (dom (CacheGet c))" by (simp add: d)
  show "card (dom (CacheGet c)) \<le> bcCapacity c" using c distinct_card [of "bcOrder c"] unfolding d cache_inv_def by simp
  show "cache_inv (CachePut c k v) \<and> bcCapacity (CachePut c k v) = bcCapacity c" using cache_put_inv [OF c] by simp
  show "0 < bcCapacity c \<Longrightarrow> CacheGet (CachePut c k v) k = Some v" by (simp add: cache_put_get)
  show "CacheGet (CachePut c k v) j = Some w \<Longrightarrow> j = k \<and> w = v \<or> CacheGet c j = Some w"
    by (auto simp: cache_put_get split: if_splits)
qed

lemma cache_insert_inv:
  assumes c: "cache_inv c" and "\<not> CacheSize c \<ge> bcCapacity c" "bcMap c k = None"
  shows "cache_inv (c\<lparr>bcOrder := bcOrder c @ [k], bcMap := (bcMap c)(k \<mapsto> v)\<rparr>)"
  using assms cache_size [OF c] by (auto simp: cache_inv_def dom_def)

text \<open>The rebuild: the cache's bound holds, and what it holds is what the first entry of each key says.\<close>

lemma replace_loop_inv:
  assumes "cache_inv c"
  shows "cache_inv (fst (replace_loop es (c, d)))" and "bcCapacity (fst (replace_loop es (c, d))) = bcCapacity c"
  using assms
proof (induction es arbitrary: c d)
  case (Cons e es)
  obtain k v where e: "e = (k, v)" by fastforce
  { case 1 then show ?case by (auto simp: e intro!: Cons.IH(1) intro: cache_insert_inv) }
  { case 2 then show ?case by (auto simp: e Cons.IH(2) cache_insert_inv) }
qed simp_all

lemma replace_full: "CacheSize c \<ge> bcCapacity c \<Longrightarrow> fst (replace_loop es (c, d)) = c"
  by (induction es arbitrary: d) auto

lemma replace_loop_sound:
  "bcMap (fst (replace_loop es (c, d))) k = Some v \<Longrightarrow>
   bcMap c k = Some v \<or> bcMap c k = None \<and> map_of es k = Some v"
proof (induction es arbitrary: c d)
  case (Cons e es)
  obtain j w where e: "e = (j, w)" by fastforce
  show ?case
  proof (cases "CacheSize c \<ge> bcCapacity c")
    case True
    with replace_full [OF True, of "e # es" d] Cons.prems show ?thesis by simp
  next
    case False
    let ?c = "if bcMap c j \<noteq> None then c else c\<lparr>bcOrder := bcOrder c @ [j], bcMap := (bcMap c)(j \<mapsto> w)\<rparr>"
    from False e Cons.prems have "bcMap (fst (replace_loop es (?c, d))) k = Some v" by (simp split: if_splits)
    from Cons.IH [OF this] e show ?thesis by (cases "k = j") (auto split: if_splits)
  qed
qed simp

lemma replace_loop_complete:
  assumes "cache_inv c" and "card (dom (bcMap c) \<union> fst ` set es) \<le> bcCapacity c"
  shows "bcMap (fst (replace_loop es (c, d))) = map_of es ++ bcMap c"
  using assms
proof (induction es arbitrary: c d)
  case (Cons e es)
  obtain j w where e: "e = (j, w)" by fastforce
  have fin: "finite (dom (bcMap c))" using Cons.prems(1) by (metis cache_inv_def List.finite_set)
  show ?case
  proof (cases "CacheSize c \<ge> bcCapacity c")
    case True
    then have "card (dom (bcMap c) \<union> fst ` set (e # es)) \<le> card (dom (bcMap c))"
      using Cons.prems(2) by (simp add: CacheSize_def)
    then have "dom (bcMap c) \<union> fst ` set (e # es) = dom (bcMap c)"
      using fin by (intro card_seteq [symmetric]) auto
    then have "dom (map_of (e # es)) \<subseteq> dom (bcMap c)" by (metis dom_map_of_conv_image_fst sup.orderI sup_commute)
    then have "map_of (e # es) ++ bcMap c = bcMap c" by (auto simp: map_add_def fun_eq_iff split: option.split)
    with replace_full [OF True, of "e # es" d] show ?thesis by (simp only:)
  next
    case False
    let ?c = "if bcMap c j \<noteq> None then c else c\<lparr>bcOrder := bcOrder c @ [j], bcMap := (bcMap c)(j \<mapsto> w)\<rparr>"
    have "cache_inv ?c" using Cons.prems(1) False by (auto intro: cache_insert_inv)
    moreover have "dom (bcMap ?c) \<union> fst ` set es = dom (bcMap c) \<union> fst ` set (e # es)" by (auto simp: e split: if_splits)
    ultimately have "bcMap (fst (replace_loop es (?c, d))) = map_of es ++ bcMap ?c"
      using Cons.prems(2) by (intro Cons.IH) simp_all
    with False e show ?thesis by (auto simp: map_add_def fun_eq_iff split: option.split)
  qed
qed simp

lemma replace_all_inv:
  "cache_inv (fst (ReplaceAll c es))" "bcCapacity (fst (ReplaceAll c es)) = bcCapacity c"
  using replace_loop_inv [of "c\<lparr>bcOrder := [], bcMap := Map.empty\<rparr>" es 0] by (simp_all add: ReplaceAll_def cache_inv_def)

lemma replace_all_sound: "CacheGet (fst (ReplaceAll c es)) k = Some v \<Longrightarrow> map_of es k = Some v"
  using replace_loop_sound [of es "c\<lparr>bcOrder := [], bcMap := Map.empty\<rparr>" 0] by (simp add: ReplaceAll_def CacheGet_def)

lemma replace_all_complete:
  assumes "card (fst ` set es) \<le> bcCapacity c"
  shows "CacheGet (fst (ReplaceAll c es)) k = map_of es k"
  using replace_loop_complete [of "c\<lparr>bcOrder := [], bcMap := Map.empty\<rparr>" es 0] assms
  by (simp add: ReplaceAll_def CacheGet_def cache_inv_def)

section \<open>Attribution over a run\<close>

text \<open>The image a process has, when it can be read at all, does not change.\<close>

definition stable_images :: "'s OwnerTables \<Rightarrow> (u32 \<Rightarrow> string) \<Rightarrow> bool" where
  "stable_images sys img \<longleftrightarrow> (\<forall>pid s. ProcessImage sys pid s \<in> {None, Some (img pid)})"

definition listed :: "'s OwnerTables \<Rightarrow> 's \<Rightarrow> (FlowKey \<times> u32) list" where
  "listed sys s = fst (CollectUdp sys AF_INET6 (CollectUdp sys AF_INET (CollectTcp sys AF_INET6 (CollectTcp sys AF_INET ([], s)))))"

datatype 's FlowEvent = EvLookup FlowKey | EvRefresh 's | EvStart | EvStop

text \<open>The owner and the enumeration its flow cache was last built from.\<close>

fun flow_step :: "'s OwnerTables \<Rightarrow> (u32 list \<Rightarrow> u32 list) \<Rightarrow> FlowOwner \<times> (FlowKey \<times> u32) list \<Rightarrow> 's FlowEvent \<Rightarrow>
    FlowOwner \<times> (FlowKey \<times> u32) list" where
  "flow_step sys walk (own, es) (EvLookup key) = (snd (LookupCached own key), es)"
| "flow_step sys walk (own, es) (EvRefresh s) =
    (if foStop own then (fst (WorkerPass sys walk own s), es) else (fst (WorkerPass sys walk own s), listed sys s))"
| "flow_step sys walk (own, es) EvStart = (StartWorker own, es)"
| "flow_step sys walk (own, es) EvStop = (StopWorker own, es)"

definition paths_inv :: "(u32 \<Rightarrow> string) \<Rightarrow> (u32, string) BoundedCache \<Rightarrow> bool" where
  "paths_inv img c \<longleftrightarrow> cache_inv c \<and> (\<forall>pid path. CacheGet c pid = Some path \<longrightarrow> path = img pid \<and> path \<noteq> [])"

definition flow_inv :: "'s OwnerTables \<Rightarrow> (u32 \<Rightarrow> string) \<Rightarrow> nat \<Rightarrow> nat \<Rightarrow> FlowOwner \<times> (FlowKey \<times> u32) list \<Rightarrow> bool" where
  "flow_inv sys img maxFlows maxPaths x \<longleftrightarrow>
    stable_images sys img \<and>
    cache_inv (foFlows (fst x)) \<and> bcCapacity (foFlows (fst x)) = maxFlows \<and>
    paths_inv img (foExePaths (fst x)) \<and> bcCapacity (foExePaths (fst x)) = maxPaths \<and>
    (\<forall>key pid. CacheGet (foFlows (fst x)) key = Some pid \<longrightarrow> map_of (snd x) key = Some pid) \<and>
    foWorkers (fst x) = (if foRunning (fst x) then 1 else 0)"

lemma lookup_keeps [simp]:
  "foFlows (snd (LookupCached own key)) = foFlows own" "foExePaths (snd (LookupCached own key)) = foExePaths own"
  "foWorkers (snd (LookupCached own key)) = foWorkers own" "foRunning (snd (LookupCached own key)) = foRunning own"
  "foStop (snd (LookupCached own key)) = foStop own"
  by (simp_all add: LookupCached_def RequestRefresh_def split: option.split)

lemma resolve_pid_inv:
  assumes "stable_images sys img" and "paths_inv img c"
  shows "paths_inv img (resolve_pid sys s c pid)" and "bcCapacity (resolve_pid sys s c pid) = bcCapacity c"
proof -
  have img: "ResolveExePath sys pid s \<noteq> [] \<Longrightarrow> ResolveExePath sys pid s = img pid"
    using assms(1) unfolding stable_images_def ResolveExePath_def by (metis insert_iff option.simps(4,5) singletonD)
  from assms(2) have c: "cache_inv c" by (simp add: paths_inv_def)
  show "bcCapacity (resolve_pid sys s c pid) = bcCapacity c"
    using cache_put_inv(2) [OF c] by (simp add: resolve_pid_def Let_def)
  show "paths_inv img (resolve_pid sys s c pid)"
    using assms(2) img cache_put_inv(1) [OF c] cache.store_no_new [OF c]
    by (auto simp: resolve_pid_def Let_def paths_inv_def) metis+
qed

lemma resolve_pids_inv:
  assumes "stable_images sys img"
  shows "paths_inv img c \<Longrightarrow> paths_inv img (foldl (resolve_pid sys s) c pids) \<and>
    bcCapacity (foldl (resolve_pid sys s) c pids) = bcCapacity c"
  by (induction pids arbitrary: c) (simp_all add: resolve_pid_inv [OF assms])

lemma flow_inv_step: "flow_inv sys img mf mp x \<Longrightarrow> flow_inv sys img mf mp (flow_step sys walk x ev)"
proof -
  assume inv: "flow_inv sys img mf mp x"
  obtain own es where x: "x = (own, es)" by fastforce
  show "flow_inv sys img mf mp (flow_step sys walk x ev)"
  proof (cases ev)
    case (EvRefresh s)
    show ?thesis
    proof (cases "foStop own")
      case True
      with inv x EvRefresh show ?thesis by (simp add: WorkerPass_def)
    next
      case False
      from inv x have st: "stable_images sys img" and p: "paths_inv img (foExePaths own)" by (simp_all add: flow_inv_def)
      note paths = resolve_pids_inv [OF st p]
      from False inv x EvRefresh show ?thesis
        using replace_all_inv [of "foFlows own" "listed sys s"] replace_all_sound [of "foFlows own" "listed sys s"] paths
        by (simp add: WorkerPass_def RefreshOnce_def Let_def split_beta flow_inv_def listed_def)
    qed
  qed (use inv x in \<open>simp_all add: flow_inv_def StartWorker_def StopWorker_def\<close>)
qed

interpretation attribution: observer "flow_step sys walk" "flow_inv sys img mf mp" "\<lambda>_ _. True"
  for sys :: "'s OwnerTables" and walk img mf mp
  by unfold_locales (rule flow_inv_step)

lemma new_flow_inv: "stable_images sys img \<Longrightarrow> flow_inv sys img mf mp (NewFlowOwner mf mp, [])"
  by (simp add: flow_inv_def NewFlowOwner_def new_cache_inv paths_inv_def CacheGet_def)
    (simp add: NewBoundedCache_def)

text \<open>The key of a row is what the lookup makes of the texts of its ends; a UDP flow is found by its source alone.\<close>

lemma lookup_tcp_row:
  assumes "pton (if version = 6 then AF_INET6 else AF_INET) src = Some (orLocalAddr row)"
    and "pton (if version = 6 then AF_INET6 else AF_INET) dst = Some (orRemoteAddr row)"
    and "src \<noteq> []" "dst \<noteq> []" and "version = 6 \<Longrightarrow> length (orLocalAddr row) = 16 \<and> length (orRemoteAddr row) = 16"
  shows "Lookup pton version IPPROTO_TCP src (ntohs (orLocalPort row)) dst (ntohs (orRemotePort row)) own =
    LookupCached own (tcp_key (if version = 6 then V6 else V4) row)"
  using assms by (auto simp: Lookup_def ParseAddr_def tcp_key_def addr16_def IPPROTO_TCP_def IPPROTO_UDP_def)

lemma lookup_udp_row:
  assumes "pton (if version = 6 then AF_INET6 else AF_INET) src = Some (orLocalAddr row)"
    and "src \<noteq> []" and "version = 6 \<Longrightarrow> length (orLocalAddr row) = 16"
  shows "Lookup pton version IPPROTO_UDP src (ntohs (orLocalPort row)) dst port own =
    LookupCached own (udp_key (if version = 6 then V6 else V4) row)"
  using assms by (auto simp: Lookup_def ParseAddr_def udp_key_def addr16_def IPPROTO_UDP_def)

section \<open>Properties\<close>


text \<open>One TCP connection of process 4242 whose image can be read.\<close>

definition row_sample :: OwnerRow where
  "row_sample = \<lparr>orLocalAddr = [10, 0, 0, 5], orLocalPort = 0xBB01, orRemoteAddr = [1, 1, 1, 1], orRemotePort = 0x5000,
    orOwningPid = 4242\<rparr>"

definition tables_sample :: "unit OwnerTables" where
  "tables_sample = \<lparr>GetExtendedTcpTable = (\<lambda>family want s. ((NO_ERROR, want, if family = AF_INET then [row_sample] else []), s)),
    GetExtendedUdpTable = (\<lambda>family want s. ((NO_ERROR, want, []), s)),
    ProcessImage = (\<lambda>pid s. if pid = 4242 then Some ''curl.exe'' else None)\<rparr>"


text \<open>
  A refresh answers for every live connection at once: when the enumeration holds no more distinct
  flows than the cache, and the process of a listed connection has its image cached, the lookup with
  the texts of the connection's two ends returns that image, for a TCP row of either family; for a
  UDP row it does so whatever destination the packet carries.
\<close>

theorem refresh_answers_live_flows:
  assumes "RefreshOnce sys walk own s = (upd, s')" and "card (fst ` set (listed sys s)) \<le> bcCapacity (foFlows own)"
    and "map_of (listed sys s) (key row) = Some (orOwningPid row)" and "CacheGet (foExePaths upd) (orOwningPid row) = Some path"
    and "key = tcp_key (if version = 6 then V6 else V4) \<and> protocol = IPPROTO_TCP \<and> port = ntohs (orRemotePort row) \<and>
        pton (if version = 6 then AF_INET6 else AF_INET) dst = Some (orRemoteAddr row) \<and> dst \<noteq> [] \<or>
      key = udp_key (if version = 6 then V6 else V4) \<and> protocol = IPPROTO_UDP"
    and "pton (if version = 6 then AF_INET6 else AF_INET) src = Some (orLocalAddr row)" and "src \<noteq> []"
    and "version = 6 \<longrightarrow> length (orLocalAddr row) = 16 \<and> length (orRemoteAddr row) = 16"
  shows "Lookup pton version protocol src (ntohs (orLocalPort row)) dst port upd = (path, upd)"
proof -
  from assms(1) have "foFlows upd = fst (ReplaceAll (foFlows own) (listed sys s))"
    by (auto simp: RefreshOnce_def Let_def split_beta listed_def)
  with replace_all_complete [OF assms(2)] assms(3,4) have "LookupCached upd (key row) = (path, upd)"
    by (simp add: LookupCached_def)
  with assms(5-8) lookup_tcp_row [of pton version src row dst upd] lookup_udp_row [of pton version src row dst port upd]
  show ?thesis by auto
qed

definition pton_sample :: "AddressFamily \<Rightarrow> string \<Rightarrow> 8 word list option" where
  "pton_sample family t = (if t = ''10.0.0.5'' then Some [10, 0, 0, 5] else if t = ''1.1.1.1'' then Some [1, 1, 1, 1] else None)"

theorem refresh_answers_live_flows_witness:
  "let upd = fst (RefreshOnce tables_sample id (NewFlowOwner kMaxFlows kMaxExePaths) ())
   in Lookup pton_sample 4 6 ''10.0.0.5'' 443 ''1.1.1.1'' 80 upd = (''curl.exe'', upd)"
proof -
  let ?r = "RefreshOnce tables_sample id (NewFlowOwner kMaxFlows kMaxExePaths) ()"
  have listed: "listed tables_sample () = [(tcp_key V4 row_sample, 4242)]"
    by (simp add: listed_def CollectTcp_def CollectUdp_def Collect_def FetchTable_def tables_sample_def
        numeral_eq_Suc net_codes ERROR_INSUFFICIENT_BUFFER_def row_sample_def)
  have port: "ntohs (orLocalPort row_sample) = 443" "ntohs (orRemotePort row_sample) = 80" by code_simp+
  have path: "CacheGet (foExePaths (fst ?r)) (orOwningPid row_sample) = Some ''curl.exe''"
    using listed by (auto simp: RefreshOnce_def Let_def split_beta listed_def resolve_pid_def ResolveExePath_def
        tables_sample_def CachePut_def row_sample_def NewFlowOwner_def NewBoundedCache_def CacheGet_def kMaxExePaths_def)
  have "Lookup pton_sample 4 IPPROTO_TCP ''10.0.0.5'' (ntohs (orLocalPort row_sample)) ''1.1.1.1'' (ntohs (orRemotePort row_sample)) (fst ?r) =
      (''curl.exe'', fst ?r)"
    by (rule refresh_answers_live_flows [where sys = tables_sample and walk = id and own = "NewFlowOwner kMaxFlows kMaxExePaths"
          and s = "()" and s' = "snd ?r" and key = "tcp_key V4", OF prod.collapse [symmetric] _ _ path])
      (simp_all add: listed row_sample_def pton_sample_def NewFlowOwner_def NewBoundedCache_def kMaxFlows_def)
  then show ?thesis by (simp add: port IPPROTO_TCP_def)
qed

end
