(* ===== verification/Obligations.thy ===== *)
theory Obligations
  imports Protocol
begin

text \<open>
  Work the app owes the service, and the workers that carry requests: the sign-out that stands until the
  service has done it (\<^verbatim>\<open>Common/SignOut.h\<close>), the two requests kept while the service is busy
  (\<^verbatim>\<open>Common/ExtenderReset.h\<close>, \<^verbatim>\<open>Common/IngressDnsSync.h\<close>), the worker that folds requests into one
  more run (\<^verbatim>\<open>Common/CoalescedWorker.h\<close>), and what the app's exit keeps and waits for
  (\<^verbatim>\<open>Common/ExitDrain.h\<close>, \<^verbatim>\<open>Common/AppLifetime.h\<close>). The service's answers and the requests that the
  slots hold are arguments; a lock's critical section is one step.
\<close>

section \<open>Signing out\<close>

datatype SignOutRequest = Req_StopTunnel | Req_StopProvider | Req_Logout

definition kRequests :: "SignOutRequest list" where
  "kRequests = [Req_StopTunnel, Req_StopProvider, Req_Logout]"

definition SignOutRequestToString :: "SignOutRequest \<Rightarrow> string" where
  "SignOutRequestToString r = (case r of Req_StopTunnel \<Rightarrow> ''stop_tunnel'' | Req_StopProvider \<Rightarrow> ''stop_provider''
    | Req_Logout \<Rightarrow> ''logout'')"

datatype Delivery = Delivered | Unreachable | Delivery_Refused

text \<open>The service the requests go to: whether it can be reached, and whether a request was done.\<close>

record 's SignOutService =
  soReach :: "'s \<Rightarrow> bool \<times> 's"
  soSend :: "SignOutRequest \<Rightarrow> 's \<Rightarrow> bool \<times> 's"

text \<open>What is owed, in memory and in the marker that outlives the app.\<close>

record Obligation =
  obOwed :: bool
  obMarker :: bool

definition ObligationLoad :: "Obligation \<Rightarrow> Obligation" where
  "ObligationLoad ob = ob\<lparr>obOwed := obMarker ob\<rparr>"

fun send_all :: "'s SignOutService \<Rightarrow> SignOutRequest list \<Rightarrow> bool \<Rightarrow> 's \<Rightarrow> bool \<times> 's" where
  "send_all svc [] done1 s = (done1, s)"
| "send_all svc (r # rs) done1 s =
    (case soSend svc r s of (ok, s1) \<Rightarrow> send_all svc rs (if \<not> ok then False else done1) s1)"

definition Settle :: "'s SignOutService \<Rightarrow> Obligation \<Rightarrow> 's \<Rightarrow> Delivery \<times> Obligation \<times> 's" where
  "Settle svc ob s =
    (if \<not> obOwed ob then (Delivered, ob, s)
     else case soReach svc s of (reached, s1) \<Rightarrow>
     if \<not> reached then (Unreachable, ob, s1)
     else case send_all svc kRequests True s1 of (done1, s2) \<Rightarrow>
     if \<not> done1 then (Delivery_Refused, ob, s2)
     else (Delivered, ob\<lparr>obOwed := False, obMarker := False\<rparr>, s2))"

definition BeginSignOut :: "'s SignOutService \<Rightarrow> Obligation \<Rightarrow> 's \<Rightarrow> Delivery \<times> Obligation \<times> 's" where
  "BeginSignOut svc ob s = Settle svc (ob\<lparr>obOwed := True, obMarker := True\<rparr>) s"

section \<open>Requests kept while the service is busy\<close>

datatype ResetAnswer = Reset_Taken | Reset_Busy | Reset_NotTaken

definition EndsOperation :: "TunnelState \<Rightarrow> bool" where
  "EndsOperation state \<longleftrightarrow> state \<noteq> Starting \<and> state \<noteq> Stopping"

record 'r ResetOwed =
  roOwed :: "'r option"

definition ResetAnswered :: "'r \<Rightarrow> ResetAnswer \<Rightarrow> 'r ResetOwed \<Rightarrow> 'r ResetOwed" where
  "ResetAnswered request answer ow =
    (if answer = Reset_Busy then ow\<lparr>roOwed := Some request\<rparr> else ow\<lparr>roOwed := None\<rparr>)"

definition ResetTakeDue :: "TunnelState \<Rightarrow> 'r ResetOwed \<Rightarrow> 'r option \<times> 'r ResetOwed" where
  "ResetTakeDue pushed ow =
    (if \<not> EndsOperation pushed then (None, ow) else (roOwed ow, ow\<lparr>roOwed := None\<rparr>))"

definition ResetIsOwed :: "'r ResetOwed \<Rightarrow> bool" where
  "ResetIsOwed ow \<longleftrightarrow> roOwed ow \<noteq> None"

datatype IngressAnswer = Ingress_Taken | Ingress_Busy | Ingress_NotTaken

record 'r IngressOwed =
  ioOwed :: "'r option"

definition IngressAnswered :: "'r \<Rightarrow> IngressAnswer \<Rightarrow> 'r IngressOwed \<Rightarrow> 'r IngressOwed" where
  "IngressAnswered request answer ow =
    (if answer = Ingress_Busy then ow\<lparr>ioOwed := Some request\<rparr> else ow\<lparr>ioOwed := None\<rparr>)"

definition IngressTakeDue :: "TunnelState \<Rightarrow> 'r IngressOwed \<Rightarrow> 'r option \<times> 'r IngressOwed" where
  "IngressTakeDue pushed ow =
    (if \<not> EndsOperation pushed then (None, ow) else (ioOwed ow, ow\<lparr>ioOwed := None\<rparr>))"

definition IngressIsOwed :: "'r IngressOwed \<Rightarrow> bool" where
  "IngressIsOwed ow \<longleftrightarrow> ioOwed ow \<noteq> None"

section \<open>The coalesced worker\<close>

text \<open>
  The worker's thread is outside its loop, at the loop's top or inside the job. \<open>cwAsked\<close> counts the
  requests that were taken, \<open>cwCovered\<close> how many of them had been taken when the latest run started,
  \<open>cwRuns\<close> the runs.
\<close>

datatype WorkerPhase = NoThread | AtTop | InJob

record CoalescedWorker =
  cwRunning :: bool
  cwDirty :: bool
  cwStopped :: bool
  cwPhase :: WorkerPhase
  cwAsked :: nat
  cwCovered :: nat
  cwRuns :: nat

definition NewCoalescedWorker :: CoalescedWorker where
  "NewCoalescedWorker = \<lparr>cwRunning = False, cwDirty = False, cwStopped = False, cwPhase = NoThread, cwAsked = 0,
    cwCovered = 0, cwRuns = 0\<rparr>"

definition WorkerRequest :: "CoalescedWorker \<Rightarrow> CoalescedWorker" where
  "WorkerRequest c =
    (if cwStopped c then c
     else let c1 = c\<lparr>cwDirty := True, cwAsked := cwAsked c + 1\<rparr>
          in if cwRunning c1 then c1 else c1\<lparr>cwRunning := True, cwPhase := AtTop\<rparr>)"

definition WorkerStop :: "CoalescedWorker \<Rightarrow> CoalescedWorker" where
  "WorkerStop c = c\<lparr>cwStopped := True, cwDirty := False\<rparr>"

text \<open>One move of the thread: the critical section at the loop's top, or the end of the job.\<close>

definition WorkerLoop :: "CoalescedWorker \<Rightarrow> CoalescedWorker" where
  "WorkerLoop c =
    (case cwPhase c of
       NoThread \<Rightarrow> c
     | AtTop \<Rightarrow>
         if cwStopped c \<or> \<not> cwDirty c then c\<lparr>cwRunning := False, cwPhase := NoThread\<rparr>
         else c\<lparr>cwDirty := False, cwPhase := InJob, cwCovered := cwAsked c, cwRuns := cwRuns c + 1\<rparr>
     | InJob \<Rightarrow> c\<lparr>cwPhase := AtTop\<rparr>)"

section \<open>The app's exit\<close>

datatype Queued = Queued_Ensure | Queued_Connect | Queued_Disconnect | Queued_Provider

definition KeepsQueued :: "Queued \<Rightarrow> bool" where
  "KeepsQueued q \<longleftrightarrow> q = Queued_Disconnect"

text \<open>A slot holds the request that waits, and whether its worker is alive. The second result is whether the wait is over at once.\<close>

record QueueSlot =
  qsRequested :: "Queued option"
  qsWorkerAlive :: bool

definition SettleQueued :: "QueueSlot \<Rightarrow> QueueSlot \<times> bool" where
  "SettleQueued slot =
    (let slot1 = (case qsRequested slot of
                    Some kind \<Rightarrow> if \<not> KeepsQueued kind then slot\<lparr>qsRequested := None\<rparr> else slot | None \<Rightarrow> slot)
     in (slot1, \<not> qsWorkerAlive slot1))"

definition kCommandsCap :: i64 where "kCommandsCap = 5000"
definition kQuitCap :: i64 where "kQuitCap = 10000"

datatype StopRoute = Route_Locked | Route_Unlocked

definition StopRouteFor :: "bool \<Rightarrow> StopRoute" where
  "StopRouteFor commandsSettled = (if commandsSettled then Route_Locked else Route_Unlocked)"

definition HostDestroyableAtExit :: "bool \<Rightarrow> bool \<Rightarrow> bool" where
  "HostDestroyableAtExit commandsSettled quitFinished \<longleftrightarrow> commandsSettled \<and> quitFinished"

datatype Ending = Ending_Quit | SessionEnd | CloseRequest

record LifetimePlan =
  lpStopService :: bool
  lpWhy :: string

definition LifetimePlanFor :: "Ending \<Rightarrow> LifetimePlan" where
  "LifetimePlanFor e = (case e of
      Ending_Quit \<Rightarrow> \<lparr>lpStopService = True, lpWhy =
        ''the user quit: the tunnel and the provider stop with the app, and nothing starts them until it runs again''\<rparr>
    | SessionEnd \<Rightarrow> \<lparr>lpStopService = True, lpWhy =
        ''Windows is ending the session: the tunnel and the provider stop as on quit, and nothing starts them until the app runs again''\<rparr>
    | CloseRequest \<Rightarrow> \<lparr>lpStopService = False, lpWhy =
        ''asked to close from outside the app: the service keeps what it runs, and the next launch adopts it''\<rparr>)"

section \<open>The sign-out stands until it is done\<close>

text \<open>What happens to the obligation: a sign-out, a pass that settles, and the app dying and starting again.\<close>

datatype SignOutEvent = SignOut | SettlePass | Restarted

fun signout_step :: "'s SignOutService \<Rightarrow> Obligation \<times> 's \<Rightarrow> SignOutEvent \<Rightarrow> Obligation \<times> 's" where
  "signout_step svc (ob, s) SignOut = snd (BeginSignOut svc ob s)"
| "signout_step svc (ob, s) SettlePass = snd (Settle svc ob s)"
| "signout_step svc (ob, s) Restarted = (ObligationLoad (ob\<lparr>obOwed := False\<rparr>), s)"

text \<open>
  A service that keeps the list of requests it did, the latest first: \<open>log s\<close>. Doing a request adds it
  and failing adds nothing; reaching adds nothing.
\<close>

definition logs_deeds :: "'s SignOutService \<Rightarrow> ('s \<Rightarrow> SignOutRequest list) \<Rightarrow> bool" where
  "logs_deeds svc deeds \<longleftrightarrow>
    (\<forall>s. deeds (snd (soReach svc s)) = deeds s) \<and>
    (\<forall>r s. deeds (snd (soSend svc r s)) = (if fst (soSend svc r s) then r # deeds s else deeds s))"

text \<open>
  The sign-out asked for when the log was \<open>log0\<close> is still owed, in memory and in the marker, or all three
  requests have been done since, in the order they are sent.
\<close>

definition signout_inv :: "('s \<Rightarrow> SignOutRequest list) \<Rightarrow> SignOutRequest list \<Rightarrow> Obligation \<times> 's \<Rightarrow> bool" where
  "signout_inv deeds log0 x \<longleftrightarrow>
    obOwed (fst x) = obMarker (fst x) \<and>
    (\<exists>mid. deeds (snd x) = (if obOwed (fst x) then mid @ log0 else rev kRequests @ mid @ log0))"

lemma send_all_log:
  assumes "logs_deeds svc deeds"
  shows "fst (send_all svc rs d s) \<Longrightarrow> d \<and> deeds (snd (send_all svc rs d s)) = rev rs @ deeds s"
    and "\<exists>added. deeds (snd (send_all svc rs d s)) = added @ deeds s"
proof (induction rs arbitrary: d s)
  case (Cons r rs)
  from assms have l: "deeds (snd (soSend svc r s)) = (if fst (soSend svc r s) then r # deeds s else deeds s)" for s
    by (simp add: logs_deeds_def)
  { case 1 then show ?case using Cons.IH(1) [of _ "snd (soSend svc r s)"] l [of s]
      by (fastforce simp: split_beta split: if_splits) }
  { case 2 show ?case
      using Cons.IH(2) [of "if \<not> fst (soSend svc r s) then False else d" "snd (soSend svc r s)"] l [of s]
      by (auto simp: split_beta split: if_splits) }
qed simp_all

lemma settle_inv:
  assumes l: "logs_deeds svc deeds" and inv: "signout_inv deeds log0 (ob, s)"
  shows "signout_inv deeds log0 (snd (Settle svc ob s))"
proof (cases "obOwed ob")
  case False
  with inv show ?thesis by (simp add: Settle_def)
next
  case True
  let ?s1 = "snd (soReach svc s)"
  from l have r: "deeds ?s1 = deeds s" by (simp add: logs_deeds_def)
  from inv True obtain mid where m: "deeds s = mid @ log0" "obMarker ob" by (auto simp: signout_inv_def)
  from send_all_log [OF l, of kRequests True ?s1] r m True show ?thesis
    by (auto simp: Settle_def signout_inv_def split_beta)
qed

lemma reload_inv:
  "signout_inv deeds log0 (ob, s) \<Longrightarrow> signout_inv deeds log0 (ObligationLoad (ob\<lparr>obOwed := False\<rparr>), s)"
  by (cases "obOwed ob") (auto simp: ObligationLoad_def signout_inv_def)

interpretation signing_out: observer "signout_step svc" "\<lambda>x. logs_deeds svc deeds \<and> signout_inv deeds log0 x" "\<lambda>_ ev. ev \<noteq> SignOut"
  for svc :: "'s SignOutService" and deeds log0
proof
  fix x :: "Obligation \<times> 's" and ev
  assume "logs_deeds svc deeds \<and> signout_inv deeds log0 x" and "ev \<noteq> SignOut"
  then show "logs_deeds svc deeds \<and> signout_inv deeds log0 (signout_step svc x ev)"
    by (cases x; cases ev) (simp_all add: settle_inv reload_inv)
qed

lemma no_sign_out: "SignOut \<notin> set evs \<Longrightarrow> signing_out.admissible_run svc x evs"
  by (induction evs arbitrary: x) auto

section \<open>The two slots share a contract\<close>

text \<open>
  A slot remembers the request the service was too busy for, and hands it out once, at a status that
  ends an operation. Any other answer clears it.
\<close>

locale busy_slot =
  fixes waiting :: "'c \<Rightarrow> 'r option" and answered :: "'r \<Rightarrow> 'a \<Rightarrow> 'c \<Rightarrow> 'c" and due :: "TunnelState \<Rightarrow> 'c \<Rightarrow> 'r option \<times> 'c"
    and busy :: 'a
  assumes answered_waiting: "waiting (answered r a c) = (if a = busy then Some r else None)"
    and due_waiting: "waiting (snd (due st c)) = (if EndsOperation st then None else waiting c)"
    and due_request: "fst (due st c) = (if EndsOperation st then waiting c else None)"
begin

text \<open>The requests a run of pushed states hands out.\<close>

fun handed_out :: "'c \<Rightarrow> TunnelState list \<Rightarrow> 'r list" where
  "handed_out c [] = []"
| "handed_out c (st # sts) =
    (case due st c of (r, c') \<Rightarrow> (case r of Some x \<Rightarrow> [x] | None \<Rightarrow> []) @ handed_out c' sts)"

lemma handed_out_once:
  "handed_out c sts = (case waiting c of None \<Rightarrow> [] | Some r \<Rightarrow> if list_ex EndsOperation sts then [r] else [])"
proof (induction sts arbitrary: c)
  case (Cons st sts)
  show ?case
    using Cons [of "snd (due st c)"] due_waiting [of st c] due_request [of st c] by (auto simp: split_beta split: option.splits)
qed (simp split: option.split)

lemma busy_handed_out_once:
  "handed_out (answered r a c) sts = (if a = busy \<and> list_ex EndsOperation sts then [r] else [])"
  by (simp add: handed_out_once answered_waiting)

end

interpretation reset_slot: busy_slot roOwed ResetAnswered ResetTakeDue Reset_Busy
  by unfold_locales (auto simp: ResetAnswered_def ResetTakeDue_def)

interpretation ingress_slot: busy_slot ioOwed IngressAnswered IngressTakeDue Ingress_Busy
  by unfold_locales (auto simp: IngressAnswered_def IngressTakeDue_def)

section \<open>No request to the worker is lost\<close>

datatype WorkerEvent = Asked | StopCalled | ThreadMoves

fun worker_step :: "CoalescedWorker \<Rightarrow> WorkerEvent \<Rightarrow> CoalescedWorker" where
  "worker_step c Asked = WorkerRequest c"
| "worker_step c StopCalled = WorkerStop c"
| "worker_step c ThreadMoves = WorkerLoop c"

definition worker_inv :: "CoalescedWorker \<Rightarrow> bool" where
  "worker_inv c \<longleftrightarrow>
    (cwRunning c \<longleftrightarrow> cwPhase c \<noteq> NoThread) \<and> (cwDirty c \<longrightarrow> cwRunning c) \<and>
    (if cwStopped c then \<not> cwDirty c else (cwDirty c \<longleftrightarrow> cwCovered c < cwAsked c)) \<and>
    cwRuns c \<le> cwCovered c \<and> cwCovered c \<le> cwAsked c"

interpretation worker: observer worker_step worker_inv "\<lambda>_ _. True"
proof
  fix c ev assume "worker_inv c"
  then show "worker_inv (worker_step c ev)"
    by (cases ev; cases "cwPhase c")
      (auto simp: worker_inv_def WorkerRequest_def WorkerStop_def WorkerLoop_def Let_def split: if_splits)
qed

lemma new_worker_inv: "worker_inv NewCoalescedWorker"
  by (simp add: worker_inv_def NewCoalescedWorker_def)

text \<open>Left alone, the thread runs the job at most once more and comes to rest.\<close>

lemma worker_rests:
  assumes "worker_inv c"
  shows "cwPhase (WorkerLoop (WorkerLoop (WorkerLoop (WorkerLoop c)))) = NoThread"
    and "cwRuns (WorkerLoop (WorkerLoop (WorkerLoop (WorkerLoop c)))) \<le> cwRuns c + 1"
    and "cwStopped (WorkerLoop (WorkerLoop (WorkerLoop (WorkerLoop c)))) = cwStopped c"
    and "cwAsked (WorkerLoop (WorkerLoop (WorkerLoop (WorkerLoop c)))) = cwAsked c"
  by (cases "cwPhase c"; cases "cwStopped c"; cases "cwDirty c"; simp add: WorkerLoop_def)+

section \<open>Properties\<close>

text \<open>
  (C31) A sign-out is never forgotten. From the moment it is asked for, over every pass that settles and every time
  the app dies and starts again from its marker, it stays owed, in memory and in the marker, until the
  service has done all three requests in one pass, in their order; only then is it cleared. A service
  that cannot be reached, or does only part of them, leaves it owed.
\<close>

theorem sign_out_never_forgotten:
  assumes "logs_deeds svc deeds" and "SignOut \<notin> set later"
    and "run (signout_step svc) (ob, s) (SignOut # later) = (ob', s')"
  shows "obOwed ob' = obMarker ob' \<and>
    (\<exists>mid. deeds s' = (if obOwed ob' then mid @ deeds s else rev kRequests @ mid @ deeds s))"
proof -
  let ?x = "signout_step svc (ob, s) SignOut"
  have "signout_inv deeds (deeds s) (ob\<lparr>obOwed := True, obMarker := True\<rparr>, s)" by (simp add: signout_inv_def)
  then have "logs_deeds svc deeds \<and> signout_inv deeds (deeds s) ?x"
    using assms(1) settle_inv by (simp add: BeginSignOut_def)
  from signing_out.run_good [OF this no_sign_out [OF assms(2)]] assms(3)
  have "signout_inv deeds (deeds s) (ob', s')" by (simp del: signout_step.simps)
  then show ?thesis unfolding signout_inv_def fst_conv snd_conv .
qed

text \<open>A service that is away the first time and does everything afterwards.\<close>

definition service_sample :: "(nat \<times> SignOutRequest list) SignOutService" where
  "service_sample = \<lparr>soReach = (\<lambda>(n, log1). (n \<noteq> 0, (n + 1, log1))), soSend = (\<lambda>r (n, log1). (True, (n, r # log1)))\<rparr>"

theorem sign_out_never_forgotten_witness:
  "case run (signout_step service_sample) (\<lparr>obOwed = False, obMarker = False\<rparr>, (0, [])) [SignOut, Restarted, SettlePass] of
    (ob, s) \<Rightarrow> \<not> obOwed ob \<and> snd s = [Req_Logout, Req_StopProvider, Req_StopTunnel]"
proof -
  have l: "logs_deeds service_sample snd" by (auto simp: logs_deeds_def service_sample_def)
  have e: "run (signout_step service_sample) (\<lparr>obOwed = False, obMarker = False\<rparr>, (0, [])) [SignOut, Restarted, SettlePass] =
      (\<lparr>obOwed = False, obMarker = False\<rparr>, (2, [Req_Logout, Req_StopProvider, Req_StopTunnel]))" by code_simp
  from sign_out_never_forgotten [OF l _ e] have
    "\<exists>mid. [Req_Logout, Req_StopProvider, Req_StopTunnel] = rev kRequests @ mid @ []" by simp
  with e show ?thesis by simp
qed

text \<open>
  No request to the worker is lost and none runs twice over: at every moment of every interleaving of
  requests, a stop and the thread's moves, there are at most as many runs as requests, and a worker that is not stopped
  and whose thread is at rest has started a run after the last request. Left alone, the thread runs the
  job at most once more and comes to rest within four of its moves.
\<close>

theorem no_request_lost:
  "let c = run worker_step NewCoalescedWorker evs;
       rest = run worker_step c [ThreadMoves, ThreadMoves, ThreadMoves, ThreadMoves]
   in cwRuns c \<le> cwAsked c \<and> (cwStopped c \<or> cwPhase c \<in> {AtTop, InJob} \<or> cwCovered c = cwAsked c) \<and>
      cwPhase rest = NoThread \<and> cwRuns rest \<le> cwRuns c + 1 \<and> (cwStopped c \<or> cwCovered rest = cwAsked c)"
proof -
  let ?c = "run worker_step NewCoalescedWorker evs"
  let ?rest = "run worker_step ?c [ThreadMoves, ThreadMoves, ThreadMoves, ThreadMoves]"
  have c: "worker_inv ?c" by (rule worker.run_good_total [OF new_worker_inv]) simp
  have rest: "worker_inv ?rest" by (rule worker.run_good_total [OF c]) simp
  have "cwPhase ?rest = NoThread" "cwRuns ?rest \<le> cwRuns ?c + 1" "cwStopped ?rest = cwStopped ?c" "cwAsked ?rest = cwAsked ?c"
    using worker_rests [OF c] by simp_all
  moreover have "cwPhase ?c = NoThread \<or> cwPhase ?c \<in> {AtTop, InJob}" by (cases "cwPhase ?c") auto
  ultimately show ?thesis using c rest unfolding worker_inv_def Let_def by (auto split: if_splits)
qed

text \<open>
  A reset of the extenders that the service was too busy for is sent again exactly once: at the
  first pushed status that ends the operation, and never when the service took or refused it.
\<close>

theorem busy_reset_sent_once:
  "reset_slot.handed_out (ResetAnswered request answer slot) pushed =
    (if answer = Reset_Busy \<and> list_ex EndsOperation pushed then [request] else [])"
  by (rule reset_slot.busy_handed_out_once)

end
