(* ===== verification/Wire.thy ===== *)
theory Wire
  imports ProvideLifecycle "HOL-Library.Countable"
begin

text \<open>
  The messages of the control pipe, \<^verbatim>\<open>Common/Protocol.h\<close>: every request and the reply with its JSON
  encoder and decoder, the identity a request stands for, and what a reader makes of fields a peer does
  not send. The JSON library is not part of the sources: its values and the operations the codecs use are
  an argument, \<open>js\<close>, with its documented behaviour as the named hypothesis \<open>json_laws\<close>. A decoder that
  throws is \<open>Inl\<close> of what the exception says.
\<close>

section \<open>The JSON library\<close>

record 'j Json =
  jsNull :: "'j \<Rightarrow> bool"
  jsIsString :: "'j \<Rightarrow> bool"
  jsIsBool :: "'j \<Rightarrow> bool"
  jsIsInteger :: "'j \<Rightarrow> bool"
  jsIsObject :: "'j \<Rightarrow> bool"
  jsArray :: "'j \<Rightarrow> 'j list option"
  jsGetString :: "'j \<Rightarrow> string + string"
  jsGetBool :: "'j \<Rightarrow> string + bool"
  jsGetInt :: "'j \<Rightarrow> string + int"
  jsGetInt64 :: "'j \<Rightarrow> string + i64"
  jsGetStrings :: "'j \<Rightarrow> string + string list"
  jsFind :: "'j \<Rightarrow> string \<Rightarrow> 'j option"
  jsSet :: "'j \<Rightarrow> string \<Rightarrow> 'j \<Rightarrow> 'j"
  jsParse :: "string \<Rightarrow> 'j option"
  jsDump :: "'j \<Rightarrow> string"
  ofNull :: 'j
  ofString :: "string \<Rightarrow> 'j"
  ofBool :: "bool \<Rightarrow> 'j"
  ofInt :: "int \<Rightarrow> 'j"
  ofArray :: "'j list \<Rightarrow> 'j"
  ofObject :: "(string \<times> 'j) list \<Rightarrow> 'j"

text \<open>
  What the library documents: a value is read back as it was made, an integer when it is in the range of
  the type it is read as, \<^verbatim>\<open>find\<close> on an object made of distinct keys finds each, and assigning a member
  leaves the others.
\<close>

definition fits :: "nat \<Rightarrow> int \<Rightarrow> bool" where
  "fits w n \<longleftrightarrow> - (2 ^ (w - 1)) \<le> n \<and> n < 2 ^ (w - 1)"

definition json_laws :: "'j Json \<Rightarrow> bool" where
  "json_laws js \<longleftrightarrow>
    jsNull js (ofNull js) \<and> \<not> jsIsObject js (ofNull js) \<and> jsArray js (ofNull js) = None \<and>
    (\<forall>s. jsIsString js (ofString js s) \<and> \<not> jsNull js (ofString js s) \<and> jsGetString js (ofString js s) = Inr s) \<and>
    (\<forall>b. jsIsBool js (ofBool js b) \<and> \<not> jsNull js (ofBool js b) \<and> jsGetBool js (ofBool js b) = Inr b) \<and>
    (\<forall>n. jsIsInteger js (ofInt js n) \<and> \<not> jsNull js (ofInt js n) \<and> (fits 32 n \<longrightarrow> jsGetInt js (ofInt js n) = Inr n) \<and>
      (fits 64 n \<longrightarrow> jsGetInt64 js (ofInt js n) = Inr n)) \<and>
    (\<forall>xs. \<not> jsNull js (ofArray js xs) \<and> jsArray js (ofArray js xs) = Some xs) \<and>
    (\<forall>ss. jsGetStrings js (ofArray js (map (ofString js) ss)) = Inr ss) \<and>
    (\<forall>ms. distinct (map fst ms) \<longrightarrow> jsIsObject js (ofObject js ms) \<and> jsFind js (ofObject js ms) = map_of ms) \<and>
    (\<forall>j k x. jsIsObject js j \<longrightarrow> jsIsObject js (jsSet js j k x) \<and> jsFind js (jsSet js j k x) = (jsFind js j)(k \<mapsto> x)) \<and>
    (\<forall>j. jsIsObject js j \<longrightarrow> \<not> jsNull js j)"

text \<open>The \<^verbatim>\<open>get\<close> of every decoder: a member that is absent or null leaves the default.\<close>

definition get_field ::
  "'j Json \<Rightarrow> 'j \<Rightarrow> string \<Rightarrow> ('j \<Rightarrow> string + 'a) \<Rightarrow> (('a \<Rightarrow> 'a) \<Rightarrow> 'v \<Rightarrow> 'v) \<Rightarrow> 'v \<Rightarrow> string + 'v" where
  "get_field js j k get put v =
    (case jsFind js j k of
       None \<Rightarrow> Inr v
     | Some x \<Rightarrow> if jsNull js x then Inr v else (case get x of Inl e \<Rightarrow> Inl e | Inr y \<Rightarrow> Inr (put (\<lambda>_. y) v)))"

fun read_all :: "('v \<Rightarrow> string + 'v) list \<Rightarrow> 'v \<Rightarrow> string + 'v" where
  "read_all [] v = Inr v"
| "read_all (f # fs) v = (case f v of Inl e \<Rightarrow> Inl e | Inr v' \<Rightarrow> read_all fs v')"

fun set_all :: "'j Json \<Rightarrow> (string \<times> 'j) list \<Rightarrow> 'j \<Rightarrow> 'j" where
  "set_all js [] j = j"
| "set_all js ((k, x) # ms) j = set_all js ms (jsSet js j k x)"

section \<open>The messages\<close>

definition kProtocolVersion :: int where "kProtocolVersion = 4"
definition kFirstStartModeVersion :: int where "kFirstStartModeVersion = 2"
definition kFirstRpcSessionIdentityVersion :: int where "kFirstRpcSessionIdentityVersion = 3"
definition kFirstDeferredCaptureVersion :: int where "kFirstDeferredCaptureVersion = 4"

text \<open>\<^verbatim>\<open>start_tunnel\<close>. A mode that is a string but no known mode is refused.\<close>

record StartTunnelMessage =
  smByJwt :: string
  smSpaceJson :: string
  smInstanceId :: string
  smDescription :: string
  smSpec :: string
  smVersion :: string
  smServerPem :: string
  smClientCertPem :: string
  smHostPort :: string
  smSessionId :: string
  smExcluded :: "string list"
  smAllowlist :: bool
  smMode :: StartMode
  smKillSwitch :: bool
  smCountryCode :: string
  smCountrySource :: string
  smSystemProxy :: string

definition NewStartTunnel :: StartTunnelMessage where
  "NewStartTunnel = \<lparr>
    smByJwt = '''', smSpaceJson = '''', smInstanceId = '''', smDescription = '''', smSpec = '''',
    smVersion = '''', smServerPem = '''', smClientCertPem = '''', smHostPort = '''', smSessionId = '''',
    smExcluded = [], smAllowlist = False, smMode = Mode_Tunnel, smKillSwitch = False, smCountryCode = '''',
    smCountrySource = '''', smSystemProxy = ''''\<rparr>"

definition start_tunnel_to_json :: "'j Json \<Rightarrow> StartTunnelMessage \<Rightarrow> 'j" where
  "start_tunnel_to_json js v = ofObject js [
    (''by_jwt'', ofString js (smByJwt v)), (''network_space_json'', ofString js (smSpaceJson v)),
    (''instance_id'', ofString js (smInstanceId v)), (''device_description'', ofString js (smDescription v)),
    (''device_spec'', ofString js (smSpec v)), (''app_version'', ofString js (smVersion v)),
    (''rpc_server_pem'', ofString js (smServerPem v)),
    (''rpc_client_cert_pem'', ofString js (smClientCertPem v)),
    (''rpc_listen_hostport'', ofString js (smHostPort v)), (''rpc_session_id'', ofString js (smSessionId v)),
    (''excluded_app_paths'', ofArray js (map (ofString js) (smExcluded v))),
    (''allowlist_mode'', ofBool js (smAllowlist v)), (''mode'', ofString js (StartModeToString (smMode v))),
    (''kill_switch'', ofBool js (smKillSwitch v)), (''network_country_code'', ofString js (smCountryCode v)),
    (''network_country_source'', ofString js (smCountrySource v)),
    (''system_proxy'', ofString js (smSystemProxy v))]"

definition read_start_mode :: "'j Json \<Rightarrow> 'j \<Rightarrow> StartTunnelMessage \<Rightarrow> string + StartTunnelMessage" where
  "read_start_mode js j v =
    (case jsFind js j ''mode'' of
       None \<Rightarrow> Inr v
     | Some x \<Rightarrow>
         if \<not> jsIsString js x then Inr v
         else (case jsGetString js x of
                 Inl e \<Rightarrow> Inl e
               | Inr raw \<Rightarrow>
                   (case StartModeFromString raw of
                      None \<Rightarrow> Inl (''unknown start mode: '' @ raw)
                    | Some mode \<Rightarrow> Inr (v\<lparr>smMode := mode\<rparr>))))"

definition start_tunnel_from_json :: "'j Json \<Rightarrow> 'j \<Rightarrow> string + StartTunnelMessage" where
  "start_tunnel_from_json js j = read_all [
    read_start_mode js j, get_field js j ''by_jwt'' (jsGetString js) smByJwt_update,
    get_field js j ''network_space_json'' (jsGetString js) smSpaceJson_update,
    get_field js j ''instance_id'' (jsGetString js) smInstanceId_update,
    get_field js j ''device_description'' (jsGetString js) smDescription_update,
    get_field js j ''device_spec'' (jsGetString js) smSpec_update,
    get_field js j ''app_version'' (jsGetString js) smVersion_update,
    get_field js j ''rpc_server_pem'' (jsGetString js) smServerPem_update,
    get_field js j ''rpc_client_cert_pem'' (jsGetString js) smClientCertPem_update,
    get_field js j ''rpc_listen_hostport'' (jsGetString js) smHostPort_update,
    get_field js j ''rpc_session_id'' (jsGetString js) smSessionId_update,
    get_field js j ''excluded_app_paths'' (jsGetStrings js) smExcluded_update,
    get_field js j ''allowlist_mode'' (jsGetBool js) smAllowlist_update,
    get_field js j ''kill_switch'' (jsGetBool js) smKillSwitch_update,
    get_field js j ''network_country_code'' (jsGetString js) smCountryCode_update,
    get_field js j ''network_country_source'' (jsGetString js) smCountrySource_update,
    get_field js j ''system_proxy'' (jsGetString js) smSystemProxy_update]
    NewStartTunnel"

record SetSplitTunnelMessage =
  ssExcluded :: "string list"
  ssAllowlist :: bool

definition NewSetSplitTunnel :: SetSplitTunnelMessage where
  "NewSetSplitTunnel = \<lparr>
    ssExcluded = [], ssAllowlist = False\<rparr>"

definition set_split_tunnel_to_json :: "'j Json \<Rightarrow> SetSplitTunnelMessage \<Rightarrow> 'j" where
  "set_split_tunnel_to_json js v = ofObject js [
    (''excluded_app_paths'', ofArray js (map (ofString js) (ssExcluded v))),
    (''allowlist_mode'', ofBool js (ssAllowlist v))]"

definition set_split_tunnel_from_json :: "'j Json \<Rightarrow> 'j \<Rightarrow> string + SetSplitTunnelMessage" where
  "set_split_tunnel_from_json js j = read_all [
    get_field js j ''excluded_app_paths'' (jsGetStrings js) ssExcluded_update,
    get_field js j ''allowlist_mode'' (jsGetBool js) ssAllowlist_update]
    NewSetSplitTunnel"

text \<open>\<^verbatim>\<open>logout\<close> and \<^verbatim>\<open>set_kill_switch\<close> carry one value.\<close>

definition logout_to_json :: "'j Json \<Rightarrow> string \<Rightarrow> 'j" where
  "logout_to_json js space = ofObject js [(''network_space_json'', ofString js space)]"

definition logout_from_json :: "'j Json \<Rightarrow> 'j \<Rightarrow> string + string" where
  "logout_from_json js j =
    (case jsFind js j ''network_space_json'' of
       None \<Rightarrow> Inr ''''
     | Some x \<Rightarrow> if jsIsString js x then jsGetString js x else Inr '''')"

definition set_kill_switch_to_json :: "'j Json \<Rightarrow> bool \<Rightarrow> 'j" where
  "set_kill_switch_to_json js on = ofObject js [(''on'', ofBool js on)]"

definition set_kill_switch_from_json :: "'j Json \<Rightarrow> 'j \<Rightarrow> string + bool" where
  "set_kill_switch_from_json js j = get_field js j ''on'' (jsGetBool js) (\<lambda>f. f) False"

record StartProviderMessage =
  pmByJwt :: string
  pmSpaceJson :: string
  pmInstanceId :: string
  pmDescription :: string
  pmSpec :: string
  pmVersion :: string
  pmProvideMode :: string
  pmTransport :: string
  pmCountryCode :: string
  pmCountrySource :: string

definition NewStartProvider :: StartProviderMessage where
  "NewStartProvider = \<lparr>
    pmByJwt = '''', pmSpaceJson = '''', pmInstanceId = '''', pmDescription = '''', pmSpec = '''',
    pmVersion = '''', pmProvideMode = '''', pmTransport = '''', pmCountryCode = '''', pmCountrySource = ''''\<rparr>"

definition start_provider_to_json :: "'j Json \<Rightarrow> StartProviderMessage \<Rightarrow> 'j" where
  "start_provider_to_json js v = ofObject js [
    (''by_jwt'', ofString js (pmByJwt v)), (''network_space_json'', ofString js (pmSpaceJson v)),
    (''instance_id'', ofString js (pmInstanceId v)), (''device_description'', ofString js (pmDescription v)),
    (''device_spec'', ofString js (pmSpec v)), (''app_version'', ofString js (pmVersion v)),
    (''provide_mode'', ofString js (pmProvideMode v)),
    (''provider_transport_settings_json'', ofString js (pmTransport v)),
    (''network_country_code'', ofString js (pmCountryCode v)),
    (''network_country_source'', ofString js (pmCountrySource v))]"

definition start_provider_from_json :: "'j Json \<Rightarrow> 'j \<Rightarrow> string + StartProviderMessage" where
  "start_provider_from_json js j = read_all [
    get_field js j ''by_jwt'' (jsGetString js) pmByJwt_update,
    get_field js j ''network_space_json'' (jsGetString js) pmSpaceJson_update,
    get_field js j ''instance_id'' (jsGetString js) pmInstanceId_update,
    get_field js j ''device_description'' (jsGetString js) pmDescription_update,
    get_field js j ''device_spec'' (jsGetString js) pmSpec_update,
    get_field js j ''app_version'' (jsGetString js) pmVersion_update,
    get_field js j ''provide_mode'' (jsGetString js) pmProvideMode_update,
    get_field js j ''provider_transport_settings_json'' (jsGetString js) pmTransport_update,
    get_field js j ''network_country_code'' (jsGetString js) pmCountryCode_update,
    get_field js j ''network_country_source'' (jsGetString js) pmCountrySource_update]
    NewStartProvider"

record SetNetworkCountryMessage =
  ncCode :: string
  ncSource :: string

definition NewSetNetworkCountry :: SetNetworkCountryMessage where
  "NewSetNetworkCountry = \<lparr>
    ncCode = '''', ncSource = ''''\<rparr>"

definition set_network_country_to_json :: "'j Json \<Rightarrow> SetNetworkCountryMessage \<Rightarrow> 'j" where
  "set_network_country_to_json js v = ofObject js [
    (''network_country_code'', ofString js (ncCode v)), (''network_country_source'', ofString js (ncSource v))]"

definition set_network_country_from_json :: "'j Json \<Rightarrow> 'j \<Rightarrow> string + SetNetworkCountryMessage" where
  "set_network_country_from_json js j = read_all [
    get_field js j ''network_country_code'' (jsGetString js) ncCode_update,
    get_field js j ''network_country_source'' (jsGetString js) ncSource_update]
    NewSetNetworkCountry"

record UploadLogsMessage =
  ulFeedbackId :: string
  ulByJwt :: string
  ulSpaceJson :: string
  ulInstanceId :: string
  ulDescription :: string
  ulSpec :: string
  ulVersion :: string
  ulAppLogDir :: string

definition NewUploadLogs :: UploadLogsMessage where
  "NewUploadLogs = \<lparr>
    ulFeedbackId = '''', ulByJwt = '''', ulSpaceJson = '''', ulInstanceId = '''', ulDescription = '''',
    ulSpec = '''', ulVersion = '''', ulAppLogDir = ''''\<rparr>"

definition upload_logs_to_json :: "'j Json \<Rightarrow> UploadLogsMessage \<Rightarrow> 'j" where
  "upload_logs_to_json js v = set_all js (if ulAppLogDir v \<noteq> '''' then [(''app_log_dir'', ofString js (ulAppLogDir v))] else [])
    (ofObject js [
    (''feedback_id'', ofString js (ulFeedbackId v)), (''by_jwt'', ofString js (ulByJwt v)),
    (''network_space_json'', ofString js (ulSpaceJson v)), (''instance_id'', ofString js (ulInstanceId v)),
    (''device_description'', ofString js (ulDescription v)), (''device_spec'', ofString js (ulSpec v)),
    (''app_version'', ofString js (ulVersion v))])"

definition upload_logs_from_json :: "'j Json \<Rightarrow> 'j \<Rightarrow> string + UploadLogsMessage" where
  "upload_logs_from_json js j = read_all [
    get_field js j ''feedback_id'' (jsGetString js) ulFeedbackId_update,
    get_field js j ''by_jwt'' (jsGetString js) ulByJwt_update,
    get_field js j ''network_space_json'' (jsGetString js) ulSpaceJson_update,
    get_field js j ''instance_id'' (jsGetString js) ulInstanceId_update,
    get_field js j ''device_description'' (jsGetString js) ulDescription_update,
    get_field js j ''device_spec'' (jsGetString js) ulSpec_update,
    get_field js j ''app_version'' (jsGetString js) ulVersion_update,
    get_field js j ''app_log_dir'' (jsGetString js) ulAppLogDir_update]
    NewUploadLogs"

text \<open>The server's feedback ids are uuids: the test every request passes before its id becomes part of a url.\<close>

definition is_hex :: "char \<Rightarrow> bool" where
  "is_hex c \<longleftrightarrow> 48 \<le> code_of c \<and> code_of c \<le> 57 \<or> 97 \<le> code_of c \<and> code_of c \<le> 102 \<or> 65 \<le> code_of c \<and> code_of c \<le> 70"

fun uuid_chars :: "nat \<Rightarrow> string \<Rightarrow> bool" where
  "uuid_chars i [] = True"
| "uuid_chars i (c # cs) =
    (if i = 8 \<or> i = 13 \<or> i = 18 \<or> i = 23 then (if c \<noteq> CHR ''-'' then False else uuid_chars (Suc i) cs)
     else if \<not> is_hex c then False else uuid_chars (Suc i) cs)"

definition LooksLikeFeedbackId :: "string \<Rightarrow> bool" where
  "LooksLikeFeedbackId text1 \<longleftrightarrow> (if length text1 \<noteq> 36 then False else uuid_chars 0 text1)"

text \<open>The switches that must carry their value.\<close>

definition required_bool :: "'j Json \<Rightarrow> string \<Rightarrow> string \<Rightarrow> 'j \<Rightarrow> string + bool" where
  "required_bool js verb k j =
    (case jsFind js j k of
       None \<Rightarrow> Inl (verb @ '' requires '' @ k @ '' (a boolean)'')
     | Some x \<Rightarrow> if \<not> jsIsBool js x then Inl (verb @ '' requires '' @ k @ '' (a boolean)'') else jsGetBool js x)"

definition set_provide_extender_to_json :: "'j Json \<Rightarrow> bool \<Rightarrow> 'j" where
  "set_provide_extender_to_json js on = ofObject js [(''provide_extender'', ofBool js on)]"

definition set_provide_extender_from_json :: "'j Json \<Rightarrow> 'j \<Rightarrow> string + bool" where
  "set_provide_extender_from_json js = required_bool js ''set_provide_extender'' ''provide_extender''"

definition set_measurements_enabled_to_json :: "'j Json \<Rightarrow> bool \<Rightarrow> 'j" where
  "set_measurements_enabled_to_json js on = ofObject js [(''measurements_enabled'', ofBool js on)]"

definition set_measurements_enabled_from_json :: "'j Json \<Rightarrow> 'j \<Rightarrow> string + bool" where
  "set_measurements_enabled_from_json js = required_bool js ''set_measurements_enabled'' ''measurements_enabled''"

text \<open>\<^verbatim>\<open>reset_extenders\<close>: every field is required and not empty.\<close>

record ResetExtendersMessage =
  reHostName :: string
  reEnvName :: string
  reResetId :: string

definition reset_extenders_to_json :: "'j Json \<Rightarrow> ResetExtendersMessage \<Rightarrow> 'j" where
  "reset_extenders_to_json js v = ofObject js [
    (''host_name'', ofString js (reHostName v)), (''env_name'', ofString js (reEnvName v)),
    (''extender_reset_id'', ofString js (reResetId v))]"

definition required_key ::
  "'j Json \<Rightarrow> string \<Rightarrow> 'j \<Rightarrow> string \<Rightarrow> ((string \<Rightarrow> string) \<Rightarrow> 'v \<Rightarrow> 'v) \<Rightarrow> 'v \<Rightarrow> string + 'v" where
  "required_key js verb j k put v =
    (let refused = Inl (verb @ '' requires '' @ k @ '' (a non-empty string)'') in
     case jsFind js j k of
       None \<Rightarrow> refused
     | Some x \<Rightarrow>
         if \<not> jsIsString js x then refused
         else (case jsGetString js x of
                 Inl e \<Rightarrow> Inl e
               | Inr s \<Rightarrow> if s = '''' then refused else Inr (put (\<lambda>_. s) v)))"

definition reset_extenders_from_json :: "'j Json \<Rightarrow> 'j \<Rightarrow> string + ResetExtendersMessage" where
  "reset_extenders_from_json js j = read_all [
    required_key js ''reset_extenders'' j ''host_name'' reHostName_update,
    required_key js ''reset_extenders'' j ''env_name'' reEnvName_update,
    required_key js ''reset_extenders'' j ''extender_reset_id'' reResetId_update]
    \<lparr>reHostName = '''', reEnvName = '''', reResetId = ''''\<rparr>"

text \<open>The key of a network space as the SDK hands it over, with fields that may be missing.\<close>

record SpaceKey =
  skHostName :: "string option"
  skEnvName :: "string option"

definition ResetExtendersRequestFor :: "SpaceKey option \<Rightarrow> string \<Rightarrow> ResetExtendersMessage option" where
  "ResetExtendersRequestFor key resetId =
    (case key of
       None \<Rightarrow> None
     | Some k \<Rightarrow>
         (case (skHostName k, skEnvName k) of
            (Some host, Some env) \<Rightarrow>
              if host = '''' \<or> env = '''' \<or> resetId = '''' then None
              else Some \<lparr>reHostName = host, reEnvName = env, reResetId = resetId\<rparr>
          | _ \<Rightarrow> None))"

definition ResetSpaceKeyOf :: "ResetExtendersMessage \<Rightarrow> SpaceKey" where
  "ResetSpaceKeyOf request = \<lparr>skHostName = Some (reHostName request), skEnvName = Some (reEnvName request)\<rparr>"

text \<open>\<^verbatim>\<open>set_ingress_dns\<close>: an empty region and no servers are values, their absence is refused.\<close>

record SetIngressDnsMessage =
  idHostName :: string
  idEnvName :: string
  idCountryCode :: string
  idDohUrls :: "string list"

definition set_ingress_dns_to_json :: "'j Json \<Rightarrow> SetIngressDnsMessage \<Rightarrow> 'j" where
  "set_ingress_dns_to_json js v = ofObject js [
    (''host_name'', ofString js (idHostName v)), (''env_name'', ofString js (idEnvName v)),
    (''ingress_country_code'', ofString js (idCountryCode v)),
    (''control_doh_urls'', ofArray js (map (ofString js) (idDohUrls v)))]"

definition read_region :: "'j Json \<Rightarrow> 'j \<Rightarrow> SetIngressDnsMessage \<Rightarrow> string + SetIngressDnsMessage" where
  "read_region js j v =
    (case jsFind js j ''ingress_country_code'' of
       None \<Rightarrow> Inl ''set_ingress_dns requires ingress_country_code (a string)''
     | Some x \<Rightarrow>
         if \<not> jsIsString js x then Inl ''set_ingress_dns requires ingress_country_code (a string)''
         else (case jsGetString js x of Inl e \<Rightarrow> Inl e | Inr s \<Rightarrow> Inr (v\<lparr>idCountryCode := s\<rparr>)))"

definition urls_refused :: string where
  "urls_refused = ''set_ingress_dns requires control_doh_urls (an array of strings)''"

fun read_urls :: "'j Json \<Rightarrow> 'j list \<Rightarrow> string list \<Rightarrow> string + string list" where
  "read_urls js [] urls = Inr urls"
| "read_urls js (x # xs) urls =
    (if \<not> jsIsString js x then Inl urls_refused
     else case jsGetString js x of Inl e \<Rightarrow> Inl e | Inr url \<Rightarrow> read_urls js xs (urls @ [url]))"

definition read_doh_urls :: "'j Json \<Rightarrow> 'j \<Rightarrow> SetIngressDnsMessage \<Rightarrow> string + SetIngressDnsMessage" where
  "read_doh_urls js j v =
    (case jsFind js j ''control_doh_urls'' of
       None \<Rightarrow> Inl urls_refused
     | Some x \<Rightarrow>
         (case jsArray js x of
            None \<Rightarrow> Inl urls_refused
          | Some xs \<Rightarrow> (case read_urls js xs [] of Inl e \<Rightarrow> Inl e | Inr urls \<Rightarrow> Inr (v\<lparr>idDohUrls := urls\<rparr>))))"

definition set_ingress_dns_from_json :: "'j Json \<Rightarrow> 'j \<Rightarrow> string + SetIngressDnsMessage" where
  "set_ingress_dns_from_json js j = read_all [
    required_key js ''set_ingress_dns'' j ''host_name'' idHostName_update,
    required_key js ''set_ingress_dns'' j ''env_name'' idEnvName_update,
    read_region js j, read_doh_urls js j]
    \<lparr>idHostName = '''', idEnvName = '''', idCountryCode = '''', idDohUrls = []\<rparr>"

definition SetIngressDnsRequestFor :: "SpaceKey option \<Rightarrow> string \<Rightarrow> string list \<Rightarrow> SetIngressDnsMessage option" where
  "SetIngressDnsRequestFor key ingressCountryCode controlDohUrls =
    (case key of
       None \<Rightarrow> None
     | Some k \<Rightarrow>
         (case (skHostName k, skEnvName k) of
            (Some host, Some env) \<Rightarrow>
              if host = '''' \<or> env = '''' then None
              else Some \<lparr>idHostName = host, idEnvName = env, idCountryCode = ingressCountryCode, idDohUrls = controlDohUrls\<rparr>
          | _ \<Rightarrow> None))"

definition IngressSpaceKeyOf :: "SetIngressDnsMessage \<Rightarrow> SpaceKey" where
  "IngressSpaceKeyOf request = \<lparr>skHostName = Some (idHostName request), skEnvName = Some (idEnvName request)\<rparr>"

section \<open>The identity behind a token\<close>

definition base64_value :: "char \<Rightarrow> u32 option" where
  "base64_value c =
    (if 65 \<le> code_of c \<and> code_of c \<le> 90 then Some (of_nat (code_of c - 65))
     else if 97 \<le> code_of c \<and> code_of c \<le> 122 then Some (of_nat (code_of c - 97 + 26))
     else if 48 \<le> code_of c \<and> code_of c \<le> 57 then Some (of_nat (code_of c - 48 + 52))
     else if c = CHR ''-'' then Some 62
     else if c = CHR ''_'' then Some 63
     else None)"

fun decode_loop :: "string \<Rightarrow> u32 \<Rightarrow> nat \<Rightarrow> string \<Rightarrow> string option" where
  "decode_loop [] buffer bits out = Some out"
| "decode_loop (c # cs) buffer bits out =
    (case base64_value c of
       None \<Rightarrow> if c = CHR ''='' then Some out else None
     | Some v \<Rightarrow>
         let buffer1 = or (push_bit 6 buffer) v; bits1 = bits + 6
         in if 8 \<le> bits1
            then decode_loop cs buffer1 (bits1 - 8) (out @ [char_of (unat (and (drop_bit (bits1 - 8) buffer1) 0xFF))])
            else decode_loop cs buffer1 bits1 out)"

definition DecodeBase64Url :: "string \<Rightarrow> string option" where
  "DecodeBase64Url text1 = decode_loop text1 0 0 []"

text \<open>The text between the first two dots of a token.\<close>

definition jwt_payload :: "string \<Rightarrow> string option" where
  "jwt_payload jwt =
    (case dropWhile (\<lambda>c. c \<noteq> CHR ''.'') jwt of
       [] \<Rightarrow> None
     | _ # rest \<Rightarrow> if CHR ''.'' \<in> set rest then Some (takeWhile (\<lambda>c. c \<noteq> CHR ''.'') rest) else None)"

definition claims_subject :: "'j Json \<Rightarrow> string \<Rightarrow> 'j \<Rightarrow> string" where
  "claims_subject js jwt claims =
    (if \<not> jsIsObject js claims then jwt
     else case jsFind js claims ''client_id'' of
       None \<Rightarrow> jwt
     | Some client \<Rightarrow>
         if \<not> jsIsString js client then jwt
         else case jsGetString js client of
           Inl _ \<Rightarrow> jwt
         | Inr clientId \<Rightarrow>
             if clientId = '''' then jwt
             else let networkId = (case jsFind js claims ''network_id'' of
                        Some n \<Rightarrow> if jsIsString js n then (case jsGetString js n of Inr s \<Rightarrow> s | Inl _ \<Rightarrow> '''') else ''''
                      | None \<Rightarrow> '''')
                  in ''client:'' @ networkId @ ''/'' @ clientId)"

definition JwtSubject :: "'j Json \<Rightarrow> string \<Rightarrow> string" where
  "JwtSubject js jwt =
    (case jwt_payload jwt of
       None \<Rightarrow> jwt
     | Some body \<Rightarrow>
         (case DecodeBase64Url body of
            None \<Rightarrow> jwt
          | Some payload \<Rightarrow> (case jsParse js payload of None \<Rightarrow> jwt | Some claims \<Rightarrow> claims_subject js jwt claims)))"

definition ProviderIdentityOf :: "'j Json \<Rightarrow> StartProviderMessage \<Rightarrow> DeviceIdentity" where
  "ProviderIdentityOf js r = \<lparr>jwtSubject = JwtSubject js (pmByJwt r), networkSpaceJson = pmSpaceJson r,
    instanceId = pmInstanceId r, deviceDescription = pmDescription r, deviceSpec = pmSpec r, appVersion = pmVersion r\<rparr>"

definition TunnelIdentityOf :: "'j Json \<Rightarrow> StartTunnelMessage \<Rightarrow> DeviceIdentity" where
  "TunnelIdentityOf js r = \<lparr>jwtSubject = JwtSubject js (smByJwt r), networkSpaceJson = smSpaceJson r,
    instanceId = smInstanceId r, deviceDescription = smDescription r, deviceSpec = smSpec r, appVersion = smVersion r\<rparr>"

definition SameProviderDevice :: "'j Json \<Rightarrow> StartProviderMessage \<Rightarrow> StartProviderMessage \<Rightarrow> bool" where
  "SameProviderDevice js a b = SameIdentity (ProviderIdentityOf js a) (ProviderIdentityOf js b)"

section \<open>The status and the reply\<close>

record TunnelStatusMessage =
  msState :: TunnelState
  msHostPort :: string
  msInstanceId :: string
  msSessionId :: string
  msError :: string
  msServiceVersion :: string
  msProtocolVersion :: int
  msUpMillis :: i64
  msMode :: StartMode
  msRoutes :: bool
  msDns :: bool
  msWfp :: string
  msEgress4 :: i64
  msEgress6 :: i64
  msStopReason :: string
  msFailsafeArmed :: bool
  msProviderRunning :: bool
  msProviderControlMode :: string
  msProviderMode :: i64
  msProviderKey :: bool
  msUploadId :: i64
  msUploadState :: string
  msUploadCarrier :: string

definition NewTunnelStatus :: TunnelStatusMessage where
  "NewTunnelStatus = \<lparr>
    msState = Stopped, msHostPort = '''', msInstanceId = '''', msSessionId = '''', msError = '''',
    msServiceVersion = '''', msProtocolVersion = 0, msUpMillis = 0, msMode = Mode_Tunnel, msRoutes = False,
    msDns = False, msWfp = ''off'', msEgress4 = 0, msEgress6 = 0, msStopReason = '''', msFailsafeArmed = False,
    msProviderRunning = False, msProviderControlMode = '''', msProviderMode = 0, msProviderKey = False,
    msUploadId = 0, msUploadState = '''', msUploadCarrier = ''''\<rparr>"

definition tunnel_status_to_json :: "'j Json \<Rightarrow> TunnelStatusMessage \<Rightarrow> 'j" where
  "tunnel_status_to_json js v = ofObject js [
    (''state'', ofString js (TunnelStateToString (msState v))),
    (''rpc_listen_hostport'', ofString js (msHostPort v)), (''instance_id'', ofString js (msInstanceId v)),
    (''rpc_session_id'', ofString js (msSessionId v)), (''error'', ofString js (msError v)),
    (''service_version'', ofString js (msServiceVersion v)),
    (''protocol_version'', ofInt js (msProtocolVersion v)),
    (''tunnel_local_up_millis'', ofInt js (msUpMillis v)),
    (''mode'', ofString js (StartModeToString (msMode v))), (''routes_installed'', ofBool js (msRoutes v)),
    (''dns_applied'', ofBool js (msDns v)), (''wfp_state'', ofString js (msWfp v)),
    (''egress_index4'', ofInt js (msEgress4 v)), (''egress_index6'', ofInt js (msEgress6 v)),
    (''stop_reason'', ofString js (msStopReason v)), (''failsafe_armed'', ofBool js (msFailsafeArmed v)),
    (''provider_running'', ofBool js (msProviderRunning v)),
    (''provider_control_mode'', ofString js (msProviderControlMode v)),
    (''provider_mode'', ofInt js (msProviderMode v)), (''provider_network_key'', ofBool js (msProviderKey v)),
    (''log_upload_id'', ofInt js (msUploadId v)), (''log_upload_state'', ofString js (msUploadState v)),
    (''log_upload_carrier'', ofString js (msUploadCarrier v))]"

definition read_state :: "'j Json \<Rightarrow> 'j \<Rightarrow> TunnelStatusMessage \<Rightarrow> string + TunnelStatusMessage" where
  "read_state js j v =
    (case jsFind js j ''state'' of
       None \<Rightarrow> Inr v
     | Some x \<Rightarrow>
         if \<not> jsIsString js x then Inr v
         else (case jsGetString js x of Inl e \<Rightarrow> Inl e | Inr s \<Rightarrow> Inr (v\<lparr>msState := TunnelStateFromString s\<rparr>)))"

definition read_status_mode :: "'j Json \<Rightarrow> 'j \<Rightarrow> TunnelStatusMessage \<Rightarrow> string + TunnelStatusMessage" where
  "read_status_mode js j v =
    (case jsFind js j ''mode'' of
       None \<Rightarrow> Inr v
     | Some x \<Rightarrow>
         if \<not> jsIsString js x then Inr v
         else (case jsGetString js x of
                 Inl e \<Rightarrow> Inl e
               | Inr s \<Rightarrow> Inr (v\<lparr>msMode := (case StartModeFromString s of Some m \<Rightarrow> m | None \<Rightarrow> Mode_RpcOnly)\<rparr>)))"

definition tunnel_status_from_json :: "'j Json \<Rightarrow> 'j \<Rightarrow> string + TunnelStatusMessage" where
  "tunnel_status_from_json js j = read_all [
    read_state js j, read_status_mode js j,
    get_field js j ''rpc_listen_hostport'' (jsGetString js) msHostPort_update,
    get_field js j ''instance_id'' (jsGetString js) msInstanceId_update,
    get_field js j ''rpc_session_id'' (jsGetString js) msSessionId_update,
    get_field js j ''error'' (jsGetString js) msError_update,
    get_field js j ''service_version'' (jsGetString js) msServiceVersion_update,
    get_field js j ''protocol_version'' (jsGetInt js) msProtocolVersion_update,
    get_field js j ''tunnel_local_up_millis'' (jsGetInt64 js) msUpMillis_update,
    get_field js j ''routes_installed'' (jsGetBool js) msRoutes_update,
    get_field js j ''dns_applied'' (jsGetBool js) msDns_update,
    get_field js j ''wfp_state'' (jsGetString js) msWfp_update,
    get_field js j ''egress_index4'' (jsGetInt64 js) msEgress4_update,
    get_field js j ''egress_index6'' (jsGetInt64 js) msEgress6_update,
    get_field js j ''stop_reason'' (jsGetString js) msStopReason_update,
    get_field js j ''failsafe_armed'' (jsGetBool js) msFailsafeArmed_update,
    get_field js j ''provider_running'' (jsGetBool js) msProviderRunning_update,
    get_field js j ''provider_control_mode'' (jsGetString js) msProviderControlMode_update,
    get_field js j ''provider_mode'' (jsGetInt64 js) msProviderMode_update,
    get_field js j ''provider_network_key'' (jsGetBool js) msProviderKey_update,
    get_field js j ''log_upload_id'' (jsGetInt64 js) msUploadId_update,
    get_field js j ''log_upload_state'' (jsGetString js) msUploadState_update,
    get_field js j ''log_upload_carrier'' (jsGetString js) msUploadCarrier_update]
    NewTunnelStatus"

text \<open>The statistics of the provider-only device: four of them travel as JSON values of the SDK's own.\<close>

record 'j ProviderStatsMessage =
  psAvailable :: bool
  psClientId :: string
  psClientCount :: i64
  psNetworkPeers :: 'j
  psWindowSeconds :: i64
  psHasStats :: bool
  psPoints :: 'j
  psDistribution :: 'j
  psExtenderPoints :: 'j
  psExtenderStatus :: 'j
  psProvideExtender :: bool
  psProvideExtenderWritable :: bool
  psMeasurements :: bool
  psMeasurementsWritable :: bool

definition NewProviderStats :: "'j Json \<Rightarrow> 'j ProviderStatsMessage" where
  "NewProviderStats js = \<lparr>psAvailable = False, psClientId = '''', psClientCount = 0, psNetworkPeers = ofNull js,
    psWindowSeconds = 60, psHasStats = False, psPoints = ofArray js [], psDistribution = ofNull js,
    psExtenderPoints = ofArray js [], psExtenderStatus = ofNull js, psProvideExtender = False,
    psProvideExtenderWritable = False, psMeasurements = True, psMeasurementsWritable = False\<rparr>"

definition provider_stats_to_json :: "'j Json \<Rightarrow> 'j ProviderStatsMessage \<Rightarrow> 'j" where
  "provider_stats_to_json js v = ofObject js [
    (''available'', ofBool js (psAvailable v)), (''client_id'', ofString js (psClientId v)),
    (''client_count'', ofInt js (psClientCount v)), (''network_peers'', psNetworkPeers v),
    (''window_seconds'', ofInt js (psWindowSeconds v)), (''has_provider_stats'', ofBool js (psHasStats v)),
    (''provider_points'', psPoints v), (''provider_distribution'', psDistribution v),
    (''extender_points'', psExtenderPoints v), (''extender_provide_status'', psExtenderStatus v),
    (''provide_extender'', ofBool js (psProvideExtender v)),
    (''provide_extender_writable'', ofBool js (psProvideExtenderWritable v)),
    (''measurements_enabled'', ofBool js (psMeasurements v)),
    (''measurements_enabled_writable'', ofBool js (psMeasurementsWritable v))]"

definition take_member :: "'j Json \<Rightarrow> 'j \<Rightarrow> string \<Rightarrow> ('j \<Rightarrow> bool) \<Rightarrow> (('j \<Rightarrow> 'j) \<Rightarrow> 'v \<Rightarrow> 'v) \<Rightarrow> 'v \<Rightarrow> string + 'v" where
  "take_member js j k ok put v =
    (case jsFind js j k of None \<Rightarrow> Inr v | Some x \<Rightarrow> Inr (if ok x then put (\<lambda>_. x) v else v))"

definition is_array :: "'j Json \<Rightarrow> 'j \<Rightarrow> bool" where
  "is_array js x \<longleftrightarrow> jsArray js x \<noteq> None"

definition provider_stats_from_json :: "'j Json \<Rightarrow> 'j \<Rightarrow> string + 'j ProviderStatsMessage" where
  "provider_stats_from_json js j = read_all [
    get_field js j ''available'' (jsGetBool js) psAvailable_update,
    get_field js j ''client_id'' (jsGetString js) psClientId_update,
    get_field js j ''client_count'' (jsGetInt64 js) psClientCount_update,
    get_field js j ''window_seconds'' (jsGetInt64 js) psWindowSeconds_update,
    get_field js j ''has_provider_stats'' (jsGetBool js) psHasStats_update,
    get_field js j ''provide_extender'' (jsGetBool js) psProvideExtender_update,
    get_field js j ''provide_extender_writable'' (jsGetBool js) psProvideExtenderWritable_update,
    get_field js j ''measurements_enabled'' (jsGetBool js) psMeasurements_update,
    get_field js j ''measurements_enabled_writable'' (jsGetBool js) psMeasurementsWritable_update,
    take_member js j ''network_peers'' (is_array js) psNetworkPeers_update,
    take_member js j ''provider_points'' (is_array js) psPoints_update,
    take_member js j ''provider_distribution'' (jsIsObject js) psDistribution_update,
    take_member js j ''extender_points'' (is_array js) psExtenderPoints_update,
    take_member js j ''extender_provide_status'' (jsIsObject js) psExtenderStatus_update]
    (NewProviderStats js)"

text \<open>Reading the SDK's own values back, with the SDK's decoder as an argument: a value of the wrong shape is nothing.\<close>

definition PointsOf :: "'j Json \<Rightarrow> ('j \<Rightarrow> string + 'p list) \<Rightarrow> 'j \<Rightarrow> 'p list" where
  "PointsOf js get points =
    (if \<not> is_array js points then [] else case get points of Inl _ \<Rightarrow> [] | Inr ps \<Rightarrow> ps)"

definition ProviderPointsOf :: "'j Json \<Rightarrow> ('j \<Rightarrow> string + 'p list) \<Rightarrow> 'j ProviderStatsMessage \<Rightarrow> 'p list" where
  "ProviderPointsOf js get stats = PointsOf js get (psPoints stats)"

definition ExtenderPointsOf :: "'j Json \<Rightarrow> ('j \<Rightarrow> string + 'p list) \<Rightarrow> 'j ProviderStatsMessage \<Rightarrow> 'p list" where
  "ExtenderPointsOf js get stats = PointsOf js get (psExtenderPoints stats)"

definition ExtenderProvideStatusOf :: "'j Json \<Rightarrow> ('j \<Rightarrow> string + 's) \<Rightarrow> 'j ProviderStatsMessage \<Rightarrow> 's option" where
  "ExtenderProvideStatusOf js get stats =
    (if \<not> jsIsObject js (psExtenderStatus stats) then None
     else case get (psExtenderStatus stats) of Inl _ \<Rightarrow> None | Inr s \<Rightarrow> Some s)"

definition NetworkPeersOf :: "'j Json \<Rightarrow> ('j \<Rightarrow> string + 'p) \<Rightarrow> 'j ProviderStatsMessage \<Rightarrow> 'p option" where
  "NetworkPeersOf js get stats =
    (if \<not> is_array js (psNetworkPeers stats) then None
     else case get (psNetworkPeers stats) of Inl _ \<Rightarrow> None | Inr p \<Rightarrow> Some p)"

definition ProviderDistributionOf :: "'j Json \<Rightarrow> ('j \<Rightarrow> string + 'd) \<Rightarrow> 'j ProviderStatsMessage \<Rightarrow> 'd option" where
  "ProviderDistributionOf js get stats =
    (if \<not> jsIsObject js (psDistribution stats) then None
     else case get (psDistribution stats) of Inl _ \<Rightarrow> None | Inr d \<Rightarrow> Some d)"

record 'j Reply =
  rpOk :: bool
  rpError :: string
  rpStatus :: "TunnelStatusMessage option"
  rpInReplyTo :: string
  rpProviderStats :: "'j ProviderStatsMessage option"
  rpUploadCarrier :: string
  rpUploadId :: i64
  rpUploadBusy :: bool
  rpReset :: bool
  rpResetBusy :: bool
  rpIngressHeld :: bool
  rpIngressBusy :: bool

definition NewReply :: "'j Reply" where
  "NewReply = \<lparr>rpOk = False, rpError = '''', rpStatus = None, rpInReplyTo = '''', rpProviderStats = None,
    rpUploadCarrier = '''', rpUploadId = 0, rpUploadBusy = False, rpReset = False, rpResetBusy = False,
    rpIngressHeld = False, rpIngressBusy = False\<rparr>"

definition opt_member :: "bool \<Rightarrow> string \<Rightarrow> 'j \<Rightarrow> (string \<times> 'j) list" where
  "opt_member c k x = (if c then [(k, x)] else [])"

definition reply_to_json :: "'j Json \<Rightarrow> 'j Reply \<Rightarrow> 'j" where
  "reply_to_json js v = set_all js
    ((case rpStatus v of None \<Rightarrow> [] | Some s \<Rightarrow> [(''status'', tunnel_status_to_json js s)]) @
     (case rpProviderStats v of None \<Rightarrow> [] | Some s \<Rightarrow> [(''provider_stats'', provider_stats_to_json js s)]) @
     opt_member (rpUploadCarrier v \<noteq> '''') ''log_upload_carrier'' (ofString js (rpUploadCarrier v)) @
     opt_member (rpUploadId v \<noteq> 0) ''log_upload_id'' (ofInt js (rpUploadId v)) @
     opt_member (rpUploadBusy v) ''log_upload_busy'' (ofBool js True) @
     opt_member (rpReset v) ''reset'' (ofBool js True) @
     opt_member (rpResetBusy v) ''reset_busy'' (ofBool js True) @
     opt_member (rpIngressHeld v) ''ingress_dns_held'' (ofBool js True) @
     opt_member (rpIngressBusy v) ''ingress_dns_busy'' (ofBool js True))
    (ofObject js [(''type'', ofString js ''reply''), (''ok'', ofBool js (rpOk v)), (''error'', ofString js (rpError v)),
      (''in_reply_to'', ofString js (rpInReplyTo v))])"

definition read_nested ::
  "'j Json \<Rightarrow> 'j \<Rightarrow> string \<Rightarrow> ('j \<Rightarrow> string + 'a) \<Rightarrow> (('a option \<Rightarrow> 'a option) \<Rightarrow> 'v \<Rightarrow> 'v) \<Rightarrow> 'v \<Rightarrow> string + 'v" where
  "read_nested js j k get put v =
    (case jsFind js j k of
       None \<Rightarrow> Inr v
     | Some x \<Rightarrow>
         if \<not> jsIsObject js x then Inr v
         else (case get x of Inl e \<Rightarrow> Inl e | Inr y \<Rightarrow> Inr (put (\<lambda>_. Some y) v)))"

definition reply_from_json :: "'j Json \<Rightarrow> 'j \<Rightarrow> string + 'j Reply" where
  "reply_from_json js j = read_all [
    get_field js j ''ok'' (jsGetBool js) rpOk_update, get_field js j ''error'' (jsGetString js) rpError_update,
    get_field js j ''in_reply_to'' (jsGetString js) rpInReplyTo_update,
    read_nested js j ''status'' (tunnel_status_from_json js) rpStatus_update,
    read_nested js j ''provider_stats'' (provider_stats_from_json js) rpProviderStats_update,
    get_field js j ''log_upload_carrier'' (jsGetString js) rpUploadCarrier_update,
    get_field js j ''log_upload_id'' (jsGetInt64 js) rpUploadId_update,
    get_field js j ''log_upload_busy'' (jsGetBool js) rpUploadBusy_update,
    get_field js j ''reset'' (jsGetBool js) rpReset_update,
    get_field js j ''reset_busy'' (jsGetBool js) rpResetBusy_update,
    get_field js j ''ingress_dns_held'' (jsGetBool js) rpIngressHeld_update,
    get_field js j ''ingress_dns_busy'' (jsGetBool js) rpIngressBusy_update]
    NewReply"

section \<open>Requests\<close>

definition TypeOf :: "'j Json \<Rightarrow> 'j \<Rightarrow> string" where
  "TypeOf js j =
    (case jsFind js j ''type'' of
       None \<Rightarrow> ''''
     | Some x \<Rightarrow> if jsIsString js x then (case jsGetString js x of Inr s \<Rightarrow> s | Inl _ \<Rightarrow> '''') else '''')"

definition Request :: "'j Json \<Rightarrow> string \<Rightarrow> 'j \<Rightarrow> 'j" where
  "Request js type1 body = jsSet js body ''type'' (ofString js type1)"

named_theorems json_simps "what the JSON library documents, as conditional rewrite rules"

lemma json_read_back [json_simps]:
  assumes "json_laws js"
  shows "jsNull js (ofNull js)" "\<not> jsIsObject js (ofNull js)" "jsArray js (ofNull js) = None"
    "jsIsString js (ofString js s)" "\<not> jsNull js (ofString js s)" "jsGetString js (ofString js s) = Inr s"
    "jsIsBool js (ofBool js b)" "\<not> jsNull js (ofBool js b)" "jsGetBool js (ofBool js b) = Inr b"
    "jsIsInteger js (ofInt js n)" "\<not> jsNull js (ofInt js n)" "fits 32 n \<Longrightarrow> jsGetInt js (ofInt js n) = Inr n"
    "fits 64 n \<Longrightarrow> jsGetInt64 js (ofInt js n) = Inr n" "\<not> jsNull js (ofArray js xs)" "jsArray js (ofArray js xs) = Some xs"
    "jsGetStrings js (ofArray js (map (ofString js) ss)) = Inr ss"
  using assms unfolding json_laws_def by blast+

lemma json_object [json_simps]:
  assumes "json_laws js" and "distinct (map fst ms)"
  shows "jsIsObject js (ofObject js ms)" "jsFind js (ofObject js ms) = map_of ms"
  using assms unfolding json_laws_def by blast+

lemma json_set [json_simps]:
  assumes "json_laws js" and "jsIsObject js j"
  shows "jsIsObject js (jsSet js j k x)" "jsFind js (jsSet js j k x) = (jsFind js j)(k \<mapsto> x)" "\<not> jsNull js j"
  using assms unfolding json_laws_def by blast+

lemma set_all_find:
  assumes "json_laws js" and "jsIsObject js j"
  shows "jsIsObject js (set_all js ms j) \<and> jsFind js (set_all js ms j) = jsFind js j ++ map_of (rev ms)"
  using assms(2)
proof (induction ms arbitrary: j)
  case (Cons m ms)
  obtain k x where m: "m = (k, x)" by fastforce
  show ?case using Cons(1) [of "jsSet js j k x"] Cons(2) assms(1)
    by (simp add: m json_simps fun_upd_def map_add_def fun_eq_iff split: option.split)
qed simp

lemma start_tunnel_roundtrip:
  assumes "json_laws js"
  shows "start_tunnel_from_json js (start_tunnel_to_json js v) = Inr v"
  using assms
  by (cases v) (simp add: start_tunnel_from_json_def start_tunnel_to_json_def NewStartTunnel_def get_field_def
      read_start_mode_def json_simps start_mode_roundtrip)

text \<open>The integers of a message, in the range of their C++ types.\<close>

definition status_fits :: "TunnelStatusMessage \<Rightarrow> bool" where
  "status_fits v \<longleftrightarrow> fits 32 (msProtocolVersion v) \<and> fits 64 (msUpMillis v) \<and> fits 64 (msEgress4 v) \<and>
    fits 64 (msEgress6 v) \<and> fits 64 (msProviderMode v) \<and> fits 64 (msUploadId v)"

lemma tunnel_status_roundtrip:
  assumes "json_laws js" and "status_fits v"
  shows "tunnel_status_from_json js (tunnel_status_to_json js v) = Inr v"
  using assms
  by (cases v) (simp add: tunnel_status_from_json_def tunnel_status_to_json_def NewTunnelStatus_def get_field_def
      read_state_def read_status_mode_def json_simps start_mode_roundtrip tunnel_state_roundtrip status_fits_def)

lemma set_split_tunnel_roundtrip:
  "json_laws js \<Longrightarrow> set_split_tunnel_from_json js (set_split_tunnel_to_json js v) = Inr v"
  by (cases v) (simp add: set_split_tunnel_from_json_def set_split_tunnel_to_json_def NewSetSplitTunnel_def get_field_def
      json_simps)

lemma logout_roundtrip: "json_laws js \<Longrightarrow> logout_from_json js (logout_to_json js s) = Inr s"
  by (simp add: logout_from_json_def logout_to_json_def json_simps)

lemma set_kill_switch_roundtrip: "json_laws js \<Longrightarrow> set_kill_switch_from_json js (set_kill_switch_to_json js on) = Inr on"
  by (simp add: set_kill_switch_from_json_def set_kill_switch_to_json_def get_field_def json_simps)

lemma start_provider_roundtrip:
  "json_laws js \<Longrightarrow> start_provider_from_json js (start_provider_to_json js v) = Inr v"
  by (cases v) (simp add: start_provider_from_json_def start_provider_to_json_def NewStartProvider_def get_field_def
      json_simps)

lemma set_network_country_roundtrip:
  "json_laws js \<Longrightarrow> set_network_country_from_json js (set_network_country_to_json js v) = Inr v"
  by (cases v) (simp add: set_network_country_from_json_def set_network_country_to_json_def NewSetNetworkCountry_def
      get_field_def json_simps)

lemma upload_logs_roundtrip:
  assumes "json_laws js"
  shows "upload_logs_from_json js (upload_logs_to_json js v) = Inr v"
  using assms
  by (cases v) (simp add: upload_logs_from_json_def upload_logs_to_json_def NewUploadLogs_def get_field_def json_simps)

lemma switch_roundtrips:
  assumes "json_laws js"
  shows "set_provide_extender_from_json js (set_provide_extender_to_json js on) = Inr on"
    and "set_measurements_enabled_from_json js (set_measurements_enabled_to_json js on) = Inr on"
  using assms
  by (simp_all add: set_provide_extender_from_json_def set_provide_extender_to_json_def
      set_measurements_enabled_from_json_def set_measurements_enabled_to_json_def required_bool_def json_simps)

lemma reset_extenders_roundtrip:
  assumes "json_laws js" and "reHostName v \<noteq> ''''" "reEnvName v \<noteq> ''''" "reResetId v \<noteq> ''''"
  shows "reset_extenders_from_json js (reset_extenders_to_json js v) = Inr v"
  using assms
  by (cases v) (simp add: reset_extenders_from_json_def reset_extenders_to_json_def required_key_def Let_def json_simps)

lemma read_urls_strings: "json_laws js \<Longrightarrow> read_urls js (map (ofString js) ss) urls = Inr (urls @ ss)"
  by (induction ss arbitrary: urls) (simp_all add: json_simps)

lemma set_ingress_dns_roundtrip:
  assumes "json_laws js" and "idHostName v \<noteq> ''''" "idEnvName v \<noteq> ''''"
  shows "set_ingress_dns_from_json js (set_ingress_dns_to_json js v) = Inr v"
  using assms
  by (cases v) (simp add: set_ingress_dns_from_json_def set_ingress_dns_to_json_def required_key_def Let_def
      read_region_def read_doh_urls_def read_urls_strings json_simps)

text \<open>Statistics whose SDK values have the shape their readers take and whose counts are in range.\<close>

definition stats_shaped :: "'j Json \<Rightarrow> 'j ProviderStatsMessage \<Rightarrow> bool" where
  "stats_shaped js v \<longleftrightarrow>
    (psNetworkPeers v = ofNull js \<or> is_array js (psNetworkPeers v)) \<and> is_array js (psPoints v) \<and>
    (psDistribution v = ofNull js \<or> jsIsObject js (psDistribution v)) \<and> is_array js (psExtenderPoints v) \<and>
    (psExtenderStatus v = ofNull js \<or> jsIsObject js (psExtenderStatus v)) \<and>
    fits 64 (psClientCount v) \<and> fits 64 (psWindowSeconds v)"

lemma provider_stats_roundtrip:
  assumes "json_laws js" and "stats_shaped js v"
  shows "provider_stats_from_json js (provider_stats_to_json js v) = Inr v"
  using assms
  by (cases v) (auto simp add: provider_stats_from_json_def provider_stats_to_json_def NewProviderStats_def get_field_def
      take_member_def stats_shaped_def json_simps)

lemma map_of_opt_member: "map_of (opt_member c k x) k' = (if c \<and> k = k' then Some x else None)"
  by (simp add: opt_member_def)

lemma rev_opt_member [simp]: "rev (opt_member c k x) = opt_member c k x"
  by (simp add: opt_member_def)

lemma rev_case_member [simp]:
  "rev (case m of None \<Rightarrow> [] | Some s \<Rightarrow> [(k, f s)]) = (case m of None \<Rightarrow> [] | Some s \<Rightarrow> [(k, f s)])"
  by (cases m) simp_all

lemma map_of_case_member:
  "map_of (case m of None \<Rightarrow> [] | Some s \<Rightarrow> [(k, f s)]) k' = (if k = k' then map_option f m else None)"
  by (cases m) simp_all

lemma reply_members:
  assumes "json_laws js"
  shows "jsFind js (reply_to_json js v) ''ok'' = Some (ofBool js (rpOk v))"
    "jsFind js (reply_to_json js v) ''error'' = Some (ofString js (rpError v))"
    "jsFind js (reply_to_json js v) ''in_reply_to'' = Some (ofString js (rpInReplyTo v))"
    "jsFind js (reply_to_json js v) ''status'' = map_option (tunnel_status_to_json js) (rpStatus v)"
    "jsFind js (reply_to_json js v) ''provider_stats'' = map_option (provider_stats_to_json js) (rpProviderStats v)"
    "jsFind js (reply_to_json js v) ''log_upload_carrier'' =
      (if rpUploadCarrier v \<noteq> '''' then Some (ofString js (rpUploadCarrier v)) else None)"
    "jsFind js (reply_to_json js v) ''log_upload_id'' = (if rpUploadId v \<noteq> 0 then Some (ofInt js (rpUploadId v)) else None)"
    "jsFind js (reply_to_json js v) ''log_upload_busy'' = (if rpUploadBusy v then Some (ofBool js True) else None)"
    "jsFind js (reply_to_json js v) ''reset'' = (if rpReset v then Some (ofBool js True) else None)"
    "jsFind js (reply_to_json js v) ''reset_busy'' = (if rpResetBusy v then Some (ofBool js True) else None)"
    "jsFind js (reply_to_json js v) ''ingress_dns_held'' = (if rpIngressHeld v then Some (ofBool js True) else None)"
    "jsFind js (reply_to_json js v) ''ingress_dns_busy'' = (if rpIngressBusy v then Some (ofBool js True) else None)"
  using assms
  by (simp_all add: reply_to_json_def set_all_find json_simps map_add_def map_of_opt_member map_of_case_member
      split: option.split)

lemma status_is_object: "json_laws js \<Longrightarrow> jsIsObject js (tunnel_status_to_json js s)"
  by (simp add: tunnel_status_to_json_def json_simps)

lemma stats_are_object: "json_laws js \<Longrightarrow> jsIsObject js (provider_stats_to_json js s)"
  by (simp add: provider_stats_to_json_def json_simps)

definition reply_shaped :: "'j Json \<Rightarrow> 'j Reply \<Rightarrow> bool" where
  "reply_shaped js v \<longleftrightarrow> pred_option status_fits (rpStatus v) \<and> pred_option (stats_shaped js) (rpProviderStats v) \<and>
    fits 64 (rpUploadId v)"

lemma reply_roundtrip:
  assumes "json_laws js" and "reply_shaped js v"
  shows "reply_from_json js (reply_to_json js v) = Inr v"
proof (cases v)
  case (fields ok e st to ps uc ui ub r rb ih ib)
  have "\<And>s. ps = Some s \<Longrightarrow> provider_stats_from_json js (provider_stats_to_json js s) = Inr s"
    and "\<And>s. st = Some s \<Longrightarrow> tunnel_status_from_json js (tunnel_status_to_json js s) = Inr s" and "fits 64 ui"
    using assms fields by (auto intro: provider_stats_roundtrip tunnel_status_roundtrip simp: reply_shaped_def)
  with assms(1) fields show ?thesis
    unfolding reply_from_json_def
    by (cases st; cases ps)
      (simp_all add: get_field_def read_nested_def reply_members status_is_object
        stats_are_object json_simps NewReply_def)
qed

text \<open>The base64url text of RFC 4648, without padding.\<close>

definition base64_char :: "nat \<Rightarrow> char" where
  "base64_char n =
    (if n < 26 then char_of (65 + n) else if n < 52 then char_of (97 + (n - 26))
     else if n < 62 then char_of (48 + (n - 52)) else if n = 62 then CHR ''-'' else CHR ''_'')"

fun EncodeBase64Url :: "string \<Rightarrow> string" where
  "EncodeBase64Url [] = []"
| "EncodeBase64Url [a] = [base64_char (code_of a div 4), base64_char (code_of a mod 4 * 16)]"
| "EncodeBase64Url [a, b] =
    [base64_char (code_of a div 4), base64_char (code_of a mod 4 * 16 + code_of b div 16),
     base64_char (code_of b mod 16 * 4)]"
| "EncodeBase64Url (a # b # c # cs) =
    base64_char (code_of a div 4) # base64_char (code_of a mod 4 * 16 + code_of b div 16) #
    base64_char (code_of b mod 16 * 4 + code_of c div 64) # base64_char (code_of c mod 64) # EncodeBase64Url cs"

lemma base64_value_char: "n < 64 \<Longrightarrow> base64_value (base64_char n) = Some (of_nat n)"
proof -
  assume "n < 64"
  then consider "n < 26" | "26 \<le> n \<and> n < 52" | "52 \<le> n \<and> n < 62" | "n = 62" | "n = 63" by linarith
  then show ?thesis
  proof cases
    case 2
    then obtain m where "n = 26 + m" "m < 26" using le_Suc_ex by auto
    then show ?thesis by (simp add: base64_char_def base64_value_def)
  next
    case 3
    then obtain m where "n = 52 + m" "m < 10" using le_Suc_ex by auto
    then show ?thesis by (simp add: base64_char_def base64_value_def)
  qed (simp_all add: base64_char_def base64_value_def)
qed

lemma unat_shift_in: "n < 64 \<Longrightarrow> unat (or (push_bit 6 w) (of_nat n :: u32)) = (unat w * 64 + n) mod 2 ^ 32"
proof -
  assume n: "n < 64"
  have "and (push_bit 6 w) (of_nat n :: u32) = 0"
  proof (rule bit_word_eqI)
    fix i assume "i < LENGTH(32)"
    have "\<not> bit n i" if "6 \<le> i"
    proof -
      have "n < 2 ^ i" using n power_increasing [OF that, of "2::nat"] by simp
      then show ?thesis by (simp add: bit_iff_odd)
    qed
    then show "bit (and (push_bit 6 w) (of_nat n :: u32)) i = bit (0::u32) i"
      by (auto simp: bit_simps)
  qed
  then have "or (push_bit 6 w) (of_nat n :: u32) = push_bit 6 w + of_nat n" by (simp add: disjunctive_add_eq_or)
  also have "\<dots> = of_nat (unat w * 64 + n)" by (simp add: push_bit_eq_mult)
  finally have "unat (or (push_bit 6 w) (of_nat n :: u32)) = unat (of_nat (unat w * 64 + n) :: u32)" by (rule arg_cong)
  then show ?thesis unfolding unat_of_nat by simp
qed

lemma unat_low_byte: "unat (and (drop_bit k w) (0xFF :: u32)) = unat w div 2 ^ k mod 256"
proof -
  have "and (drop_bit k w) (0xFF :: u32) = take_bit 8 (drop_bit k w)"
    unfolding take_bit_eq_mask mask_eq_exp_minus_1 by simp
  then have "unat (and (drop_bit k w) (0xFF :: u32)) = take_bit 8 (drop_bit k (unat w))"
    by (simp only: unsigned_take_bit_eq unat_drop_bit_eq)
  then show ?thesis by (simp add: take_bit_eq_mod drop_bit_eq_div)
qed

text \<open>
  One character of the loop. Only the low \<open>bits\<close> bits of the buffer matter: \<open>r\<close> is their value, and a
  character \<open>x\<close> turns it into \<open>r * 64 + x\<close>, whose top byte is emitted.
\<close>

lemma decode_first:
  assumes "x < 64"
  obtains w' where "unat w' mod 64 = x" and "\<And>cs out. decode_loop (base64_char x # cs) w 0 out = decode_loop cs w' 6 out"
proof
  let ?w = "or (push_bit 6 w) (of_nat x :: u32)"
  show "unat ?w mod 64 = x" using assms by (simp add: unat_shift_in mod_mod_cancel)
  show "decode_loop (base64_char x # cs) w 0 out = decode_loop cs ?w 6 out" for cs out
    using assms by (simp add: base64_value_char)
qed

lemma low_byte_of_shift:
  fixes u k :: nat
  assumes "k \<le> 24"
  shows "u mod 2 ^ 32 div 2 ^ k mod 256 = u div 2 ^ k mod 256"
proof -
  have e: "(2::nat) ^ 32 = 2 ^ k * 2 ^ (32 - k)" using assms by (simp flip: power_add)
  have "u mod (2 ^ k * m) div 2 ^ k = u div 2 ^ k mod m" for m by (simp add: mod_mult2_eq)
  then have "u mod 2 ^ 32 div 2 ^ k = u div 2 ^ k mod 2 ^ (32 - k)" by (simp only: e)
  moreover have "(256::nat) dvd 2 ^ (32 - k)" using assms le_imp_power_dvd [of 8 "32 - k" "2::nat"] by simp
  ultimately show ?thesis by (simp add: mod_mod_cancel)
qed

lemma decode_next:
  assumes "x < 64" and "unat w mod 2 ^ bits = r" and "k \<le> 4" and bits: "bits = k + 2"
  obtains w' where "unat w' mod 2 ^ k = (r * 64 + x) mod 2 ^ k"
    and "\<And>cs out. decode_loop (base64_char x # cs) w bits out =
      decode_loop cs w' k (out @ [char_of ((r * 64 + x) div 2 ^ k)])"
proof
  let ?w = "or (push_bit 6 w) (of_nat x :: u32)"
  let ?u = "unat w * 64 + x"
  have u: "unat ?w = ?u mod 2 ^ 32" by (rule unat_shift_in [OF assms(1)])
  have split: "?u = 2 ^ k * (unat w div 2 ^ (k + 2) * 256) + (r * 64 + x)"
    unfolding assms(2) [symmetric] bits power_add using div_mult_mod_eq [of "unat w" "2 ^ k * 4"] by (simp add: algebra_simps)
  have r: "r * 64 + x < 2 ^ (k + 8)"
  proof -
    have "r < 2 ^ (k + 2)" unfolding assms(2) [symmetric] bits by simp
    then have "r * 64 + 64 \<le> 2 ^ (k + 2) * 64" by simp
    also have "\<dots> = (2::nat) ^ (k + 8)" by (simp add: power_add)
    finally show ?thesis using assms(1) by simp
  qed
  have "(2::nat) ^ k dvd 2 ^ 32" using assms(3) by (intro le_imp_power_dvd) simp
  then show "unat ?w mod 2 ^ k = (r * 64 + x) mod 2 ^ k"
    unfolding u by (simp only: mod_mod_cancel split) simp
  have "unat ?w div 2 ^ k mod 256 = ?u div 2 ^ k mod 256" unfolding u using assms(3) by (intro low_byte_of_shift) simp
  also have "\<dots> = (r * 64 + x) div 2 ^ k"
  proof -
    have "?u div 2 ^ k = unat w div 2 ^ (k + 2) * 256 + (r * 64 + x) div 2 ^ k"
      unfolding split by simp
    moreover have "(r * 64 + x) div 2 ^ k < 256" using r by (simp add: less_mult_imp_div_less power_add mult.commute)
    ultimately show ?thesis by simp
  qed
  finally have "unat (and (drop_bit k ?w) 0xFF) = (r * 64 + x) div 2 ^ k" unfolding unat_low_byte .
  moreover have "bits + 6 - 8 = k" "(8 \<le> bits + 6) = True" using bits by simp_all
  ultimately show "decode_loop (base64_char x # cs) w bits out = decode_loop cs ?w k (out @ [char_of ((r * 64 + x) div 2 ^ k)])"
    for cs out by (simp only: decode_loop.simps base64_value_char [OF assms(1)] option.case Let_def if_True)
qed

lemma split_sextets:
  fixes x y :: nat
  shows "(x * 64 + y) mod 16 = y mod 16" "(x * 64 + y) div 16 = x * 4 + y div 16"
    "(x * 64 + y) mod 4 = y mod 4" "(x * 64 + y) div 4 = x * 16 + y div 4"
proof -
  have e: "x * 64 + y = y + x * 4 * 16" by simp
  show "(x * 64 + y) mod 16 = y mod 16" unfolding e by (rule mod_mult_self1)
  show "(x * 64 + y) div 16 = x * 4 + y div 16" unfolding e by (rule div_mult_self1) simp
  have e: "x * 64 + y = y + x * 16 * 4" by simp
  show "(x * 64 + y) mod 4 = y mod 4" unfolding e by (rule mod_mult_self1)
  show "(x * 64 + y) div 4 = x * 16 + y div 4" unfolding e by (rule div_mult_self1) simp
qed

declare decode_loop.simps(2) [simp del]

text \<open>Two characters give the first byte, a third the second, a fourth the last.\<close>

lemma decode_two:
  assumes "x < 64" and "y < 64"
  obtains w' where "unat w' mod 2 ^ 4 = y mod 16"
    and "\<And>cs out. decode_loop (base64_char x # base64_char y # cs) w 0 out = decode_loop cs w' 4 (out @ [char_of (x * 4 + y div 16)])"
proof -
  obtain w1 where w1: "unat w1 mod 64 = x" "\<And>cs out. decode_loop (base64_char x # cs) w 0 out = decode_loop cs w1 6 out"
    using decode_first [OF assms(1), of w] by blast
  then have x1: "unat w1 mod 2 ^ 6 = x" by simp
  obtain w2 where w2: "unat w2 mod 2 ^ 4 = (x * 64 + y) mod 2 ^ 4"
    "\<And>cs out. decode_loop (base64_char y # cs) w1 6 out = decode_loop cs w2 4 (out @ [char_of ((x * 64 + y) div 2 ^ 4)])"
    by (rule decode_next [OF assms(2) x1, of 4]) (simp, simp, blast)
  have e: "(x * 64 + y) div 2 ^ 4 = x * 4 + y div 16" by (simp add: split_sextets)
  show thesis
  proof
    show "unat w2 mod 2 ^ 4 = y mod 16" using w2(1) by (simp add: split_sextets)
    show "decode_loop (base64_char x # base64_char y # cs) w 0 out = decode_loop cs w2 4 (out @ [char_of (x * 4 + y div 16)])"
      for cs out by (simp only: w1(2) w2(2) e)
  qed
qed

lemma decode_three:
  assumes "x < 64" and "y < 64" and "z < 64"
  obtains w' where "unat w' mod 2 ^ 2 = z mod 4"
    and "\<And>cs out. decode_loop (base64_char x # base64_char y # base64_char z # cs) w 0 out =
      decode_loop cs w' 2 (out @ [char_of (x * 4 + y div 16), char_of (y mod 16 * 16 + z div 4)])"
proof -
  obtain w2 where w2: "unat w2 mod 2 ^ 4 = y mod 16"
    "\<And>cs out. decode_loop (base64_char x # base64_char y # cs) w 0 out = decode_loop cs w2 4 (out @ [char_of (x * 4 + y div 16)])"
    using decode_two [OF assms(1,2), of w] by blast
  obtain w3 where w3: "unat w3 mod 2 ^ 2 = (y mod 16 * 64 + z) mod 2 ^ 2"
    "\<And>cs out. decode_loop (base64_char z # cs) w2 4 out = decode_loop cs w3 2 (out @ [char_of ((y mod 16 * 64 + z) div 2 ^ 2)])"
    by (rule decode_next [OF assms(3) w2(1), of 2]) (simp, simp, blast)
  have e: "(y mod 16 * 64 + z) div 2 ^ 2 = y mod 16 * 16 + z div 4" by (simp add: split_sextets)
  show thesis
  proof
    show "unat w3 mod 2 ^ 2 = z mod 4" using w3(1) by (simp add: split_sextets)
    show "decode_loop (base64_char x # base64_char y # base64_char z # cs) w 0 out =
        decode_loop cs w3 2 (out @ [char_of (x * 4 + y div 16), char_of (y mod 16 * 16 + z div 4)])" for cs out
      by (simp only: w2(2) w3(2) e append_assoc append.simps)
  qed
qed

lemma decode_four:
  assumes "x < 64" and "y < 64" and "z < 64" and "u < 64"
  obtains w' where "\<And>cs out. decode_loop (base64_char x # base64_char y # base64_char z # base64_char u # cs) w 0 out =
    decode_loop cs w' 0 (out @ [char_of (x * 4 + y div 16), char_of (y mod 16 * 16 + z div 4), char_of (z mod 4 * 64 + u)])"
proof -
  obtain w3 where w3: "unat w3 mod 2 ^ 2 = z mod 4"
    "\<And>cs out. decode_loop (base64_char x # base64_char y # base64_char z # cs) w 0 out =
      decode_loop cs w3 2 (out @ [char_of (x * 4 + y div 16), char_of (y mod 16 * 16 + z div 4)])"
    using decode_three [OF assms(1-3), of w] by blast
  obtain w4 where w4:
    "\<And>cs out. decode_loop (base64_char u # cs) w3 2 out = decode_loop cs w4 0 (out @ [char_of ((z mod 4 * 64 + u) div 2 ^ 0)])"
    by (rule decode_next [OF assms(4) w3(1), of 0]) (simp, simp, blast)
  have "z mod 4 * 64 + u = (z mod 4 * 64 + u) div 2 ^ 0" by simp
  then show thesis by (intro that [of w4]) (simp only: w3(2) w4 append_assoc append.simps)
qed

lemma sextets_of_bytes:
  fixes a b c :: nat
  assumes "a < 256" "b < 256" "c < 256"
  shows "a div 4 < 64" "a mod 4 * 16 + b div 16 < 64" "b mod 16 * 4 + c div 64 < 64" "c mod 64 < 64"
    "a div 4 * 4 + (a mod 4 * 16 + b div 16) div 16 = a"
    "(a mod 4 * 16 + b div 16) mod 16 * 16 + (b mod 16 * 4 + c div 64) div 4 = b"
    "(b mod 16 * 4 + c div 64) mod 4 * 64 + c mod 64 = c"
proof -
  have q: "b div 16 < 16" "c div 64 < 4" using assms by (auto intro: less_mult_imp_div_less)
  have "a mod 4 < 4" "b mod 16 < 16" by simp_all
  with q show "a div 4 < 64" "a mod 4 * 16 + b div 16 < 64" "b mod 16 * 4 + c div 64 < 64" "c mod 64 < 64"
    using assms by (auto intro: less_mult_imp_div_less)
  from q show "a div 4 * 4 + (a mod 4 * 16 + b div 16) div 16 = a"
    "(a mod 4 * 16 + b div 16) mod 16 * 16 + (b mod 16 * 4 + c div 64) div 4 = b"
    "(b mod 16 * 4 + c div 64) mod 4 * 64 + c mod 64 = c"
    by simp_all
qed

lemma decode_encoded: "decode_loop (EncodeBase64Url bs) w 0 out = Some (out @ bs)"
proof (induction bs arbitrary: w out rule: EncodeBase64Url.induct)
  case (2 a)
  note s = sextets_of_bytes [of "code_of a" 0 0, OF nat_of_char_less_256 zero_less_numeral zero_less_numeral]
  obtain w' where r: "\<And>cs out. decode_loop (base64_char (code_of a div 4) # base64_char (code_of a mod 4 * 16 + 0 div 16) # cs) w 0 out =
      decode_loop cs w' 4 (out @ [char_of (code_of a div 4 * 4 + (code_of a mod 4 * 16 + 0 div 16) div 16)])"
    by (rule decode_two [OF s(1,2), of w]) blast
  have "EncodeBase64Url [a] = [base64_char (code_of a div 4), base64_char (code_of a mod 4 * 16 + 0 div 16)]" by simp
  then show ?case by (simp only: r s(5) decode_loop.simps(1) char_of_char)
next
  case (3 a b)
  note s = sextets_of_bytes [of "code_of a" "code_of b" 0, OF nat_of_char_less_256 nat_of_char_less_256 zero_less_numeral]
  let ?y = "code_of a mod 4 * 16 + code_of b div 16" and ?z = "code_of b mod 16 * 4 + 0 div 64"
  obtain w' where r: "\<And>cs out. decode_loop (base64_char (code_of a div 4) # base64_char ?y # base64_char ?z # cs) w 0 out =
      decode_loop cs w' 2 (out @ [char_of (code_of a div 4 * 4 + ?y div 16), char_of (?y mod 16 * 16 + ?z div 4)])"
    by (rule decode_three [OF s(1-3), of w]) blast
  have "EncodeBase64Url [a, b] = [base64_char (code_of a div 4), base64_char ?y, base64_char ?z]" by simp
  then show ?case by (simp only: r s(5,6) decode_loop.simps(1) char_of_char)
next
  case (4 a b c cs)
  note s = sextets_of_bytes [of "code_of a" "code_of b" "code_of c", OF nat_of_char_less_256 nat_of_char_less_256 nat_of_char_less_256]
  let ?y = "code_of a mod 4 * 16 + code_of b div 16" and ?z = "code_of b mod 16 * 4 + code_of c div 64"
  obtain w' where r: "\<And>cs out. decode_loop (base64_char (code_of a div 4) # base64_char ?y # base64_char ?z #
        base64_char (code_of c mod 64) # cs) w 0 out =
      decode_loop cs w' 0 (out @ [char_of (code_of a div 4 * 4 + ?y div 16), char_of (?y mod 16 * 16 + ?z div 4),
        char_of (?z mod 4 * 64 + code_of c mod 64)])"
    by (rule decode_four [OF s(1-4), of w]) blast
  show ?case by (simp only: EncodeBase64Url.simps r s(5-7) char_of_char 4 append_assoc append.simps)
qed simp

lemma base64_char_no_dot: "base64_char n \<noteq> CHR ''.''"
proof
  assume "base64_char n = CHR ''.''"
  then have "code_of (base64_char n) = (46 :: nat)" by simp
  then show False by (simp add: base64_char_def split: if_splits)
qed

lemma encoded_no_dot: "CHR ''.'' \<notin> set (EncodeBase64Url bs)"
  by (induction bs rule: EncodeBase64Url.induct) (auto dest: base64_char_no_dot [THEN notE, OF sym] simp: base64_char_no_dot [symmetric])

lemma takeWhile_not_dot: "CHR ''.'' \<notin> set xs \<Longrightarrow> takeWhile (\<lambda>c. c \<noteq> CHR ''.'') (xs @ CHR ''.'' # ys) = xs"
  by (subst takeWhile_append2) auto

lemma dropWhile_not_dot: "CHR ''.'' \<notin> set xs \<Longrightarrow> dropWhile (\<lambda>c. c \<noteq> CHR ''.'') (xs @ CHR ''.'' # ys) = CHR ''.'' # ys"
  by (subst dropWhile_append2) auto

lemma jwt_payload_between_dots:
  assumes "CHR ''.'' \<notin> set header" and "CHR ''.'' \<notin> set body"
  shows "jwt_payload (header @ CHR ''.'' # body @ CHR ''.'' # sig) = Some body"
  using assms by (simp add: jwt_payload_def dropWhile_not_dot takeWhile_not_dot)

lemma uuid_chars_safe: "uuid_chars i cs \<Longrightarrow> c \<in> set cs \<Longrightarrow> is_hex c \<or> c = CHR ''-''"
  by (induction cs arbitrary: i) (auto split: if_splits)

text \<open>An accepted feedback id stands as one path segment of a url.\<close>

lemma feedback_id_segment:
  "LooksLikeFeedbackId text1 \<Longrightarrow> length text1 = 36 \<and> (\<forall>c\<in>set text1. is_hex c \<or> c = CHR ''-'')"
  by (auto simp: LooksLikeFeedbackId_def uuid_chars_safe split: if_splits)

text \<open>A member of the message says a value.\<close>

definition said :: "'j Json \<Rightarrow> 'j \<Rightarrow> string \<Rightarrow> ('j \<Rightarrow> string + 'a) \<Rightarrow> 'a \<Rightarrow> bool" where
  "said js j k get y \<longleftrightarrow> (\<exists>x. jsFind js j k = Some x \<and> get x = Inr y)"

text \<open>A reader that changes a claim of the message only to what \<open>P\<close> holds of.\<close>

definition backed :: "('v \<Rightarrow> 'a) \<Rightarrow> ('a \<Rightarrow> bool) \<Rightarrow> ('v \<Rightarrow> string + 'v) \<Rightarrow> bool" where
  "backed claim P f \<longleftrightarrow> (\<forall>u u'. f u = Inr u' \<longrightarrow> claim u' = claim u \<or> P (claim u'))"

lemma read_all_claim:
  "read_all fs v = Inr v' \<Longrightarrow> list_all (backed claim P) fs \<Longrightarrow> claim v' = claim v \<or> P (claim v')"
proof (induction fs arbitrary: v)
  case (Cons f fs)
  then obtain u where "f v = Inr u" "read_all fs u = Inr v'" by (auto split: sum.splits)
  with Cons show ?case by (metis backed_def list.pred_inject(2))
qed simp

lemma backed_other: "(\<And>g v. claim (put g v) = claim v) \<Longrightarrow> backed claim P (get_field js j k get put)"
  by (auto simp: backed_def get_field_def split: option.splits if_splits sum.splits)

lemma backed_own: "(\<And>g v. claim (put g v) = g (claim v)) \<Longrightarrow> backed claim (said js j k get) (get_field js j k get put)"
  by (auto simp: backed_def get_field_def said_def split: option.splits if_splits sum.splits)

lemma backed_state:
  "(\<And>v st. claim (v\<lparr>msState := st\<rparr>) = claim v) \<Longrightarrow> backed claim P (read_state js j)"
  "backed msState (\<lambda>st. \<exists>x. said js j ''state'' (jsGetString js) x \<and> st = TunnelStateFromString x) (read_state js j)"
  by (auto simp: backed_def read_state_def said_def split: option.splits if_splits sum.splits)

lemma backed_mode: "(\<And>v m. claim (v\<lparr>msMode := m\<rparr>) = claim v) \<Longrightarrow> backed claim P (read_status_mode js j)"
  by (auto simp: backed_def read_status_mode_def split: option.splits if_splits sum.splits)

lemmas backed_simps = backed_other backed_own backed_state backed_mode

lemma state_named: "TunnelStateFromString s \<noteq> Stopped \<Longrightarrow> s = TunnelStateToString (TunnelStateFromString s)"
  by (auto simp: TunnelStateFromString_def TunnelStateToString_def)

lemma status_claims:
  assumes "tunnel_status_from_json js j = Inr s"
  shows "msRoutes s = msRoutes NewTunnelStatus \<or> said js j ''routes_installed'' (jsGetBool js) (msRoutes s)"
    and "msDns s = msDns NewTunnelStatus \<or> said js j ''dns_applied'' (jsGetBool js) (msDns s)"
    and "msWfp s = msWfp NewTunnelStatus \<or> said js j ''wfp_state'' (jsGetString js) (msWfp s)"
    and "msProtocolVersion s = msProtocolVersion NewTunnelStatus \<or> said js j ''protocol_version'' (jsGetInt js) (msProtocolVersion s)"
    and "msProviderRunning s = msProviderRunning NewTunnelStatus \<or> said js j ''provider_running'' (jsGetBool js) (msProviderRunning s)"
    and "msSessionId s = msSessionId NewTunnelStatus \<or> said js j ''rpc_session_id'' (jsGetString js) (msSessionId s)"
    and "msState s = msState NewTunnelStatus \<or> (\<exists>x. said js j ''state'' (jsGetString js) x \<and> msState s = TunnelStateFromString x)"
proof -
  note r = assms [unfolded tunnel_status_from_json_def]
  show "msRoutes s = msRoutes NewTunnelStatus \<or> said js j ''routes_installed'' (jsGetBool js) (msRoutes s)"
    by (rule read_all_claim [where claim = msRoutes and P = "said js j ''routes_installed'' (jsGetBool js)", OF r]) (simp add: backed_simps)
  show "msDns s = msDns NewTunnelStatus \<or> said js j ''dns_applied'' (jsGetBool js) (msDns s)"
    by (rule read_all_claim [where claim = msDns and P = "said js j ''dns_applied'' (jsGetBool js)", OF r]) (simp add: backed_simps)
  show "msWfp s = msWfp NewTunnelStatus \<or> said js j ''wfp_state'' (jsGetString js) (msWfp s)"
    by (rule read_all_claim [where claim = msWfp and P = "said js j ''wfp_state'' (jsGetString js)", OF r]) (simp add: backed_simps)
  show "msProtocolVersion s = msProtocolVersion NewTunnelStatus \<or> said js j ''protocol_version'' (jsGetInt js) (msProtocolVersion s)"
    by (rule read_all_claim [where claim = msProtocolVersion and P = "said js j ''protocol_version'' (jsGetInt js)", OF r]) (simp add: backed_simps)
  show "msProviderRunning s = msProviderRunning NewTunnelStatus \<or> said js j ''provider_running'' (jsGetBool js) (msProviderRunning s)"
    by (rule read_all_claim [where claim = msProviderRunning and P = "said js j ''provider_running'' (jsGetBool js)", OF r]) (simp add: backed_simps)
  show "msSessionId s = msSessionId NewTunnelStatus \<or> said js j ''rpc_session_id'' (jsGetString js) (msSessionId s)"
    by (rule read_all_claim [where claim = msSessionId and P = "said js j ''rpc_session_id'' (jsGetString js)", OF r]) (simp add: backed_simps)
  show "msState s = msState NewTunnelStatus \<or> (\<exists>x. said js j ''state'' (jsGetString js) x \<and> msState s = TunnelStateFromString x)"
    by (rule read_all_claim [where claim = msState and P = "\<lambda>st. \<exists>x. said js j ''state'' (jsGetString js) x \<and> st = TunnelStateFromString x", OF r]) (simp add: backed_simps)
qed

section \<open>A JSON library in the model's own terms\<close>

text \<open>It shows that the hypotheses on the library hold of one. Its text form is only required to be read back.\<close>

datatype JsonValue = VNull | VBool bool | VInt int | VString string | VArray "JsonValue list" | VObject "(string \<times> JsonValue) list"

instance JsonValue :: countable
  by countable_datatype

fun value_strings :: "JsonValue list \<Rightarrow> string + string list" where
  "value_strings [] = Inr []"
| "value_strings (VString s # vs) = (case value_strings vs of Inl e \<Rightarrow> Inl e | Inr ss \<Rightarrow> Inr (s # ss))"
| "value_strings _ = Inl ''type must be string''"

definition value_json :: "JsonValue Json" where
  "value_json = \<lparr>jsNull = (\<lambda>v. v = VNull), jsIsString = (\<lambda>v. case v of VString _ \<Rightarrow> True | _ \<Rightarrow> False),
    jsIsBool = (\<lambda>v. case v of VBool _ \<Rightarrow> True | _ \<Rightarrow> False), jsIsInteger = (\<lambda>v. case v of VInt _ \<Rightarrow> True | _ \<Rightarrow> False),
    jsIsObject = (\<lambda>v. case v of VObject _ \<Rightarrow> True | _ \<Rightarrow> False), jsArray = (\<lambda>v. case v of VArray xs \<Rightarrow> Some xs | _ \<Rightarrow> None),
    jsGetString = (\<lambda>v. case v of VString s \<Rightarrow> Inr s | _ \<Rightarrow> Inl ''type must be string''),
    jsGetBool = (\<lambda>v. case v of VBool b \<Rightarrow> Inr b | _ \<Rightarrow> Inl ''type must be boolean''),
    jsGetInt = (\<lambda>v. case v of VInt n \<Rightarrow> Inr n | _ \<Rightarrow> Inl ''type must be number''),
    jsGetInt64 = (\<lambda>v. case v of VInt n \<Rightarrow> Inr n | _ \<Rightarrow> Inl ''type must be number''),
    jsGetStrings = (\<lambda>v. case v of VArray xs \<Rightarrow> value_strings xs | _ \<Rightarrow> Inl ''type must be array''),
    jsFind = (\<lambda>v k. case v of VObject ms \<Rightarrow> map_of ms k | _ \<Rightarrow> None),
    jsSet = (\<lambda>v k x. case v of VObject ms \<Rightarrow> VObject ((k, x) # ms) | _ \<Rightarrow> v),
    jsParse = (\<lambda>s. Some (from_nat (length s))), jsDump = (\<lambda>v. replicate (to_nat v) CHR ''x''),
    ofNull = VNull, ofString = VString, ofBool = VBool, ofInt = VInt, ofArray = VArray, ofObject = VObject\<rparr>"

lemma value_strings_map: "value_strings (map VString ss) = Inr ss"
  by (induction ss) simp_all

lemma value_json_laws: "json_laws value_json"
  by (auto simp: json_laws_def value_json_def value_strings_map fun_eq_iff split: JsonValue.splits)

lemma value_json_text: "jsParse value_json (jsDump value_json j) = Some j"
  by (simp add: value_json_def)

section \<open>Properties\<close>



text \<open>
  A peer that is silent claims nothing. Whatever JSON value is read as a status, with members missing,
  null or of a later version, the status reports a live or moving session, routes, resolvers, a firewall, a
  provider, a session to adopt or a protocol version only if the message says exactly that.
\<close>

theorem silence_claims_less:
  assumes "tunnel_status_from_json js j = Inr s"
  shows "(msState s \<noteq> Stopped \<longrightarrow> said js j ''state'' (jsGetString js) (TunnelStateToString (msState s))) \<and>
    (msRoutes s \<longrightarrow> said js j ''routes_installed'' (jsGetBool js) True) \<and>
    (msDns s \<longrightarrow> said js j ''dns_applied'' (jsGetBool js) True) \<and>
    (msWfp s \<noteq> ''off'' \<longrightarrow> said js j ''wfp_state'' (jsGetString js) (msWfp s)) \<and>
    (msProviderRunning s \<longrightarrow> said js j ''provider_running'' (jsGetBool js) True) \<and>
    (msSessionId s \<noteq> '''' \<longrightarrow> said js j ''rpc_session_id'' (jsGetString js) (msSessionId s)) \<and>
    (kFirstStartModeVersion \<le> msProtocolVersion s \<longrightarrow> said js j ''protocol_version'' (jsGetInt js) (msProtocolVersion s))"
  using status_claims [OF assms] state_named
  by (auto simp: NewTunnelStatus_def kFirstStartModeVersion_def)

theorem silence_claims_less_witness:
  "tunnel_status_from_json value_json (VObject [(''state'', VString ''up''), (''mode'', VString ''quantum'')]) =
    Inr (NewTunnelStatus\<lparr>msState := Up, msMode := Mode_RpcOnly\<rparr>) \<and>
   said value_json (VObject [(''state'', VString ''up''), (''mode'', VString ''quantum'')]) ''state'' (jsGetString value_json) ''up''"
proof -
  have e: "tunnel_status_from_json value_json (VObject [(''state'', VString ''up''), (''mode'', VString ''quantum'')]) =
      Inr (NewTunnelStatus\<lparr>msState := Up, msMode := Mode_RpcOnly\<rparr>)" by code_simp
  from silence_claims_less [OF e] e show ?thesis by (simp add: TunnelStateToString_def)
qed

text \<open>
  A device is the same device under a refreshed token: the subject of a token depends on the client
  and the network its claims name and on nothing else, neither the header, the signature nor any other
  claim, whatever text its payload is encoded from.
\<close>

theorem token_subject_exact:
  assumes "json_laws js" and "CHR ''.'' \<notin> set header" and "jsParse js payload = Some claims"
    and "jsIsObject js claims" and "jsFind js claims ''client_id'' = Some (ofString js client)"
    and "jsFind js claims ''network_id'' = Some (ofString js network)" and "client \<noteq> ''''"
  shows "JwtSubject js (header @ ''.'' @ EncodeBase64Url payload @ ''.'' @ signature) =
    ''client:'' @ network @ ''/'' @ client"
  using assms jwt_payload_between_dots [OF assms(2) encoded_no_dot, of payload signature]
  by (simp add: JwtSubject_def DecodeBase64Url_def decode_encoded claims_subject_def json_simps)

theorem token_subject_exact_witness:
  "JwtSubject value_json (''h'' @ ''.'' @ EncodeBase64Url (jsDump value_json
      (VObject [(''client_id'', VString ''c1''), (''network_id'', VString ''n1''), (''exp'', VInt 7)])) @ ''.'' @ ''s'') =
    ''client:n1/c1''"
proof -
  let ?claims = "VObject [(''client_id'', VString ''c1''), (''network_id'', VString ''n1''), (''exp'', VInt 7)]"
  have "jsIsObject value_json ?claims" "jsFind value_json ?claims ''client_id'' = Some (ofString value_json ''c1'')"
    "jsFind value_json ?claims ''network_id'' = Some (ofString value_json ''n1'')" by (simp_all add: value_json_def)
  from token_subject_exact [OF value_json_laws _ value_json_text this, of "''h''" "''s''"] show ?thesis by simp
qed

end
