(* ===== verification/RpcSession.thy ===== *)
theory RpcSession
  imports Wire
begin

text \<open>
  The record of the last RPC session the app keeps on disk (\<^verbatim>\<open>Common/RpcSessionBlob.h\<close>), which decides at
  launch whether a running tunnel may be adopted: the record, its text, and the tests an adoption passes.
  The JSON library is the argument \<open>js\<close> of theory \<open>Wire\<close>.
\<close>

section \<open>The record\<close>

definition kCurrentVersion :: i64 where "kCurrentVersion = 1"

datatype BlobState = Blob_Pending | Blob_Confirmed | Blob_Invalid

definition BlobStateToString :: "BlobState \<Rightarrow> string" where
  "BlobStateToString state =
    (if state = Blob_Confirmed then ''confirmed'' else if state = Blob_Pending then ''pending'' else ''invalid'')"

record Blob =
  blVersion :: i64
  blState :: BlobState
  blClientPem :: string
  blServerCertPem :: string
  blHostPort :: string
  blInstanceId :: string
  blSessionId :: string

definition NewBlob :: Blob where
  "NewBlob = \<lparr>blVersion = kCurrentVersion, blState = Blob_Pending, blClientPem = '''', blServerCertPem = '''',
    blHostPort = '''', blInstanceId = '''', blSessionId = ''''\<rparr>"

section \<open>Reading a field\<close>

definition StringField :: "'j Json \<Rightarrow> 'j \<Rightarrow> string \<Rightarrow> string" where
  "StringField js j key =
    (case jsFind js j key of
       None \<Rightarrow> ''''
     | Some x \<Rightarrow> if \<not> jsIsString js x then '''' else (case jsGetString js x of Inl _ \<Rightarrow> '''' | Inr s \<Rightarrow> s))"

definition IntegerField :: "'j Json \<Rightarrow> 'j \<Rightarrow> string \<Rightarrow> i64 \<Rightarrow> i64" where
  "IntegerField js j key fallback =
    (case jsFind js j key of
       None \<Rightarrow> fallback
     | Some x \<Rightarrow> if \<not> jsIsInteger js x then fallback else (case jsGetInt64 js x of Inl _ \<Rightarrow> fallback | Inr n \<Rightarrow> n))"

section \<open>The tests of an adoption\<close>

text \<open>The loop over the characters of an instance id: its position, and whether a nonzero digit was seen.\<close>

fun pairable_loop :: "nat \<Rightarrow> bool \<Rightarrow> string \<Rightarrow> bool" where
  "pairable_loop i anyNonZero [] = anyNonZero"
| "pairable_loop i anyNonZero (c # cs) =
    (if i = 8 \<or> i = 13 \<or> i = 18 \<or> i = 23
     then (if c \<noteq> CHR ''-'' then False else pairable_loop (Suc i) anyNonZero cs)
     else if \<not> is_hex c then False
     else pairable_loop (Suc i) (anyNonZero \<or> c \<noteq> CHR ''0'') cs)"

definition IsPairableInstanceId :: "string \<Rightarrow> bool" where
  "IsPairableInstanceId s \<longleftrightarrow> (if length s \<noteq> 36 then False else pairable_loop 0 False s)"

definition IsOpaqueSessionId :: "string \<Rightarrow> bool" where
  "IsOpaqueSessionId s \<longleftrightarrow>
    (if length s < 16 \<or> length s > 256 then False
     else list_all (\<lambda>c. \<not> (of_char c \<le> (0x20 :: nat) \<or> of_char c = (0x7f :: nat))) s)"

definition IsAdoptable :: "Blob \<Rightarrow> bool" where
  "IsAdoptable b \<longleftrightarrow>
    blVersion b = kCurrentVersion \<and> (blState b = Blob_Pending \<or> blState b = Blob_Confirmed) \<and>
    IsPairableInstanceId (blInstanceId b) \<and> IsOpaqueSessionId (blSessionId b) \<and> blClientPem b \<noteq> '''' \<and>
    blServerCertPem b \<noteq> '''' \<and> blHostPort b \<noteq> ''''"

definition MatchesLiveSession :: "Blob \<Rightarrow> string \<Rightarrow> string \<Rightarrow> string \<Rightarrow> bool" where
  "MatchesLiveSession b pairedId sessionId address \<longleftrightarrow>
    IsAdoptable b \<and> blInstanceId b = pairedId \<and> blSessionId b = sessionId \<and> blHostPort b = address"

section \<open>The text on disk\<close>

definition blob_to_json :: "'j Json \<Rightarrow> Blob \<Rightarrow> 'j" where
  "blob_to_json js b = ofObject js [
    (''version'', ofInt js (blVersion b)), (''state'', ofString js (BlobStateToString (blState b))),
    (''client_pem'', ofString js (blClientPem b)), (''server_cert_pem'', ofString js (blServerCertPem b)),
    (''host_port'', ofString js (blHostPort b)), (''instance_id'', ofString js (blInstanceId b)),
    (''rpc_session_id'', ofString js (blSessionId b))]"

definition Serialize :: "'j Json \<Rightarrow> Blob \<Rightarrow> string" where
  "Serialize js b = jsDump js (blob_to_json js b)"

definition blob_from_json :: "'j Json \<Rightarrow> 'j \<Rightarrow> Blob option" where
  "blob_from_json js j =
    (let state = StringField js j ''state'';
         b = \<lparr>blVersion = IntegerField js j ''version'' 0,
              blState = (if state = ''confirmed'' then Blob_Confirmed
                else if state = ''pending'' then Blob_Pending else Blob_Invalid),
              blClientPem = StringField js j ''client_pem'',
              blServerCertPem = StringField js j ''server_cert_pem'',
              blHostPort = StringField js j ''host_port'', blInstanceId = '''', blSessionId = ''''\<rparr>
     in if blHostPort b = '''' then None
        else let instance_id = StringField js j ''instance_id''
          in Some (b\<lparr>blInstanceId := (if IsPairableInstanceId instance_id then instance_id else ''''),
               blSessionId := StringField js j ''rpc_session_id''\<rparr>))"

text \<open>The parser of the source, \<^verbatim>\<open>Parse\<close>: a text the library discards is no session.\<close>

definition ParseBlob :: "'j Json \<Rightarrow> string \<Rightarrow> Blob option" where
  "ParseBlob js contents =
    (case jsParse js contents of
       None \<Rightarrow> None
     | Some j \<Rightarrow> if \<not> jsIsObject js j then None else blob_from_json js j)"

section \<open>Lemmas\<close>

text \<open>The loop is the statement about every position.\<close>

definition uuid_at :: "nat \<Rightarrow> char \<Rightarrow> bool" where
  "uuid_at k c \<longleftrightarrow> (if k \<in> {8, 13, 18, 23} then c = CHR ''-'' else is_hex c)"

lemma pairable_loop_iff:
  "pairable_loop i any s \<longleftrightarrow>
    (\<forall>k<length s. uuid_at (i + k) (s ! k)) \<and>
    (any \<or> (\<exists>k<length s. i + k \<notin> {8, 13, 18, 23} \<and> s ! k \<noteq> CHR ''0''))"
proof (induction s arbitrary: i any)
  case (Cons c cs)
  have "pairable_loop i any (c # cs) \<longleftrightarrow>
      uuid_at i c \<and> pairable_loop (Suc i) (any \<or> i \<notin> {8, 13, 18, 23} \<and> c \<noteq> CHR ''0'') cs"
    by (simp add: uuid_at_def)
  also have "\<dots> \<longleftrightarrow> uuid_at i c \<and> (\<forall>k<length cs. uuid_at (Suc i + k) (cs ! k)) \<and>
      ((any \<or> i \<notin> {8, 13, 18, 23} \<and> c \<noteq> CHR ''0'') \<or>
       (\<exists>k<length cs. Suc i + k \<notin> {8, 13, 18, 23} \<and> cs ! k \<noteq> CHR ''0''))"
    by (simp only: Cons)
  finally show ?case
    by (simp only: list.size nth_Cons_0 nth_Cons_Suc All_less_Suc2 Ex_less_Suc2 add_0_right add_Suc_right add_Suc
        add_0_left One_nat_def) blast
qed simp

lemma pairable_exact:
  "IsPairableInstanceId s \<longleftrightarrow>
    length s = 36 \<and> (\<forall>k<36. uuid_at k (s ! k)) \<and> (\<exists>k<36. k \<notin> {8, 13, 18, 23} \<and> s ! k \<noteq> CHR ''0'')"
  by (auto simp: IsPairableInstanceId_def pairable_loop_iff)

lemma pairable_nonempty: "IsPairableInstanceId s \<Longrightarrow> s \<noteq> ''''"
  by (auto simp: IsPairableInstanceId_def)

lemma string_field_said: "StringField js j k = s \<Longrightarrow> s \<noteq> '''' \<Longrightarrow> said js j k (jsGetString js) s"
  by (auto simp: StringField_def said_def split: option.splits if_splits sum.splits)

lemma integer_field_said: "IntegerField js j k d = n \<Longrightarrow> n \<noteq> d \<Longrightarrow> said js j k (jsGetInt64 js) n"
  by (auto simp: IntegerField_def said_def split: option.splits if_splits sum.splits)

lemma blob_state_named:
  "BlobStateToString s = ''confirmed'' \<longleftrightarrow> s = Blob_Confirmed" "BlobStateToString s = ''pending'' \<longleftrightarrow> s = Blob_Pending"
  "s \<noteq> Blob_Pending \<Longrightarrow> s \<noteq> Blob_Confirmed \<Longrightarrow> Blob_Invalid = s"
  by (cases s; simp add: BlobStateToString_def)+

lemma blob_fields:
  assumes "json_laws js"
  shows "StringField js (blob_to_json js b) ''state'' = BlobStateToString (blState b)"
    and "StringField js (blob_to_json js b) ''client_pem'' = blClientPem b"
    and "StringField js (blob_to_json js b) ''server_cert_pem'' = blServerCertPem b"
    and "StringField js (blob_to_json js b) ''host_port'' = blHostPort b"
    and "StringField js (blob_to_json js b) ''instance_id'' = blInstanceId b"
    and "StringField js (blob_to_json js b) ''rpc_session_id'' = blSessionId b"
    and "fits 64 (blVersion b) \<Longrightarrow> IntegerField js (blob_to_json js b) ''version'' 0 = blVersion b"
    and "jsIsObject js (blob_to_json js b)"
  using assms by (simp_all add: StringField_def IntegerField_def blob_to_json_def json_simps)

lemma blob_parsed:
  assumes "ParseBlob js contents = Some b"
  obtains j where "jsParse js contents = Some j" and "blVersion b = IntegerField js j ''version'' 0"
    and "blState b = (if StringField js j ''state'' = ''confirmed'' then Blob_Confirmed
      else if StringField js j ''state'' = ''pending'' then Blob_Pending else Blob_Invalid)"
    and "blClientPem b = StringField js j ''client_pem''" and "blServerCertPem b = StringField js j ''server_cert_pem''"
    and "blHostPort b = StringField js j ''host_port''" and "blSessionId b = StringField js j ''rpc_session_id''"
    and "blInstanceId b = '''' \<or> blInstanceId b = StringField js j ''instance_id''"
proof -
  obtain j where p: "jsParse js contents = Some j" and b: "blob_from_json js j = Some b"
    using assms by (auto simp: ParseBlob_def split: option.splits if_splits)
  from b show ?thesis
    by (intro that [OF p]) (auto simp: blob_from_json_def Let_def split: if_splits)
qed

section \<open>Properties\<close>

text \<open>
  The record is read back from the text it was written to, whatever its values: without an address there is
  no session, an instance id that cannot be paired reads as none, and a record that may be adopted reads
  back as it was.
\<close>

theorem blob_roundtrip:
  assumes "json_laws js" and "fits 64 (blVersion b)" and "jsParse js (Serialize js b) = Some (blob_to_json js b)"
  shows "ParseBlob js (Serialize js b) =
      (if blHostPort b = '''' then None
       else Some (b\<lparr>blInstanceId := if IsPairableInstanceId (blInstanceId b) then blInstanceId b else ''''\<rparr>)) \<and>
    (IsAdoptable b \<longrightarrow> ParseBlob js (Serialize js b) = Some b)"
proof -
  have "ParseBlob js (Serialize js b) =
      (if blHostPort b = '''' then None
       else Some (b\<lparr>blInstanceId := if IsPairableInstanceId (blInstanceId b) then blInstanceId b else ''''\<rparr>))"
    using assms(2,3)
    by (cases b) (simp add: blob_state_named ParseBlob_def blob_from_json_def Let_def blob_fields [OF assms(1)])
  then show ?thesis by (simp add: IsAdoptable_def)
qed

theorem blob_roundtrip_witness:
  "ParseBlob value_json (Serialize value_json (NewBlob\<lparr>blHostPort := ''127.0.0.1:4'', blInstanceId := ''7''\<rparr>)) =
    Some (NewBlob\<lparr>blHostPort := ''127.0.0.1:4''\<rparr>)"
proof -
  let ?b = "NewBlob\<lparr>blHostPort := ''127.0.0.1:4'', blInstanceId := ''7''\<rparr>"
  have "fits 64 (blVersion ?b)" by (simp add: NewBlob_def kCurrentVersion_def fits_def)
  moreover have "jsParse value_json (Serialize value_json ?b) = Some (blob_to_json value_json ?b)"
    by (simp add: Serialize_def value_json_text)
  ultimately show ?thesis
    using blob_roundtrip [OF value_json_laws, of ?b] by (simp add: IsPairableInstanceId_def NewBlob_def)
qed

text \<open>
  A running tunnel is adopted only by a record that says so itself. Whatever text is on disk, a record that
  matches the live session had its version, a known state, both credentials, the address, the session id and
  the instance id written in it, and that id has the form the SDK writes and is not the nil one.
\<close>

theorem adoption_said:
  assumes "ParseBlob js contents = Some b" and "MatchesLiveSession b pairedId sessionId address"
  shows "\<exists>j. jsParse js contents = Some j \<and> said js j ''version'' (jsGetInt64 js) 1 \<and>
    (said js j ''state'' (jsGetString js) ''pending'' \<or> said js j ''state'' (jsGetString js) ''confirmed'') \<and>
    said js j ''instance_id'' (jsGetString js) pairedId \<and> said js j ''rpc_session_id'' (jsGetString js) sessionId \<and>
    said js j ''host_port'' (jsGetString js) address \<and>
    (\<exists>pem. pem \<noteq> '''' \<and> said js j ''client_pem'' (jsGetString js) pem) \<and>
    (\<exists>pem. pem \<noteq> '''' \<and> said js j ''server_cert_pem'' (jsGetString js) pem) \<and>
    length pairedId = 36 \<and> (\<forall>k<36. uuid_at k (pairedId ! k)) \<and>
    (\<exists>k<36. k \<notin> {8, 13, 18, 23} \<and> pairedId ! k \<noteq> CHR ''0'') \<and>
    16 \<le> length sessionId \<and> length sessionId \<le> 256"
proof -
  have m: "IsAdoptable b" "blInstanceId b = pairedId" "blSessionId b = sessionId" "blHostPort b = address"
    using assms(2) by (simp_all add: MatchesLiveSession_def)
  then have a: "blVersion b = 1" "blState b \<noteq> Blob_Invalid" "IsPairableInstanceId pairedId"
    "IsOpaqueSessionId sessionId" "blClientPem b \<noteq> ''''" "blServerCertPem b \<noteq> ''''" "address \<noteq> ''''"
    by (auto simp: IsAdoptable_def kCurrentVersion_def)
  then have s: "16 \<le> length sessionId" "length sessionId \<le> 256" "sessionId \<noteq> ''''"
    by (auto simp: IsOpaqueSessionId_def split: if_splits)
  obtain j where j: "jsParse js contents = Some j" "blVersion b = IntegerField js j ''version'' 0"
    "blState b = (if StringField js j ''state'' = ''confirmed'' then Blob_Confirmed
      else if StringField js j ''state'' = ''pending'' then Blob_Pending else Blob_Invalid)"
    "blClientPem b = StringField js j ''client_pem''" "blServerCertPem b = StringField js j ''server_cert_pem''"
    "blHostPort b = StringField js j ''host_port''" "blSessionId b = StringField js j ''rpc_session_id''"
    "blInstanceId b = '''' \<or> blInstanceId b = StringField js j ''instance_id''"
    by (rule blob_parsed [OF assms(1)])
  have st: "StringField js j ''state'' = ''confirmed'' \<or> StringField js j ''state'' = ''pending''"
    using a(2) j(3) by (auto split: if_splits)
  have "said js j ''version'' (jsGetInt64 js) 1" using integer_field_said [of js j _ 0 1] a(1) j(2) by simp
  moreover have "said js j ''instance_id'' (jsGetString js) pairedId"
    using string_field_said [of js j _ pairedId] j(8) m(2) pairable_nonempty [OF a(3)] by simp
  moreover have "said js j ''state'' (jsGetString js) ''pending'' \<or> said js j ''state'' (jsGetString js) ''confirmed''"
    using st string_field_said by fastforce
  moreover note string_field_said [OF j(7) [symmetric, unfolded m(3)] s(3)]
    string_field_said [OF j(6) [symmetric, unfolded m(4)] a(7)]
    string_field_said [OF j(4) [symmetric] a(5)] string_field_said [OF j(5) [symmetric] a(6)]
  ultimately show ?thesis using j(1) a(3) s(1,2) a(5,6) unfolding pairable_exact by blast
qed

text \<open>A record that may be adopted.\<close>

definition blob_sample :: Blob where
  "blob_sample = NewBlob\<lparr>blClientPem := ''c'', blServerCertPem := ''s'', blHostPort := ''127.0.0.1:4'',
    blInstanceId := ''01234567-0123-0123-0123-0123456789ab'', blSessionId := ''0123456789abcdef''\<rparr>"

lemma blob_sample_adoptable: "IsAdoptable blob_sample"
  by (simp add: IsAdoptable_def blob_sample_def NewBlob_def IsPairableInstanceId_def IsOpaqueSessionId_def is_hex_def)

theorem adoption_said_witness:
  "\<exists>j. jsParse value_json (Serialize value_json blob_sample) = Some j \<and>
    said value_json j ''rpc_session_id'' (jsGetString value_json) ''0123456789abcdef''"
proof -
  have p: "ParseBlob value_json (Serialize value_json blob_sample) = Some blob_sample"
    using blob_sample_adoptable
    by (simp add: ParseBlob_def Serialize_def value_json_text blob_from_json_def Let_def blob_fields [OF value_json_laws]
        IsAdoptable_def kCurrentVersion_def fits_def blob_state_named)
  have "MatchesLiveSession blob_sample ''01234567-0123-0123-0123-0123456789ab'' ''0123456789abcdef'' ''127.0.0.1:4''"
    using blob_sample_adoptable by (simp add: MatchesLiveSession_def) (simp add: blob_sample_def NewBlob_def)
  from adoption_said [OF p this] show ?thesis by blast
qed

end
