(* ===== verification/ControlServer.thy ===== *)
theory ControlServer
  imports ControllerSafety RpcSession
begin

text \<open>
  The dispatcher of the control pipe (\<^verbatim>\<open>Service/ControlServer.cpp\<close>) over the controller's model, with the
  controller's operations on settings, network spaces, statistics and log uploads it calls. A request is
  a JSON value; a handler that throws is \<open>Inl\<close> of what the exception says. The answers of the SDK, of Windows
  and of the session lock to one request are an argument.
\<close>

section \<open>The state and the answers\<close>

text \<open>What is written into the SDK's spaces and devices, in order.\<close>

datatype SpaceWrite =
    WriteSetting string ExtenderSettingTarget bool
  | WriteReset SpaceKey string
  | WriteRegion SpaceKey string
  | WriteDohUrls SpaceKey "string list"

record 'e Service =
  svController :: "'e Controller"
  svFlight :: Flight
  svWrites :: "SpaceWrite list"
  svEvents :: "TunnelStatusMessage list"

text \<open>What the getters of the provider-only device answer; \<open>Inl\<close> where one throws.\<close>

record 'j StatsReadings =
  srOpen :: bool
  srClientId :: string
  srPeers :: "'j list option"
  srWindow :: "string + i64"
  srPoints :: "string + 'j option"
  srDistribution :: "string + 'j option"
  srPackets :: "string + bool"
  srExtenderPoints :: "string + 'j option"
  srExtender :: "'j option option"
  srExtenderSetting :: bool
  srMeasurements :: bool

record ('e, 'b, 'j) Answers =
  anOut :: "('e, 'b) Outside"
  anLocked :: bool
  anSteady :: i64
  anVersion :: string
  anHandle :: "nat \<Rightarrow> u64"
  anLastSpace :: "string + bool"
  anSpace :: "SpaceKey \<Rightarrow> string + bool"
  anWrite :: bool
  anReset :: "string + bool"
  anRegion :: bool
  anDohUrls :: "string + string"
  anStats :: "'j StatsReadings"

section \<open>The status and its push\<close>

definition status_message :: "('e, 'b, 'j) Answers \<Rightarrow> TunnelStatus \<Rightarrow> TunnelStatusMessage" where
  "status_message a s = NewTunnelStatus\<lparr>
    msState := tsState s, msHostPort := tsRpcHostPort s, msInstanceId := tsInstanceId s,
    msSessionId := tsRpcSessionId s, msError := tsError s, msServiceVersion := anVersion a,
    msProtocolVersion := kProtocolVersion, msUpMillis := tsUpMillis s, msMode := tsMode s, msRoutes := tsRoutes s,
    msDns := tsDns s, msWfp := tsWfp s, msEgress4 := fst (tsEgress s), msEgress6 := snd (tsEgress s),
    msStopReason := tsStopReason s, msFailsafeArmed := tsFailsafeArmed s,
    msProviderRunning := tsProviderRunning s, msProviderControlMode := tsProviderControlMode s,
    msProviderMode := tsProviderTier s, msProviderKey := tsProviderKey s\<rparr>"

definition served_status :: "('e, 'b, 'j) Answers \<Rightarrow> 'e Service \<Rightarrow> TunnelStatusMessage \<times> 'e Service" where
  "served_status a s =
    (case Read (anSteady a) (svFlight s) of (upload, f) \<Rightarrow>
      ((status_message a (Status (anOut a) (svController s)))
        \<lparr>msUploadId := rdId upload, msUploadState := FlightStateToString (rdState upload),
         msUploadCarrier := (if rdId upload = 0 then '''' else CarrierToString (rdCarrier upload))\<rparr>,
       s\<lparr>svFlight := f\<rparr>))"

definition PushState :: "('e, 'b, 'j) Answers \<Rightarrow> 'e Service \<Rightarrow> 'e Service" where
  "PushState a s = (case served_status a s of (m, s') \<Rightarrow> s'\<lparr>svEvents := svEvents s' @ [m]\<rparr>)"

section \<open>Settings and network spaces\<close>

definition lock_busy :: string where
  "lock_busy = ''a tunnel operation is in progress''"

definition SettingTarget :: "'e Controller \<Rightarrow> ExtenderSettingTarget" where
  "SettingTarget c = ExtenderSettingTargetFor (tcProviderDevice c \<noteq> None) (tcDevice c \<noteq> None) (tcLastSpace c)"

definition setting_failed :: "string \<Rightarrow> ExtenderSettingTarget \<Rightarrow> string" where
  "setting_failed setting target =
    ''the '' @ setting @ '' setting could not be written to '' @ ExtenderSettingTargetToString target"

text \<open>The rule the two switches share; \<open>setting\<close> is the switch's name in the reply.\<close>

definition write_setting ::
  "('e, 'b, 'j) Answers \<Rightarrow> string \<Rightarrow> bool \<Rightarrow> 'e Service \<Rightarrow> (bool \<times> string) \<times> 'e Service" where
  "write_setting a setting on s =
    (if \<not> anLocked a then ((False, lock_busy), s)
     else
       let target = SettingTarget (svController s);
           written = (if anWrite a
             then ((True, ''''), s\<lparr>svWrites := svWrites s @ [WriteSetting setting target on]\<rparr>)
             else ((False, setting_failed setting target), s))
       in case target of
            Target_None \<Rightarrow>
              ((False, ''no device has run in this service yet, so there is no network space to keep the setting in''), s)
          | NetworkSpace \<Rightarrow>
              (case anLastSpace a of
                 Inl _ \<Rightarrow> ((False, setting_failed setting target), s)
               | Inr found \<Rightarrow> if \<not> found then ((False, ''the last device's network space is gone''), s) else written)
          | _ \<Rightarrow> written)"

definition SetProvideExtender :: "('e, 'b, 'j) Answers \<Rightarrow> bool \<Rightarrow> 'e Service \<Rightarrow> (bool \<times> string) \<times> 'e Service" where
  "SetProvideExtender a on s = write_setting a ''provide extender'' on s"

definition SetMeasurementsEnabled :: "('e, 'b, 'j) Answers \<Rightarrow> bool \<Rightarrow> 'e Service \<Rightarrow> (bool \<times> string) \<times> 'e Service" where
  "SetMeasurementsEnabled a on s = write_setting a ''measurements'' on s"

text \<open>A space the manager does not hold is not an error: there is nothing to reset, and nothing to write.\<close>

record ExtenderResetResult =
  erOk :: bool
  erReset :: bool
  erBusy :: bool
  erError :: string

definition ResetExtenders ::
  "('e, 'b, 'j) Answers \<Rightarrow> ResetExtendersMessage \<Rightarrow> 'e Service \<Rightarrow> ExtenderResetResult \<times> 'e Service" where
  "ResetExtenders a request s =
    (let none = \<lparr>erOk = False, erReset = False, erBusy = False, erError = ''''\<rparr>;
         key = ResetSpaceKeyOf request
     in if \<not> anLocked a then (none\<lparr>erBusy := True, erError := lock_busy\<rparr>, s)
        else case anSpace a key of
            Inl _ \<Rightarrow> (none\<lparr>erError := ''the network space could not be read''\<rparr>, s)
          | Inr found \<Rightarrow>
              if \<not> found then (none\<lparr>erOk := True\<rparr>, s)
              else (case anReset a of
                  Inl _ \<Rightarrow> (none\<lparr>erError := ''the extender reset could not be applied''\<rparr>, s)
                | Inr reset \<Rightarrow> (none\<lparr>erOk := True, erReset := reset\<rparr>,
                    s\<lparr>svWrites := svWrites s @ [WriteReset key (reResetId request)]\<rparr>)))"

record IngressDnsResult =
  inOk :: bool
  inHeld :: bool
  inBusy :: bool
  inError :: string

definition SetIngressDns ::
  "('e, 'b, 'j) Answers \<Rightarrow> SetIngressDnsMessage \<Rightarrow> 'e Service \<Rightarrow> IngressDnsResult \<times> 'e Service" where
  "SetIngressDns a request s =
    (let none = \<lparr>inOk = False, inHeld = False, inBusy = False, inError = ''''\<rparr>;
         key = IngressSpaceKeyOf request;
         apply_failed = none\<lparr>inError := ''the ingress dns could not be applied''\<rparr>
     in if \<not> anLocked a then (none\<lparr>inBusy := True, inError := lock_busy\<rparr>, s)
        else case anSpace a key of
            Inl _ \<Rightarrow> (none\<lparr>inError := ''the network space could not be read''\<rparr>, s)
          | Inr found \<Rightarrow>
              if \<not> found then (none\<lparr>inOk := True\<rparr>, s)
              else if \<not> anRegion a then (apply_failed, s)
              else let s1 = s\<lparr>svWrites := svWrites s @ [WriteRegion key (idCountryCode request)]\<rparr> in
                (case anDohUrls a of
                   Inl _ \<Rightarrow> (apply_failed, s1)
                 | Inr errorId \<Rightarrow>
                     if errorId \<noteq> ''''
                     then (none\<lparr>inError := ''the bootstrap DNS-over-HTTPS servers were refused: '' @ errorId\<rparr>, s1)
                     else (none\<lparr>inOk := True, inHeld := True\<rparr>,
                       s1\<lparr>svWrites := svWrites s1 @ [WriteDohUrls key (idDohUrls request)]\<rparr>)))"

section \<open>The statistics\<close>

text \<open>Each document is read on its own: one that cannot be read costs its field.\<close>

definition read_document :: "(string + 'j option) \<Rightarrow> (('j \<Rightarrow> 'j) \<Rightarrow> 'v \<Rightarrow> 'v) \<Rightarrow> 'v \<Rightarrow> 'v" where
  "read_document answer put v = (case answer of Inr (Some document) \<Rightarrow> put (\<lambda>_. document) v | _ \<Rightarrow> v)"

definition read_peers :: "'j Json \<Rightarrow> 'j list option \<Rightarrow> 'j ProviderStatsMessage \<Rightarrow> 'j ProviderStatsMessage" where
  "read_peers js peers v =
    (case peers of None \<Rightarrow> v
     | Some connected \<Rightarrow> v\<lparr>psClientCount := int (length connected), psNetworkPeers := ofArray js connected\<rparr>)"

definition read_extender :: "'j StatsReadings \<Rightarrow> 'j ProviderStatsMessage \<Rightarrow> 'j ProviderStatsMessage" where
  "read_extender r v =
    (case srExtender r of None \<Rightarrow> v
     | Some status \<Rightarrow>
         (case status of None \<Rightarrow> v | Some document \<Rightarrow> v\<lparr>psExtenderStatus := document\<rparr>)
           \<lparr>psProvideExtender := srExtenderSetting r, psProvideExtenderWritable := True,
            psMeasurements := srMeasurements r, psMeasurementsWritable := True\<rparr>)"

definition ProviderStats :: "'j Json \<Rightarrow> 'j StatsReadings \<Rightarrow> 'j ProviderStatsMessage" where
  "ProviderStats js r =
    (if \<not> srOpen r then NewProviderStats js
     else
       let v = read_peers js (srPeers r) ((NewProviderStats js)\<lparr>psAvailable := True, psClientId := srClientId r\<rparr>);
           v1 = (case srWindow r of Inr window \<Rightarrow> if window > 0 then v\<lparr>psWindowSeconds := window\<rparr> else v | Inl _ \<Rightarrow> v);
           v2 = read_document (srPoints r) psPoints_update v1;
           v3 = read_document (srDistribution r) psDistribution_update v2;
           v4 = (case srPackets r of Inr has \<Rightarrow> v3\<lparr>psHasStats := has\<rparr> | Inl _ \<Rightarrow> v3)
       in read_extender r (read_document (srExtenderPoints r) psExtenderPoints_update v4))"

section \<open>The log upload\<close>

record LogUploadResult =
  luOk :: bool
  luError :: string
  luCarrier :: string
  luUploadId :: i64
  luBusy :: bool

text \<open>An upload that ends tells the service's hook, which pushes the status.\<close>

definition finish_upload :: "('e, 'b, 'j) Answers \<Rightarrow> i64 \<Rightarrow> FlightState \<Rightarrow> 'e Service \<Rightarrow> 'e Service" where
  "finish_upload a uid state s =
    (case Finish uid state (svFlight s) of (hook, f) \<Rightarrow>
       let s1 = s\<lparr>svFlight := f\<rparr>
       in if \<not> hook then s1
          else let s2 = PushState a s1 in s2\<lparr>svFlight := HookReturned (svFlight s2)\<rparr>)"

definition UploadLogs :: "('e, 'b, 'j) Answers \<Rightarrow> 'e Service \<Rightarrow> LogUploadResult \<times> 'e Service" where
  "UploadLogs a s =
    (let none = \<lparr>luOk = False, luError = '''', luCarrier = '''', luUploadId = 0, luBusy = False\<rparr>;
         c = svController s;
         carrier = CarrierFor (tcDevice c \<noteq> None) (tcProviderDevice c \<noteq> None)
     in if \<not> anLocked a then (none\<lparr>luError := lock_busy\<rparr>, s)
        else case Begin carrier (anSteady a) (svFlight s) of (uid, f) \<Rightarrow>
          if uid = 0
          then (none\<lparr>luBusy := True, luError := ''a log upload is in flight already''\<rparr>, s\<lparr>svFlight := f\<rparr>)
          else (case upload_device (anOut a) c of
              (Inl what, c1) \<Rightarrow>
                (none\<lparr>luError := what\<rparr>, finish_upload a uid Flight_Failed (s\<lparr>svFlight := f, svController := c1\<rparr>))
            | (Inr device, c1) \<Rightarrow>
                (none\<lparr>luOk := True, luCarrier := CarrierToString carrier, luUploadId := uid\<rparr>,
                 s\<lparr>svFlight := Run uid (anHandle a device) f, svController := c1\<rparr>)))"

section \<open>The requests\<close>

definition kHello :: string where "kHello = ''hello''"
definition kStartTunnel :: string where "kStartTunnel = ''start_tunnel''"
definition kStopTunnel :: string where "kStopTunnel = ''stop_tunnel''"
definition kGetState :: string where "kGetState = ''get_state''"
definition kSetSplitTunnel :: string where "kSetSplitTunnel = ''set_split_tunnel''"
definition kSetKillSwitch :: string where "kSetKillSwitch = ''set_kill_switch''"
definition kLogout :: string where "kLogout = ''logout''"
definition kStartProvider :: string where "kStartProvider = ''start_provider''"
definition kStopProvider :: string where "kStopProvider = ''stop_provider''"
definition kGetProviderStats :: string where "kGetProviderStats = ''get_provider_stats''"
definition kSetNetworkCountry :: string where "kSetNetworkCountry = ''set_network_country''"
definition kUploadLogs :: string where "kUploadLogs = ''upload_logs''"
definition kSetProvideExtender :: string where "kSetProvideExtender = ''set_provide_extender''"
definition kSetMeasurementsEnabled :: string where "kSetMeasurementsEnabled = ''set_measurements_enabled''"
definition kResetExtenders :: string where "kResetExtenders = ''reset_extenders''"
definition kSetIngressDns :: string where "kSetIngressDns = ''set_ingress_dns''"

text \<open>The parts of a request that the controller's model takes.\<close>

definition tunnel_config :: "'j Json \<Rightarrow> StartTunnelMessage \<Rightarrow> StartTunnel" where
  "tunnel_config js m =
    \<lparr>stIdentity = TunnelIdentityOf js m, stMode = smMode m, stKillSwitch = smKillSwitch m,
     stRpcHostPort = smHostPort m, stRpcSessionId = smSessionId m, stExcluded = smExcluded m,
     stAllowlist = smAllowlist m, stCountry = (smCountryCode m, smCountrySource m)\<rparr>"

definition provider_request :: "'j Json \<Rightarrow> StartProviderMessage \<Rightarrow> StartProvider" where
  "provider_request js m =
    \<lparr>spIdentity = ProviderIdentityOf js m, spProvideMode = pmProvideMode m, spTransport = pmTransport m,
     spCountry = (pmCountryCode m, pmCountrySource m)\<rparr>"

text \<open>The tests a request passes before anything is torn down or built.\<close>

definition start_admissible :: "StartTunnelMessage \<Rightarrow> bool" where
  "start_admissible m \<longleftrightarrow>
    \<not> (\<not> IsPairableInstanceId (smInstanceId m) \<or> \<not> IsOpaqueSessionId (smSessionId m) \<or> smServerPem m = '''' \<or>
       smClientCertPem m = '''' \<or>
       take 10 (smHostPort m) \<noteq> ''127.0.0.1:'')"

definition provider_admissible :: "StartProviderMessage \<Rightarrow> bool" where
  "provider_admissible m \<longleftrightarrow>
    \<not> (\<not> IsPairableInstanceId (pmInstanceId m) \<or> pmByJwt m = '''' \<or> pmSpaceJson m = '''')"

definition upload_admissible :: "UploadLogsMessage \<Rightarrow> bool" where
  "upload_admissible m \<longleftrightarrow>
    \<not> (\<not> LooksLikeFeedbackId (ulFeedbackId m) \<or> \<not> IsPairableInstanceId (ulInstanceId m) \<or> ulByJwt m = '''' \<or>
       ulSpaceJson m = '''')"

definition with_status :: "('e, 'b, 'j) Answers \<Rightarrow> 'j Reply \<Rightarrow> 'e Service \<Rightarrow> (string + 'j Reply) \<times> 'e Service" where
  "with_status a r s = (case served_status a s of (m, s') \<Rightarrow> (Inr (r\<lparr>rpStatus := Some m\<rparr>), s'))"

definition status_then_push :: "('e, 'b, 'j) Answers \<Rightarrow> 'j Reply \<Rightarrow> 'e Service \<Rightarrow> (string + 'j Reply) \<times> 'e Service" where
  "status_then_push a r s = (case with_status a r s of (answer, s') \<Rightarrow> (answer, PushState a s'))"

definition on_controller :: "'e Service \<Rightarrow> 'e Controller \<Rightarrow> 'e Service" where
  "on_controller s c = s\<lparr>svController := c\<rparr>"

definition handle_start_tunnel ::
  "'j Json \<Rightarrow> ('e, 'b, 'j) Answers \<Rightarrow> 'j \<Rightarrow> 'j Reply \<Rightarrow> 'e Service \<Rightarrow> (string + 'j Reply) \<times> 'e Service" where
  "handle_start_tunnel js a j r s =
    (case start_tunnel_from_json js j of
       Inl what \<Rightarrow> (Inl what, s)
     | Inr m \<Rightarrow>
         if \<not> start_admissible m
         then (Inl (''start_tunnel requires an exact instance id, RPC session id, '' @
                 ''loopback endpoint, and per-session mTLS credentials''), s)
         else
           let c = StartLocked (anOut a) (tunnel_config js m) (svController s);
               st = status_message a (tcMirror c)
           in (Inr (r\<lparr>rpOk := IsSessionLive (msState st) \<and> msMode st = smMode m, rpError := msError st,
                      rpStatus := Some st\<rparr>),
               PushState a (on_controller s c)))"

definition handle_start_provider ::
  "'j Json \<Rightarrow> ('e, 'b, 'j) Answers \<Rightarrow> 'j \<Rightarrow> 'j Reply \<Rightarrow> 'e Service \<Rightarrow> (string + 'j Reply) \<times> 'e Service" where
  "handle_start_provider js a j r s =
    (case start_provider_from_json js j of
       Inl what \<Rightarrow> (Inl what, s)
     | Inr m \<Rightarrow>
         if \<not> provider_admissible m
         then (Inl (''start_provider requires the device's client jwt, its exact instance '' @
                 ''id, and the network space''), s)
         else (case StartProviderLocked (anOut a) (anLocked a) (provider_request js m) (svController s) of
                 (Inl what, c) \<Rightarrow> status_then_push a (r\<lparr>rpError := what\<rparr>) (on_controller s c)
               | (Inr _, c) \<Rightarrow> status_then_push a (r\<lparr>rpOk := True\<rparr>) (on_controller s c)))"

definition handle_upload_logs ::
  "'j Json \<Rightarrow> ('e, 'b, 'j) Answers \<Rightarrow> 'j \<Rightarrow> 'j Reply \<Rightarrow> 'e Service \<Rightarrow> (string + 'j Reply) \<times> 'e Service" where
  "handle_upload_logs js a j r s =
    (case upload_logs_from_json js j of
       Inl what \<Rightarrow> (Inl what, s)
     | Inr m \<Rightarrow>
         if \<not> upload_admissible m
         then (Inl (''upload_logs requires the server's feedback id, the device's client '' @
                 ''jwt, its exact instance id, and the network space''), s)
         else (case UploadLogs a s of (result, s') \<Rightarrow>
                 (Inr (r\<lparr>rpOk := luOk result, rpError := luError result, rpUploadCarrier := luCarrier result,
                         rpUploadId := luUploadId result, rpUploadBusy := luBusy result\<rparr>), s')))"

text \<open>The requests that read one value: the value, or what the decoder throws, and what is done with it.\<close>

definition with_value :: "(string + 'v) \<Rightarrow> ('v \<Rightarrow> (string + 'j Reply) \<times> 'e Service) \<Rightarrow> 'e Service \<Rightarrow> (string + 'j Reply) \<times> 'e Service" where
  "with_value read act s = (case read of Inl what \<Rightarrow> (Inl what, s) | Inr v \<Rightarrow> act v)"

definition handle_session ::
  "'j Json \<Rightarrow> ('e, 'b, 'j) Answers \<Rightarrow> string \<Rightarrow> 'j \<Rightarrow> 'j Reply \<Rightarrow> 'e Service \<Rightarrow> (string + 'j Reply) \<times> 'e Service" where
  "handle_session js a kind j r s =
    (let out = anOut a; c = svController s in
     if kind = kStopTunnel
     then status_then_push a (r\<lparr>rpOk := True\<rparr>) (on_controller s (StopWith out (anLocked a) True c))
     else if kind = kSetSplitTunnel
     then with_value (set_split_tunnel_from_json js j) (\<lambda>m.
       with_status a (r\<lparr>rpOk := True\<rparr>) (on_controller s (SetSplitTunnel (ssExcluded m) (ssAllowlist m) c))) s
     else if kind = kSetKillSwitch
     then with_value (set_kill_switch_from_json js j) (\<lambda>on.
       case SetKillSwitch out on c of (ok, c') \<Rightarrow> status_then_push a (r\<lparr>rpOk := ok\<rparr>) (on_controller s c')) s
     else if kind = kLogout
     then with_value (logout_from_json js j) (\<lambda>spaceJson.
       case Logout out (anLocked a) spaceJson c of (ok, c') \<Rightarrow>
         status_then_push a (r\<lparr>rpOk := ok\<rparr>) (on_controller s c')) s
     else if kind = kStopProvider
     then (case StopProvider out (anLocked a) c of (ok, c') \<Rightarrow>
         status_then_push a (r\<lparr>rpOk := ok\<rparr>) (on_controller s c'))
     else with_value (set_network_country_from_json js j) (\<lambda>m.
       with_status a (r\<lparr>rpOk := True\<rparr>) (on_controller s (SetNetworkCountry (ncCode m) (ncSource m) c))) s)"

definition handle_settings ::
  "'j Json \<Rightarrow> ('e, 'b, 'j) Answers \<Rightarrow> string \<Rightarrow> 'j \<Rightarrow> 'j Reply \<Rightarrow> 'e Service \<Rightarrow> (string + 'j Reply) \<times> 'e Service" where
  "handle_settings js a kind j r s =
    (if kind = kGetProviderStats
     then (Inr (r\<lparr>rpOk := True, rpProviderStats := Some (ProviderStats js (anStats a))\<rparr>), s)
     else if kind = kSetProvideExtender
     then with_value (set_provide_extender_from_json js j) (\<lambda>on.
       case SetProvideExtender a on s of ((ok, what), s') \<Rightarrow> (Inr (r\<lparr>rpOk := ok, rpError := what\<rparr>), s')) s
     else if kind = kSetMeasurementsEnabled
     then with_value (set_measurements_enabled_from_json js j) (\<lambda>on.
       case SetMeasurementsEnabled a on s of ((ok, what), s') \<Rightarrow> (Inr (r\<lparr>rpOk := ok, rpError := what\<rparr>), s')) s
     else if kind = kResetExtenders
     then with_value (reset_extenders_from_json js j) (\<lambda>m.
       case ResetExtenders a m s of (result, s') \<Rightarrow>
         (Inr (r\<lparr>rpOk := erOk result, rpReset := erReset result, rpResetBusy := erBusy result,
                 rpError := erError result\<rparr>), s')) s
     else with_value (set_ingress_dns_from_json js j) (\<lambda>m.
       case SetIngressDns a m s of (result, s') \<Rightarrow>
         (Inr (r\<lparr>rpOk := inOk result, rpIngressHeld := inHeld result, rpIngressBusy := inBusy result,
                 rpError := inError result\<rparr>), s')) s)"

definition session_kinds :: "string list" where
  "session_kinds = [kStopTunnel, kSetSplitTunnel, kSetKillSwitch, kLogout, kStopProvider, kSetNetworkCountry]"

definition settings_kinds :: "string list" where
  "settings_kinds = [kGetProviderStats, kSetProvideExtender, kSetMeasurementsEnabled, kResetExtenders, kSetIngressDns]"

definition dispatch ::
  "'j Json \<Rightarrow> ('e, 'b, 'j) Answers \<Rightarrow> string \<Rightarrow> 'j \<Rightarrow> 'j Reply \<Rightarrow> 'e Service \<Rightarrow> (string + 'j Reply) \<times> 'e Service" where
  "dispatch js a kind j r s =
    (if kind = kHello \<or> kind = kGetState then with_status a (r\<lparr>rpOk := True\<rparr>) s
     else if kind = kStartTunnel then handle_start_tunnel js a j r s
     else if kind = kStartProvider then handle_start_provider js a j r s
     else if kind = kUploadLogs then handle_upload_logs js a j r s
     else if List.member session_kinds kind then handle_session js a kind j r s
     else if List.member settings_kinds kind then handle_settings js a kind j r s
     else (Inr (r\<lparr>rpError := ''unknown request type: '' @ kind\<rparr>), s))"

definition Handle ::
  "'j Json \<Rightarrow> ('e, 'b, 'j) Answers \<Rightarrow> 'j \<Rightarrow> 'e Service \<Rightarrow> 'j Reply \<times> 'e Service" where
  "Handle js a j s =
    (let r = NewReply\<lparr>rpInReplyTo := TypeOf js j\<rparr>
     in case dispatch js a (TypeOf js j) j r s of
          (Inl what, s') \<Rightarrow> (r\<lparr>rpError := what\<rparr>, s')
        | (Inr reply, s') \<Rightarrow> (reply, s'))"

definition NewService :: "'e \<Rightarrow> i64 \<Rightarrow> 'e Service" where
  "NewService e firstId =
    \<lparr>svController = InitController e, svFlight = SetOnFinished (NewFlight firstId), svWrites = [], svEvents = []\<rparr>"

text \<open>The end of the service: the controller's own stop, with its device closed.\<close>

definition StopServer :: "('e, 'b, 'j) Answers \<Rightarrow> 'e Service \<Rightarrow> 'e Service" where
  "StopServer a s = on_controller s (StopWith (anOut a) (anLocked a) False (svController s))"

definition serve :: "'j Json \<Rightarrow> 'e Service \<Rightarrow> ('e, 'b, 'j) Answers \<times> 'j \<Rightarrow> 'e Service" where
  "serve js s request = snd (Handle js (fst request) (snd request) s)"

section \<open>The dispatcher over the controller's machine\<close>

definition steps :: "'e Controller \<Rightarrow> ('e, 'b) Outside \<Rightarrow> 'e Controller \<Rightarrow> bool" where
  "steps c out c' \<longleftrightarrow> c' = c \<or> (\<exists>request. c' = controller_step c (out, request))"

lemma stepsI: "c' = controller_step c (out, request) \<Longrightarrow> steps c out c'"
  by (auto simp: steps_def)

lemma steps_same [simp]: "steps c out c"
  by (simp add: steps_def)

lemma status_frame [simp]:
  "svController (snd (served_status a s)) = svController s" "svEvents (snd (served_status a s)) = svEvents s"
  "svController (PushState a s) = svController s"
  "svEvents (PushState a s) = svEvents s @ [fst (served_status a s)]"
  "svController (snd (with_status a r s)) = svController s" "svEvents (snd (with_status a r s)) = svEvents s"
  "svController (snd (status_then_push a r s)) = svController s"
  "svController (finish_upload a uid state s) = svController s"
  "svController (on_controller s c) = c" "svEvents (on_controller s c) = svEvents s"
  by (simp_all add: served_status_def PushState_def with_status_def status_then_push_def finish_upload_def on_controller_def Let_def
      split: prod.split)

lemma write_setting_frame:
  "svController (snd (write_setting a setting on s)) = svController s"
  "svEvents (snd (write_setting a setting on s)) = svEvents s"
  by (cases "SettingTarget (svController s)"; cases "anLastSpace a"; simp add: write_setting_def Let_def)+

lemma reset_frame:
  "svController (snd (ResetExtenders a reset s)) = svController s" "svEvents (snd (ResetExtenders a reset s)) = svEvents s"
  by (cases "anSpace a (ResetSpaceKeyOf reset)"; cases "anReset a"; simp add: ResetExtenders_def Let_def)+

lemma ingress_frame:
  "svController (snd (SetIngressDns a dns s)) = svController s" "svEvents (snd (SetIngressDns a dns s)) = svEvents s"
  by (cases "anSpace a (IngressSpaceKeyOf dns)"; cases "anDohUrls a"; simp add: SetIngressDns_def Let_def)+

lemmas settings_frame [simp] =
  write_setting_frame [where setting = "''provide extender''", folded SetProvideExtender_def]
  write_setting_frame [where setting = "''measurements''", folded SetMeasurementsEnabled_def] reset_frame ingress_frame

lemma upload_steps: "steps (svController s) (anOut a) (svController (snd (UploadLogs a s)))"
proof -
  have "steps (svController s) (anOut a) c" if "upload_device (anOut a) (svController s) = (x, c)" for x c
    using that by (intro stepsI [where request = Req_UploadDevice]) simp
  then show ?thesis
    by (simp add: UploadLogs_def Let_def split: prod.split sum.split)
qed

lemma start_tunnel_steps: "steps (svController s) (anOut a) (svController (snd (handle_start_tunnel js a j r s)))"
  using stepsI [of _ "svController s" "anOut a" "Req_Start config" for config]
  by (simp add: handle_start_tunnel_def Let_def split: sum.split)

lemma start_provider_steps: "steps (svController s) (anOut a) (svController (snd (handle_start_provider js a j r s)))"
proof -
  have "steps (svController s) (anOut a) c" if "StartProviderLocked (anOut a) locked request (svController s) = (x, c)"
    for locked request x c
    using that by (intro stepsI [where request = "Req_StartProvider locked request"]) simp
  then show ?thesis by (simp add: handle_start_provider_def split: sum.split prod.split)
qed

lemma upload_logs_steps: "steps (svController s) (anOut a) (svController (snd (handle_upload_logs js a j r s)))"
  using upload_steps [of s a] by (simp add: handle_upload_logs_def case_prod_beta split: sum.split)

lemma session_steps: "steps (svController s) (anOut a) (svController (snd (handle_session js a kind j r s)))"
proof -
  let ?c = "svController s" and ?out = "anOut a"
  have "steps ?c ?out (StopWith ?out locked True ?c)" for locked
    by (rule stepsI [where request = "Req_Stop locked True"]) simp
  moreover have "steps ?c ?out (SetSplitTunnel paths allowlist ?c)" for paths allowlist
    by (rule stepsI [where request = "Req_SplitTunnel paths allowlist"]) simp
  moreover have "steps ?c ?out (snd (SetKillSwitch ?out on ?c))" for on
    by (rule stepsI [where request = "Req_KillSwitch on"]) simp
  moreover have "steps ?c ?out (snd (Logout ?out locked spaceJson ?c))" for locked spaceJson
    by (rule stepsI [where request = "Req_Logout locked spaceJson"]) simp
  moreover have "steps ?c ?out (snd (StopProvider ?out locked ?c))" for locked
    by (rule stepsI [where request = "Req_StopProvider locked"]) simp
  moreover have "steps ?c ?out (SetNetworkCountry cc source ?c)" for cc source
    by (rule stepsI [where request = "Req_NetworkCountry cc source"]) simp
  ultimately show ?thesis
    by (simp add: handle_session_def Let_def with_value_def case_prod_beta split: sum.split)
qed

lemma settings_controller: "svController (snd (handle_settings js a kind j r s)) = svController s"
  by (simp add: handle_settings_def with_value_def case_prod_beta split: sum.split)

lemma dispatch_steps: "steps (svController s) (anOut a) (svController (snd (dispatch js a kind j r s)))"
  by (simp add: dispatch_def start_tunnel_steps start_provider_steps upload_logs_steps session_steps settings_controller)

lemma handle_steps: "steps (svController s) (anOut a) (svController (snd (Handle js a j s)))"
  using dispatch_steps [of s a js "TypeOf js j" j "NewReply\<lparr>rpInReplyTo := TypeOf js j\<rparr>"]
  by (simp add: Handle_def Let_def case_prod_beta split: sum.split)

section \<open>What the messages claim\<close>

text \<open>A status that does not lie about the machine: routes only of a live capture, and a session that is up under
  a policy that is off or the connected one.\<close>

definition truthful :: "TunnelStatusMessage \<Rightarrow> bool" where
  "truthful m \<longleftrightarrow>
    (msRoutes m \<longrightarrow> msState m = Up \<or> msState m = Preparing) \<and>
    (msState m = Up \<longrightarrow> msWfp m = WfpStateToString Wfp_Off \<or> msWfp m = WfpStateToString Wfp_Connected) \<and>
    msProtocolVersion m = kProtocolVersion"

lemma mirror_truthful:
  assumes "controller_inv c" and "tsState st = tsState (tcMirror c)" and "tsRoutes st = tsRoutes (tcMirror c)"
    and "tsWfp st = tsWfp (tcMirror c)"
  shows "truthful (status_message a st)"
proof -
  have t: "told c" using assms(1) by (simp add: controller_inv_def settled_told)
  have m: "tsState (tcMirror c) = tcState c" "tsWfp (tcMirror c) = WfpStateToString (pState (tcWfp c))"
    and r: "tsRoutes (tcMirror c) \<Longrightarrow> tcNetConfig c \<noteq> None" using t by (simp_all add: told_def)
  have n: "tcNetConfig c \<noteq> None \<Longrightarrow> tcState c = Up \<or> tcState c = Preparing"
    using assms(1) unfolding controller_inv_def settled_def by blast
  show ?thesis
    using assms(2-4) m r n up_shape [OF assms(1)] by (auto simp: truthful_def status_message_def simp del: not_None_eq)
qed

lemma served_truthful: "controller_inv (svController s) \<Longrightarrow> truthful (fst (served_status a s))"
proof -
  assume "controller_inv (svController s)"
  then have "truthful (status_message a (Status (anOut a) (svController s)))"
    by (rule mirror_truthful) (simp_all add: Status_def Let_def)
  then show ?thesis by (simp add: served_status_def truthful_def split: prod.split)
qed

definition server_inv :: "'e Service \<Rightarrow> bool" where
  "server_inv s \<longleftrightarrow> controller_inv (svController s) \<and> list_all truthful (svEvents s)"

lemma steps_inv: "steps c out c' \<Longrightarrow> controller_inv c \<Longrightarrow> controller_inv c'"
  by (auto simp: steps_def intro: step_inv)

text \<open>What a handler adds to the events, and the status its reply carries, are served statuses of settled states.\<close>

definition answers_truly :: "'e Service \<Rightarrow> (string + 'j Reply) \<times> 'e Service \<Rightarrow> bool" where
  "answers_truly s answer \<longleftrightarrow>
    (\<exists>new. svEvents (snd answer) = svEvents s @ new \<and> list_all truthful new) \<and>
    (\<forall>reply. fst answer = Inr reply \<longrightarrow> pred_option truthful (rpStatus reply))"

lemma answers_same [simp]: "answers_truly s (Inl what, s)"
  by (simp add: answers_truly_def)

lemma answers_quiet:
  "svEvents s' = svEvents s \<Longrightarrow> rpStatus reply = None \<Longrightarrow> answers_truly s (Inr reply, s')"
  by (simp add: answers_truly_def)

lemma answers_status:
  assumes "controller_inv (svController s')" and "svEvents s' = svEvents s"
  shows "answers_truly s (with_status a r s')" and "answers_truly s (status_then_push a r s')"
  using assms served_truthful [OF assms(1), of a] served_truthful [of "snd (served_status a s')" a]
  by (simp_all add: answers_truly_def with_status_def status_then_push_def case_prod_beta)

lemma start_tunnel_answers:
  assumes "controller_inv (svController s)"
  shows "answers_truly s (handle_start_tunnel js a j r s)"
proof -
  have c: "controller_inv (StartLocked (anOut a) config (svController s))" for config by (rule StartLocked_inv [OF assms])
  then show ?thesis
    using served_truthful [of "on_controller s (StartLocked (anOut a) config (svController s))" a for config]
      mirror_truthful [OF c, where a = a]
    by (simp add: handle_start_tunnel_def answers_truly_def Let_def split: sum.split)
qed

lemma start_provider_answers:
  assumes "controller_inv (svController s)"
  shows "answers_truly s (handle_start_provider js a j r s)"
proof -
  have "controller_inv (snd (StartProviderLocked (anOut a) locked request (svController s)))" for locked request
    by (rule start_provider_inv [OF assms])
  then show ?thesis
    by (simp add: handle_start_provider_def case_prod_beta answers_status split: sum.split)
qed

lemma finish_upload_events:
  assumes "controller_inv (svController s)"
  shows "\<exists>new. svEvents (finish_upload a uid state s) = svEvents s @ new \<and> list_all truthful new"
  using served_truthful [of "s\<lparr>svFlight := f\<rparr>" a for f] assms
  by (simp add: finish_upload_def Let_def case_prod_beta)

lemma upload_events:
  assumes "controller_inv (svController s)"
  shows "\<exists>new. svEvents (snd (UploadLogs a s)) = svEvents s @ new \<and> list_all truthful new"
proof -
  have "controller_inv (snd (upload_device (anOut a) (svController s)))" by (rule upload_steps_inv [OF assms])
  then have "\<exists>new. svEvents (finish_upload a uid state (s\<lparr>svFlight := f,
      svController := snd (upload_device (anOut a) (svController s))\<rparr>)) = svEvents s @ new \<and> list_all truthful new"
    for uid state f
    using finish_upload_events [of "s\<lparr>svFlight := f, svController := snd (upload_device (anOut a) (svController s))\<rparr>"]
    by simp
  then show ?thesis by (simp add: UploadLogs_def Let_def case_prod_beta split: sum.split)
qed

lemma upload_logs_answers:
  assumes "controller_inv (svController s)" and "rpStatus r = None"
  shows "answers_truly s (handle_upload_logs js a j r s)"
  using upload_events [OF assms(1), of a] assms(2)
  by (simp add: handle_upload_logs_def answers_truly_def case_prod_beta split: sum.split)

lemma session_answers:
  assumes "controller_inv (svController s)"
  shows "answers_truly s (handle_session js a kind j r s)"
  by (simp add: handle_session_def Let_def with_value_def case_prod_beta answers_status stop_with_inv kill_switch_inv
      split_egress_inv logout_inv StopProvider_def retire_inv assms split: sum.split)

lemma settings_answers: "rpStatus r = None \<Longrightarrow> answers_truly s (handle_settings js a kind j r s)"
  by (simp add: handle_settings_def with_value_def case_prod_beta answers_quiet split: sum.split)

lemma dispatch_answers:
  "controller_inv (svController s) \<Longrightarrow> rpStatus r = None \<Longrightarrow> answers_truly s (dispatch js a kind j r s)"
  by (simp add: dispatch_def answers_status start_tunnel_answers start_provider_answers upload_logs_answers
      session_answers settings_answers answers_quiet)

lemma handle_truthful:
  assumes "server_inv s"
  shows "server_inv (snd (Handle js a j s)) \<and> pred_option truthful (rpStatus (fst (Handle js a j s)))"
proof -
  let ?r = "NewReply\<lparr>rpInReplyTo := TypeOf js j\<rparr>"
  have i: "controller_inv (svController s)" using assms by (simp add: server_inv_def)
  have "answers_truly s (dispatch js a (TypeOf js j) j ?r s)"
    by (rule dispatch_answers [OF i]) (simp add: NewReply_def)
  with steps_inv [OF dispatch_steps [of s a js "TypeOf js j" j ?r] i] assms show ?thesis
    by (auto simp: Handle_def Let_def case_prod_beta server_inv_def answers_truly_def NewReply_def split: sum.splits)
qed

interpretation server: observer "serve js" server_inv "\<lambda>_ _. True"
  by unfold_locales (simp add: serve_def handle_truthful)

lemma new_service_inv: "server_inv (NewService e firstId)"
  by (simp add: server_inv_def NewService_def init_inv)

section \<open>The clamp, seen from the pipe\<close>

lemma clamped_admit_mode:
  assumes "clamped c" and "IsSessionLive (tcState (admit_session out config c))"
  shows "tcMode (admit_session out config c) = Mode_RpcOnly"
proof -
  have run: "tcMode (run_session out config x) = Mode_RpcOnly"
    if x: "clamped x" and live: "IsSessionLive (tcState (run_session out config x))" for x
  proof -
    have "rpc_session (widen_for_attempt out (begin_session out config x))"
      using x by (cases "stMode config")
        (simp_all add: widen_for_attempt_def begin_session_def Let_def rpc_session_def clamped_def untouched_def)
    from steps_rpc [OF this, of out config] live show ?thesis
      by (cases "start_steps out config (widen_for_attempt out (begin_session out config x))")
        (simp_all add: run_session_def rpc_session_def IsSessionLive_def)
  qed
  have "clamped (c\<lparr>tcStops := s\<rparr>)" for s using assms(1) by (simp add: clamped_def untouched_def)
  note r = run [OF this]
  show ?thesis
    using assms(2) r by (auto simp: admit_session_def IsSessionLive_def split: if_splits prod.splits)
qed

lemma close_handed_published:
  "tcState (CloseHandedOffDeviceLocked out c) = tcState c" "tcMode (CloseHandedOffDeviceLocked out c) = tcMode c"
  "tcError (CloseHandedOffDeviceLocked out c) = tcError c" "tcMirror (CloseHandedOffDeviceLocked out c) = tcMirror c"
  by (simp_all add: CloseHandedOffDeviceLocked_def run_worker_def split: prod.split)

lemma start_published:
  "tsState (tcMirror (StartLocked out config c)) = tcState (StartLocked out config c)"
  "tsMode (tcMirror (StartLocked out config c)) = tcMode (StartLocked out config c)"
  "tsError (tcMirror (StartLocked out config c)) = tcError (StartLocked out config c)"
  by (simp_all add: StartLocked_def Let_def close_handed_published ComposeStatusLocked_def)

lemma clamped_start_mode:
  assumes "clamped c" and "IsSessionLive (tcState (StartLocked out config c))"
  shows "tcMode (StartLocked out config c) = Mode_RpcOnly"
proof -
  let ?c2 = "StopLocked out False False (TakeProviderDeviceLocked out config (c\<lparr>tcKillSwitch := stKillSwitch config\<rparr>))"
  have "clamped (TakeProviderDeviceLocked out config (c\<lparr>tcKillSwitch := stKillSwitch config\<rparr>))"
    using assms(1) by (simp add: TakeProviderDeviceLocked_def clear_provider_def clamped_def untouched_def)
  from stop_clamped [OF this, of out False False]
  have c3: "clamped (?c2\<lparr>tcReadiness := r, tcSession := n, tcStopReason := t\<rparr>)" for r n t
    by (simp add: clamped_def untouched_def)
  show ?thesis
    using assms(2) clamped_admit_mode [OF c3]
    by (simp add: StartLocked_def Let_def close_handed_published split: if_splits)
qed

lemma clamped_served: "clamped (svController s) \<Longrightarrow> clamped (svController (serve js s request))"
  using handle_steps [of s "fst request" js "snd request"] step_clamped by (auto simp: serve_def steps_def)

definition ClampedService :: "'e \<Rightarrow> i64 \<Rightarrow> 'e Service" where
  "ClampedService e firstId = on_controller (NewService e firstId) (ClampToRpcOnly (InitController e))"

interpretation clamped_server: observer "serve js" "\<lambda>s. clamped (svController s)" "\<lambda>_ _. True"
  by unfold_locales (rule clamped_served)

lemma clamped_service: "clamped (svController (ClampedService e firstId))"
  by (simp add: ClampedService_def InitController_def ClampToRpcOnly_def InitPolicy_def clamped_def untouched_def)

lemma served_steps:
  "\<exists>made. svController (run (serve js) s requests) = run controller_step (svController s) made \<and>
    map fst made \<in> set (subseqs (map (\<lambda>request. anOut (fst request)) requests))"
proof (induction requests arbitrary: s)
  case Nil
  show ?case by (rule exI [of _ "[]"]) simp
next
  case (Cons request requests)
  obtain rest where
    r: "svController (run (serve js) (serve js s request) requests) =
      run controller_step (svController (serve js s request)) rest"
      "map fst rest \<in> set (subseqs (map (\<lambda>request. anOut (fst request)) requests))"
    using Cons [of "serve js s request"] by blast
  have "steps (svController s) (anOut (fst request)) (svController (serve js s request))"
    by (simp add: serve_def handle_steps)
  then show ?case
  proof (unfold steps_def, elim disjE exE)
    assume "svController (serve js s request) = svController s"
    with r show ?thesis by (intro exI [of _ rest]) (simp add: Let_def)
  next
    fix q assume "svController (serve js s request) = controller_step (svController s) (anOut (fst request), q)"
    with r show ?thesis by (intro exI [of _ "(anOut (fst request), q) # rest"]) (simp add: Let_def)
  qed
qed

lemma failed_upload_free:
  assumes "uid \<noteq> 0" and "rdId (flReading (svFlight s)) = uid" and "rdState (flReading (svFlight s)) = Running"
    and "\<not> flCalling (svFlight s)" and "\<not> flReleasing (svFlight s)"
  shows "\<not> BusyWithLock (svFlight (finish_upload a uid Flight_Failed s))"
  using assms
  by (simp add: finish_upload_def Finish_def IsFinished_def Let_def PushState_def served_status_def Read_def
      ExpireSilentWithLock_def HookReturned_def BusyWithLock_def)

lemma upload_device_held:
  "upload_device out c = (Inr device, c1) \<Longrightarrow> Some device \<in> {tcDevice c1, tcProviderDevice c1, tcLogUpload c1}"
  by (auto simp: upload_device_def open_upload_device_def Let_def split: option.splits prod.splits sum.splits if_splits)

section \<open>Properties\<close>



text \<open>
  (C24) A message that is not what it has to be touches nothing. A start of the tunnel, of the provider or of an
  upload whose fields do not decode or do not pass their tests, and a message of no known type, leave the
  session, the flight and every setting as they were, and are answered as failed.
\<close>

theorem refused_untouched:
  assumes "TypeOf js j = kStartTunnel \<and> (\<nexists>m. start_tunnel_from_json js j = Inr m \<and> start_admissible m) \<or>
    TypeOf js j = kStartProvider \<and> (\<nexists>m. start_provider_from_json js j = Inr m \<and> provider_admissible m) \<or>
    TypeOf js j = kUploadLogs \<and> (\<nexists>m. upload_logs_from_json js j = Inr m \<and> upload_admissible m) \<or>
    TypeOf js j \<notin> {kHello, kGetState, kStartTunnel, kStartProvider, kUploadLogs} \<union> set session_kinds \<union> set settings_kinds"
  shows "snd (Handle js a j s) = s \<and> \<not> rpOk (fst (Handle js a j s)) \<and> rpStatus (fst (Handle js a j s)) = None"
proof -
  have base: "\<not> rpOk NewReply" "rpStatus NewReply = None" by (simp_all add: NewReply_def)
  show ?thesis
    using assms
  proof (elim disjE conjE)
    assume k: "TypeOf js j = kStartTunnel" and n: "\<nexists>m. start_tunnel_from_json js j = Inr m \<and> start_admissible m"
    have t: "kStartTunnel \<noteq> kHello" "kStartTunnel \<noteq> kGetState" by (simp_all add: kStartTunnel_def kHello_def kGetState_def)
    show ?thesis using n
      by (cases "start_tunnel_from_json js j") (simp_all add: Handle_def Let_def k dispatch_def t handle_start_tunnel_def base)
  next
    assume k: "TypeOf js j = kStartProvider" and n: "\<nexists>m. start_provider_from_json js j = Inr m \<and> provider_admissible m"
    have t: "kStartProvider \<noteq> kHello" "kStartProvider \<noteq> kGetState" "kStartProvider \<noteq> kStartTunnel"
      by (simp_all add: kStartTunnel_def kHello_def kGetState_def kStartProvider_def)
    show ?thesis using n
      by (cases "start_provider_from_json js j")
        (simp_all add: Handle_def Let_def k dispatch_def t handle_start_provider_def base)
  next
    assume k: "TypeOf js j = kUploadLogs" and n: "\<nexists>m. upload_logs_from_json js j = Inr m \<and> upload_admissible m"
    have t: "kUploadLogs \<noteq> kHello" "kUploadLogs \<noteq> kGetState" "kUploadLogs \<noteq> kStartTunnel" "kUploadLogs \<noteq> kStartProvider"
      by (simp_all add: kStartTunnel_def kHello_def kGetState_def kStartProvider_def kUploadLogs_def)
    show ?thesis using n
      by (cases "upload_logs_from_json js j") (simp_all add: Handle_def Let_def k dispatch_def t handle_upload_logs_def base)
  next
    assume "TypeOf js j \<notin>
      {kHello, kGetState, kStartTunnel, kStartProvider, kUploadLogs} \<union> set session_kinds \<union> set settings_kinds"
    then show ?thesis by (simp add: Handle_def Let_def dispatch_def base)
  qed
qed

definition answers_sample :: "(unit, unit, JsonValue) Answers" where
  "answers_sample = \<lparr>anOut = outside_sample, anLocked = True, anSteady = 1000, anVersion = ''1.0'', anHandle = (\<lambda>d. 9),
    anLastSpace = Inr True, anSpace = (\<lambda>key. Inr True), anWrite = True, anReset = Inr True, anRegion = True,
    anDohUrls = Inr '''', anStats = \<lparr>srOpen = False, srClientId = '''', srPeers = None, srWindow = Inl '''',
      srPoints = Inl '''', srDistribution = Inl '''', srPackets = Inl '''', srExtenderPoints = Inl '''',
      srExtender = None, srExtenderSetting = False, srMeasurements = True\<rparr>\<rparr>"

theorem refused_untouched_witness:
  "snd (Handle value_json answers_sample (VObject [(''type'', VString ''start_tunnel''), (''mode'', VString ''quantum'')])
    (NewService () 1)) = NewService () 1"
proof -
  let ?j = "VObject [(''type'', VString ''start_tunnel''), (''mode'', VString ''quantum'')]"
  have "TypeOf value_json ?j = kStartTunnel" by (simp add: TypeOf_def value_json_def kStartTunnel_def)
  moreover have "\<exists>e. start_tunnel_from_json value_json ?j = Inl e"
    by (simp add: start_tunnel_from_json_def read_start_mode_def value_json_def StartModeFromString_def)
  ultimately show ?thesis using refused_untouched [of value_json ?j answers_sample "NewService () 1"] by fastforce
qed

text \<open>
  (C11) A process clamped to rpc-only never says it has a tunnel. After any sequence of messages to such a process,
  a message that asks for the tunnel is answered as failed, whatever the outside does, and no adapter, route,
  DNS setting or filter was ever made.
\<close>

theorem clamped_never_claims_tunnel:
  assumes "TypeOf js j = kStartTunnel" and "start_tunnel_from_json js j = Inr m" and "smMode m = Mode_Tunnel"
  shows "let s = run (serve js) (ClampedService e firstId) requests; answer = Handle js a j s
    in \<not> rpOk (fst answer) \<and> untouched (svController (snd answer))"
proof -
  let ?s = "run (serve js) (ClampedService e firstId) requests"
  have c: "clamped (svController ?s)" by (rule clamped_server.run_good_total [OF clamped_service]) simp
  have u: "untouched (svController (snd (Handle js a j ?s)))"
    using clamped_served [OF c, of js "(a, j)"] by (simp add: serve_def clamped_def)
  have t: "kStartTunnel \<noteq> kHello" "kStartTunnel \<noteq> kGetState" by (simp_all add: kStartTunnel_def kHello_def kGetState_def)
  have "\<not> rpOk (fst (Handle js a j ?s))"
    using clamped_start_mode [OF c, of "anOut a" "tunnel_config js m"]
    by (auto simp: Handle_def Let_def assms dispatch_def t handle_start_tunnel_def NewReply_def status_message_def
        start_published)
  with u show ?thesis by (simp add: Let_def)
qed

theorem clamped_never_claims_tunnel_witness:
  "\<not> rpOk (fst (Handle value_json answers_sample (VObject [(''type'', VString ''start_tunnel''), (''mode'', VString ''tunnel'')])
    (ClampedService () 1)))"
proof -
  let ?j = "VObject [(''type'', VString ''start_tunnel''), (''mode'', VString ''tunnel'')]"
  have "TypeOf value_json ?j = kStartTunnel" by (simp add: TypeOf_def value_json_def kStartTunnel_def)
  moreover have "start_tunnel_from_json value_json ?j = Inr NewStartTunnel" by code_simp
  moreover have "smMode NewStartTunnel = Mode_Tunnel" by (simp add: NewStartTunnel_def)
  ultimately show ?thesis
    using clamped_never_claims_tunnel [of value_json ?j NewStartTunnel "()" 1 "[]" answers_sample] by (simp add: Let_def)
qed

text \<open>
  An upload is admitted on a device the service has, or leaves the way free. One that is accepted runs on the
  handle of a device the controller holds, under the id it was given; one refused because another is in
  flight touches nothing of the session; and one that fails after its admission is over, so the next is not
  refused because of it.
\<close>

theorem upload_admitted_or_free:
  assumes "UploadLogs a s = (result, s')"
  shows "(luOk result \<longrightarrow> \<not> luBusy result \<and> flCalling (svFlight s') \<and> flCallingId (svFlight s') = luUploadId result \<and>
      luUploadId result \<noteq> 0 \<and>
      (\<exists>device. flCallingDevice (svFlight s') = anHandle a device \<and>
        Some device \<in> {tcDevice (svController s'), tcProviderDevice (svController s'), tcLogUpload (svController s')})) \<and>
    (luBusy result \<longrightarrow> \<not> luOk result \<and> svController s' = svController s) \<and>
    (anLocked a \<and> \<not> luOk result \<and> \<not> luBusy result \<longrightarrow> \<not> BusyWithLock (svFlight s'))"
proof -
  let ?c = "svController s"
  let ?carrier = "CarrierFor (tcDevice ?c \<noteq> None) (tcProviderDevice ?c \<noteq> None)"
  obtain uid f where b: "Begin ?carrier (anSteady a) (svFlight s) = (uid, f)" by fastforce
  show ?thesis
  proof (cases "anLocked a \<and> uid \<noteq> 0")
    case False
    then show ?thesis using assms by (cases "anLocked a") (auto simp: UploadLogs_def Let_def b simp del: not_None_eq)
  next
    case True
    then have began: "uid \<noteq> 0" "rdId (flReading f) = uid" "rdState (flReading f) = Running" "\<not> flCalling f" "\<not> flReleasing f"
      using b by (auto simp: Begin_def Let_def BusyWithLock_def ExpireSilentWithLock_def split: if_splits)
    obtain x c1 where d: "upload_device (anOut a) ?c = (x, c1)" by fastforce
    show ?thesis
    proof (cases x)
      case (Inl what)
      have "\<not> BusyWithLock (svFlight (finish_upload a uid Flight_Failed (s\<lparr>svFlight := f, svController := c1\<rparr>)))"
        using began by (intro failed_upload_free) simp_all
      with assms True show ?thesis by (auto simp: UploadLogs_def Let_def b d Inl simp del: not_None_eq)
    next
      case (Inr device)
      from d have "Some device \<in> {tcDevice c1, tcProviderDevice c1, tcLogUpload c1}" unfolding Inr by (rule upload_device_held)
      with assms True began show ?thesis by (auto simp: UploadLogs_def Let_def b d Inr Run_def simp del: not_None_eq)
    qed
  qed
qed

theorem upload_admitted_or_free_witness:
  "\<exists>result s'. UploadLogs answers_sample (NewService () 1) = (result, s') \<and> luOk result \<and> luUploadId result = 1 \<and>
    flCalling (svFlight s')"
proof -
  obtain result s' where u: "UploadLogs answers_sample (NewService () 1) = (result, s')" by fastforce
  have "luOk result" "luUploadId result = 1"
    using u by (simp_all add: UploadLogs_def Let_def upload_device_def open_upload_device_def ImportNetworkSpaceLocked_def
      RetireLogUploadDeviceLocked_def NewService_def NewFlight_def SetOnFinished_def InitController_def answers_sample_def
      outside_sample_def Begin_def ExpireSilentWithLock_def BusyWithLock_def SweepAbandonedTeardowns_def
      ResetStopBudgetForTest_def StandaloneRefusalFor_def prod_eq_iff split: prod.splits if_splits) auto
  with u upload_admitted_or_free [OF u] show ?thesis by blast
qed

end
