(* ===== verification/PacketPump.thy ===== *)
theory PacketPump
  imports Prelude
begin

text \<open>
  The packet data path (\<^verbatim>\<open>Service/PacketPump.h, .cpp\<close>): the framing of the batches that cross to and from
  the SDK, the two counters the failsafe judges by, the outbound loop with its stop flag, and the stop of
  the pump against a receive callback that may still be running. The ring, the stop flag and the wait are
  read through functions of the number of the reading, so another thread may change them at any time.
\<close>

type_synonym packet = "8 word list"

definition kMaxPacketCount :: nat where "kMaxPacketCount = 64"

section \<open>The framing of a batch\<close>

text \<open>Each packet behind its length in two bytes, the high one first.\<close>

definition frame :: "packet \<Rightarrow> 8 word list" where
  "frame p = [of_nat (length p div 256), of_nat (length p mod 256)] @ p"

definition packet_length :: "8 word \<Rightarrow> 8 word \<Rightarrow> nat" where
  "packet_length hi lo = 256 * unat hi + unat lo"

text \<open>The walk of the receive callback: it ends at the first frame that does not fit.\<close>

fun walk_batch :: "8 word list \<Rightarrow> packet list" where
  "walk_batch (hi # lo # rest) =
    (let packetByteCount = packet_length hi lo
     in if packetByteCount = 0 \<or> length rest < packetByteCount then []
        else take packetByteCount rest # walk_batch (drop packetByteCount rest))"
| "walk_batch _ = []"

text \<open>
  One gathering of the outbound loop: up to a batch of packets out of the ring, a packet too long for its
  length field released without being sent. The bytes, the number of packets and what is left in the ring.
\<close>

fun gather :: "nat \<Rightarrow> 8 word list \<Rightarrow> packet list \<Rightarrow> 8 word list \<times> nat \<times> packet list" where
  "gather packetCount bytes [] = (bytes, packetCount, [])"
| "gather packetCount bytes (p # ring) =
    (if \<not> packetCount < kMaxPacketCount then (bytes, packetCount, p # ring)
     else if p = [] then (bytes, packetCount, ring)
     else if length p \<le> 65535 then gather (Suc packetCount) (bytes @ frame p) ring
     else gather packetCount bytes ring)"

section \<open>The outbound loop\<close>

record Sent =
  seBatches :: "8 word list list"
  seOutbound :: u64

text \<open>
  The drain: the stop flag is tested before each gathering. \<open>running i\<close> is what the \<open>i\<close>-th test reads and
  \<open>ring i\<close> what the gathering after it finds.
\<close>

partial_function (option) drain :: "(nat \<Rightarrow> bool) \<Rightarrow> (nat \<Rightarrow> packet list) \<Rightarrow> nat \<Rightarrow> Sent \<Rightarrow> (Sent \<times> nat) option" where
  "drain running ring i sent =
    (if \<not> running i then Some (sent, Suc i)
     else case gather 0 [] (ring i) of (bytes, packetCount, _) \<Rightarrow>
       if bytes = [] then Some (sent, Suc i)
       else drain running ring (Suc i)
         (sent\<lparr>seBatches := seBatches sent @ [bytes], seOutbound := seOutbound sent + of_nat packetCount\<rparr>))"

partial_function (option) OutboundLoop ::
  "(nat \<Rightarrow> bool) \<Rightarrow> (nat \<Rightarrow> packet list) \<Rightarrow> (nat \<Rightarrow> bool) \<Rightarrow> nat \<Rightarrow> Sent \<Rightarrow> Sent option" where
  "OutboundLoop running ring readSignaled i sent =
    (if \<not> running i then Some sent
     else case drain running ring (Suc i) sent of
       None \<Rightarrow> None
     | Some (sent', j) \<Rightarrow>
         if \<not> running j then Some sent'
         else if \<not> readSignaled j then Some sent'
         else OutboundLoop running ring readSignaled (Suc j) sent')"

section \<open>The pump and its receive callback\<close>

text \<open>
  The adapter of the gate outlives the pump's share of the gate: a callback holds its own. \<open>ppDelivered\<close> is
  what was written into the ring of an adapter that exists, \<open>ppFaults\<close> counts writes into one that does not.
\<close>

datatype Phase = Idle | Pumping | Signalled | Joined | GateClosed | Unsubscribed | Destroyed

record Pump =
  ppPhase :: Phase
  ppGateAdapter :: bool
  ppSubscribed :: bool
  ppInFlight :: nat
  ppInbound :: u64
  ppDelivered :: "packet list"
  ppFaults :: nat

definition NewPump :: Pump where
  "NewPump = \<lparr>ppPhase = Idle, ppGateAdapter = False, ppSubscribed = False, ppInFlight = 0, ppInbound = 0,
    ppDelivered = [], ppFaults = 0\<rparr>"

text \<open>The body of the callback, under the gate's lock for the whole batch.\<close>

definition receive_batch :: "8 word list \<Rightarrow> Pump \<Rightarrow> Pump" where
  "receive_batch bytes s =
    (let packets = walk_batch bytes;
         s1 = s\<lparr>ppInbound := ppInbound s + of_nat (length packets)\<rparr>
     in if \<not> ppGateAdapter s then s1
        else if ppPhase s = Destroyed then s1\<lparr>ppFaults := ppFaults s + length packets\<rparr>
        else s1\<lparr>ppDelivered := ppDelivered s @ packets\<rparr>)"

text \<open>
  One step of any thread: the start, the SDK beginning a dispatch (it took its snapshot of the subscribers)
  and running its body, the statements of the stop in their order, and the owner destroying the adapter once
  the stop has returned.
\<close>

inductive pump_step :: "Pump \<Rightarrow> Pump \<Rightarrow> bool" where
  Start: "ppPhase s = Idle \<Longrightarrow> pump_step s (s\<lparr>ppPhase := Pumping, ppGateAdapter := True, ppSubscribed := True\<rparr>)"
| Dispatch: "ppSubscribed s \<Longrightarrow> pump_step s (s\<lparr>ppInFlight := Suc (ppInFlight s)\<rparr>)"
| Body: "0 < ppInFlight s \<Longrightarrow> pump_step s (receive_batch bytes (s\<lparr>ppInFlight := ppInFlight s - 1\<rparr>))"
| Signal: "ppPhase s = Pumping \<Longrightarrow> pump_step s (s\<lparr>ppPhase := Signalled\<rparr>)"
| Join: "ppPhase s = Signalled \<Longrightarrow> pump_step s (s\<lparr>ppPhase := Joined\<rparr>)"
| CloseGate: "ppPhase s = Joined \<Longrightarrow> pump_step s (s\<lparr>ppPhase := GateClosed, ppGateAdapter := False\<rparr>)"
| Unsubscribe: "ppPhase s = GateClosed \<Longrightarrow> pump_step s (s\<lparr>ppPhase := Unsubscribed, ppSubscribed := False\<rparr>)"
| Destroy: "ppPhase s = Unsubscribed \<Longrightarrow> pump_step s (s\<lparr>ppPhase := Destroyed\<rparr>)"

inductive_cases pump_stepE: "pump_step s s'"

section \<open>Lemmas\<close>

lemma length_bytes: "n \<le> 65535 \<Longrightarrow> packet_length (of_nat (n div 256)) (of_nat (n mod 256)) = n"
  by (simp add: packet_length_def unat_of_nat div_less mod_less_eq_dividend less_mult_imp_div_less)

lemma walk_frame:
  "p \<noteq> [] \<Longrightarrow> length p \<le> 65535 \<Longrightarrow> walk_batch (frame p @ rest) = p # walk_batch rest"
  using length_bytes [of "length p"] by (simp add: frame_def Let_def)

definition sendable :: "packet \<Rightarrow> bool" where
  "sendable p \<longleftrightarrow> p \<noteq> [] \<and> length p \<le> 65535"

lemma walk_frames: "list_all sendable ps \<Longrightarrow> walk_batch (concat (map frame ps)) = ps"
  by (induction ps) (simp_all add: walk_frame sendable_def)

text \<open>What a gathering takes out of a ring of packets that are not empty: the first that fit, to the bound.\<close>

lemma gather_exact:
  assumes "list_all (\<lambda>p. p \<noteq> []) ring" and "packetCount \<le> kMaxPacketCount"
  shows "\<exists>taken left. gather packetCount bytes ring =
      (bytes @ concat (map frame (filter sendable taken)), packetCount + length (filter sendable taken), left) \<and>
    ring = taken @ left \<and> packetCount + length (filter sendable taken) \<le> kMaxPacketCount \<and>
    (left \<noteq> [] \<longrightarrow> packetCount + length (filter sendable taken) = kMaxPacketCount)"
  using assms
proof (induction packetCount bytes ring rule: gather.induct)
  case (2 packetCount bytes p ring)
  show ?case
  proof (cases "packetCount < kMaxPacketCount")
    case False
    then show ?thesis using 2(4) by - (rule exI [of _ "[]"], rule exI [of _ "p # ring"], simp)
  next
    case True
    have ne: "p \<noteq> []" "list_all (\<lambda>p. p \<noteq> []) ring" using 2(3) by simp_all
    show ?thesis
    proof (cases "length p \<le> 65535")
      case fit: True
      obtain taken left where "gather (Suc packetCount) (bytes @ frame p) ring =
          ((bytes @ frame p) @ concat (map frame (filter sendable taken)),
           Suc packetCount + length (filter sendable taken), left)" "ring = taken @ left"
        "Suc packetCount + length (filter sendable taken) \<le> kMaxPacketCount"
        "left \<noteq> [] \<longrightarrow> Suc packetCount + length (filter sendable taken) = kMaxPacketCount"
        using 2(1) [OF _ _ fit] True ne by force
      moreover have "sendable p" using ne fit by (simp add: sendable_def)
      ultimately show ?thesis using True ne fit by - (rule exI [of _ "p # taken"], rule exI [of _ left], simp)
    next
      case long: False
      obtain taken left where "gather packetCount bytes ring =
          (bytes @ concat (map frame (filter sendable taken)), packetCount + length (filter sendable taken), left)"
        "ring = taken @ left" "packetCount + length (filter sendable taken) \<le> kMaxPacketCount"
        "left \<noteq> [] \<longrightarrow> packetCount + length (filter sendable taken) = kMaxPacketCount"
        using 2(2) [OF _ _ long] True ne by force
      moreover have "\<not> sendable p" using ne long by (simp add: sendable_def)
      ultimately show ?thesis using True ne long by - (rule exI [of _ "p # taken"], rule exI [of _ left], simp)
    qed
  qed
qed auto

lemma frame_nonempty [simp]: "frame p \<noteq> []"
  by (simp add: frame_def)

text \<open>The drain and the loop return once a test of the flag reads that the pump stops.\<close>

lemma drain_stops:
  assumes "\<not> running k" and "i \<le> k"
  shows "\<exists>sent' j. drain running ring i sent = Some (sent', j) \<and> i < j \<and> j \<le> Suc k \<and>
    length (seBatches sent') + i < length (seBatches sent) + j"
  using assms(2)
proof (induction "k - i" arbitrary: i sent)
  case 0
  then have "i = k" by simp
  then show ?case using assms(1) by (subst drain.simps) simp
next
  case (Suc d)
  obtain bytes n left where g: "gather 0 [] (ring i) = (bytes, n, left)" by (cases "gather 0 [] (ring i)")
  show ?case
  proof (cases "running i \<and> bytes \<noteq> []")
    case False
    then show ?thesis using Suc(3) g by (subst drain.simps) auto
  next
    case True
    let ?next = "sent\<lparr>seBatches := seBatches sent @ [bytes], seOutbound := seOutbound sent + of_nat n\<rparr>"
    have "i \<noteq> k" using True assms(1) by blast
    then have m: "d = k - Suc i" "Suc i \<le> k" using Suc(2,3) by simp_all
    obtain sent' j where r: "drain running ring (Suc i) ?next = Some (sent', j)"
      and b: "Suc i < j" "j \<le> Suc k" "length (seBatches sent') + Suc i < length (seBatches ?next) + j"
      using Suc(1) [OF m, of ?next] by blast
    have "drain running ring i sent = Some (sent', j)" using True g r by (subst drain.simps) simp
    moreover have "i < j" "length (seBatches sent') + i < length (seBatches sent) + j" using b by simp_all
    ultimately show ?thesis using b(2) by blast
  qed
qed

lemma loop_stops:
  assumes "\<And>k'. k \<le> k' \<Longrightarrow> \<not> running k'"
  shows "\<exists>sent'. OutboundLoop running ring readSignaled i sent = Some sent' \<and>
    length (seBatches sent') \<le> length (seBatches sent) + (k - i)"
proof (induction "k - i" arbitrary: i sent rule: less_induct)
  case less
  show ?case
  proof (cases "running i")
    case False
    then show ?thesis by (subst OutboundLoop.simps) simp
  next
    case True
    then have ik: "i < k" using assms [of i] by force
    obtain sent' j where d: "drain running ring (Suc i) sent = Some (sent', j)" "Suc i < j" "j \<le> Suc k"
      "length (seBatches sent') + Suc i < length (seBatches sent) + j"
      using drain_stops [of running k "Suc i" ring sent] assms [of k] ik by auto
    show ?thesis
    proof (cases "running j \<and> readSignaled j")
      case False
      then show ?thesis using True d ik by (subst OutboundLoop.simps) auto
    next
      case go: True
      then have jk: "j < k" using assms [of j] by force
      have "k - Suc j < k - i" using jk d(2) by linarith
      then obtain final where r: "OutboundLoop running ring readSignaled (Suc j) sent' = Some final"
        and b: "length (seBatches final) \<le> length (seBatches sent') + (k - Suc j)"
        using less [of "Suc j" sent'] by blast
      have "OutboundLoop running ring readSignaled i sent = Some final"
        using True go d(1) r by (subst OutboundLoop.simps) simp
      moreover have "length (seBatches final) \<le> length (seBatches sent) + (k - i)" using b d(2,4) jk by linarith
      ultimately show ?thesis by blast
    qed
  qed
qed

text \<open>The invariant of the pump: its gate names an adapter only before the gate is closed.\<close>

definition pump_inv :: "Pump \<Rightarrow> bool" where
  "pump_inv s \<longleftrightarrow> ppFaults s = 0 \<and>
    (ppGateAdapter s \<longrightarrow> ppPhase s = Pumping \<or> ppPhase s = Signalled \<or> ppPhase s = Joined)"

lemma pump_step_inv: "pump_step s s' \<Longrightarrow> pump_inv s \<Longrightarrow> pump_inv s'"
  by (induction rule: pump_step.induct) (auto simp: pump_inv_def receive_batch_def Let_def)

lemma pump_reach_inv: "pump_step\<^sup>*\<^sup>* s s' \<Longrightarrow> pump_inv s \<Longrightarrow> pump_inv s'"
  by (induction rule: rtranclp_induct) (auto intro: pump_step_inv)

section \<open>Properties\<close>

text \<open>
  (C40) A batch is read back as it was gathered. Whatever the ring holds, the bytes the outbound loop hands over
  are walked by the receiving side's code into exactly the packets it took, the first that fit the length
  field, at most sixty-four of them; the counter is their number; the ring is emptied unless the batch is
  full; and the batch's size fits the 32-bit count it is passed with.
\<close>

theorem batch_roundtrip:
  assumes "list_all (\<lambda>p. p \<noteq> []) ring" and "gather 0 [] ring = (bytes, packetCount, left)"
  shows "\<exists>taken. ring = taken @ left \<and> walk_batch bytes = filter sendable taken \<and>
    packetCount = length (filter sendable taken) \<and> packetCount \<le> kMaxPacketCount \<and>
    (left \<noteq> [] \<longrightarrow> packetCount = kMaxPacketCount) \<and> length bytes < 2 ^ 31"
proof -
  obtain taken where t: "bytes = concat (map frame (filter sendable taken))"
    "packetCount = length (filter sendable taken)" "ring = taken @ left" "packetCount \<le> kMaxPacketCount"
    "left \<noteq> [] \<longrightarrow> packetCount = kMaxPacketCount"
    using gather_exact [OF assms(1), of 0 "[]"] assms(2) by auto
  have "list_all sendable ps \<Longrightarrow> length (concat (map frame ps)) \<le> 65537 * length ps" for ps
    by (induction ps) (auto simp: frame_def sendable_def)
  from this [of "filter sendable taken"] have "length bytes \<le> 65537 * packetCount"
    using t(1,2) by (simp add: list_all_iff)
  also have "\<dots> \<le> 65537 * 64" using t(4) by (simp add: kMaxPacketCount_def)
  finally have "length bytes < 2 ^ 31" by simp
  moreover have "walk_batch bytes = filter sendable taken"
    unfolding t(1) by (rule walk_frames) (simp add: list_all_iff)
  ultimately show ?thesis using t by blast
qed

theorem batch_roundtrip_witness:
  "walk_batch (fst (gather 0 [] [[1, 2], [3]])) = [[1, 2], [3]]"
proof -
  obtain bytes n left where g: "gather 0 [] [[1, 2], [3]] = (bytes, n, left)" by (cases "gather 0 [] [[1 :: 8 word, 2], [3]]")
  have "left = []" using g by (simp add: kMaxPacketCount_def)
  with g batch_roundtrip [OF _ g] show ?thesis by (auto simp: sendable_def)
qed

text \<open>
  (C30) The outbound thread ends once the pump stops, however fast the ring refills: from the first test of the
  stop flag that reads false, whatever the ring holds and whatever the wait answers, the loop returns, and
  it has handed over at most one batch for each test before.
\<close>

theorem stop_ends_outbound:
  assumes "\<And>k'. k \<le> k' \<Longrightarrow> \<not> running k'"
  shows "\<exists>sent'. OutboundLoop running ring readSignaled 0 \<lparr>seBatches = [], seOutbound = 0\<rparr> = Some sent' \<and>
    length (seBatches sent') \<le> k"
  using loop_stops [of k running ring readSignaled 0 "\<lparr>seBatches = [], seOutbound = 0\<rparr>", OF assms] by simp

theorem stop_ends_outbound_witness:
  "\<exists>sent'. OutboundLoop (\<lambda>i. i < 3) (\<lambda>i. [[1]]) (\<lambda>i. True) 0 \<lparr>seBatches = [], seOutbound = 0\<rparr> = Some sent' \<and>
    length (seBatches sent') \<le> 3"
  by (rule stop_ends_outbound) simp

text \<open>
  (C35) No receive callback reaches a destroyed adapter, in any interleaving of dispatches, callback bodies and the
  statements of the stop: not even a dispatch that began before the unsubscription and runs its body after
  the adapter is gone.
\<close>

theorem late_callback_harmless:
  assumes "pump_step\<^sup>*\<^sup>* NewPump s"
  shows "ppFaults s = 0 \<and> (ppPhase s = Destroyed \<longrightarrow> \<not> ppGateAdapter s)"
proof -
  have "pump_inv NewPump" by (simp add: pump_inv_def NewPump_def)
  from pump_reach_inv [OF assms this] show ?thesis by (auto simp: pump_inv_def)
qed

theorem late_callback_harmless_witness:
  "\<exists>s. pump_step\<^sup>*\<^sup>* NewPump s \<and> ppPhase s = Destroyed \<and> ppInFlight s = 1 \<and> ppFaults s = 0"
proof -
  let ?s = "\<lambda>phase gate sub n. NewPump\<lparr>ppPhase := phase, ppGateAdapter := gate, ppSubscribed := sub, ppInFlight := n\<rparr>"
  have "pump_step NewPump (?s Pumping True True 0)" using pump_step.Start [of NewPump] by (simp add: NewPump_def)
  moreover have "pump_step (?s Pumping True True 0) (?s Pumping True True 1)"
    using pump_step.Dispatch [of "?s Pumping True True 0"] by (simp add: NewPump_def)
  moreover have "pump_step (?s Pumping True True 1) (?s Signalled True True 1)"
    using pump_step.Signal [of "?s Pumping True True 1"] by (simp add: NewPump_def)
  moreover have "pump_step (?s Signalled True True 1) (?s Joined True True 1)"
    using pump_step.Join [of "?s Signalled True True 1"] by (simp add: NewPump_def)
  moreover have "pump_step (?s Joined True True 1) (?s GateClosed False True 1)"
    using pump_step.CloseGate [of "?s Joined True True 1"] by (simp add: NewPump_def)
  moreover have "pump_step (?s GateClosed False True 1) (?s Unsubscribed False False 1)"
    using pump_step.Unsubscribe [of "?s GateClosed False True 1"] by (simp add: NewPump_def)
  moreover have "pump_step (?s Unsubscribed False False 1) (?s Destroyed False False 1)"
    using pump_step.Destroy [of "?s Unsubscribed False False 1"] by (simp add: NewPump_def)
  ultimately have r: "pump_step\<^sup>*\<^sup>* NewPump (?s Destroyed False False 1)"
    by (meson converse_rtranclp_into_rtranclp rtranclp.rtrancl_refl)
  from late_callback_harmless [OF r] r show ?thesis by (intro exI [of _ "?s Destroyed False False 1"]) simp
qed

end
