(* ===== verification/AuthLink.thy ===== *)
theory AuthLink
  imports Prelude
begin

text \<open>
  The sign-in return of \<^verbatim>\<open>App/AuthLink.h\<close>: the parser of a \<^verbatim>\<open>urnetwork://auth\<close> link, the search of a command
  line for a link, and the redaction that keeps links out of the log. The templates over the character
  type are functions of a record of what they use of it, with one value for \<^verbatim>\<open>char\<close> and one for the 16-bit
  units of a wide string.
\<close>

section \<open>The contract\<close>

record Contract =
  coPrefix :: string
  coTolerateEmptyPath :: bool
  coMaxUrlBytes :: nat
  coMaxValueBytes :: nat
  coMaxPairs :: nat

definition kAuthPrefix :: string where "kAuthPrefix = ''urnetwork://auth''"

definition kApprovalV1 :: Contract where
  "kApprovalV1 = \<lparr>coPrefix = kAuthPrefix, coTolerateEmptyPath = True, coMaxUrlBytes = 4096,
    coMaxValueBytes = 2048, coMaxPairs = 6\<rparr>"

definition kStateChars :: nat where "kStateChars = 43"
definition kDeniedValue :: string where "kDeniedValue = ''access_denied''"

datatype LinkKind = Invalid | Sealed | Denied

datatype Reject = NotRejected | NotAuthHost | BadPath | Authority | Delimiter | TooLong | ControlChar
  | UnexpectedEscape | EmptyPair | DuplicateKey | UnknownKey | MixedShapes | BadState | BadValue | BadError

fun reject_token :: "Reject \<Rightarrow> string" where
  "reject_token NotRejected = ''not-rejected''"
| "reject_token NotAuthHost = ''not-auth-host''"
| "reject_token BadPath = ''bad-path''"
| "reject_token Authority = ''bad-authority''"
| "reject_token Delimiter = ''bad-delimiter''"
| "reject_token TooLong = ''too-long''"
| "reject_token ControlChar = ''control-char''"
| "reject_token UnexpectedEscape = ''unexpected-escape''"
| "reject_token EmptyPair = ''empty-pair''"
| "reject_token DuplicateKey = ''duplicate-key''"
| "reject_token UnknownKey = ''unknown-key''"
| "reject_token MixedShapes = ''mixed-shapes''"
| "reject_token BadState = ''bad-state''"
| "reject_token BadValue = ''bad-value''"
| "reject_token BadError = ''bad-error''"

record LinkReturn =
  rtKind :: LinkKind
  rtReject :: Reject
  rtState :: string
  rtEpk :: string
  rtNonce :: string
  rtData :: string

definition RefusedLink :: "Reject \<Rightarrow> LinkReturn" where
  "RefusedLink why = \<lparr>rtKind = Invalid, rtReject = why, rtState = [], rtEpk = [], rtNonce = [], rtData = []\<rparr>"

section \<open>Alphabets\<close>

definition is_upper :: "char \<Rightarrow> bool" where "is_upper c \<longleftrightarrow> 65 \<le> code_of c \<and> code_of c \<le> 90"
definition is_lower :: "char \<Rightarrow> bool" where "is_lower c \<longleftrightarrow> 97 \<le> code_of c \<and> code_of c \<le> 122"

definition IsBase64UrlChar :: "char \<Rightarrow> bool" where
  "IsBase64UrlChar c \<longleftrightarrow> is_upper c \<or> is_lower c \<or> IsDigit c \<or> c = CHR ''-'' \<or> c = CHR ''_''"

definition IsBase58Char :: "char \<Rightarrow> bool" where
  "IsBase58Char c \<longleftrightarrow> IsDigit c \<and> c \<noteq> CHR ''0'' \<or> is_upper c \<and> c \<noteq> CHR ''I'' \<and> c \<noteq> CHR ''O'' \<or>
    is_lower c \<and> c \<noteq> CHR ''l''"

definition IsBase58 :: "string \<Rightarrow> nat \<Rightarrow> bool" where
  "IsBase58 v maxBytes \<longleftrightarrow> v \<noteq> [] \<and> length v \<le> maxBytes \<and> list_all IsBase58Char v"

definition IsPlainToken :: "string \<Rightarrow> nat \<Rightarrow> bool" where
  "IsPlainToken token maxBytes \<longleftrightarrow> length token \<le> maxBytes \<and>
    list_all (\<lambda>c. is_upper c \<or> is_lower c \<or> IsDigit c \<or> c = CHR ''.'' \<or> c = CHR ''_'' \<or> c = CHR ''+'' \<or>
      c = CHR ''-'') token"

section \<open>The parser\<close>

text \<open>The pairs as written, with the first reason the loop finds to refuse them; \<open>n\<close> pairs are before.\<close>

function split_pairs :: "nat \<Rightarrow> nat \<Rightarrow> string \<Rightarrow> Reject + (string \<times> string) list" where
  "split_pairs maxPairs n rest =
    (let part = takeWhile (\<lambda>c. c \<noteq> CHR ''&'') rest;
         key = takeWhile (\<lambda>c. c \<noteq> CHR ''='') part
     in if part = [] \<or> CHR ''='' \<notin> set part \<or> key = [] then Inl EmptyPair
        else if maxPairs < Suc n then Inl TooLong
        else case dropWhile (\<lambda>c. c \<noteq> CHR ''&'') rest of
          [] \<Rightarrow> Inr [(key, drop (Suc (length key)) part)]
        | _ # rest' \<Rightarrow>
            (case split_pairs maxPairs (Suc n) rest' of
               Inl why \<Rightarrow> Inl why
             | Inr pairs \<Rightarrow> Inr ((key, drop (Suc (length key)) part) # pairs)))"
  by pat_completeness auto
termination
proof (relation "measure (\<lambda>(_, _, rest). length rest)")
  fix maxPairs n :: nat and rest rest' :: string and amp
  assume "dropWhile (\<lambda>c. c \<noteq> CHR ''&'') rest = amp # rest'"
  then have "length (amp # rest') \<le> length rest" by (metis length_dropWhile_le)
  then show "((maxPairs, Suc n, rest'), maxPairs, n, rest) \<in> measure (\<lambda>(_, _, rest). length rest)" by simp
qed simp

declare split_pairs.simps [simp del]

text \<open>The fields read so far: seen or not, with the value.\<close>

record Fields =
  fiState :: "string option"
  fiEpk :: "string option"
  fiNonce :: "string option"
  fiData :: "string option"
  fiError :: "string option"

definition NoFields :: Fields where
  "NoFields = \<lparr>fiState = None, fiEpk = None, fiNonce = None, fiData = None, fiError = None\<rparr>"

definition put_field :: "nat \<Rightarrow> string option \<Rightarrow> string \<Rightarrow> Fields \<Rightarrow> Reject + Fields" where
  "put_field maxValueBytes seen v s' =
    (if seen \<noteq> None then Inl DuplicateKey else if maxValueBytes < length v then Inl TooLong else Inr s')"

definition read_pair :: "nat \<Rightarrow> Fields \<Rightarrow> string \<times> string \<Rightarrow> Reject + Fields" where
  "read_pair m s kv = (case kv of (key, v) \<Rightarrow>
    if key = ''state'' then put_field m (fiState s) v (s\<lparr>fiState := Some v\<rparr>)
    else if key = ''epk'' then put_field m (fiEpk s) v (s\<lparr>fiEpk := Some v\<rparr>)
    else if key = ''n'' then put_field m (fiNonce s) v (s\<lparr>fiNonce := Some v\<rparr>)
    else if key = ''d'' then put_field m (fiData s) v (s\<lparr>fiData := Some v\<rparr>)
    else if key = ''error'' then put_field m (fiError s) v (s\<lparr>fiError := Some v\<rparr>)
    else Inl UnknownKey)"

fun read_pairs :: "nat \<Rightarrow> Fields \<Rightarrow> (string \<times> string) list \<Rightarrow> Reject + Fields" where
  "read_pairs m s [] = Inr s"
| "read_pairs m s (kv # kvs) = (case read_pair m s kv of Inl why \<Rightarrow> Inl why | Inr s' \<Rightarrow> read_pairs m s' kvs)"

definition judge_fields :: "nat \<Rightarrow> Fields \<Rightarrow> LinkReturn" where
  "judge_fields maxValueBytes s =
    (case fiState s of None \<Rightarrow> RefusedLink MixedShapes
     | Some st \<Rightarrow>
        if length st \<noteq> kStateChars \<or> \<not> list_all IsBase64UrlChar st then RefusedLink BadState
        else case (fiEpk s, fiNonce s, fiData s, fiError s) of
          (Some epk, Some nonce, Some data, None) \<Rightarrow>
            if \<not> IsBase58 epk 64 \<or> \<not> IsBase58 nonce 64 \<or> \<not> IsBase58 data maxValueBytes then RefusedLink BadValue
            else \<lparr>rtKind = Sealed, rtReject = NotRejected, rtState = st, rtEpk = epk, rtNonce = nonce, rtData = data\<rparr>
        | (None, None, None, Some err) \<Rightarrow>
            if err \<noteq> kDeniedValue then RefusedLink BadError
            else \<lparr>rtKind = Denied, rtReject = NotRejected, rtState = st, rtEpk = [], rtNonce = [], rtData = []\<rparr>
        | _ \<Rightarrow> RefusedLink MixedShapes)"

text \<open>What follows the host, once one slash is stripped.\<close>

definition parse_query :: "Contract \<Rightarrow> bool \<Rightarrow> string \<Rightarrow> LinkReturn" where
  "parse_query contract strippedSlash rest =
    (case rest of [] \<Rightarrow> RefusedLink EmptyPair
     | first # query \<Rightarrow>
        if first \<noteq> CHR ''?'' then
          (if first = CHR ''#'' then RefusedLink Delimiter
           else if strippedSlash \<or> first = CHR ''/'' then RefusedLink BadPath
           else if first = CHR '':'' \<or> first = CHR ''@'' then RefusedLink Authority
           else RefusedLink NotAuthHost)
        else if CHR ''#'' \<in> set query \<or> CHR ''?'' \<in> set query then RefusedLink Delimiter
        else case split_pairs (coMaxPairs contract) 0 query of
          Inl why \<Rightarrow> RefusedLink why
        | Inr pairs \<Rightarrow>
            (case read_pairs (coMaxValueBytes contract) NoFields pairs of
               Inl why \<Rightarrow> RefusedLink why
             | Inr s \<Rightarrow> judge_fields (coMaxValueBytes contract) s))"

definition Parse :: "Contract \<Rightarrow> string \<Rightarrow> LinkReturn" where
  "Parse contract url =
    (if coMaxUrlBytes contract < length url then RefusedLink TooLong
     else if list_ex (\<lambda>c. code_of c \<le> 32 \<or> 127 \<le> code_of c) url then RefusedLink ControlChar
     else if take (length (coPrefix contract)) url \<noteq> coPrefix contract then RefusedLink NotAuthHost
     else if CHR ''%'' \<in> set url then RefusedLink UnexpectedEscape
     else let rest = drop (length (coPrefix contract)) url;
              strip = coTolerateEmptyPath contract \<and> rest \<noteq> [] \<and> hd rest = CHR ''/''
          in parse_query contract strip (if strip then tl rest else rest))"


section \<open>Finding a link, and redacting it\<close>

text \<open>What the templates use of a character type: the case of ASCII letters, and ASCII in and out of it.\<close>

record 'c Chars =
  chLower :: "'c \<Rightarrow> 'c"
  chUnit :: "char \<Rightarrow> 'c"
  chAscii :: "'c \<Rightarrow> char"

type_synonym wide = "16 word"

definition Lower :: "char \<Rightarrow> char" where
  "Lower c = (if is_upper c then char_of (code_of c + 32) else c)"

definition wide_of :: "char \<Rightarrow> wide" where "wide_of c = of_nat (code_of c)"

definition LowerWide :: "wide \<Rightarrow> wide" where
  "LowerWide c = (if 65 \<le> unat c \<and> unat c \<le> 90 then c + 32 else c)"

definition AsciiOnlyUnit :: "nat \<Rightarrow> char" where
  "AsciiOnlyUnit code = (if code < 0x80 then char_of code else CHR ''~'')"

definition narrow_chars :: "char Chars" where
  "narrow_chars = \<lparr>chLower = Lower, chUnit = (\<lambda>c. c), chAscii = (\<lambda>c. AsciiOnlyUnit (code_of c))\<rparr>"

definition wide_chars :: "wide Chars" where
  "wide_chars = \<lparr>chLower = LowerWide, chUnit = wide_of, chAscii = (\<lambda>c. AsciiOnlyUnit (unat c))\<rparr>"

abbreviation lit :: "'c Chars \<Rightarrow> string \<Rightarrow> 'c list" where
  "lit ch s \<equiv> map (chUnit ch) s"

definition EqualsLower :: "'c Chars \<Rightarrow> 'c list \<Rightarrow> 'c list \<Rightarrow> bool" where
  "EqualsLower ch s lower \<longleftrightarrow> map (chLower ch) s = lower"

text \<open>\<open>None\<close> is \<^verbatim>\<open>npos\<close>.\<close>

definition FindSchemeIgnoringCase :: "'c Chars \<Rightarrow> 'c list \<Rightarrow> 'c list \<Rightarrow> nat \<Rightarrow> nat option" where
  "FindSchemeIgnoringCase ch line lowerScheme start =
    find (\<lambda>i. EqualsLower ch (take (length lowerScheme) (drop i line)) lowerScheme)
      [start..<Suc (length line) - length lowerScheme]"

definition LinkEnd :: "'c list \<Rightarrow> nat \<Rightarrow> 'c list \<Rightarrow> nat" where
  "LinkEnd line start enders =
    (case find (\<lambda>i. line ! i \<in> set enders) [start..<length line] of None \<Rightarrow> length line | Some e \<Rightarrow> e)"

definition IsAuthHost :: "string \<Rightarrow> bool" where
  "IsAuthHost url =
    (if \<not> EqualsLower narrow_chars (take (length kAuthPrefix) url) kAuthPrefix then False
     else if length url = length kAuthPrefix then True
     else let next = url ! length kAuthPrefix in next = CHR ''?'' \<or> next = CHR ''/'' \<or> next = CHR ''#'')"

definition quote_char :: char where "quote_char = CHR 0x22"
definition tab_char :: char where "tab_char = CHR 0x09"

definition command_enders :: "wide list" where
  "command_enders = map wide_of [CHR '' '', tab_char, quote_char]"

definition LinkInCommandLine :: "wide list \<Rightarrow> wide list" where
  "LinkInCommandLine line =
    (case FindSchemeIgnoringCase wide_chars line (lit wide_chars ''urnetwork://'') 0 of
       None \<Rightarrow> []
     | Some b \<Rightarrow> take (LinkEnd line b command_enders - b) (drop b line))"

text \<open>The first place of a pattern, \<^verbatim>\<open>std::string_view::find\<close>.\<close>

definition find_str :: "string \<Rightarrow> string \<Rightarrow> nat option" where
  "find_str pat s = find (\<lambda>i. take (length pat) (drop i s) = pat) [0..<Suc (length s) - length pat]"

definition RedactUrl :: "string \<Rightarrow> string" where
  "RedactUrl url =
    (let size = ''[redacted '' @ show_nat (length url) @ '' chars]''
     in case find_str ''://'' url of
          None \<Rightarrow> size
        | Some schemeEnd \<Rightarrow>
            if 0 < schemeEnd \<and> IsPlainToken (take schemeEnd url) 16 then
              (let rest = drop (schemeEnd + 3) url;
                   host = takeWhile (\<lambda>c. c \<notin> set ''/?#:@'') rest;
                   after = dropWhile (\<lambda>c. c \<notin> set ''/?#:@'') rest;
                   plainStop = (after = [] \<or> hd after = CHR ''/'' \<or> hd after = CHR ''?'' \<or> hd after = CHR ''#'')
               in take schemeEnd url @ ''://'' @ (if plainStop \<and> IsPlainToken host 32 then host else ''*'') @
                  '' '' @ size)
            else size)"

definition IsRedactedAlready :: "string \<Rightarrow> string \<Rightarrow> bool" where
  "IsRedactedAlready link after =
    (case find_str ''://'' link of
       None \<Rightarrow> False
     | Some schemeEnd \<Rightarrow>
         if schemeEnd = 0 \<or> \<not> IsPlainToken (take schemeEnd link) 16 then False
         else let host = drop (schemeEnd + 3) link in
         if host \<noteq> ''*'' \<and> \<not> IsPlainToken host 32 then False
         else let kBefore = '' [redacted ''; kAfter = '' chars]'' in
         if take (length kBefore) after \<noteq> kBefore then False
         else let digits = takeWhile IsDigit (drop (length kBefore) after)
              in digits \<noteq> [] \<and>
                 take (length kAfter) (drop (length kBefore + length digits) after) = kAfter)"

text \<open>The loop over the text; that it ends is proved below for the schemes and enders it is called with.\<close>

partial_function (option) redact_loop ::
  "'c Chars \<Rightarrow> 'c list \<Rightarrow> 'c list \<Rightarrow> 'c list \<Rightarrow> nat \<Rightarrow> 'c list \<Rightarrow> 'c list option" where
  "redact_loop ch line lowerScheme enders start out =
    (if length line \<le> start then Some out
     else case FindSchemeIgnoringCase ch line lowerScheme start of
       None \<Rightarrow> Some (out @ drop start line)
     | Some found \<Rightarrow>
         let kept = out @ take (found - start) (drop start line);
             e = LinkEnd line found enders;
             link = take (e - found) (drop found line);
             narrow = map (chAscii ch) link
         in redact_loop ch line lowerScheme enders e
              (kept @ (if IsRedactedAlready narrow (map (chAscii ch) (take 40 (drop e line))) then link
                       else map (chUnit ch) (RedactUrl narrow))))"

definition RedactLinks :: "'c Chars \<Rightarrow> 'c list \<Rightarrow> 'c list \<Rightarrow> 'c list \<Rightarrow> 'c list option" where
  "RedactLinks ch line lowerScheme enders = redact_loop ch line lowerScheme enders 0 []"

definition RedactCommandLine :: "wide list \<Rightarrow> wide list option" where
  "RedactCommandLine line = RedactLinks wide_chars line (lit wide_chars ''urnetwork:'') command_enders"

definition RedactLogText :: "string \<Rightarrow> string option" where
  "RedactLogText text =
    RedactLinks narrow_chars text ''urnetwork:'' [CHR '' '', tab_char, quote_char, CHR 0x0D, CHR 0x0A]"

section \<open>The pairs of a query\<close>

fun join_pairs :: "(string \<times> string) list \<Rightarrow> string" where
  "join_pairs [] = []"
| "join_pairs [(k, v)] = k @ CHR ''='' # v"
| "join_pairs ((k, v) # kvs) = k @ CHR ''='' # v @ CHR ''&'' # join_pairs kvs"

definition good_pair :: "string \<times> string \<Rightarrow> bool" where
  "good_pair kv \<longleftrightarrow> fst kv \<noteq> [] \<and> CHR ''='' \<notin> set (fst kv) \<and> CHR ''&'' \<notin> set (fst kv) \<and> CHR ''&'' \<notin> set (snd kv)"

lemma takeWhile_stop: "c \<notin> set xs \<Longrightarrow> takeWhile (\<lambda>x. x \<noteq> c) (xs @ c # ys) = xs"
  by (induction xs) auto

lemma dropWhile_stop: "c \<notin> set xs \<Longrightarrow> dropWhile (\<lambda>x. x \<noteq> c) (xs @ c # ys) = c # ys"
  by (induction xs) auto

lemma takeWhile_none: "c \<notin> set xs \<Longrightarrow> takeWhile (\<lambda>x. x \<noteq> c) xs = xs"
  by (induction xs) auto

lemma dropWhile_none: "c \<notin> set xs \<Longrightarrow> dropWhile (\<lambda>x. x \<noteq> c) xs = []"
  by (induction xs) auto

lemma split_join:
  "ps \<noteq> [] \<Longrightarrow> list_all good_pair ps \<Longrightarrow> n + length ps \<le> m \<Longrightarrow> split_pairs m n (join_pairs ps) = Inr ps"
proof (induction ps arbitrary: n rule: join_pairs.induct)
  case (2 k v)
  then have g: "k \<noteq> []" "CHR ''='' \<notin> set k" "CHR ''&'' \<notin> set (k @ CHR ''='' # v)" by (auto simp: good_pair_def)
  show ?case using g(1,2) 2(3)
    unfolding split_pairs.simps [of m n "join_pairs [(k, v)]"]
    unfolding join_pairs.simps takeWhile_none [OF g(3)] dropWhile_none [OF g(3)] Let_def
    by (simp add: takeWhile_stop)
next
  case (3 k v kv kvs)
  then have g: "k \<noteq> []" "CHR ''='' \<notin> set k" "CHR ''&'' \<notin> set (k @ CHR ''='' # v)" by (auto simp: good_pair_def)
  let ?part = "k @ CHR ''='' # v"
  have j: "join_pairs ((k, v) # kv # kvs) = ?part @ CHR ''&'' # join_pairs (kv # kvs)" by simp
  have "takeWhile (\<lambda>c. c \<noteq> CHR ''&'') (join_pairs ((k, v) # kv # kvs)) = ?part"
    "dropWhile (\<lambda>c. c \<noteq> CHR ''&'') (join_pairs ((k, v) # kv # kvs)) = CHR ''&'' # join_pairs (kv # kvs)"
    unfolding j using takeWhile_stop [OF g(3)] dropWhile_stop [OF g(3)] by blast+
  moreover have "split_pairs m (Suc n) (join_pairs (kv # kvs)) = Inr (kv # kvs)" using 3 by simp
  ultimately show ?case using g(1,2) 3(4)
    by (subst split_pairs.simps) (simp add: Let_def takeWhile_stop)
qed simp

lemma part_of:
  assumes "CHR ''='' \<in> set part"
  shows "part = takeWhile (\<lambda>c. c \<noteq> CHR ''='') part @
    CHR ''='' # drop (Suc (length (takeWhile (\<lambda>c. c \<noteq> CHR ''='') part))) part"
  using assms by (induction part) auto

lemma split_inv:
  "split_pairs m n rest = Inr ps \<Longrightarrow>
    rest = join_pairs ps \<and> ps \<noteq> [] \<and> list_all good_pair ps \<and> n + length ps \<le> m"
proof (induction m n rest arbitrary: ps rule: split_pairs.induct)
  case (1 m n rest)
  let ?part = "takeWhile (\<lambda>c. c \<noteq> CHR ''&'') rest"
  let ?key = "takeWhile (\<lambda>c. c \<noteq> CHR ''='') ?part"
  let ?v = "drop (Suc (length ?key)) ?part"
  have ok: "?part \<noteq> []" "CHR ''='' \<in> set ?part" "?key \<noteq> []" "Suc n \<le> m"
    using 1(2) by (auto simp: split_pairs.simps [of m n rest] Let_def not_less_eq_eq split: if_splits)
  note part = part_of [OF ok(2)]
  have amp: "CHR ''&'' \<notin> set ?part" by (auto dest: set_takeWhileD)
  have good: "good_pair (?key, ?v)"
  proof -
    have "CHR ''&'' \<notin> set ?key" "CHR ''&'' \<notin> set ?v" using amp by (meson set_takeWhileD, meson in_set_dropD)
    then show ?thesis using ok(3) by (auto simp: good_pair_def dest: set_takeWhileD)
  qed
  show ?case
  proof (cases "dropWhile (\<lambda>c. c \<noteq> CHR ''&'') rest")
    case Nil
    then have "rest = ?part" by (metis append_Nil2 takeWhile_dropWhile_id)
    moreover have "ps = [(?key, ?v)]"
      using 1(2) ok Nil by (subst (asm) split_pairs.simps) (simp add: Let_def del: takeWhile_eq_Nil_iff)
    ultimately show ?thesis using part good ok(4) by simp
  next
    case (Cons amp' rest')
    have a: "amp' = CHR ''&''" using Cons by (metis (full_types) hd_dropWhile list.discI list.sel(1))
    obtain kvs where s: "split_pairs m (Suc n) rest' = Inr kvs" and ps: "ps = (?key, ?v) # kvs"
      using 1(2) ok Cons
      by (subst (asm) split_pairs.simps) (auto simp add: Let_def simp del: takeWhile_eq_Nil_iff split: sum.splits)
    have "rest' = join_pairs kvs \<and> kvs \<noteq> [] \<and> list_all good_pair kvs \<and> Suc n + length kvs \<le> m"
      using 1(1) [OF refl refl _ _ Cons s] ok by simp
    moreover have r: "rest = ?part @ CHR ''&'' # rest'" using Cons a by (metis takeWhile_dropWhile_id)
    moreover obtain key where k: "?key = key" by blast
    moreover obtain v where v: "drop (Suc (length key)) ?part = v" by blast
    moreover have p: "?part = key @ CHR ''='' # v" using part unfolding k v .
    moreover have "rest = (key @ CHR ''='' # v) @ CHR ''&'' # rest'" using r unfolding p .
    ultimately show ?thesis using good ps unfolding k v by (cases kvs) auto
  qed
qed

section \<open>The fields of the pairs\<close>

definition kKeys :: "string set" where
  "kKeys = {''state'', ''epk'', ''n'', ''d'', ''error''}"

definition field_of :: "Fields \<Rightarrow> string \<Rightarrow> string option" where
  "field_of s k = (if k = ''state'' then fiState s else if k = ''epk'' then fiEpk s else if k = ''n'' then fiNonce s
    else if k = ''d'' then fiData s else if k = ''error'' then fiError s else None)"

lemma fields_eqI: "(\<And>k. k \<in> kKeys \<Longrightarrow> field_of s k = field_of s' k) \<Longrightarrow> s = (s' :: Fields)"
  unfolding kKeys_def by (cases s; cases s') (force simp: field_of_def)

lemma field_of_none [simp]: "field_of NoFields k = None"
  by (simp add: field_of_def NoFields_def)

lemma put_field_iff:
  "put_field m seen v s = Inr s' \<longleftrightarrow> seen = None \<and> length v \<le> m \<and> s' = s"
  by (auto simp: put_field_def)

lemma read_pair_iff:
  "read_pair m s (k, v) = Inr s' \<longleftrightarrow> k \<in> kKeys \<and> field_of s k = None \<and> length v \<le> m \<and>
    (\<forall>k'\<in>kKeys. field_of s' k' = (if k' = k then Some v else field_of s k'))"
proof (cases "k \<in> kKeys")
  case True
  define t where "t = (if k = ''state'' then s\<lparr>fiState := Some v\<rparr> else if k = ''epk'' then s\<lparr>fiEpk := Some v\<rparr>
    else if k = ''n'' then s\<lparr>fiNonce := Some v\<rparr> else if k = ''d'' then s\<lparr>fiData := Some v\<rparr>
    else s\<lparr>fiError := Some v\<rparr>)"
  have r: "read_pair m s (k, v) = put_field m (field_of s k) v t"
    using True by (auto simp: read_pair_def field_of_def t_def kKeys_def)
  have t: "field_of t k' = (if k' = k then Some v else field_of s k')" if "k' \<in> kKeys" for k'
    using True that by (auto simp: field_of_def t_def kKeys_def)
  have "s' = t \<longleftrightarrow> (\<forall>k'\<in>kKeys. field_of s' k' = (if k' = k then Some v else field_of s k'))"
    using t fields_eqI [of s' t] by auto
  then show ?thesis using True unfolding r put_field_iff by blast
next
  case False
  then show ?thesis by (simp add: read_pair_def kKeys_def)
qed

lemma read_pair_some:
  "k \<in> kKeys \<Longrightarrow> field_of s k = None \<Longrightarrow> length v \<le> m \<Longrightarrow> \<exists>t. read_pair m s (k, v) = Inr t"
  unfolding kKeys_def by (elim insertE emptyE) (simp_all add: read_pair_def field_of_def put_field_def)

lemma read_pairs_iff:
  "read_pairs m s ps = Inr s' \<longleftrightarrow> distinct (map fst ps) \<and> fst ` set ps \<subseteq> kKeys \<and>
    (\<forall>kv\<in>set ps. field_of s (fst kv) = None \<and> length (snd kv) \<le> m) \<and>
    (\<forall>k\<in>kKeys. field_of s' k = (case map_of ps k of None \<Rightarrow> field_of s k | Some v \<Rightarrow> Some v))"
proof (induction ps arbitrary: s)
  case Nil
  show ?case using fields_eqI [of s s'] by auto
next
  case (Cons kv ps)
  obtain k v where kv: "kv = (k, v)" by (cases kv)
  show ?case
  proof (cases "read_pair m s (k, v)")
    case (Inl why)
    then have "\<not> (k \<in> kKeys \<and> field_of s k = None \<and> length v \<le> m)"
      using read_pair_some [of k s v m] by auto
    then show ?thesis using Inl by (auto simp: kv)
  next
    case (Inr t)
    have kv_ok: "k \<in> kKeys" "field_of s k = None" "length v \<le> m"
      and t: "\<And>k'. k' \<in> kKeys \<Longrightarrow> field_of t k' = (if k' = k then Some v else field_of s k')"
      using iffD1 [OF read_pair_iff Inr] by blast+
    have step: "read_pairs m s (kv # ps) = Inr s' \<longleftrightarrow> read_pairs m t ps = Inr s'" using Inr by (simp add: kv)
    show ?thesis
    proof (cases "fst ` set ps \<subseteq> kKeys \<and> k \<notin> fst ` set ps")
      case True
      have f: "field_of t (fst p) = field_of s (fst p)" if "p \<in> set ps" for p
        using t [of "fst p"] True that by (metis image_eqI subset_iff)
      have n: "map_of ps k = None" using True by (simp add: map_of_eq_None_iff)
      have m: "(case map_of ps k' of None \<Rightarrow> field_of t k' | Some w \<Rightarrow> Some w) =
          (case map_of (kv # ps) k' of None \<Rightarrow> field_of s k' | Some w \<Rightarrow> Some w)" if "k' \<in> kKeys" for k'
        using t [OF that] n by (cases "k' = k") (auto simp: kv split: option.splits)
      have e1: "(\<forall>p\<in>set ps. field_of t (fst p) = None \<and> length (snd p) \<le> m) \<longleftrightarrow>
          (\<forall>p\<in>set (kv # ps). field_of s (fst p) = None \<and> length (snd p) \<le> m)"
        using f kv_ok by (simp add: kv)
      have e2: "(\<forall>k'\<in>kKeys. field_of s' k' = (case map_of ps k' of None \<Rightarrow> field_of t k' | Some w \<Rightarrow> Some w)) \<longleftrightarrow>
          (\<forall>k'\<in>kKeys. field_of s' k' = (case map_of (kv # ps) k' of None \<Rightarrow> field_of s k' | Some w \<Rightarrow> Some w))"
        using m by simp
      have e3: "distinct (map fst (kv # ps)) \<longleftrightarrow> distinct (map fst ps)" and e4: "fst ` set (kv # ps) \<subseteq> kKeys"
        using True kv_ok by (simp_all add: kv)
      show ?thesis unfolding step Cons.IH [of t] e1 e2 e3
        by (simp only: conjunct1 [OF True] e4 simp_thms)
    next
      case False
      have "field_of t k \<noteq> None" using t [OF kv_ok(1)] by simp
      then have "\<not> read_pairs m t ps = Inr s'" using False Cons.IH [of t] by (metis imageE)
      then show ?thesis using False step by (auto simp: kv)
    qed
  qed
qed

lemma fields_set:
  assumes "distinct (map fst ps)" and "fst ` set ps \<subseteq> kKeys" and "\<forall>k\<in>kKeys. field_of s k = map_of ps k"
  shows "set ps = {(k, v). k \<in> kKeys \<and> field_of s k = Some v}"
  using assms by (auto simp: subset_iff)

section \<open>What the fields are read as\<close>

definition state_ok :: "string \<Rightarrow> bool" where
  "state_ok st \<longleftrightarrow> length st = kStateChars \<and> list_all IsBase64UrlChar st"

lemma judge_sealed:
  "judge_fields m s = \<lparr>rtKind = Sealed, rtReject = NotRejected, rtState = st, rtEpk = epk, rtNonce = nonce, rtData = data\<rparr> \<longleftrightarrow>
    fiState s = Some st \<and> fiEpk s = Some epk \<and> fiNonce s = Some nonce \<and> fiData s = Some data \<and> fiError s = None \<and>
    state_ok st \<and> IsBase58 epk 64 \<and> IsBase58 nonce 64 \<and> IsBase58 data m"
  by (auto simp: judge_fields_def RefusedLink_def state_ok_def split: option.splits)

lemma judge_denied:
  "judge_fields m s = \<lparr>rtKind = Denied, rtReject = NotRejected, rtState = st, rtEpk = [], rtNonce = [], rtData = []\<rparr> \<longleftrightarrow>
    fiState s = Some st \<and> fiEpk s = None \<and> fiNonce s = None \<and> fiData s = None \<and> fiError s = Some kDeniedValue \<and>
    state_ok st"
  by (auto simp: judge_fields_def RefusedLink_def state_ok_def split: option.splits)

lemma judge_cases: "rtKind (judge_fields m s) \<noteq> Invalid \<Longrightarrow>
  (\<exists>st epk nonce data. judge_fields m s =
    \<lparr>rtKind = Sealed, rtReject = NotRejected, rtState = st, rtEpk = epk, rtNonce = nonce, rtData = data\<rparr>) \<or>
  (\<exists>st. judge_fields m s = \<lparr>rtKind = Denied, rtReject = NotRejected, rtState = st, rtEpk = [], rtNonce = [], rtData = []\<rparr>)"
  by (auto simp: judge_fields_def RefusedLink_def split: option.splits if_splits)

section \<open>The text of an accepted link\<close>

definition link_char :: "char \<Rightarrow> bool" where
  "link_char c \<longleftrightarrow> 32 < code_of c \<and> code_of c < 127 \<and> c \<notin> set ''%#?&='' \<and> c \<noteq> quote_char"

lemma base64_code: "IsBase64UrlChar c \<Longrightarrow> 32 < code_of c \<and> code_of c < 127"
  unfolding IsBase64UrlChar_def is_upper_def is_lower_def IsDigit_def by (elim disjE) simp_all

lemma not_base64: "x \<in> set ''%#?&='' \<Longrightarrow> \<not> IsBase64UrlChar x"
  by (simp only: list.set) (elim insertE emptyE; simp add: IsBase64UrlChar_def is_upper_def is_lower_def IsDigit_def)

lemma not_base64_quote: "\<not> IsBase64UrlChar quote_char"
  by (simp add: IsBase64UrlChar_def quote_char_def is_upper_def is_lower_def IsDigit_def)

lemma base64_link_char: "IsBase64UrlChar c \<Longrightarrow> link_char c"
  unfolding link_char_def using base64_code not_base64 not_base64_quote by blast

lemma base58_base64: "IsBase58Char c \<Longrightarrow> IsBase64UrlChar c"
  by (auto simp: IsBase58Char_def IsBase64UrlChar_def)

lemma base58_link_chars: "IsBase58 v m \<Longrightarrow> list_all link_char v"
  by (auto simp: IsBase58_def list_all_iff intro: base64_link_char base58_base64)

lemma state_link_chars: "state_ok st \<Longrightarrow> list_all link_char st"
  by (auto simp: state_ok_def list_all_iff intro: base64_link_char)

lemma kKeys_link_chars: "k \<in> kKeys \<Longrightarrow> k \<noteq> [] \<and> list_all link_char k"
  unfolding kKeys_def by (elim insertE emptyE) (simp_all add: link_char_def quote_char_def)

lemma set_join_pairs:
  "set (join_pairs ps) \<subseteq> {CHR ''='', CHR ''&''} \<union> (\<Union>kv\<in>set ps. set (fst kv) \<union> set (snd kv))"
  by (induction ps rule: join_pairs.induct) auto

text \<open>The address of a list of pairs, with or without the slash a browser adds.\<close>

definition auth_text :: "string \<Rightarrow> (string \<times> string) list \<Rightarrow> string" where
  "auth_text slash ps = kAuthPrefix @ slash @ CHR ''?'' # join_pairs ps"

text \<open>A list of pairs whose fields are read.\<close>

definition reads_as :: "(string \<times> string) list \<Rightarrow> Fields \<Rightarrow> bool" where
  "reads_as ps s \<longleftrightarrow> ps \<noteq> [] \<and> list_all good_pair ps \<and> length ps \<le> 6 \<and> read_pairs 2048 NoFields ps = Inr s"

lemma strip_text:
  assumes "take (length p) url = p"
  shows "url = p @ (if drop (length p) url \<noteq> [] \<and> hd (drop (length p) url) = c then [c] else []) @
    (if drop (length p) url \<noteq> [] \<and> hd (drop (length p) url) = c then tl (drop (length p) url) else drop (length p) url)"
proof -
  have "url = p @ drop (length p) url" using append_take_drop_id [of "length p" url] assms by simp
  moreover obtain r where "drop (length p) url = r" by blast
  ultimately show ?thesis by (cases r) auto
qed

lemma parse_accepts:
  assumes "rtKind (Parse kApprovalV1 url) \<noteq> Invalid"
  shows "\<exists>slash ps s. slash \<in> {[], ''/''} \<and> url = auth_text slash ps \<and> length url \<le> 4096 \<and> reads_as ps s \<and>
    Parse kApprovalV1 url = judge_fields 2048 s"
proof -
  let ?rest = "drop (length kAuthPrefix) url"
  let ?strip = "?rest \<noteq> [] \<and> hd ?rest = CHR ''/''"
  let ?q = "if ?strip then tl ?rest else ?rest"
  have len: "length url \<le> 4096" and pre: "take (length kAuthPrefix) url = kAuthPrefix"
    and P: "Parse kApprovalV1 url = parse_query kApprovalV1 ?strip ?q"
    using assms by (auto simp: Parse_def kApprovalV1_def RefusedLink_def Let_def split: if_splits)
  have Q: "rtKind (parse_query kApprovalV1 ?strip ?q) \<noteq> Invalid" using assms unfolding P .
  obtain query ps s where q: "?q = CHR ''?'' # query" and sp: "split_pairs 6 0 query = Inr ps"
    and rd: "read_pairs 2048 NoFields ps = Inr s" and J: "parse_query kApprovalV1 ?strip ?q = judge_fields 2048 s"
    using Q unfolding parse_query_def
    by (auto simp: RefusedLink_def kApprovalV1_def simp del: drop_eq_Nil split: list.splits if_splits sum.splits)
  have slash: "url = kAuthPrefix @ (if ?strip then ''/'' else []) @ CHR ''?'' # query"
    using strip_text [OF pre, of "CHR ''/''"] unfolding q .
  have "reads_as ps s" using split_inv [OF sp] rd by (simp add: reads_as_def)
  moreover have "url = auth_text (if ?strip then ''/'' else []) ps" 
    unfolding auth_text_def conjunct1 [OF split_inv [OF sp], symmetric] by (rule slash)
  moreover have "Parse kApprovalV1 url = judge_fields 2048 s" using P J by simp
  moreover have "(if ?strip then ''/'' else []) \<in> {[], ''/''}" by (simp split: if_split)
  ultimately show ?thesis using len by blast
qed

text \<open>What the characters of such an address are.\<close>

lemma join_pairs_chars:
  assumes "fst ` set ps \<subseteq> kKeys" and "\<forall>kv\<in>set ps. list_all link_char (snd kv)" and "c \<in> set (join_pairs ps)"
  shows "c = CHR ''='' \<or> c = CHR ''&'' \<or> link_char c"
proof -
  consider "c = CHR ''='' \<or> c = CHR ''&''" | kv where "kv \<in> set ps" "c \<in> set (fst kv) \<or> c \<in> set (snd kv)"
    using set_join_pairs [of ps] assms(3) by blast
  then show ?thesis
  proof cases
    case 2
    then have "list_all link_char (fst kv)" "list_all link_char (snd kv)"
      using assms(1,2) kKeys_link_chars by blast+
    then show ?thesis using 2(2) by (auto simp: list_all_iff)
  qed blast
qed

lemma auth_text_chars:
  assumes "fst ` set ps \<subseteq> kKeys" and "\<forall>kv\<in>set ps. list_all link_char (snd kv)" and "slash \<in> {[], ''/''}"
    and "c \<in> set (auth_text slash ps)"
  shows "32 < code_of c \<and> code_of c < 127 \<and> c \<noteq> CHR ''%'' \<and> c \<noteq> quote_char"
proof -
  consider "c \<in> set kAuthPrefix" | "c \<in> set ''/?=&''" | "link_char c"
    using join_pairs_chars [OF assms(1,2), of c] assms(3,4) by (auto simp: auth_text_def)
  then show ?thesis by cases (auto simp: kAuthPrefix_def quote_char_def link_char_def)
qed

lemma parse_text:
  assumes "reads_as ps s" and "slash \<in> {[], ''/''}" and "length (auth_text slash ps) \<le> 4096"
    and "\<forall>kv\<in>set ps. list_all link_char (snd kv)"
  shows "Parse kApprovalV1 (auth_text slash ps) = judge_fields 2048 s"
proof -
  have keys: "fst ` set ps \<subseteq> kKeys" using assms(1) by (simp add: reads_as_def read_pairs_iff)
  note all = auth_text_chars [OF keys assms(4,2)]
  have nd: "CHR ''#'' \<notin> set (join_pairs ps)" "CHR ''?'' \<notin> set (join_pairs ps)"
    using join_pairs_chars [OF keys assms(4)] by (auto simp: link_char_def)
  have "\<not> list_ex (\<lambda>c. code_of c \<le> 32 \<or> 127 \<le> code_of c) (auth_text slash ps)"
    unfolding list_ex_iff using all by (meson not_less)
  moreover have "CHR ''%'' \<notin> set (auth_text slash ps)" using all by blast
  moreover have "take (length kAuthPrefix) (auth_text slash ps) = kAuthPrefix"
    "drop (length kAuthPrefix) (auth_text slash ps) = slash @ CHR ''?'' # join_pairs ps"
    by (simp_all add: auth_text_def)
  ultimately have "Parse kApprovalV1 (auth_text slash ps) = parse_query kApprovalV1 (slash \<noteq> []) (CHR ''?'' # join_pairs ps)"
    using assms(2,3) by (auto simp: Parse_def kApprovalV1_def Let_def)
  also have "\<dots> = judge_fields 2048 s"
    using assms(1) nd split_join [of ps 0 6] by (simp add: parse_query_def kApprovalV1_def reads_as_def)
  finally show ?thesis .
qed

lemma reads_as_iff:
  assumes "distinct ps" and "ps \<noteq> []" and "inj_on fst (set ps)" and "fst ` set ps \<subseteq> kKeys"
    and "\<forall>kv\<in>set ps. list_all link_char (snd kv) \<and> length (snd kv) \<le> 2048"
    and "\<And>k v. k \<in> kKeys \<Longrightarrow> (k, v) \<in> set ps \<longleftrightarrow> field_of s k = Some v" and "length ps \<le> 6"
  shows "reads_as ps s"
proof -
  have d: "distinct (map fst ps)" using assms(1,3) by (simp add: distinct_map)
  have "map_of ps k = field_of s k" if "k \<in> kKeys" for k
    using assms(6) [OF that] map_of_eq_Some_iff [OF d] by (metis not_None_eq)
  then have "read_pairs 2048 NoFields ps = Inr s"
    unfolding read_pairs_iff using d assms(4,5) by (auto split: option.splits)
  moreover have "list_all good_pair ps"
    unfolding list_all_iff
  proof
    fix kv assume kv: "kv \<in> set ps"
    then have "fst kv \<in> kKeys" using assms(4) by auto
    with kKeys_link_chars [OF this] assms(5) kv show "good_pair kv"
      by (fastforce simp: good_pair_def list_all_iff link_char_def)
  qed
  ultimately show ?thesis using assms(2,7) by (simp add: reads_as_def)
qed

lemma reads_as_set: "reads_as ps s \<Longrightarrow> set ps = {(k, v). k \<in> kKeys \<and> field_of s k = Some v} \<and> distinct ps"
proof -
  assume "reads_as ps s"
  then have r: "distinct (map fst ps)" "fst ` set ps \<subseteq> kKeys" "\<forall>k\<in>kKeys. field_of s k = map_of ps k"
    by (auto simp: reads_as_def read_pairs_iff split: option.splits)
  show ?thesis using fields_set [OF r] r(1) by (simp add: distinct_map)
qed

section \<open>What is refused\<close>

lemma split_pairs_why: "split_pairs m n rest = Inl why \<Longrightarrow> why \<noteq> NotRejected"
proof (induction m n rest rule: split_pairs.induct)
  case (1 m n rest)
  then show ?case by (subst (asm) (2) split_pairs.simps) (auto simp: Let_def split: if_splits list.splits sum.splits)
qed

lemma read_pairs_why: "read_pairs m s ps = Inl why \<Longrightarrow> why \<noteq> NotRejected"
  by (induction ps arbitrary: s)
    (auto simp: read_pair_def put_field_def split: sum.splits if_splits prod.splits)

lemma judge_why: "judge_fields m s = RefusedLink why \<Longrightarrow> why \<noteq> NotRejected"
  by (auto simp: judge_fields_def RefusedLink_def split: option.splits if_splits)

lemma judge_kind: "rtKind (judge_fields m s) = Invalid \<Longrightarrow> \<exists>why. judge_fields m s = RefusedLink why"
  by (auto simp: judge_fields_def split: option.splits if_splits)

lemma parse_refused:
  assumes "rtKind (Parse contract url) = Invalid"
  shows "\<exists>why. why \<noteq> NotRejected \<and> Parse contract url = RefusedLink why"
proof -
  have j: "rtKind (judge_fields m s) = Invalid \<Longrightarrow> \<exists>why. why \<noteq> NotRejected \<and> judge_fields m s = RefusedLink why" for m s
    using judge_kind judge_why by blast
  have q: "rtKind (parse_query contract b q) = Invalid \<Longrightarrow>
      \<exists>why. why \<noteq> NotRejected \<and> parse_query contract b q = RefusedLink why" for b q
  proof (cases "\<exists>query pairs s. q = CHR ''?'' # query \<and> CHR ''#'' \<notin> set query \<and> CHR ''?'' \<notin> set query \<and>
      split_pairs (coMaxPairs contract) 0 query = Inr pairs \<and> read_pairs (coMaxValueBytes contract) NoFields pairs = Inr s")
    case True
    then obtain s where "parse_query contract b q = judge_fields (coMaxValueBytes contract) s" by (auto simp: parse_query_def)
    moreover assume "rtKind (parse_query contract b q) = Invalid"
    ultimately show ?thesis using j by simp
  next
    case False
    have "\<exists>why\<in>- {NotRejected}. parse_query contract b q = RefusedLink why"
    proof (cases q)
      case (Cons first query)
      show ?thesis
      proof (cases "first = CHR ''?'' \<and> CHR ''#'' \<notin> set query \<and> CHR ''?'' \<notin> set query")
        case no: False
        then show ?thesis by (simp add: parse_query_def Cons) blast
      next
        case yes: True
        show ?thesis
        proof (cases "split_pairs (coMaxPairs contract) 0 query")
          case (Inl why)
          then show ?thesis using yes split_pairs_why [OF Inl] by (simp add: parse_query_def Cons) blast
        next
          case (Inr pairs)
          then obtain why where "read_pairs (coMaxValueBytes contract) NoFields pairs = Inl why"
            using False yes Cons by (cases "read_pairs (coMaxValueBytes contract) NoFields pairs") auto
          then show ?thesis using yes Inr read_pairs_why by (simp add: parse_query_def Cons) blast
        qed
      qed
    qed (auto simp: parse_query_def)
    then show ?thesis by blast
  qed
  show ?thesis using assms unfolding Parse_def Let_def
    by (cases "coMaxUrlBytes contract < length url"; cases "list_ex (\<lambda>c. code_of c \<le> 32 \<or> 127 \<le> code_of c) url";
        cases "take (length (coPrefix contract)) url \<noteq> coPrefix contract"; cases "CHR ''%'' \<in> set url")
      (simp_all only: if_True if_False simp_thms, (blast intro: q)+)
qed

section \<open>Exactly the two shapes\<close>

definition sealed_return :: "string \<Rightarrow> string \<Rightarrow> string \<Rightarrow> string \<Rightarrow> LinkReturn" where
  "sealed_return st epk nonce data =
    \<lparr>rtKind = Sealed, rtReject = NotRejected, rtState = st, rtEpk = epk, rtNonce = nonce, rtData = data\<rparr>"

definition denied_return :: "string \<Rightarrow> LinkReturn" where
  "denied_return st = \<lparr>rtKind = Denied, rtReject = NotRejected, rtState = st, rtEpk = [], rtNonce = [], rtData = []\<rparr>"

lemma field_of_iff:
  "field_of s k = Some v \<longleftrightarrow> k = ''state'' \<and> fiState s = Some v \<or> k = ''epk'' \<and> fiEpk s = Some v \<or>
    k = ''n'' \<and> fiNonce s = Some v \<or> k = ''d'' \<and> fiData s = Some v \<or> k = ''error'' \<and> fiError s = Some v"
proof (cases "k \<in> kKeys")
  case True
  then show ?thesis unfolding kKeys_def by (elim insertE emptyE) (simp_all add: field_of_def)
next
  case False
  then show ?thesis by (simp add: field_of_def kKeys_def)
qed

lemma sealed_fields:
  "(k, v) \<in> {(''state'', st), (''epk'', epk), (''n'', nonce), (''d'', data)} \<longleftrightarrow>
    field_of \<lparr>fiState = Some st, fiEpk = Some epk, fiNonce = Some nonce, fiData = Some data, fiError = None\<rparr> k = Some v"
  by (simp add: field_of_iff) blast

lemma denied_fields:
  "(k, v) \<in> {(''state'', st), (''error'', e)} \<longleftrightarrow>
    field_of \<lparr>fiState = Some st, fiEpk = None, fiNonce = None, fiData = None, fiError = Some e\<rparr> k = Some v"
  by (simp add: field_of_iff) blast

lemma sealed_pairs_read:
  assumes "distinct ps" and "set ps = {(''state'', st), (''epk'', epk), (''n'', nonce), (''d'', data)}"
    and "state_ok st" and "IsBase58 epk 64" and "IsBase58 nonce 64" and "IsBase58 data 2048"
  shows "reads_as ps \<lparr>fiState = Some st, fiEpk = Some epk, fiNonce = Some nonce, fiData = Some data, fiError = None\<rparr>"
proof (rule reads_as_iff [OF assms(1)])
  show "inj_on fst (set ps)" unfolding assms(2) by (simp add: inj_on_def)
  show "fst ` set ps \<subseteq> kKeys" unfolding assms(2) kKeys_def by simp
  show "\<forall>kv\<in>set ps. list_all link_char (snd kv) \<and> length (snd kv) \<le> 2048"
    unfolding assms(2) using assms(3-6) state_link_chars base58_link_chars
    by (auto simp: state_ok_def kStateChars_def IsBase58_def)
  show "(k, v) \<in> set ps \<longleftrightarrow> field_of \<lparr>fiState = Some st, fiEpk = Some epk, fiNonce = Some nonce,
      fiData = Some data, fiError = None\<rparr> k = Some v" if "k \<in> kKeys" for k v
    unfolding assms(2) by (rule sealed_fields)
  show "ps \<noteq> []" using assms(2) by (metis empty_not_insert list.set(1))
  have "length ps = card (set ps)" using assms(1) by (simp add: distinct_card)
  also have "\<dots> \<le> 6" unfolding assms(2) by (simp add: card_insert_if)
  finally show "length ps \<le> 6" .
qed

lemma denied_pairs_read:
  assumes "distinct ps" and "set ps = {(''state'', st), (''error'', kDeniedValue)}" and "state_ok st"
  shows "reads_as ps \<lparr>fiState = Some st, fiEpk = None, fiNonce = None, fiData = None, fiError = Some kDeniedValue\<rparr>"
proof (rule reads_as_iff [OF assms(1)])
  show "inj_on fst (set ps)" unfolding assms(2) by (simp add: inj_on_def)
  show "fst ` set ps \<subseteq> kKeys" unfolding assms(2) kKeys_def by simp
  show "\<forall>kv\<in>set ps. list_all link_char (snd kv) \<and> length (snd kv) \<le> 2048"
    unfolding assms(2) using assms(3) state_link_chars
    by (auto simp: state_ok_def kStateChars_def kDeniedValue_def link_char_def quote_char_def)
  show "(k, v) \<in> set ps \<longleftrightarrow> field_of \<lparr>fiState = Some st, fiEpk = None, fiNonce = None,
      fiData = None, fiError = Some kDeniedValue\<rparr> k = Some v" if "k \<in> kKeys" for k v
    unfolding assms(2) by (rule denied_fields)
  show "ps \<noteq> []" using assms(2) by (metis empty_not_insert list.set(1))
  have "length ps = card (set ps)" using assms(1) by (simp add: distinct_card)
  also have "\<dots> \<le> 6" unfolding assms(2) by (simp add: card_insert_if)
  finally show "length ps \<le> 6" .
qed

lemma sealed_value_chars:
  assumes "set ps = {(''state'', st), (''epk'', epk), (''n'', nonce), (''d'', data)}"
    and "state_ok st" and "IsBase58 epk 64" and "IsBase58 nonce 64" and "IsBase58 data 2048"
  shows "\<forall>kv\<in>set ps. list_all link_char (snd kv)"
  unfolding assms(1) using assms(2-5) state_link_chars base58_link_chars by auto

lemma reads_as_keys:
  assumes "reads_as ps s"
  shows "set ps = {(''state'', v) | v. fiState s = Some v} \<union> {(''epk'', v) | v. fiEpk s = Some v} \<union>
    {(''n'', v) | v. fiNonce s = Some v} \<union> {(''d'', v) | v. fiData s = Some v} \<union> {(''error'', v) | v. fiError s = Some v}"
  unfolding conjunct1 [OF reads_as_set [OF assms]] kKeys_def by (auto simp: field_of_def)
lemma sealed_exact:
  "Parse kApprovalV1 url = sealed_return st epk nonce data \<longleftrightarrow>
    (\<exists>slash ps. slash \<in> {[], ''/''} \<and> url = auth_text slash ps \<and> length url \<le> 4096 \<and> distinct ps \<and>
      set ps = {(''state'', st), (''epk'', epk), (''n'', nonce), (''d'', data)} \<and>
      state_ok st \<and> IsBase58 epk 64 \<and> IsBase58 nonce 64 \<and> IsBase58 data 2048)"
proof
  assume P: "Parse kApprovalV1 url = sealed_return st epk nonce data"
  then have "rtKind (Parse kApprovalV1 url) \<noteq> Invalid" by (simp add: sealed_return_def)
  from parse_accepts [OF this] obtain slash ps s where a: "slash \<in> {[], ''/''}" "url = auth_text slash ps"
    "length url \<le> 4096" and r: "reads_as ps s" and j: "Parse kApprovalV1 url = judge_fields 2048 s" by blast
  note f = iffD1 [OF judge_sealed, OF trans [OF j [symmetric] P [unfolded sealed_return_def]]]
  have "set ps = {(''state'', st), (''epk'', epk), (''n'', nonce), (''d'', data)}"
    unfolding reads_as_keys [OF r] using f by (simp add: insert_commute)
  then show "\<exists>slash ps. slash \<in> {[], ''/''} \<and> url = auth_text slash ps \<and> length url \<le> 4096 \<and> distinct ps \<and>
      set ps = {(''state'', st), (''epk'', epk), (''n'', nonce), (''d'', data)} \<and>
      state_ok st \<and> IsBase58 epk 64 \<and> IsBase58 nonce 64 \<and> IsBase58 data 2048"
    using a f conjunct2 [OF reads_as_set [OF r]] by blast
next
  assume "\<exists>slash ps. slash \<in> {[], ''/''} \<and> url = auth_text slash ps \<and> length url \<le> 4096 \<and> distinct ps \<and>
      set ps = {(''state'', st), (''epk'', epk), (''n'', nonce), (''d'', data)} \<and>
      state_ok st \<and> IsBase58 epk 64 \<and> IsBase58 nonce 64 \<and> IsBase58 data 2048"
  then obtain slash ps where a: "slash \<in> {[], ''/''}" "url = auth_text slash ps" "length url \<le> 4096"
    and d: "distinct ps" and ps: "set ps = {(''state'', st), (''epk'', epk), (''n'', nonce), (''d'', data)}"
    and ok: "state_ok st" "IsBase58 epk 64" "IsBase58 nonce 64" "IsBase58 data 2048" by blast
  have "Parse kApprovalV1 url = judge_fields 2048 \<lparr>fiState = Some st, fiEpk = Some epk, fiNonce = Some nonce,
      fiData = Some data, fiError = None\<rparr>"
    unfolding a(2) by (rule parse_text [OF sealed_pairs_read [OF d ps ok] a(1) a(3) [unfolded a(2)] sealed_value_chars [OF ps ok]])
  also have "\<dots> = sealed_return st epk nonce data"
    unfolding sealed_return_def judge_sealed using ok by simp
  finally show "Parse kApprovalV1 url = sealed_return st epk nonce data" .
qed

lemma denied_exact:
  "Parse kApprovalV1 url = denied_return st \<longleftrightarrow>
    (\<exists>slash ps. slash \<in> {[], ''/''} \<and> url = auth_text slash ps \<and> length url \<le> 4096 \<and> distinct ps \<and>
      set ps = {(''state'', st), (''error'', kDeniedValue)} \<and> state_ok st)"
proof
  assume P: "Parse kApprovalV1 url = denied_return st"
  then have "rtKind (Parse kApprovalV1 url) \<noteq> Invalid" by (simp add: denied_return_def)
  from parse_accepts [OF this] obtain slash ps s where a: "slash \<in> {[], ''/''}" "url = auth_text slash ps"
    "length url \<le> 4096" and r: "reads_as ps s" and j: "Parse kApprovalV1 url = judge_fields 2048 s" by blast
  note f = iffD1 [OF judge_denied, OF trans [OF j [symmetric] P [unfolded denied_return_def]]]
  have "set ps = {(''state'', st), (''error'', kDeniedValue)}"
    unfolding reads_as_keys [OF r] using f by auto
  then show "\<exists>slash ps. slash \<in> {[], ''/''} \<and> url = auth_text slash ps \<and> length url \<le> 4096 \<and> distinct ps \<and>
      set ps = {(''state'', st), (''error'', kDeniedValue)} \<and> state_ok st"
    using a f conjunct2 [OF reads_as_set [OF r]] by blast
next
  assume "\<exists>slash ps. slash \<in> {[], ''/''} \<and> url = auth_text slash ps \<and> length url \<le> 4096 \<and> distinct ps \<and>
      set ps = {(''state'', st), (''error'', kDeniedValue)} \<and> state_ok st"
  then obtain slash ps where a: "slash \<in> {[], ''/''}" "url = auth_text slash ps" "length url \<le> 4096"
    and d: "distinct ps" and ps: "set ps = {(''state'', st), (''error'', kDeniedValue)}" and ok: "state_ok st" by blast
  have v: "\<forall>kv\<in>set ps. list_all link_char (snd kv)"
    unfolding ps using state_link_chars [OF ok] by (simp add: kDeniedValue_def link_char_def quote_char_def)
  have "Parse kApprovalV1 url = judge_fields 2048 \<lparr>fiState = Some st, fiEpk = None, fiNonce = None,
      fiData = None, fiError = Some kDeniedValue\<rparr>"
    unfolding a(2) by (rule parse_text [OF denied_pairs_read [OF d ps ok] a(1) a(3) [unfolded a(2)] v])
  also have "\<dots> = denied_return st"
    unfolding denied_return_def judge_denied using ok by simp
  finally show "Parse kApprovalV1 url = denied_return st" .
qed

lemma parse_shapes:
  "(\<exists>why. why \<noteq> NotRejected \<and> Parse kApprovalV1 url = RefusedLink why) \<or>
    (\<exists>st epk nonce data. Parse kApprovalV1 url = sealed_return st epk nonce data) \<or>
    (\<exists>st. Parse kApprovalV1 url = denied_return st)"
proof (cases "rtKind (Parse kApprovalV1 url) = Invalid")
  case True
  then show ?thesis using parse_refused by blast
next
  case False
  then obtain s where j: "Parse kApprovalV1 url = judge_fields 2048 s" using parse_accepts by blast
  then show ?thesis using judge_cases [of 2048 s] False unfolding sealed_return_def denied_return_def by simp
qed
section \<open>The search and the redaction\<close>

lemma find_upt:
  "find P [a..<b] = Some i \<longleftrightarrow> a \<le> i \<and> i < b \<and> P i \<and> (\<forall>j. a \<le> j \<and> j < i \<longrightarrow> \<not> P j)"
proof
  assume "find P [a..<b] = Some i"
  then obtain n where n: "n < b - a" "P (a + n)" "i = a + n" "\<forall>j<n. \<not> P ([a..<b] ! j)"
    by (auto simp: find_Some_iff)
  have "\<not> P j" if "a \<le> j" "j < i" for j
    using n(1,3) n(4) [rule_format, of "j - a"] that by simp
  then show "a \<le> i \<and> i < b \<and> P i \<and> (\<forall>j. a \<le> j \<and> j < i \<longrightarrow> \<not> P j)" using n by auto
next
  assume i: "a \<le> i \<and> i < b \<and> P i \<and> (\<forall>j. a \<le> j \<and> j < i \<longrightarrow> \<not> P j)"
  then show "find P [a..<b] = Some i" unfolding find_Some_iff by (intro exI [of _ "i - a"]) auto
qed

lemma find_none: "find P xs = None \<longleftrightarrow> (\<forall>x\<in>set xs. \<not> P x)"
  by (induction xs) auto

text \<open>Where a link ends, when what it is made of is known.\<close>

lemma LinkEnd_found:
  assumes "set link \<inter> set enders = {}" and "post = [] \<or> hd post \<in> set enders"
  shows "LinkEnd (pre @ link @ post) (length pre) enders = length pre + length link"
proof (cases post)
  case Nil
  have "find (\<lambda>i. (pre @ link @ post) ! i \<in> set enders) [length pre..<length (pre @ link @ post)] = None"
    unfolding find_none
  proof
    fix i assume i: "i \<in> set [length pre..<length (pre @ link @ post)]"
    then have "(pre @ link @ post) ! i = link ! (i - length pre)" "i - length pre < length link"
      by (auto simp: Nil nth_append)
    then show "(pre @ link @ post) ! i \<notin> set enders" using assms(1) nth_mem [of "i - length pre" link]
      by (simp add: disjoint_iff)
  qed
  then show ?thesis by (simp add: LinkEnd_def Nil)
next
  case (Cons e post')
  then have e: "e \<in> set enders" using assms(2) by simp
  have "find (\<lambda>i. (pre @ link @ post) ! i \<in> set enders) [length pre..<length (pre @ link @ post)] =
      Some (length pre + length link)"
    unfolding find_upt
  proof (intro conjI allI impI)
    fix i assume i: "length pre \<le> i \<and> i < length pre + length link"
    then have "(pre @ link @ post) ! i = link ! (i - length pre)" "i - length pre < length link"
      by (auto simp: nth_append)
    then show "(pre @ link @ post) ! i \<notin> set enders" using assms(1) nth_mem [of "i - length pre" link]
      by (simp add: disjoint_iff)
  qed (use e in \<open>auto simp: Cons nth_append\<close>)
  then show ?thesis by (simp add: LinkEnd_def)
qed

lemma LinkEnd_bound: "start \<le> length line \<Longrightarrow> start \<le> LinkEnd line start enders \<and> LinkEnd line start enders \<le> length line"
proof (cases "find (\<lambda>i. line ! i \<in> set enders) [start..<length line]")
  case (Some e)
  then show ?thesis using iffD1 [OF find_upt Some] by (simp add: LinkEnd_def)
qed (simp add: LinkEnd_def)

lemma LinkEnd_progress:
  assumes "start < length line" and "line ! start \<notin> set enders"
  shows "start < LinkEnd line start enders"
proof (cases "find (\<lambda>i. line ! i \<in> set enders) [start..<length line]")
  case (Some e)
  note f = iffD1 [OF find_upt Some]
  then have "e \<noteq> start" using assms(2) by metis
  then show ?thesis using f Some by (simp add: LinkEnd_def)
qed (use assms in \<open>simp add: LinkEnd_def\<close>)

text \<open>Where the scheme is found.\<close>

lemma FindScheme_iff:
  assumes "lowerScheme \<noteq> []"
  shows "FindSchemeIgnoringCase ch line lowerScheme start = Some i \<longleftrightarrow> start \<le> i \<and>
    map (chLower ch) (take (length lowerScheme) (drop i line)) = lowerScheme \<and>
    (\<forall>j. start \<le> j \<and> j < i \<longrightarrow> map (chLower ch) (take (length lowerScheme) (drop j line)) \<noteq> lowerScheme)"
proof -
  have "map (chLower ch) (take (length lowerScheme) (drop i line)) = lowerScheme \<Longrightarrow>
      i < Suc (length line) - length lowerScheme"
  proof -
    assume m: "map (chLower ch) (take (length lowerScheme) (drop i line)) = lowerScheme"
    have "length lowerScheme \<le> length line - i" using arg_cong [OF m, of length] by simp
    then show ?thesis using assms by (cases lowerScheme) auto
  qed
  then show ?thesis unfolding FindSchemeIgnoringCase_def find_upt EqualsLower_def by blast
qed

text \<open>Each turn of the loop goes past a link, because a link does not begin with what ends it.\<close>

definition ends_links :: "'c Chars \<Rightarrow> 'c list \<Rightarrow> 'c list \<Rightarrow> bool" where
  "ends_links ch lowerScheme enders \<longleftrightarrow> lowerScheme \<noteq> [] \<and> (\<forall>e\<in>set enders. chLower ch e \<noteq> hd lowerScheme)"

lemma redact_progress:
  assumes "ends_links ch lowerScheme enders" and "FindSchemeIgnoringCase ch line lowerScheme start = Some found"
  shows "start \<le> found \<and> found < LinkEnd line found enders \<and> LinkEnd line found enders \<le> length line"
proof -
  have ne: "lowerScheme \<noteq> []" using assms(1) by (simp add: ends_links_def)
  note f = iffD1 [OF FindScheme_iff [OF ne] assms(2)]
  obtain c cs where c: "lowerScheme = c # cs" using ne by (cases lowerScheme) auto
  have "drop found line \<noteq> []" using f c by auto
  then have l: "found < length line" by simp
  have "chLower ch (hd (drop found line)) = c" using f c \<open>drop found line \<noteq> []\<close> by (cases "drop found line") auto
  then have "line ! found \<notin> set enders" using assms(1) c l by (auto simp: ends_links_def hd_drop_conv_nth)
  then show ?thesis using f LinkEnd_progress [OF l] LinkEnd_bound [of found line enders] l by simp
qed

lemma redact_total:
  assumes "ends_links ch lowerScheme enders"
  shows "\<exists>r. redact_loop ch line lowerScheme enders start out = Some r"
proof (induction "length line - start" arbitrary: start out rule: less_induct)
  case less
  show ?case
  proof (cases "length line \<le> start \<or> FindSchemeIgnoringCase ch line lowerScheme start = None")
    case True
    then show ?thesis by (subst redact_loop.simps) auto
  next
    case False
    then obtain found where f: "FindSchemeIgnoringCase ch line lowerScheme start = Some found" by blast
    note p = redact_progress [OF assms f]
    then have "length line - LinkEnd line found enders < length line - start" by linarith
    then show ?thesis using less False f by (subst redact_loop.simps) (simp add: Let_def)
  qed
qed

lemma drop_agree: "drop n xs = drop n ys \<Longrightarrow> n \<le> m \<Longrightarrow> drop m xs = drop m ys"
  by (metis drop_drop le_add_diff_inverse2)

lemma find_cong': "(\<And>x. x \<in> set xs \<Longrightarrow> P x = Q x) \<Longrightarrow> find P xs = find Q xs"
  by (induction xs) auto

text \<open>What is behind the loop does not matter to what it adds.\<close>

lemma redact_agree:
  assumes "ends_links ch lowerScheme enders" and "length line = length line'" and "drop start line = drop start line'"
  shows "redact_loop ch line lowerScheme enders start out = redact_loop ch line' lowerScheme enders start out"
  using assms(3)
proof (induction "length line - start" arbitrary: start out rule: less_induct)
  case less
  have d: "start \<le> m \<Longrightarrow> drop m line = drop m line'" for m using less(2) by (rule drop_agree)
  have F: "FindSchemeIgnoringCase ch line lowerScheme start = FindSchemeIgnoringCase ch line' lowerScheme start"
    unfolding FindSchemeIgnoringCase_def using assms(2) d by (auto intro!: find_cong')
  have L: "LinkEnd line m enders = LinkEnd line' m enders" if "start \<le> m" for m
  proof -
    have "line ! i = line' ! i" if "i \<in> set [m..<length line]" for i
      using d [of i] that \<open>start \<le> m\<close> assms(2) by (metis atLeastLessThan_iff hd_drop_conv_nth le_trans set_upt)
    then have "find (\<lambda>i. line ! i \<in> set enders) [m..<length line] = find (\<lambda>i. line' ! i \<in> set enders) [m..<length line]"
      by (intro find_cong') auto
    then show ?thesis unfolding LinkEnd_def assms(2) by simp
  qed
  show ?case
  proof (cases "length line \<le> start \<or> FindSchemeIgnoringCase ch line lowerScheme start = None")
    case True
    then show ?thesis using F d [of start] assms(2)
      by (subst (1 2) redact_loop.simps) auto
  next
    case False
    then obtain found where f: "FindSchemeIgnoringCase ch line lowerScheme start = Some found" by blast
    note p = redact_progress [OF assms(1) f]
    let ?e = "LinkEnd line found enders"
    have e: "start \<le> found" "start \<le> ?e" "length line - ?e < length line - start" using p False by linarith+
    have "redact_loop ch line lowerScheme enders ?e o' = redact_loop ch line' lowerScheme enders ?e o'" for o'
      using less(1) [OF e(3) d [OF e(2)]] .
    then show ?thesis using False f F L [OF e(1)] d [OF e(1)] d [OF e(2)] d [of start] assms(2)
      by (subst (1 2) redact_loop.simps) (simp add: Let_def)
  qed
qed

section \<open>A sign-in link in a command line\<close>

lemma wide_of_simps:
  assumes "code_of c < 128"
  shows "unat (wide_of c) = code_of c" "LowerWide (wide_of c) = wide_of (Lower c)"
    "chAscii wide_chars (wide_of c) = c"
proof -
  show u: "unat (wide_of c) = code_of c" using assms by (simp add: wide_of_def unat_of_nat)
  show "LowerWide (wide_of c) = wide_of (Lower c)"
    using assms unfolding LowerWide_def u by (auto simp: Lower_def is_upper_def wide_of_def)
  show "chAscii wide_chars (wide_of c) = c" using assms by (simp add: wide_chars_def u AsciiOnlyUnit_def)
qed

text \<open>An argument that is a sign-in link, with nothing in it that ends one.\<close>

definition auth_arg :: "string \<Rightarrow> bool" where
  "auth_arg link \<longleftrightarrow> (\<exists>c r. link = kAuthPrefix @ c # r \<and> c \<in> set ''/?#'') \<and>
    list_all (\<lambda>c. 32 < code_of c \<and> code_of c < 127 \<and> c \<noteq> quote_char) link"

lemma find_auth_scheme: "find_str ''://'' (kAuthPrefix @ r) = Some 9"
proof -
  have "take 3 (drop j (kAuthPrefix @ r)) \<noteq> ''://''" if "j < 9" for j
  proof -
    from that consider "j = 0" | "j = 1" | "j = 2" | "j = 3" | "j = 4" | "j = 5" | "j = 6" | "j = 7" | "j = 8"
      by linarith
    then show ?thesis by cases (simp_all add: kAuthPrefix_def)
  qed
  then have "\<forall>j. 0 \<le> j \<and> j < 9 \<longrightarrow> take 3 (drop j (kAuthPrefix @ r)) \<noteq> ''://''" by blast
  moreover have "take 3 (drop 9 (kAuthPrefix @ r)) = ''://''" by (simp add: kAuthPrefix_def)
  moreover have "(9 :: nat) < Suc (length (kAuthPrefix @ r)) - 3" by (simp add: kAuthPrefix_def)
  moreover have "length ''://'' = 3" by simp
  ultimately show ?thesis unfolding find_str_def find_upt by (metis le0)
qed

lemma redact_auth_url:
  assumes "c \<in> set ''/?#''"
  shows "RedactUrl (kAuthPrefix @ c # r) =
    kAuthPrefix @ '' [redacted '' @ show_nat (length (kAuthPrefix @ c # r)) @ '' chars]''"
proof -
  have t: "take 9 (kAuthPrefix @ c # r) = ''urnetwork''" "drop (9 + 3) (kAuthPrefix @ c # r) = ''auth'' @ c # r"
    by (simp_all add: kAuthPrefix_def)
  have h: "takeWhile (\<lambda>x. x \<notin> set ''/?#:@'') (''auth'' @ c # r) = ''auth''"
    "dropWhile (\<lambda>x. x \<notin> set ''/?#:@'') (''auth'' @ c # r) = c # r"
    using assms by auto
  have p: "IsPlainToken ''urnetwork'' 16" "IsPlainToken ''auth'' 32"
    by (simp_all add: IsPlainToken_def is_upper_def is_lower_def)
  show ?thesis unfolding RedactUrl_def find_auth_scheme option.case Let_def t h using p assms
    by (auto simp: kAuthPrefix_def)
qed

lemma auth_not_redacted:
  assumes "c \<in> set ''/?#''"
  shows "\<not> IsRedactedAlready (kAuthPrefix @ c # r) after"
proof -
  have "drop (9 + 3) (kAuthPrefix @ c # r) = ''auth'' @ c # r" by (simp add: kAuthPrefix_def)
  moreover have "\<not> IsPlainToken (''auth'' @ c # r) 32"
    using assms by (auto simp: IsPlainToken_def is_upper_def is_lower_def IsDigit_def)
  ultimately show ?thesis unfolding IsRedactedAlready_def find_auth_scheme option.case Let_def by simp
qed

definition first_link :: "wide list \<Rightarrow> bool" where
  "first_link pre \<longleftrightarrow> (\<forall>i<length pre.
    map LowerWide (take 10 (drop i (pre @ map wide_of ''urnetwork:''))) \<noteq> map wide_of ''urnetwork:'')"

lemma lower_scheme: "map LowerWide (map wide_of ''urnetwork://'') = map wide_of ''urnetwork://''"
  by (simp add: LowerWide_def wide_of_def unat_of_nat)

lemma command_ends: "ends_links wide_chars (lit wide_chars ''urnetwork:'') command_enders"
  by (simp add: ends_links_def command_enders_def wide_chars_def LowerWide_def wide_of_def tab_char_def quote_char_def)

lemma wide_scheme: "length (lit wide_chars s) = length s" "lit wide_chars s = map wide_of s"
  by (simp_all add: wide_chars_def)

lemma take_prefix: "j < length a \<Longrightarrow> length u = n \<Longrightarrow> take n (drop j (a @ u @ y)) = take n (drop j (a @ u))"
  by simp

lemma first_link_find:
  assumes "first_link pre" and "auth_arg link" and "lower = ''urnetwork:'' \<or> lower = ''urnetwork://''"
  shows "FindSchemeIgnoringCase wide_chars (pre @ map wide_of link @ post) (lit wide_chars lower) 0 = Some (length pre)"
proof -
  obtain c r where l: "link = kAuthPrefix @ c # r" using assms(2) by (auto simp: auth_arg_def)
  have u: "take 10 lower = ''urnetwork:''" "take (length lower) link = lower" "10 \<le> length lower" "lower \<noteq> []"
    using assms(3) l by (auto simp: kAuthPrefix_def)
  have lw: "map LowerWide (map wide_of lower) = map wide_of lower"
    using assms(3) lower_scheme by (auto simp: LowerWide_def wide_of_def unat_of_nat)
  have here: "map LowerWide (take (length lower) (drop (length pre) (pre @ map wide_of link @ post))) = map wide_of lower"
  proof -
    have "length lower \<le> length link" using u(2) by (metis length_take min.cobounded1)
    moreover have "take (length lower) (map wide_of link) = map wide_of lower" using u(2) by (metis take_map)
    ultimately have "take (length lower) (map wide_of link @ post) = map wide_of lower" by simp
    then show ?thesis using lw by simp
  qed
  have before: "map LowerWide (take (length lower) (drop j (pre @ map wide_of link @ post))) \<noteq> map wide_of lower"
    if j: "j < length pre" for j
  proof
    assume "map LowerWide (take (length lower) (drop j (pre @ map wide_of link @ post))) = map wide_of lower"
    then have "take 10 (map LowerWide (take (length lower) (drop j (pre @ map wide_of link @ post)))) =
        take 10 (map wide_of lower)" by simp
    then have m: "map LowerWide (take 10 (drop j (pre @ map wide_of link @ post))) = map wide_of ''urnetwork:''"
      using u(1,3) by (metis min.absorb1 take_map take_take)
    have "map wide_of link @ post = map wide_of ''urnetwork:'' @ map wide_of (drop 10 link) @ post"
      unfolding l by (simp add: kAuthPrefix_def)
    then have "take 10 (drop j (pre @ map wide_of link @ post)) = take 10 (drop j (pre @ map wide_of ''urnetwork:''))"
      using take_prefix [OF j, of "map wide_of ''urnetwork:''" 10] by simp
    then show False using m assms(1) j unfolding first_link_def by metis
  qed
  have ne: "map wide_of lower \<noteq> []" using u(4) by simp
  have ll: "chLower wide_chars = LowerWide" by (simp add: wide_chars_def)
  show ?thesis unfolding wide_scheme(2) FindScheme_iff [OF ne] ll length_map using here before by blast
qed

lemma auth_arg_enders:
  assumes "auth_arg link"
  shows "set (map wide_of link) \<inter> set command_enders = {}"
proof -
  have "wide_of c \<notin> set command_enders" if "c \<in> set link" for c
  proof -
    have c: "32 < code_of c" "code_of c < 127" "c \<noteq> quote_char"
      using assms that by (auto simp: auth_arg_def list_all_iff)
    have "code_of c \<noteq> 34"
    proof
      assume "code_of c = 34"
      then have "code_of c = code_of quote_char" by (simp add: quote_char_def)
      then show False using c(3) by (metis char_of_char)
    qed
    then have "unat (wide_of c) \<notin> {32, 9, 34}" using c wide_of_simps(1) [of c] by simp
    moreover have "unat ` set command_enders = {32, 9, 34}"
      by (simp add: command_enders_def tab_char_def quote_char_def wide_of_def unat_of_nat)
    ultimately show ?thesis by blast
  qed
  then show ?thesis by auto
qed

lemma auth_arg_ascii: "auth_arg link \<Longrightarrow> map (chAscii wide_chars) (map wide_of link) = link"
  by (induction link) (auto simp: auth_arg_def list_all_iff wide_of_simps(3) intro!: map_idI)

lemma command_link_end:
  assumes "auth_arg link" and "post = [] \<or> hd post \<in> set command_enders"
  shows "LinkEnd (pre @ map wide_of link @ post) (length pre) command_enders = length pre + length link"
  using LinkEnd_found [OF auth_arg_enders [OF assms(1)] assms(2), of pre] by simp

lemma link_in_command:
  assumes "first_link pre" and "auth_arg link" and "post = [] \<or> hd post \<in> set command_enders"
  shows "LinkInCommandLine (pre @ map wide_of link @ post) = map wide_of link"
  unfolding LinkInCommandLine_def first_link_find [OF assms(1,2) disjI2 [OF refl]] option.case
    command_link_end [OF assms(2,3)] by simp

lemma redact_command:
  assumes "first_link pre" and "auth_arg link" and "post = [] \<or> hd post \<in> set command_enders"
  shows "RedactCommandLine (pre @ map wide_of link @ post) =
    redact_loop wide_chars (pre @ map wide_of link @ post) (lit wide_chars ''urnetwork:'') command_enders
      (length pre + length link)
      (pre @ map wide_of (kAuthPrefix @ '' [redacted '' @ show_nat (length link) @ '' chars]''))"
proof -
  obtain c r where l: "link = kAuthPrefix @ c # r" and c: "c \<in> set ''/?#''" using assms(2) by (auto simp: auth_arg_def)
  let ?line = "pre @ map wide_of link @ post"
  obtain S where S: "lit wide_chars ''urnetwork:'' = S" by blast
  obtain R where R: "RedactUrl link = R" by blast
  have ne: "\<not> length ?line \<le> 0" unfolding l by simp
  have f: "FindSchemeIgnoringCase wide_chars ?line S 0 = Some (length pre)"
    using first_link_find [OF assms(1,2) disjI1 [OF refl]] unfolding S .
  have e: "LinkEnd ?line (length pre) command_enders = length pre + length link"
    by (rule command_link_end [OF assms(2,3)])
  have cut: "take (length pre + length link - length pre) (drop (length pre) ?line) = map wide_of link"
    "[] @ take (length pre - 0) (drop 0 ?line) = pre" by simp_all
  have "redact_loop wide_chars ?line S command_enders 0 [] =
      redact_loop wide_chars ?line S command_enders (length pre + length link) (pre @ lit wide_chars R)"
    unfolding redact_loop.simps [of wide_chars ?line S command_enders 0 "[]"] f option.case Let_def e cut
      auth_arg_ascii [OF assms(2)] R if_not_P [OF ne] if_not_P [OF auth_not_redacted [OF c, of r, folded l]] ..
  moreover have "lit wide_chars R = map wide_of (kAuthPrefix @ '' [redacted '' @ show_nat (length link) @ '' chars]'')"
    using redact_auth_url [OF c, of r, folded l] unfolding R wide_scheme(2) by simp
  ultimately show ?thesis unfolding RedactCommandLine_def RedactLinks_def S by simp
qed

text \<open>Whatever the parser accepts is such an argument.\<close>

lemma accepted_auth_arg:
  assumes "rtKind (Parse kApprovalV1 url) \<noteq> Invalid"
  shows "auth_arg url"
proof -
  have "\<exists>slash ps. slash \<in> {[], ''/''} \<and> url = auth_text slash ps \<and> fst ` set ps \<subseteq> kKeys \<and>
      (\<forall>kv\<in>set ps. list_all link_char (snd kv))"
  proof -
    consider st epk nonce data where "Parse kApprovalV1 url = sealed_return st epk nonce data"
      | st where "Parse kApprovalV1 url = denied_return st"
      using parse_shapes [of url] assms by (auto simp: RefusedLink_def)
    then show ?thesis
    proof cases
      case 1
      then obtain slash ps where a: "slash \<in> {[], ''/''}" "url = auth_text slash ps"
        and ps: "set ps = {(''state'', st), (''epk'', epk), (''n'', nonce), (''d'', data)}"
        and ok: "state_ok st" "IsBase58 epk 64" "IsBase58 nonce 64" "IsBase58 data 2048"
        unfolding sealed_exact by blast
      have "fst ` set ps \<subseteq> kKeys" unfolding ps kKeys_def by simp
      then show ?thesis using a sealed_value_chars [OF ps ok] by blast
    next
      case 2
      then obtain slash ps where a: "slash \<in> {[], ''/''}" "url = auth_text slash ps"
        and ps: "set ps = {(''state'', st), (''error'', kDeniedValue)}" and ok: "state_ok st"
        unfolding denied_exact by blast
      have "fst ` set ps \<subseteq> kKeys" unfolding ps kKeys_def by simp
      moreover have "\<forall>kv\<in>set ps. list_all link_char (snd kv)"
        unfolding ps using state_link_chars [OF ok] by (simp add: kDeniedValue_def link_char_def quote_char_def)
      ultimately show ?thesis using a by blast
    qed
  qed
  then obtain slash ps where a: "slash \<in> {[], ''/''}" "url = auth_text slash ps" "fst ` set ps \<subseteq> kKeys"
    "\<forall>kv\<in>set ps. list_all link_char (snd kv)" by blast
  have "\<exists>c r. url = kAuthPrefix @ c # r \<and> c \<in> set ''/?#''" using a(1,2) by (auto simp: auth_text_def)
  moreover have "list_all (\<lambda>c. 32 < code_of c \<and> code_of c < 127 \<and> c \<noteq> quote_char) url"
    unfolding list_all_iff a(2) using auth_text_chars [OF a(3,4,1)] by blast
  ultimately show ?thesis by (simp add: auth_arg_def)
qed

section \<open>Properties\<close>

text \<open>
  (C29) The parser accepts exactly the two returns the contract has and nothing else. A link reads as a sealed
  answer with given values just when it is the auth host, one optional slash and a query of the four pairs
  in some order, each once, with the values in their alphabets and sizes; as a denial just when it is the
  two pairs of one; and every other text is refused with a reason and carries no value.
\<close>

theorem auth_link_exact:
  "(Parse kApprovalV1 url = sealed_return st epk nonce data \<longleftrightarrow>
      (\<exists>slash ps. slash \<in> {[], ''/''} \<and> url = auth_text slash ps \<and> length url \<le> 4096 \<and> distinct ps \<and>
        set ps = {(''state'', st), (''epk'', epk), (''n'', nonce), (''d'', data)} \<and>
        state_ok st \<and> IsBase58 epk 64 \<and> IsBase58 nonce 64 \<and> IsBase58 data 2048)) \<and>
    (Parse kApprovalV1 url = denied_return st \<longleftrightarrow>
      (\<exists>slash ps. slash \<in> {[], ''/''} \<and> url = auth_text slash ps \<and> length url \<le> 4096 \<and> distinct ps \<and>
        set ps = {(''state'', st), (''error'', kDeniedValue)} \<and> state_ok st)) \<and>
    ((\<exists>why. why \<noteq> NotRejected \<and> Parse kApprovalV1 url = RefusedLink why) \<or>
      (\<exists>st epk nonce data. Parse kApprovalV1 url = sealed_return st epk nonce data) \<or>
      (\<exists>st. Parse kApprovalV1 url = denied_return st))"
  using sealed_exact denied_exact parse_shapes by simp



end
