(* ===== verification/Approval.thy ===== *)
theory Approval
  imports AuthLink Wire InstanceHandover
begin

text \<open>
  A sign-in approved in the browser: which network a request names (\<^verbatim>\<open>App/ApprovalNetwork.h\<close>), the attempt
  and its gate (\<^verbatim>\<open>App/UrIoApproval.h\<close>), the opening of the sealed answer (\<^verbatim>\<open>App/ApprovalUnseal.h\<close>) and what
  \<^verbatim>\<open>AppController\<close> does with them. Times are nanoseconds of the two clocks. The crypto of the SDK is a record
  of its functions, where \<open>None\<close> is an answer that is missing or an exception; the shell's windows are the
  list of what the person and the log were told.
\<close>

unbundle bit_operations_syntax

section \<open>The network of a request\<close>

definition kContract :: i64 where "kContract = 1"
definition kContractNamed :: i64 where "kContractNamed = 2"
definition kMaxApiChars :: nat where "kMaxApiChars = 200"
definition kMaxApiLabelChars :: nat where "kMaxApiLabelChars = 63"
definition kMaxApiPort :: nat where "kMaxApiPort = 65535"
definition kHttpsPort :: nat where "kHttpsPort = 443"

definition IsLowerOrDigit :: "char \<Rightarrow> bool" where "IsLowerOrDigit c \<longleftrightarrow> is_lower c \<or> IsDigit c"

definition IsAllDigits :: "string \<Rightarrow> bool" where "IsAllDigits s \<longleftrightarrow> s \<noteq> [] \<and> list_all IsDigit s"

definition IsHexNumber :: "string \<Rightarrow> bool" where
  "IsHexNumber s \<longleftrightarrow> take 2 s = ''0x'' \<and> list_all (\<lambda>c. IsDigit c \<or> 97 \<le> code_of c \<and> code_of c \<le> 102) (drop 2 s)"

definition IsApiLabel :: "string \<Rightarrow> bool" where
  "IsApiLabel label \<longleftrightarrow> label \<noteq> [] \<and> length label \<le> kMaxApiLabelChars \<and> IsLowerOrDigit (hd label) \<and>
    IsLowerOrDigit (last label) \<and> list_all (\<lambda>c. IsLowerOrDigit c \<or> c = CHR ''-'') label"

definition IsApiPort :: "string \<Rightarrow> bool" where
  "IsApiPort port \<longleftrightarrow> IsAllDigits port \<and> length port \<le> 5 \<and> hd port \<noteq> CHR ''0'' \<and>
    dec_value port \<le> kMaxApiPort \<and> dec_value port \<noteq> kHttpsPort"

text \<open>The labels the loop over the dots reads; a dot at the end is an empty label.\<close>

fun split_dots :: "string \<Rightarrow> string list" where
  "split_dots [] = [[]]"
| "split_dots (c # cs) = (if c = CHR ''.'' then [] # split_dots cs
    else case split_dots cs of [] \<Rightarrow> [[c]] | label # labels \<Rightarrow> (c # label) # labels)"

definition IsValidApiHost :: "string \<Rightarrow> bool" where
  "IsValidApiHost host =
    (if host = [] \<or> kMaxApiChars < length host then False
     else let name = takeWhile (\<lambda>c. c \<noteq> CHR '':'') host in
     if CHR '':'' \<in> set host \<and> \<not> IsApiPort (drop (Suc (length name)) host) then False
     else let labels = split_dots name
          in list_all IsApiLabel labels \<and> 2 \<le> length labels \<and> \<not> IsAllDigits (last labels) \<and> \<not> IsHexNumber (last labels))"

definition ApiHostOfUrl :: "string \<Rightarrow> string" where
  "ApiHostOfUrl apiUrl =
    (let url = map Lower apiUrl; kScheme = ''https://''; kOwnPort = '':443'' in
     if take (length kScheme) url \<noteq> kScheme then []
     else let host = drop (length kScheme) url;
              host = (if host \<noteq> [] \<and> last host = CHR ''/'' then butlast host else host);
              name = take (length host - length kOwnPort) host;
              host = (if length kOwnPort < length host \<and> drop (length host - length kOwnPort) host = kOwnPort \<and>
                CHR '':'' \<notin> set name then name else host)
          in if IsValidApiHost host then host else [])"

datatype NetworkKind = NoNetwork | OfficialNetwork | CustomNetwork

record ApprovalNetwork =
  nwKind :: NetworkKind
  nwApi :: string

definition NetworkOf :: "bool \<Rightarrow> string \<Rightarrow> string \<Rightarrow> ApprovalNetwork" where
  "NetworkOf officialSpace liveApiUrl operatorHost =
    (let api = ApiHostOfUrl liveApiUrl in
     if api = [] then \<lparr>nwKind = NoNetwork, nwApi = []\<rparr>
     else if officialSpace \<and> api = ''api.'' @ operatorHost then \<lparr>nwKind = OfficialNetwork, nwApi = []\<rparr>
     else \<lparr>nwKind = CustomNetwork, nwApi = api\<rparr>)"

fun ContractFor :: "NetworkKind \<Rightarrow> i64" where
  "ContractFor OfficialNetwork = kContract"
| "ContractFor CustomNetwork = kContractNamed"
| "ContractFor NoNetwork = 0"

section \<open>The attempt\<close>

record Clocks =
  ckSteady :: int
  ckWall :: int

definition second :: int where "second = 1000000000"
definition kStateBytes :: nat where "kStateBytes = 32"
definition kLife :: int where "kLife = 300 * second"
definition kReopenWindow :: int where "kReopenWindow = 200 * second"
definition kWallSkew :: int where "kWallSkew = 60 * second"
definition kNeutralEvery :: int where "kNeutralEvery = 30 * second"
definition kKeyPairTries :: nat where "kKeyPairTries = 8"
definition kMinPublicKeyChars :: nat where "kMinPublicKeyChars = 43"
definition kMaxPublicKeyChars :: nat where "kMaxPublicKeyChars = 44"

record Context =
  cxSignedIn :: bool
  cxFlow :: u64

datatype GateVerdict = V_Ignored | V_Stray | V_Denied | V_Accepted

datatype Why = Why_None | Why_SignedIn | Why_NoAttempt | Why_Expired | Why_Superseded | Why_InvalidShape
  | Why_WrongState | Why_BadSeal

text \<open>RFC 4648 section 5, no padding.\<close>

definition kAlphabet :: string where
  "kAlphabet = ''ABCDEFGHIJKLMNOPQRSTUVWXYZabcdefghijklmnopqrstuvwxyz0123456789-_''"

definition base64url_char :: "u32 \<Rightarrow> nat \<Rightarrow> char" where
  "base64url_char chunk shift = kAlphabet ! unat (drop_bit shift chunk AND 63)"

definition base64_chunk :: "8 word \<Rightarrow> 8 word \<Rightarrow> 8 word \<Rightarrow> u32" where
  "base64_chunk a b c = push_bit 16 (ucast a) OR push_bit 8 (ucast b) OR ucast c"

fun Base64Url :: "8 word list \<Rightarrow> string" where
  "Base64Url [] = []"
| "Base64Url [a] = (let k = base64_chunk a 0 0 in [base64url_char k 18, base64url_char k 12])"
| "Base64Url [a, b] = (let k = base64_chunk a b 0 in [base64url_char k 18, base64url_char k 12, base64url_char k 6])"
| "Base64Url (a # b # c # rest) =
    (let k = base64_chunk a b c
     in [base64url_char k 18, base64url_char k 12, base64url_char k 6, base64url_char k 0] @ Base64Url rest)"

definition byte_of :: "char \<Rightarrow> 8 word" where "byte_of c = of_nat (code_of c)"

definition SameSecret :: "string \<Rightarrow> string \<Rightarrow> bool" where
  "SameSecret a b \<longleftrightarrow> length a = length b \<and>
    foldl (\<lambda>difference (x, y). difference OR (byte_of x XOR byte_of y)) 0 (zip a b) = 0"

record KeyPair =
  kpPublic :: string
  kpSecret :: string

definition usable_pair :: "KeyPair \<Rightarrow> bool" where
  "usable_pair pair \<longleftrightarrow> kMinPublicKeyChars \<le> length (kpPublic pair) \<and> length (kpPublic pair) \<le> kMaxPublicKeyChars \<and>
    kpSecret pair \<noteq> [] \<and> list_all IsBase58Char (kpPublic pair)"

fun draw_pairs :: "(nat \<Rightarrow> KeyPair option) \<Rightarrow> nat list \<Rightarrow> KeyPair option" where
  "draw_pairs source [] = None"
| "draw_pairs source (i # is) = (case source i of
     None \<Rightarrow> draw_pairs source is
   | Some pair \<Rightarrow> if usable_pair pair then Some pair else draw_pairs source is)"

definition FreshKeyPair :: "(nat \<Rightarrow> KeyPair option) \<Rightarrow> KeyPair option" where
  "FreshKeyPair source = draw_pairs source [0..<kKeyPairTries]"

record Slot =
  slLive :: bool
  slState :: string
  slPublicKey :: string
  slSecretKey :: string
  slApi :: string
  slBegun :: Clocks
  slFlow :: u64

definition NewSlot :: Slot where
  "NewSlot = \<lparr>slLive = False, slState = [], slPublicKey = [], slSecretKey = [], slApi = [],
    slBegun = \<lparr>ckSteady = 0, ckWall = 0\<rparr>, slFlow = 0\<rparr>"

definition WipeAll :: "Slot \<Rightarrow> Slot" where
  "WipeAll s = s\<lparr>slState := [], slPublicKey := [], slSecretKey := [], slApi := [], slLive := False\<rparr>"

record Params =
  paPublicKey :: string
  paSecretKey :: string
  paNow :: Clocks
  paFlow :: u64
  paApi :: string

record View =
  viState :: string
  viPublicKey :: string
  viStartedUnix :: i64
  viDeadline :: int
  viApi :: string

definition ViewOf :: "Slot \<Rightarrow> View" where
  "ViewOf s = \<lparr>viState = slState s, viPublicKey = slPublicKey s, viStartedUnix = cdiv (ckWall (slBegun s)) second,
    viDeadline = ckSteady (slBegun s) + kLife, viApi = slApi s\<rparr>"

text \<open>\<open>drawn\<close> is what the random source filled in, or \<open>None\<close> when there is none or it fails.\<close>

definition BeginAttempt :: "Params \<Rightarrow> 8 word list option \<Rightarrow> Slot \<Rightarrow> View option \<times> Slot" where
  "BeginAttempt params drawn s =
    (let s = WipeAll s
     in case drawn of
          None \<Rightarrow> (None, s\<lparr>slState := []\<rparr>)
        | Some raw \<Rightarrow>
            let s = s\<lparr>slState := Base64Url raw, slPublicKey := paPublicKey params, slSecretKey := paSecretKey params,
              slApi := paApi params, slBegun := paNow params, slFlow := paFlow params, slLive := True\<rparr>
            in (Some (ViewOf s), s))"

definition ExpiredAt :: "Clocks \<Rightarrow> Slot \<Rightarrow> bool" where
  "ExpiredAt now s =
    (if kLife \<le> ckSteady now - ckSteady (slBegun s) then True
     else if kLife \<le> ckWall now - ckWall (slBegun s) then True
     else kWallSkew < ckWall (slBegun s) - ckWall now)"

definition Peek :: "Clocks \<Rightarrow> Slot \<Rightarrow> View option" where
  "Peek now s = (if \<not> slLive s \<or> ExpiredAt now s then None else Some (ViewOf s))"

definition Reopenable :: "Clocks \<Rightarrow> Slot \<Rightarrow> bool" where
  "Reopenable now s \<longleftrightarrow> slLive s \<and> \<not> ExpiredAt now s \<and> ckSteady now - ckSteady (slBegun s) < kReopenWindow \<and>
    ckWall now - ckWall (slBegun s) < kReopenWindow"

definition CheckLink :: "LinkReturn \<Rightarrow> Clocks \<Rightarrow> Context \<Rightarrow> Slot \<Rightarrow> (GateVerdict \<times> Why) \<times> Slot" where
  "CheckLink link now ctx s =
    (if cxSignedIn ctx then ((V_Ignored, Why_SignedIn), s)
     else if \<not> slLive s then ((V_Stray, Why_NoAttempt), s)
     else if ExpiredAt now s then ((V_Stray, Why_Expired), WipeAll s)
     else if cxFlow ctx \<noteq> slFlow s then ((V_Stray, Why_Superseded), WipeAll s)
     else if rtKind link = Invalid then ((V_Stray, Why_InvalidShape), s)
     else if \<not> SameSecret (rtState link) (slState s) then ((V_Stray, Why_WrongState), s)
     else if rtKind link = Denied then ((V_Denied, Why_None), WipeAll s)
     else ((V_Accepted, Why_None), s))"

definition Consume :: "string \<Rightarrow> Slot \<Rightarrow> bool \<times> Slot" where
  "Consume st s = (if \<not> slLive s \<or> \<not> SameSecret st (slState s) then (False, s) else (True, WipeAll s))"

definition SecretKey :: "Slot \<Rightarrow> string" where "SecretKey s = (if slLive s then slSecretKey s else [])"

definition Flow :: "Slot \<Rightarrow> u64" where "Flow s = (if slLive s then slFlow s else 0)"

definition ClearAttempt :: "Slot \<Rightarrow> Slot" where "ClearAttempt s = WipeAll s"

text \<open>The request the page expects, empty when anything is off.\<close>

definition BuildRequestUrl :: "string \<Rightarrow> View \<Rightarrow> string" where
  "BuildRequestUrl pageUrl view =
    (let ts = show_int (viStartedUnix view);
         pageOk = (pageUrl \<noteq> [] \<and> length pageUrl \<le> 200 \<and>
           list_all (\<lambda>c. 32 < code_of c \<and> code_of c < 127 \<and> c \<noteq> CHR ''#'' \<and> c \<noteq> CHR ''%'') pageUrl);
         publicKeyOk = (kMinPublicKeyChars \<le> length (viPublicKey view) \<and> length (viPublicKey view) \<le> kMaxPublicKeyChars \<and>
           list_all IsBase58Char (viPublicKey view));
         tsOk = (length ts = 10 \<and> list_all IsDigit ts);
         named = (viApi view \<noteq> [])
     in if \<not> pageOk \<or> length (viState view) \<noteq> kStateChars \<or> \<not> list_all IsBase64UrlChar (viState view) \<or> \<not> publicKeyOk \<or>
           \<not> list_all IsBase64UrlChar (viPublicKey view) \<or> \<not> tsOk \<or> named \<and> \<not> IsValidApiHost (viApi view) then []
        else pageUrl @ (if named then ''#v=2&platform=windows&state='' else ''#v=1&platform=windows&state='') @ viState view @
          ''&pk='' @ viPublicKey view @ ''&ts='' @ ts @ (if named then ''&api='' @ viApi view else []))"

record NeutralLine =
  nlShown :: bool
  nlLast :: int

definition Allow :: "int \<Rightarrow> NeutralLine \<Rightarrow> bool \<times> NeutralLine" where
  "Allow now n = (if nlShown n \<and> now - nlLast n < kNeutralEvery then (False, n) else (True, \<lparr>nlShown = True, nlLast = now\<rparr>))"

section \<open>Opening the answer\<close>

type_synonym bytes = "8 word list"

record Crypto =
  cyDecode58 :: "string \<Rightarrow> bytes option"
  cyShared :: "bytes \<Rightarrow> bytes \<Rightarrow> bytes option"
  cyEncode58 :: "bytes \<Rightarrow> string option"
  cyDecrypt :: "string \<Rightarrow> string \<Rightarrow> string \<Rightarrow> bytes option"

definition chars_of :: "bytes \<Rightarrow> string" where "chars_of bs = map (\<lambda>b. char_of (unat b)) bs"

definition SameBytes :: "bytes \<Rightarrow> bytes \<Rightarrow> bool" where "SameBytes a b = SameSecret (chars_of a) (chars_of b)"

text \<open>What the opened box says: the code, when it is the JSON the page seals and names the link's state.\<close>

definition answer_of :: "'j Json \<Rightarrow> LinkReturn \<Rightarrow> bytes \<Rightarrow> string option" where
  "answer_of js link plain =
    (case jsParse js (chars_of plain) of None \<Rightarrow> None
     | Some opened \<Rightarrow>
        if \<not> jsIsObject js opened then None
        else case (jsFind js opened ''c'', jsFind js opened ''s'') of
          (Some code, Some st) \<Rightarrow>
            if \<not> jsIsString js code \<or> \<not> jsIsString js st then None
            else (case (jsGetString js st, jsGetString js code) of
              (Inr s, Inr answer) \<Rightarrow>
                if \<not> SameSecret s (rtState link) then None
                else if answer = [] \<or> 2048 < length answer then None
                else Some answer
            | _ \<Rightarrow> None)
        | _ \<Rightarrow> None)"

definition Unseal :: "'j Json \<Rightarrow> Crypto \<Rightarrow> string \<Rightarrow> LinkReturn \<Rightarrow> string option" where
  "Unseal js cy ownSecret link =
    (case (cyDecode58 cy ownSecret, cyDecode58 cy (rtEpk link)) of
       (Some secret, Some sealedBy) \<Rightarrow>
         (case (cyShared cy secret sealedBy, cyShared cy secret (replicate 32 0)) of
            (Some shared, Some constant) \<Rightarrow>
              if shared = [] \<or> SameBytes shared constant then None
              else (case cyEncode58 cy shared of None \<Rightarrow> None
                | Some sharedBase58 \<Rightarrow>
                    (case cyDecrypt cy (rtData link) (rtNonce link) sharedBase58 of None \<Rightarrow> None
                     | Some plain \<Rightarrow> answer_of js link plain))
          | _ \<Rightarrow> None)
     | _ \<Rightarrow> None)"

section \<open>The application\<close>

datatype AuthState = LoggedOut | Authenticating | LoggedIn | AuthError

datatype HandlerState = Handler_Ours | Handler_Foreign | Handler_Absent | Handler_Unsafe | Handler_Failed

text \<open>What the person is shown and what the log says of the start of an attempt.\<close>

datatype Heard = WindowShown | PageExpired | PageDenied | PageApproved string | PageStray | AttemptStarted

record Approver =
  apSlot :: Slot
  apAuthState :: AuthState
  apSdkLoggedIn :: bool
  apFlow :: u64
  apNeutral :: NeutralLine
  apFreshProcessLaunch :: bool
  apLaunchServed :: bool
  apQuitting :: bool
  apHasPage :: bool
  apHeard :: "Heard list"

definition NewApprover :: Approver where
  "NewApprover = \<lparr>apSlot = NewSlot, apAuthState = LoggedOut, apSdkLoggedIn = False, apFlow = 0,
    apNeutral = \<lparr>nlShown = False, nlLast = 0\<rparr>, apFreshProcessLaunch = False, apLaunchServed = False,
    apQuitting = False, apHasPage = False, apHeard = []\<rparr>"

definition show_window :: "bool \<Rightarrow> Approver \<Rightarrow> Approver" where
  "show_window created a =
    (if apQuitting a then a else a\<lparr>apHasPage := apHasPage a \<or> created, apHeard := apHeard a @ [WindowShown]\<rparr>)"

definition tell_page :: "Heard \<Rightarrow> Approver \<Rightarrow> Approver" where
  "tell_page h a = (if apHasPage a then a\<lparr>apHeard := apHeard a @ [h]\<rparr> else a)"

definition ApprovalContext :: "Approver \<Rightarrow> Context" where
  "ApprovalContext a = \<lparr>cxSignedIn = (apAuthState a = LoggedIn \<or> apSdkLoggedIn a), cxFlow = apFlow a\<rparr>"

definition CancelApproval :: "Approver \<Rightarrow> Approver" where
  "CancelApproval a = (if \<not> slLive (apSlot a) then a else a\<lparr>apSlot := ClearAttempt (apSlot a)\<rparr>)"

definition ShowStrayNotice :: "int \<Rightarrow> bool \<Rightarrow> Approver \<Rightarrow> Approver" where
  "ShowStrayNotice steady created a =
    (if \<not> apFreshProcessLaunch a then a
     else case Allow steady (apNeutral a) of
       (False, n) \<Rightarrow> a\<lparr>apFreshProcessLaunch := False, apNeutral := n\<rparr>
     | (True, n) \<Rightarrow> tell_page PageStray (show_window created (a\<lparr>apFreshProcessLaunch := False, apNeutral := n\<rparr>)))"

text \<open>What the calls of one link find: the clocks, the second reading of the steady one, and whether a window opens.\<close>

record Arrival =
  arNow :: Clocks
  arSteady :: int
  arCreated :: bool

definition act_on :: "Arrival \<Rightarrow> LinkReturn \<Rightarrow> GateVerdict \<times> Why \<Rightarrow> string \<Rightarrow> Approver \<Rightarrow> Approver" where
  "act_on ar link decision code a =
    (case fst decision of
       V_Ignored \<Rightarrow> a
     | V_Stray \<Rightarrow> ShowStrayNotice (arSteady ar) (arCreated ar)
         (if snd decision = Why_Expired \<or> snd decision = Why_Superseded then tell_page PageExpired a else a)
     | V_Denied \<Rightarrow> tell_page PageDenied (show_window (arCreated ar) a)
     | V_Accepted \<Rightarrow>
         (case Consume (rtState link) (apSlot a) of
            (False, _) \<Rightarrow> a
          | (True, slot) \<Rightarrow> tell_page (PageApproved code) (show_window (arCreated ar) (a\<lparr>apSlot := slot\<rparr>))))"

definition HandleAuthLink :: "'j Json \<Rightarrow> Crypto \<Rightarrow> Arrival \<Rightarrow> string \<Rightarrow> Approver \<Rightarrow> Approver" where
  "HandleAuthLink js cy ar url a =
    (if apQuitting a then a
     else let link = Parse kApprovalV1 url in
     case CheckLink link (arNow ar) (ApprovalContext a) (apSlot a) of (decision, slot) \<Rightarrow>
       let a = a\<lparr>apSlot := slot\<rparr>
       in if fst decision = V_Accepted
          then (case Unseal js cy (SecretKey slot) link of
                  None \<Rightarrow> act_on ar link (V_Stray, Why_BadSeal) [] a
                | Some code \<Rightarrow> act_on ar link decision code a)
          else act_on ar link decision [] a)"

text \<open>A link of another host only brings the window forward here; what it does there is not about an attempt.\<close>

definition HandleDeepLinkUrl :: "'j Json \<Rightarrow> Crypto \<Rightarrow> Arrival \<Rightarrow> string \<Rightarrow> Approver \<Rightarrow> Approver" where
  "HandleDeepLinkUrl js cy ar url a =
    (if IsAuthHost url then HandleAuthLink js cy ar url a else show_window (arCreated ar) a)"

definition ServeLaunch :: "'j Json \<Rightarrow> Crypto \<Rightarrow> Arrival \<Rightarrow> LaunchRequest \<Rightarrow> Approver \<Rightarrow> Approver" where
  "ServeLaunch js cy ar request a =
    (let a = a\<lparr>apFreshProcessLaunch := \<not> apLaunchServed a, apLaunchServed := True\<rparr>
     in case ActionFor request of
          HandleDeepLink \<Rightarrow> HandleDeepLinkUrl js cy ar (deepLink request) a
        | ShowWindow \<Rightarrow> show_window (arCreated ar) a
        | TrayOnly \<Rightarrow> a)"

definition OnAuthState :: "AuthState \<Rightarrow> Approver \<Rightarrow> Approver" where
  "OnAuthState st a =
    (let wasLoggedIn = (apAuthState a = LoggedIn); a = a\<lparr>apAuthState := st\<rparr>
     in if st = Authenticating then CancelApproval a
        else if st = LoggedIn then CancelApproval a
        else if st = LoggedOut \<and> wasLoggedIn then CancelApproval a
        else if slLive (apSlot a) \<and> Flow (apSlot a) \<noteq> apFlow a then CancelApproval a
        else a)"

definition OnApprovalTimer :: "Approver \<Rightarrow> Approver" where
  "OnApprovalTimer a = tell_page PageExpired (CancelApproval a)"

text \<open>What a click on the action finds outside: the build, the space, the process, the page, the handler, the key pairs.\<close>

record Offer =
  ofEnabled :: bool
  ofNetwork :: ApprovalNetwork
  ofElevated :: bool
  ofPageLive :: bool
  ofPageLists :: "i64 \<Rightarrow> bool"
  ofHandler :: HandlerState
  ofEnsured :: bool
  ofKeys :: "nat \<Rightarrow> KeyPair option"
  ofNow :: Clocks
  ofBegun :: Clocks
  ofDrawn :: "8 word list option"

definition ApprovalOfferedIn :: "Offer \<Rightarrow> Approver \<Rightarrow> bool" where
  "ApprovalOfferedIn o1 a =
    (if \<not> ofEnabled o1 then False
     else if nwKind (ofNetwork o1) = NoNetwork then False
     else if ofElevated o1 then False
     else if cxSignedIn (ApprovalContext a) then False
     else if \<not> ofPageLive o1 then False
     else if \<not> ofPageLists o1 (ContractFor (nwKind (ofNetwork o1))) then False
     else case ofHandler o1 of Handler_Ours \<Rightarrow> True | Handler_Absent \<Rightarrow> True | Handler_Foreign \<Rightarrow> False
        | Handler_Unsafe \<Rightarrow> False | Handler_Failed \<Rightarrow> False)"

text \<open>The next flow number, which supersedes every flow before it.\<close>

definition StartFlow :: "Approver \<Rightarrow> Approver" where
  "StartFlow a = a\<lparr>apFlow := apFlow a + 1\<rparr>"

definition start_attempt :: "Offer \<Rightarrow> Approver \<Rightarrow> View option \<times> Approver" where
  "start_attempt o1 a =
    (if \<not> ApprovalOfferedIn o1 a then (None, a)
     else if \<not> ofEnsured o1 then (None, a)
     else case FreshKeyPair (ofKeys o1) of
       None \<Rightarrow> (None, a)
     | Some keys \<Rightarrow>
         let a = StartFlow a
         in case BeginAttempt \<lparr>paPublicKey = kpPublic keys, paSecretKey = kpSecret keys, paNow = ofBegun o1,
                paFlow = apFlow a, paApi = nwApi (ofNetwork o1)\<rparr> (ofDrawn o1) (apSlot a) of
              (None, slot) \<Rightarrow> (None, a\<lparr>apSlot := slot\<rparr>)
            | (Some view, slot) \<Rightarrow> (Some view, a\<lparr>apSlot := slot, apHeard := apHeard a @ [AttemptStarted]\<rparr>))"

definition BeginApproval :: "Offer \<Rightarrow> Approver \<Rightarrow> View option \<times> Approver" where
  "BeginApproval o1 a =
    (case Peek (ofNow o1) (apSlot a) of
       None \<Rightarrow> start_attempt o1 a
     | Some view \<Rightarrow>
         if Flow (apSlot a) = apFlow a \<and> Reopenable (ofNow o1) (apSlot a) then (Some view, a)
         else start_attempt o1 (CancelApproval a))"

definition ShutDownApproval :: "Approver \<Rightarrow> Approver" where
  "ShutDownApproval a = CancelApproval (a\<lparr>apQuitting := True\<rparr>)"

section \<open>Every run\<close>

datatype Event = LaunchServed Arrival LaunchRequest | LinkArrived Arrival string | ActionClicked Offer
  | AuthStatePushed AuthState | TimerFired | FlowStarted | SdkSession bool | PagePresent bool | AppQuits

fun approval_step :: "'j Json \<Rightarrow> Crypto \<Rightarrow> Approver \<Rightarrow> Event \<Rightarrow> Approver" where
  "approval_step js cy a (LaunchServed ar request) = ServeLaunch js cy ar request a"
| "approval_step js cy a (LinkArrived ar url) = HandleDeepLinkUrl js cy ar url a"
| "approval_step js cy a (ActionClicked o1) = snd (BeginApproval o1 a)"
| "approval_step js cy a (AuthStatePushed st) = OnAuthState st a"
| "approval_step js cy a TimerFired = OnApprovalTimer a"
| "approval_step js cy a FlowStarted = StartFlow a"
| "approval_step js cy a (SdkSession b) = a\<lparr>apSdkLoggedIn := b\<rparr>"
| "approval_step js cy a (PagePresent b) = a\<lparr>apHasPage := b\<rparr>"
| "approval_step js cy a AppQuits = ShutDownApproval a"

section \<open>Secrets and states\<close>

lemma or_zero: "(a OR b = 0) \<longleftrightarrow> a = 0 \<and> b = (0 :: 8 word)"
  by (auto simp: bit_eq_iff bit_or_iff)

lemma xor_zero: "(a XOR b = 0) \<longleftrightarrow> a = (b :: 8 word)"
  by (auto simp: bit_eq_iff bit_xor_iff)

lemma byte_of_inj: "byte_of x = byte_of y \<longleftrightarrow> x = y"
proof
  assume "byte_of x = byte_of y"
  then have "unat (byte_of x) = unat (byte_of y)" by simp
  moreover have "code_of z < 256" for z :: char by (rule nat_of_char_less_256)
  ultimately have "code_of x = code_of y" by (simp add: byte_of_def unat_of_nat)
  then show "x = y" by (metis char_of_char)
qed simp

lemma difference_zero:
  "foldl (\<lambda>d (x, y). d OR (byte_of x XOR byte_of y)) e ps = 0 \<longleftrightarrow> e = 0 \<and> (\<forall>(x, y)\<in>set ps. x = y)"
  by (induction ps arbitrary: e) (auto simp: or_zero xor_zero byte_of_inj)

lemma SameSecret_iff [simp]: "SameSecret a b \<longleftrightarrow> a = b"
  unfolding SameSecret_def difference_zero
  by (auto simp: list_eq_iff_zip_eq set_zip)

lemma kAlphabet_chars: "list_all IsBase64UrlChar kAlphabet" "length kAlphabet = 64"
  by (simp_all add: kAlphabet_def IsBase64UrlChar_def is_upper_def is_lower_def IsDigit_def)

lemma base64url_char_ok: "IsBase64UrlChar (base64url_char k n)"
proof -
  have "drop_bit n k AND 63 \<le> 63" by (rule word_and_le1)
  then have "unat (drop_bit n k AND 63) < length kAlphabet" by (simp add: kAlphabet_chars word_le_nat_alt)
  then show ?thesis using kAlphabet_chars(1) unfolding base64url_char_def list_all_length by blast
qed

lemma Base64Url_ok: "list_all IsBase64UrlChar (Base64Url raw)"
  by (induction raw rule: Base64Url.induct) (simp_all add: Let_def base64url_char_ok)

lemma Base64Url_length: "length (Base64Url raw) = (length raw * 4 + 2) div 3"
  by (induction raw rule: Base64Url.induct) (simp_all add: Let_def)

lemma fresh_state_ok: "length raw = kStateBytes \<Longrightarrow> state_ok (Base64Url raw)"
  by (simp add: state_ok_def Base64Url_ok Base64Url_length kStateBytes_def kStateChars_def)

section \<open>Wiping\<close>

text \<open>Nothing of an attempt is left once it has ended.\<close>

definition wiped :: "Slot \<Rightarrow> bool" where
  "wiped s \<longleftrightarrow> slLive s \<or> slState s = [] \<and> slPublicKey s = [] \<and> slSecretKey s = [] \<and> slApi s = []"

lemma wiped_WipeAll [simp]: "wiped (WipeAll s)"
  by (simp add: wiped_def WipeAll_def)

lemma live_WipeAll [simp]: "\<not> slLive (WipeAll s)"
  by (simp add: WipeAll_def)

text \<open>The answers so far, and the attempts.\<close>

definition is_answer :: "Heard \<Rightarrow> bool" where
  "is_answer h \<longleftrightarrow> h = PageDenied \<or> (\<exists>code. h = PageApproved code)"

definition answers :: "Approver \<Rightarrow> nat" where
  "answers a = length (filter is_answer (apHeard a))"

definition attempts :: "Approver \<Rightarrow> nat" where
  "attempts a = length (filter (\<lambda>h. h = AttemptStarted) (apHeard a))"

definition approval_inv :: "Approver \<Rightarrow> bool" where
  "approval_inv a \<longleftrightarrow> wiped (apSlot a) \<and> answers a + (if slLive (apSlot a) then 1 else 0) \<le> attempts a"

lemmas heard_defs = answers_def attempts_def is_answer_def

lemma show_window_simps [simp]:
  "apSlot (show_window b a) = apSlot a" "answers (show_window b a) = answers a" "attempts (show_window b a) = attempts a"
  by (simp_all add: show_window_def heard_defs)

lemma tell_page_simps [simp]:
  "apSlot (tell_page h a) = apSlot a"
  "\<not> is_answer h \<Longrightarrow> answers (tell_page h a) = answers a"
  "h \<noteq> AttemptStarted \<Longrightarrow> attempts (tell_page h a) = attempts a"
  "answers (tell_page h a) \<le> Suc (answers a)"
  by (simp_all add: tell_page_def answers_def attempts_def)

lemma is_answer_simps [simp]:
  "is_answer PageDenied" "is_answer (PageApproved c)" "\<not> is_answer PageExpired" "\<not> is_answer PageStray"
  "\<not> is_answer WindowShown" "\<not> is_answer AttemptStarted"
  by (simp_all add: is_answer_def)

lemma counts_update [simp]:
  "answers (a\<lparr>apSlot := s\<rparr>) = answers a" "attempts (a\<lparr>apSlot := s\<rparr>) = attempts a"
  "answers (a\<lparr>apAuthState := st\<rparr>) = answers a" "attempts (a\<lparr>apAuthState := st\<rparr>) = attempts a"
  "answers (a\<lparr>apSdkLoggedIn := b\<rparr>) = answers a" "attempts (a\<lparr>apSdkLoggedIn := b\<rparr>) = attempts a"
  "answers (a\<lparr>apFlow := f\<rparr>) = answers a" "attempts (a\<lparr>apFlow := f\<rparr>) = attempts a"
  "answers (a\<lparr>apQuitting := b\<rparr>) = answers a" "attempts (a\<lparr>apQuitting := b\<rparr>) = attempts a"
  "answers (a\<lparr>apHasPage := b\<rparr>) = answers a" "attempts (a\<lparr>apHasPage := b\<rparr>) = attempts a"
  "answers (a\<lparr>apNeutral := n\<rparr>) = answers a" "attempts (a\<lparr>apNeutral := n\<rparr>) = attempts a"
  "answers (a\<lparr>apFreshProcessLaunch := b\<rparr>) = answers a" "attempts (a\<lparr>apFreshProcessLaunch := b\<rparr>) = attempts a"
  "answers (a\<lparr>apLaunchServed := b\<rparr>) = answers a" "attempts (a\<lparr>apLaunchServed := b\<rparr>) = attempts a"
  by (simp_all add: heard_defs)

lemma inv_cong: "apSlot a' = apSlot a \<Longrightarrow> answers a' = answers a \<Longrightarrow> attempts a' = attempts a \<Longrightarrow>
    approval_inv a' = approval_inv a"
  by (simp add: approval_inv_def)

lemma inv_wipe:
  assumes "approval_inv a" and "wiped (apSlot a')" and "\<not> slLive (apSlot a')" and "attempts a' = attempts a"
    and "answers a' \<le> answers a + (if slLive (apSlot a) then 1 else 0)"
  shows "approval_inv a'"
  using assms by (auto simp: approval_inv_def)

lemma CancelApproval_inv: "approval_inv a \<Longrightarrow> approval_inv (CancelApproval a)"
  by (cases "slLive (apSlot a)") (auto simp: CancelApproval_def ClearAttempt_def approval_inv_def)

lemma CancelApproval_simps [simp]:
  "apHasPage (CancelApproval a) = apHasPage a" "\<not> slLive (apSlot (CancelApproval a))"
  by (simp_all add: CancelApproval_def ClearAttempt_def)

lemma ShowStrayNotice_simps [simp]:
  "apSlot (ShowStrayNotice t b a) = apSlot a" "answers (ShowStrayNotice t b a) = answers a"
  "attempts (ShowStrayNotice t b a) = attempts a"
  by (simp_all add: ShowStrayNotice_def split: prod.split bool.split)

text \<open>What the gate leaves of the attempt.\<close>

lemma Check_slot:
  assumes "CheckLink link now ctx s = ((v, w), s')"
  shows "s' = s \<or> s' = WipeAll s" and "v = V_Denied \<Longrightarrow> slLive s \<and> s' = WipeAll s" and "v = V_Accepted \<Longrightarrow> slLive s \<and> s' = s"
  using assms by (auto simp: CheckLink_def split: if_splits)

lemma Check_accepted:
  assumes "CheckLink link now ctx s = ((v, w), s')" and "v = V_Accepted \<or> v = V_Denied"
  shows "\<not> cxSignedIn ctx" "slLive s" "\<not> ExpiredAt now s" "cxFlow ctx = slFlow s" "rtKind link \<noteq> Invalid"
    "rtState link = slState s" "v = V_Denied \<longleftrightarrow> rtKind link = Denied"
  using assms by (auto simp: CheckLink_def split: if_splits)

lemma HandleAuthLink_inv:
  assumes "approval_inv a"
  shows "approval_inv (HandleAuthLink js cy ar url a)"
proof (cases "apQuitting a")
  case False
  let ?link = "Parse kApprovalV1 url"
  obtain v w slot where c: "CheckLink ?link (arNow ar) (ApprovalContext a) (apSlot a) = ((v, w), slot)"
    by (metis surj_pair)
  let ?a = "a\<lparr>apSlot := slot\<rparr>"
  have inv: "approval_inv ?a" using assms Check_slot(1) [OF c] by (auto simp: approval_inv_def)
  have stray: "approval_inv (act_on ar ?link (V_Stray, why) code ?a)" for why code
    using inv by (simp add: act_on_def approval_inv_def)
  show ?thesis
  proof (cases v)
    case V_Ignored
    then show ?thesis using False c inv by (simp add: HandleAuthLink_def Let_def act_on_def)
  next
    case V_Stray
    then show ?thesis using False c stray by (simp add: HandleAuthLink_def Let_def)
  next
    case V_Denied
    have "approval_inv (tell_page PageDenied (show_window (arCreated ar) ?a))"
    proof (rule inv_wipe [OF assms])
      show "answers (tell_page PageDenied (show_window (arCreated ar) ?a)) \<le> answers a + (if slLive (apSlot a) then 1 else 0)"
        using tell_page_simps(4) [of PageDenied "show_window (arCreated ar) ?a"] Check_slot(2) [OF c V_Denied] by simp
    qed (use Check_slot(2) [OF c V_Denied] in simp_all)
    then show ?thesis using False c V_Denied by (simp add: HandleAuthLink_def Let_def act_on_def)
  next
    case V_Accepted
    note s = Check_slot(3) [OF c V_Accepted]
    show ?thesis
    proof (cases "Unseal js cy (SecretKey slot) ?link")
      case None
      then show ?thesis using False c V_Accepted stray by (simp add: HandleAuthLink_def Let_def)
    next
      case (Some code)
      let ?b = "tell_page (PageApproved code) (show_window (arCreated ar) (a\<lparr>apSlot := WipeAll slot\<rparr>))"
      have "approval_inv ?b"
      proof (rule inv_wipe [OF assms])
        show "answers ?b \<le> answers a + (if slLive (apSlot a) then 1 else 0)"
          using tell_page_simps(4) [of "PageApproved code" "show_window (arCreated ar) (a\<lparr>apSlot := WipeAll slot\<rparr>)"] s by simp
      qed simp_all
      moreover have "Consume (rtState ?link) slot = (True, WipeAll slot)"
        using s Check_accepted [OF c disjI1 [OF V_Accepted]] by (simp add: Consume_def)
      ultimately show ?thesis using False c V_Accepted Some by (simp add: HandleAuthLink_def Let_def act_on_def)
    qed
  qed
qed (use assms in \<open>simp add: HandleAuthLink_def\<close>)

lemma start_attempt_inv: "approval_inv a \<Longrightarrow> approval_inv (snd (start_attempt o1 a))"
  by (auto simp: start_attempt_def BeginAttempt_def StartFlow_def approval_inv_def Let_def heard_defs wiped_def
      WipeAll_def split: option.splits)

lemma BeginApproval_inv: "approval_inv a \<Longrightarrow> approval_inv (snd (BeginApproval o1 a))"
  by (auto simp: BeginApproval_def intro: start_attempt_inv CancelApproval_inv split: option.split)

lemma approval_step_inv: "approval_inv a \<Longrightarrow> approval_inv (approval_step js cy a e)"
proof (cases e)
  case (LaunchServed ar request)
  moreover assume i: "approval_inv a"
  moreover have "approval_inv (a\<lparr>apFreshProcessLaunch := b, apLaunchServed := True\<rparr>)" for b
    using i by (simp add: approval_inv_def)
  ultimately show ?thesis
    by (auto simp: ServeLaunch_def HandleDeepLinkUrl_def Let_def approval_inv_def [of "show_window _ _"]
        intro: HandleAuthLink_inv split: LaunchAction.split) (simp_all add: approval_inv_def)
next
  case (LinkArrived ar url)
  moreover assume "approval_inv a"
  ultimately show ?thesis
    by (cases "IsAuthHost url") (simp_all add: HandleDeepLinkUrl_def HandleAuthLink_inv, simp add: approval_inv_def)
next
  case (AuthStatePushed st)
  moreover assume i: "approval_inv a"
  moreover have "approval_inv (a\<lparr>apAuthState := st\<rparr>)" using i by (simp add: approval_inv_def)
  ultimately show ?thesis by (auto simp: OnAuthState_def Let_def intro: CancelApproval_inv)
next
  case TimerFired
  moreover assume "approval_inv a"
  then have "approval_inv (CancelApproval a)" by (rule CancelApproval_inv)
  ultimately show ?thesis by (simp add: OnApprovalTimer_def approval_inv_def)
next
  case AppQuits
  moreover assume "approval_inv a"
  then have "approval_inv (a\<lparr>apQuitting := True\<rparr>)" by (simp add: approval_inv_def)
  ultimately show ?thesis by (simp add: ShutDownApproval_def CancelApproval_inv)
next
  case (ActionClicked o1)
  moreover assume "approval_inv a"
  ultimately show ?thesis by (simp add: BeginApproval_inv)
qed (simp_all add: StartFlow_def approval_inv_def)

text \<open>The contract of a component that is fed with events: the invariant holds after every run.\<close>

interpretation approver: observer "approval_step js cy" approval_inv "\<lambda>_ _. True"
  by unfold_locales (rule approval_step_inv)

section \<open>An answer\<close>

text \<open>What one step adds to what was heard.\<close>

definition approved_in :: "Approver \<Rightarrow> Approver \<Rightarrow> string \<Rightarrow> bool" where
  "approved_in a a' code \<longleftrightarrow> (\<exists>new. apHeard a' = apHeard a @ new \<and> PageApproved code \<in> set new)"

lemma approved_in_eq [simp]: "apHeard a' = apHeard a \<Longrightarrow> \<not> approved_in a a' code"
  by (simp add: approved_in_def)

lemma approved_in_show [simp]: "apHeard b = apHeard a \<Longrightarrow> \<not> approved_in a (show_window c b) code"
  by (auto simp: approved_in_def show_window_def)

lemma approved_in_tell [simp]:
  "apHeard b = apHeard a \<Longrightarrow> h \<noteq> PageApproved code \<Longrightarrow> \<not> approved_in a (tell_page h b) code"
  "apHeard b = apHeard a \<Longrightarrow> h \<noteq> PageApproved code \<Longrightarrow> \<not> approved_in a (tell_page h (show_window c b)) code"
  by (auto simp: approved_in_def tell_page_def show_window_def split: if_splits)

lemma approved_in_stray:
  assumes "apHeard b = apHeard a @ xs" and "\<forall>c. PageApproved c \<notin> set xs"
  shows "\<not> approved_in a (ShowStrayNotice t cr b) code"
  using assms
  by (auto simp: approved_in_def ShowStrayNotice_def tell_page_def show_window_def split: prod.splits bool.splits if_splits)

lemma approved_in_stray' [simp]:
  "apHeard b = apHeard a \<Longrightarrow> \<not> approved_in a (ShowStrayNotice t cr b) code"
  "apHeard b = apHeard a @ [PageExpired] \<Longrightarrow> \<not> approved_in a (ShowStrayNotice t cr b) code"
  using approved_in_stray [of b a "[]"] approved_in_stray [of b a "[PageExpired]"] by simp_all

lemma heard_cancel [simp]: "apHeard (CancelApproval a) = apHeard a"
  by (simp add: CancelApproval_def)

definition answered :: "'j Json \<Rightarrow> Crypto \<Rightarrow> Arrival \<Rightarrow> string \<Rightarrow> Approver \<Rightarrow> string \<Rightarrow> bool" where
  "answered js cy ar url a code \<longleftrightarrow>
    slLive (apSlot a) \<and> apAuthState a \<noteq> LoggedIn \<and> \<not> apSdkLoggedIn a \<and> apFlow a = slFlow (apSlot a) \<and>
    ckSteady (arNow ar) - ckSteady (slBegun (apSlot a)) < kLife \<and> ckWall (arNow ar) - ckWall (slBegun (apSlot a)) < kLife \<and>
    ckWall (slBegun (apSlot a)) - ckWall (arNow ar) \<le> kWallSkew \<and>
    (\<exists>epk nonce data. Parse kApprovalV1 url = sealed_return (slState (apSlot a)) epk nonce data) \<and>
    Unseal js cy (slSecretKey (apSlot a)) (Parse kApprovalV1 url) = Some code"

lemma HandleAuthLink_approved:
  assumes "approved_in a (HandleAuthLink js cy ar url a) code"
  shows "answered js cy ar url a code \<and> apSlot (HandleAuthLink js cy ar url a) = WipeAll (apSlot a)"
proof -
  let ?link = "Parse kApprovalV1 url"
  have q: "\<not> apQuitting a" using assms by (auto simp: HandleAuthLink_def)
  obtain v w slot where c: "CheckLink ?link (arNow ar) (ApprovalContext a) (apSlot a) = ((v, w), slot)"
    by (metis surj_pair)
  let ?a = "a\<lparr>apSlot := slot\<rparr>"
  have no_stray: "\<not> approved_in a (act_on ar ?link (V_Stray, why) co ?a) code" for why co
    by (simp add: act_on_def tell_page_def)
  have acc: "v = V_Accepted"
  proof (cases v)
    case V_Ignored
    then show ?thesis using assms q c by (simp add: HandleAuthLink_def Let_def act_on_def)
  next
    case V_Stray
    then show ?thesis using assms q c no_stray by (simp add: HandleAuthLink_def Let_def)
  next
    case V_Denied
    then show ?thesis using assms q c by (simp add: HandleAuthLink_def Let_def act_on_def)
  qed simp
  note f = Check_accepted [OF c disjI1 [OF acc]] and s = Check_slot(3) [OF c acc]
  have k: "SecretKey slot = slSecretKey (apSlot a)" using s by (simp add: SecretKey_def)
  obtain co where u: "Unseal js cy (slSecretKey (apSlot a)) ?link = Some co"
    using assms q c acc no_stray k by (cases "Unseal js cy (slSecretKey (apSlot a)) ?link") (simp_all add: HandleAuthLink_def Let_def)
  have h: "HandleAuthLink js cy ar url a =
      tell_page (PageApproved co) (show_window (arCreated ar) (a\<lparr>apSlot := WipeAll (apSlot a)\<rparr>))"
    using q c acc u k s f by (simp add: HandleAuthLink_def Let_def act_on_def Consume_def)
  have "co = code"
  proof (rule ccontr)
    assume "co \<noteq> code"
    then show False using assms unfolding h by simp
  qed
  moreover have "\<exists>epk nonce data. ?link = sealed_return (slState (apSlot a)) epk nonce data"
  proof -
    have "rtKind ?link \<noteq> Invalid" "rtKind ?link \<noteq> Denied" using f(5,7) acc by simp_all
    then show ?thesis using parse_shapes [of url] f(6) by (auto simp: RefusedLink_def sealed_return_def denied_return_def)
  qed
  moreover have "ckSteady (arNow ar) - ckSteady (slBegun (apSlot a)) < kLife"
    "ckWall (arNow ar) - ckWall (slBegun (apSlot a)) < kLife" "ckWall (slBegun (apSlot a)) - ckWall (arNow ar) \<le> kWallSkew"
    using f(3) by (auto simp: ExpiredAt_def split: if_splits)
  moreover have "apAuthState a \<noteq> LoggedIn" "\<not> apSdkLoggedIn a" "apFlow a = slFlow (apSlot a)"
    using f(1,4) by (simp_all add: ApprovalContext_def)
  ultimately show ?thesis unfolding answered_def h using f(2) u by simp
qed

section \<open>Links that answer nothing\<close>

text \<open>A link that is not this attempt's answer: of another state, or sealed to another key.\<close>

definition stray_link :: "'j Json \<Rightarrow> Crypto \<Rightarrow> Slot \<Rightarrow> string \<Rightarrow> bool" where
  "stray_link js cy s url \<longleftrightarrow> rtState (Parse kApprovalV1 url) \<noteq> slState s \<or>
    rtKind (Parse kApprovalV1 url) = Sealed \<and> Unseal js cy (slSecretKey s) (Parse kApprovalV1 url) = None"

definition waiting :: "Approver \<Rightarrow> bool" where
  "waiting a \<longleftrightarrow> slLive (apSlot a) \<and> \<not> cxSignedIn (ApprovalContext a) \<and> apFlow a = slFlow (apSlot a) \<and> \<not> apQuitting a"

lemma stray_notice_frame:
  "apAuthState (ShowStrayNotice t c a) = apAuthState a" "apSdkLoggedIn (ShowStrayNotice t c a) = apSdkLoggedIn a"
  "apFlow (ShowStrayNotice t c a) = apFlow a" "apQuitting (ShowStrayNotice t c a) = apQuitting a"
  "apHasPage a \<Longrightarrow> apHasPage (ShowStrayNotice t c a)" "\<not> apFreshProcessLaunch a \<Longrightarrow> ShowStrayNotice t c a = a"
  by (auto simp: ShowStrayNotice_def tell_page_def show_window_def split: prod.split bool.split)

lemma stray_is_notice:
  assumes "waiting a" and "\<not> ExpiredAt (arNow ar) (apSlot a)" and "stray_link js cy (apSlot a) url"
  shows "HandleAuthLink js cy ar url a = ShowStrayNotice (arSteady ar) (arCreated ar) a"
proof -
  let ?link = "Parse kApprovalV1 url"
  have w: "slLive (apSlot a)" "\<not> cxSignedIn (ApprovalContext a)" "cxFlow (ApprovalContext a) = slFlow (apSlot a)" "\<not> apQuitting a"
    using assms(1) by (simp_all add: waiting_def ApprovalContext_def)
  have upd: "a\<lparr>apSlot := apSlot a\<rparr> = a" by simp
  show ?thesis
  proof (cases "rtKind ?link = Invalid \<or> rtState ?link \<noteq> slState (apSlot a)")
    case True
    then have "\<exists>why. why \<noteq> Why_Expired \<and> why \<noteq> Why_Superseded \<and>
        CheckLink ?link (arNow ar) (ApprovalContext a) (apSlot a) = ((V_Stray, why), apSlot a)"
      using w assms(2) by (cases "rtKind ?link = Invalid") (simp_all add: CheckLink_def)
    then show ?thesis using w(4) by (auto simp: HandleAuthLink_def Let_def act_on_def upd)
  next
    case False
    then have k: "rtKind ?link = Sealed" "Unseal js cy (slSecretKey (apSlot a)) ?link = None"
      using assms(3) by (auto simp: stray_link_def)
    then have "CheckLink ?link (arNow ar) (ApprovalContext a) (apSlot a) = ((V_Accepted, Why_None), apSlot a)"
      using False w assms(2) by (simp add: CheckLink_def)
    then show ?thesis using w(1,4) k(2) by (simp add: HandleAuthLink_def Let_def act_on_def upd SecretKey_def)
  qed
qed

lemma waiting_notice: "waiting a \<Longrightarrow> waiting (ShowStrayNotice t c a)"
  by (simp add: waiting_def ApprovalContext_def stray_notice_frame)

lemma strays_keep:
  assumes "waiting a" and "list_all (\<lambda>(ar, url). \<not> ExpiredAt (arNow ar) (apSlot a) \<and> stray_link js cy (apSlot a) url) links"
  shows "waiting (foldl (\<lambda>a (ar, url). HandleAuthLink js cy ar url a) a links) \<and>
    apSlot (foldl (\<lambda>a (ar, url). HandleAuthLink js cy ar url a) a links) = apSlot a \<and>
    (apHasPage a \<longrightarrow> apHasPage (foldl (\<lambda>a (ar, url). HandleAuthLink js cy ar url a) a links))"
  using assms
proof (induction links arbitrary: a)
  case (Cons l links)
  obtain ar url where l: "l = (ar, url)" by (cases l)
  let ?b = "ShowStrayNotice (arSteady ar) (arCreated ar) a"
  have "HandleAuthLink js cy ar url a = ?b" using Cons.prems by (intro stray_is_notice) (simp_all add: l)
  moreover have "waiting ?b" by (rule waiting_notice [OF Cons.prems(1)])
  ultimately show ?case using Cons.IH [of ?b] Cons.prems stray_notice_frame(5) by (simp add: l)
qed simp

lemma answer_arrives:
  assumes "waiting a" and "apHasPage a" and "\<not> ExpiredAt (arNow ar) (apSlot a)"
    and "Parse kApprovalV1 url = sealed_return (slState (apSlot a)) epk nonce data"
    and "Unseal js cy (slSecretKey (apSlot a)) (Parse kApprovalV1 url) = Some code"
  shows "apHeard (HandleAuthLink js cy ar url a) = apHeard a @ [WindowShown, PageApproved code] \<and>
    apSlot (HandleAuthLink js cy ar url a) = WipeAll (apSlot a)"
proof -
  have w: "slLive (apSlot a)" "\<not> cxSignedIn (ApprovalContext a)" "cxFlow (ApprovalContext a) = slFlow (apSlot a)" "\<not> apQuitting a"
    using assms(1) by (simp_all add: waiting_def ApprovalContext_def)
  have "CheckLink (Parse kApprovalV1 url) (arNow ar) (ApprovalContext a) (apSlot a) = ((V_Accepted, Why_None), apSlot a)"
    using w assms(3,4) by (simp add: CheckLink_def sealed_return_def)
  then show ?thesis using w assms(2,4,5)
    by (simp add: HandleAuthLink_def Let_def act_on_def SecretKey_def Consume_def sealed_return_def tell_page_def show_window_def)
qed

section \<open>The start\<close>

lemma draw_pairs_usable: "draw_pairs source is = Some pair \<Longrightarrow> usable_pair pair"
  by (induction "is") (auto split: option.splits if_splits)

lemma start_attempt_some:
  assumes "start_attempt o1 a = (Some view, a')"
  obtains keys raw where "usable_pair keys" "ofDrawn o1 = Some raw" "ApprovalOfferedIn o1 a"
    "a' = a\<lparr>apFlow := apFlow a + 1, apSlot := \<lparr>slLive = True, slState = Base64Url raw, slPublicKey = kpPublic keys,
      slSecretKey = kpSecret keys, slApi = nwApi (ofNetwork o1), slBegun = ofBegun o1, slFlow = apFlow a + 1\<rparr>,
      apHeard := apHeard a @ [AttemptStarted]\<rparr>"
    "view = ViewOf (apSlot a')"
proof -
  obtain keys where k: "FreshKeyPair (ofKeys o1) = Some keys" and off: "ApprovalOfferedIn o1 a"
    using assms by (auto simp: start_attempt_def split: if_splits option.splits)
  obtain raw where r: "ofDrawn o1 = Some raw"
    using assms k by (auto simp: start_attempt_def BeginAttempt_def Let_def split: if_splits option.splits)
  have "usable_pair keys" using k draw_pairs_usable by (auto simp: FreshKeyPair_def)
  moreover have "a' = a\<lparr>apFlow := apFlow a + 1, apSlot := \<lparr>slLive = True, slState = Base64Url raw, slPublicKey = kpPublic keys,
      slSecretKey = kpSecret keys, slApi = nwApi (ofNetwork o1), slBegun = ofBegun o1, slFlow = apFlow a + 1\<rparr>,
      apHeard := apHeard a @ [AttemptStarted]\<rparr> \<and> view = ViewOf (apSlot a')"
    using assms k r
    by (cases "apSlot a")
      (auto simp: start_attempt_def BeginAttempt_def Let_def StartFlow_def WipeAll_def split: if_splits)
  ultimately show thesis using that r off by blast
qed

lemma offered_not_signed_in: "ApprovalOfferedIn o1 a \<Longrightarrow> \<not> cxSignedIn (ApprovalContext a)"
  by (auto simp: ApprovalOfferedIn_def split: if_splits)

lemma Let_in: "(\<And>x. f x \<in> A) \<Longrightarrow> Let e f \<in> A"
  by simp

lemma if_in: "(c \<Longrightarrow> x \<in> A) \<Longrightarrow> (\<not> c \<Longrightarrow> y \<in> A) \<Longrightarrow> (if c then x else y) \<in> A"
  by simp

lemma api_host_valid: "ApiHostOfUrl url \<in> insert [] {h. IsValidApiHost h}"
  unfolding ApiHostOfUrl_def by (intro Let_in if_in) simp_all

lemma network_api: "nwApi (NetworkOf official url operator) = [] \<or> IsValidApiHost (nwApi (NetworkOf official url operator))"
  using api_host_valid [of url] by (auto simp: NetworkOf_def Let_def)

lemma ten_digits:
  assumes "1000000000 \<le> n" and "n < 10000000000"
  shows "length (show_int n) = 10 \<and> list_all IsDigit (show_int n)"
proof -
  have n: "show_int n = show_nat (nat n)" using assms(1) by simp
  have "(10::nat) ^ 9 \<le> nat n" "nat n < 10 ^ 10" using assms by simp_all
  then have "length (show_nat (nat n)) = 10"
    using length_show_nat_ge [of 9 "nat n"] length_show_nat_le [of 10 "nat n"] by simp
  then show ?thesis unfolding n using show_nat_digits [of "nat n"] by (simp add: list_all_iff)
qed

section \<open>Properties\<close>

text \<open>
  (C38) A code reaches the page only as the answer to the attempt that waits. Whatever event the application is
  fed in whatever state, if it hands a code to the sign-in page, then a link arrived that the parser reads as
  sealed with the state of the live attempt, within its five minutes on both clocks and its own flow, while no
  one was signed in, and the code is what that attempt's key opens; and the attempt is over and its secrets gone.
\<close>

theorem answer_is_own:
  assumes "approved_in a (approval_step js cy a e) code"
  shows "\<exists>ar url. (e = LinkArrived ar url \<or> (\<exists>request. e = LaunchServed ar request \<and> deepLink request = url)) \<and>
    answered js cy ar url a code \<and> apSlot (approval_step js cy a e) = WipeAll (apSlot a)"
proof (cases e)
  case (LaunchServed ar request)
  let ?a = "a\<lparr>apFreshProcessLaunch := \<not> apLaunchServed a, apLaunchServed := True\<rparr>"
  have h: "approved_in ?a (HandleAuthLink js cy ar (deepLink request) ?a) code"
    and eq: "approval_step js cy a e = HandleAuthLink js cy ar (deepLink request) ?a"
    using assms LaunchServed
    by (auto simp: ServeLaunch_def HandleDeepLinkUrl_def Let_def approved_in_def split: LaunchAction.splits if_splits)
      (auto simp: show_window_def split: if_splits)
  have "answered js cy ar (deepLink request) a code"
    using HandleAuthLink_approved [OF h] by (simp add: answered_def)
  then show ?thesis using HandleAuthLink_approved [OF h] LaunchServed unfolding eq by auto
next
  case (LinkArrived ar url)
  then have h: "approved_in a (HandleAuthLink js cy ar url a) code"
    and eq: "approval_step js cy a e = HandleAuthLink js cy ar url a"
    using assms by (auto simp: HandleDeepLinkUrl_def split: if_splits)
  show ?thesis unfolding eq using HandleAuthLink_approved [OF h] LinkArrived
    by (intro exI [of _ ar] exI [of _ url]) simp
next
  case (ActionClicked o1)
  then show ?thesis using assms
    by (auto simp: BeginApproval_def start_attempt_def BeginAttempt_def StartFlow_def Let_def approved_in_def
        split: option.splits if_splits)
next
  case (AuthStatePushed st)
  then show ?thesis using assms by (auto simp: OnAuthState_def Let_def split: if_splits)
next
  case TimerFired
  then show ?thesis using assms by (simp add: OnApprovalTimer_def)
next
  case AppQuits
  then show ?thesis using assms by (simp add: ShutDownApproval_def)
qed (use assms in \<open>auto simp: StartFlow_def\<close>)

text \<open>
  (C32) One answer for one attempt. After any events, the approvals and denials the page was told of are no more than
  the attempts started, one fewer while an attempt still waits; and when none waits nothing of an attempt is left
  in memory, its state, its keys and the network it was for.
\<close>

theorem one_answer_per_attempt:
  "wiped (apSlot (run (approval_step js cy) NewApprover es)) \<and>
    answers (run (approval_step js cy) NewApprover es) +
      (if slLive (apSlot (run (approval_step js cy) NewApprover es)) then 1 else 0)
    \<le> attempts (run (approval_step js cy) NewApprover es)"
proof -
  have "approval_inv NewApprover"
    by (simp add: approval_inv_def NewApprover_def NewSlot_def wiped_def heard_defs)
  from approver.run_good_total [OF this, of js cy es] show ?thesis unfolding approval_inv_def by simp
qed

text \<open>
  (C36) No link can spoil an attempt. From a click that started one, let any links arrive while it lives that are of
  another state or do not open, in any number; then the page's own answer, the four pairs in any order with the
  state of the request, is accepted and its code handed on.
\<close>

theorem honest_answer_accepted:
  assumes "start_attempt o1 a = (Some view, a')" and "ofDrawn o1 = Some raw" and "length raw = kStateBytes"
    and "apHasPage a" and "\<not> apQuitting a"
    and "list_all (\<lambda>(ar, url). \<not> ExpiredAt (arNow ar) (apSlot a') \<and> stray_link js cy (apSlot a') url) links"
    and "\<not> ExpiredAt (arNow ar) (apSlot a')"
    and "slash \<in> {[], ''/''}" and "length (auth_text slash ps) \<le> 4096" and "distinct ps"
    and "set ps = {(''state'', viState view), (''epk'', epk), (''n'', nonce), (''d'', data)}"
    and "IsBase58 epk 64 \<and> IsBase58 nonce 64 \<and> IsBase58 data 2048"
    and "Unseal js cy (slSecretKey (apSlot a')) (sealed_return (viState view) epk nonce data) = Some code"
  shows "\<exists>before. apHeard (HandleAuthLink js cy ar (auth_text slash ps)
      (foldl (\<lambda>a (ar, url). HandleAuthLink js cy ar url a) a' links)) = before @ [WindowShown, PageApproved code]"
proof -
  obtain keys raw' where u: "usable_pair keys" and raw': "ofDrawn o1 = Some raw'" and off: "ApprovalOfferedIn o1 a"
    and a': "a' = a\<lparr>apFlow := apFlow a + 1, apSlot := \<lparr>slLive = True, slState = Base64Url raw', slPublicKey = kpPublic keys,
      slSecretKey = kpSecret keys, slApi = nwApi (ofNetwork o1), slBegun = ofBegun o1, slFlow = apFlow a + 1\<rparr>,
      apHeard := apHeard a @ [AttemptStarted]\<rparr>" and view: "view = ViewOf (apSlot a')"
    by (rule start_attempt_some [OF assms(1)])
  let ?b = "foldl (\<lambda>a (ar, url). HandleAuthLink js cy ar url a) a' links"
  have st: "viState view = slState (apSlot a')" "state_ok (viState view)"
    using view a' raw' assms(2,3) fresh_state_ok by (simp_all add: ViewOf_def)
  have "waiting a'" "apHasPage a'"
    using offered_not_signed_in [OF off] assms(4,5) by (simp_all add: a' waiting_def ApprovalContext_def)
  then have b: "waiting ?b" "apSlot ?b = apSlot a'" "apHasPage ?b" using strays_keep [OF _ assms(6)] by blast+
  have p: "Parse kApprovalV1 (auth_text slash ps) = sealed_return (viState view) epk nonce data"
    unfolding sealed_exact using assms(8-12) st(2) by blast
  have "apHeard (HandleAuthLink js cy ar (auth_text slash ps) ?b) = apHeard ?b @ [WindowShown, PageApproved code]"
    using answer_arrives [OF b(1,3), of ar "auth_text slash ps" epk nonce data js cy code] p st(1) assms(7,13)
    unfolding b(2) by simp
  then show ?thesis by blast
qed

text \<open>
  Every attempt that starts has a request the page takes: the state drawn, a usable key, the network read off the
  live space and a clock in this century make the address, with the version that goes with the network.
\<close>

theorem attempt_has_request:
  assumes "start_attempt o1 a = (Some view, a')" and "ofDrawn o1 = Some raw" and "length raw = kStateBytes"
    and "ofNetwork o1 = NetworkOf official liveApiUrl operator"
    and "1000000000 * second \<le> ckWall (ofBegun o1)" and "ckWall (ofBegun o1) < 10000000000 * second"
    and "pageUrl \<noteq> []" and "length pageUrl \<le> 200"
    and "list_all (\<lambda>c. 32 < code_of c \<and> code_of c < 127 \<and> c \<noteq> CHR ''#'' \<and> c \<noteq> CHR ''%'') pageUrl"
  shows "\<exists>ts. BuildRequestUrl pageUrl view = pageUrl @ ''#v='' @
      (if nwKind (ofNetwork o1) = CustomNetwork then ''2'' else ''1'') @ ''&platform=windows&state='' @ viState view @
      ''&pk='' @ viPublicKey view @ ''&ts='' @ ts @
      (if nwKind (ofNetwork o1) = CustomNetwork then ''&api='' @ nwApi (ofNetwork o1) else [])"
proof -
  obtain keys raw' where u: "usable_pair keys" and raw': "ofDrawn o1 = Some raw'" and off: "ApprovalOfferedIn o1 a"
    and a': "a' = a\<lparr>apFlow := apFlow a + 1, apSlot := \<lparr>slLive = True, slState = Base64Url raw', slPublicKey = kpPublic keys,
      slSecretKey = kpSecret keys, slApi = nwApi (ofNetwork o1), slBegun = ofBegun o1, slFlow = apFlow a + 1\<rparr>,
      apHeard := apHeard a @ [AttemptStarted]\<rparr>" and view: "view = ViewOf (apSlot a')"
    by (rule start_attempt_some [OF assms(1)])
  have st: "length (viState view) = kStateChars" "list_all IsBase64UrlChar (viState view)"
    using view a' raw' assms(2,3) fresh_state_ok by (auto simp: ViewOf_def state_ok_def)
  have pk: "viPublicKey view = kpPublic keys" "viApi view = nwApi (ofNetwork o1)" using view a' by (simp_all add: ViewOf_def)
  have pk58: "list_all IsBase64UrlChar (viPublicKey view)"
    using u pk(1) base58_base64 by (auto simp: usable_pair_def list_all_iff)
  have "viStartedUnix view = ckWall (ofBegun o1) div second" using view a' assms(5) by (simp add: ViewOf_def second_def)
  moreover have "1000000000 \<le> ckWall (ofBegun o1) div second" "ckWall (ofBegun o1) div second < 10000000000"
    using assms(5,6) by (simp_all add: second_def)
  ultimately have ts: "length (show_int (viStartedUnix view)) = 10" "list_all IsDigit (show_int (viStartedUnix view))"
    using ten_digits by simp_all
  have kind: "nwKind (ofNetwork o1) \<noteq> NoNetwork" using off by (auto simp: ApprovalOfferedIn_def split: if_splits)
  have named: "viApi view \<noteq> [] \<longleftrightarrow> nwKind (ofNetwork o1) = CustomNetwork"
    using kind unfolding pk(2) assms(4) by (auto simp: NetworkOf_def Let_def split: if_splits)
  have ok: "viApi view = [] \<or> IsValidApiHost (viApi view)" unfolding pk(2) assms(4) by (rule network_api)
  show ?thesis
    unfolding BuildRequestUrl_def Let_def
    using st pk pk58 ts named ok u assms(7-9) by (auto simp: usable_pair_def)
qed

section \<open>A concrete attempt\<close>

definition crypto_sample :: Crypto where
  "crypto_sample = \<lparr>cyDecode58 = (\<lambda>_. Some [1]), cyShared = (\<lambda>_ k. Some (if k = [1] then [2] else [0])),
    cyEncode58 = (\<lambda>_. Some ''k''), cyDecrypt = (\<lambda>_ _ _. Some [7])\<rparr>"

definition json_sample :: "string \<Rightarrow> JsonValue Json" where
  "json_sample st = value_json\<lparr>jsParse := (\<lambda>_. Some (VObject [(''c'', VString ''code''), (''s'', VString st)]))\<rparr>"

definition clocks_sample :: Clocks where
  "clocks_sample = \<lparr>ckSteady = 0, ckWall = 1500000000 * second\<rparr>"

definition offer_sample :: Offer where
  "offer_sample = \<lparr>ofEnabled = True, ofNetwork = NetworkOf True ''https://api.bringyour.com'' ''bringyour.com'',
    ofElevated = False, ofPageLive = True, ofPageLists = (\<lambda>_. True), ofHandler = Handler_Ours, ofEnsured = True,
    ofKeys = (\<lambda>_. Some \<lparr>kpPublic = replicate 43 (CHR ''1''), kpSecret = ''k''\<rparr>), ofNow = clocks_sample,
    ofBegun = clocks_sample, ofDrawn = Some (replicate 32 0)\<rparr>"

definition state_sample :: string where "state_sample = Base64Url (replicate 32 0)"

definition slot_sample :: Slot where
  "slot_sample = \<lparr>slLive = True, slState = state_sample, slPublicKey = replicate 43 (CHR ''1''), slSecretKey = ''k'',
    slApi = [], slBegun = clocks_sample, slFlow = 1\<rparr>"

definition idle_sample :: Approver where "idle_sample = NewApprover\<lparr>apHasPage := True\<rparr>"

definition started_sample :: Approver where
  "started_sample = idle_sample\<lparr>apFlow := 1, apSlot := slot_sample, apHeard := [AttemptStarted]\<rparr>"

definition pairs_sample :: "(string \<times> string) list" where
  "pairs_sample = [(''d'', ''1''), (''state'', state_sample), (''epk'', ''1''), (''n'', ''1'')]"

definition arrival_sample :: Arrival where
  "arrival_sample = \<lparr>arNow = clocks_sample, arSteady = 0, arCreated = True\<rparr>"

lemma network_sample: "ofNetwork offer_sample = \<lparr>nwKind = OfficialNetwork, nwApi = []\<rparr>"
  by (simp add: offer_sample_def NetworkOf_def ApiHostOfUrl_def Let_def Lower_def is_upper_def is_lower_def IsValidApiHost_def
      kMaxApiChars_def IsApiLabel_def kMaxApiLabelChars_def IsLowerOrDigit_def IsAllDigits_def IsHexNumber_def IsDigit_def)

lemma keys_sample: "FreshKeyPair (ofKeys offer_sample) = Some \<lparr>kpPublic = replicate 43 (CHR ''1''), kpSecret = ''k''\<rparr>"
  by (simp add: FreshKeyPair_def offer_sample_def kKeyPairTries_def upt_conv_Cons usable_pair_def kMinPublicKeyChars_def
      kMaxPublicKeyChars_def list_all_iff IsBase58Char_def IsDigit_def)

lemma start_sample: "start_attempt offer_sample idle_sample = (Some (ViewOf slot_sample), started_sample)"
proof -
  have "ApprovalOfferedIn offer_sample idle_sample"
    by (simp add: ApprovalOfferedIn_def network_sample) (simp add: offer_sample_def idle_sample_def ApprovalContext_def NewApprover_def)
  moreover have "ofEnsured offer_sample" "ofBegun offer_sample = clocks_sample" "ofDrawn offer_sample = Some (replicate 32 0)"
    by (simp_all add: offer_sample_def)
  ultimately show ?thesis
    unfolding start_attempt_def keys_sample
    by (simp add: BeginAttempt_def Let_def StartFlow_def idle_sample_def NewApprover_def WipeAll_def NewSlot_def
        network_sample started_sample_def slot_sample_def state_sample_def)
qed

lemma state_sample_ok: "state_ok state_sample" "length state_sample = 43" "state_sample \<noteq> []"
proof -
  show s: "state_ok state_sample" unfolding state_sample_def by (rule fresh_state_ok) (simp add: kStateBytes_def)
  then show "length state_sample = 43" by (simp add: state_ok_def kStateChars_def)
  then show "state_sample \<noteq> []" by auto
qed

lemma alive_sample: "\<not> ExpiredAt (arNow arrival_sample) slot_sample"
  by (simp add: ExpiredAt_def arrival_sample_def slot_sample_def kLife_def kWallSkew_def second_def)

lemma not_one_sample: "replicate 32 (0 :: 8 word) \<noteq> [1]"
  by (metis One_nat_def length_Cons length_replicate list.size(3) numeral_eq_one_iff semiring_norm(85))

lemma unseal_sample:
  "Unseal (json_sample state_sample) crypto_sample (slSecretKey slot_sample) (sealed_return state_sample ''1'' ''1'' ''1'') =
    Some ''code''"
  using not_one_sample by (simp add: Unseal_def crypto_sample_def SameBytes_def chars_of_def answer_of_def json_sample_def value_json_def
      sealed_return_def)

lemma pairs_sample_set:
  "set pairs_sample = {(''state'', viState (ViewOf slot_sample)), (''epk'', ''1''), (''n'', ''1''), (''d'', ''1'')}"
  by (simp add: pairs_sample_def ViewOf_def slot_sample_def insert_commute)

lemma one_ok: "IsBase58 ''1'' 64 \<and> IsBase58 ''1'' 64 \<and> IsBase58 ''1'' 2048"
  by (simp add: IsBase58_def IsBase58Char_def IsDigit_def)

lemma link_sample_length: "length (auth_text [] pairs_sample) \<le> 4096"
  by (simp add: auth_text_def pairs_sample_def kAuthPrefix_def state_sample_ok)

lemma stray_sample: "stray_link js cy slot_sample ''x''"
  using state_sample_ok(3)
  by (simp add: stray_link_def slot_sample_def Parse_def kApprovalV1_def kAuthPrefix_def RefusedLink_def)

theorem honest_answer_accepted_witness:
  "\<exists>before. apHeard (HandleAuthLink (json_sample state_sample) crypto_sample arrival_sample (auth_text [] pairs_sample)
      (foldl (\<lambda>a (ar, url). HandleAuthLink (json_sample state_sample) crypto_sample ar url a) started_sample
        [(arrival_sample, ''x''), (arrival_sample, ''x'')])) = before @ [WindowShown, PageApproved ''code'']"
proof (rule honest_answer_accepted [OF start_sample])
  show "ofDrawn offer_sample = Some (replicate 32 0)" by (simp add: offer_sample_def)
  show "length (replicate 32 (0 :: 8 word)) = kStateBytes" by (simp add: kStateBytes_def)
  show "apHasPage idle_sample" "\<not> apQuitting idle_sample" by (simp_all add: idle_sample_def NewApprover_def)
  have s: "apSlot started_sample = slot_sample" by (simp add: started_sample_def)
  show "list_all (\<lambda>(ar, url). \<not> ExpiredAt (arNow ar) (apSlot started_sample) \<and>
      stray_link (json_sample state_sample) crypto_sample (apSlot started_sample) url)
      [(arrival_sample, ''x''), (arrival_sample, ''x'')]"
    unfolding s using alive_sample stray_sample by simp
  show "\<not> ExpiredAt (arNow arrival_sample) (apSlot started_sample)" unfolding s by (rule alive_sample)
  show "[] \<in> {[], ''/''}" by simp
  show "length (auth_text [] pairs_sample) \<le> 4096" by (rule link_sample_length)
  show "distinct pairs_sample" by (simp add: pairs_sample_def)
  show "set pairs_sample = {(''state'', viState (ViewOf slot_sample)), (''epk'', ''1''), (''n'', ''1''), (''d'', ''1'')}"
    by (rule pairs_sample_set)
  show "IsBase58 ''1'' 64 \<and> IsBase58 ''1'' 64 \<and> IsBase58 ''1'' 2048" by (rule one_ok)
  show "Unseal (json_sample state_sample) crypto_sample (slSecretKey (apSlot started_sample))
      (sealed_return (viState (ViewOf slot_sample)) ''1'' ''1'' ''1'') = Some ''code''"
    unfolding s using unseal_sample by (simp add: ViewOf_def slot_sample_def)
qed

lemma link_sample_parsed: "Parse kApprovalV1 (auth_text [] pairs_sample) = sealed_return state_sample ''1'' ''1'' ''1''"
proof -
  have "set pairs_sample = {(''state'', state_sample), (''epk'', ''1''), (''n'', ''1''), (''d'', ''1'')}"
    using pairs_sample_set by (simp add: ViewOf_def slot_sample_def)
  moreover have "distinct pairs_sample" by (simp add: pairs_sample_def)
  ultimately show ?thesis unfolding sealed_exact using link_sample_length state_sample_ok(1) one_ok by blast
qed

lemma waiting_sample: "waiting started_sample"
  by (simp add: waiting_def started_sample_def slot_sample_def idle_sample_def NewApprover_def ApprovalContext_def)

theorem answer_is_own_witness:
  "answered (json_sample state_sample) crypto_sample arrival_sample (auth_text [] pairs_sample) started_sample ''code''"
proof -
  let ?e = "LinkArrived arrival_sample (auth_text [] pairs_sample)"
  have s: "apSlot started_sample = slot_sample" "slState slot_sample = state_sample" "apHasPage started_sample"
    by (simp_all add: started_sample_def slot_sample_def idle_sample_def)
  have "IsAuthHost (auth_text [] pairs_sample)"
    by (simp add: IsAuthHost_def EqualsLower_def auth_text_def kAuthPrefix_def narrow_chars_def Lower_def is_upper_def)
  then have "approval_step (json_sample state_sample) crypto_sample started_sample ?e =
      HandleAuthLink (json_sample state_sample) crypto_sample arrival_sample (auth_text [] pairs_sample) started_sample"
    by (simp add: HandleDeepLinkUrl_def)
  moreover have "apHeard (HandleAuthLink (json_sample state_sample) crypto_sample arrival_sample
      (auth_text [] pairs_sample) started_sample) = apHeard started_sample @ [WindowShown, PageApproved ''code'']"
    using answer_arrives [OF waiting_sample s(3), of arrival_sample "auth_text [] pairs_sample" "''1''" "''1''" "''1''"
      "json_sample state_sample" crypto_sample "''code''"] alive_sample unseal_sample link_sample_parsed
    by (simp add: s)
  ultimately have "approved_in started_sample (approval_step (json_sample state_sample) crypto_sample started_sample ?e) ''code''"
    by (simp add: approved_in_def)
  from answer_is_own [OF this] show ?thesis by auto
qed

theorem attempt_has_request_witness:
  "BuildRequestUrl ''https://ur.io/login-app'' (ViewOf slot_sample) \<noteq> []"
proof -
  have n: "ofNetwork offer_sample = NetworkOf True ''https://api.bringyour.com'' ''bringyour.com''"
    and d: "ofDrawn offer_sample = Some (replicate 32 0)" by (simp_all add: offer_sample_def)
  have l: "length (replicate 32 (0 :: 8 word)) = kStateBytes" by (simp add: kStateBytes_def)
  have c: "1000000000 * second \<le> ckWall (ofBegun offer_sample)" "ckWall (ofBegun offer_sample) < 10000000000 * second"
    by (simp_all add: offer_sample_def clocks_sample_def second_def)
  have p: "''https://ur.io/login-app'' \<noteq> []" "length ''https://ur.io/login-app'' \<le> 200"
    "list_all (\<lambda>c. 32 < code_of c \<and> code_of c < 127 \<and> c \<noteq> CHR ''#'' \<and> c \<noteq> CHR ''%'') ''https://ur.io/login-app''"
    by simp_all
  show ?thesis using attempt_has_request [OF start_sample d l n c p] by (elim exE) simp
qed

end
