(* ===== verification/Spec2Isabelle.thy ===== *)
theory Spec2Isabelle
  imports NetPolicy DeadTunnel Capture NetworkChange BalanceGate ConnectAction ProvideLifecycle UpdateFlow
    UpdateMarker StopBudget InstanceHandover NetworkCountry WfpPolicy WfpVerdict TunnelWatchdog ControllerSafety
    EgressMonitor FlowOwner LogUpload Obligations Wire RpcSession ControlServer PacketPump Approval
begin

text \<open>
  URnetwork for Windows: a verification development.

  \<^bold>\<open>The program.\<close> URnetwork for Windows is two processes and an updater. The service (\<^verbatim>\<open>urnetworkd\<close>,
  \<^verbatim>\<open>src/app/src/Service\<close>) owns the machine: the wintun adapter, the routes and resolvers that capture
  traffic, the leak-prevention firewall, the SDK device that carries the tunnel, and the watchdogs that
  take all of it down again. The app (\<^verbatim>\<open>src/app/src/App\<close>) asks it over a control pipe and decides what to
  show; what the two must agree on is in the headers of \<^verbatim>\<open>src/app/src/Common\<close>. The updater
  (\<^verbatim>\<open>src/app/src/Updater\<close>) follows the flow of \<^verbatim>\<open>Common/UpdateFormats.h\<close>, \<^verbatim>\<open>UpdateApply.h\<close> and their siblings.

  A connect goes: \<open>ConnectAction\<close> decides it in the app, the controller runs its steps and waits in
  \<^verbatim>\<open>preparing\<close>, the watchdog's sampler proves an exit into the \<open>Capture\<close> readiness, and a ticket from
  there lets the controller run the four stages that widen the firewall, install routes and DNS and
  narrow the firewall to the tunnel. From then on the evaluator judges the tunnel dead or alive
  (\<open>DeadTunnel\<close>) and stops it within the budgets of \<open>StopBudget\<close>.

  \<^bold>\<open>The theories\<close>, in the order of the program's layers:

  \<^item> \<open>Prelude\<close>: integers, decimal printing, the \<open>observer\<close> contract of a component that folds
    observations into a state.
  \<^item> \<open>NetPolicy\<close> (\<^verbatim>\<open>Service/NetPolicy.h\<close>): the prefixes the tun captures and the ranges it leaves to the
    LAN, with the splitting that computes one from the other; they partition the address space.
  \<^item> \<open>WfpPolicy\<close> (\<^verbatim>\<open>Service/WfpPolicy.h, .cpp\<close>): the filter sets of the four policy states, the conditions
    built from them and the engine transactions that swap one set for the next, with every failure of
    every call. \<open>WfpVerdict\<close> states which flows a filter set lets out, exactly, for IPv4 and IPv6.
  \<^item> \<open>Capture\<close> (\<^verbatim>\<open>Service/CaptureReadiness.h\<close>): the proof of an exit, the revision-stamped permit made from
    it, and the all-or-nothing capture transaction.
  \<^item> \<open>DeadTunnel\<close> (\<^verbatim>\<open>Service/DeadTunnelVerdict.h\<close>), \<open>NetworkChange\<close> (\<^verbatim>\<open>Service/NetworkChangeNotify.h\<close>) and
    \<open>TunnelWatchdog\<close> (\<^verbatim>\<open>Service/TunnelWatchdog.h, .cpp\<close>): the verdict, the coalesced notifications, and one
    turn of each of the watchdog's two threads over the channel they share.
  \<^item> \<open>NetworkConfig\<close> (\<^verbatim>\<open>Service/NetworkConfig.h, .cpp\<close>): the machine's route, address and resolver tables, the
    transactions that install and revert a capture, the marker a crash is reverted from, and the sweep of
    what an earlier process left.
  \<^item> \<open>EgressMonitor\<close> (\<^verbatim>\<open>Service/EgressMonitor.h, .cpp\<close>): the election of the physical interface the SDK's
    sockets are bound to. \<open>FlowOwner\<close> (\<^verbatim>\<open>Service/FlowOwner.h, .cpp\<close>): which process owns a flow, with its caches.
  \<^item> \<open>PacketPump\<close> (\<^verbatim>\<open>Service/PacketPump.h, .cpp\<close>): the framing of the packet batches, the outbound loop, and the
    stop against a callback in flight.
  \<^item> \<open>LogUpload\<close> (\<^verbatim>\<open>Common/LogUpload.h\<close>): the one log upload in flight and the device it keeps alive.
  \<^item> \<open>Obligations\<close> (\<^verbatim>\<open>Common/SignOut.h, ExtenderReset.h, IngressDnsSync.h, CoalescedWorker.h, ExitDrain.h\<close> and
    siblings): what the app owes the service until it is answered, and the workers that coalesce requests.
  \<^item> \<open>StopBudget\<close> (\<^verbatim>\<open>Service/StopBudget.h\<close>): bounded waits and the workers that outlive them.
  \<^item> \<open>WintunError\<close> (\<^verbatim>\<open>Service/WintunError.h\<close>): the failure texts of the adapter.
  \<^item> \<open>TunnelController\<close> (\<^verbatim>\<open>Service/TunnelController.h, .cpp\<close>): the record \<open>Controller\<close> has the members of the
    class; one function per method, with the phases of the long methods (\<open>StartLocked\<close>, \<open>StopLocked\<close>,
    \<open>BringUpTunnelLocked\<close>) as functions of their own. \<open>ControllerSafety\<close> proves what every run keeps.
  \<^item> \<open>Wire\<close> (\<^verbatim>\<open>Common/Protocol.h\<close>): every message of the control pipe with its JSON encoder and decoder, and the
    client a token names. \<open>RpcSession\<close> (\<^verbatim>\<open>Common/RpcSessionBlob.h\<close>): the record a running tunnel is adopted by.
  \<^item> \<open>ControlServer\<close> (\<^verbatim>\<open>Service/ControlServer.cpp\<close>): the dispatch of a message to the controller, its reply and the
    status pushed, with the controller's operations on settings, spaces, statistics and uploads.
  \<^item> \<open>AuthLink\<close> (\<^verbatim>\<open>App/AuthLink.h\<close>): the parser of a sign-in return, the search of a command line for a link and
    the redaction of links in logs. \<open>Approval\<close> (\<^verbatim>\<open>App/UrIoApproval.h, ApprovalNetwork.h, ApprovalUnseal.h\<close> and what
    \<^verbatim>\<open>App/AppController.cpp\<close> does with them): the attempt a browser approves, its gate, its request and its answer.
  \<^item> \<open>Protocol\<close>, \<open>ConnectAction\<close>, \<open>BalanceGate\<close>, \<open>ConnectionHealth\<close>, \<open>ProvideLifecycle\<close>, \<open>NetworkCountry\<close> and
    \<open>InstanceHandover\<close> (headers of the same names in \<^verbatim>\<open>Common\<close>): the decisions both processes take.
  \<^item> \<open>VersionGrammar\<close>, \<open>CivilTime\<close>, \<open>ReleaseSelection\<close>, \<open>UpdateFlow\<close> and \<open>UpdateMarker\<close>: release tags, the
    updater's calendar, the choice of a release and its download, the flow from offer to installed
    version, and the marker file that carries it across a restart.

  This theory holds what spans them: the firewall and the routes taken together.

  \<^bold>\<open>What the lemmas show.\<close> Of the firewall: a swap leaves the old set or the new one, never a mixture,
  whatever call fails; the armed state lets nothing out that the tun would carry, and the connected state
  nothing but the tun; the port-53 window is open exactly while it is reported open. Of the capture: a
  permit dies with any change of the network it was proved on, and the stages are applied together or
  rolled back. Of the watchdog: no teardown before its full grace, none while inbound traffic arrives,
  none for an account out of balance. Of the controller: the status the app reads without the lock is
  true after every sequence of requests; the shape of every reachable state, with at most one SDK device; the machine is given back
  before any object that can block is touched; a stop gives it back with or without the lock; a process
  clamped to rpc-only never touches the machine; with the kill switch on a completed capture leaves the
  connected policy in force. Of the network configuration: a
  capture is installed whole or not at all, a crash at any point is reverted to the table before, the sweep
  deletes only what is ours; the egress is never the tun. Of the pipe: messages are read back as written,
  silence claims nothing, whatever arrives drives the controller only through its own requests, a message
  that is refused touches nothing, and no status pushed or replied lies about the machine. Of the app's decisions: a connect is never decided on a stale reading, the
  machine is released by a disconnect, the recovery of a balance gate is rate-bounded and kept as
  promised; a sign-in link is read exactly or refused and never logged, only an attempt's own answer completes it,
  once, and no stray keeps that answer out. Of the updater: versions are ordered as their tags, the newest admissible release is chosen,
  times and markers survive a round trip, and the helper installs what was offered.

  \<^bold>\<open>Parameters.\<close> What is not in the sources is an argument of the definitions that use it. The Windows
  filtering engine is the record \<open>Fwpm\<close> of its calls over an abstract state; \<open>fwpm_contract\<close> states its
  documented transaction rules and \<open>wfp_arbitration\<close> the documented arbitration of sublayers and weights;
  \<open>engine_sample\<close> and \<open>verdict_sample\<close> are instances that satisfy them. The JSON library is the record \<open>Json\<close> of
  the operations the codecs use, with \<open>json_laws\<close> what it documents and \<open>value_json\<close> an instance. Address parsing and the application
  identifiers of images are function arguments. The
  crypto of the SDK is the record \<open>Crypto\<close>. The answers of the SDK and of Windows to the controller are
  the fields of \<open>Outside\<close>; those the watchdog meets are \<open>SdkAnswers\<close> and the clock. No hypothesis of a
  property is anything but one of these or a condition of the code.

  \<^bold>\<open>Numbers and loops.\<close> Signed 64-bit times and counts are \<open>int\<close>, since overflow there is undefined and out of
  reach; unsigned counters and addresses are words, where wrap-around is the source's. Loops that wait for
  another thread or process (\<open>bounded_wait\<close>, \<open>join_loop\<close>, \<open>AwaitHelper\<close>, \<open>await_update\<close>) are partial functions into
  \<open>option\<close>; that they return is proved from a clock that reaches their deadline. All other recursion is total.

  \<^bold>\<open>Threads.\<close> A method that holds its object's lock is one step; the watchdog's threads, the lock-free
  escapes of a stop and the connecting watchdog are steps of their own between them, and the capture
  transaction takes the calls other threads make on the readiness while it runs as an argument.

  \<^bold>\<open>Not modelled.\<close> The user interface and its formatting; the calls into the SDK and into Windows behind the
  parameters above (the wintun ring, the pipe's handles); the kernel driver; logs and
  diagnostics; the controller's sampling of statistics and its window trace; the updater's downloads and
  signature checks.
\<close>

section \<open>The firewall and the routes together\<close>

text \<open>A destination that a capture route of the tun takes.\<close>

definition captured_v4 :: "u32 \<Rightarrow> bool" where
  "captured_v4 a \<longleftrightarrow> list_ex (\<lambda>p. matches_v4 p a) kTunCaptureV4"

lemma captured_v4_iff: "captured_v4 a \<longleftrightarrow> \<not> IsLocalBypassV4 a"
  using capture_v4_exact [of a] by (simp add: captured_v4_def list_ex_iff)

definition captured_v6 :: "u64 \<times> u64 \<Rightarrow> bool" where
  "captured_v6 a \<longleftrightarrow> list_ex (\<lambda>p. matches_v6 p a) kTunCaptureV6"

lemma captured_v6_not_bypass: "captured_v6 a \<Longrightarrow> \<not> (\<exists>b\<in>set kLocalBypassV6. matches_v6 b a)"
  using capture_v6_exact [of a] by (auto simp: captured_v6_def list_ex_iff)



text \<open>
  (C2) While connected the tun is the only way out for what the routes capture: an outbound flow, of
  either family, to a captured destination is permitted only when it is on the tun, is the product's
  own, is loopback, is link maintenance, or is a DNS query of a connection that has no resolver at
  all. The IPv6 half is for a tunnel that carries IPv6.
\<close>

theorem tun_is_the_only_path:
  assumes "wfp_arbitration permits" and "built appId (BuildFilterSet inet4 inet6 Wfp_Connected cfg) fs"
  shows "(permits fs ALE_AUTH_CONNECT_V4 x \<and> captured_v4 (flowRemoteV4 x) \<longrightarrow>
      on_tun Wfp_Connected cfg x \<or> own_traffic appId Wfp_Connected cfg x \<or> is_loopback x \<or> is_dhcp_request x \<or>
      is_dns x \<and> \<not> shared_dns_path inet4 inet6 Wfp_Connected cfg) \<and>
    (tunnelV6 Wfp_Connected cfg \<and> permits fs ALE_AUTH_CONNECT_V6 x \<and> captured_v6 (flowRemoteV6 x) \<longrightarrow>
      on_tun Wfp_Connected cfg x \<or> own_traffic appId Wfp_Connected cfg x \<or> is_loopback x \<or>
      is_dhcpv6_request x \<or> is_neighbour_discovery x \<or>
      is_dns x \<and> \<not> shared_dns_path inet4 inet6 Wfp_Connected cfg)"
proof -
  have on: "Wfp_Connected \<noteq> Wfp_Off" by simp
  have r: "resolver_flow inet4 Wfp_Connected cfg x \<Longrightarrow> on_tun Wfp_Connected cfg x"
    and r6: "resolver6_flow inet6 Wfp_Connected cfg x \<Longrightarrow> on_tun Wfp_Connected cfg x"
    by (simp_all add: resolver_flow_def resolver6_flow_def)
  show ?thesis
  proof (intro conjI impI; elim conjE)
    assume p: "permits fs ALE_AUTH_CONNECT_V4 x" and c: "captured_v4 (flowRemoteV4 x)"
    note v = iffD1 [OF connect_v4_verdict [OF assms on] p]
    have "\<not> IsLocalBypassV4 (flowRemoteV4 x)" using c by (simp add: captured_v4_iff)
    with v r show "on_tun Wfp_Connected cfg x \<or> own_traffic appId Wfp_Connected cfg x \<or> is_loopback x \<or>
        is_dhcp_request x \<or> is_dns x \<and> \<not> shared_dns_path inet4 inet6 Wfp_Connected cfg" by blast
  next
    assume t: "tunnelV6 Wfp_Connected cfg" and p: "permits fs ALE_AUTH_CONNECT_V6 x"
      and c: "captured_v6 (flowRemoteV6 x)"
    note v = iffD1 [OF connect_v6_verdict [OF assms on] p]
    have "blockV6 Wfp_Connected cfg" using t by (simp add: blockV6_def)
    with v r6 captured_v6_not_bypass [OF c]
    show "on_tun Wfp_Connected cfg x \<or> own_traffic appId Wfp_Connected cfg x \<or> is_loopback x \<or>
        is_dhcpv6_request x \<or> is_neighbour_discovery x \<or>
        is_dns x \<and> \<not> shared_dns_path inet4 inet6 Wfp_Connected cfg" by blast
  qed
qed

theorem tun_is_the_only_path_witness:
  "\<not> verdict_sample (filters_of Inr (BuildFilterSet inet4_sample inet6_sample Wfp_Connected config_sample))
      ALE_AUTH_CONNECT_V4 flow_sample"
proof -
  have "captured_v4 (flowRemoteV4 flow_sample)"
    by (simp add: captured_v4_iff flow_sample_def IsLocalBypassV4_def kLocalBypassV4_def PrefixMask_def)
  moreover have "\<not> on_tun Wfp_Connected config_sample flow_sample"
    "\<not> own_traffic Inr Wfp_Connected config_sample flow_sample" "\<not> is_loopback flow_sample"
    "\<not> is_dhcp_request flow_sample" "\<not> is_dns flow_sample"
    by (simp_all add: on_tun_def own_traffic_def from_image_def config_sample_def flow_sample_def
        is_loopback_def is_dhcp_request_def is_dns_def)
  ultimately show ?thesis
    using tun_is_the_only_path [OF verdict_sample_arbitration
      sample_built [of "BuildFilterSet inet4_sample inet6_sample Wfp_Connected config_sample"], of flow_sample]
    by blast
qed

end
